(* ===== verification/Prelude.thy ===== *)
theory Prelude
  imports Complex_Main "HOL-Library.Word" "HOL-Library.AList"
begin

text \<open>
  What every component of the development shares: names for Go's machine types, the outcome of a
  Go call (a value, a returned error or a panic), Go maps as association lists with the laws a
  client of a map relies on, and the word arithmetic of time stamps.
\<close>

section \<open>Machine types\<close>

text \<open>Signed Go integers are words too; they are read with \<open>sint\<close> and compared with \<open><s\<close>.\<close>

type_synonym u8 = "8 word"
type_synonym u32 = "32 word"
type_synonym u64 = "64 word"
type_synonym i32 = "32 word"
type_synonym i64 = "64 word"

section \<open>Outcomes of a call\<close>

text \<open>
  A Go function that returns \<open>(T, error)\<close> returns \<open>Ret\<close> or \<open>Err\<close>; a runtime panic (a nil
  dereference, an index out of range, an integer division by zero) is \<open>Panic\<close>.
\<close>

datatype 'a go = Ret 'a | Err string | Panic string

fun go_bind :: "'a go \<Rightarrow> ('a \<Rightarrow> 'b go) \<Rightarrow> 'b go" where
  "go_bind (Ret x) f = f x"
| "go_bind (Err e) f = Err e"
| "go_bind (Panic p) f = Panic p"

lemma go_bind_Ret_iff: "go_bind x f = Ret b \<longleftrightarrow> (\<exists>a. x = Ret a \<and> f a = Ret b)"
  by (cases x) auto

text \<open>Collections of simplification rules: the state updates of the model, and its definitions' views.\<close>

named_theorems map_simps \<open>laws of Go maps\<close>
named_theorems time_simps \<open>arithmetic of time stamps and periods\<close>

section \<open>Go maps\<close>

text \<open>
  A Go map is an association list with distinct keys. A \<open>range\<close> loop visits it in the order of the
  list: Go leaves that order open, and no property of the development depends on it.
\<close>

type_synonym ('k, 'v) gomap = "('k \<times> 'v) list"

definition mget :: "('k, 'v) gomap \<Rightarrow> 'k \<Rightarrow> 'v option" where
  "mget m k = map_of m k"

definition mput :: "'k \<Rightarrow> 'v \<Rightarrow> ('k, 'v) gomap \<Rightarrow> ('k, 'v) gomap" where
  "mput k v m = AList.update k v m"

definition mdel :: "'k \<Rightarrow> ('k, 'v) gomap \<Rightarrow> ('k, 'v) gomap" where
  "mdel k m = filter (\<lambda>kv. fst kv \<noteq> k) m"

definition mwf :: "('k, 'v) gomap \<Rightarrow> bool" where
  "mwf m = distinct (map fst m)"

text \<open>\<open>m[k]\<close> for a slice-valued map: a missing key reads as the nil slice.\<close>

definition mget_list :: "('k, 'v list) gomap \<Rightarrow> 'k \<Rightarrow> 'v list" where
  "mget_list m k = (case mget m k of None \<Rightarrow> [] | Some vs \<Rightarrow> vs)"

text \<open>Equality of maps as \<open>reflect.DeepEqual\<close> sees it: the same keys with the same values.\<close>

definition meq :: "('k, 'v) gomap \<Rightarrow> ('k, 'v) gomap \<Rightarrow> bool" where
  "meq m n \<longleftrightarrow> list_all (\<lambda>(k, v). mget n k = Some v) m \<and> list_all (\<lambda>(k, v). mget m k = Some v) n"

text \<open>The laws a client of a key-value store relies on.\<close>

locale kv_store =
  fixes get :: "'m \<Rightarrow> 'k \<Rightarrow> 'v option"
    and put :: "'k \<Rightarrow> 'v \<Rightarrow> 'm \<Rightarrow> 'm"
    and del :: "'k \<Rightarrow> 'm \<Rightarrow> 'm"
    and inv :: "'m \<Rightarrow> bool"
  assumes get_put: "get (put k v m) k' = (if k' = k then Some v else get m k')"
    and get_del: "get (del k m) k' = (if k' = k then None else get m k')"
    and inv_put: "inv m \<Longrightarrow> inv (put k v m)"
    and inv_del: "inv m \<Longrightarrow> inv (del k m)"
begin

lemma get_put_same: "get (put k v m) k = Some v"
  by (simp add: get_put)

lemma get_put_other: "k' \<noteq> k \<Longrightarrow> get (put k v m) k' = get m k'"
  by (simp add: get_put)

lemma get_del_same: "get (del k m) k = None"
  by (simp add: get_del)

lemma get_put_None: "get (put k v m) k' = None \<longleftrightarrow> k' \<noteq> k \<and> get m k' = None"
  by (simp add: get_put)

lemma get_put_put: "get (put k v (put k w m)) = get (put k v m)"
  by (rule ext) (simp add: get_put)

lemma get_put_del: "get (put k v (del k m)) = get (put k v m)"
  by (rule ext) (simp add: get_put get_del)

lemma get_put_commute: "j \<noteq> k \<Longrightarrow> get (put j v (put k w m)) = get (put k w (put j v m))"
  by (rule ext) (auto simp add: get_put)

end

lemma map_of_filter_key: "map_of (filter (\<lambda>kv. fst kv \<noteq> k) m) k' = (if k' = k then None else map_of m k')"
  by (induction m) auto

interpretation gomap: kv_store mget mput mdel mwf
proof unfold_locales
  fix k :: 'k and v :: 'v and m :: "('k, 'v) gomap"
  show "mwf m \<Longrightarrow> mwf (mput k v m)"
    by (simp add: mwf_def mput_def distinct_update)
  show "mwf m \<Longrightarrow> mwf (mdel k m)"
    by (simp add: mwf_def mdel_def distinct_map_filter)
qed (simp_all add: mget_def mput_def mdel_def map_of_filter_key update_conv')

lemmas gomap_laws [map_simps] = gomap.get_put gomap.get_del gomap.inv_put gomap.inv_del

lemma mget_Nil [simp]: "mget [] k = None"
  by (simp add: mget_def)

lemma mwf_Nil [simp]: "mwf []"
  by (simp add: mwf_def)

lemma mget_list_put [map_simps]:
  "mget_list (mput k v m) k' = (if k' = k then v else mget_list m k')"
  by (simp add: mget_list_def map_simps)

lemma mget_list_del [map_simps]:
  "mget_list (mdel k m) k' = (if k' = k then [] else mget_list m k')"
  by (simp add: mget_list_def map_simps)

lemma mget_Cons [simp]: "mget ((k, v) # m) k' = (if k' = k then Some v else mget m k')"
  by (simp add: mget_def)

lemma mget_list_Cons [simp]: "mget_list ((k, vs) # m) k' = (if k' = k then vs else mget_list m k')"
  by (simp add: mget_list_def)

lemma mget_in_set: "mget m k = Some v \<Longrightarrow> (k, v) \<in> set m"
  by (simp add: mget_def map_of_SomeD)

lemma mget_mem: "mwf m \<Longrightarrow> (k, v) \<in> set m \<Longrightarrow> mget m k = Some v"
  by (simp add: mget_def mwf_def)

lemma meq_refl: "mwf m \<Longrightarrow> meq m m"
  by (auto simp: meq_def list_all_iff mget_mem)

lemma meq_get:
  assumes "meq m n"
  shows "mget m k = mget n k"
proof (cases "mget m k")
  case None
  show ?thesis
  proof (cases "mget n k")
    case (Some v)
    then have "mget m k = Some v"
      using assms mget_in_set [of n k v] by (auto simp: meq_def list_all_iff)
    with None show ?thesis by simp
  qed (simp add: None)
next
  case (Some v)
  then have "mget n k = Some v"
    using assms mget_in_set [of m k v] by (auto simp: meq_def list_all_iff)
  with Some show ?thesis by simp
qed

lemma set_mput: "x \<in> set (mput k v m) \<Longrightarrow> x = (k, v) \<or> x \<in> set m"
  by (induction m) (auto simp: mput_def split: if_splits)

lemma set_mdel: "set (mdel k m) \<subseteq> set m"
  by (auto simp: mdel_def)

section \<open>Lists\<close>

text \<open>\<open>append(xs[:i], xs[i+1:]...)\<close>: the list without its \<open>i\<close>-th element.\<close>

definition remove_nth :: "nat \<Rightarrow> 'a list \<Rightarrow> 'a list" where
  "remove_nth i xs = take i xs @ drop (Suc i) xs"

lemma set_remove_nth: "set (remove_nth i xs) \<subseteq> set xs"
  by (auto simp: remove_nth_def dest: in_set_takeD in_set_dropD)

lemma remove_nth_split: "i < length xs \<Longrightarrow> xs = take i xs @ xs ! i # drop (Suc i) xs"
  by (rule id_take_nth_drop)

lemma distinct_remove_nth:
  assumes "distinct (map f xs)" and "i < length xs"
  shows "distinct (map f (remove_nth i xs))" and "f (xs ! i) \<notin> f ` set (remove_nth i xs)"
proof -
  have "distinct (map f (take i xs @ xs ! i # drop (Suc i) xs))"
    using assms remove_nth_split [of i xs] by simp
  then have d: "distinct (map f (take i xs) @ f (xs ! i) # map f (drop (Suc i) xs))"
    by simp
  from d show "distinct (map f (remove_nth i xs))"
    unfolding remove_nth_def by auto
  from d show "f (xs ! i) \<notin> f ` set (remove_nth i xs)"
    unfolding remove_nth_def by auto
qed

text \<open>Shares laid end to end: every number below their sum lies in one of them.\<close>

lemma share_of: "k < sum_list (ws :: nat list) \<Longrightarrow> \<exists>j < length ws. sum_list (take j ws) \<le> k \<and> k < sum_list (take (Suc j) ws)"
proof (induction ws arbitrary: k)
  case (Cons w ws)
  show ?case
  proof (cases "k < w")
    case False
    then have "k - w < sum_list ws" using Cons.prems by simp
    then obtain j where "j < length ws" "sum_list (take j ws) \<le> k - w" "k - w < sum_list (take (Suc j) ws)"
      using Cons.IH by blast
    then show ?thesis using False by (intro exI [of _ "Suc j"]) auto
  qed auto
qed simp

lemma sum_take_le: "sum_list (take j ws) \<le> sum_list (ws :: nat list)"
  by (metis append_take_drop_id le_add1 sum_list_append)

text \<open>A function that is constant on each share takes the value of a share as often as the share is long.\<close>

lemma share_count:
  assumes i: "i < length ws" and inj: "inj_on g {..<length ws}"
    and f: "\<And>k j. j < length ws \<Longrightarrow> sum_list (take j ws) \<le> k \<Longrightarrow> k < sum_list (take (Suc j) ws) \<Longrightarrow> f k = g j"
  shows "card {k. k < sum_list ws \<and> f k = g i} = ws ! i"
proof -
  let ?S = "\<lambda>j. sum_list (take j ws)"
  have mono: "?S a \<le> ?S b" if "a \<le> b" for a b
    using that by (metis le_add1 le_iff_add sum_list_append take_add)
  have "f k = g i \<longleftrightarrow> ?S i \<le> k \<and> k < ?S (Suc i)" if k: "k < sum_list ws" for k
  proof -
    obtain j where j: "j < length ws" "?S j \<le> k" "k < ?S (Suc j)" using share_of [OF k] by blast
    have "f k = g i \<longleftrightarrow> j = i" using f [OF j] inj i j(1) by (auto simp: inj_on_def)
    also have "\<dots> \<longleftrightarrow> ?S i \<le> k \<and> k < ?S (Suc i)"
      using j mono [of "Suc j" i] mono [of "Suc i" j] by (cases j i rule: linorder_cases) auto
    finally show ?thesis .
  qed
  then have "{k. k < sum_list ws \<and> f k = g i} = {?S i..<?S (Suc i)}"
    using sum_take_le [of "Suc i" ws] by auto
  moreover have "?S (Suc i) = ?S i + ws ! i" using i by (simp add: take_Suc_conv_app_nth)
  ultimately show ?thesis by simp
qed

section \<open>Time stamps\<close>

lemma unat_sub_mod [time_simps]: "unat (a - a mod b) = unat a - unat a mod unat (b :: 'a::len word)"
proof -
  have "a mod b \<le> a"
    by (metis mod_less_eq_dividend unat_mod word_le_nat_alt)
  then show ?thesis
    by (simp add: unat_sub unat_mod)
qed

lemma sint_nonneg_uint: "0 \<le> sint w \<Longrightarrow> uint w = sint (w :: 'a::len word)"
proof -
  assume "0 \<le> sint w"
  have "sint w < 2 ^ (LENGTH('a) - 1)" by (rule sint_lt)
  also have "\<dots> \<le> (2 :: int) ^ LENGTH('a)" by (rule power_increasing) simp_all
  finally show ?thesis
    using \<open>0 \<le> sint w\<close> by (subst uint_sint) (rule take_bit_int_eq_self)
qed

lemma sint_nonneg_unat: "0 \<le> sint w \<Longrightarrow> int (unat w) = sint (w :: 'a::len word)"
  by (simp add: sint_nonneg_uint)

lemma sint_add_small:
  assumes "- (2 ^ 63) \<le> sint a + sint b" and "sint a + sint b < 2 ^ 63"
  shows "sint (a + b :: i64) = sint a + sint b"
  using assms by (simp add: sint_word_ariths signed_take_bit_int_eq_self)

lemma sint_diff_small:
  assumes "- (2 ^ 63) \<le> sint a - sint b" and "sint a - sint b < 2 ^ 63"
  shows "sint (a - b :: i64) = sint a - sint b"
  using assms by (simp add: sint_word_ariths signed_take_bit_int_eq_self)

lemma sint_mult_small:
  assumes "- (2 ^ 63) \<le> sint a * sint b" and "sint a * sint b < 2 ^ 63"
  shows "sint (a * b :: i64) = sint a * sint b"
  using assms by (simp add: sint_word_ariths signed_take_bit_int_eq_self)

lemma sint_small: "unat (w :: u64) < 2 ^ 63 \<Longrightarrow> sint w = int (unat w)"
proof -
  assume "unat w < 2 ^ 63"
  then have "uint w < 2 ^ 63"
    by (metis of_nat_less_iff of_nat_numeral of_nat_power uint_nat)
  then show ?thesis
    by (simp add: sint_uint signed_take_bit_int_eq_self order_trans [of _ 0])
qed

lemma unat_u32_lt: "unat (w :: u32) < 2 ^ 32"
proof -
  have "unat w < 2 ^ LENGTH(32)" by (rule unsigned_less)
  then show ?thesis by simp
qed

lemma unat_ucast_32_64 [simp]: "unat (ucast (x :: u32) :: u64) = unat x"
proof -
  have "uint (ucast x :: u64) = uint x" by (rule uint_up_ucast) (simp add: is_up)
  then show ?thesis by (metis unat_eq_nat_uint)
qed

lemma unat_add_no_wrap: "unat (a :: u64) + unat b < 2 ^ 64 \<Longrightarrow> unat (a + b) = unat a + unat b"
  by (simp add: unat_word_ariths)

lemma mod_eq_close:
  assumes "a \<le> b" and "b - a < n" and "b mod n = a mod (n :: nat)"
  shows "b = a"
proof -
  have "n dvd b - a" using assms(1,3) by (simp add: mod_eq_dvd_iff_nat)
  with assms(2) have "b - a = 0" using dvd_imp_le not_le by blast
  with assms(1) show ?thesis by simp
qed

lemma period_start: "(n :: nat) - n mod b = n div b * b"
  by (metis minus_mod_eq_div_mult)

lemma sum_list_window:
  fixes w :: "'e \<Rightarrow> 'c :: comm_monoid_add"
  shows "(\<Sum>p \<in> {q + 1 - k .. q}. \<Sum>x \<leftarrow> xs. if P x = p then w x else 0) =
    (\<Sum>x \<leftarrow> xs. if P x \<le> q \<and> q < P x + (k :: nat) then w x else 0)"
proof (induction xs)
  case Nil
  then show ?case by simp
next
  case (Cons x xs)
  have "(\<Sum>p \<in> {q + 1 - k .. q}. if P x = p then w x else 0) =
      (if P x \<le> q \<and> q < P x + k then w x else 0)"
    by (auto simp: sum.delta)
  with Cons.IH show ?case by (simp add: sum.distrib)
qed

end
