(* ===== verification/GoStrings.thy ===== *)
theory GoStrings
  imports Prelude
begin

text \<open>
  What the code uses of Go's \<open>strings\<close> and \<open>strconv\<close>: splitting at a one-byte separator, joining,
  replacing a byte, decimal formatting and parsing. A Go string is its list of bytes.
\<close>

section \<open>Splitting and joining\<close>

text \<open>\<open>strings.Split(s, sep)\<close> for a one-byte separator: the empty string splits into one empty part.\<close>

fun split_on :: "char \<Rightarrow> string \<Rightarrow> string list" where
  "split_on c [] = [[]]"
| "split_on c (x # xs) =
     (if x = c then [] # split_on c xs
      else case split_on c xs of [] \<Rightarrow> [[x]] | y # ys \<Rightarrow> (x # y) # ys)"

fun join_with :: "char \<Rightarrow> string list \<Rightarrow> string" where
  "join_with c [] = []"
| "join_with c [p] = p"
| "join_with c (p # ps) = p @ c # join_with c ps"

definition replace_byte :: "char \<Rightarrow> char \<Rightarrow> string \<Rightarrow> string" where
  "replace_byte a b s = map (\<lambda>x. if x = a then b else x) s"

lemma split_on_nonempty: "split_on c s \<noteq> []"
  by (cases s) (auto split: list.splits)

lemma split_on_no_sep: "c \<notin> set s \<Longrightarrow> split_on c s = [s]"
  by (induction s) auto

lemma split_on_append: "c \<notin> set p \<Longrightarrow> split_on c (p @ c # s) = p # split_on c s"
  by (induction p) auto

lemma split_join: "ps \<noteq> [] \<Longrightarrow> \<forall>p \<in> set ps. c \<notin> set p \<Longrightarrow> split_on c (join_with c ps) = ps"
  by (induction c ps rule: join_with.induct) (simp_all add: split_on_no_sep split_on_append)

lemma replace_byte_gone: "a \<noteq> b \<Longrightarrow> a \<notin> set (replace_byte a b s)"
  by (auto simp: replace_byte_def)

text \<open>\<open>util.Contains\<close>: the loop over the parts is list membership.\<close>

definition Contains :: "string \<Rightarrow> string list \<Rightarrow> bool" where
  "Contains findStr arr = list_ex (\<lambda>str. str = findStr) arr"

text \<open>
  \<open>strings.EqualFold(s, "default")\<close>. No byte outside ASCII folds to a letter of \<open>default\<close>, so the
  comparison of ASCII lower case decides it.
\<close>

definition ascii_lower :: "char \<Rightarrow> char" where
  "ascii_lower c = (if 65 \<le> (of_char c :: nat) \<and> (of_char c :: nat) \<le> 90 then char_of ((of_char c :: nat) + 32) else c)"

definition EqualFold_default :: "string \<Rightarrow> bool" where
  "EqualFold_default s \<longleftrightarrow> map ascii_lower s = ''default''"

section \<open>Decimal numbers\<close>

definition digit_char :: "nat \<Rightarrow> char" where
  "digit_char d = char_of (48 + d)"

fun FormatUint :: "nat \<Rightarrow> string" where
  "FormatUint n = (if n < 10 then [digit_char n] else FormatUint (n div 10) @ [digit_char (n mod 10)])"

declare FormatUint.simps [simp del]

definition FormatInt :: "int \<Rightarrow> string" where
  "FormatInt i = (if i < 0 then CHR ''-'' # FormatUint (nat (- i)) else FormatUint (nat i))"

text \<open>
  \<open>strconv.ParseUint(s, 10, bits)\<close> and \<open>strconv.ParseInt(s, 10, bits)\<close>; \<open>None\<close> is an error, of syntax or
  of range.
\<close>

definition digit_val :: "char \<Rightarrow> nat option" where
  "digit_val c = (let n = of_char c in if 48 \<le> n \<and> n \<le> 57 then Some (n - 48) else None)"

fun parse_digits :: "nat \<Rightarrow> string \<Rightarrow> nat option" where
  "parse_digits acc [] = Some acc"
| "parse_digits acc (c # cs) =
     (case digit_val c of None \<Rightarrow> None | Some d \<Rightarrow> parse_digits (10 * acc + d) cs)"

definition ParseUint :: "nat \<Rightarrow> string \<Rightarrow> nat option" where
  "ParseUint bits s =
     (if s = [] then None
      else case parse_digits 0 s of
        None \<Rightarrow> None | Some n \<Rightarrow> if n < 2 ^ bits then Some n else None)"

definition ParseInt :: "nat \<Rightarrow> string \<Rightarrow> int option" where
  "ParseInt bits s =
     (case s of
        [] \<Rightarrow> None
      | c # cs \<Rightarrow>
          let neg = (c = CHR ''-''); rest = (if c = CHR ''+'' \<or> c = CHR ''-'' then cs else s)
          in case ParseUint bits rest of
               None \<Rightarrow> None
             | Some un \<Rightarrow>
                 if \<not> neg \<and> 2 ^ (bits - 1) \<le> un then None
                 else if neg \<and> 2 ^ (bits - 1) < un then None
                 else Some (if neg then - int un else int un))"

lemma digit_val_char [simp]: "d < 10 \<Longrightarrow> digit_val (digit_char d) = Some d"
  by (simp add: digit_val_def digit_char_def of_char_of take_bit_eq_mod)

lemma parse_digits_append: "parse_digits acc (s @ t) =
  (case parse_digits acc s of None \<Rightarrow> None | Some n \<Rightarrow> parse_digits n t)"
  by (induction s arbitrary: acc) (auto split: option.splits)

lemma parse_FormatUint: "parse_digits 0 (FormatUint n) = Some n"
proof (induction n rule: FormatUint.induct)
  case (1 n)
  show ?case
  proof (cases "n < 10")
    case True
    then show ?thesis by (simp add: FormatUint.simps [of n])
  next
    case False
    with 1 have "parse_digits 0 (FormatUint (n div 10)) = Some (n div 10)" by simp
    with False show ?thesis by (simp add: FormatUint.simps [of n] parse_digits_append)
  qed
qed

lemma FormatUint_nonempty: "FormatUint n \<noteq> []"
  by (subst FormatUint.simps) simp

lemma FormatUint_digits: "c \<in> set (FormatUint n) \<Longrightarrow> \<exists>d < 10. c = digit_char d"
proof (induction n rule: FormatUint.induct)
  case (1 n)
  then show ?case
  proof (cases "n < 10")
    case True
    with "1.prems" show ?thesis by (auto simp: FormatUint.simps [of n])
  next
    case False
    have "\<exists>d < 10. digit_char (n mod 10) = digit_char d"
      by (rule exI [of _ "n mod 10"]) simp
    with False 1 show ?thesis by (auto simp: FormatUint.simps [of n])
  qed
qed

lemma digit_char_not: "d < 10 \<Longrightarrow> (of_char c :: nat) < 48 \<or> 57 < (of_char c :: nat) \<Longrightarrow> digit_char d \<noteq> c"
  by (auto simp: digit_char_def of_char_of take_bit_eq_mod)

lemma FormatUint_no_sep: "(of_char c :: nat) < 48 \<or> 57 < (of_char c :: nat) \<Longrightarrow> c \<notin> set (FormatUint n)"
  using FormatUint_digits digit_char_not by metis

lemma FormatInt_no_sep:
  "(of_char c :: nat) < 48 \<or> 57 < (of_char c :: nat) \<Longrightarrow> c \<noteq> CHR ''-'' \<Longrightarrow> c \<notin> set (FormatInt i)"
  by (auto simp: FormatInt_def FormatUint_no_sep)

lemma ParseUint_FormatUint: "n < 2 ^ bits \<Longrightarrow> ParseUint bits (FormatUint n) = Some n"
  by (simp add: ParseUint_def parse_FormatUint FormatUint_nonempty)

lemma ParseInt_FormatInt:
  assumes "0 < bits" and "- (2 ^ (bits - 1)) \<le> i" and "i < 2 ^ (bits - 1)"
  shows "ParseInt bits (FormatInt i) = Some i"
proof (cases "i < 0")
  case True
  have "nat (- i) \<le> 2 ^ (bits - 1)" using assms(2) by (simp add: nat_le_iff)
  moreover have "(2 :: nat) ^ (bits - 1) < 2 ^ bits" using assms(1) by simp
  ultimately have "ParseUint bits (FormatUint (nat (- i))) = Some (nat (- i))"
    by (rule ParseUint_FormatUint [OF le_less_trans])
  with True \<open>nat (- i) \<le> 2 ^ (bits - 1)\<close> show ?thesis
    by (simp add: ParseInt_def FormatInt_def)
next
  case False
  have lt: "nat i < 2 ^ (bits - 1)" using assms(3) False by (simp add: nat_less_iff)
  moreover have "(2 :: nat) ^ (bits - 1) \<le> 2 ^ bits" by simp
  ultimately have p: "ParseUint bits (FormatUint (nat i)) = Some (nat i)"
    by (rule ParseUint_FormatUint [OF less_le_trans])
  obtain c cs where cs: "FormatUint (nat i) = c # cs"
    using FormatUint_nonempty by (cases "FormatUint (nat i)") auto
  have "CHR ''+'' \<notin> set (FormatUint (nat i))" "CHR ''-'' \<notin> set (FormatUint (nat i))"
    by (simp_all add: FormatUint_no_sep)
  then have "c \<noteq> CHR ''+''" "c \<noteq> CHR ''-''" by (auto simp: cs)
  with False p lt show ?thesis by (simp add: ParseInt_def FormatInt_def cs)
qed

end
