(* ===== verification/MetricItem.thy ===== *)
theory MetricItem
  imports GoStrings
begin

text \<open>
  The line format of the metric log, \<open>core/base/metric_item.go\<close>: the writer of both line forms, the
  parser of the long one, and their round trip. The formatted time comes from the time library: it
  is an argument of the writer, and all the code relies on is that it holds no separator.
\<close>

record metric_item =
  mi_Resource :: string
  mi_Classification :: i32
  mi_Timestamp :: u64
  mi_PassQps :: u64
  mi_BlockQps :: u64
  mi_CompleteQps :: u64
  mi_ErrorQps :: u64
  mi_AvgRt :: u64
  mi_OccupiedPassQps :: u64
  mi_Concurrency :: u32
  mi_BlockedNumByFlow :: u64
  mi_BlockedNumByIsolation :: u64
  mi_BlockedNumByCircuitBreaking :: u64
  mi_BlockedNumBySystem :: u64
  mi_BlockedNumByHotspotParam :: u64
  mi_BlockedNumByMock :: u64

text \<open>\<open>&MetricItem{}\<close>: every field is its zero value.\<close>

definition empty_item :: metric_item where
  "empty_item = \<lparr>mi_Resource = [], mi_Classification = 0, mi_Timestamp = 0, mi_PassQps = 0,
     mi_BlockQps = 0, mi_CompleteQps = 0, mi_ErrorQps = 0, mi_AvgRt = 0, mi_OccupiedPassQps = 0,
     mi_Concurrency = 0, mi_BlockedNumByFlow = 0, mi_BlockedNumByIsolation = 0,
     mi_BlockedNumByCircuitBreaking = 0, mi_BlockedNumBySystem = 0,
     mi_BlockedNumByHotspotParam = 0, mi_BlockedNumByMock = 0\<rparr>"

section \<open>Writing\<close>

text \<open>The verbs \<open>%d\<close> of the format, for an unsigned word.\<close>

definition fmt_u :: "'a::len word \<Rightarrow> string" where
  "fmt_u w = FormatUint (unat w)"

definition finalName :: "metric_item \<Rightarrow> string" where
  "finalName m = replace_byte (CHR ''|'') (CHR ''-'') (mi_Resource m)"

definition metric_fields :: "metric_item \<Rightarrow> string list" where
  "metric_fields m = [fmt_u (mi_PassQps m), fmt_u (mi_BlockQps m), fmt_u (mi_CompleteQps m),
     fmt_u (mi_ErrorQps m), fmt_u (mi_AvgRt m), fmt_u (mi_OccupiedPassQps m),
     fmt_u (mi_Concurrency m), FormatInt (sint (mi_Classification m)),
     fmt_u (mi_BlockedNumByFlow m), fmt_u (mi_BlockedNumByIsolation m),
     fmt_u (mi_BlockedNumByCircuitBreaking m), fmt_u (mi_BlockedNumBySystem m),
     fmt_u (mi_BlockedNumByHotspotParam m), fmt_u (mi_BlockedNumByMock m)]"

text \<open>\<open>FormatTimeMillis\<close> is the argument \<open>format_time\<close>.\<close>

definition ToFatString :: "(u64 \<Rightarrow> string) \<Rightarrow> metric_item \<Rightarrow> string" where
  "ToFatString format_time m =
     join_with (CHR ''|'') (fmt_u (mi_Timestamp m) # format_time (mi_Timestamp m) # finalName m # metric_fields m)"

definition ToThinString :: "metric_item \<Rightarrow> string" where
  "ToThinString m = join_with (CHR ''|'') (fmt_u (mi_Timestamp m) # finalName m # metric_fields m)"

section \<open>Parsing\<close>

text \<open>A field of the line: parse it as an unsigned number of \<open>bits\<close> bits, or return the error.\<close>

definition uint_field :: "nat \<Rightarrow> string \<Rightarrow> 'a::len word go" where
  "uint_field bits s =
     (case ParseUint bits s of None \<Rightarrow> Err ''strconv.ParseUint'' | Some n \<Rightarrow> Ret (of_nat n))"

definition int_field :: "nat \<Rightarrow> string \<Rightarrow> 'a::len word go" where
  "int_field bits s =
     (case ParseInt bits s of None \<Rightarrow> Err ''strconv.ParseInt'' | Some i \<Rightarrow> Ret (of_int i))"

text \<open>A field that older lines lack: nothing to do when the line is too short.\<close>

definition opt_field ::
  "(string \<Rightarrow> 'v go) \<Rightarrow> string list \<Rightarrow> nat \<Rightarrow> ('v \<Rightarrow> metric_item \<Rightarrow> metric_item) \<Rightarrow> metric_item \<Rightarrow> metric_item go" where
  "opt_field parse arr i upd item =
     (if i < length arr then go_bind (parse (arr ! i)) (\<lambda>v. Ret (upd v item)) else Ret item)"

definition MetricItemFromFatString :: "string \<Rightarrow> metric_item go" where
  "MetricItemFromFatString line =
     (if line = [] then Err ''invalid metric line: empty string''
      else let arr = split_on (CHR ''|'') line in
      if length arr < 8 then Err ''invalid metric line: invalid format''
      else
        go_bind (uint_field 64 (arr ! 0)) (\<lambda>ts.
        go_bind (uint_field 64 (arr ! 3)) (\<lambda>p.
        go_bind (uint_field 64 (arr ! 4)) (\<lambda>b.
        go_bind (uint_field 64 (arr ! 5)) (\<lambda>c.
        go_bind (uint_field 64 (arr ! 6)) (\<lambda>e.
        go_bind (uint_field 64 (arr ! 7)) (\<lambda>rt.
        let item = empty_item\<lparr>mi_Timestamp := ts, mi_Resource := arr ! 2, mi_PassQps := p,
                     mi_BlockQps := b, mi_CompleteQps := c, mi_ErrorQps := e, mi_AvgRt := rt\<rparr> in
        go_bind (opt_field (uint_field 64) arr 8 (\<lambda>v. mi_OccupiedPassQps_update (\<lambda>_. v)) item) (\<lambda>item.
        go_bind (opt_field (uint_field 32) arr 9 (\<lambda>v. mi_Concurrency_update (\<lambda>_. v)) item) (\<lambda>item.
        go_bind (opt_field (int_field 32) arr 10 (\<lambda>v. mi_Classification_update (\<lambda>_. v)) item) (\<lambda>item.
        go_bind (opt_field (uint_field 64) arr 11 (\<lambda>v. mi_BlockedNumByFlow_update (\<lambda>_. v)) item) (\<lambda>item.
        go_bind (opt_field (uint_field 64) arr 12 (\<lambda>v. mi_BlockedNumByIsolation_update (\<lambda>_. v)) item) (\<lambda>item.
        go_bind (opt_field (uint_field 64) arr 13 (\<lambda>v. mi_BlockedNumByCircuitBreaking_update (\<lambda>_. v)) item) (\<lambda>item.
        go_bind (opt_field (uint_field 64) arr 14 (\<lambda>v. mi_BlockedNumBySystem_update (\<lambda>_. v)) item) (\<lambda>item.
        go_bind (opt_field (uint_field 64) arr 15 (\<lambda>v. mi_BlockedNumByHotspotParam_update (\<lambda>_. v)) item) (\<lambda>item.
        opt_field (uint_field 64) arr 16 (\<lambda>v. mi_BlockedNumByMock_update (\<lambda>_. v)) item)))))))))))))))"

section \<open>The round trip\<close>

lemma uint_field_fmt [simp]: "LENGTH('a) = bits \<Longrightarrow> uint_field bits (fmt_u (w :: 'a::len word)) = Ret w"
  using unsigned_less [of w] by (auto simp: uint_field_def fmt_u_def ParseUint_FormatUint)

lemma int_field_fmt [simp]: "int_field 32 (FormatInt (sint w)) = Ret (w :: i32)"
  using sint_ge [of w] sint_lt [of w] by (simp add: int_field_def ParseInt_FormatInt)

lemma fmt_u_no_bar [simp]: "CHR ''|'' \<notin> set (fmt_u w)"
  by (simp add: fmt_u_def FormatUint_no_sep)

lemma FormatInt_no_bar [simp]: "CHR ''|'' \<notin> set (FormatInt i)"
  by (simp add: FormatInt_no_sep)

lemma finalName_no_bar [simp]: "CHR ''|'' \<notin> set (finalName m)"
  by (simp add: finalName_def replace_byte_gone)

text \<open>
  Every counter, the concurrency and the classification survive; the name comes back as it was written,
  with the separators in it replaced by dashes.
\<close>

lemma fat_string_parsed:
  assumes "CHR ''|'' \<notin> set (format_time (mi_Timestamp m))"
  shows "MetricItemFromFatString (ToFatString format_time m) = Ret (m\<lparr>mi_Resource := finalName m\<rparr>)"
proof -
  let ?arr = "fmt_u (mi_Timestamp m) # format_time (mi_Timestamp m) # finalName m # metric_fields m"
  have arr: "split_on (CHR ''|'') (ToFatString format_time m) = ?arr"
    unfolding ToFatString_def using assms by (intro split_join) (auto simp: metric_fields_def)
  have "ToFatString format_time m \<noteq> []"
    by (simp add: ToFatString_def metric_fields_def)
  then show ?thesis
    by (simp add: MetricItemFromFatString_def arr metric_fields_def opt_field_def empty_item_def)
qed

lemma finalName_plain: "CHR ''|'' \<notin> set (mi_Resource m) \<Longrightarrow> finalName m = mi_Resource m"
  unfolding finalName_def replace_byte_def by (rule map_idI) auto

text \<open>
  C11: A metric item whose resource name holds no separator, written as a log line, parses back to exactly
  itself: the name, the time stamp, every counter over its whole range, the concurrency and the signed
  classification. The only thing asked of the time format is that it holds no separator either.
\<close>

theorem fat_string_roundtrip:
  assumes "CHR ''|'' \<notin> set (format_time (mi_Timestamp m))" and "CHR ''|'' \<notin> set (mi_Resource m)"
  shows "MetricItemFromFatString (ToFatString format_time m) = Ret m"
  using fat_string_parsed [of format_time m] assms by (simp add: finalName_plain)

definition demo_item :: metric_item where
  "demo_item = empty_item\<lparr>mi_Resource := ''a'', mi_PassQps := 12, mi_Classification := - 1\<rparr>"

theorem fat_string_roundtrip_witness:
  "MetricItemFromFatString (ToFatString (\<lambda>t. ''2024-01-01'') demo_item) = Ret demo_item"
  using fat_string_roundtrip [of "\<lambda>t. ''2024-01-01''" demo_item] by (simp add: demo_item_def empty_item_def)

end
