(* ===== verification/LeapArray.thy ===== *)
theory LeapArray
  imports Prelude
begin

text \<open>
  The sliding window of \<open>core/stat/base/leap_array.go\<close>: a circular array of buckets, each stamped
  with the start of the period it counts, over any type of bucket contents.

  The bucket generator (an interface in the code) is the record \<open>bucket_gen\<close>; its contract is the
  locale \<open>bucket_generator\<close>, inside which the window is proved to hold exactly the contents of the
  latest periods. A pointer to a bucket is its index in the array. A call reads the clock where the
  code does; the reading is an argument.
\<close>

section \<open>Buckets and generators\<close>

text \<open>\<open>Value\<close> is the \<open>atomic.Value\<close> of the bucket: \<open>None\<close> before the first store.\<close>

record 'b bucket_wrap =
  BucketStart :: u64
  Value :: "'b option"

record 'b bucket_gen =
  NewEmptyBucket :: 'b
  ResetBucketTo :: "'b bucket_wrap \<Rightarrow> u64 \<Rightarrow> 'b bucket_wrap"

definition isTimeInBucket :: "'b bucket_wrap \<Rightarrow> u64 \<Rightarrow> u32 \<Rightarrow> bool" where
  "isTimeInBucket ww now bucketLengthInMs \<longleftrightarrow>
     BucketStart ww \<le> now \<and> now < BucketStart ww + ucast bucketLengthInMs"

definition calculateStartTime :: "u64 \<Rightarrow> u32 \<Rightarrow> u64" where
  "calculateStartTime now bucketLengthInMs = now - now mod ucast bucketLengthInMs"

section \<open>The circular array\<close>

text \<open>A nil entry of the slice is \<open>None\<close>. The two loops of the constructor fill ranges of it.\<close>

type_synonym 'b wrap_array = "'b bucket_wrap option list"

fun fill_wraps :: "'b \<Rightarrow> u32 \<Rightarrow> nat list \<Rightarrow> u64 \<Rightarrow> 'b wrap_array \<Rightarrow> 'b wrap_array \<times> u64" where
  "fill_wraps b len [] startTime data = (data, startTime)"
| "fill_wraps b len (i # is) startTime data =
     fill_wraps b len is (startTime + ucast len)
       (data[i := Some \<lparr>BucketStart = startTime, Value = Some b\<rparr>])"

definition NewAtomicBucketWrapArrayWithTime ::
  "u32 \<Rightarrow> u32 \<Rightarrow> u64 \<Rightarrow> 'b bucket_gen \<Rightarrow> 'b wrap_array go" where
  "NewAtomicBucketWrapArrayWithTime len bucketLengthInMs now generator =
     (if bucketLengthInMs = 0 \<or> len = 0 then Panic ''integer divide by zero''
      else let data = replicate (unat len) None;
               idx = unat ((now div ucast bucketLengthInMs) mod ucast len);
               startTime = calculateStartTime now bucketLengthInMs;
               (data, startTime) = fill_wraps (NewEmptyBucket generator) bucketLengthInMs
                                     [idx ..< unat len] startTime data;
               (data, startTime) = fill_wraps (NewEmptyBucket generator) bucketLengthInMs
                                     [0 ..< idx] startTime data
           in Ret data)"

definition aa_in_range :: "'b wrap_array \<Rightarrow> int \<Rightarrow> bool" where
  "aa_in_range aa idx \<longleftrightarrow> \<not> (int (length aa) \<le> idx \<or> idx < 0)"

definition aa_get :: "'b wrap_array \<Rightarrow> int \<Rightarrow> 'b bucket_wrap option" where
  "aa_get aa idx = (if aa_in_range aa idx then aa ! nat idx else None)"

text \<open>
  \<open>compareAndSet\<close> compares the stored pointer with the expected one. It is only called with the
  expected value nil: it succeeds exactly on a nil entry.
\<close>

definition aa_compareAndSet_nil :: "'b wrap_array \<Rightarrow> int \<Rightarrow> 'b bucket_wrap \<Rightarrow> bool \<times> 'b wrap_array" where
  "aa_compareAndSet_nil aa idx update =
     (if aa_in_range aa idx \<and> aa ! nat idx = None then (True, aa[nat idx := Some update])
      else (False, aa))"

section \<open>The leap array\<close>

record 'b leap_array =
  la_bucketLengthInMs :: u32
  la_sampleCount :: u32
  la_intervalInMs :: u32
  la_array :: "'b wrap_array"

definition NewLeapArray :: "u64 \<Rightarrow> u32 \<Rightarrow> u32 \<Rightarrow> 'b bucket_gen option \<Rightarrow> 'b leap_array go" where
  "NewLeapArray now sampleCount intervalInMs generator =
     (if sampleCount = 0 \<or> intervalInMs mod sampleCount \<noteq> 0
      then Err ''Invalid parameters, intervalInMs, sampleCount''
      else case generator of
        None \<Rightarrow> Err ''Invalid parameters, BucketGenerator is nil''
      | Some gen \<Rightarrow>
          let bucketLengthInMs = intervalInMs div sampleCount in
          go_bind (NewAtomicBucketWrapArrayWithTime sampleCount bucketLengthInMs now gen)
            (\<lambda>aa. Ret \<lparr>la_bucketLengthInMs = bucketLengthInMs, la_sampleCount = sampleCount,
                        la_intervalInMs = intervalInMs, la_array = aa\<rparr>))"

text \<open>\<open>int(timeId) % length\<close>: a signed 64-bit remainder, negative for a negative \<open>int(timeId)\<close>.\<close>

definition go_rem :: "int \<Rightarrow> int \<Rightarrow> int" where
  "go_rem a b = sgn a * (\<bar>a\<bar> mod \<bar>b\<bar>)"

definition calculateTimeIdx :: "'b leap_array \<Rightarrow> u64 \<Rightarrow> int" where
  "calculateTimeIdx la now =
     go_rem (sint (now div ucast (la_bucketLengthInMs la))) (int (length (la_array la)))"

text \<open>
  The spin loop of \<open>currentBucketOfTime\<close>. Each round consumes one element of \<open>locks\<close>: what \<open>TryLock\<close>
  would return in that round, which is up to the other goroutines. \<open>None\<close> is a call that still spins
  when the rounds are used up. A result is the index of the bucket in the array.
\<close>

fun spin :: "'b bucket_gen \<Rightarrow> int \<Rightarrow> u64 \<Rightarrow> bool list \<Rightarrow> 'b leap_array
    \<Rightarrow> (nat go \<times> 'b leap_array) option" where
  "spin bg idx bucketStart [] la = None"
| "spin bg idx bucketStart (lock # locks) la =
     (case aa_get (la_array la) idx of
        None \<Rightarrow>
          let newWrap = \<lparr>BucketStart = bucketStart, Value = Some (NewEmptyBucket bg)\<rparr>;
              (swapped, aa) = aa_compareAndSet_nil (la_array la) idx newWrap
          in if swapped then Some (Ret (nat idx), la\<lparr>la_array := aa\<rparr>)
             else spin bg idx bucketStart locks la
      | Some old \<Rightarrow>
          if bucketStart = BucketStart old then Some (Ret (nat idx), la)
          else if BucketStart old < bucketStart then
            if lock
            then Some (Ret (nat idx),
                   la\<lparr>la_array := (la_array la)[nat idx := Some (ResetBucketTo bg old bucketStart)]\<rparr>)
            else spin bg idx bucketStart locks la
          else
            if lock
            then Some (Ret (nat idx),
                   la\<lparr>la_array := (la_array la)[nat idx := Some (ResetBucketTo bg old bucketStart)]\<rparr>)
            else if la_sampleCount la = 1 then Some (Ret (nat idx), la)
            else Some (Err ''Provided time is already behind old.BucketStart'', la))"

definition currentBucketOfTime_locks ::
  "'b bucket_gen \<Rightarrow> u64 \<Rightarrow> bool list \<Rightarrow> 'b leap_array \<Rightarrow> (nat go \<times> 'b leap_array) option" where
  "currentBucketOfTime_locks bg now locks la =
     (if now \<le> 0 then Some (Err ''Current time is less than 0.'', la)
      else spin bg (calculateTimeIdx la now) (calculateStartTime now (la_bucketLengthInMs la)) locks la)"

text \<open>
  Without contention the first \<open>TryLock\<close> succeeds. A call that would still spin after that round never
  returns (its index is out of range for ever); the result for it is a panic of the model.
\<close>

definition currentBucketOfTime ::
  "'b bucket_gen \<Rightarrow> u64 \<Rightarrow> 'b leap_array \<Rightarrow> nat go \<times> 'b leap_array" where
  "currentBucketOfTime bg now la =
     (case currentBucketOfTime_locks bg now [True] la of
        None \<Rightarrow> (Panic ''spins forever'', la) | Some r \<Rightarrow> r)"

definition isBucketDeprecated :: "'b leap_array \<Rightarrow> u64 \<Rightarrow> 'b bucket_wrap \<Rightarrow> bool" where
  "isBucketDeprecated la now ww \<longleftrightarrow> ucast (la_intervalInMs la) < now - BucketStart ww"

text \<open>The buckets a \<open>Values\<close> call returns, and their places in the array (the pointers).\<close>

definition ValuesConditional_idx :: "'b leap_array \<Rightarrow> u64 \<Rightarrow> (u64 \<Rightarrow> bool) \<Rightarrow> nat list" where
  "ValuesConditional_idx la now predicate =
     (if now \<le> 0 then []
      else filter (\<lambda>i. case aa_get (la_array la) (int i) of
              None \<Rightarrow> False
            | Some ww \<Rightarrow> \<not> (isBucketDeprecated la now ww \<or> \<not> predicate (BucketStart ww)))
            [0 ..< length (la_array la)])"

definition la_ValuesConditional :: "'b leap_array \<Rightarrow> u64 \<Rightarrow> (u64 \<Rightarrow> bool) \<Rightarrow> 'b bucket_wrap list" where
  "la_ValuesConditional la now predicate =
     map (\<lambda>i. the (la_array la ! i)) (ValuesConditional_idx la now predicate)"

definition valuesWithTime_idx :: "'b leap_array \<Rightarrow> u64 \<Rightarrow> nat list" where
  "valuesWithTime_idx la now =
     (if now \<le> 0 then []
      else filter (\<lambda>i. case aa_get (la_array la) (int i) of
              None \<Rightarrow> False | Some ww \<Rightarrow> \<not> isBucketDeprecated la now ww)
            [0 ..< length (la_array la)])"

definition valuesWithTime :: "'b leap_array \<Rightarrow> u64 \<Rightarrow> 'b bucket_wrap list" where
  "valuesWithTime la now = map (\<lambda>i. the (la_array la ! i)) (valuesWithTime_idx la now)"

text \<open>The loops over the valid buckets skip a bucket that holds no value.\<close>

definition bucket_values :: "'b bucket_wrap list \<Rightarrow> 'b list" where
  "bucket_values ws = List.map_filter Value ws"

section \<open>Periods\<close>

text \<open>
  The abstract view: the period of a time is its number when time is cut into periods of the bucket
  length; slot \<open>i\<close> of the array counts one period, \<open>per la i\<close>, whose number is \<open>i\<close> modulo the
  number of slots.
\<close>

definition slots :: "'b leap_array \<Rightarrow> nat" where
  "slots la = length (la_array la)"

definition entry :: "'b leap_array \<Rightarrow> nat \<Rightarrow> 'b bucket_wrap" where
  "entry la i = the (la_array la ! i)"

definition period :: "'b leap_array \<Rightarrow> u64 \<Rightarrow> nat" where
  "period la now = unat now div unat (la_bucketLengthInMs la)"

definition per :: "'b leap_array \<Rightarrow> nat \<Rightarrow> nat" where
  "per la i = period la (BucketStart (entry la i))"

definition bval :: "'b leap_array \<Rightarrow> nat \<Rightarrow> 'b" where
  "bval la i = the (Value (entry la i))"

definition la_shape :: "'b leap_array \<Rightarrow> bool" where
  "la_shape la \<longleftrightarrow> 0 < unat (la_bucketLengthInMs la) \<and> 0 < slots la \<and>
     slots la = unat (la_sampleCount la) \<and>
     unat (la_intervalInMs la) = unat (la_bucketLengthInMs la) * slots la"

definition slot_ok :: "('b \<Rightarrow> bool) \<Rightarrow> 'b leap_array \<Rightarrow> nat \<Rightarrow> bool" where
  "slot_ok wfb la i \<longleftrightarrow> (\<exists>w v. la_array la ! i = Some w \<and> Value w = Some v \<and> wfb v \<and>
     unat (BucketStart w) = period la (BucketStart w) * unat (la_bucketLengthInMs la) \<and>
     period la (BucketStart w) mod slots la = i)"

definition la_inv :: "('b \<Rightarrow> bool) \<Rightarrow> 'b leap_array \<Rightarrow> bool" where
  "la_inv wfb la \<longleftrightarrow> la_shape la \<and> (\<forall>i < slots la. slot_ok wfb la i)"

text \<open>
  The window represents the contents \<open>A\<close> of the periods up to \<open>T\<close>: a slot holds the contents of
  its period, and a period that has contents is at most as late as the one its slot holds, which
  is at most \<open>T\<close>. A slot may hold a later period (a fresh array covers the coming ones), which is
  still empty.
\<close>

definition la_rel :: "('b \<Rightarrow> bool) \<Rightarrow> 'b \<Rightarrow> nat \<Rightarrow> (nat \<Rightarrow> 'b) \<Rightarrow> 'b leap_array \<Rightarrow> bool" where
  "la_rel wfb e0 T A la \<longleftrightarrow> la_inv wfb la \<and>
     (\<forall>i < slots la. bval la i = A (per la i) \<and> per la i < T + slots la) \<and>
     (\<forall>p. A p \<noteq> e0 \<longrightarrow> p \<le> per la (p mod slots la) \<and> per la (p mod slots la) \<le> T)"

lemmas la_views = slots_def entry_def per_def bval_def

lemma slot_okD:
  assumes "slot_ok wfb la i"
  shows "la_array la ! i = Some (entry la i)" "Value (entry la i) = Some (bval la i)"
    "wfb (bval la i)" "unat (BucketStart (entry la i)) = per la i * unat (la_bucketLengthInMs la)"
    "per la i mod slots la = i"
  using assms by (auto simp: slot_ok_def entry_def bval_def per_def)

lemma la_inv_slot: "la_inv wfb la \<Longrightarrow> i < slots la \<Longrightarrow> slot_ok wfb la i"
  by (simp add: la_inv_def)

lemma la_inv_shape: "la_inv wfb la \<Longrightarrow> la_shape la"
  by (simp add: la_inv_def)

lemma period_mono: "unat t \<le> unat now \<Longrightarrow> period la t \<le> period la now"
  by (simp add: period_def div_le_mono)

lemma period_index_less: "la_shape la \<Longrightarrow> q mod slots la < slots la"
  by (simp add: la_shape_def)

lemma unat_calculateStartTime [time_simps]:
  "unat (calculateStartTime now (la_bucketLengthInMs la)) = period la now * unat (la_bucketLengthInMs la)"
  by (simp add: calculateStartTime_def time_simps period_start period_def)

lemma period_calculateStartTime [time_simps]:
  "0 < unat (la_bucketLengthInMs la) \<Longrightarrow>
   period la (calculateStartTime now (la_bucketLengthInMs la)) = period la now"
  using unat_calculateStartTime [of now la]
  by (metis nonzero_mult_div_cancel_right not_gr_zero period_def)

lemma calculateTimeIdx_period:
  assumes "la_shape la" and "unat now < 2 ^ 63"
  shows "calculateTimeIdx la now = int (period la now mod slots la)"
proof -
  let ?t = "now div ucast (la_bucketLengthInMs la)"
  have u: "unat ?t = period la now" by (simp add: unat_div period_def)
  also have "\<dots> \<le> unat now" by (simp add: period_def)
  finally have "sint ?t = int (period la now)" using assms(2) u sint_small [of ?t] by simp
  then show ?thesis
    by (simp add: calculateTimeIdx_def go_rem_def slots_def sgn_if zmod_int)
qed

lemma aa_get_slot:
  assumes "la_inv wfb la" and "i < slots la"
  shows "aa_get (la_array la) (int i) = Some (entry la i)"
  using assms slot_okD(1) [OF la_inv_slot [OF assms]]
  by (simp add: aa_get_def aa_in_range_def slots_def)

text \<open>Replacing the contents of one slot.\<close>

definition set_slot :: "nat \<Rightarrow> 'b bucket_wrap \<Rightarrow> 'b leap_array \<Rightarrow> 'b leap_array" where
  "set_slot i w la = la\<lparr>la_array := (la_array la)[i := Some w]\<rparr>"

lemma set_slot_views [simp]:
  "slots (set_slot i w la) = slots la"
  "la_bucketLengthInMs (set_slot i w la) = la_bucketLengthInMs la"
  "la_sampleCount (set_slot i w la) = la_sampleCount la"
  "la_intervalInMs (set_slot i w la) = la_intervalInMs la"
  "period (set_slot i w la) = period la"
  "la_shape (set_slot i w la) = la_shape la"
  by (simp_all add: set_slot_def slots_def period_def la_shape_def fun_eq_iff)

lemma entry_set_slot:
  "i < slots la \<Longrightarrow> entry (set_slot i w la) j = (if j = i then w else entry la j)"
  by (simp add: entry_def set_slot_def slots_def)

lemma per_set_slot:
  "i < slots la \<Longrightarrow> per (set_slot i w la) j = (if j = i then period la (BucketStart w) else per la j)"
  by (simp add: per_def entry_set_slot)

lemma bval_set_slot:
  "i < slots la \<Longrightarrow> bval (set_slot i w la) j = (if j = i then the (Value w) else bval la j)"
  by (simp add: bval_def entry_set_slot)

lemma la_inv_set_slot:
  assumes "la_inv wfb la" and "i < slots la" and "Value w = Some v" and "wfb v"
    and "unat (BucketStart w) = q * unat (la_bucketLengthInMs la)" and "q mod slots la = i"
  shows "la_inv wfb (set_slot i w la)"
proof -
  have q: "period la (BucketStart w) = q"
    using assms(1,5) by (simp add: period_def la_inv_def la_shape_def)
  have "slot_ok wfb (set_slot i w la) j" if "j < slots la" for j
  proof (cases "j = i")
    case True
    have "(la_array (set_slot i w la)) ! i = Some w"
      using assms(2) by (simp add: set_slot_def slots_def)
    with True assms q show ?thesis by (simp add: slot_ok_def)
  next
    case False
    then have "(la_array (set_slot i w la)) ! j = la_array la ! j"
      by (simp add: set_slot_def)
    with la_inv_slot [OF assms(1) that] show ?thesis by (simp add: slot_ok_def)
  qed
  with assms(1) show ?thesis by (simp add: la_inv_def)
qed

text \<open>A method call on the contents of the bucket at place \<open>i\<close>, and on those of several buckets.\<close>

definition upd_val :: "nat \<Rightarrow> ('b \<Rightarrow> 'b) \<Rightarrow> 'b leap_array \<Rightarrow> 'b leap_array" where
  "upd_val i f la = set_slot i ((entry la i)\<lparr>Value := Some (f (bval la i))\<rparr>) la"

definition upd_vals :: "nat list \<Rightarrow> ('b \<Rightarrow> 'b) \<Rightarrow> 'b leap_array \<Rightarrow> 'b leap_array" where
  "upd_vals is f la = foldl (\<lambda>la i. upd_val i f la) la is"

lemma upd_val_views [simp]:
  "slots (upd_val i f la) = slots la"
  "la_bucketLengthInMs (upd_val i f la) = la_bucketLengthInMs la"
  "la_sampleCount (upd_val i f la) = la_sampleCount la"
  "la_intervalInMs (upd_val i f la) = la_intervalInMs la"
  "period (upd_val i f la) = period la"
  "la_shape (upd_val i f la) = la_shape la"
  by (simp_all add: upd_val_def)

lemma per_upd_val [simp]: "i < slots la \<Longrightarrow> per (upd_val i f la) j = per la j"
  by (auto simp: upd_val_def per_set_slot) (simp add: per_def)

lemma bval_upd_val: "i < slots la \<Longrightarrow> bval (upd_val i f la) j = (if j = i then f (bval la i) else bval la j)"
  by (simp add: upd_val_def bval_set_slot)

lemma upd_val_inv:
  assumes "la_inv wfb la" and "i < slots la" and "wfb (f (bval la i))"
  shows "la_inv wfb (upd_val i f la)"
  unfolding upd_val_def
  using slot_okD [OF la_inv_slot [OF assms(1,2)]] assms
  by (intro la_inv_set_slot [where q = "per la i" and v = "f (bval la i)"]) simp_all

lemma upd_vals_views:
  assumes "\<forall>i \<in> set is. i < slots la" and "distinct is" and "la_inv wfb la"
    and "\<forall>v. wfb v \<longrightarrow> wfb (f v)"
  shows "la_inv wfb (upd_vals is f la) \<and> slots (upd_vals is f la) = slots la \<and>
    period (upd_vals is f la) = period la \<and> per (upd_vals is f la) = per la \<and>
    la_bucketLengthInMs (upd_vals is f la) = la_bucketLengthInMs la \<and>
    la_intervalInMs (upd_vals is f la) = la_intervalInMs la \<and>
    (\<forall>j. bval (upd_vals is f la) j = (if j \<in> set is then f (bval la j) else bval la j))"
  using assms
proof (induction "is" arbitrary: la)
  case Nil
  then show ?case by (simp add: upd_vals_def)
next
  case (Cons i "is")
  have i: "i < slots la" "wfb (bval la i)"
    using Cons.prems slot_okD(3) [OF la_inv_slot] by auto
  have step: "upd_vals (i # is) f la = upd_vals is f (upd_val i f la)" by (simp add: upd_vals_def)
  have "la_inv wfb (upd_val i f la)" using Cons.prems i by (intro upd_val_inv) auto
  moreover have "per (upd_val i f la) = per la" using i by (simp add: fun_eq_iff)
  ultimately have IH:
    "la_inv wfb (upd_vals is f (upd_val i f la)) \<and> slots (upd_vals is f (upd_val i f la)) = slots la \<and>
     period (upd_vals is f (upd_val i f la)) = period la \<and>
     per (upd_vals is f (upd_val i f la)) = per la \<and>
     la_bucketLengthInMs (upd_vals is f (upd_val i f la)) = la_bucketLengthInMs la \<and>
     la_intervalInMs (upd_vals is f (upd_val i f la)) = la_intervalInMs la \<and>
     (\<forall>j. bval (upd_vals is f (upd_val i f la)) j =
        (if j \<in> set is then f (bval (upd_val i f la) j) else bval (upd_val i f la) j))"
    using Cons.IH [of "upd_val i f la"] Cons.prems by simp
  show ?case unfolding step using IH Cons.prems(2) i by (simp add: bval_upd_val)
qed

lemma bucket_values_entries:
  assumes "la_inv wfb la" and "\<And>i. i \<in> set is \<Longrightarrow> i < slots la"
  shows "bucket_values (map (entry la) is) = map (bval la) is"
  using assms(2)
  by (induction "is") (auto simp: bucket_values_def map_filter_simps slot_okD(2) [OF la_inv_slot [OF assms(1)]])

section \<open>The fresh array\<close>

lemma fill_wraps_range:
  assumes "a \<le> c" and "c \<le> length data"
  shows "length (fst (fill_wraps b len [a ..< c] s data)) = length data"
    and "snd (fill_wraps b len [a ..< c] s data) = s + of_nat (c - a) * ucast len"
    and "fst (fill_wraps b len [a ..< c] s data) ! i =
      (if a \<le> i \<and> i < c then Some \<lparr>BucketStart = s + of_nat (i - a) * ucast len, Value = Some b\<rparr>
       else data ! i)"
proof -
  define d where "d = c - a"
  have "length (fst (fill_wraps b len [a ..< c] s data)) = length data \<and>
    snd (fill_wraps b len [a ..< c] s data) = s + of_nat (c - a) * ucast len \<and>
    (\<forall>i. fst (fill_wraps b len [a ..< c] s data) ! i =
      (if a \<le> i \<and> i < c then Some \<lparr>BucketStart = s + of_nat (i - a) * ucast len, Value = Some b\<rparr>
       else data ! i))"
    using assms d_def
  proof (induction d arbitrary: a s data)
    case 0
    then show ?case by auto
  next
    case (Suc d)
    let ?s = "s + ucast len :: u64"
    let ?data = "data[a := Some \<lparr>BucketStart = s, Value = Some b\<rparr>]"
    have "length ?data = length data" by simp
    with Suc.IH [of "Suc a" ?data ?s] Suc.prems have IH:
      "length (fst (fill_wraps b len [Suc a ..< c] ?s ?data)) = length data"
      "snd (fill_wraps b len [Suc a ..< c] ?s ?data) = ?s + of_nat (c - Suc a) * ucast len"
      "\<And>i. fst (fill_wraps b len [Suc a ..< c] ?s ?data) ! i =
        (if Suc a \<le> i \<and> i < c then Some \<lparr>BucketStart = ?s + of_nat (i - Suc a) * ucast len, Value = Some b\<rparr>
         else ?data ! i)"
      by simp_all
    have shift: "?s + of_nat (i - Suc a) * ucast len = s + of_nat (i - a) * ucast len" if "a < i" for i
    proof -
      have "i - a = Suc (i - Suc a)" using that by simp
      then show ?thesis by (simp add: algebra_simps)
    qed
    have "a < c" using Suc.prems by simp
    then have u: "[a ..< c] = a # [Suc a ..< c]" by (rule upt_conv_Cons)
    show ?case
      using IH Suc.prems \<open>a < c\<close> shift
      by (auto simp: u nth_list_update simp del: upt_Suc)
  qed
  then show "length (fst (fill_wraps b len [a ..< c] s data)) = length data"
    and "snd (fill_wraps b len [a ..< c] s data) = s + of_nat (c - a) * ucast len"
    and "fst (fill_wraps b len [a ..< c] s data) ! i =
      (if a \<le> i \<and> i < c then Some \<lparr>BucketStart = s + of_nat (i - a) * ucast len, Value = Some b\<rparr>
       else data ! i)"
    by blast+
qed

lemma NewAtomicBucketWrapArrayWithTime_entries:
  assumes "len \<noteq> 0" and "n \<noteq> 0"
    and idx: "idx = unat ((now div ucast len) mod ucast n)"
  shows "\<exists>data. NewAtomicBucketWrapArrayWithTime n len now bg = Ret data \<and> length data = unat n \<and>
    (\<forall>i < unat n. data ! i = Some \<lparr>BucketStart = calculateStartTime now len +
        of_nat (if idx \<le> i then i - idx else i + unat n - idx) * ucast len,
      Value = Some (NewEmptyBucket bg)\<rparr>)"
proof -
  let ?b = "NewEmptyBucket bg" and ?s = "calculateStartTime now len"
  let ?d0 = "replicate (unat n) None"
  have "0 < unat n" using assms(2) by (simp add: unat_gt_0)
  then have lt: "idx < unat n" by (simp add: idx unat_mod)
  define r where "r = fill_wraps ?b len [idx ..< unat n] ?s ?d0"
  have r: "length (fst r) = unat n" "snd r = ?s + of_nat (unat n - idx) * ucast len"
    "\<And>i. fst r ! i = (if idx \<le> i \<and> i < unat n
       then Some \<lparr>BucketStart = ?s + of_nat (i - idx) * ucast len, Value = Some ?b\<rparr> else ?d0 ! i)"
    using fill_wraps_range [of idx "unat n" ?d0 ?b len ?s] lt by (simp_all add: r_def)
  define t where "t = fill_wraps ?b len [0 ..< idx] (snd r) (fst r)"
  have t: "length (fst t) = unat n"
    "\<And>i. fst t ! i = (if i < idx
       then Some \<lparr>BucketStart = snd r + of_nat i * ucast len, Value = Some ?b\<rparr> else fst r ! i)"
    using fill_wraps_range [of 0 idx "fst r" ?b len "snd r"] lt r(1) by (simp_all add: t_def)
  have "NewAtomicBucketWrapArrayWithTime n len now bg = Ret (fst t)"
    using assms(1,2) by (simp add: NewAtomicBucketWrapArrayWithTime_def Let_def t_def r_def
        split_beta flip: idx del: upt_Suc)
  moreover have "fst t ! i = Some \<lparr>BucketStart = ?s + of_nat (if idx \<le> i then i - idx else i + unat n - idx) * ucast len,
      Value = Some ?b\<rparr>" if "i < unat n" for i
  proof (cases "idx \<le> i")
    case True
    with that show ?thesis by (simp add: t(2) r(3))
  next
    case False
    then have "i + unat n - idx = (unat n - idx) + i" using lt by simp
    then have "snd r + of_nat i * ucast len = ?s + of_nat (i + unat n - idx) * ucast len"
      by (simp only: r(2) of_nat_add) (simp add: algebra_simps)
    with False show ?thesis by (simp add: t(2))
  qed
  ultimately show ?thesis using t(1) by blast
qed

section \<open>The contract of a bucket generator\<close>

text \<open>
  \<open>ResetBucketTo\<close> stamps the bucket with the new start and empties it. Everything below holds for
  every generator with this contract.
\<close>

locale bucket_generator =
  fixes bg :: "'b bucket_gen" and wfb :: "'b \<Rightarrow> bool"
  assumes new_wf: "wfb (NewEmptyBucket bg)"
    and reset: "Value w = Some v \<Longrightarrow> wfb v \<Longrightarrow>
      ResetBucketTo bg w t = \<lparr>BucketStart = t, Value = Some (NewEmptyBucket bg)\<rparr>"
begin

abbreviation rel where "rel \<equiv> la_rel wfb (NewEmptyBucket bg)"

lemma currentBucket:
  assumes inv: "la_inv wfb la" and now: "now \<noteq> 0" "unat now < 2 ^ 63"
    and i: "i = period la now mod slots la"
  shows "currentBucketOfTime bg now la =
    (Ret i, if per la i = period la now then la
            else set_slot i \<lparr>BucketStart = calculateStartTime now (la_bucketLengthInMs la),
                             Value = Some (NewEmptyBucket bg)\<rparr> la)"
proof -
  let ?st = "calculateStartTime now (la_bucketLengthInMs la)"
  have sh: "la_shape la" using inv by (rule la_inv_shape)
  then have lt: "i < slots la" and L: "0 < unat (la_bucketLengthInMs la)"
    by (simp_all add: i la_shape_def)
  note ok = slot_okD [OF la_inv_slot [OF inv lt]]
  have eq: "?st = BucketStart (entry la i) \<longleftrightarrow> per la i = period la now"
  proof
    assume "?st = BucketStart (entry la i)"
    then have "period la ?st = per la i" by (simp add: per_def)
    then show "per la i = period la now" using L by (simp add: time_simps)
  next
    assume "per la i = period la now"
    then have "unat ?st = unat (BucketStart (entry la i))" by (simp add: ok(4) time_simps)
    then show "?st = BucketStart (entry la i)" by (simp add: word_unat_eq_iff)
  qed
  show ?thesis
    using now eq aa_get_slot [OF inv lt] calculateTimeIdx_period [OF sh now(2)] reset [OF ok(2,3)]
    by (auto simp: currentBucketOfTime_def currentBucketOfTime_locks_def set_slot_def i Let_def)
qed

text \<open>Refreshing the window at a time no earlier than \<open>T\<close> changes no contents.\<close>

lemma refresh:
  assumes rel: "rel T A la" and now: "now \<noteq> 0" "unat now < 2 ^ 63" and T: "T \<le> period la now"
  obtains la' where "currentBucketOfTime bg now la = (Ret (period la now mod slots la), la')"
    and "rel (period la now) A la'" and "per la' (period la now mod slots la) = period la now"
    and "la_shape la'" and "slots la' = slots la" and "period la' = period la"
    and "la_bucketLengthInMs la' = la_bucketLengthInMs la" and "la_intervalInMs la' = la_intervalInMs la"
proof -
  let ?Q = "period la now" and ?new = "NewEmptyBucket bg" and ?n = "slots la"
  let ?st = "calculateStartTime now (la_bucketLengthInMs la)"
  define i where "i = ?Q mod ?n"
  define la' where "la' = (if per la i = ?Q then la
     else set_slot i \<lparr>BucketStart = ?st, Value = Some ?new\<rparr> la)"
  from rel have inv: "la_inv wfb la"
    and cont: "\<And>j. j < ?n \<Longrightarrow> bval la j = A (per la j) \<and> per la j < T + ?n"
    and late: "\<And>p. A p \<noteq> ?new \<Longrightarrow> p \<le> per la (p mod ?n) \<and> per la (p mod ?n) \<le> T"
    by (simp_all add: la_rel_def)
  have sh: "la_shape la" using inv by (rule la_inv_shape)
  then have lt: "i < ?n" and L: "0 < unat (la_bucketLengthInMs la)" by (simp_all add: i_def la_shape_def)
  have views: "slots la' = ?n" "period la' = period la" "la_shape la'"
    "la_bucketLengthInMs la' = la_bucketLengthInMs la" "la_intervalInMs la' = la_intervalInMs la"
    using sh by (simp_all add: la'_def)
  have call: "currentBucketOfTime bg now la = (Ret i, la')"
    using currentBucket [OF inv now i_def] by (simp add: la'_def)
  have stq: "period la ?st = ?Q" using L by (simp add: time_simps)
  have inv': "la_inv wfb la'"
    using inv lt la_inv_set_slot [OF inv lt, of "\<lparr>BucketStart = ?st, Value = Some ?new\<rparr>" ?new ?Q]
    by (simp add: la'_def new_wf time_simps i_def)
  have per': "per la' j = (if j = i then ?Q else per la j)" for j
    using lt stq by (simp add: la'_def per_set_slot)
  have empty: "A ?Q = ?new" if "per la i \<noteq> ?Q"
    using late [of ?Q] that T unfolding i_def by (metis le_antisym le_trans)
  have bval': "bval la' j = (if j = i \<and> per la i \<noteq> ?Q then ?new else bval la j)" for j
    using lt by (simp add: la'_def bval_set_slot)
  have "bval la' j = A (per la' j) \<and> per la' j < ?Q + ?n" if "j < ?n" for j
    using cont [OF that] sh T empty by (auto simp: per' bval' la_shape_def)
  moreover have "p \<le> per la' (p mod ?n) \<and> per la' (p mod ?n) \<le> ?Q" if "A p \<noteq> ?new" for p
    using late [OF that] T by (auto simp: per')
  ultimately have "rel ?Q A la'" using inv' views by (simp add: la_rel_def)
  with call views per' show thesis by (intro that [of la']) (simp_all add: i_def)
qed

text \<open>Writing the bucket of the latest period.\<close>

lemma write_slot:
  assumes rel: "rel T A la" and i: "i = T mod slots la" and cur: "per la i = T"
    and wf: "\<And>v. wfb v \<Longrightarrow> wfb (f v)"
  shows "rel T (A(T := f (A T))) (set_slot i ((entry la i)\<lparr>Value := Some (f (bval la i))\<rparr>) la)"
proof -
  let ?n = "slots la" and ?w = "(entry la i)\<lparr>Value := Some (f (bval la i))\<rparr>"
  from rel have inv: "la_inv wfb la"
    and cont: "\<And>j. j < ?n \<Longrightarrow> bval la j = A (per la j) \<and> per la j < T + ?n"
    and late: "\<And>p. A p \<noteq> NewEmptyBucket bg \<Longrightarrow> p \<le> per la (p mod ?n) \<and> per la (p mod ?n) \<le> T"
    by (simp_all add: la_rel_def)
  have lt: "i < ?n" using la_inv_shape [OF inv] by (simp add: i la_shape_def)
  note ok = slot_okD [OF la_inv_slot [OF inv lt]]
  have "la_inv wfb (set_slot i ?w la)"
    by (rule la_inv_set_slot [OF inv lt, of _ "f (bval la i)" T]) (use ok cur wf i in auto)
  moreover have "period la (BucketStart ?w) = per la i" by (simp add: per_def)
  then have per': "per (set_slot i ?w la) j = per la j" for j
    using lt by (simp add: per_set_slot)
  moreover have "bval (set_slot i ?w la) j = (A(T := f (A T))) (per la j)" if "j < ?n" for j
  proof (cases "j = i")
    case True
    with cont [OF lt] cur lt show ?thesis by (simp add: bval_set_slot)
  next
    case False
    then have "per la j \<noteq> T"
      using slot_okD(5) [OF la_inv_slot [OF inv that]] i by metis
    with cont [OF that] False lt show ?thesis by (simp add: bval_set_slot)
  qed
  ultimately show ?thesis
    using cont late cur i by (auto simp: la_rel_def)
qed

text \<open>
  The sum over the slots of the latest \<open>k\<close> periods is the sum over those periods.
\<close>

lemma window_sum_at:
  fixes h :: "nat \<Rightarrow> 'b \<Rightarrow> 'c :: comm_monoid_add"
  assumes rel: "rel T A la" and T: "T \<le> Q" and k: "k \<le> slots la"
    and h: "\<And>p. h p (NewEmptyBucket bg) = 0"
  shows "(\<Sum>i | i < slots la \<and> per la i \<le> Q \<and> Q < per la i + k. h (per la i) (bval la i))
    = (\<Sum>p \<in> {Q + 1 - k .. Q}. h p (A p))"
proof -
  let ?n = "slots la" and ?W = "{Q + 1 - k .. Q}"
  let ?V = "{i. i < ?n \<and> per la i \<le> Q \<and> Q < per la i + k}"
  from rel have inv: "la_inv wfb la"
    and cont: "\<And>j. j < ?n \<Longrightarrow> bval la j = A (per la j)"
    and late: "\<And>p. A p \<noteq> NewEmptyBucket bg \<Longrightarrow> p \<le> per la (p mod ?n) \<and> per la (p mod ?n) \<le> T"
    by (simp_all add: la_rel_def)
  have n: "0 < ?n" using la_inv_shape [OF inv] by (simp add: la_shape_def)
  have pm: "per la i mod ?n = i" if "i < ?n" for i
    using slot_okD(5) [OF la_inv_slot [OF inv that]] .
  have inj: "inj_on (per la) ?V"
    using pm by (metis (mono_tags, lifting) inj_onI mem_Collect_eq)
  have img: "per la ` ?V \<subseteq> ?W" by auto
  have rest: "h p (A p) = 0" if "p \<in> ?W - per la ` ?V" for p
  proof (rule ccontr)
    assume "h p (A p) \<noteq> 0"
    then have "A p \<noteq> NewEmptyBucket bg" using h by auto
    then have le: "p \<le> per la (p mod ?n)" "per la (p mod ?n) \<le> Q" using late T by (auto dest: le_trans)
    have m: "p mod ?n < ?n" using n by simp
    have "per la (p mod ?n) - p < ?n" using le(2) that k by auto
    with le(1) have eq: "per la (p mod ?n) = p"
      using pm [OF m] by (rule mod_eq_close)
    have "p mod ?n \<in> ?V" unfolding mem_Collect_eq eq using that m k by auto
    then have "per la (p mod ?n) \<in> per la ` ?V" by (rule imageI)
    with that show False unfolding eq by blast
  qed
  have "(\<Sum>i \<in> ?V. h (per la i) (bval la i)) = (\<Sum>i \<in> ?V. h (per la i) (A (per la i)))"
    using cont by (intro sum.cong) auto
  also have "\<dots> = (\<Sum>p \<in> per la ` ?V. h p (A p))"
    using inj by (simp add: sum.reindex)
  also have "\<dots> = (\<Sum>p \<in> ?W. h p (A p))"
    using img rest by (intro sum.mono_neutral_left) auto
  finally show ?thesis .
qed

lemma window_sum:
  fixes h :: "'b \<Rightarrow> 'c :: comm_monoid_add"
  assumes rel: "rel T A la" and T: "T \<le> Q" and k: "k \<le> slots la"
    and h: "h (NewEmptyBucket bg) = 0"
  shows "(\<Sum>i | i < slots la \<and> per la i \<le> Q \<and> Q < per la i + k. h (bval la i))
    = (\<Sum>p \<in> {Q + 1 - k .. Q}. h (A p))"
  by (rule window_sum_at [OF rel T k, of "\<lambda>_. h"]) (rule h)

text \<open>A fresh array represents empty contents, from the period of its creation on.\<close>

lemma fresh:
  assumes "len \<noteq> 0" and "n \<noteq> 0" and I: "unat interval = unat len * unat n"
    and now: "unat now < 2 ^ 63"
  obtains aa where "NewAtomicBucketWrapArrayWithTime n len now bg = Ret aa"
    and "rel (unat now div unat len) (\<lambda>_. NewEmptyBucket bg)
      \<lparr>la_bucketLengthInMs = len, la_sampleCount = n, la_intervalInMs = interval, la_array = aa\<rparr>"
proof -
  define idx where "idx = unat ((now div ucast len) mod ucast n)"
  obtain aa where aa: "NewAtomicBucketWrapArrayWithTime n len now bg = Ret aa" "length aa = unat n"
    "\<And>i. i < unat n \<Longrightarrow> aa ! i = Some \<lparr>BucketStart = calculateStartTime now len +
        of_nat (if idx \<le> i then i - idx else i + unat n - idx) * ucast len,
      Value = Some (NewEmptyBucket bg)\<rparr>"
    using NewAtomicBucketWrapArrayWithTime_entries [OF assms(1,2) idx_def] by blast
  let ?la = "\<lparr>la_bucketLengthInMs = len, la_sampleCount = n, la_intervalInMs = interval, la_array = aa\<rparr>"
  let ?L = "unat len" and ?N = "unat n" and ?Q = "unat now div unat len"
  have L: "0 < ?L" "0 < ?N" using assms(1,2) by (simp_all add: unat_gt_0)
  have idx: "idx = ?Q mod ?N" by (simp add: idx_def unat_mod unat_div)
  then have "idx < ?N" using L by simp
  have slots: "slots ?la = ?N" by (simp add: slots_def aa(2))
  have Il: "unat interval < 2 ^ 32" by (rule unat_u32_lt)
  have e: "entry ?la i = \<lparr>BucketStart = calculateStartTime now len + of_nat j * ucast len,
      Value = Some (NewEmptyBucket bg)\<rparr>"
    and st: "unat (BucketStart (entry ?la i)) = (?Q + j) * ?L"
    and m: "(?Q + j) mod ?N = i" and jn: "j < ?N"
    if i: "i < ?N" and j: "j = (if idx \<le> i then i - idx else i + ?N - idx)" for i j
  proof -
    show e: "entry ?la i = \<lparr>BucketStart = calculateStartTime now len + of_nat j * ucast len,
        Value = Some (NewEmptyBucket bg)\<rparr>"
      using aa(3) [OF i] by (simp add: entry_def j)
    show jn: "j < ?N" using i \<open>idx < ?N\<close> j by (auto split: if_splits)
    have jl: "j * ?L < 2 ^ 32"
      using jn Il I L by (metis le_less_trans less_imp_le mult.commute mult_le_mono1)
    have "?Q * ?L + j * ?L \<le> unat now + j * ?L" by simp
    also have "\<dots> < 2 ^ 63 + 2 ^ 32" using now jl by (rule add_strict_mono)
    also have "\<dots> \<le> 2 ^ 64" by simp
    finally have b: "?Q * ?L + j * ?L < 2 ^ 64" .
    have uj: "unat (of_nat j * ucast len :: u64) = j * ?L"
      using jl by (simp add: unat_word_ariths unat_of_nat mod_mult_left_eq)
    have us: "unat (calculateStartTime now len) = ?Q * ?L"
      by (simp add: calculateStartTime_def time_simps period_start)
    have "unat (calculateStartTime now len + of_nat j * ucast len) = ?Q * ?L + j * ?L"
      using b by (subst unat_add_no_wrap) (simp_all only: us uj)
    then show "unat (BucketStart (entry ?la i)) = (?Q + j) * ?L"
      by (simp only: e bucket_wrap.select_convs add_mult_distrib)
    have "(?Q + j) mod ?N = (idx + j) mod ?N" by (simp only: idx mod_add_left_eq)
    also have "\<dots> = i"
    proof (cases "idx \<le> i")
      case True
      then have "idx + j = i" using j by simp
      with i show ?thesis by simp
    next
      case False
      then have "idx + j = i + ?N" using j \<open>idx < ?N\<close> by simp
      with i show ?thesis by (simp only: mod_add_self2 mod_less)
    qed
    finally show "(?Q + j) mod ?N = i" .
  qed
  have ok: "slot_ok wfb ?la i \<and> bval ?la i = NewEmptyBucket bg \<and> per ?la i < ?Q + ?N" if i: "i < ?N" for i
  proof -
    define j where "j = (if idx \<le> i then i - idx else i + ?N - idx)"
    note f = e [OF i j_def] st [OF i j_def] m [OF i j_def] jn [OF i j_def]
    have p: "per ?la i = ?Q + j" using f(2) L by (simp add: per_def period_def)
    have "la_array ?la ! i = Some (entry ?la i)" using aa(3) [OF i] f(1) by (simp add: j_def)
    moreover have "Value (entry ?la i) = Some (NewEmptyBucket bg)" by (simp add: f(1))
    moreover have "period ?la (BucketStart (entry ?la i)) = ?Q + j" using p by (simp add: per_def)
    ultimately have "slot_ok wfb ?la i"
      unfolding slot_ok_def slots using f(2,3) new_wf by auto
    with p f(1,4) show ?thesis by (simp add: bval_def)
  qed
  have "rel ?Q (\<lambda>_. NewEmptyBucket bg) ?la"
    using ok L I slots by (simp add: la_rel_def la_inv_def la_shape_def)
  with aa(1) show thesis by (rule that)
qed

lemma start_le_iff:
  assumes inv: "la_inv wfb la" and i: "i < slots la"
    and s: "unat s = q * unat (la_bucketLengthInMs la)"
  shows "BucketStart (entry la i) \<le> s \<longleftrightarrow> per la i \<le> q" and "s \<le> BucketStart (entry la i) \<longleftrightarrow> q \<le> per la i"
  using slot_okD(4) [OF la_inv_slot [OF inv i]] s la_inv_shape [OF inv]
  by (simp_all add: word_le_nat_alt la_shape_def)

lemma deprecated_iff:
  assumes inv: "la_inv wfb la" and i: "i < slots la" and now: "unat now < 2 ^ 63"
    and f: "per la i < period la now + slots la"
  shows "isBucketDeprecated la now (entry la i) \<longleftrightarrow>
    \<not> (unat (BucketStart (entry la i)) \<le> unat now \<and>
       unat now - unat (BucketStart (entry la i)) \<le> unat (la_intervalInMs la))"
proof -
  let ?ws = "BucketStart (entry la i)" and ?L = "unat (la_bucketLengthInMs la)"
  have sh: "la_shape la" using inv by (rule la_inv_shape)
  have I: "unat (la_intervalInMs la) = ?L * slots la" "unat (la_intervalInMs la) < 2 ^ 32"
    using sh unat_u32_lt [of "la_intervalInMs la"] by (simp_all only: la_shape_def)
  have "unat ?ws = per la i * ?L" using slot_okD(4) [OF la_inv_slot [OF inv i]] .
  also have "\<dots> \<le> (period la now + slots la) * ?L" using f by (intro mult_le_mono1) simp
  also have "\<dots> \<le> unat now + unat (la_intervalInMs la)"
    by (simp add: I(1) period_def algebra_simps)
  finally have "unat ?ws \<le> unat now + unat (la_intervalInMs la)" .
  then have "unat (now - ?ws) \<le> unat (la_intervalInMs la) \<longleftrightarrow>
      unat ?ws \<le> unat now \<and> unat now - unat ?ws \<le> unat (la_intervalInMs la)"
    using I(2) now by (auto simp: unat_sub_if')
  moreover have "isBucketDeprecated la now (entry la i) \<longleftrightarrow>
      \<not> unat (now - ?ws) \<le> unat (la_intervalInMs la)"
    by (simp add: isBucketDeprecated_def word_less_nat_alt linorder_not_le)
  ultimately show ?thesis by simp
qed

text \<open>Once the current bucket is fresh, the valid buckets are those of the latest \<open>slots\<close> periods.\<close>

lemma valid_iff:
  assumes inv: "la_inv wfb la" and i: "i < slots la" and now: "unat now < 2 ^ 63"
    and f: "per la i < period la now + slots la"
    and cur: "per la (period la now mod slots la) = period la now"
  shows "isBucketDeprecated la now (entry la i) \<longleftrightarrow>
    \<not> (per la i \<le> period la now \<and> period la now < per la i + slots la)"
proof -
  let ?ws = "BucketStart (entry la i)" and ?L = "unat (la_bucketLengthInMs la)"
  let ?P = "per la i" and ?Q = "period la now" and ?n = "slots la"
  have sh: "0 < ?L" "0 < ?n" "unat (la_intervalInMs la) = ?L * ?n"
    using la_inv_shape [OF inv] by (simp_all add: la_shape_def)
  note ok = slot_okD [OF la_inv_slot [OF inv i]]
  have nowd: "unat now = ?Q * ?L + unat now mod ?L" "unat now mod ?L < ?L"
    using sh(1) by (simp_all add: period_def)
  have le: "unat ?ws \<le> unat now \<longleftrightarrow> ?P \<le> ?Q"
  proof -
    have "?P * ?L \<le> unat now \<longleftrightarrow> ?P \<le> ?Q"
      using sh(1) by (simp add: period_def less_eq_div_iff_mult_less_eq)
    then show ?thesis by (simp add: ok(4))
  qed
  have "unat now - ?P * ?L \<le> ?L * ?n \<longleftrightarrow> ?Q < ?P + ?n" if PQ: "?P \<le> ?Q"
  proof
    assume "?Q < ?P + ?n"
    then have "(?Q + 1) * ?L \<le> (?P + ?n) * ?L" by (intro mult_le_mono1) simp
    then show "unat now - ?P * ?L \<le> ?L * ?n" using nowd by (simp add: algebra_simps)
  next
    assume d: "unat now - ?P * ?L \<le> ?L * ?n"
    show "?Q < ?P + ?n"
    proof (rule ccontr)
      assume "\<not> ?Q < ?P + ?n"
      moreover have "?Q \<noteq> ?P + ?n" using cur ok(5) i by (metis add_lessD1 less_irrefl mod_add_self2 sh(2) less_add_same_cancel1)
      ultimately have "?P + ?n + 1 \<le> ?Q" by simp
      then have "(?P + ?n + 1) * ?L \<le> ?Q * ?L" by (intro mult_le_mono1)
      with d nowd(1) sh(1) show False by (simp add: algebra_simps)
    qed
  qed
  then show ?thesis
    using deprecated_iff [OF inv i now f] le by (auto simp: ok(4) sh(3))
qed

lemma valuesWithTime_idx_eq:
  assumes inv: "la_inv wfb la" and now: "now \<noteq> 0" "unat now < 2 ^ 63"
    and f: "\<And>i. i < slots la \<Longrightarrow> per la i < period la now + slots la"
    and cur: "per la (period la now mod slots la) = period la now"
  shows "valuesWithTime_idx la now =
    filter (\<lambda>i. per la i \<le> period la now \<and> period la now < per la i + slots la) [0 ..< slots la]"
proof -
  have "filter (\<lambda>i. case aa_get (la_array la) (int i) of
          None \<Rightarrow> False | Some ww \<Rightarrow> \<not> isBucketDeprecated la now ww) [0 ..< slots la] =
     filter (\<lambda>i. per la i \<le> period la now \<and> period la now < per la i + slots la) [0 ..< slots la]"
    by (rule filter_cong) (simp_all add: aa_get_slot [OF inv] valid_iff [OF inv _ now(2) f cur])
  then show ?thesis
    using now(1) by (simp add: valuesWithTime_idx_def slots_def)
qed

lemma valuesWithTime_eq:
  assumes inv: "la_inv wfb la" and now: "now \<noteq> 0" "unat now < 2 ^ 63"
    and f: "\<And>i. i < slots la \<Longrightarrow> per la i < period la now + slots la"
    and cur: "per la (period la now mod slots la) = period la now"
  shows "valuesWithTime la now = map (entry la)
    (filter (\<lambda>i. per la i \<le> period la now \<and> period la now < per la i + slots la) [0 ..< slots la])"
  by (simp only: valuesWithTime_def valuesWithTime_idx_eq [OF assms] entry_def [abs_def])

lemma ValuesConditional_eq:
  assumes inv: "la_inv wfb la" and now: "now \<noteq> 0" "unat now < 2 ^ 63"
    and f: "\<And>i. i < slots la \<Longrightarrow> per la i < period la now + slots la"
    and k: "k \<le> slots la"
    and s: "unat s = (period la now + 1 - k) * unat (la_bucketLengthInMs la)"
    and e: "unat e = period la now * unat (la_bucketLengthInMs la)"
  shows "la_ValuesConditional la now (\<lambda>ws. s \<le> ws \<and> ws \<le> e) = map (entry la)
    (filter (\<lambda>i. per la i \<le> period la now \<and> period la now < per la i + k) [0 ..< slots la])"
proof -
  let ?Q = "period la now" and ?L = "unat (la_bucketLengthInMs la)"
  have sh: "0 < ?L" "unat (la_intervalInMs la) = ?L * slots la"
    using la_inv_shape [OF inv] by (simp_all add: la_shape_def)
  have key: "\<not> (isBucketDeprecated la now (entry la i) \<or>
        \<not> (s \<le> BucketStart (entry la i) \<and> BucketStart (entry la i) \<le> e))
      \<longleftrightarrow> per la i \<le> ?Q \<and> ?Q < per la i + k" if i: "i < slots la" for i
  proof -
    let ?P = "per la i"
    have w: "s \<le> BucketStart (entry la i) \<longleftrightarrow> ?Q + 1 - k \<le> ?P"
      "BucketStart (entry la i) \<le> e \<longleftrightarrow> ?P \<le> ?Q"
      using start_le_iff [OF inv i s] start_le_iff [OF inv i e] by simp_all
    have "\<not> isBucketDeprecated la now (entry la i)" if P: "?P \<le> ?Q" "?Q < ?P + k"
    proof -
      have nowd: "unat now = ?Q * ?L + unat now mod ?L" "unat now mod ?L < ?L"
        using sh(1) by (simp_all add: period_def)
      have "(?Q + 1) * ?L \<le> (?P + slots la) * ?L" using P k by (intro mult_le_mono1) simp
      then have "unat now - ?P * ?L \<le> ?L * slots la" using nowd by (simp add: algebra_simps)
      moreover have "?P * ?L \<le> unat now" using mult_le_mono1 [OF P(1), of ?L] nowd(1) by linarith
      ultimately show ?thesis
        using deprecated_iff [OF inv i now(2) f [OF i]] slot_okD(4) [OF la_inv_slot [OF inv i]] sh(2)
        by simp
    qed
    with w show ?thesis by auto
  qed
  have c: "(case aa_get (la_array la) (int i) of None \<Rightarrow> False
      | Some ww \<Rightarrow> \<not> (isBucketDeprecated la now ww \<or> \<not> (s \<le> BucketStart ww \<and> BucketStart ww \<le> e)))
      \<longleftrightarrow> per la i \<le> ?Q \<and> ?Q < per la i + k" if "i < slots la" for i
    by (simp only: aa_get_slot [OF inv that] option.case key [OF that])
  have "ValuesConditional_idx la now (\<lambda>ws. s \<le> ws \<and> ws \<le> e) =
     filter (\<lambda>i. per la i \<le> ?Q \<and> ?Q < per la i + k) [0 ..< slots la]"
    unfolding ValuesConditional_idx_def slots_def [symmetric]
    using now(1) by (simp only: word_le_0_iff if_False) (rule filter_cong [OF refl], rule c, simp)
  then show ?thesis by (simp add: la_ValuesConditional_def entry_def [abs_def])
qed

text \<open>
  A predicate that asks for nothing as old as the interval selects among the latest \<open>slots\<close> periods.
\<close>

lemma ValuesConditional_pred:
  assumes inv: "la_inv wfb la" and now: "now \<noteq> 0" "unat now < 2 ^ 63"
    and f: "\<And>i. i < slots la \<Longrightarrow> per la i < period la now + slots la"
    and recent: "\<And>ws. R ws \<Longrightarrow> unat now < unat ws + unat (la_intervalInMs la)"
  shows "la_ValuesConditional la now R = map (entry la)
    (filter (\<lambda>i. per la i \<le> period la now \<and> period la now < per la i + slots la \<and>
        R (BucketStart (entry la i))) [0 ..< slots la])"
proof -
  let ?Q = "period la now" and ?L = "unat (la_bucketLengthInMs la)"
  have sh: "0 < ?L" "unat (la_intervalInMs la) = ?L * slots la"
    using la_inv_shape [OF inv] by (simp_all add: la_shape_def)
  have key: "\<not> (isBucketDeprecated la now (entry la i) \<or> \<not> R (BucketStart (entry la i)))
      \<longleftrightarrow> per la i \<le> ?Q \<and> ?Q < per la i + slots la \<and> R (BucketStart (entry la i))" if i: "i < slots la" for i
  proof (cases "R (BucketStart (entry la i))")
    case True
    let ?P = "per la i"
    have st: "unat (BucketStart (entry la i)) = ?P * ?L" using slot_okD(4) [OF la_inv_slot [OF inv i]] .
    have lt: "unat now < (?P + slots la) * ?L" using recent [OF True] by (simp add: st sh(2) algebra_simps)
    have Q: "?Q * ?L \<le> unat now" by (simp add: period_def)
    then have "?Q * ?L < (?P + slots la) * ?L" using lt by (rule le_less_trans)
    then have "?Q < ?P + slots la" by simp
    moreover have "?P * ?L \<le> unat now \<longleftrightarrow> ?P \<le> ?Q"
      using sh(1) by (simp add: period_def less_eq_div_iff_mult_less_eq)
    ultimately show ?thesis
      using True deprecated_iff [OF inv i now(2) f [OF i]] lt by (auto simp: st sh(2) algebra_simps)
  qed simp
  have c: "(case aa_get (la_array la) (int i) of None \<Rightarrow> False
      | Some ww \<Rightarrow> \<not> (isBucketDeprecated la now ww \<or> \<not> R (BucketStart ww)))
      \<longleftrightarrow> per la i \<le> ?Q \<and> ?Q < per la i + slots la \<and> R (BucketStart (entry la i))" if "i < slots la" for i
    by (simp only: aa_get_slot [OF inv that] option.case key [OF that])
  have "ValuesConditional_idx la now R =
     filter (\<lambda>i. per la i \<le> ?Q \<and> ?Q < per la i + slots la \<and> R (BucketStart (entry la i))) [0 ..< slots la]"
    unfolding ValuesConditional_idx_def slots_def [symmetric]
    using now(1) by (simp only: word_le_0_iff if_False) (rule filter_cong [OF refl], rule c, simp)
  then show ?thesis by (simp add: la_ValuesConditional_def entry_def [abs_def])
qed

lemma sum_entries:
  fixes h :: "'b \<Rightarrow> 'c :: comm_monoid_add"
  shows "sum_list (map (\<lambda>w. h (the (Value w))) (map (entry la) (filter P [0 ..< n]))) =
    (\<Sum>i | i < n \<and> P i. h (bval la i))"
proof -
  have "sum_list (map (\<lambda>i. h (bval la i)) (filter P [0 ..< n])) =
      (\<Sum>i \<in> set (filter P [0 ..< n]). h (bval la i))"
    by (rule sum.distinct_set_conv_list [symmetric]) simp
  moreover have "set (filter P [0 ..< n]) = {i. i < n \<and> P i}" by auto
  ultimately show ?thesis by (simp add: o_def bval_def)
qed

text \<open>Refreshing the window and calling a method on the current bucket.\<close>

lemma touch:
  assumes rel: "rel T A la" and now: "now \<noteq> 0" "unat now < 2 ^ 63" and T: "T \<le> period la now"
    and wf: "\<forall>v. wfb v \<longrightarrow> wfb (f v)"
  obtains la' where "currentBucketOfTime bg now la = (Ret (period la now mod slots la), la')"
    and "Value (entry la' (period la now mod slots la)) = Some (bval la' (period la now mod slots la))"
    and "rel (period la now) (A(period la now := f (A (period la now)))) (upd_val (period la now mod slots la) f la')"
    and "per (upd_val (period la now mod slots la) f la') (period la now mod slots la) = period la now"
    and "slots la' = slots la" and "period la' = period la"
    and "la_bucketLengthInMs la' = la_bucketLengthInMs la" and "la_intervalInMs la' = la_intervalInMs la"
proof -
  obtain la' where la': "currentBucketOfTime bg now la = (Ret (period la now mod slots la), la')"
    "rel (period la now) A la'" "per la' (period la now mod slots la) = period la now"
    "la_shape la'" "slots la' = slots la" "period la' = period la"
    "la_bucketLengthInMs la' = la_bucketLengthInMs la" "la_intervalInMs la' = la_intervalInMs la"
    using refresh [OF rel now T] by blast
  have lt: "period la now mod slots la < slots la'" using la'(4,5) by (simp add: la_shape_def)
  have inv: "la_inv wfb la'" using la'(2) by (simp add: la_rel_def)
  have "rel (period la now) (A(period la now := f (A (period la now)))) (upd_val (period la now mod slots la) f la')"
    unfolding upd_val_def using wf by (intro write_slot [OF la'(2)]) (simp_all add: la'(3,5))
  then show thesis
    using lt la' slot_okD(2) [OF la_inv_slot [OF inv lt]] by (intro that [of la']) simp_all
qed

text \<open>The contents of the valid buckets are those of the latest \<open>slots\<close> periods.\<close>

lemma window_total:
  fixes h :: "'b \<Rightarrow> 'c :: comm_monoid_add"
  assumes rel: "rel (period la now) A la" and now: "now \<noteq> 0" "unat now < 2 ^ 63"
    and cur: "per la (period la now mod slots la) = period la now" and h: "h (NewEmptyBucket bg) = 0"
  shows "sum_list (map h (bucket_values (valuesWithTime la now))) =
    (\<Sum>p \<in> {period la now + 1 - slots la .. period la now}. h (A p))"
proof -
  have inv: "la_inv wfb la" and f: "\<And>i. i < slots la \<Longrightarrow> per la i < period la now + slots la"
    using rel by (simp_all add: la_rel_def)
  let ?is = "filter (\<lambda>i. per la i \<le> period la now \<and> period la now < per la i + slots la) [0 ..< slots la]"
  have "valuesWithTime la now = map (entry la) ?is"
    by (rule valuesWithTime_eq [OF inv now _ cur]) (rule f)
  then have "bucket_values (valuesWithTime la now) = map (bval la) ?is"
    by (simp only:) (rule bucket_values_entries [OF inv], simp)
  then have "sum_list (map h (bucket_values (valuesWithTime la now))) = (\<Sum>i \<leftarrow> ?is. h (bval la i))"
    by (simp add: o_def)
  also have "\<dots> = (\<Sum>i \<in> set ?is. h (bval la i))"
    by (rule sum.distinct_set_conv_list [symmetric]) simp
  also have "set ?is = {i. i < slots la \<and> per la i \<le> period la now \<and> period la now < per la i + slots la}"
    by auto
  finally show ?thesis
    using window_sum [OF rel le_refl le_refl, of h] h by simp
qed

text \<open>Emptying the valid buckets empties those periods.\<close>

lemma reset_window:
  assumes rel: "rel (period la now) A la" and now: "now \<noteq> 0" "unat now < 2 ^ 63"
    and cur: "per la (period la now mod slots la) = period la now"
    and g: "\<forall>v. wfb v \<longrightarrow> g v = NewEmptyBucket bg"
  shows "rel (period la now)
    (\<lambda>p. if p \<le> period la now \<and> period la now < p + slots la then NewEmptyBucket bg else A p)
    (upd_vals (valuesWithTime_idx la now) g la)"
proof -
  have inv: "la_inv wfb la" and f: "\<And>i. i < slots la \<Longrightarrow> per la i < period la now + slots la"
    and cont: "\<And>i. i < slots la \<Longrightarrow> bval la i = A (per la i)"
    and late: "\<And>p. A p \<noteq> NewEmptyBucket bg \<Longrightarrow>
        p \<le> per la (p mod slots la) \<and> per la (p mod slots la) \<le> period la now"
    using rel by (simp_all add: la_rel_def)
  let ?is = "filter (\<lambda>i. per la i \<le> period la now \<and> period la now < per la i + slots la) [0 ..< slots la]"
  have v: "la_inv wfb (upd_vals ?is g la) \<and> slots (upd_vals ?is g la) = slots la \<and>
    period (upd_vals ?is g la) = period la \<and> per (upd_vals ?is g la) = per la \<and>
    la_bucketLengthInMs (upd_vals ?is g la) = la_bucketLengthInMs la \<and>
    la_intervalInMs (upd_vals ?is g la) = la_intervalInMs la \<and>
    (\<forall>j. bval (upd_vals ?is g la) j = (if j \<in> set ?is then g (bval la j) else bval la j))"
    by (rule upd_vals_views) (use inv g new_wf in auto)
  have wfv: "wfb (bval la i)" if "i < slots la" for i
    using slot_okD(3) [OF la_inv_slot [OF inv that]] .
  have "valuesWithTime_idx la now = ?is"
    by (rule valuesWithTime_idx_eq [OF inv now _ cur]) (rule f)
  moreover have "rel (period la now)
      (\<lambda>p. if p \<le> period la now \<and> period la now < p + slots la then NewEmptyBucket bg else A p)
      (upd_vals ?is g la)"
    unfolding la_rel_def using v cont late f g wfv by simp
  ultimately show ?thesis by (simp only:)
qed

end

end
