(* ===== verification/Float64.thy ===== *)
theory Float64
  imports Prelude
begin

text \<open>
  Go's \<open>float64\<close>: IEEE 754 binary64 with the one rounding mode Go uses, to nearest with ties to
  even. A finite double is its exact rational value; \<open>round64\<close> maps a rational to the nearest double
  and overflows to an infinity, and every arithmetic operation is the exact operation on rationals
  followed by that rounding. The two zeros are one value here, and there is one NaN: the code never
  asks for the sign of a zero or the payload of a NaN.
\<close>

datatype f64 = Fin rat | PInf | NInf | NaN

section \<open>Rounding\<close>

fun nat_log2 :: "nat \<Rightarrow> nat" where
  "nat_log2 n = (if n < 2 then 0 else Suc (nat_log2 (n div 2)))"

declare nat_log2.simps [simp del]

text \<open>The exponent of a positive rational: the \<open>e\<close> with \<open>2 powi e \<le> q < 2 powi (e + 1)\<close>.\<close>

definition ilog2 :: "rat \<Rightarrow> int" where
  "ilog2 q = (let (n, d) = quotient_of q;
                  k = int (nat_log2 (nat n)) - int (nat_log2 (nat d))
              in if 2 powi k \<le> q then k else k - 1)"

text \<open>Round to the nearest integer, ties to even.\<close>

definition rne :: "rat \<Rightarrow> int" where
  "rne q = (let n = \<lfloor>q\<rfloor>; r = q - of_int n
            in if r < 1 / 2 then n else if 1 / 2 < r then n + 1 else if even n then n else n + 1)"

text \<open>The exponent of the last place of the doubles around \<open>q\<close> (53 bits, subnormals below \<open>2 powi -1022\<close>).\<close>

definition ulp_exp :: "rat \<Rightarrow> int" where
  "ulp_exp q = max (ilog2 \<bar>q\<bar>) (-1022) - 52"

definition grid_round :: "int \<Rightarrow> rat \<Rightarrow> rat" where
  "grid_round e q = of_int (rne (q / 2 powi e)) * 2 powi e"

definition round_val :: "rat \<Rightarrow> rat" where
  "round_val q = (if q = 0 then 0 else grid_round (ulp_exp q) q)"

definition round64 :: "rat \<Rightarrow> f64" where
  "round64 q = (let v = round_val q
                in if 2 ^ 1024 \<le> v then PInf else if v \<le> - (2 ^ 1024) then NInf else Fin v)"

section \<open>Operations\<close>

definition f64_of_int :: "int \<Rightarrow> f64" where
  "f64_of_int i = round64 (of_int i)"

fun fneg :: "f64 \<Rightarrow> f64" where
  "fneg (Fin a) = Fin (- a)"
| "fneg PInf = NInf"
| "fneg NInf = PInf"
| "fneg NaN = NaN"

fun fadd :: "f64 \<Rightarrow> f64 \<Rightarrow> f64" where
  "fadd (Fin a) (Fin b) = round64 (a + b)"
| "fadd NaN _ = NaN"
| "fadd _ NaN = NaN"
| "fadd PInf NInf = NaN"
| "fadd NInf PInf = NaN"
| "fadd PInf _ = PInf"
| "fadd _ PInf = PInf"
| "fadd NInf _ = NInf"
| "fadd _ NInf = NInf"

definition fsub :: "f64 \<Rightarrow> f64 \<Rightarrow> f64" where
  "fsub x y = fadd x (fneg y)"

text \<open>The sign of a double, 0 for a zero.\<close>

fun fsgn :: "f64 \<Rightarrow> int" where
  "fsgn (Fin a) = (if a < 0 then - 1 else if a = 0 then 0 else 1)"
| "fsgn PInf = 1"
| "fsgn NInf = - 1"
| "fsgn NaN = 0"

definition finf :: "int \<Rightarrow> f64" where
  "finf s = (if s < 0 then NInf else PInf)"

fun fmul :: "f64 \<Rightarrow> f64 \<Rightarrow> f64" where
  "fmul (Fin a) (Fin b) = round64 (a * b)"
| "fmul NaN _ = NaN"
| "fmul _ NaN = NaN"
| "fmul x y = (if fsgn x * fsgn y = 0 then NaN else finf (fsgn x * fsgn y))"

fun fdiv :: "f64 \<Rightarrow> f64 \<Rightarrow> f64" where
  "fdiv (Fin a) (Fin b) =
     (if b = 0 then (if a = 0 then NaN else finf (fsgn (Fin a))) else round64 (a / b))"
| "fdiv NaN _ = NaN"
| "fdiv _ NaN = NaN"
| "fdiv (Fin a) _ = Fin 0"
| "fdiv x (Fin b) = finf (fsgn x * (if b < 0 then - 1 else 1))"
| "fdiv _ _ = NaN"

fun fabs :: "f64 \<Rightarrow> f64" where
  "fabs (Fin a) = Fin \<bar>a\<bar>"
| "fabs NaN = NaN"
| "fabs _ = PInf"

fun flt :: "f64 \<Rightarrow> f64 \<Rightarrow> bool" where
  "flt (Fin a) (Fin b) = (a < b)"
| "flt NaN _ = False"
| "flt _ NaN = False"
| "flt NInf NInf = False"
| "flt NInf _ = True"
| "flt _ NInf = False"
| "flt (Fin _) PInf = True"
| "flt PInf _ = False"

fun feq :: "f64 \<Rightarrow> f64 \<Rightarrow> bool" where
  "feq NaN _ = False"
| "feq x y = (x = y)"

definition fle :: "f64 \<Rightarrow> f64 \<Rightarrow> bool" where
  "fle x y \<longleftrightarrow> flt x y \<or> feq x y"

text \<open>\<open>math.Ceil\<close>: exact on a double, since every double of magnitude \<open>2 ^ 52\<close> or more is whole.\<close>

fun fceil :: "f64 \<Rightarrow> f64" where
  "fceil (Fin a) = Fin (of_int \<lceil>a\<rceil>)"
| "fceil x = x"

text \<open>
  A conversion from \<open>float64\<close> to an integer type truncates towards zero. Outside the range of the type
  Go leaves the result to the implementation: that result is the argument \<open>oor\<close>.
\<close>

definition ftrunc :: "rat \<Rightarrow> int" where
  "ftrunc a = (if a < 0 then \<lceil>a\<rceil> else \<lfloor>a\<rfloor>)"

fun f64_to_i64 :: "(f64 \<Rightarrow> i64) \<Rightarrow> f64 \<Rightarrow> i64" where
  "f64_to_i64 oor (Fin a) =
     (if - (2 ^ 63) \<le> ftrunc a \<and> ftrunc a < 2 ^ 63 then of_int (ftrunc a) else oor (Fin a))"
| "f64_to_i64 oor x = oor x"

fun f64_to_u64 :: "(f64 \<Rightarrow> u64) \<Rightarrow> f64 \<Rightarrow> u64" where
  "f64_to_u64 oor (Fin a) =
     (if - 1 < a \<and> ftrunc a < 2 ^ 64 then of_int (ftrunc a) else oor (Fin a))"
| "f64_to_u64 oor x = oor x"

text \<open>\<open>util.Float64Equals\<close>: the constant is the double next to \<open>1e-8\<close>.\<close>

definition precision :: f64 where
  "precision = round64 (1 / 100000000)"

definition Float64Equals :: "f64 \<Rightarrow> f64 \<Rightarrow> bool" where
  "Float64Equals x y = flt (fabs (fsub x y)) precision"

section \<open>Rounding is monotone and exact on small integers\<close>

lemma nat_log2_bounds: "0 < n \<Longrightarrow> 2 ^ nat_log2 n \<le> n \<and> n < 2 ^ Suc (nat_log2 n)"
proof (induction n rule: nat_log2.induct)
  case (1 n)
  show ?case
  proof (cases "n < 2")
    case True
    with "1.prems" show ?thesis by (simp add: nat_log2.simps [of n])
  next
    case False
    then have "2 ^ nat_log2 (n div 2) \<le> n div 2 \<and> n div 2 < 2 ^ Suc (nat_log2 (n div 2))"
      using "1.IH" by simp
    moreover have "nat_log2 n = Suc (nat_log2 (n div 2))"
      using False by (simp add: nat_log2.simps [of n])
    ultimately show ?thesis by auto
  qed
qed

lemma powi_2_pos [simp]: "0 < (2 :: rat) powi e"
  by (simp add: zero_less_power_int)

lemma powi_2_le: "e \<le> f \<Longrightarrow> (2 :: rat) powi e \<le> 2 powi f"
  by (simp add: power_int_increasing)

lemma powi_2_diff: "e \<le> f \<Longrightarrow> (2 :: rat) powi f = of_int (2 ^ nat (f - e)) * 2 powi e"
proof -
  assume "e \<le> f"
  have "(2 :: rat) powi f = 2 powi ((f - e) + e)" by simp
  also have "\<dots> = 2 powi (f - e) * 2 powi e" by (subst power_int_add) simp_all
  also have "(2 :: rat) powi (f - e) = of_int (2 ^ nat (f - e))"
    using \<open>e \<le> f\<close> by (simp add: power_int_def)
  finally show ?thesis .
qed

lemma ilog2_bounds:
  assumes "0 < q"
  shows "2 powi ilog2 q \<le> q" and "q < 2 powi (ilog2 q + 1)"
proof -
  obtain n d where nd: "quotient_of q = (n, d)" by (cases "quotient_of q")
  then have d: "0 < d" and q: "q = of_int n / of_int d"
    by (simp_all add: quotient_of_denom_pos quotient_of_div)
  with assms have n: "0 < n" by (simp add: zero_less_divide_iff)
  define a where "a = nat_log2 (nat n)"
  define b where "b = nat_log2 (nat d)"
  define k where "k = int a - int b"
  have "2 ^ a \<le> nat n \<and> nat n < 2 ^ Suc a" "2 ^ b \<le> nat d \<and> nat d < 2 ^ Suc b"
    using nat_log2_bounds [of "nat n"] nat_log2_bounds [of "nat d"] n d by (simp_all add: a_def b_def)
  then have "int (2 ^ a) \<le> int (nat n) \<and> int (nat n) < int (2 ^ Suc a)"
    "int (2 ^ b) \<le> int (nat d) \<and> int (nat d) < int (2 ^ Suc b)"
    by (simp_all only: of_nat_le_iff of_nat_less_iff)
  then have bn: "2 ^ a \<le> n" "n < 2 ^ Suc a" and bd: "2 ^ b \<le> d" "d < 2 ^ Suc b"
    using n d by simp_all
  have rn: "(2 :: rat) ^ a \<le> of_int n" "(of_int n :: rat) < 2 ^ Suc a"
    using bn by (metis of_int_le_iff of_int_numeral of_int_power, metis of_int_less_iff of_int_numeral of_int_power)
  have rd: "(2 :: rat) ^ b \<le> of_int d" "(of_int d :: rat) < 2 ^ Suc b"
    using bd by (metis of_int_le_iff of_int_numeral of_int_power, metis of_int_less_iff of_int_numeral of_int_power)
  have dp: "(0 :: rat) < of_int d" using d by simp
  have kk: "(2 :: rat) powi k = 2 ^ a / 2 ^ b"
    unfolding k_def by (subst power_int_diff) simp_all
  have up: "q < 2 powi (k + 1)"
  proof -
    have "of_int n * (2 :: rat) ^ b < 2 ^ Suc a * of_int d"
      using rn rd dp n by (intro mult_less_le_imp_less) auto
    then have "q < 2 ^ Suc a / 2 ^ b" using dp by (simp add: q field_simps)
    also have "\<dots> = 2 powi (k + 1)" by (subst power_int_add) (simp_all add: kk)
    finally show ?thesis .
  qed
  have lo: "2 powi (k - 1) \<le> q"
  proof -
    have "(2 :: rat) ^ a * of_int d \<le> of_int n * 2 ^ Suc b"
      using rn rd dp n by (intro mult_mono) auto
    then have "2 ^ a / (2 * 2 ^ b) \<le> q" using dp by (simp add: q field_simps)
    also have "(2 :: rat) ^ a / (2 * 2 ^ b) = 2 powi (k - 1)"
      by (subst power_int_diff) (simp_all add: kk)
    finally show ?thesis .
  qed
  have i: "ilog2 q = (if 2 powi k \<le> q then k else k - 1)"
    by (simp add: ilog2_def nd a_def b_def k_def Let_def)
  show "2 powi ilog2 q \<le> q" and "q < 2 powi (ilog2 q + 1)"
    using up lo by (auto simp: i)
qed

lemma ilog2_mono:
  assumes "0 < p" and "p \<le> q"
  shows "ilog2 p \<le> ilog2 q"
proof (rule ccontr)
  assume "\<not> ilog2 p \<le> ilog2 q"
  then have "(2 :: rat) powi (ilog2 q + 1) \<le> 2 powi ilog2 p" by (intro powi_2_le) simp
  with ilog2_bounds [of p] ilog2_bounds [of q] assms show False by linarith
qed

lemma rne_bounds: "\<lfloor>q\<rfloor> \<le> rne q" "rne q \<le> \<lfloor>q\<rfloor> + 1"
  by (simp_all add: rne_def Let_def)

lemma rne_of_int [simp]: "rne (of_int i) = i"
  by (simp add: rne_def)

lemma rne_mono: "p \<le> q \<Longrightarrow> rne p \<le> rne q"
proof (cases "\<lfloor>p\<rfloor> = \<lfloor>q\<rfloor>")
  case True
  assume "p \<le> q"
  with True show ?thesis by (auto simp: rne_def Let_def)
next
  case False
  assume "p \<le> q"
  then have "\<lfloor>p\<rfloor> \<le> \<lfloor>q\<rfloor>" by (rule floor_mono)
  with False show ?thesis using rne_bounds [of p] rne_bounds [of q] by linarith
qed

lemma rne_minus: "rne (- q) = - rne q"
proof (cases "q = of_int \<lfloor>q\<rfloor>")
  case True
  then obtain i where "q = of_int i" by blast
  then show ?thesis using rne_of_int [of "- i"] by simp
next
  case False
  then have m: "\<lfloor>- q\<rfloor> = - \<lfloor>q\<rfloor> - 1"
    by linarith
  then show ?thesis
    unfolding rne_def Let_def m by (auto simp: algebra_simps)
qed

lemma grid_round_mono: "p \<le> q \<Longrightarrow> grid_round e p \<le> grid_round e q"
  unfolding grid_round_def
  by (intro mult_right_mono) (auto intro!: rne_mono simp: divide_right_mono less_imp_le)

lemma grid_round_fix [simp]: "grid_round e (of_int m * 2 powi e) = of_int m * 2 powi e"
  by (simp add: grid_round_def)

lemma grid_round_powi: "e \<le> f \<Longrightarrow> grid_round e (2 powi f) = 2 powi f"
  using powi_2_diff [of e f] grid_round_fix [of e "2 ^ nat (f - e)"] by simp

lemma round_val_minus: "round_val (- q) = - round_val q"
  by (simp add: round_val_def grid_round_def ulp_exp_def rne_minus)

lemma round_val_0 [simp]: "round_val 0 = 0"
  by (simp add: round_val_def)

lemma round_val_nonneg: "0 \<le> q \<Longrightarrow> 0 \<le> round_val q"
  using grid_round_mono [of 0 q "ulp_exp q"] by (simp add: round_val_def grid_round_def rne_def)

lemma round_val_mono_pos:
  assumes "0 < p" and "p \<le> q"
  shows "round_val p \<le> round_val q"
proof (cases "ulp_exp p = ulp_exp q")
  case True
  with assms show ?thesis by (simp add: round_val_def grid_round_mono)
next
  case False
  define B where "B = (2 :: rat) powi ilog2 q"
  have "ilog2 p \<le> ilog2 q" using assms by (rule ilog2_mono)
  with False assms have lt: "ilog2 p < ilog2 q" "- 1022 < ilog2 q"
    by (auto simp: ulp_exp_def)
  then have e: "ulp_exp p \<le> ilog2 q" "ulp_exp q \<le> ilog2 q"
    using assms by (auto simp: ulp_exp_def)
  have "p \<le> B"
    using ilog2_bounds(2) [OF assms(1)] powi_2_le [of "ilog2 p + 1" "ilog2 q"] lt
    by (simp add: B_def)
  then have "grid_round (ulp_exp p) p \<le> B"
    using grid_round_mono grid_round_powi [OF e(1)] unfolding B_def by metis
  moreover have "B \<le> grid_round (ulp_exp q) q"
    using grid_round_mono [of B q] grid_round_powi [OF e(2)] ilog2_bounds(1) [of q] assms
    unfolding B_def by (metis less_le_trans)
  ultimately show ?thesis using assms by (simp add: round_val_def)
qed

lemma round_val_mono: "p \<le> q \<Longrightarrow> round_val p \<le> round_val q"
proof -
  assume le: "p \<le> q"
  consider "0 < p" | "q < 0" | "p \<le> 0" "0 \<le> q" by linarith
  then show ?thesis
  proof cases
    case 1
    with le show ?thesis by (simp add: round_val_mono_pos)
  next
    case 2
    with le have "round_val (- q) \<le> round_val (- p)" by (intro round_val_mono_pos) auto
    then show ?thesis by (simp add: round_val_minus)
  next
    case 3
    then have "0 \<le> round_val q" "0 \<le> round_val (- p)" by (simp_all add: round_val_nonneg)
    then show ?thesis by (simp add: round_val_minus)
  qed
qed

lemma fle_Fin [simp]: "fle (Fin a) (Fin b) \<longleftrightarrow> a \<le> b"
  by (auto simp: fle_def)

lemma round64_mono: "p \<le> q \<Longrightarrow> fle (round64 p) (round64 q)"
  using round_val_mono [of p q] by (auto simp: round64_def Let_def fle_def)

text \<open>A rational is a double when rounding leaves it alone.\<close>

definition is_f64 :: "rat \<Rightarrow> bool" where
  "is_f64 q \<longleftrightarrow> round64 q = Fin q"

lemma round64_ge: "is_f64 t \<Longrightarrow> t \<le> q \<Longrightarrow> fle (Fin t) (round64 q)"
  using round64_mono by (metis is_f64_def)

lemma round64_le: "is_f64 t \<Longrightarrow> q \<le> t \<Longrightarrow> fle (round64 q) (Fin t)"
  using round64_mono by (metis is_f64_def)

lemma round64_small_int:
  assumes "\<bar>i\<bar> < 2 ^ 53"
  shows "round64 (of_int i) = Fin (of_int i)"
proof (cases "i = 0")
  case True
  then show ?thesis by (simp add: round64_def)
next
  case False
  let ?q = "\<bar>of_int i\<bar> :: rat"
  have pos: "0 < ?q" using False by simp
  have "?q < 2 powi 53" using assms
    by (metis of_int_abs of_int_less_iff of_int_numeral of_int_power power_int_numeral)
  with ilog2_bounds(1) [OF pos] have "(2 :: rat) powi ilog2 ?q < 2 powi 53" by linarith
  then have "ilog2 ?q < 53"
    using powi_2_le [of 53 "ilog2 ?q"] by linarith
  then have e: "ulp_exp (of_int i) \<le> 0" by (simp add: ulp_exp_def)
  have "of_int i = of_int (i * 2 ^ nat (0 - ulp_exp (of_int i))) * (2 :: rat) powi ulp_exp (of_int i)"
    using powi_2_diff [OF e] by simp
  then have "round_val (of_int i) = of_int i"
    using False grid_round_fix by (metis of_int_eq_0_iff round_val_def)
  moreover have "?q < 2 ^ 1024"
  proof -
    have "?q < 2 ^ 53" using \<open>?q < 2 powi 53\<close> by (simp add: power_int_def)
    also have "(2 :: rat) ^ 53 \<le> 2 ^ 1024" by (rule power_increasing) simp_all
    finally show ?thesis .
  qed
  ultimately show ?thesis by (auto simp: round64_def abs_if split: if_splits)
qed

lemma f64_of_small_int [simp]: "\<bar>i\<bar> < 2 ^ 53 \<Longrightarrow> f64_of_int i = Fin (of_int i)"
  by (simp add: f64_of_int_def round64_small_int)

lemma f64_of_int_mono: "i \<le> j \<Longrightarrow> fle (f64_of_int i) (f64_of_int j)"
  by (simp add: f64_of_int_def round64_mono)

section \<open>Evaluation\<close>

text \<open>
  Dyadic rationals with a short mantissa are doubles: this evaluates the arithmetic of a witness
  without computing exponents. For the code generator the exponent is computed on \<open>int\<close>.
\<close>

lemma round64_dyadic:
  assumes "\<bar>i\<bar> < 2 ^ 53" and "k \<le> 1000"
  shows "round64 (of_int i / 2 ^ k) = Fin (of_int i / 2 ^ k)"
proof (cases "i = 0")
  case True
  then show ?thesis by (simp add: round64_def)
next
  case False
  define q where "q = (of_int i / 2 ^ k :: rat)"
  have q: "q \<noteq> 0" "0 < \<bar>q\<bar>" using False by (simp_all add: q_def)
  have pk: "(2 :: rat) ^ k = 2 powi int k" by (simp add: power_int_def)
  have qp: "q = of_int i * 2 powi (- int k)"
    unfolding q_def pk power_int_minus by (rule divide_inverse)
  have "(of_int \<bar>i\<bar> :: rat) < 2 powi 53" using assms(1)
    by (metis of_int_less_iff of_int_numeral of_int_power power_int_numeral)
  then have "\<bar>q\<bar> < 2 powi 53 * 2 powi (- int k)"
    by (simp add: qp abs_mult)
  also have "\<dots> = 2 powi (53 - int k)"
    using power_int_add [of "2 :: rat" 53 "- int k"] by (simp only: diff_conv_add_uminus) simp
  finally have "\<bar>q\<bar> < 2 powi (53 - int k)" .
  with ilog2_bounds(1) [OF q(2)] have "(2 :: rat) powi ilog2 \<bar>q\<bar> < 2 powi (53 - int k)" by linarith
  then have "ilog2 \<bar>q\<bar> < 53 - int k"
    using powi_2_le [of "53 - int k" "ilog2 \<bar>q\<bar>"] by linarith
  then have e: "ulp_exp q \<le> - int k" using assms(2) by (simp add: ulp_exp_def)
  have "q = of_int (i * 2 ^ nat (- int k - ulp_exp q)) * (2 :: rat) powi ulp_exp q"
    using powi_2_diff [OF e] by (simp add: qp mult.assoc)
  then have v: "round_val q = q"
    using q(1) grid_round_fix by (metis round_val_def)
  have "\<bar>q\<bar> \<le> of_int \<bar>i\<bar>"
    by (simp add: q_def abs_div divide_le_eq mult_le_cancel_left1)
  also have "\<dots> < 2 ^ 53" using assms(1) by (metis of_int_less_iff of_int_numeral of_int_power)
  also have "(2 :: rat) ^ 53 \<le> 2 ^ 1024" by (rule power_increasing) simp_all
  finally have "\<bar>q\<bar> < 2 ^ 1024" .
  then show ?thesis by (auto simp: round64_def v abs_if simp flip: q_def split: if_splits)
qed

function int_log2 :: "int \<Rightarrow> int" where
  "int_log2 n = (if n < 2 then 0 else 1 + int_log2 (n div 2))"
  by pat_completeness auto
termination
  by (relation "measure nat") auto

declare int_log2.simps [simp del]

lemma int_log2_nat: "int_log2 n = int (nat_log2 (nat n))"
proof (induction n rule: int_log2.induct)
  case (1 n)
  have "nat n < 2 \<longleftrightarrow> n < 2" by arith
  with 1 show ?case
    by (simp add: int_log2.simps [of n] nat_log2.simps [of "nat n"] nat_div_distrib)
qed

lemma ilog2_code [code]:
  "ilog2 q = (let (n, d) = quotient_of q; k = int_log2 n - int_log2 d
              in if 2 powi k \<le> q then k else k - 1)"
  by (simp add: ilog2_def int_log2_nat)

lemma pow_le_ilog2: "0 < v \<Longrightarrow> (2 :: rat) ^ 1024 \<le> v \<longleftrightarrow> 1024 \<le> ilog2 v"
proof
  assume v: "0 < v" and "(2 :: rat) ^ 1024 \<le> v"
  then have "(2 :: rat) powi 1024 < 2 powi (ilog2 v + 1)"
    using ilog2_bounds(2) [OF v] by (simp add: power_int_numeral)
  then show "1024 \<le> ilog2 v" using powi_2_le [of "ilog2 v + 1" 1024] by linarith
next
  assume v: "0 < v" and "1024 \<le> ilog2 v"
  then have "(2 :: rat) powi 1024 \<le> v"
    using powi_2_le [of 1024 "ilog2 v"] ilog2_bounds(1) [OF v] by linarith
  then show "(2 :: rat) ^ 1024 \<le> v" by (simp add: power_int_numeral)
qed

lemma round64_code [code]:
  "round64 q = (let v = round_val q
                in if v \<noteq> 0 \<and> 1024 \<le> ilog2 \<bar>v\<bar> then (if 0 < v then PInf else NInf) else Fin v)"
  using pow_le_ilog2 [of "round_val q"] pow_le_ilog2 [of "- round_val q"]
  by (auto simp: round64_def Let_def)

lemma precision_bounds: "fle (Fin (1 / 2 ^ 27)) precision" "fle precision (Fin (1 / 2 ^ 26))"
proof -
  have "is_f64 (1 / 2 ^ 27)" "is_f64 (1 / 2 ^ 26)"
    using round64_dyadic [of 1 27] round64_dyadic [of 1 26] by (simp_all add: is_f64_def)
  then show "fle (Fin (1 / 2 ^ 27)) precision" "fle precision (Fin (1 / 2 ^ 26))"
    unfolding precision_def by (auto intro!: round64_ge round64_le simp: field_simps)
qed

lemma Float64Equals_refl [simp]: "Float64Equals (Fin q) (Fin q)"
proof -
  have "flt (Fin 0) precision"
  proof (cases precision)
    case (Fin p)
    with precision_bounds(1) have "fle (Fin (1 / 2 ^ 27)) (Fin p)" by simp
    then have "0 < p" by (auto simp: fle_def)
    then show ?thesis unfolding Fin by simp
  qed (use precision_bounds(1) in \<open>simp_all add: fle_def\<close>)
  then show ?thesis by (simp add: Float64Equals_def fsub_def round64_def round_val_def)
qed

end
