(* ===== verification/CircuitBreaker.thy ===== *)
theory CircuitBreaker
  imports LeapArray Float64
begin

text \<open>
  The circuit breakers of \<open>core/circuitbreaker/circuit_breaker.go\<close> and their rules (\<open>rule.go\<close>): the
  state machine all three share, the two windows of counters, and for each strategy its \<open>TryPass\<close>
  and \<open>OnRequestComplete\<close>. A call reads the clock where the code does; the readings are arguments.
  Calls of the state-change listeners are returned as a list of notes, in the order of the calls.
\<close>

section \<open>Rules\<close>

text \<open>\<open>Strategy\<close> is an unsigned integer: besides the three constants it may name a custom generator.\<close>

type_synonym strategy = u32

definition SlowRequestRatio :: strategy where "SlowRequestRatio = 0"
definition ErrorRatio :: strategy where "ErrorRatio = 1"
definition ErrorCount :: strategy where "ErrorCount = 2"

lemmas strategy_defs = SlowRequestRatio_def ErrorRatio_def ErrorCount_def

definition Strategy_String :: "strategy \<Rightarrow> string" where
  "Strategy_String s =
     (if s = SlowRequestRatio then ''SlowRequestRatio''
      else if s = ErrorRatio then ''ErrorRatio''
      else if s = ErrorCount then ''ErrorCount''
      else ''Undefined'')"

record cb_rule =
  cr_Id :: string
  cr_App :: string
  cr_RuleName :: string
  cr_LimitApp :: string
  cr_Resource :: string
  cr_Strategy :: strategy
  cr_RetryTimeoutMs :: u32
  cr_MinRequestAmount :: u64
  cr_StatIntervalMs :: u32
  cr_BucketCount :: u32
  cr_MaxAllowedRtMs :: u64
  cr_Threshold :: f64
  cr_ProbeNum :: u64

text \<open>The argument \<open>newRule\<close> of the comparisons may be a nil pointer.\<close>

definition cb_isStatReusable :: "cb_rule \<Rightarrow> cb_rule option \<Rightarrow> bool" where
  "cb_isStatReusable r newRule =
     (case newRule of
        None \<Rightarrow> False
      | Some r' \<Rightarrow> cr_Resource r = cr_Resource r' \<and> cr_Strategy r = cr_Strategy r' \<and>
          cr_StatIntervalMs r = cr_StatIntervalMs r' \<and> cr_BucketCount r = cr_BucketCount r')"

definition cb_isEqualsToBase :: "cb_rule \<Rightarrow> cb_rule option \<Rightarrow> bool" where
  "cb_isEqualsToBase r newRule =
     (case newRule of
        None \<Rightarrow> False
      | Some r' \<Rightarrow> cr_Resource r = cr_Resource r' \<and> cr_Strategy r = cr_Strategy r' \<and>
          cr_RetryTimeoutMs r = cr_RetryTimeoutMs r' \<and> cr_MinRequestAmount r = cr_MinRequestAmount r' \<and>
          cr_StatIntervalMs r = cr_StatIntervalMs r' \<and> cr_BucketCount r = cr_BucketCount r' \<and>
          cr_LimitApp r = cr_LimitApp r')"

definition cb_isEqualTo :: "cb_rule \<Rightarrow> cb_rule option \<Rightarrow> bool" where
  "cb_isEqualTo r newRule =
     (if \<not> cb_isEqualsToBase r newRule then False
      else case newRule of
        None \<Rightarrow> False
      | Some r' \<Rightarrow>
          if cr_Strategy r' = SlowRequestRatio then
            cr_MaxAllowedRtMs r = cr_MaxAllowedRtMs r' \<and> Float64Equals (cr_Threshold r) (cr_Threshold r')
          else if cr_Strategy r' = ErrorRatio then Float64Equals (cr_Threshold r) (cr_Threshold r')
          else if cr_Strategy r' = ErrorCount then Float64Equals (cr_Threshold r) (cr_Threshold r')
          else False)"

definition getRuleStatSlidingWindowBucketCount :: "cb_rule \<Rightarrow> u32" where
  "getRuleStatSlidingWindowBucketCount r =
     (let interval = cr_StatIntervalMs r; bucketCount = cr_BucketCount r
      in if bucketCount = 0 \<or> interval mod bucketCount \<noteq> 0 then 1 else bucketCount)"

section \<open>The state machine\<close>

datatype cb_state = Closed | HalfOpen | Open

fun State_String :: "cb_state \<Rightarrow> string" where
  "State_String Closed = ''Closed''"
| "State_String HalfOpen = ''HalfOpen''"
| "State_String Open = ''Open''"

text \<open>The values the code passes as a snapshot, and the calls a listener receives.\<close>

datatype snapshot = SnapFloat f64 | SnapCount u64 | SnapInt int

datatype cb_note =
  OnTransformToClosed cb_state cb_rule
| OnTransformToOpen cb_state cb_rule snapshot
| OnTransformToHalfOpen cb_state cb_rule

record breaker_base =
  cb_rule_of :: cb_rule
  retryTimeoutMs :: u32
  nextRetryTimestampMs :: u64
  probeNumber :: u64
  curProbeNumber :: u64
  cb_state_of :: cb_state

definition state_cas :: "cb_state \<Rightarrow> cb_state \<Rightarrow> 'a breaker_base_scheme \<Rightarrow> bool \<times> 'a breaker_base_scheme" where
  "state_cas expect update b =
     (if cb_state_of b = expect then (True, b\<lparr>cb_state_of := update\<rparr>) else (False, b))"

definition retryTimeoutArrived :: "u64 \<Rightarrow> 'a breaker_base_scheme \<Rightarrow> bool" where
  "retryTimeoutArrived now b \<longleftrightarrow> nextRetryTimestampMs b \<le> now"

definition updateNextRetryTimestamp :: "u64 \<Rightarrow> 'a breaker_base_scheme \<Rightarrow> 'a breaker_base_scheme" where
  "updateNextRetryTimestamp now b = b\<lparr>nextRetryTimestampMs := now + ucast (retryTimeoutMs b)\<rparr>"

definition addCurProbeNum :: "'a breaker_base_scheme \<Rightarrow> 'a breaker_base_scheme" where
  "addCurProbeNum b = b\<lparr>curProbeNumber := curProbeNumber b + 1\<rparr>"

definition resetCurProbeNum :: "'a breaker_base_scheme \<Rightarrow> 'a breaker_base_scheme" where
  "resetCurProbeNum b = b\<lparr>curProbeNumber := 0\<rparr>"

definition fromClosedToOpen ::
  "u64 \<Rightarrow> snapshot \<Rightarrow> 'a breaker_base_scheme \<Rightarrow> bool \<times> 'a breaker_base_scheme \<times> cb_note list" where
  "fromClosedToOpen now snapshot b =
     (case state_cas Closed Open b of
        (True, b) \<Rightarrow>
          let b = updateNextRetryTimestamp now b
          in (True, b, [OnTransformToOpen Closed (cb_rule_of b) snapshot])
      | (False, b) \<Rightarrow> (False, b, []))"

text \<open>
  \<open>has_entry\<close>: the context holds an entry. The last component says that the exit hook below was added
  to that entry.
\<close>

definition fromOpenToHalfOpen ::
  "bool \<Rightarrow> 'a breaker_base_scheme \<Rightarrow> bool \<times> 'a breaker_base_scheme \<times> cb_note list \<times> bool" where
  "fromOpenToHalfOpen has_entry b =
     (case state_cas Open HalfOpen b of
        (True, b) \<Rightarrow> (True, b, [OnTransformToHalfOpen Open (cb_rule_of b)], has_entry)
      | (False, b) \<Rightarrow> (False, b, [], False))"

text \<open>The hook a probe adds to its entry, run when the entry exits.\<close>

definition probe_exit_hook :: "bool \<Rightarrow> 'a breaker_base_scheme \<Rightarrow> 'a breaker_base_scheme \<times> cb_note list" where
  "probe_exit_hook blocked b =
     (if blocked then
        (case state_cas HalfOpen Open b of
           (True, b) \<Rightarrow> (b, [OnTransformToOpen HalfOpen (cb_rule_of b) (SnapFloat (Fin 1))])
         | (False, b) \<Rightarrow> (b, []))
      else (b, []))"

definition fromHalfOpenToOpen ::
  "u64 \<Rightarrow> snapshot \<Rightarrow> 'a breaker_base_scheme \<Rightarrow> bool \<times> 'a breaker_base_scheme \<times> cb_note list" where
  "fromHalfOpenToOpen now snapshot b =
     (case state_cas HalfOpen Open b of
        (True, b) \<Rightarrow>
          let b = updateNextRetryTimestamp now (resetCurProbeNum b)
          in (True, b, [OnTransformToOpen HalfOpen (cb_rule_of b) snapshot])
      | (False, b) \<Rightarrow> (False, b, []))"

definition fromHalfOpenToClosed ::
  "'a breaker_base_scheme \<Rightarrow> bool \<times> 'a breaker_base_scheme \<times> cb_note list" where
  "fromHalfOpenToClosed b =
     (case state_cas HalfOpen Closed b of
        (True, b) \<Rightarrow>
          let b = resetCurProbeNum b
          in (True, b, [OnTransformToClosed HalfOpen (cb_rule_of b)])
      | (False, b) \<Rightarrow> (False, b, []))"

text \<open>The body the three \<open>TryPass\<close> methods share, over the fields of the base.\<close>

definition try_pass ::
  "u64 \<Rightarrow> bool \<Rightarrow> 'a breaker_base_scheme \<Rightarrow> bool \<times> 'a breaker_base_scheme \<times> cb_note list \<times> bool" where
  "try_pass now has_entry b =
     (let curStatus = cb_state_of b in
      if curStatus = Closed then (True, b, [], False)
      else
        let probe = (if curStatus = Open \<and> retryTimeoutArrived now b
                     then fromOpenToHalfOpen has_entry b else (False, b, [], False))
        in if fst probe then probe
           else if curStatus = HalfOpen \<and> 0 < probeNumber b then (True, snd probe)
           else (False, snd probe))"

section \<open>Windows of counters\<close>

record slow_counter =
  slowCount :: u64
  slow_totalCount :: u64

definition slow_reset :: "slow_counter \<Rightarrow> slow_counter" where
  "slow_reset c = c\<lparr>slowCount := 0, slow_totalCount := 0\<rparr>"

definition slow_gen :: "slow_counter bucket_gen" where
  "slow_gen = \<lparr>NewEmptyBucket = \<lparr>slowCount = 0, slow_totalCount = 0\<rparr>,
     ResetBucketTo = (\<lambda>bw startTime.
       (bw\<lparr>BucketStart := startTime\<rparr>)\<lparr>Value := Some \<lparr>slowCount = 0, slow_totalCount = 0\<rparr>\<rparr>)\<rparr>"

record error_counter =
  errorCount :: u64
  err_totalCount :: u64

definition err_reset :: "error_counter \<Rightarrow> error_counter" where
  "err_reset c = c\<lparr>errorCount := 0, err_totalCount := 0\<rparr>"

definition err_gen :: "error_counter bucket_gen" where
  "err_gen = \<lparr>NewEmptyBucket = \<lparr>errorCount = 0, err_totalCount = 0\<rparr>,
     ResetBucketTo = (\<lambda>bw startTime.
       (bw\<lparr>BucketStart := startTime\<rparr>)\<lparr>Value := Some \<lparr>errorCount = 0, err_totalCount = 0\<rparr>\<rparr>)\<rparr>"

text \<open>
  \<open>currentCounter\<close>: the place of the counter of the current bucket, or the error; the window is
  refreshed. \<open>allCounter\<close>: the counters of the valid buckets.
\<close>

definition current_counter :: "'c bucket_gen \<Rightarrow> u64 \<Rightarrow> 'c leap_array \<Rightarrow> nat go \<times> 'c leap_array" where
  "current_counter bg now la =
     (case currentBucketOfTime bg now la of
        (Ret i, la) \<Rightarrow> (case Value (entry la i) of None \<Rightarrow> (Err ''nil counter'', la) | Some c \<Rightarrow> (Ret i, la))
      | (Err e, la) \<Rightarrow> (Err e, la)
      | (Panic p, la) \<Rightarrow> (Panic p, la))"

definition slow_currentCounter :: "u64 \<Rightarrow> slow_counter leap_array \<Rightarrow> nat go \<times> slow_counter leap_array" where
  "slow_currentCounter now la = current_counter slow_gen now la"

definition err_currentCounter :: "u64 \<Rightarrow> error_counter leap_array \<Rightarrow> nat go \<times> error_counter leap_array" where
  "err_currentCounter now la = current_counter err_gen now la"

definition slow_allCounter :: "u64 \<Rightarrow> slow_counter leap_array \<Rightarrow> slow_counter list" where
  "slow_allCounter now la = bucket_values (valuesWithTime la now)"

definition err_allCounter :: "u64 \<Rightarrow> error_counter leap_array \<Rightarrow> error_counter list" where
  "err_allCounter now la = bucket_values (valuesWithTime la now)"

section \<open>Slow requests\<close>

record slow_breaker = breaker_base +
  slow_stat :: "slow_counter leap_array"
  maxAllowedRt :: u64
  maxSlowRequestRation :: f64
  slow_minRequestAmount :: u64

definition newSlowRtCircuitBreakerWithStat :: "cb_rule \<Rightarrow> slow_counter leap_array \<Rightarrow> slow_breaker" where
  "newSlowRtCircuitBreakerWithStat r stat =
     \<lparr>cb_rule_of = r, retryTimeoutMs = cr_RetryTimeoutMs r, nextRetryTimestampMs = 0,
      probeNumber = cr_ProbeNum r, curProbeNumber = 0, cb_state_of = Closed,
      slow_stat = stat, maxAllowedRt = cr_MaxAllowedRtMs r,
      maxSlowRequestRation = cr_Threshold r, slow_minRequestAmount = cr_MinRequestAmount r\<rparr>"

definition newSlowRtCircuitBreaker :: "u64 \<Rightarrow> cb_rule \<Rightarrow> slow_breaker go" where
  "newSlowRtCircuitBreaker now r =
     (let interval = cr_StatIntervalMs r;
          bucketCount = getRuleStatSlidingWindowBucketCount r
      in go_bind (NewLeapArray now bucketCount interval (Some slow_gen))
           (\<lambda>leapArray. Ret (newSlowRtCircuitBreakerWithStat r leapArray)))"

definition slow_TryPass :: "u64 \<Rightarrow> bool \<Rightarrow> slow_breaker \<Rightarrow> bool \<times> slow_breaker \<times> cb_note list \<times> bool" where
  "slow_TryPass now has_entry b = try_pass now has_entry b"

definition slow_resetMetric :: "u64 \<Rightarrow> slow_breaker \<Rightarrow> slow_breaker" where
  "slow_resetMetric now b =
     b\<lparr>slow_stat := upd_vals (valuesWithTime_idx (slow_stat b) now) slow_reset (slow_stat b)\<rparr>"

text \<open>
  The clock is read at \<open>t1\<close> for the current counter, at \<open>t2\<close> for the counters and at \<open>t3\<close> after
  that, for the reset or the next retry.
\<close>

definition slow_add :: "u64 \<Rightarrow> slow_breaker \<Rightarrow> slow_counter \<Rightarrow> slow_counter" where
  "slow_add rt b c =
     (let c = (if maxAllowedRt b < rt then c\<lparr>slowCount := slowCount c + 1\<rparr> else c)
      in c\<lparr>slow_totalCount := slow_totalCount c + 1\<rparr>)"

definition slow_OnRequestComplete ::
  "u64 \<Rightarrow> u64 \<Rightarrow> u64 \<Rightarrow> u64 \<Rightarrow> slow_breaker \<Rightarrow> slow_breaker \<times> cb_note list" where
  "slow_OnRequestComplete t1 t2 t3 rt b =
     (case slow_currentCounter t1 (slow_stat b) of
        (Ret i, stat) \<Rightarrow>
          let b = b\<lparr>slow_stat := upd_val i (slow_add rt b) stat\<rparr>;
              counters = slow_allCounter t2 (slow_stat b);
              slowC = foldl (\<lambda>n c. n + slowCount c) 0 counters;
              totalC = foldl (\<lambda>n c. n + slow_totalCount c) 0 counters;
              slowRatio = fdiv (f64_of_int (uint slowC)) (f64_of_int (uint totalC));
              curStatus = cb_state_of b
          in if curStatus = Open then (b, [])
             else if curStatus = HalfOpen then
               (if maxAllowedRt b < rt then snd (fromHalfOpenToOpen t3 (SnapFloat (Fin 1)) b)
                else
                  let b = addCurProbeNum b
                  in if probeNumber b = 0 \<or> probeNumber b \<le> curProbeNumber b
                     then let (_, b, notes) = fromHalfOpenToClosed b in (slow_resetMetric t3 b, notes)
                     else (b, []))
             else if totalC < slow_minRequestAmount b then (b, [])
             else if flt (maxSlowRequestRation b) slowRatio \<or> Float64Equals slowRatio (maxSlowRequestRation b) then
               (case cb_state_of b of
                  Closed \<Rightarrow> snd (fromClosedToOpen t3 (SnapFloat slowRatio) b)
                | HalfOpen \<Rightarrow> snd (fromHalfOpenToOpen t3 (SnapFloat slowRatio) b)
                | Open \<Rightarrow> (b, []))
             else (b, [])
      | (_, stat) \<Rightarrow> (b\<lparr>slow_stat := stat\<rparr>, []))"

section \<open>Error ratio\<close>

record ratio_breaker = breaker_base +
  ratio_minRequestAmount :: u64
  errorRationThreshold :: f64
  ratio_stat :: "error_counter leap_array"

definition newErrorRatioCircuitBreakerWithStat :: "cb_rule \<Rightarrow> error_counter leap_array \<Rightarrow> ratio_breaker" where
  "newErrorRatioCircuitBreakerWithStat r stat =
     \<lparr>cb_rule_of = r, retryTimeoutMs = cr_RetryTimeoutMs r, nextRetryTimestampMs = 0,
      probeNumber = cr_ProbeNum r, curProbeNumber = 0, cb_state_of = Closed,
      ratio_minRequestAmount = cr_MinRequestAmount r, errorRationThreshold = cr_Threshold r,
      ratio_stat = stat\<rparr>"

definition newErrorRatioCircuitBreaker :: "u64 \<Rightarrow> cb_rule \<Rightarrow> ratio_breaker go" where
  "newErrorRatioCircuitBreaker now r =
     (let interval = cr_StatIntervalMs r;
          bucketCount = getRuleStatSlidingWindowBucketCount r
      in go_bind (NewLeapArray now bucketCount interval (Some err_gen))
           (\<lambda>leapArray. Ret (newErrorRatioCircuitBreakerWithStat r leapArray)))"

definition ratio_TryPass :: "u64 \<Rightarrow> bool \<Rightarrow> ratio_breaker \<Rightarrow> bool \<times> ratio_breaker \<times> cb_note list \<times> bool" where
  "ratio_TryPass now has_entry b = try_pass now has_entry b"

definition ratio_resetMetric :: "u64 \<Rightarrow> ratio_breaker \<Rightarrow> ratio_breaker" where
  "ratio_resetMetric now b =
     b\<lparr>ratio_stat := upd_vals (valuesWithTime_idx (ratio_stat b) now) err_reset (ratio_stat b)\<rparr>"

text \<open>\<open>failed\<close>: the request completed with a non-nil error.\<close>

definition err_add :: "bool \<Rightarrow> error_counter \<Rightarrow> error_counter" where
  "err_add failed c =
     (let c = (if failed then c\<lparr>errorCount := errorCount c + 1\<rparr> else c)
      in c\<lparr>err_totalCount := err_totalCount c + 1\<rparr>)"

definition ratio_OnRequestComplete ::
  "u64 \<Rightarrow> u64 \<Rightarrow> u64 \<Rightarrow> bool \<Rightarrow> ratio_breaker \<Rightarrow> ratio_breaker \<times> cb_note list" where
  "ratio_OnRequestComplete t1 t2 t3 failed b =
     (case err_currentCounter t1 (ratio_stat b) of
        (Ret i, stat) \<Rightarrow>
          let b = b\<lparr>ratio_stat := upd_val i (err_add failed) stat\<rparr>;
              counters = err_allCounter t2 (ratio_stat b);
              errorC = foldl (\<lambda>n c. n + errorCount c) 0 counters;
              totalC = foldl (\<lambda>n c. n + err_totalCount c) 0 counters;
              errorRatio = fdiv (f64_of_int (uint errorC)) (f64_of_int (uint totalC));
              curStatus = cb_state_of b
          in if curStatus = Open then (b, [])
             else if curStatus = HalfOpen then
               (if \<not> failed then
                  let b = addCurProbeNum b
                  in if probeNumber b = 0 \<or> probeNumber b \<le> curProbeNumber b
                     then let (_, b, notes) = fromHalfOpenToClosed b in (ratio_resetMetric t3 b, notes)
                     else (b, [])
                else snd (fromHalfOpenToOpen t3 (SnapFloat (Fin 1)) b))
             else if totalC < ratio_minRequestAmount b then (b, [])
             else if flt (errorRationThreshold b) errorRatio \<or> Float64Equals errorRatio (errorRationThreshold b) then
               (case cb_state_of b of
                  Closed \<Rightarrow> snd (fromClosedToOpen t3 (SnapFloat errorRatio) b)
                | HalfOpen \<Rightarrow> snd (fromHalfOpenToOpen t3 (SnapFloat errorRatio) b)
                | Open \<Rightarrow> (b, []))
             else (b, [])
      | (_, stat) \<Rightarrow> (b\<lparr>ratio_stat := stat\<rparr>, []))"

section \<open>Error count\<close>

record count_breaker = breaker_base +
  count_minRequestAmount :: u64
  errorCountThreshold :: u64
  count_stat :: "error_counter leap_array"

text \<open>\<open>oor\<close> is what the conversion of an out-of-range threshold yields on the machine.\<close>

definition newErrorCountCircuitBreakerWithStat ::
  "(f64 \<Rightarrow> u64) \<Rightarrow> cb_rule \<Rightarrow> error_counter leap_array \<Rightarrow> count_breaker" where
  "newErrorCountCircuitBreakerWithStat oor r stat =
     \<lparr>cb_rule_of = r, retryTimeoutMs = cr_RetryTimeoutMs r, nextRetryTimestampMs = 0,
      probeNumber = cr_ProbeNum r, curProbeNumber = 0, cb_state_of = Closed,
      count_minRequestAmount = cr_MinRequestAmount r,
      errorCountThreshold = f64_to_u64 oor (cr_Threshold r), count_stat = stat\<rparr>"

definition newErrorCountCircuitBreaker :: "(f64 \<Rightarrow> u64) \<Rightarrow> u64 \<Rightarrow> cb_rule \<Rightarrow> count_breaker go" where
  "newErrorCountCircuitBreaker oor now r =
     (let interval = cr_StatIntervalMs r;
          bucketCount = getRuleStatSlidingWindowBucketCount r
      in go_bind (NewLeapArray now bucketCount interval (Some err_gen))
           (\<lambda>leapArray. Ret (newErrorCountCircuitBreakerWithStat oor r leapArray)))"

definition count_TryPass :: "u64 \<Rightarrow> bool \<Rightarrow> count_breaker \<Rightarrow> bool \<times> count_breaker \<times> cb_note list \<times> bool" where
  "count_TryPass now has_entry b = try_pass now has_entry b"

definition count_resetMetric :: "u64 \<Rightarrow> count_breaker \<Rightarrow> count_breaker" where
  "count_resetMetric now b =
     b\<lparr>count_stat := upd_vals (valuesWithTime_idx (count_stat b) now) err_reset (count_stat b)\<rparr>"

definition count_OnRequestComplete ::
  "u64 \<Rightarrow> u64 \<Rightarrow> u64 \<Rightarrow> bool \<Rightarrow> count_breaker \<Rightarrow> count_breaker \<times> cb_note list" where
  "count_OnRequestComplete t1 t2 t3 failed b =
     (case err_currentCounter t1 (count_stat b) of
        (Ret i, stat) \<Rightarrow>
          let b = b\<lparr>count_stat := upd_val i (err_add failed) stat\<rparr>;
              counters = err_allCounter t2 (count_stat b);
              errorC = foldl (\<lambda>n c. n + errorCount c) 0 counters;
              totalC = foldl (\<lambda>n c. n + err_totalCount c) 0 counters;
              curStatus = cb_state_of b
          in if curStatus = Open then (b, [])
             else if curStatus = HalfOpen then
               (if \<not> failed then
                  let b = addCurProbeNum b
                  in if probeNumber b = 0 \<or> probeNumber b \<le> curProbeNumber b
                     then let (_, b, notes) = fromHalfOpenToClosed b in (count_resetMetric t3 b, notes)
                     else (b, [])
                else snd (fromHalfOpenToOpen t3 (SnapInt 1) b))
             else if totalC < count_minRequestAmount b then (b, [])
             else if errorCountThreshold b \<le> errorC then
               (case cb_state_of b of
                  Closed \<Rightarrow> snd (fromClosedToOpen t3 (SnapCount errorC) b)
                | HalfOpen \<Rightarrow> snd (fromHalfOpenToOpen t3 (SnapCount errorC) b)
                | Open \<Rightarrow> (b, []))
             else (b, [])
      | (_, stat) \<Rightarrow> (b\<lparr>count_stat := stat\<rparr>, []))"

end
