(* ===== verification/BreakerMachine.thy ===== *)
theory BreakerMachine
  imports CircuitBreaker
begin

text \<open>
  The contract of the \<open>CircuitBreaker\<close> interface: over the fields of the base, a breaker is an abstract
  machine that is driven by verdicts on completed requests. The locale \<open>breaker_machine\<close> states the
  contract and what follows from it for every sequence of operations; its interpretations are the
  three breakers of the code and the sum of them that a rule manager holds.
\<close>

section \<open>The breakers of the code as one type\<close>

datatype circuit_breaker = SlowCB slow_breaker | RatioCB ratio_breaker | CountCB count_breaker

fun BoundRule :: "circuit_breaker \<Rightarrow> cb_rule" where
  "BoundRule (SlowCB b) = cb_rule_of b"
| "BoundRule (RatioCB b) = cb_rule_of b"
| "BoundRule (CountCB b) = cb_rule_of b"

fun CurrentState :: "circuit_breaker \<Rightarrow> cb_state" where
  "CurrentState (SlowCB b) = cb_state_of b"
| "CurrentState (RatioCB b) = cb_state_of b"
| "CurrentState (CountCB b) = cb_state_of b"

fun TryPass :: "u64 \<Rightarrow> bool \<Rightarrow> circuit_breaker \<Rightarrow> bool \<times> circuit_breaker \<times> cb_note list \<times> bool" where
  "TryPass now he (SlowCB b) = (let (ok, b, ns, h) = slow_TryPass now he b in (ok, SlowCB b, ns, h))"
| "TryPass now he (RatioCB b) = (let (ok, b, ns, h) = ratio_TryPass now he b in (ok, RatioCB b, ns, h))"
| "TryPass now he (CountCB b) = (let (ok, b, ns, h) = count_TryPass now he b in (ok, CountCB b, ns, h))"

text \<open>\<open>rt\<close> is the response time of the completed request and \<open>failed\<close> says that it had an error.\<close>

fun OnRequestComplete ::
  "u64 \<Rightarrow> u64 \<Rightarrow> u64 \<Rightarrow> u64 \<Rightarrow> bool \<Rightarrow> circuit_breaker \<Rightarrow> circuit_breaker \<times> cb_note list" where
  "OnRequestComplete t1 t2 t3 rt failed (SlowCB b) =
     (let (b, ns) = slow_OnRequestComplete t1 t2 t3 rt b in (SlowCB b, ns))"
| "OnRequestComplete t1 t2 t3 rt failed (RatioCB b) =
     (let (b, ns) = ratio_OnRequestComplete t1 t2 t3 failed b in (RatioCB b, ns))"
| "OnRequestComplete t1 t2 t3 rt failed (CountCB b) =
     (let (b, ns) = count_OnRequestComplete t1 t2 t3 failed b in (CountCB b, ns))"

fun ProbeExit :: "bool \<Rightarrow> circuit_breaker \<Rightarrow> circuit_breaker \<times> cb_note list" where
  "ProbeExit blocked (SlowCB b) = (let (b, ns) = probe_exit_hook blocked b in (SlowCB b, ns))"
| "ProbeExit blocked (RatioCB b) = (let (b, ns) = probe_exit_hook blocked b in (RatioCB b, ns))"
| "ProbeExit blocked (CountCB b) = (let (b, ns) = probe_exit_hook blocked b in (CountCB b, ns))"

fun base_view :: "circuit_breaker \<Rightarrow> breaker_base" where
  "base_view (SlowCB b) = breaker_base.truncate b"
| "base_view (RatioCB b) = breaker_base.truncate b"
| "base_view (CountCB b) = breaker_base.truncate b"

text \<open>\<open>BoundStat\<close>: an untyped value in the code, one of the two kinds of window.\<close>

datatype bound_stat = SlowStat "slow_counter leap_array" | ErrStat "error_counter leap_array"

fun BoundStat :: "circuit_breaker \<Rightarrow> bound_stat" where
  "BoundStat (SlowCB b) = SlowStat (slow_stat b)"
| "BoundStat (RatioCB b) = ErrStat (ratio_stat b)"
| "BoundStat (CountCB b) = ErrStat (count_stat b)"

text \<open>
  The generators that \<open>init\<close> puts into \<open>cbGenFuncMap\<close>; \<open>None\<close> is a strategy without one. The window to
  reuse is used if it has the right type; otherwise a new one is made.
\<close>

definition cbGenFunc ::
  "(f64 \<Rightarrow> u64) \<Rightarrow> strategy \<Rightarrow> (u64 \<Rightarrow> cb_rule option \<Rightarrow> bound_stat option \<Rightarrow> circuit_breaker go) option" where
  "cbGenFunc oor s =
     (if s = SlowRequestRatio then
        Some (\<lambda>now r reuseStat. case r of
            None \<Rightarrow> Err ''nil rule''
          | Some r \<Rightarrow>
              (case reuseStat of
                 Some (SlowStat stat) \<Rightarrow> Ret (SlowCB (newSlowRtCircuitBreakerWithStat r stat))
               | _ \<Rightarrow> go_bind (newSlowRtCircuitBreaker now r) (\<lambda>b. Ret (SlowCB b))))
      else if s = ErrorRatio then
        Some (\<lambda>now r reuseStat. case r of
            None \<Rightarrow> Err ''nil rule''
          | Some r \<Rightarrow>
              (case reuseStat of
                 Some (ErrStat stat) \<Rightarrow> Ret (RatioCB (newErrorRatioCircuitBreakerWithStat r stat))
               | _ \<Rightarrow> go_bind (newErrorRatioCircuitBreaker now r) (\<lambda>b. Ret (RatioCB b))))
      else if s = ErrorCount then
        Some (\<lambda>now r reuseStat. case r of
            None \<Rightarrow> Err ''nil rule''
          | Some r \<Rightarrow>
              (case reuseStat of
                 Some (ErrStat stat) \<Rightarrow> Ret (CountCB (newErrorCountCircuitBreakerWithStat oor r stat))
               | _ \<Rightarrow> go_bind (newErrorCountCircuitBreaker oor now r) (\<lambda>b. Ret (CountCB b))))
      else None)"

section \<open>Operations in sequence\<close>

datatype cb_op = DoTryPass u64 bool | DoComplete u64 u64 u64 u64 bool | DoProbeExit bool

text \<open>The answers of the \<open>TryPass\<close> calls and the notes to the listeners are collected in order.\<close>

fun run_ops ::
  "(u64 \<Rightarrow> bool \<Rightarrow> 'b \<Rightarrow> bool \<times> 'b \<times> cb_note list \<times> bool) \<Rightarrow>
   (u64 \<Rightarrow> u64 \<Rightarrow> u64 \<Rightarrow> u64 \<Rightarrow> bool \<Rightarrow> 'b \<Rightarrow> 'b \<times> cb_note list) \<Rightarrow>
   (bool \<Rightarrow> 'b \<Rightarrow> 'b \<times> cb_note list) \<Rightarrow> cb_op list \<Rightarrow> 'b \<Rightarrow> 'b \<times> bool list \<times> cb_note list" where
  "run_ops tp oc ex [] b = (b, [], [])"
| "run_ops tp oc ex (DoTryPass now he # ops) b =
     (let (ok, b, ns, _) = tp now he b; (b, oks, ms) = run_ops tp oc ex ops b in (b, ok # oks, ns @ ms))"
| "run_ops tp oc ex (DoComplete t1 t2 t3 rt failed # ops) b =
     (let (b, ns) = oc t1 t2 t3 rt failed b; (b, oks, ms) = run_ops tp oc ex ops b in (b, oks, ns @ ms))"
| "run_ops tp oc ex (DoProbeExit blocked # ops) b =
     (let (b, ns) = ex blocked b; (b, oks, ms) = run_ops tp oc ex ops b in (b, oks, ns @ ms))"

definition cb_run :: "cb_op list \<Rightarrow> circuit_breaker \<Rightarrow> circuit_breaker \<times> bool list \<times> cb_note list" where
  "cb_run = run_ops TryPass OnRequestComplete ProbeExit"

section \<open>The abstract machine\<close>

text \<open>
  The verdict on a completed request: whether it was counted at all, whether it was a good one, the
  snapshot of a failed probe, and the snapshot with which the closed breaker trips, if it does.
\<close>

datatype verdict = Skipped | Counted bool snapshot "snapshot option"

fun complete_step :: "u64 \<Rightarrow> verdict \<Rightarrow> breaker_base \<Rightarrow> breaker_base \<times> cb_note list" where
  "complete_step t Skipped b = (b, [])"
| "complete_step t (Counted good halfSnap trip) b =
     (case cb_state_of b of
        Open \<Rightarrow> (b, [])
      | HalfOpen \<Rightarrow>
          if \<not> good then snd (fromHalfOpenToOpen t halfSnap b)
          else let b = addCurProbeNum b
               in if probeNumber b = 0 \<or> probeNumber b \<le> curProbeNumber b
                  then snd (fromHalfOpenToClosed b) else (b, [])
      | Closed \<Rightarrow> (case trip of None \<Rightarrow> (b, []) | Some s \<Rightarrow> snd (fromClosedToOpen t s b)))"

text \<open>The edges of the diagram in the code, and the paths of the notes along them.\<close>

fun edge :: "cb_state \<Rightarrow> cb_state \<Rightarrow> bool" where
  "edge Closed Open = True"
| "edge Open HalfOpen = True"
| "edge HalfOpen Open = True"
| "edge HalfOpen Closed = True"
| "edge _ _ = False"

fun note_from :: "cb_note \<Rightarrow> cb_state" where
  "note_from (OnTransformToClosed p _) = p"
| "note_from (OnTransformToOpen p _ _) = p"
| "note_from (OnTransformToHalfOpen p _) = p"

fun note_to :: "cb_note \<Rightarrow> cb_state" where
  "note_to (OnTransformToClosed _ _) = Closed"
| "note_to (OnTransformToOpen _ _ _) = Open"
| "note_to (OnTransformToHalfOpen _ _) = HalfOpen"

fun path :: "cb_state \<Rightarrow> cb_note list \<Rightarrow> cb_state \<Rightarrow> bool" where
  "path s [] s' = (s = s')"
| "path s (n # ns) s' = (note_from n = s \<and> edge s (note_to n) \<and> path (note_to n) ns s')"

lemma path_append: "path s ns s' \<Longrightarrow> path s' ms s'' \<Longrightarrow> path s (ns @ ms) s''"
  by (induction s ns s' rule: path.induct) auto

lemmas transition_defs =
  fromClosedToOpen_def fromOpenToHalfOpen_def fromHalfOpenToOpen_def fromHalfOpenToClosed_def
  probe_exit_hook_def state_cas_def updateNextRetryTimestamp_def resetCurProbeNum_def addCurProbeNum_def
  try_pass_def retryTimeoutArrived_def

lemma try_pass_path: "try_pass now he b = (ok, b', ns, h) \<Longrightarrow> path (cb_state_of b) ns (cb_state_of b')"
  by (cases "cb_state_of b") (auto simp: transition_defs Let_def split: if_splits)

lemma complete_step_path: "complete_step t v b = (b', ns) \<Longrightarrow> path (cb_state_of b) ns (cb_state_of b')"
  by (cases v; cases "cb_state_of b") (auto simp: transition_defs Let_def split: if_splits option.splits)

lemma probe_exit_hook_path: "probe_exit_hook blocked b = (b', ns) \<Longrightarrow> path (cb_state_of b) ns (cb_state_of b')"
  by (cases "cb_state_of b") (auto simp: transition_defs split: if_splits)

section \<open>The contract of a breaker\<close>

text \<open>The times at which an operation can end an open period: the clock readings of \<open>TryPass\<close>.\<close>

fun before :: "u64 \<Rightarrow> cb_op \<Rightarrow> bool" where
  "before t (DoTryPass now _) = (now < t)"
| "before t _ = True"

locale breaker_machine =
  fixes base :: "'b \<Rightarrow> breaker_base"
    and tp :: "u64 \<Rightarrow> bool \<Rightarrow> 'b \<Rightarrow> bool \<times> 'b \<times> cb_note list \<times> bool"
    and oc :: "u64 \<Rightarrow> u64 \<Rightarrow> u64 \<Rightarrow> u64 \<Rightarrow> bool \<Rightarrow> 'b \<Rightarrow> 'b \<times> cb_note list"
    and ex :: "bool \<Rightarrow> 'b \<Rightarrow> 'b \<times> cb_note list"
    and vd :: "u64 \<Rightarrow> u64 \<Rightarrow> u64 \<Rightarrow> bool \<Rightarrow> 'b \<Rightarrow> verdict"
  assumes tp_base: "tp now he b = (ok, b', ns, h) \<Longrightarrow> try_pass now he (base b) = (ok, base b', ns, h)"
    and oc_base: "oc t1 t2 t3 rt failed b = (b', ns) \<Longrightarrow>
      complete_step t3 (vd t1 t2 rt failed b) (base b) = (base b', ns)"
    and ex_base: "ex blocked b = (b', ns) \<Longrightarrow> probe_exit_hook blocked (base b) = (base b', ns)"
begin

abbreviation runs where "runs \<equiv> run_ops tp oc ex"

text \<open>The notes to the listeners trace the states: each is an edge of the diagram.\<close>

lemma notes_trace_states:
  "runs ops b = (b', oks, ns) \<Longrightarrow> path (cb_state_of (base b)) ns (cb_state_of (base b'))"
proof (induction ops arbitrary: b b' oks ns)
  case Nil
  then show ?case by simp
next
  case (Cons op ops)
  show ?case
  proof (cases op)
    case (DoTryPass now he)
    obtain ok c ms h where c: "tp now he b = (ok, c, ms, h)" by (metis prod_cases4)
    obtain d os ls where d: "runs ops c = (d, os, ls)" by (metis prod_cases3)
    show ?thesis using Cons.prems Cons.IH [OF d] path_append [OF try_pass_path [OF tp_base [OF c]]]
      by (auto simp: DoTryPass c d)
  next
    case (DoComplete t1 t2 t3 rt failed)
    obtain c ms where c: "oc t1 t2 t3 rt failed b = (c, ms)" by fastforce
    obtain d os ls where d: "runs ops c = (d, os, ls)" by (metis prod_cases3)
    show ?thesis using Cons.prems Cons.IH [OF d] path_append [OF complete_step_path [OF oc_base [OF c]]]
      by (auto simp: DoComplete c d)
  next
    case (DoProbeExit blocked)
    obtain c ms where c: "ex blocked b = (c, ms)" by fastforce
    obtain d os ls where d: "runs ops c = (d, os, ls)" by (metis prod_cases3)
    show ?thesis using Cons.prems Cons.IH [OF d] path_append [OF probe_exit_hook_path [OF ex_base [OF c]]]
      by (auto simp: DoProbeExit c d)
  qed
qed

text \<open>Until its retry time an open breaker rejects every request and nothing changes its base.\<close>

lemma open_rejects:
  assumes "cb_state_of (base b) = Open" and "\<forall>op \<in> set ops. before (nextRetryTimestampMs (base b)) op"
    and "runs ops b = (b', oks, ns)"
  shows "base b' = base b \<and> ns = [] \<and> (\<forall>ok \<in> set oks. \<not> ok)"
  using assms
proof (induction ops arbitrary: b b' oks ns)
  case Nil
  then show ?case by simp
next
  case (Cons op ops)
  show ?case
  proof (cases op)
    case (DoTryPass now he)
    obtain ok c ms h where c: "tp now he b = (ok, c, ms, h)" by (metis prod_cases4)
    have eq: "\<not> ok" "base c = base b" "ms = []"
      using tp_base [OF c] Cons.prems DoTryPass
      by (auto simp: try_pass_def retryTimeoutArrived_def Let_def split: if_splits)
    obtain d os ls where d: "runs ops c = (d, os, ls)" by (metis prod_cases3)
    show ?thesis using Cons.IH [OF _ _ d] Cons.prems eq by (auto simp: DoTryPass c d)
  next
    case (DoComplete t1 t2 t3 rt failed)
    obtain c ms where c: "oc t1 t2 t3 rt failed b = (c, ms)" by fastforce
    have eq: "base c = base b" "ms = []"
      using oc_base [OF c] Cons.prems
      by (cases "vd t1 t2 rt failed b"; simp)+
    obtain d os ls where d: "runs ops c = (d, os, ls)" by (metis prod_cases3)
    show ?thesis using Cons.IH [OF _ _ d] Cons.prems eq by (auto simp: DoComplete c d)
  next
    case (DoProbeExit blocked)
    obtain c ms where c: "ex blocked b = (c, ms)" by fastforce
    have eq: "base c = base b" "ms = []"
      using ex_base [OF c] Cons.prems by (auto simp: probe_exit_hook_def state_cas_def split: if_splits)
    obtain d os ls where d: "runs ops c = (d, os, ls)" by (metis prod_cases3)
    show ?thesis using Cons.IH [OF _ _ d] Cons.prems eq by (auto simp: DoProbeExit c d)
  qed
qed

end

section \<open>The three breakers keep the contract\<close>

lemmas truncate_simps = breaker_base.defs

lemma truncate_views [simp]:
  "cb_rule_of (breaker_base.truncate b) = cb_rule_of b"
  "retryTimeoutMs (breaker_base.truncate b) = retryTimeoutMs b"
  "nextRetryTimestampMs (breaker_base.truncate b) = nextRetryTimestampMs b"
  "probeNumber (breaker_base.truncate b) = probeNumber b"
  "curProbeNumber (breaker_base.truncate b) = curProbeNumber b"
  "cb_state_of (breaker_base.truncate b) = cb_state_of b"
  by (simp_all add: truncate_simps)

lemma truncate_updates [simp]:
  "(breaker_base.truncate b)\<lparr>nextRetryTimestampMs := n\<rparr> = breaker_base.truncate (b\<lparr>nextRetryTimestampMs := n\<rparr>)"
  "(breaker_base.truncate b)\<lparr>curProbeNumber := m\<rparr> = breaker_base.truncate (b\<lparr>curProbeNumber := m\<rparr>)"
  "(breaker_base.truncate b)\<lparr>cb_state_of := s\<rparr> = breaker_base.truncate (b\<lparr>cb_state_of := s\<rparr>)"
  by (simp_all add: truncate_simps)

lemma truncate_try_pass:
  "try_pass now he b = (ok, b', ns, h) \<Longrightarrow>
   try_pass now he (breaker_base.truncate b) = (ok, breaker_base.truncate b', ns, h)"
  by (cases "cb_state_of b") (auto simp: transition_defs Let_def split: if_splits)

lemma truncate_probe_exit:
  "probe_exit_hook blocked b = (b', ns) \<Longrightarrow>
   probe_exit_hook blocked (breaker_base.truncate b) = (breaker_base.truncate b', ns)"
  by (cases "cb_state_of b") (auto simp: transition_defs split: if_splits)

text \<open>What the breakers decide from their windows after the request is counted.\<close>

definition slow_verdict :: "u64 \<Rightarrow> u64 \<Rightarrow> u64 \<Rightarrow> bool \<Rightarrow> slow_breaker \<Rightarrow> verdict" where
  "slow_verdict t1 t2 rt failed b =
     (case slow_currentCounter t1 (slow_stat b) of
        (Ret i, stat) \<Rightarrow>
          let counters = slow_allCounter t2 (upd_val i (slow_add rt b) stat);
              slowC = (\<Sum>c \<leftarrow> counters. slowCount c); totalC = (\<Sum>c \<leftarrow> counters. slow_totalCount c);
              ratio = fdiv (f64_of_int (uint slowC)) (f64_of_int (uint totalC))
          in Counted (rt \<le> maxAllowedRt b) (SnapFloat (Fin 1))
               (if slow_minRequestAmount b \<le> totalC \<and>
                   (flt (maxSlowRequestRation b) ratio \<or> Float64Equals ratio (maxSlowRequestRation b))
                then Some (SnapFloat ratio) else None)
      | _ \<Rightarrow> Skipped)"

definition ratio_verdict :: "u64 \<Rightarrow> u64 \<Rightarrow> u64 \<Rightarrow> bool \<Rightarrow> ratio_breaker \<Rightarrow> verdict" where
  "ratio_verdict t1 t2 rt failed b =
     (case err_currentCounter t1 (ratio_stat b) of
        (Ret i, stat) \<Rightarrow>
          let counters = err_allCounter t2 (upd_val i (err_add failed) stat);
              errorC = (\<Sum>c \<leftarrow> counters. errorCount c); totalC = (\<Sum>c \<leftarrow> counters. err_totalCount c);
              ratio = fdiv (f64_of_int (uint errorC)) (f64_of_int (uint totalC))
          in Counted (\<not> failed) (SnapFloat (Fin 1))
               (if ratio_minRequestAmount b \<le> totalC \<and>
                   (flt (errorRationThreshold b) ratio \<or> Float64Equals ratio (errorRationThreshold b))
                then Some (SnapFloat ratio) else None)
      | _ \<Rightarrow> Skipped)"

definition count_verdict :: "u64 \<Rightarrow> u64 \<Rightarrow> u64 \<Rightarrow> bool \<Rightarrow> count_breaker \<Rightarrow> verdict" where
  "count_verdict t1 t2 rt failed b =
     (case err_currentCounter t1 (count_stat b) of
        (Ret i, stat) \<Rightarrow>
          let counters = err_allCounter t2 (upd_val i (err_add failed) stat);
              errorC = (\<Sum>c \<leftarrow> counters. errorCount c); totalC = (\<Sum>c \<leftarrow> counters. err_totalCount c)
          in Counted (\<not> failed) (SnapInt 1)
               (if count_minRequestAmount b \<le> totalC \<and> errorCountThreshold b \<le> errorC
                then Some (SnapCount errorC) else None)
      | _ \<Rightarrow> Skipped)"

fun cb_verdict :: "u64 \<Rightarrow> u64 \<Rightarrow> u64 \<Rightarrow> bool \<Rightarrow> circuit_breaker \<Rightarrow> verdict" where
  "cb_verdict t1 t2 rt failed (SlowCB b) = slow_verdict t1 t2 rt failed b"
| "cb_verdict t1 t2 rt failed (RatioCB b) = ratio_verdict t1 t2 rt failed b"
| "cb_verdict t1 t2 rt failed (CountCB b) = count_verdict t1 t2 rt failed b"

lemma foldl_plus: "foldl (\<lambda>n c. n + f c) (x :: u64) cs = x + (\<Sum>c \<leftarrow> cs. f c)"
  by (induction cs arbitrary: x) (simp_all add: add.assoc)

lemma slow_complete_base:
  assumes "slow_OnRequestComplete t1 t2 t3 rt b = (b', ns)"
  shows "complete_step t3 (slow_verdict t1 t2 rt failed b) (breaker_base.truncate b) = (breaker_base.truncate b', ns)"
proof -
  obtain r stat where r: "slow_currentCounter t1 (slow_stat b) = (r, stat)" by fastforce
  show ?thesis
  proof (cases r)
    case (Ret i)
    show ?thesis
      using assms
      by (cases "cb_state_of b")
        (auto simp: slow_OnRequestComplete_def slow_verdict_def r Ret Let_def foldl_plus transition_defs
          slow_resetMetric_def not_less not_le truncate_simps split: if_splits)
  qed (use assms in \<open>auto simp: slow_OnRequestComplete_def slow_verdict_def r truncate_simps\<close>)
qed

lemma ratio_complete_base:
  assumes "ratio_OnRequestComplete t1 t2 t3 failed b = (b', ns)"
  shows "complete_step t3 (ratio_verdict t1 t2 rt failed b) (breaker_base.truncate b) = (breaker_base.truncate b', ns)"
proof -
  obtain r stat where r: "err_currentCounter t1 (ratio_stat b) = (r, stat)" by fastforce
  show ?thesis
  proof (cases r)
    case (Ret i)
    show ?thesis
      using assms
      by (cases "cb_state_of b")
        (auto simp: ratio_OnRequestComplete_def ratio_verdict_def r Ret Let_def foldl_plus transition_defs
          ratio_resetMetric_def not_less not_le truncate_simps split: if_splits)
  qed (use assms in \<open>auto simp: ratio_OnRequestComplete_def ratio_verdict_def r truncate_simps\<close>)
qed

lemma count_complete_base:
  assumes "count_OnRequestComplete t1 t2 t3 failed b = (b', ns)"
  shows "complete_step t3 (count_verdict t1 t2 rt failed b) (breaker_base.truncate b) = (breaker_base.truncate b', ns)"
proof -
  obtain r stat where r: "err_currentCounter t1 (count_stat b) = (r, stat)" by fastforce
  show ?thesis
  proof (cases r)
    case (Ret i)
    show ?thesis
      using assms
      by (cases "cb_state_of b")
        (auto simp: count_OnRequestComplete_def count_verdict_def r Ret Let_def foldl_plus transition_defs
          count_resetMetric_def not_less not_le truncate_simps split: if_splits)
  qed (use assms in \<open>auto simp: count_OnRequestComplete_def count_verdict_def r truncate_simps\<close>)
qed

interpretation slow_machine: breaker_machine breaker_base.truncate slow_TryPass
  "\<lambda>t1 t2 t3 rt failed. slow_OnRequestComplete t1 t2 t3 rt" probe_exit_hook slow_verdict
  by unfold_locales (simp_all add: slow_TryPass_def truncate_try_pass slow_complete_base truncate_probe_exit)

interpretation ratio_machine: breaker_machine breaker_base.truncate ratio_TryPass
  "\<lambda>t1 t2 t3 rt failed. ratio_OnRequestComplete t1 t2 t3 failed" probe_exit_hook ratio_verdict
  by unfold_locales (simp_all add: ratio_TryPass_def truncate_try_pass ratio_complete_base truncate_probe_exit)

interpretation count_machine: breaker_machine breaker_base.truncate count_TryPass
  "\<lambda>t1 t2 t3 rt failed. count_OnRequestComplete t1 t2 t3 failed" probe_exit_hook count_verdict
  by unfold_locales (simp_all add: count_TryPass_def truncate_try_pass count_complete_base truncate_probe_exit)

interpretation cb_machine: breaker_machine base_view TryPass OnRequestComplete ProbeExit cb_verdict
proof unfold_locales
  show "try_pass now he (base_view b) = (ok, base_view b', ns, h)"
    if "TryPass now he b = (ok, b', ns, h)" for now he b ok b' ns h
    using that
    by (cases b) (auto simp: Let_def split: prod.splits
      dest: slow_machine.tp_base ratio_machine.tp_base count_machine.tp_base)
  show "complete_step t3 (cb_verdict t1 t2 rt failed b) (base_view b) = (base_view b', ns)"
    if "OnRequestComplete t1 t2 t3 rt failed b = (b', ns)" for t1 t2 t3 rt failed b b' ns
    using that
    by (cases b) (auto simp: Let_def split: prod.splits
      intro: slow_machine.oc_base ratio_machine.oc_base count_machine.oc_base)
  show "probe_exit_hook blocked (base_view b) = (base_view b', ns)"
    if "ProbeExit blocked b = (b', ns)" for blocked b b' ns
    using that by (cases b) (auto simp: Let_def truncate_probe_exit split: prod.splits)
qed

lemma base_view_state [simp]: "cb_state_of (base_view b) = CurrentState b"
  by (cases b) simp_all

text \<open>
  C6: The listeners of a circuit breaker are told of every change of its state and of nothing else.
  After any sequence of admission checks, completed requests and probe exits, on a breaker of any
  strategy, the notes sent form a path from the state before to the state after, each note one edge
  of the state diagram: closed to open, open to half-open, half-open to open or to closed.
\<close>

theorem breaker_notes_path:
  "cb_run ops b = (b', oks, ns) \<Longrightarrow> path (CurrentState b) ns (CurrentState b')"
  using cb_machine.notes_trace_states [of ops b b' oks ns] by (simp add: cb_run_def)

text \<open>
  C5: An open breaker protects the resource for the whole retry timeout: whatever requests arrive or
  complete before the retry time stored when it opened, every admission check is refused, the
  breaker stays open with that retry time, and no listener is called.
\<close>

theorem breaker_open_rejects:
  assumes "CurrentState b = Open" and "\<forall>op \<in> set ops. before (nextRetryTimestampMs (base_view b)) op"
    and "cb_run ops b = (b', oks, ns)"
  shows "CurrentState b' = Open \<and> nextRetryTimestampMs (base_view b') = nextRetryTimestampMs (base_view b)
    \<and> ns = [] \<and> (\<forall>ok \<in> set oks. \<not> ok)"
  using cb_machine.open_rejects [of b ops b' oks ns] assms base_view_state [of b'] by (auto simp: cb_run_def)

section \<open>Well-formed windows\<close>

interpretation slow_window: bucket_generator slow_gen "\<lambda>_. True"
  by unfold_locales (simp_all add: slow_gen_def)

interpretation err_window: bucket_generator err_gen "\<lambda>_. True"
  by unfold_locales (simp_all add: err_gen_def)

text \<open>The clock readings for which the window is defined: after 1970, and before the sign bit of \<open>int\<close>.\<close>

definition valid_time :: "u64 \<Rightarrow> bool" where
  "valid_time t \<longleftrightarrow> t \<noteq> 0 \<and> unat t < 2 ^ 63"

context bucket_generator
begin

lemma current_counter_inv:
  assumes inv: "la_inv wfb la" and t: "valid_time now"
  shows "\<exists>i la'. current_counter bg now la = (Ret i, la') \<and> la_inv wfb la' \<and> i < slots la'"
proof -
  let ?i = "period la now mod slots la"
  have now: "now \<noteq> 0" "unat now < 2 ^ 63" using t by (simp_all add: valid_time_def)
  have sh: "la_shape la" using inv by (rule la_inv_shape)
  have lt: "?i < slots la" using sh by (rule period_index_less)
  let ?w = "\<lparr>BucketStart = calculateStartTime now (la_bucketLengthInMs la), Value = Some (NewEmptyBucket bg)\<rparr>"
  let ?la = "if per la ?i = period la now then la else set_slot ?i ?w la"
  have new: "la_inv wfb (set_slot ?i ?w la)"
    by (rule la_inv_set_slot [OF inv lt, where v = "NewEmptyBucket bg" and q = "period la now"])
      (use new_wf in \<open>simp_all add: unat_calculateStartTime\<close>)
  have call: "currentBucketOfTime bg now la = (Ret ?i, ?la)"
    by (rule currentBucket [OF inv now refl])
  have inv': "la_inv wfb ?la" using inv new by simp
  have lt': "?i < slots ?la" using lt by simp
  have "Value (entry ?la ?i) = Some (bval ?la ?i)"
    by (rule slot_okD(2) [OF la_inv_slot [OF inv' lt']])
  then show ?thesis
    using inv' lt' by (simp only: current_counter_def call prod.case go.case option.case) blast
qed

lemma upd_valid_inv:
  assumes "la_inv wfb la" and "\<forall>v. wfb v \<longrightarrow> wfb (f v)"
  shows "la_inv wfb (upd_vals (valuesWithTime_idx la now) f la)"
  using upd_vals_views [of "valuesWithTime_idx la now" la wfb f] assms
  by (simp add: valuesWithTime_idx_def slots_def)

end

fun cb_wf :: "circuit_breaker \<Rightarrow> bool" where
  "cb_wf (SlowCB b) = la_inv (\<lambda>_. True) (slow_stat b)"
| "cb_wf (RatioCB b) = la_inv (\<lambda>_. True) (ratio_stat b)"
| "cb_wf (CountCB b) = la_inv (\<lambda>_. True) (count_stat b)"

text \<open>What a strategy takes for a good request.\<close>

fun good_request :: "circuit_breaker \<Rightarrow> u64 \<Rightarrow> bool \<Rightarrow> bool" where
  "good_request (SlowCB b) rt failed = (rt \<le> maxAllowedRt b)"
| "good_request (RatioCB b) rt failed = (\<not> failed)"
| "good_request (CountCB b) rt failed = (\<not> failed)"

section \<open>Probing\<close>

fun probe_op :: "(u64 \<Rightarrow> bool \<Rightarrow> bool) \<Rightarrow> cb_op \<Rightarrow> bool" where
  "probe_op g (DoTryPass _ _) = True"
| "probe_op g (DoComplete t1 _ _ rt failed) = (valid_time t1 \<and> g rt failed)"
| "probe_op g (DoProbeExit blocked) = (\<not> blocked)"

fun completed :: "cb_op list \<Rightarrow> nat" where
  "completed [] = 0"
| "completed (DoComplete _ _ _ _ _ # ops) = Suc (completed ops)"
| "completed (_ # ops) = completed ops"

text \<open>A breaker whose window works, so that every completed request is counted.\<close>

locale probing_machine = breaker_machine base tp oc ex vd
  for base :: "'b \<Rightarrow> breaker_base" and tp oc ex vd +
  fixes wf :: "'b \<Rightarrow> bool" and good :: "'b \<Rightarrow> u64 \<Rightarrow> bool \<Rightarrow> bool"
  assumes verdict_good: "wf b \<Longrightarrow> valid_time t1 \<Longrightarrow>
      \<exists>s trip. vd t1 t2 rt failed b = Counted (good b rt failed) s trip"
    and tp_wf: "tp now he b = (ok, b', ns, h) \<Longrightarrow> wf b \<Longrightarrow> wf b' \<and> good b' = good b"
    and oc_wf: "oc t1 t2 t3 rt failed b = (b', ns) \<Longrightarrow> wf b \<Longrightarrow> valid_time t1 \<Longrightarrow> wf b' \<and> good b' = good b"
    and ex_wf: "ex blocked b = (b', ns) \<Longrightarrow> wf b \<Longrightarrow> wf b' \<and> good b' = good b"
begin

text \<open>One completed request in the half-open state.\<close>

lemma probe_complete:
  assumes "wf b" and "valid_time t1" and "cb_state_of (base b) = HalfOpen"
    and "unat (curProbeNumber (base b)) < max 1 (unat (probeNumber (base b)))"
    and c: "oc t1 t2 t3 rt failed b = (b', ns)"
  shows "if \<not> good b rt failed
      then cb_state_of (base b') = Open \<and> curProbeNumber (base b') = 0 \<and>
           nextRetryTimestampMs (base b') = t3 + ucast (retryTimeoutMs (base b))
      else if Suc (unat (curProbeNumber (base b))) < max 1 (unat (probeNumber (base b)))
      then cb_state_of (base b') = HalfOpen \<and> ns = [] \<and> probeNumber (base b') = probeNumber (base b) \<and>
           retryTimeoutMs (base b') = retryTimeoutMs (base b) \<and>
           unat (curProbeNumber (base b')) = Suc (unat (curProbeNumber (base b)))
      else cb_state_of (base b') = Closed \<and> curProbeNumber (base b') = 0"
proof -
  obtain s trip where v: "vd t1 t2 rt failed b = Counted (good b rt failed) s trip"
    using verdict_good assms(1,2) by blast
  let ?n = "probeNumber (base b)" and ?k = "curProbeNumber (base b)"
  have step: "complete_step t3 (Counted (good b rt failed) s trip) (base b) = (base b', ns)"
    using oc_base [OF c] v by simp
  then have e: "base b' = fst (complete_step t3 (Counted (good b rt failed) s trip) (base b))"
    "ns = snd (complete_step t3 (Counted (good b rt failed) s trip) (base b))" by simp_all
  show ?thesis
  proof (cases "good b rt failed")
    case False
    with assms(3) show ?thesis by (simp add: e transition_defs)
  next
    case True
    have k: "unat (?k + 1) = Suc (unat ?k)"
    proof -
      have "unat ?k < unat ?n \<or> unat ?k = 0" using assms(4) by (auto simp: max_def split: if_splits)
      moreover have "unat ?n < 2 ^ 64" using unsigned_less [of ?n] by simp
      ultimately have "unat ?k + unat (1 :: u64) < 2 ^ 64" by auto
      then show ?thesis by (subst unat_add_no_wrap) simp_all
    qed
    have "?n = 0 \<or> ?n \<le> ?k + 1 \<longleftrightarrow> \<not> Suc (unat ?k) < max 1 (unat ?n)"
      using k by (auto simp: word_le_nat_alt unat_eq_0 max_def)
    with assms(3) True k show ?thesis
      by (simp add: e transition_defs Let_def max_def)
  qed
qed

lemma probe_run:
  assumes "wf b" and "cb_state_of (base b) = HalfOpen" and "\<forall>op \<in> set ops. probe_op (good b) op"
    and "unat (curProbeNumber (base b)) + completed ops < max 1 (unat (probeNumber (base b)))"
    and "runs ops b = (b', oks, ns)"
  shows "wf b' \<and> good b' = good b \<and> cb_state_of (base b') = HalfOpen \<and> ns = [] \<and>
    probeNumber (base b') = probeNumber (base b) \<and> retryTimeoutMs (base b') = retryTimeoutMs (base b) \<and>
    unat (curProbeNumber (base b')) = unat (curProbeNumber (base b)) + completed ops \<and>
    (\<forall>ok \<in> set oks. ok = (0 < probeNumber (base b)))"
  using assms
proof (induction ops arbitrary: b b' oks ns)
  case Nil
  then show ?case by simp
next
  case (Cons op ops)
  show ?case
  proof (cases op)
    case (DoTryPass now he)
    obtain ok c ms h where c: "tp now he b = (ok, c, ms, h)" by (metis prod_cases4)
    have eq: "ok = (0 < probeNumber (base b))" "base c = base b" "ms = []"
      using tp_base [OF c] Cons.prems(2) by (auto simp: try_pass_def Let_def split: if_splits)
    obtain d os ls where d: "runs ops c = (d, os, ls)" by (metis prod_cases3)
    show ?thesis using Cons.IH [OF _ _ _ _ d] Cons.prems eq tp_wf [OF c] by (auto simp: DoTryPass c d)
  next
    case (DoComplete t1 t2 t3 rt failed)
    obtain c ms where c: "oc t1 t2 t3 rt failed b = (c, ms)" by fastforce
    have t: "valid_time t1" "good b rt failed" using Cons.prems(3) by (simp_all add: DoComplete)
    have eq: "cb_state_of (base c) = HalfOpen \<and> ms = [] \<and> probeNumber (base c) = probeNumber (base b) \<and>
        retryTimeoutMs (base c) = retryTimeoutMs (base b) \<and>
        unat (curProbeNumber (base c)) = Suc (unat (curProbeNumber (base b)))"
      using probe_complete [OF Cons.prems(1) t(1) Cons.prems(2) _ c] Cons.prems(4) t(2)
      by (auto simp: DoComplete split: if_splits)
    obtain d os ls where d: "runs ops c = (d, os, ls)" by (metis prod_cases3)
    have w: "wf c" "good c = good b" using oc_wf [OF c Cons.prems(1) t(1)] by simp_all
    have ops: "\<forall>op \<in> set ops. probe_op (good c) op" using Cons.prems(3) w(2) by simp
    have st: "cb_state_of (base c) = HalfOpen"
      and k: "unat (curProbeNumber (base c)) + completed ops < max 1 (unat (probeNumber (base c)))"
      using eq Cons.prems(4) by (simp_all add: DoComplete)
    show ?thesis using Cons.IH [OF w(1) st ops k d] Cons.prems(5) eq w(2) by (simp add: DoComplete c d)
  next
    case (DoProbeExit blocked)
    obtain c ms where c: "ex blocked b = (c, ms)" by fastforce
    have nb: "\<not> blocked" using Cons.prems(3) by (simp add: DoProbeExit)
    have eq: "base c = base b" "ms = []"
      using ex_base [OF c] nb by (simp_all add: probe_exit_hook_def)
    obtain d os ls where d: "runs ops c = (d, os, ls)" by (metis prod_cases3)
    have w: "wf c" "good c = good b" using ex_wf [OF c Cons.prems(1)] by simp_all
    have ops: "\<forall>op \<in> set ops. probe_op (good c) op" using Cons.prems(3) w(2) by simp
    have st: "cb_state_of (base c) = HalfOpen"
      and k: "unat (curProbeNumber (base c)) + completed ops < max 1 (unat (probeNumber (base c)))"
      using eq Cons.prems(2,4) by (simp_all add: DoProbeExit)
    show ?thesis using Cons.IH [OF w(1) st ops k d] Cons.prems(5) eq w(2) by (simp add: DoProbeExit c d)
  qed
qed

end

lemma slow_wf:
  assumes "la_inv (\<lambda>_. True) (slow_stat b)" and "valid_time t1"
  shows "\<exists>s trip. slow_verdict t1 t2 rt failed b = Counted (rt \<le> maxAllowedRt b) s trip"
    and "la_inv (\<lambda>_. True) (slow_stat (fst (slow_OnRequestComplete t1 t2 t3 rt b))) \<and>
      maxAllowedRt (fst (slow_OnRequestComplete t1 t2 t3 rt b)) = maxAllowedRt b"
proof -
  obtain i la' where c: "slow_currentCounter t1 (slow_stat b) = (Ret i, la')"
    "la_inv (\<lambda>_. True) la'" "i < slots la'"
    using slow_window.current_counter_inv [OF assms] by (auto simp: slow_currentCounter_def)
  then show "\<exists>s trip. slow_verdict t1 t2 rt failed b = Counted (rt \<le> maxAllowedRt b) s trip"
    by (simp add: slow_verdict_def Let_def)
  have u: "la_inv (\<lambda>_. True) (upd_val i f la')" for f using c(2,3) by (simp add: upd_val_inv)
  have v: "la_inv (\<lambda>_. True) (upd_vals (valuesWithTime_idx (upd_val i f la') t) g (upd_val i f la'))" for f g t
    by (rule slow_window.upd_valid_inv [OF u]) simp
  show "la_inv (\<lambda>_. True) (slow_stat (fst (slow_OnRequestComplete t1 t2 t3 rt b))) \<and>
      maxAllowedRt (fst (slow_OnRequestComplete t1 t2 t3 rt b)) = maxAllowedRt b"
    using u v by (cases "cb_state_of b")
      (auto simp: slow_OnRequestComplete_def c(1) Let_def slow_resetMetric_def transition_defs)
qed

lemma ratio_wf:
  assumes "la_inv (\<lambda>_. True) (ratio_stat b)" and "valid_time t1"
  shows "\<exists>s trip. ratio_verdict t1 t2 rt failed b = Counted (\<not> failed) s trip"
    and "la_inv (\<lambda>_. True) (ratio_stat (fst (ratio_OnRequestComplete t1 t2 t3 failed b)))"
proof -
  obtain i la' where c: "err_currentCounter t1 (ratio_stat b) = (Ret i, la')"
    "la_inv (\<lambda>_. True) la'" "i < slots la'"
    using err_window.current_counter_inv [OF assms] by (auto simp: err_currentCounter_def)
  then show "\<exists>s trip. ratio_verdict t1 t2 rt failed b = Counted (\<not> failed) s trip"
    by (simp add: ratio_verdict_def Let_def)
  have u: "la_inv (\<lambda>_. True) (upd_val i f la')" for f using c(2,3) by (simp add: upd_val_inv)
  have v: "la_inv (\<lambda>_. True) (upd_vals (valuesWithTime_idx (upd_val i f la') t) g (upd_val i f la'))" for f g t
    by (rule err_window.upd_valid_inv [OF u]) simp
  show "la_inv (\<lambda>_. True) (ratio_stat (fst (ratio_OnRequestComplete t1 t2 t3 failed b)))"
    using u v by (cases "cb_state_of b")
      (auto simp: ratio_OnRequestComplete_def c(1) Let_def ratio_resetMetric_def transition_defs)
qed

lemma count_wf:
  assumes "la_inv (\<lambda>_. True) (count_stat b)" and "valid_time t1"
  shows "\<exists>s trip. count_verdict t1 t2 rt failed b = Counted (\<not> failed) s trip"
    and "la_inv (\<lambda>_. True) (count_stat (fst (count_OnRequestComplete t1 t2 t3 failed b)))"
proof -
  obtain i la' where c: "err_currentCounter t1 (count_stat b) = (Ret i, la')"
    "la_inv (\<lambda>_. True) la'" "i < slots la'"
    using err_window.current_counter_inv [OF assms] by (auto simp: err_currentCounter_def)
  then show "\<exists>s trip. count_verdict t1 t2 rt failed b = Counted (\<not> failed) s trip"
    by (simp add: count_verdict_def Let_def)
  have u: "la_inv (\<lambda>_. True) (upd_val i f la')" for f using c(2,3) by (simp add: upd_val_inv)
  have v: "la_inv (\<lambda>_. True) (upd_vals (valuesWithTime_idx (upd_val i f la') t) g (upd_val i f la'))" for f g t
    by (rule err_window.upd_valid_inv [OF u]) simp
  show "la_inv (\<lambda>_. True) (count_stat (fst (count_OnRequestComplete t1 t2 t3 failed b)))"
    using u v by (cases "cb_state_of b")
      (auto simp: count_OnRequestComplete_def c(1) Let_def count_resetMetric_def transition_defs)
qed

lemma try_pass_frame: "try_pass now he b = (ok, b', ns, h) \<Longrightarrow> \<exists>s. b' = b\<lparr>cb_state_of := s\<rparr>"
  by (cases "cb_state_of b")
    (auto simp: transition_defs Let_def split: if_splits intro: exI [of _ "cb_state_of b"])

lemma probe_exit_frame: "probe_exit_hook blocked b = (b', ns) \<Longrightarrow> \<exists>s. b' = b\<lparr>cb_state_of := s\<rparr>"
  by (cases "cb_state_of b")
    (auto simp: transition_defs split: if_splits intro: exI [of _ "cb_state_of b"])

interpretation cb_probing: probing_machine base_view TryPass OnRequestComplete ProbeExit cb_verdict cb_wf good_request
proof unfold_locales
  show "\<exists>s trip. cb_verdict t1 t2 rt failed b = Counted (good_request b rt failed) s trip"
    if "cb_wf b" "valid_time t1" for b t1 t2 rt failed
    using that by (cases b) (simp_all add: slow_wf(1) ratio_wf(1) count_wf(1))
  show "cb_wf b' \<and> good_request b' = good_request b"
    if "TryPass now he b = (ok, b', ns, h)" "cb_wf b" for now he b ok b' ns h
    using that
    by (cases b) (auto simp: Let_def slow_TryPass_def ratio_TryPass_def count_TryPass_def fun_eq_iff
      dest!: try_pass_frame split: prod.splits)
  show "cb_wf b' \<and> good_request b' = good_request b"
    if "OnRequestComplete t1 t2 t3 rt failed b = (b', ns)" "cb_wf b" "valid_time t1" for t1 t2 t3 rt failed b b' ns
  proof (cases b)
    case (SlowCB c)
    then show ?thesis
      using that slow_wf(2) [of c t1 t2 t3 rt] by (auto simp: Let_def fun_eq_iff split: prod.splits)
  next
    case (RatioCB c)
    then show ?thesis
      using that ratio_wf(2) [of c t1 t2 t3 failed] by (auto simp: Let_def fun_eq_iff split: prod.splits)
  next
    case (CountCB c)
    then show ?thesis
      using that count_wf(2) [of c t1 t2 t3 failed] by (auto simp: Let_def fun_eq_iff split: prod.splits)
  qed
  show "cb_wf b' \<and> good_request b' = good_request b"
    if "ProbeExit blocked b = (b', ns)" "cb_wf b" for blocked b b' ns
    using that
    by (cases b) (auto simp: Let_def fun_eq_iff dest!: probe_exit_frame split: prod.splits)
qed

text \<open>
  C3: As long as no probe is blocked by another slot (a blocked one opens the breaker again and keeps
  the count), a half-open breaker closes at the good request that brings its count of probes to the
  number its rule asks for. The count starts at what the breaker already holds. While it stays
  below that number (or below one, if the number is unset) and all requests were good, the breaker
  stays half-open without a notification and counts every one of them; admission checks are answered
  yes exactly when the rule sets a number of probes. The request that completes the number closes it
  and a bad one opens it for another retry timeout, both with the count back at zero.
\<close>

theorem breaker_probing:
  assumes "cb_wf b" and "CurrentState b = HalfOpen"
    and "\<forall>op \<in> set ops. probe_op (good_request b) op"
    and "unat (curProbeNumber (base_view b)) + completed ops < max 1 (unat (probeNumber (base_view b)))"
    and "cb_run ops b = (b1, oks, ns)" and "valid_time t1"
    and "OnRequestComplete t1 t2 t3 rt failed b1 = (b2, ms)"
  shows "CurrentState b1 = HalfOpen \<and> ns = [] \<and> (\<forall>ok \<in> set oks. ok = (0 < probeNumber (base_view b))) \<and>
    unat (curProbeNumber (base_view b1)) = unat (curProbeNumber (base_view b)) + completed ops \<and>
    (if \<not> good_request b rt failed
     then CurrentState b2 = Open \<and> curProbeNumber (base_view b2) = 0 \<and>
       nextRetryTimestampMs (base_view b2) = t3 + ucast (retryTimeoutMs (base_view b))
     else if Suc (unat (curProbeNumber (base_view b)) + completed ops) < max 1 (unat (probeNumber (base_view b)))
     then CurrentState b2 = HalfOpen
     else CurrentState b2 = Closed \<and> curProbeNumber (base_view b2) = 0)"
proof -
  have r: "run_ops TryPass OnRequestComplete ProbeExit ops b = (b1, oks, ns)"
    using assms(5) by (simp add: cb_run_def)
  have 1: "cb_wf b1 \<and> good_request b1 = good_request b \<and> CurrentState b1 = HalfOpen \<and> ns = [] \<and>
    probeNumber (base_view b1) = probeNumber (base_view b) \<and>
    retryTimeoutMs (base_view b1) = retryTimeoutMs (base_view b) \<and>
    unat (curProbeNumber (base_view b1)) = unat (curProbeNumber (base_view b)) + completed ops \<and>
    (\<forall>ok \<in> set oks. ok = (0 < probeNumber (base_view b)))"
    using cb_probing.probe_run [of b ops b1 oks ns, OF assms(1) _ assms(3) assms(4) r] assms(2) by simp
  then show ?thesis
    using cb_probing.probe_complete [of b1 t1 t2 t3 rt failed b2 ms, OF _ assms(6) _ _ assms(7)] assms(4)
    by (simp split: if_splits)
qed

section \<open>Concrete runs\<close>

definition demo_rule :: cb_rule where
  "demo_rule = \<lparr>cr_Id = ''1'', cr_App = [], cr_RuleName = [], cr_LimitApp = ''default'', cr_Resource = ''abc'',
     cr_Strategy = ErrorCount, cr_RetryTimeoutMs = 3000, cr_MinRequestAmount = 1, cr_StatIntervalMs = 1000,
     cr_BucketCount = 1, cr_MaxAllowedRtMs = 50, cr_Threshold = Fin 2, cr_ProbeNum = 2\<rparr>"

definition demo_stat :: "error_counter leap_array" where
  "demo_stat = \<lparr>la_bucketLengthInMs = 1000, la_sampleCount = 1, la_intervalInMs = 1000,
     la_array = [Some \<lparr>BucketStart = 0, Value = Some \<lparr>errorCount = 0, err_totalCount = 0\<rparr>\<rparr>]\<rparr>"

definition demo_breaker :: "cb_state \<Rightarrow> circuit_breaker" where
  "demo_breaker s = CountCB ((newErrorCountCircuitBreakerWithStat (\<lambda>_. 0) demo_rule demo_stat)
     \<lparr>cb_state_of := s, nextRetryTimestampMs := 5000\<rparr>)"

lemmas demo_defs = demo_breaker_def demo_rule_def demo_stat_def newErrorCountCircuitBreakerWithStat_def

lemma demo_wf: "cb_wf (demo_breaker s)"
  by (simp add: demo_defs la_inv_def la_shape_def slots_def slot_ok_def period_def)

lemma demo_views [simp]:
  "CurrentState (demo_breaker s) = s" "nextRetryTimestampMs (base_view (demo_breaker s)) = 5000"
  "curProbeNumber (base_view (demo_breaker s)) = 0" "probeNumber (base_view (demo_breaker s)) = 2"
  "good_request (demo_breaker s) rt failed = (\<not> failed)"
  by (simp_all add: demo_defs)

definition demo_ops :: "cb_op list" where
  "demo_ops = [DoTryPass 4000 True, DoComplete 4100 4100 4100 20 True, DoTryPass 4999 True]"

theorem breaker_notes_path_witness:
  "case cb_run demo_ops (demo_breaker Closed) of
     (b', oks, ns) \<Rightarrow> path Closed ns (CurrentState b')"
proof -
  obtain b' oks ns where r: "cb_run demo_ops (demo_breaker Closed) = (b', oks, ns)" by (metis prod_cases3)
  show ?thesis using breaker_notes_path [OF r] by (simp add: r)
qed

theorem breaker_open_rejects_witness:
  "case cb_run demo_ops (demo_breaker Open) of
     (b', oks, ns) \<Rightarrow> CurrentState b' = Open \<and> ns = [] \<and> (\<forall>ok \<in> set oks. \<not> ok)"
proof -
  obtain b' oks ns where r: "cb_run demo_ops (demo_breaker Open) = (b', oks, ns)" by (metis prod_cases3)
  have "\<forall>op \<in> set demo_ops. before 5000 op" by (simp add: demo_ops_def)
  then show ?thesis using breaker_open_rejects [OF _ _ r] by (auto simp: r)
qed

text \<open>
  Two probes are asked for: the first good request leaves a fresh half-open breaker half-open, the
  second closes it.
\<close>

theorem breaker_probing_witness:
  "case cb_run [DoTryPass 6000 True, DoComplete 6100 6100 6100 20 False] (demo_breaker HalfOpen) of
     (b1, oks, ns) \<Rightarrow> CurrentState b1 = HalfOpen \<and>
       CurrentState (fst (OnRequestComplete 6200 6200 6200 20 False b1)) = Closed"
proof -
  let ?b = "demo_breaker HalfOpen" and ?ops = "[DoTryPass 6000 True, DoComplete 6100 6100 6100 20 False]"
  obtain b1 oks ns where r: "cb_run ?ops ?b = (b1, oks, ns)" by (metis prod_cases3)
  obtain b2 ms where o: "OnRequestComplete 6200 6200 6200 20 False b1 = (b2, ms)" by fastforce
  have h: "CurrentState ?b = HalfOpen" "\<forall>op \<in> set ?ops. probe_op (good_request ?b) op"
    "unat (curProbeNumber (base_view ?b)) + completed ?ops < max 1 (unat (probeNumber (base_view ?b)))"
    "valid_time 6200"
    by (simp_all add: valid_time_def)
  show ?thesis
    using breaker_probing [OF demo_wf h(1-3) r h(4) o] by (simp add: r o)
qed

end
