(* ===== verification/BreakerRace.thy ===== *)
theory BreakerRace
  imports BreakerMachine
begin

text \<open>
  Several goroutines in \<open>TryPass\<close> at once. The call is cut where the code accesses shared memory: the
  load of the state, the comparison of the clock with the stored retry time, and the compare-and-swap
  from open to half-open. Between any two of these steps the other goroutines may run, and a probe
  that completed with a failure may reopen the breaker.
\<close>

section \<open>Steps\<close>

text \<open>Where a goroutine stands: before the load, after it with the state read, before the swap, done.\<close>

datatype tp_pc = Start | Loaded cb_state | BeforeCas | Done bool

text \<open>\<open>reopened\<close> counts how often a failed probe has put the breaker back to open.\<close>

record race =
  shared :: breaker_base
  pcs :: "tp_pc list"
  reopened :: nat

definition load_state :: "breaker_base \<Rightarrow> tp_pc" where
  "load_state b = (if cb_state_of b = Closed then Done True else Loaded (cb_state_of b))"

definition check_loaded :: "u64 \<Rightarrow> cb_state \<Rightarrow> breaker_base \<Rightarrow> tp_pc" where
  "check_loaded now s b =
     (if s = Open then (if retryTimeoutArrived now b then BeforeCas else Done False)
      else Done (s = HalfOpen \<and> 0 < probeNumber b))"

definition cas_half_open :: "breaker_base \<Rightarrow> tp_pc \<times> breaker_base" where
  "cas_half_open b = (let (ok, b, _, _) = fromOpenToHalfOpen True b in (Done ok, b))"

inductive race_step :: "race \<Rightarrow> race \<Rightarrow> bool" where
  load: "i < length (pcs c) \<Longrightarrow> pcs c ! i = Start \<Longrightarrow>
    race_step c (c\<lparr>pcs := (pcs c)[i := load_state (shared c)]\<rparr>)"
| check: "i < length (pcs c) \<Longrightarrow> pcs c ! i = Loaded s \<Longrightarrow>
    race_step c (c\<lparr>pcs := (pcs c)[i := check_loaded now s (shared c)]\<rparr>)"
| cas: "i < length (pcs c) \<Longrightarrow> pcs c ! i = BeforeCas \<Longrightarrow> cas_half_open (shared c) = (pc, b) \<Longrightarrow>
    race_step c (c\<lparr>pcs := (pcs c)[i := pc], shared := b\<rparr>)"
| reopen: "fromHalfOpenToOpen now s (shared c) = (True, b, ns) \<Longrightarrow>
    race_step c (c\<lparr>shared := b, reopened := Suc (reopened c)\<rparr>)"

inductive_cases race_stepE: "race_step c c'"

inductive reachable_race :: "race \<Rightarrow> race \<Rightarrow> bool" for c0 where
  init: "reachable_race c0 c0"
| step: "reachable_race c0 c \<Longrightarrow> race_step c c' \<Longrightarrow> reachable_race c0 c'"

definition race_start :: "breaker_base \<Rightarrow> nat \<Rightarrow> race" where
  "race_start b n = \<lparr>shared = b, pcs = replicate n Start, reopened = 0\<rparr>"

definition passed :: "race \<Rightarrow> nat" where
  "passed c = length (filter (\<lambda>pc. pc = Done True) (pcs c))"

text \<open>Alone, a goroutine that takes its steps one after the other computes \<open>TryPass\<close>.\<close>

lemma race_sequential:
  "try_pass now True b =
     (case load_state b of
        Loaded s \<Rightarrow>
          (case check_loaded now s b of
             BeforeCas \<Rightarrow> (case cas_half_open b of
                 (Done ok, b') \<Rightarrow> (ok, b', snd (snd (fromOpenToHalfOpen True b)))
               | (_, b') \<Rightarrow> (False, b', [], False))
           | Done ok \<Rightarrow> (ok, b, [], False)
           | _ \<Rightarrow> (False, b, [], False))
      | Done ok \<Rightarrow> (ok, b, [], False)
      | _ \<Rightarrow> (False, b, [], False))"
  by (cases "cb_state_of b")
    (simp_all add: load_state_def check_loaded_def cas_half_open_def transition_defs Let_def)

section \<open>At most one probe at a time\<close>

lemma filter_update:
  assumes "i < length xs"
  shows "length (filter P (xs[i := x])) + (if P (xs ! i) then 1 else 0) =
    length (filter P xs) + (if P x then 1 else 0)"
proof -
  have "filter P (xs[i := x]) = filter P (take i xs) @ (if P x then [x] else []) @ filter P (drop (Suc i) xs)"
    using assms by (simp add: upd_conv_take_nth_drop)
  moreover have "filter P xs = filter P (take i xs) @ (if P (xs ! i) then [xs ! i] else []) @ filter P (drop (Suc i) xs)"
    by (subst (1) id_take_nth_drop [OF assms]) simp
  ultimately show ?thesis by simp
qed

definition race_inv :: "race \<Rightarrow> bool" where
  "race_inv c \<longleftrightarrow> probeNumber (shared c) = 0 \<and> cb_state_of (shared c) \<noteq> Closed \<and>
     Loaded Closed \<notin> set (pcs c) \<and>
     passed c = reopened c + (if cb_state_of (shared c) = HalfOpen then 1 else 0)"

lemma passed_update:
  "i < length (pcs c) \<Longrightarrow> pcs c ! i \<noteq> Done True \<Longrightarrow>
   passed (c\<lparr>pcs := (pcs c)[i := pc]\<rparr>) = passed c + (if pc = Done True then 1 else 0)"
  using filter_update [of i "pcs c" "\<lambda>pc. pc = Done True" pc] by (simp add: passed_def)

lemma race_step_inv:
  assumes "race_step c c'" and inv: "race_inv c"
  shows "race_inv c'"
  using assms(1)
proof (cases rule: race_step.cases)
  case (load i)
  have "load_state (shared c) = Loaded (cb_state_of (shared c))" "cb_state_of (shared c) \<noteq> Closed"
    using inv by (simp_all add: race_inv_def load_state_def)
  with load inv passed_update [of i c] show ?thesis
    by (auto simp: race_inv_def dest!: subsetD [OF set_update_subset_insert])
next
  case (check i s now)
  have s: "s \<noteq> Closed" using nth_mem [OF check(2)] check(3) inv by (auto simp: race_inv_def)
  have pc: "check_loaded now s (shared c) \<noteq> Done True" "\<And>x. check_loaded now s (shared c) \<noteq> Loaded x"
    using inv s by (auto simp: check_loaded_def race_inv_def)
  with check inv passed_update [of i c] show ?thesis
    by (auto simp: race_inv_def dest!: subsetD [OF set_update_subset_insert]) (metis pc(2))+
next
  case (cas i pc b)
  have shape: "passed (c\<lparr>pcs := (pcs c)[i := pc], shared := b\<rparr>) = passed c + (if pc = Done True then 1 else 0)"
    using cas(2,3) passed_update [of i c pc] by (simp add: passed_def)
  from cas(4) have "if cb_state_of (shared c) = Open
      then pc = Done True \<and> b = (shared c)\<lparr>cb_state_of := HalfOpen\<rparr> else pc = Done False \<and> b = shared c"
    by (auto simp: cas_half_open_def transition_defs Let_def split: if_splits)
  with shape inv show ?thesis
    by (cases "cb_state_of (shared c)")
      (auto simp: race_inv_def cas(1) dest!: subsetD [OF set_update_subset_insert])
next
  case (reopen now s b ns)
  then have "cb_state_of (shared c) = HalfOpen \<and> cb_state_of b = Open \<and> probeNumber b = probeNumber (shared c)"
    by (auto simp: transition_defs split: if_splits)
  with inv show ?thesis by (simp add: race_inv_def reopen(1) passed_def)
qed

text \<open>
  C4: However many goroutines race to probe an open breaker whose rule sets no number of probes, each
  open period lets one of them through: at every moment of every interleaving the number of calls
  that were let through is the number of probes that failed so far, plus one while a probe is
  running. Before the first probe fails at most one request passes.
\<close>

theorem one_probe_per_open_period:
  assumes "cb_state_of b = Open" and "probeNumber b = 0" and "reachable_race (race_start b n) c"
  shows "passed c = reopened c + (if cb_state_of (shared c) = HalfOpen then 1 else 0)"
proof -
  have "race_inv (race_start b n)"
    using assms(1,2) by (simp add: race_inv_def race_start_def passed_def)
  with assms(3) have "race_inv c"
    by (induction rule: reachable_race.induct) (auto intro: race_step_inv)
  then show ?thesis by (simp add: race_inv_def)
qed

theorem one_probe_per_open_period_witness:
  "let b = (base_view (demo_breaker Open))\<lparr>probeNumber := 0\<rparr>;
       c = \<lparr>shared = b\<lparr>cb_state_of := HalfOpen\<rparr>, pcs = [Done True, BeforeCas], reopened = 0\<rparr>
   in reachable_race (race_start b 2) c \<and> passed c = 1"
proof -
  let ?b = "(base_view (demo_breaker Open))\<lparr>probeNumber := 0\<rparr>"
  let ?c = "\<lambda>b ps. \<lparr>shared = b, pcs = ps, reopened = 0\<rparr>"
  have b: "cb_state_of ?b = Open" "nextRetryTimestampMs ?b = 5000" by (simp_all add: demo_defs)
  have "reachable_race (race_start ?b 2) (?c ?b [Start, Start])"
    using reachable_race.init [of "race_start ?b 2"] by (simp add: race_start_def numeral_2_eq_2)
  moreover have "race_step (?c ?b [Start, Start]) (?c ?b [Loaded Open, Start])"
    using race_step.load [of 0 "?c ?b [Start, Start]"] b by (simp add: load_state_def)
  moreover have "race_step (?c ?b [Loaded Open, Start]) (?c ?b [Loaded Open, Loaded Open])"
    using race_step.load [of 1 "?c ?b [Loaded Open, Start]"] b by (simp add: load_state_def)
  moreover have "race_step (?c ?b [Loaded Open, Loaded Open]) (?c ?b [BeforeCas, Loaded Open])"
    using race_step.check [of 0 "?c ?b [Loaded Open, Loaded Open]" Open 6000] b
    by (simp add: check_loaded_def retryTimeoutArrived_def)
  moreover have "race_step (?c ?b [BeforeCas, Loaded Open]) (?c ?b [BeforeCas, BeforeCas])"
    using race_step.check [of 1 "?c ?b [BeforeCas, Loaded Open]" Open 6000] b
    by (simp add: check_loaded_def retryTimeoutArrived_def)
  moreover have "race_step (?c ?b [BeforeCas, BeforeCas]) (?c (?b\<lparr>cb_state_of := HalfOpen\<rparr>) [Done True, BeforeCas])"
    using race_step.cas [of 0 "?c ?b [BeforeCas, BeforeCas]" "Done True" "?b\<lparr>cb_state_of := HalfOpen\<rparr>"] b
    by (simp add: cas_half_open_def transition_defs)
  ultimately have r: "reachable_race (race_start ?b 2) (?c (?b\<lparr>cb_state_of := HalfOpen\<rparr>) [Done True, BeforeCas])"
    by (meson reachable_race.step)
  then show ?thesis
    using one_probe_per_open_period [OF b(1) _ r] by (simp add: Let_def)
qed

end
