(* ===== verification/BreakerWindow.thy ===== *)
theory BreakerWindow
  imports BreakerMachine
begin

text \<open>
  When a circuit breaker trips, in terms of the requests it has seen: a fresh breaker opens at the
  first completed request at which the requests of the window reach both the minimum amount and the
  threshold of its rule. The specification counts a log of requests; nothing in it mentions buckets.
\<close>

context bucket_generator
begin

text \<open>Counting a request: the window then totals the contents of the latest periods.\<close>

lemma count_request:
  assumes rel: "rel T A la" and t: "valid_time now" and T: "T \<le> period la now"
    and wf: "\<forall>v. wfb v \<longrightarrow> wfb (f v)"
  obtains i la' where "current_counter bg now la = (Ret i, la')"
    and "rel (period la now) (A(period la now := f (A (period la now)))) (upd_val i f la')"
    and "slots la' = slots la" and "period la' = period la"
    and "\<And>h :: 'b \<Rightarrow> u64. h (NewEmptyBucket bg) = 0 \<Longrightarrow>
      (\<Sum>c \<leftarrow> bucket_values (valuesWithTime (upd_val i f la') now). h c) =
      (\<Sum>p \<in> {period la now + 1 - slots la .. period la now}. h ((A(period la now := f (A (period la now)))) p))"
proof -
  have now: "now \<noteq> 0" "unat now < 2 ^ 63" using t by (simp_all add: valid_time_def)
  let ?i = "period la now mod slots la" and ?A = "A(period la now := f (A (period la now)))"
  obtain la' where la': "currentBucketOfTime bg now la = (Ret ?i, la')"
    "Value (entry la' ?i) = Some (bval la' ?i)" "rel (period la now) ?A (upd_val ?i f la')"
    "per (upd_val ?i f la') ?i = period la now" "slots la' = slots la" "period la' = period la"
    using touch [OF rel now T wf] by blast
  have "(\<Sum>c \<leftarrow> bucket_values (valuesWithTime (upd_val ?i f la') now). h c) =
      (\<Sum>p \<in> {period la now + 1 - slots la .. period la now}. h (?A p))"
    if "h (NewEmptyBucket bg) = 0" for h :: "'b \<Rightarrow> u64"
    using window_total [of "upd_val ?i f la'" now ?A h] la' now that by simp
  moreover have "current_counter bg now la = (Ret ?i, la')"
    by (simp add: current_counter_def la'(1,2))
  ultimately show thesis by (rule that [OF _ la'(3,5,6), rotated])
qed

lemma NewLeapArray_rel:
  assumes "NewLeapArray now n interval (Some bg) = Ret la" and "unat now < 2 ^ 63"
  shows "rel (period la now) (\<lambda>_. NewEmptyBucket bg) la \<and> slots la = unat n \<and>
    period la = (\<lambda>t. unat t div unat (interval div n))"
proof -
  have n: "n \<noteq> 0" "interval mod n = 0"
    and c: "go_bind (NewAtomicBucketWrapArrayWithTime n (interval div n) now bg)
      (\<lambda>aa. Ret \<lparr>la_bucketLengthInMs = interval div n, la_sampleCount = n,
                  la_intervalInMs = interval, la_array = aa\<rparr>) = Ret la"
    using assms(1) by (auto simp: NewLeapArray_def Let_def split: if_splits)
  have L: "interval div n \<noteq> 0"
    using c by (auto simp: NewAtomicBucketWrapArrayWithTime_def go_bind_Ret_iff split: if_splits)
  have "unat interval mod unat n = 0" using n(2) by (metis unat_0 unat_mod)
  then have "unat interval = unat (interval div n) * unat n" by (auto simp: unat_div)
  then obtain aa where aa: "NewAtomicBucketWrapArrayWithTime n (interval div n) now bg = Ret aa"
    "rel (unat now div unat (interval div n)) (\<lambda>_. NewEmptyBucket bg)
      \<lparr>la_bucketLengthInMs = interval div n, la_sampleCount = n, la_intervalInMs = interval, la_array = aa\<rparr>"
    using fresh [OF L n(1) _ assms(2)] by blast
  have la: "la = \<lparr>la_bucketLengthInMs = interval div n, la_sampleCount = n,
      la_intervalInMs = interval, la_array = aa\<rparr>"
    using c aa(1) by simp
  have p: "period la = (\<lambda>t. unat t div unat (interval div n))"
    by (simp add: la period_def fun_eq_iff)
  have r: "rel (unat now div unat (interval div n)) (\<lambda>_. NewEmptyBucket bg) la"
    using aa(2) by (simp only: la)
  then have "la_shape la" by (simp add: la_rel_def la_inv_def)
  then have "slots la = unat n" by (simp add: la_shape_def la)
  with p r show ?thesis by simp
qed

end

section \<open>The specification\<close>

text \<open>A request of the log: when it completed, its response time, whether it failed.\<close>

type_synonym request_log = "(u64 \<times> u64 \<times> bool) list"

text \<open>How many requests with property \<open>P\<close> completed in the latest \<open>n\<close> periods of length \<open>L\<close>.\<close>

definition in_window :: "nat \<Rightarrow> nat \<Rightarrow> u64 \<Rightarrow> u64 \<Rightarrow> bool" where
  "in_window L n now t \<longleftrightarrow> unat t div L \<le> unat now div L \<and> unat now div L < unat t div L + n"

definition window_count ::
  "nat \<Rightarrow> nat \<Rightarrow> u64 \<Rightarrow> (u64 \<times> u64 \<times> bool \<Rightarrow> bool) \<Rightarrow> request_log \<Rightarrow> u64" where
  "window_count L n now P evs =
     (\<Sum>ev \<leftarrow> evs. if in_window L n now (fst ev) then (if P ev then 1 else 0) else 0)"

definition request_times :: "u64 \<Rightarrow> request_log \<Rightarrow> bool" where
  "request_times t0 evs \<longleftrightarrow> sorted (map unat (t0 # map fst evs)) \<and> (\<forall>t \<in> set (t0 # map fst evs). valid_time t)"

definition reaches :: "f64 \<Rightarrow> u64 \<Rightarrow> u64 \<Rightarrow> bool" where
  "reaches threshold bad all_of \<longleftrightarrow>
     (let ratio = fdiv (f64_of_int (uint bad)) (f64_of_int (uint all_of))
      in flt threshold ratio \<or> Float64Equals ratio threshold)"

text \<open>The rule trips on the log: at its last request the window is over the threshold.\<close>

definition trips :: "(f64 \<Rightarrow> u64) \<Rightarrow> cb_rule \<Rightarrow> request_log \<Rightarrow> bool" where
  "trips oor r evs =
     (let n = getRuleStatSlidingWindowBucketCount r;
          L = unat (cr_StatIntervalMs r div n);
          now = fst (last evs);
          all_of = window_count L (unat n) now (\<lambda>_. True) evs;
          slow = window_count L (unat n) now (\<lambda>(t, rt, failed). cr_MaxAllowedRtMs r < rt) evs;
          errors = window_count L (unat n) now (\<lambda>(t, rt, failed). failed) evs
      in cr_MinRequestAmount r \<le> all_of \<and>
         (if cr_Strategy r = SlowRequestRatio then reaches (cr_Threshold r) slow all_of
          else if cr_Strategy r = ErrorRatio then reaches (cr_Threshold r) errors all_of
          else f64_to_u64 oor (cr_Threshold r) \<le> errors))"

definition tripped :: "(f64 \<Rightarrow> u64) \<Rightarrow> cb_rule \<Rightarrow> request_log \<Rightarrow> bool" where
  "tripped oor r evs = list_ex (\<lambda>k. trips oor r (take (Suc k) evs)) [0 ..< length evs]"

lemma tripped_Nil [simp]: "\<not> tripped oor r []"
  by (simp add: tripped_def)

lemma tripped_snoc: "tripped oor r (evs @ [ev]) \<longleftrightarrow> tripped oor r evs \<or> trips oor r (evs @ [ev])"
  by (auto simp: tripped_def list_ex_iff atLeast0LessThan less_Suc_eq)

definition period_count ::
  "nat \<Rightarrow> nat \<Rightarrow> (u64 \<times> u64 \<times> bool \<Rightarrow> bool) \<Rightarrow> request_log \<Rightarrow> u64" where
  "period_count L p P evs = (\<Sum>ev \<leftarrow> evs. if unat (fst ev) div L = p then (if P ev then 1 else 0) else 0)"

lemma window_count_periods:
  "(\<Sum>p \<in> {Suc (unat now div L) - n .. unat now div L}. period_count L p P evs) = window_count L n now P evs"
  unfolding period_count_def window_count_def in_window_def Suc_eq_plus1
  by (rule sum_list_window)

text \<open>Completing the requests of a log one after the other, each within one tick of the clock.\<close>

definition complete_log :: "request_log \<Rightarrow> circuit_breaker \<Rightarrow> circuit_breaker" where
  "complete_log evs b = foldl (\<lambda>b (t, rt, failed). fst (OnRequestComplete t t t rt failed b)) b evs"

lemma complete_log_snoc:
  "complete_log (evs @ [(t, rt, failed)]) b = fst (OnRequestComplete t t t rt failed (complete_log evs b))"
  by (simp add: complete_log_def)


lemma request_times_snoc:
  assumes "request_times t0 (evs @ [(t, rt, failed)])"
  shows "valid_time t" and "unat (last (t0 # map fst evs)) \<le> unat t" and "request_times t0 evs"
proof -
  have "last (t0 # map fst evs) \<in> set (t0 # map fst evs)" by (rule last_in_set) simp
  then show "unat (last (t0 # map fst evs)) \<le> unat t"
    using assms by (auto simp: request_times_def sorted_append simp del: last.simps)
qed (use assms in \<open>auto simp: request_times_def sorted_append\<close>)

section \<open>Slow requests\<close>

definition slow_log_rel :: "(f64 \<Rightarrow> u64) \<Rightarrow> cb_rule \<Rightarrow> u64 \<Rightarrow> request_log \<Rightarrow> slow_breaker \<Rightarrow> bool" where
  "slow_log_rel oor r t0 evs b \<longleftrightarrow>
     (\<exists>T A. slow_window.rel T A (slow_stat b) \<and>
        T = period (slow_stat b) (last (t0 # map fst evs)) \<and>
        slots (slow_stat b) = unat (getRuleStatSlidingWindowBucketCount r) \<and>
        period (slow_stat b) = (\<lambda>t. unat t div unat (cr_StatIntervalMs r div getRuleStatSlidingWindowBucketCount r)) \<and>
        (\<forall>p. slowCount (A p) = period_count (unat (cr_StatIntervalMs r div getRuleStatSlidingWindowBucketCount r)) p
           (\<lambda>(t, rt, failed). cr_MaxAllowedRtMs r < rt) evs \<and>
         slow_totalCount (A p) = period_count (unat (cr_StatIntervalMs r div getRuleStatSlidingWindowBucketCount r)) p
           (\<lambda>_. True) evs)) \<and>
     maxAllowedRt b = cr_MaxAllowedRtMs r \<and> maxSlowRequestRation b = cr_Threshold r \<and>
     slow_minRequestAmount b = cr_MinRequestAmount r \<and>
     cb_state_of b = (if tripped oor r evs then Open else Closed)"

lemma period_count_snoc:
  "period_count L p P (evs @ [ev]) = period_count L p P evs + (if unat (fst ev) div L = p \<and> P ev then 1 else 0)"
  by (simp add: period_count_def)

lemma slow_log_step:
  assumes rel: "slow_log_rel oor r t0 evs b" and s: "cr_Strategy r = SlowRequestRatio"
    and times: "request_times t0 (evs @ [(t, rt, failed)])"
  shows "slow_log_rel oor r t0 (evs @ [(t, rt, failed)]) (fst (slow_OnRequestComplete t t t rt b))"
proof -
  let ?n = "getRuleStatSlidingWindowBucketCount r"
  let ?L = "unat (cr_StatIntervalMs r div ?n)" and ?evs = "evs @ [(t, rt, failed)]"
  let ?Q = "unat t div ?L"
  obtain T A where A: "slow_window.rel T A (slow_stat b)" "T = period (slow_stat b) (last (t0 # map fst evs))"
    "slots (slow_stat b) = unat ?n" "period (slow_stat b) = (\<lambda>t. unat t div ?L)"
    "\<And>p. slowCount (A p) = period_count ?L p (\<lambda>(t, rt, failed). cr_MaxAllowedRtMs r < rt) evs"
    "\<And>p. slow_totalCount (A p) = period_count ?L p (\<lambda>_. True) evs"
    using rel unfolding slow_log_rel_def by blast
  have cfg: "maxAllowedRt b = cr_MaxAllowedRtMs r" "maxSlowRequestRation b = cr_Threshold r"
    "slow_minRequestAmount b = cr_MinRequestAmount r"
    and st: "cb_state_of b = (if tripped oor r evs then Open else Closed)"
    using rel unfolding slow_log_rel_def by simp_all
  note t = request_times_snoc(1) [OF times]
  have T: "T \<le> period (slow_stat b) t"
    unfolding A(2) by (rule period_mono [OF request_times_snoc(2) [OF times]])
  let ?A = "A(period (slow_stat b) t := slow_add rt b (A (period (slow_stat b) t)))"
  obtain i la' where c: "current_counter slow_gen t (slow_stat b) = (Ret i, la')"
    "slow_window.rel (period (slow_stat b) t) ?A (upd_val i (slow_add rt b) la')"
    "slots la' = slots (slow_stat b)" "period la' = period (slow_stat b)"
    "\<And>h :: slow_counter \<Rightarrow> u64. h (NewEmptyBucket slow_gen) = 0 \<Longrightarrow>
      (\<Sum>c \<leftarrow> bucket_values (valuesWithTime (upd_val i (slow_add rt b) la') t). h c) =
      (\<Sum>p \<in> {period (slow_stat b) t + 1 - slots (slow_stat b) .. period (slow_stat b) t}. h (?A p))"
    using slow_window.count_request [OF A(1) t T, of "slow_add rt b"] by blast
  have cnt: "slowCount (?A p) = period_count ?L p (\<lambda>(t, rt, failed). cr_MaxAllowedRtMs r < rt) ?evs"
    "slow_totalCount (?A p) = period_count ?L p (\<lambda>_. True) ?evs" for p
    by (auto simp: period_count_snoc A(4,5,6) slow_add_def cfg Let_def)
  have sums: "(\<Sum>c \<leftarrow> slow_allCounter t (upd_val i (slow_add rt b) la'). slowCount c) =
      window_count ?L (unat ?n) t (\<lambda>(t, rt, failed). cr_MaxAllowedRtMs r < rt) ?evs"
    "(\<Sum>c \<leftarrow> slow_allCounter t (upd_val i (slow_add rt b) la'). slow_totalCount c) =
      window_count ?L (unat ?n) t (\<lambda>_. True) ?evs"
    unfolding slow_allCounter_def
    using c(5) [of slowCount] c(5) [of slow_totalCount] cnt
    by (simp_all add: slow_gen_def A(3,4) window_count_periods)
  have "slow_window.rel (period (slow_stat b) t) ?A (upd_val i (slow_add rt b) la') \<and>
     slots (upd_val i (slow_add rt b) la') = unat ?n \<and>
     period (upd_val i (slow_add rt b) la') = (\<lambda>t. unat t div ?L)"
    using c(2,3,4) A(3,4) by simp
  then have ex: "\<exists>T A. slow_window.rel T A (upd_val i (slow_add rt b) la') \<and>
      T = period (upd_val i (slow_add rt b) la') (last (t0 # map fst ?evs)) \<and>
      slots (upd_val i (slow_add rt b) la') = unat ?n \<and>
      period (upd_val i (slow_add rt b) la') = (\<lambda>t. unat t div ?L) \<and>
      (\<forall>p. slowCount (A p) = period_count ?L p (\<lambda>(t, rt, failed). cr_MaxAllowedRtMs r < rt) ?evs \<and>
         slow_totalCount (A p) = period_count ?L p (\<lambda>_. True) ?evs)"
    using cnt A(4) by (intro exI [of _ "period (slow_stat b) t"] exI [of _ ?A]) simp
  have tr: "trips oor r ?evs \<longleftrightarrow> cr_MinRequestAmount r \<le> window_count ?L (unat ?n) t (\<lambda>_. True) ?evs \<and>
      reaches (cr_Threshold r)
        (window_count ?L (unat ?n) t (\<lambda>(t, rt, failed). cr_MaxAllowedRtMs r < rt) ?evs)
        (window_count ?L (unat ?n) t (\<lambda>_. True) ?evs)"
    by (simp add: trips_def Let_def s)
  have step: "slow_stat (fst (slow_OnRequestComplete t t t rt b)) = upd_val i (slow_add rt b) la' \<and>
      maxAllowedRt (fst (slow_OnRequestComplete t t t rt b)) = maxAllowedRt b \<and>
      maxSlowRequestRation (fst (slow_OnRequestComplete t t t rt b)) = maxSlowRequestRation b \<and>
      slow_minRequestAmount (fst (slow_OnRequestComplete t t t rt b)) = slow_minRequestAmount b \<and>
      cb_state_of (fst (slow_OnRequestComplete t t t rt b)) =
        (if tripped oor r evs \<or> trips oor r ?evs then Open else Closed)"
    using st
    by (auto simp: slow_OnRequestComplete_def slow_currentCounter_def c(1) Let_def foldl_plus sums cfg
        tr reaches_def transition_defs not_less)
  then show ?thesis
    unfolding slow_log_rel_def using ex cfg by (simp add: tripped_snoc)
qed

section \<open>Errors\<close>

definition err_counts :: "cb_rule \<Rightarrow> u64 \<Rightarrow> request_log \<Rightarrow> error_counter leap_array \<Rightarrow> bool" where
  "err_counts r t0 evs la \<longleftrightarrow>
     (\<exists>T A. err_window.rel T A la \<and> T = period la (last (t0 # map fst evs)) \<and>
        slots la = unat (getRuleStatSlidingWindowBucketCount r) \<and>
        period la = (\<lambda>t. unat t div unat (cr_StatIntervalMs r div getRuleStatSlidingWindowBucketCount r)) \<and>
        (\<forall>p. errorCount (A p) = period_count (unat (cr_StatIntervalMs r div getRuleStatSlidingWindowBucketCount r)) p
           (\<lambda>(t, rt, failed). failed) evs \<and>
         err_totalCount (A p) = period_count (unat (cr_StatIntervalMs r div getRuleStatSlidingWindowBucketCount r)) p
           (\<lambda>_. True) evs))"

lemma err_counts_step:
  assumes rel: "err_counts r t0 evs la" and times: "request_times t0 (evs @ [(t, rt, failed)])"
    and n: "n = getRuleStatSlidingWindowBucketCount r" and L: "L = unat (cr_StatIntervalMs r div n)"
  obtains i la' where "current_counter err_gen t la = (Ret i, la')"
    and "err_counts r t0 (evs @ [(t, rt, failed)]) (upd_val i (err_add failed) la')"
    and "(\<Sum>c \<leftarrow> err_allCounter t (upd_val i (err_add failed) la'). errorCount c) =
      window_count L (unat n) t (\<lambda>(t, rt, failed). failed) (evs @ [(t, rt, failed)])"
    and "(\<Sum>c \<leftarrow> err_allCounter t (upd_val i (err_add failed) la'). err_totalCount c) =
      window_count L (unat n) t (\<lambda>_. True) (evs @ [(t, rt, failed)])"
proof -
  let ?evs = "evs @ [(t, rt, failed)]"
  obtain T A where A: "err_window.rel T A la" "T = period la (last (t0 # map fst evs))"
    "slots la = unat n" "period la = (\<lambda>t. unat t div L)"
    "\<And>p. errorCount (A p) = period_count L p (\<lambda>(t, rt, failed). failed) evs"
    "\<And>p. err_totalCount (A p) = period_count L p (\<lambda>_. True) evs"
    using rel unfolding err_counts_def n L by blast
  note t = request_times_snoc(1) [OF times]
  have T: "T \<le> period la t"
    unfolding A(2) by (rule period_mono [OF request_times_snoc(2) [OF times]])
  let ?A = "A(period la t := err_add failed (A (period la t)))"
  obtain i la' where c: "current_counter err_gen t la = (Ret i, la')"
    "err_window.rel (period la t) ?A (upd_val i (err_add failed) la')"
    "slots la' = slots la" "period la' = period la"
    "\<And>h :: error_counter \<Rightarrow> u64. h (NewEmptyBucket err_gen) = 0 \<Longrightarrow>
      (\<Sum>c \<leftarrow> bucket_values (valuesWithTime (upd_val i (err_add failed) la') t). h c) =
      (\<Sum>p \<in> {period la t + 1 - slots la .. period la t}. h (?A p))"
    using err_window.count_request [OF A(1) t T, of "err_add failed"] by blast
  have cnt: "errorCount (?A p) = period_count L p (\<lambda>(t, rt, failed). failed) ?evs"
    "err_totalCount (?A p) = period_count L p (\<lambda>_. True) ?evs" for p
    by (auto simp: period_count_snoc A(4,5,6) err_add_def Let_def)
  have sums: "(\<Sum>c \<leftarrow> err_allCounter t (upd_val i (err_add failed) la'). errorCount c) =
      window_count L (unat n) t (\<lambda>(t, rt, failed). failed) ?evs"
    "(\<Sum>c \<leftarrow> err_allCounter t (upd_val i (err_add failed) la'). err_totalCount c) =
      window_count L (unat n) t (\<lambda>_. True) ?evs"
    unfolding err_allCounter_def
    using c(5) [of errorCount] c(5) [of err_totalCount] cnt
    by (simp_all add: err_gen_def A(3,4) window_count_periods)
  have "err_window.rel (period la t) ?A (upd_val i (err_add failed) la') \<and>
     slots (upd_val i (err_add failed) la') = unat n \<and>
     period (upd_val i (err_add failed) la') = (\<lambda>t. unat t div L)"
    using c(2,3,4) A(3,4) by simp
  then have "err_counts r t0 ?evs (upd_val i (err_add failed) la')"
    unfolding err_counts_def n [symmetric] L [symmetric]
    using cnt A(4) by (intro exI [of _ "period la t"] exI [of _ ?A]) simp
  with c(1) show thesis by (rule that) (rule sums)+
qed

definition ratio_log_rel :: "(f64 \<Rightarrow> u64) \<Rightarrow> cb_rule \<Rightarrow> u64 \<Rightarrow> request_log \<Rightarrow> ratio_breaker \<Rightarrow> bool" where
  "ratio_log_rel oor r t0 evs b \<longleftrightarrow> err_counts r t0 evs (ratio_stat b) \<and>
     errorRationThreshold b = cr_Threshold r \<and> ratio_minRequestAmount b = cr_MinRequestAmount r \<and>
     cb_state_of b = (if tripped oor r evs then Open else Closed)"

lemma ratio_log_step:
  assumes rel: "ratio_log_rel oor r t0 evs b" and s: "cr_Strategy r = ErrorRatio"
    and times: "request_times t0 (evs @ [(t, rt, failed)])"
  shows "ratio_log_rel oor r t0 (evs @ [(t, rt, failed)]) (fst (ratio_OnRequestComplete t t t failed b))"
proof -
  have er: "err_counts r t0 evs (ratio_stat b)" using rel by (simp add: ratio_log_rel_def)
  show ?thesis
  proof (rule err_counts_step [OF er times refl refl])
    fix i la'
    assume c: "current_counter err_gen t (ratio_stat b) = (Ret i, la')"
      and e: "err_counts r t0 (evs @ [(t, rt, failed)]) (upd_val i (err_add failed) la')"
      and sums: "(\<Sum>c \<leftarrow> err_allCounter t (upd_val i (err_add failed) la'). errorCount c) =
        window_count (unat (cr_StatIntervalMs r div getRuleStatSlidingWindowBucketCount r))
          (unat (getRuleStatSlidingWindowBucketCount r)) t (\<lambda>(t, rt, failed). failed) (evs @ [(t, rt, failed)])"
        "(\<Sum>c \<leftarrow> err_allCounter t (upd_val i (err_add failed) la'). err_totalCount c) =
        window_count (unat (cr_StatIntervalMs r div getRuleStatSlidingWindowBucketCount r))
          (unat (getRuleStatSlidingWindowBucketCount r)) t (\<lambda>_. True) (evs @ [(t, rt, failed)])"
    show ?thesis
      using rel e
      by (auto simp: ratio_log_rel_def ratio_OnRequestComplete_def err_currentCounter_def c Let_def
          foldl_plus sums transition_defs not_less tripped_snoc trips_def s strategy_defs reaches_def)
  qed
qed

definition count_log_rel :: "(f64 \<Rightarrow> u64) \<Rightarrow> cb_rule \<Rightarrow> u64 \<Rightarrow> request_log \<Rightarrow> count_breaker \<Rightarrow> bool" where
  "count_log_rel oor r t0 evs b \<longleftrightarrow> err_counts r t0 evs (count_stat b) \<and>
     errorCountThreshold b = f64_to_u64 oor (cr_Threshold r) \<and> count_minRequestAmount b = cr_MinRequestAmount r \<and>
     cb_state_of b = (if tripped oor r evs then Open else Closed)"

lemma count_log_step:
  assumes rel: "count_log_rel oor r t0 evs b" and s: "cr_Strategy r = ErrorCount"
    and times: "request_times t0 (evs @ [(t, rt, failed)])"
  shows "count_log_rel oor r t0 (evs @ [(t, rt, failed)]) (fst (count_OnRequestComplete t t t failed b))"
proof -
  have er: "err_counts r t0 evs (count_stat b)" using rel by (simp add: count_log_rel_def)
  show ?thesis
  proof (rule err_counts_step [OF er times refl refl])
    fix i la'
    assume c: "current_counter err_gen t (count_stat b) = (Ret i, la')"
      and e: "err_counts r t0 (evs @ [(t, rt, failed)]) (upd_val i (err_add failed) la')"
      and sums: "(\<Sum>c \<leftarrow> err_allCounter t (upd_val i (err_add failed) la'). errorCount c) =
        window_count (unat (cr_StatIntervalMs r div getRuleStatSlidingWindowBucketCount r))
          (unat (getRuleStatSlidingWindowBucketCount r)) t (\<lambda>(t, rt, failed). failed) (evs @ [(t, rt, failed)])"
        "(\<Sum>c \<leftarrow> err_allCounter t (upd_val i (err_add failed) la'). err_totalCount c) =
        window_count (unat (cr_StatIntervalMs r div getRuleStatSlidingWindowBucketCount r))
          (unat (getRuleStatSlidingWindowBucketCount r)) t (\<lambda>_. True) (evs @ [(t, rt, failed)])"
    show ?thesis
      using rel e
      by (auto simp: count_log_rel_def count_OnRequestComplete_def err_currentCounter_def c Let_def
          foldl_plus sums transition_defs not_less tripped_snoc trips_def s strategy_defs)
  qed
qed

section \<open>From a new breaker on\<close>

lemma period_count_Nil [simp]: "period_count L p P [] = 0"
  by (simp add: period_count_def)

lemma new_slow_log:
  assumes "newSlowRtCircuitBreaker t0 r = Ret b" and "valid_time t0"
  shows "slow_log_rel oor r t0 [] b"
proof -
  let ?n = "getRuleStatSlidingWindowBucketCount r"
  obtain la where la: "NewLeapArray t0 ?n (cr_StatIntervalMs r) (Some slow_gen) = Ret la"
    and b: "b = newSlowRtCircuitBreakerWithStat r la"
    using assms(1) by (auto simp: newSlowRtCircuitBreaker_def Let_def go_bind_Ret_iff)
  have r: "slow_window.rel (period la t0) (\<lambda>_. NewEmptyBucket slow_gen) la" "slots la = unat ?n"
      "period la = (\<lambda>t. unat t div unat (cr_StatIntervalMs r div ?n))"
    using slow_window.NewLeapArray_rel [OF la] assms(2) unfolding valid_time_def by blast+
  show ?thesis
    unfolding slow_log_rel_def b
    using r(1) [unfolded r(3)] r(2,3) by (auto simp: newSlowRtCircuitBreakerWithStat_def slow_gen_def
        intro!: exI [of _ "\<lambda>_. NewEmptyBucket slow_gen"])
qed

lemma new_err_counts:
  assumes "NewLeapArray t0 (getRuleStatSlidingWindowBucketCount r) (cr_StatIntervalMs r) (Some err_gen) = Ret la"
    and "valid_time t0"
  shows "err_counts r t0 [] la"
proof -
  let ?n = "getRuleStatSlidingWindowBucketCount r"
  have r: "err_window.rel (period la t0) (\<lambda>_. NewEmptyBucket err_gen) la" "slots la = unat ?n"
      "period la = (\<lambda>t. unat t div unat (cr_StatIntervalMs r div ?n))"
    using err_window.NewLeapArray_rel [OF assms(1)] assms(2) unfolding valid_time_def by blast+
  show ?thesis
    unfolding err_counts_def
    using r(1) [unfolded r(3)] r(2,3) by (auto simp: err_gen_def intro!: exI [of _ "\<lambda>_. NewEmptyBucket err_gen"])
qed

lemma slow_complete_log:
  assumes "cr_Strategy r = SlowRequestRatio" and "slow_log_rel oor r t0 [] b" and "request_times t0 evs"
  shows "\<exists>c. complete_log evs (SlowCB b) = SlowCB c \<and> slow_log_rel oor r t0 evs c"
  using assms(3)
proof (induction evs rule: rev_induct)
  case Nil
  then show ?case using assms(2) by (simp add: complete_log_def)
next
  case (snoc ev evs)
  obtain t rt failed where ev: "ev = (t, rt, failed)" by (cases ev)
  obtain c where c: "complete_log evs (SlowCB b) = SlowCB c" "slow_log_rel oor r t0 evs c"
    using snoc request_times_snoc(3) ev by blast
  have "slow_log_rel oor r t0 (evs @ [ev]) (fst (slow_OnRequestComplete t t t rt c))"
    using slow_log_step [OF c(2) assms(1)] snoc.prems by (simp only: ev)
  then show ?case by (auto simp: ev complete_log_snoc c(1) split: prod.split)
qed

lemma ratio_complete_log:
  assumes "cr_Strategy r = ErrorRatio" and "ratio_log_rel oor r t0 [] b" and "request_times t0 evs"
  shows "\<exists>c. complete_log evs (RatioCB b) = RatioCB c \<and> ratio_log_rel oor r t0 evs c"
  using assms(3)
proof (induction evs rule: rev_induct)
  case Nil
  then show ?case using assms(2) by (simp add: complete_log_def)
next
  case (snoc ev evs)
  obtain t rt failed where ev: "ev = (t, rt, failed)" by (cases ev)
  obtain c where c: "complete_log evs (RatioCB b) = RatioCB c" "ratio_log_rel oor r t0 evs c"
    using snoc request_times_snoc(3) ev by blast
  have "ratio_log_rel oor r t0 (evs @ [ev]) (fst (ratio_OnRequestComplete t t t failed c))"
    using ratio_log_step [OF c(2) assms(1)] snoc.prems by (simp only: ev)
  then show ?case by (auto simp: ev complete_log_snoc c(1) split: prod.split)
qed

lemma count_complete_log:
  assumes "cr_Strategy r = ErrorCount" and "count_log_rel oor r t0 [] b" and "request_times t0 evs"
  shows "\<exists>c. complete_log evs (CountCB b) = CountCB c \<and> count_log_rel oor r t0 evs c"
  using assms(3)
proof (induction evs rule: rev_induct)
  case Nil
  then show ?case using assms(2) by (simp add: complete_log_def)
next
  case (snoc ev evs)
  obtain t rt failed where ev: "ev = (t, rt, failed)" by (cases ev)
  obtain c where c: "complete_log evs (CountCB b) = CountCB c" "count_log_rel oor r t0 evs c"
    using snoc request_times_snoc(3) ev by blast
  have "count_log_rel oor r t0 (evs @ [ev]) (fst (count_OnRequestComplete t t t failed c))"
    using count_log_step [OF c(2) assms(1)] snoc.prems by (simp only: ev)
  then show ?case by (auto simp: ev complete_log_snoc c(1) split: prod.split)
qed

text \<open>
  C2: A new breaker of any default strategy opens exactly when its rule says so. Complete any log of
  requests, in time order, on a breaker made from rule \<open>r\<close>: it ends up open if for some prefix of the
  log the requests of the window (the latest bucket periods of the statistic interval) number at
  least the minimum amount and reach the threshold (the ratio of slow or of failed requests, with
  the code's tolerance, or the number of failed ones), and it is still closed otherwise.
\<close>

theorem breaker_trips:
  assumes "cbGenFunc oor (cr_Strategy r) = Some gen" and "gen t0 (Some r) None = Ret b"
    and "request_times t0 evs"
  shows "CurrentState (complete_log evs b) = (if tripped oor r evs then Open else Closed)"
proof -
  have t0: "valid_time t0" using assms(3) by (simp add: request_times_def)
  consider (slow) "cr_Strategy r = SlowRequestRatio" | (ratio) "cr_Strategy r = ErrorRatio"
    | (count) "cr_Strategy r = ErrorCount"
    using assms(1) by (auto simp: cbGenFunc_def split: if_splits)
  then show ?thesis
  proof cases
    case slow
    then obtain c where c: "newSlowRtCircuitBreaker t0 r = Ret c" "b = SlowCB c"
      using assms(1,2) by (auto simp: cbGenFunc_def go_bind_Ret_iff)
    show ?thesis
      using slow_complete_log [OF slow new_slow_log [OF c(1) t0] assms(3), of oor]
      by (auto simp: c(2) slow_log_rel_def)
  next
    case ratio
    then obtain c where c: "newErrorRatioCircuitBreaker t0 r = Ret c" "b = RatioCB c"
      using assms(1,2) by (auto simp: cbGenFunc_def go_bind_Ret_iff strategy_defs)
    then have "ratio_log_rel oor r t0 [] c"
      using new_err_counts [OF _ t0, of r]
      by (auto simp: newErrorRatioCircuitBreaker_def Let_def go_bind_Ret_iff ratio_log_rel_def
          newErrorRatioCircuitBreakerWithStat_def)
    then show ?thesis
      using ratio_complete_log [OF ratio _ assms(3), of oor c] by (auto simp: c(2) ratio_log_rel_def)
  next
    case count
    then obtain c where c: "newErrorCountCircuitBreaker oor t0 r = Ret c" "b = CountCB c"
      using assms(1,2) by (auto simp: cbGenFunc_def go_bind_Ret_iff strategy_defs)
    then have "count_log_rel oor r t0 [] c"
      using new_err_counts [OF _ t0, of r]
      by (auto simp: newErrorCountCircuitBreaker_def Let_def go_bind_Ret_iff count_log_rel_def
          newErrorCountCircuitBreakerWithStat_def)
    then show ?thesis
      using count_complete_log [OF count _ assms(3), of oor c] by (auto simp: c(2) count_log_rel_def)
  qed
qed

text \<open>Two errors within a second open the breaker of the demo rule; an earlier error is forgotten.\<close>

theorem breaker_trips_witness:
  "\<exists>gen b. cbGenFunc (\<lambda>_. 0) ErrorCount = Some gen \<and> gen 100 (Some demo_rule) None = Ret b \<and>
     CurrentState (complete_log [(500, 10, True), (2100, 10, True)] b) = Closed \<and>
     CurrentState (complete_log [(500, 10, True), (2100, 10, True), (2900, 10, True)] b) = Open"
proof -
  obtain gen b where b: "cbGenFunc (\<lambda>_. 0) (cr_Strategy demo_rule) = Some gen" "gen 100 (Some demo_rule) None = Ret b"
    by (simp add: cbGenFunc_def demo_rule_def strategy_defs newErrorCountCircuitBreaker_def Let_def
        getRuleStatSlidingWindowBucketCount_def NewLeapArray_def NewAtomicBucketWrapArrayWithTime_def
        split: prod.split)
  have "CurrentState (complete_log [(500, 10, True), (2100, 10, True)] b) = Closed"
    by (subst breaker_trips [OF b])
      (simp_all add: request_times_def valid_time_def tripped_def trips_def demo_rule_def strategy_defs
        getRuleStatSlidingWindowBucketCount_def window_count_def in_window_def Let_def ftrunc_def word_le_nat_alt)
  moreover have "CurrentState (complete_log [(500, 10, True), (2100, 10, True), (2900, 10, True)] b) = Open"
    by (subst breaker_trips [OF b])
      (simp_all add: request_times_def valid_time_def tripped_def trips_def demo_rule_def strategy_defs
        getRuleStatSlidingWindowBucketCount_def window_count_def in_window_def Let_def ftrunc_def word_le_nat_alt)
  ultimately show ?thesis using b by (auto simp: demo_rule_def)
qed

end
