(* ===== verification/BaseTypes.thy ===== *)
theory BaseTypes
  imports GoStrings
begin

text \<open>
  The values that pass between the slots and their callers: \<open>core/base/result.go\<close>, \<open>block_error.go\<close>,
  \<open>resource.go\<close> and the cluster token result of \<open>tok_result.go\<close>. A rule is an interface value and a
  snapshot is untyped in the code: both are type parameters, \<open>None\<close> the nil value.
\<close>

section \<open>Resources\<close>

type_synonym resource_type = i32
type_synonym traffic_type = i32

definition ResTypeCommon :: resource_type where "ResTypeCommon = 0"
definition Inbound :: traffic_type where "Inbound = 0"
definition Outbound :: traffic_type where "Outbound = 1"

definition TrafficType_String :: "traffic_type \<Rightarrow> string" where
  "TrafficType_String t =
     (if t = Inbound then ''Inbound'' else if t = Outbound then ''Outbound'' else FormatInt (sint t))"

record resource_wrapper =
  rw_name :: string
  rw_classification :: resource_type
  rw_flowType :: traffic_type

definition NewResourceWrapper :: "string \<Rightarrow> resource_type \<Rightarrow> traffic_type \<Rightarrow> resource_wrapper" where
  "NewResourceWrapper name classification flowType =
     \<lparr>rw_name = name, rw_classification = classification, rw_flowType = flowType\<rparr>"

section \<open>Block types\<close>

type_synonym block_type = u8

definition BlockTypeUnknown :: block_type where "BlockTypeUnknown = 0"
definition BlockTypeFlow :: block_type where "BlockTypeFlow = 1"
definition BlockTypeIsolation :: block_type where "BlockTypeIsolation = 2"
definition BlockTypeCircuitBreaking :: block_type where "BlockTypeCircuitBreaking = 3"
definition BlockTypeSystemFlow :: block_type where "BlockTypeSystemFlow = 4"
definition BlockTypeHotSpotParamFlow :: block_type where "BlockTypeHotSpotParamFlow = 5"
definition BlockTypeMock :: block_type where "BlockTypeMock = 6"
definition BlockTypeMockError :: block_type where "BlockTypeMockError = 7"
definition BlockTypeMockRequest :: block_type where "BlockTypeMockRequest = 8"
definition BlockTypeMockCtxTimeout :: block_type where "BlockTypeMockCtxTimeout = 9"
definition BlockTypeGray :: block_type where "BlockTypeGray = 10"

lemmas block_type_defs =
  BlockTypeUnknown_def BlockTypeFlow_def BlockTypeIsolation_def BlockTypeCircuitBreaking_def
  BlockTypeSystemFlow_def BlockTypeHotSpotParamFlow_def BlockTypeMock_def BlockTypeMockError_def
  BlockTypeMockRequest_def BlockTypeMockCtxTimeout_def BlockTypeGray_def

definition initial_blockTypeMap :: "(block_type, string) gomap" where
  "initial_blockTypeMap =
     [(BlockTypeUnknown, ''BlockTypeUnknown''), (BlockTypeFlow, ''BlockTypeFlowControl''),
      (BlockTypeIsolation, ''BlockTypeIsolation''), (BlockTypeCircuitBreaking, ''BlockTypeCircuitBreaking''),
      (BlockTypeSystemFlow, ''BlockTypeSystem''), (BlockTypeHotSpotParamFlow, ''BlockTypeHotSpotParamFlow''),
      (BlockTypeMock, ''BlockTypeMock''), (BlockTypeMockError, ''BlockTypeMockError''),
      (BlockTypeMockRequest, ''BlockTypeMockRequest'')]"

text \<open>The error of the call and the map after it.\<close>

definition RegistryBlockType ::
  "block_type \<Rightarrow> string \<Rightarrow> (block_type, string) gomap \<Rightarrow> string option \<times> (block_type, string) gomap" where
  "RegistryBlockType blockType desc m =
     (if mget m blockType \<noteq> None then (Some ''block type existed'', m) else (None, mput blockType desc m))"

definition BlockType_String :: "(block_type, string) gomap \<Rightarrow> block_type \<Rightarrow> string" where
  "BlockType_String m t = (case mget m t of Some name \<Rightarrow> name | None \<Rightarrow> FormatUint (unat t))"

section \<open>Block errors\<close>

record ('r, 's) block_error =
  be_blockType :: block_type
  be_blockMsg :: string
  be_rule :: "'r option"
  be_snapshotValue :: "'s option"

text \<open>The options are functions on the error, applied in order.\<close>

type_synonym ('r, 's) block_error_option = "('r, 's) block_error \<Rightarrow> ('r, 's) block_error"

definition WithBlockType :: "block_type \<Rightarrow> ('r, 's) block_error_option" where
  "WithBlockType blockType b = b\<lparr>be_blockType := blockType\<rparr>"

definition WithBlockMsg :: "string \<Rightarrow> ('r, 's) block_error_option" where
  "WithBlockMsg blockMsg b = b\<lparr>be_blockMsg := blockMsg\<rparr>"

definition WithRule :: "'r option \<Rightarrow> ('r, 's) block_error_option" where
  "WithRule rule b = b\<lparr>be_rule := rule\<rparr>"

definition WithSnapshotValue :: "'s option \<Rightarrow> ('r, 's) block_error_option" where
  "WithSnapshotValue v b = b\<lparr>be_snapshotValue := v\<rparr>"

definition ResetBlockError :: "('r, 's) block_error_option list \<Rightarrow> ('r, 's) block_error \<Rightarrow> ('r, 's) block_error" where
  "ResetBlockError opts e = foldl (\<lambda>e opt. opt e) e opts"

definition NewBlockError :: "('r, 's) block_error_option list \<Rightarrow> ('r, 's) block_error" where
  "NewBlockError opts = foldl (\<lambda>b opt. opt b)
     \<lparr>be_blockType = BlockTypeUnknown, be_blockMsg = [], be_rule = None, be_snapshotValue = None\<rparr> opts"

text \<open>The argument of the copy may be a nil pointer: reading its fields then panics.\<close>

definition NewBlockErrorFromDeepCopy :: "('r, 's) block_error option \<Rightarrow> ('r, 's) block_error go" where
  "NewBlockErrorFromDeepCopy from =
     (case from of
        None \<Rightarrow> Panic ''nil pointer dereference''
      | Some e \<Rightarrow> Ret \<lparr>be_blockType = be_blockType e, be_blockMsg = be_blockMsg e, be_rule = be_rule e,
                        be_snapshotValue = be_snapshotValue e\<rparr>)"

definition NewBlockErrorWithMessage :: "block_type \<Rightarrow> string \<Rightarrow> ('r, 's) block_error" where
  "NewBlockErrorWithMessage blockType message = NewBlockError [WithBlockType blockType, WithBlockMsg message]"

definition NewBlockErrorWithCause ::
  "block_type \<Rightarrow> string \<Rightarrow> 'r option \<Rightarrow> 's option \<Rightarrow> ('r, 's) block_error" where
  "NewBlockErrorWithCause blockType blockMsg rule v =
     NewBlockError [WithBlockType blockType, WithBlockMsg blockMsg, WithRule rule, WithSnapshotValue v]"

definition BlockError_Error :: "(block_type, string) gomap \<Rightarrow> ('r, 's) block_error option \<Rightarrow> string" where
  "BlockError_Error m e =
     (case e of
        None \<Rightarrow> ''nil *BlockError''
      | Some e \<Rightarrow>
          if be_blockMsg e = [] then ''seaBlockError: '' @ BlockType_String m (be_blockType e)
          else ''seaBlockError: '' @ BlockType_String m (be_blockType e) @ '', message: '' @ be_blockMsg e)"

section \<open>Token results\<close>

type_synonym token_result_status = u8

definition ResultStatusPass :: token_result_status where "ResultStatusPass = 0"
definition ResultStatusBlocked :: token_result_status where "ResultStatusBlocked = 1"
definition ResultStatusShouldWait :: token_result_status where "ResultStatusShouldWait = 2"

lemmas result_status_defs = ResultStatusPass_def ResultStatusBlocked_def ResultStatusShouldWait_def

definition TokenResultStatus_String :: "token_result_status \<Rightarrow> string" where
  "TokenResultStatus_String s =
     (if s = ResultStatusPass then ''ResultStatusPass''
      else if s = ResultStatusBlocked then ''ResultStatusBlocked''
      else if s = ResultStatusShouldWait then ''ResultStatusShouldWait''
      else ''Undefined'')"

record ('r, 's) token_result =
  tr_status :: token_result_status
  tr_grayRes :: "resource_wrapper option"
  tr_grayAddress :: "string list"
  tr_linkPass :: bool
  tr_grayTag :: string
  tr_grayMatchRes :: string
  tr_blockErr :: "('r, 's) block_error option"
  tr_nanosToWait :: i64

definition tr_ResetToPass :: "('r, 's) token_result \<Rightarrow> ('r, 's) token_result" where
  "tr_ResetToPass r = r\<lparr>tr_status := ResultStatusPass, tr_blockErr := None, tr_nanosToWait := 0,
     tr_linkPass := False, tr_grayTag := []\<rparr>"

definition tr_ResetToBlockedWith ::
  "('r, 's) block_error_option list \<Rightarrow> ('r, 's) token_result \<Rightarrow> ('r, 's) token_result" where
  "tr_ResetToBlockedWith opts r =
     r\<lparr>tr_status := ResultStatusBlocked,
       tr_blockErr := Some (case tr_blockErr r of None \<Rightarrow> NewBlockError opts | Some e \<Rightarrow> ResetBlockError opts e),
       tr_nanosToWait := 0\<rparr>"

definition tr_ResetToBlocked :: "block_type \<Rightarrow> ('r, 's) token_result \<Rightarrow> ('r, 's) token_result" where
  "tr_ResetToBlocked blockType r = tr_ResetToBlockedWith [WithBlockType blockType] r"

definition tr_ResetToBlockWithMessage :: "block_type \<Rightarrow> string \<Rightarrow> ('r, 's) token_result \<Rightarrow> ('r, 's) token_result" where
  "tr_ResetToBlockWithMessage blockType blockMsg r =
     tr_ResetToBlockedWith [WithBlockType blockType, WithBlockMsg blockMsg] r"

definition tr_ResetToBlockedWithCause ::
  "block_type \<Rightarrow> string \<Rightarrow> 'r option \<Rightarrow> 's option \<Rightarrow> ('r, 's) token_result \<Rightarrow> ('r, 's) token_result" where
  "tr_ResetToBlockedWithCause blockType blockMsg rule v r =
     tr_ResetToBlockedWith [WithBlockType blockType, WithBlockMsg blockMsg, WithRule rule, WithSnapshotValue v] r"

definition tr_IsPass :: "('r, 's) token_result \<Rightarrow> bool" where
  "tr_IsPass r \<longleftrightarrow> tr_status r = ResultStatusPass"

definition tr_IsBlocked :: "('r, 's) token_result \<Rightarrow> bool" where
  "tr_IsBlocked r \<longleftrightarrow> tr_status r = ResultStatusBlocked"

text \<open>\<open>DeepCopyFrom\<close> reads the block error of the other result, which must not be nil.\<close>

definition tr_DeepCopyFrom :: "('r, 's) token_result \<Rightarrow> ('r, 's) token_result \<Rightarrow> ('r, 's) token_result go" where
  "tr_DeepCopyFrom newResult r =
     (let r = r\<lparr>tr_status := tr_status newResult, tr_nanosToWait := tr_nanosToWait newResult\<rparr> in
      case tr_blockErr newResult of
        None \<Rightarrow> Panic ''nil pointer dereference''
      | Some e \<Rightarrow>
          let copy = \<lparr>be_blockType = be_blockType e, be_blockMsg = be_blockMsg e, be_rule = be_rule e,
                      be_snapshotValue = be_snapshotValue e\<rparr>
          in if tr_blockErr r = None then Ret (r\<lparr>tr_blockErr := Some copy\<rparr>)
             else Ret (r\<lparr>tr_blockErr := Some copy, tr_grayRes := tr_grayRes newResult,
                         tr_grayTag := tr_grayTag newResult, tr_linkPass := tr_linkPass newResult\<rparr>))"

definition NewTokenResultWithResource ::
  "token_result_status \<Rightarrow> resource_wrapper option \<Rightarrow> bool \<Rightarrow> string \<Rightarrow> string \<Rightarrow> string list \<Rightarrow>
   ('r, 's) block_error_option list \<Rightarrow> ('r, 's) token_result" where
  "NewTokenResultWithResource status refResource linkPass grayTag grayMatchRes address opts =
     \<lparr>tr_status = status, tr_grayRes = refResource, tr_grayAddress = address, tr_linkPass = linkPass,
      tr_grayTag = grayTag, tr_grayMatchRes = grayMatchRes, tr_blockErr = Some (NewBlockError opts),
      tr_nanosToWait = 0\<rparr>"

definition NewTokenResult :: "token_result_status \<Rightarrow> ('r, 's) block_error_option list \<Rightarrow> ('r, 's) token_result" where
  "NewTokenResult status opts =
     \<lparr>tr_status = status, tr_grayRes = None, tr_grayAddress = [], tr_linkPass = False,
      tr_grayTag = [], tr_grayMatchRes = [], tr_blockErr = Some (NewBlockError opts), tr_nanosToWait = 0\<rparr>"

definition NewTokenResultPass :: "('r, 's) token_result" where
  "NewTokenResultPass = NewTokenResult ResultStatusPass []"

definition NewTokenResultPassWithGrayResource ::
  "resource_wrapper option \<Rightarrow> bool \<Rightarrow> string \<Rightarrow> string \<Rightarrow> string list \<Rightarrow> ('r, 's) token_result" where
  "NewTokenResultPassWithGrayResource refResource linkPass grayTag grayMatchRes address =
     NewTokenResultWithResource ResultStatusPass refResource linkPass grayTag grayMatchRes address []"

definition NewTokenResultBlocked :: "block_type \<Rightarrow> ('r, 's) token_result" where
  "NewTokenResultBlocked blockType = NewTokenResult ResultStatusBlocked [WithBlockType blockType]"

definition NewTokenResultBlockedWithCause ::
  "block_type \<Rightarrow> string \<Rightarrow> 'r option \<Rightarrow> 's option \<Rightarrow> ('r, 's) token_result" where
  "NewTokenResultBlockedWithCause blockType blockMsg rule v =
     NewTokenResult ResultStatusBlocked
       [WithBlockType blockType, WithBlockMsg blockMsg, WithRule rule, WithSnapshotValue v]"

definition NewTokenResultShouldWait :: "i64 \<Rightarrow> ('r, 's) token_result" where
  "NewTokenResultShouldWait waitNs = (NewTokenResult ResultStatusShouldWait [])\<lparr>tr_nanosToWait := waitNs\<rparr>"

named_theorems result_simps \<open>views of block errors and token results\<close>

lemma option_views [result_simps]:
  "be_blockType (WithBlockType t b) = t" "be_blockMsg (WithBlockType t b) = be_blockMsg b"
  "be_rule (WithBlockType t b) = be_rule b" "be_snapshotValue (WithBlockType t b) = be_snapshotValue b"
  "be_blockType (WithBlockMsg m b) = be_blockType b" "be_blockMsg (WithBlockMsg m b) = m"
  "be_rule (WithBlockMsg m b) = be_rule b" "be_snapshotValue (WithBlockMsg m b) = be_snapshotValue b"
  "be_blockType (WithRule r b) = be_blockType b" "be_blockMsg (WithRule r b) = be_blockMsg b"
  "be_rule (WithRule r b) = r" "be_snapshotValue (WithRule r b) = be_snapshotValue b"
  "be_blockType (WithSnapshotValue v b) = be_blockType b" "be_blockMsg (WithSnapshotValue v b) = be_blockMsg b"
  "be_rule (WithSnapshotValue v b) = be_rule b" "be_snapshotValue (WithSnapshotValue v b) = v"
  by (simp_all add: WithBlockType_def WithBlockMsg_def WithRule_def WithSnapshotValue_def)

lemma result_status [result_simps]:
  "tr_IsBlocked (tr_ResetToBlockedWith opts r)" "\<not> tr_IsBlocked (tr_ResetToPass r)"
  "tr_IsPass (tr_ResetToPass r)" "tr_IsBlocked (NewTokenResult ResultStatusBlocked opts)"
  "\<not> tr_IsBlocked (NewTokenResult ResultStatusPass opts)"
  "tr_IsBlocked (NewTokenResultBlockedWithCause bt m ru v)" "tr_IsBlocked (NewTokenResultBlocked bt)"
  "\<not> tr_IsBlocked NewTokenResultPass" "\<not> tr_IsBlocked (NewTokenResultShouldWait w)"
  by (simp_all add: tr_IsBlocked_def tr_IsPass_def tr_ResetToBlockedWith_def tr_ResetToPass_def
      NewTokenResult_def NewTokenResultBlockedWithCause_def NewTokenResultBlocked_def NewTokenResultPass_def
      NewTokenResultShouldWait_def result_status_defs)

text \<open>Whatever the result held before, a block with a cause reports exactly that cause.\<close>

lemma ResetToBlockedWithCause_blocked [result_simps]: "tr_IsBlocked (tr_ResetToBlockedWithCause bt m ru v r)"
  by (simp add: tr_ResetToBlockedWithCause_def result_simps)

lemma ResetToBlockedWithCause_cause [result_simps]:
  "tr_blockErr (tr_ResetToBlockedWithCause bt m ru v r) =
     Some \<lparr>be_blockType = bt, be_blockMsg = m, be_rule = ru, be_snapshotValue = v\<rparr>"
  by (auto simp: tr_ResetToBlockedWithCause_def tr_ResetToBlockedWith_def NewBlockError_def
      ResetBlockError_def WithBlockType_def WithBlockMsg_def WithRule_def WithSnapshotValue_def
      split: option.splits)

lemma NewBlockedWithCause_cause [result_simps]:
  "tr_blockErr (NewTokenResultBlockedWithCause bt m ru v) =
     Some \<lparr>be_blockType = bt, be_blockMsg = m, be_rule = ru, be_snapshotValue = v\<rparr>"
  by (simp add: NewTokenResultBlockedWithCause_def NewTokenResult_def NewBlockError_def WithBlockType_def
      WithBlockMsg_def WithRule_def WithSnapshotValue_def)

section \<open>Cluster token results\<close>

text \<open>\<open>int\<close> is a signed 64-bit integer.\<close>

record tok_result =
  tk_Status :: i64
  tk_WaitInMs :: i64
  tk_TokenId :: i64
  tk_Attachments :: "(string, string) gomap"

definition empty_tok_result :: tok_result where
  "empty_tok_result = \<lparr>tk_Status = 0, tk_WaitInMs = 0, tk_TokenId = 0, tk_Attachments = []\<rparr>"

definition TokResult_String :: "tok_result \<Rightarrow> string" where
  "TokResult_String t =
     CHR ''{'' # [char_of (34 :: nat)] @ ''status'' @ [char_of (34 :: nat)] @ '':'' @ FormatInt (sint (tk_Status t)) @
     '','' @ [char_of (34 :: nat)] @ ''waitInMs'' @ [char_of (34 :: nat)] @ '':'' @ FormatInt (sint (tk_WaitInMs t)) @
     '','' @ [char_of (34 :: nat)] @ ''tokenId'' @ [char_of (34 :: nat)] @ '':'' @ FormatInt (sint (tk_TokenId t)) @ ''}''"

definition TokenToThinString :: "tok_result \<Rightarrow> string" where
  "TokenToThinString t = FormatInt (sint (tk_Status t)) @ CHR ''|'' # FormatInt (sint (tk_WaitInMs t))"

definition ThinStringToToken :: "string \<Rightarrow> tok_result go" where
  "ThinStringToToken line =
     (if line = [] then Err ''invalid token line: empty string''
      else let arr = split_on (CHR ''|'') line in
        if length arr < 2 then Err ''invalid token line: invalid format''
        else case ParseInt 32 (arr ! 0) of
            None \<Rightarrow> Err ''strconv.ParseInt''
          | Some status \<Rightarrow>
              (case ParseInt 32 (arr ! 1) of
                 None \<Rightarrow> Err ''strconv.ParseInt''
               | Some waitInMs \<Rightarrow>
                   Ret (empty_tok_result\<lparr>tk_Status := of_int status, tk_WaitInMs := of_int waitInMs\<rparr>)))"

text \<open>
  The thin line of a cluster token result carries the status and the waiting time, when they fit
  the 32 bits the reader parses, and nothing else: the token id and the attachments are gone.
\<close>

lemma thin_string_roundtrip:
  assumes "- (2 ^ 31) \<le> sint (tk_Status t)" and "sint (tk_Status t) < 2 ^ 31"
    and "- (2 ^ 31) \<le> sint (tk_WaitInMs t)" and "sint (tk_WaitInMs t) < 2 ^ 31"
  shows "ThinStringToToken (TokenToThinString t) = Ret (t\<lparr>tk_TokenId := 0, tk_Attachments := []\<rparr>)"
proof -
  have sep: "CHR ''|'' \<notin> set (FormatInt i)" for i by (simp add: FormatInt_no_sep)
  have "split_on (CHR ''|'') (TokenToThinString t) =
      [FormatInt (sint (tk_Status t)), FormatInt (sint (tk_WaitInMs t))]"
    by (simp add: TokenToThinString_def split_on_append split_on_no_sep sep)
  then show ?thesis
    using assms by (simp add: ThinStringToToken_def TokenToThinString_def ParseInt_FormatInt empty_tok_result_def)
qed

end
