(* ===== verification/Reuse.thy ===== *)
theory Reuse
  imports Prelude
begin

text \<open>
  The choice of an old controller for a new rule, which the rule managers of the breakers and of flow
  control share: the first old controller whose rule is equal, and before it the first one whose
  statistic can be reused. \<open>- 1\<close> is the code's index for none.
\<close>

fun reuse_loop :: "('o \<Rightarrow> bool) \<Rightarrow> ('o \<Rightarrow> bool) \<Rightarrow> nat \<Rightarrow> int \<Rightarrow> 'o list \<Rightarrow> int \<times> int" where
  "reuse_loop eq reusable idx reuseStatIdx [] = (- 1, reuseStatIdx)"
| "reuse_loop eq reusable idx reuseStatIdx (old # olds) =
     (if eq old then (int idx, reuseStatIdx)
      else if \<not> reusable old then reuse_loop eq reusable (Suc idx) reuseStatIdx olds
      else if 0 \<le> reuseStatIdx then reuse_loop eq reusable (Suc idx) reuseStatIdx olds
      else reuse_loop eq reusable (Suc idx) (int idx) olds)"

lemma reuse_loop_range:
  assumes "reuse_loop eq reusable idx ri xs = (e, s)"
  shows "(e = - 1 \<or> int idx \<le> e \<and> e < int (idx + length xs) \<and> eq (xs ! (nat e - idx))) \<and>
    (s = ri \<or> int idx \<le> s \<and> s < int (idx + length xs) \<and> reusable (xs ! (nat s - idx)))"
  using assms
proof (induction eq reusable idx ri xs rule: reuse_loop.induct)
  case (1 eq reusable idx ri)
  then show ?case by simp
next
  case (2 eq reusable idx ri x xs)
  have shift: "(x # xs) ! (nat i - idx) = xs ! (nat i - Suc idx)" if "int (Suc idx) \<le> i" for i
  proof -
    have "nat i - idx = Suc (nat i - Suc idx)" using that by linarith
    then show ?thesis by simp
  qed
  show ?case
  proof (cases "eq x")
    case True
    with 2 show ?thesis by auto
  next
    case False
    define ri' where "ri' = (if reusable x \<and> ri < 0 then int idx else ri)"
    have rec: "reuse_loop eq reusable (Suc idx) ri' xs = (e, s)"
      using 2 False by (auto simp: ri'_def split: if_splits)
    have IH: "(e = - 1 \<or> int (Suc idx) \<le> e \<and> e < int (Suc idx + length xs) \<and> eq (xs ! (nat e - Suc idx))) \<and>
      (s = ri' \<or> int (Suc idx) \<le> s \<and> s < int (Suc idx + length xs) \<and> reusable (xs ! (nat s - Suc idx)))"
      using 2 False rec by (auto simp: ri'_def split: if_splits)
    have e: "e = - 1 \<or> int idx \<le> e \<and> e < int (idx + length (x # xs)) \<and> eq ((x # xs) ! (nat e - idx))"
      using IH shift [of e] by auto
    have "s = ri \<or> s = int idx \<and> reusable x \<or>
        int (Suc idx) \<le> s \<and> s < int (Suc idx + length xs) \<and> reusable (xs ! (nat s - Suc idx))"
      using IH by (auto simp: ri'_def split: if_splits)
    then have "s = ri \<or> int idx \<le> s \<and> s < int (idx + length (x # xs)) \<and> reusable ((x # xs) ! (nat s - idx))"
      using shift [of s] by auto
    with e show ?thesis by blast
  qed
qed

lemma reuse_loop_equal:
  assumes "reuse_loop eq reusable idx ri xs = (e, s)" and "\<exists>x \<in> set xs. eq x"
  shows "0 \<le> e"
  using assms by (induction eq reusable idx ri xs rule: reuse_loop.induct) (auto split: if_splits)

text \<open>The same loop where comparing two rules may panic.\<close>

fun reuse_loop_go :: "('o \<Rightarrow> bool go) \<Rightarrow> ('o \<Rightarrow> bool) \<Rightarrow> nat \<Rightarrow> int \<Rightarrow> 'o list \<Rightarrow> (int \<times> int) go" where
  "reuse_loop_go eq reusable idx reuseStatIdx [] = Ret (- 1, reuseStatIdx)"
| "reuse_loop_go eq reusable idx reuseStatIdx (old # olds) =
     go_bind (eq old) (\<lambda>e.
       if e then Ret (int idx, reuseStatIdx)
       else if \<not> reusable old then reuse_loop_go eq reusable (Suc idx) reuseStatIdx olds
       else if 0 \<le> reuseStatIdx then reuse_loop_go eq reusable (Suc idx) reuseStatIdx olds
       else reuse_loop_go eq reusable (Suc idx) (int idx) olds)"

lemma reuse_loop_go_Ret:
  "(\<And>x. x \<in> set xs \<Longrightarrow> eqg x = Ret (eq x)) \<Longrightarrow>
    reuse_loop_go eqg reusable idx ri xs = Ret (reuse_loop eq reusable idx ri xs)"
  by (induction xs arbitrary: idx ri) auto

text \<open>Whatever the comparison does, a choice of the loop is an old controller it was made for.\<close>

lemma reuse_loop_go_range:
  assumes "reuse_loop_go eqg reusable idx ri xs = Ret (e, s)"
  shows "(e = - 1 \<or> int idx \<le> e \<and> e < int (idx + length xs) \<and> eqg (xs ! (nat e - idx)) = Ret True) \<and>
    (s = ri \<or> int idx \<le> s \<and> s < int (idx + length xs) \<and> reusable (xs ! (nat s - idx)))"
proof -
  have "reuse_loop (\<lambda>x. eqg x = Ret True) reusable idx ri xs = (e, s)"
    using assms
    by (induction eqg reusable idx ri xs rule: reuse_loop_go.induct) (auto simp: go_bind_Ret_iff split: if_splits)
  then show ?thesis by (rule reuse_loop_range)
qed

end
