(* ===== verification/CBManager.thy ===== *)
theory CBManager
  imports BreakerMachine BaseTypes Reuse
begin

text \<open>
  The rule manager of the circuit breakers, \<open>core/circuitbreaker/rule_manager.go\<close>, and the two slots
  that use it (\<open>slot.go\<close>, \<open>stat_slot.go\<close>). A breaker is an object with an address, and so is its
  window: a new breaker may take over the window of an old one. Locks are not modelled: a call is one
  step. The breakers made by one load read the clock once here.
\<close>

section \<open>State\<close>

record cb_obj =
  cb_ptr :: nat
  stat_ptr :: nat
  cb_val :: circuit_breaker

text \<open>
  A rule in a slice is a pointer, \<open>None\<close> if nil; \<open>reflect.DeepEqual\<close> compares what the pointers point to.
  \<open>next_ptr\<close> is the next free address.
\<close>

record cb_manager =
  breakerRules :: "(string, cb_rule list) gomap"
  breakers :: "(string, cb_obj list) gomap"
  cb_currentRules :: "(string, cb_rule option list) gomap"
  next_ptr :: nat

definition initial_cb_manager :: cb_manager where
  "initial_cb_manager = \<lparr>breakerRules = [], breakers = [], cb_currentRules = [], next_ptr = 0\<rparr>"

section \<open>Rules\<close>

definition cb_IsValidRule :: "cb_rule option \<Rightarrow> string option" where
  "cb_IsValidRule rule =
     (case rule of
        None \<Rightarrow> Some ''nil Rule''
      | Some r \<Rightarrow>
          if cr_Resource r = [] then Some ''empty resource name''
          else if cr_StatIntervalMs r \<le> 0 then Some ''invalid StatIntervalMs''
          else if cr_RetryTimeoutMs r \<le> 0 then Some ''invalid RetryTimeoutMs''
          else if flt (cr_Threshold r) (Fin 0) then Some ''invalid Count''
          else if cr_Strategy r = SlowRequestRatio \<and> flt (Fin 1) (cr_Threshold r)
            then Some ''invalid slow request ratio threshold''
          else if cr_Strategy r = ErrorRatio \<and> flt (Fin 1) (cr_Threshold r)
            then Some ''invalid error ratio threshold''
          else None)"

text \<open>The valid rules of a slice, in order; none of them is nil.\<close>

definition cb_valid_rules :: "cb_rule option list \<Rightarrow> cb_rule list" where
  "cb_valid_rules rules = List.map_filter (\<lambda>r. if cb_IsValidRule r = None then r else None) rules"

definition cb_rulesFrom :: "(string, cb_rule list) gomap \<Rightarrow> cb_rule list" where
  "cb_rulesFrom rm = concat (map snd rm)"

definition cb_GetRulesOfResource :: "string \<Rightarrow> cb_manager \<Rightarrow> cb_rule list" where
  "cb_GetRulesOfResource resource m = mget_list (breakerRules m) resource"

definition cb_GetRules :: "cb_manager \<Rightarrow> cb_rule list" where
  "cb_GetRules m = cb_rulesFrom (breakerRules m)"

definition getBreakersOfResource :: "string \<Rightarrow> cb_manager \<Rightarrow> cb_obj list" where
  "getBreakersOfResource resource m = mget_list (breakers m) resource"

section \<open>Building breakers\<close>

definition cb_calculateReuseIndexFor :: "cb_rule \<Rightarrow> cb_obj list \<Rightarrow> int \<times> int" where
  "cb_calculateReuseIndexFor r oldResCbs =
     reuse_loop (\<lambda>o'. cb_isEqualTo (BoundRule (cb_val o')) (Some r))
       (\<lambda>o'. cb_isStatReusable (BoundRule (cb_val o')) (Some r)) 0 (- 1) oldResCbs"

text \<open>
  The loop of \<open>buildResourceCircuitBreaker\<close>. The counter \<open>nxt\<close> hands out addresses: a new breaker takes
  \<open>nxt\<close>, and its window \<open>nxt + 1\<close> unless it reuses one.
\<close>

fun build_breakers ::
  "(f64 \<Rightarrow> u64) \<Rightarrow> u64 \<Rightarrow> string \<Rightarrow> cb_rule option list \<Rightarrow> cb_obj list \<Rightarrow> cb_obj list \<Rightarrow> nat \<Rightarrow>
   (cb_obj list \<times> nat) go" where
  "build_breakers oor now res [] oldResCbs newCbs nxt = Ret (newCbs, nxt)"
| "build_breakers oor now res (None # rs) oldResCbs newCbs nxt = Panic ''nil pointer dereference''"
| "build_breakers oor now res (Some r # rs) oldResCbs newCbs nxt =
     (if res \<noteq> cr_Resource r then build_breakers oor now res rs oldResCbs newCbs nxt
      else let (equalIdx, reuseStatIdx) = cb_calculateReuseIndexFor r oldResCbs in
        if 0 \<le> equalIdx then
          build_breakers oor now res rs (remove_nth (nat equalIdx) oldResCbs)
            (newCbs @ [oldResCbs ! nat equalIdx]) nxt
        else case cbGenFunc oor (cr_Strategy r) of
            None \<Rightarrow> build_breakers oor now res rs oldResCbs newCbs nxt
          | Some generator \<Rightarrow>
              let reuse = (0 \<le> reuseStatIdx); old = oldResCbs ! nat reuseStatIdx in
              (case generator now (Some r) (if reuse then Some (BoundStat (cb_val old)) else None) of
                 Panic p \<Rightarrow> Panic p
               | Err e \<Rightarrow> build_breakers oor now res rs oldResCbs newCbs nxt
               | Ret cb \<Rightarrow>
                   build_breakers oor now res rs
                     (if reuse then remove_nth (nat reuseStatIdx) oldResCbs else oldResCbs)
                     (newCbs @ [\<lparr>cb_ptr = nxt, stat_ptr = (if reuse then stat_ptr old else Suc nxt), cb_val = cb\<rparr>])
                     (nxt + 2)))"

definition buildResourceCircuitBreaker ::
  "(f64 \<Rightarrow> u64) \<Rightarrow> u64 \<Rightarrow> string \<Rightarrow> cb_rule option list \<Rightarrow> cb_obj list \<Rightarrow> nat \<Rightarrow> (cb_obj list \<times> nat) go" where
  "buildResourceCircuitBreaker oor now res rulesOfRes oldResCbs nxt =
     build_breakers oor now res rulesOfRes oldResCbs [] nxt"

section \<open>Loading rules\<close>

text \<open>
  The result of a load: whether it did anything, and its error. A panic that the handler recovers is
  that error; one outside the handler reaches the caller. State is written only when nothing panics.
\<close>

fun build_all ::
  "(f64 \<Rightarrow> u64) \<Rightarrow> u64 \<Rightarrow> (string \<times> cb_rule list) list \<Rightarrow> (string, cb_obj list) gomap \<Rightarrow>
   (string, cb_obj list) gomap \<Rightarrow> nat \<Rightarrow> ((string, cb_obj list) gomap \<times> nat) go" where
  "build_all oor now [] clone new nxt = Ret (new, nxt)"
| "build_all oor now ((res, resRules) # rest) clone new nxt =
     go_bind (buildResourceCircuitBreaker oor now res (map Some resRules) (mget_list clone res) nxt)
       (\<lambda>(cbs, nxt). build_all oor now rest clone (if cbs = [] then new else mput res cbs new) nxt)"

definition cb_valid_map :: "(string, cb_rule option list) gomap \<Rightarrow> (string, cb_rule list) gomap" where
  "cb_valid_map raw = filter (\<lambda>(res, rs). rs \<noteq> []) (map (\<lambda>(res, rs). (res, cb_valid_rules rs)) raw)"

definition cb_onRuleUpdate ::
  "(f64 \<Rightarrow> u64) \<Rightarrow> u64 \<Rightarrow> (string, cb_rule option list) gomap \<Rightarrow> cb_manager \<Rightarrow> string option \<times> cb_manager" where
  "cb_onRuleUpdate oor now rawResRulesMap m =
     (let validResRulesMap = cb_valid_map rawResRulesMap in
      case build_all oor now validResRulesMap (breakers m) [] (next_ptr m) of
        Ret (newBreakers, nxt) \<Rightarrow>
          (None, m\<lparr>breakerRules := validResRulesMap, breakers := newBreakers,
                   cb_currentRules := rawResRulesMap, next_ptr := nxt\<rparr>)
      | Err e \<Rightarrow> (Some e, m)
      | Panic p \<Rightarrow> (Some p, m))"

definition cb_onResourceRuleUpdate ::
  "(f64 \<Rightarrow> u64) \<Rightarrow> u64 \<Rightarrow> string \<Rightarrow> cb_rule option list \<Rightarrow> cb_manager \<Rightarrow> string option \<times> cb_manager" where
  "cb_onResourceRuleUpdate oor now res rawResRules m =
     (let validResRules = cb_valid_rules rawResRules in
      case buildResourceCircuitBreaker oor now res rawResRules (mget_list (breakers m) res) (next_ptr m) of
        Ret (newCbsOfRes, nxt) \<Rightarrow>
          let m = (if newCbsOfRes = []
                   then m\<lparr>breakerRules := mdel res (breakerRules m), breakers := mdel res (breakers m)\<rparr>
                   else m\<lparr>breakerRules := mput res validResRules (breakerRules m),
                          breakers := mput res newCbsOfRes (breakers m)\<rparr>)
          in (None, m\<lparr>cb_currentRules := mput res rawResRules (cb_currentRules m), next_ptr := nxt\<rparr>)
      | Err e \<Rightarrow> (Some e, m)
      | Panic p \<Rightarrow> (Some p, m))"

text \<open>Grouping by resource dereferences each rule, before the recovering handler is entered.\<close>

fun cb_group :: "cb_rule option list \<Rightarrow> (string, cb_rule option list) gomap \<Rightarrow> (string, cb_rule option list) gomap go" where
  "cb_group [] m = Ret m"
| "cb_group (None # rs) m = Panic ''nil pointer dereference''"
| "cb_group (Some r # rs) m =
     cb_group rs (mput (cr_Resource r) (mget_list m (cr_Resource r) @ [Some r]) m)"

definition cb_LoadRules ::
  "(f64 \<Rightarrow> u64) \<Rightarrow> u64 \<Rightarrow> cb_rule option list \<Rightarrow> cb_manager \<Rightarrow> (bool \<times> string option) go \<times> cb_manager" where
  "cb_LoadRules oor now rules m =
     (case cb_group rules [] of
        Ret resRulesMap \<Rightarrow>
          if meq (cb_currentRules m) resRulesMap then (Ret (False, None), m)
          else let (err, m) = cb_onRuleUpdate oor now resRulesMap m in (Ret (True, err), m)
      | Err e \<Rightarrow> (Err e, m)
      | Panic p \<Rightarrow> (Panic p, m))"

definition cb_ClearRules :: "(f64 \<Rightarrow> u64) \<Rightarrow> u64 \<Rightarrow> cb_manager \<Rightarrow> (bool \<times> string option) go \<times> cb_manager" where
  "cb_ClearRules oor now m = cb_LoadRules oor now [] m"

definition cb_LoadRulesOfResource ::
  "(f64 \<Rightarrow> u64) \<Rightarrow> u64 \<Rightarrow> string \<Rightarrow> cb_rule option list \<Rightarrow> cb_manager \<Rightarrow> (bool \<times> string option) \<times> cb_manager" where
  "cb_LoadRulesOfResource oor now res rules m =
     (if res = [] then ((False, Some ''empty resource''), m)
      else if rules = [] then
        ((True, None), m\<lparr>cb_currentRules := mdel res (cb_currentRules m), breakers := mdel res (breakers m),
                         breakerRules := mdel res (breakerRules m)\<rparr>)
      else if mget_list (cb_currentRules m) res = rules then ((False, None), m)
      else let (err, m) = cb_onResourceRuleUpdate oor now res rules m in ((True, err), m))"

definition cb_ClearRulesOfResource ::
  "(f64 \<Rightarrow> u64) \<Rightarrow> u64 \<Rightarrow> string \<Rightarrow> cb_manager \<Rightarrow> (bool \<times> string option) \<times> cb_manager" where
  "cb_ClearRulesOfResource oor now res m = cb_LoadRulesOfResource oor now res [] m"

section \<open>The slots\<close>

text \<open>
  \<open>clk i\<close> is the reading of the clock in the \<open>i\<close>-th breaker. The objects are those the slice points to,
  after the calls; the last component lists the breakers that added an exit hook to the entry.
\<close>

definition needs_check :: "string \<Rightarrow> cb_rule \<Rightarrow> bool" where
  "needs_check FromService r \<longleftrightarrow>
     \<not> (cr_LimitApp r \<noteq> [] \<and> \<not> EqualFold_default (cr_LimitApp r) \<and>
        \<not> Contains FromService (split_on (CHR '','') (cr_LimitApp r)))"

fun cb_checkPass ::
  "(nat \<Rightarrow> u64) \<Rightarrow> nat \<Rightarrow> string \<Rightarrow> bool \<Rightarrow> cb_obj list \<Rightarrow>
   cb_rule option \<times> cb_obj list \<times> cb_note list \<times> nat list" where
  "cb_checkPass clk i fs he [] = (None, [], [], [])"
| "cb_checkPass clk i fs he (ob # obs) =
     (if \<not> needs_check fs (BoundRule (cb_val ob)) then
        let (r, obs, ns, hs) = cb_checkPass clk (Suc i) fs he obs in (r, ob # obs, ns, hs)
      else
        let (passed, b, ns, h) = TryPass (clk i) he (cb_val ob);
            ob = ob\<lparr>cb_val := b\<rparr>; hooks = (if h then [cb_ptr ob] else [])
        in if \<not> passed then (Some (BoundRule b), ob # obs, ns, hooks)
           else let (r, obs, ms, hs) = cb_checkPass clk (Suc i) fs he obs
                in (r, ob # obs, ns @ ms, hooks @ hs))"

definition set_breakers :: "string \<Rightarrow> cb_obj list \<Rightarrow> cb_manager \<Rightarrow> cb_manager" where
  "set_breakers resource obs m =
     (if mget (breakers m) resource = None then m else m\<lparr>breakers := mput resource obs (breakers m)\<rparr>)"

definition cb_Slot_Check ::
  "(nat \<Rightarrow> u64) \<Rightarrow> string \<Rightarrow> string \<Rightarrow> bool \<Rightarrow> (cb_rule, 's) token_result option \<Rightarrow> cb_manager \<Rightarrow>
   (cb_rule, 's) token_result option \<times> cb_manager \<times> cb_note list \<times> nat list" where
  "cb_Slot_Check clk resource fs he result m =
     (if resource = [] then (result, m, [], [])
      else
        let (blocked, obs, ns, hooks) = cb_checkPass clk 0 fs he (getBreakersOfResource resource m);
            m = set_breakers resource obs m
        in case blocked of
             None \<Rightarrow> (result, m, ns, hooks)
           | Some rule \<Rightarrow>
               let msg = ''circuit breaker check blocked'';
                   result = (case result of
                       None \<Rightarrow> NewTokenResultBlockedWithCause BlockTypeCircuitBreaking msg (Some rule) None
                     | Some r \<Rightarrow> tr_ResetToBlockedWithCause BlockTypeCircuitBreaking msg (Some rule) None r)
               in (Some result, m, ns, hooks))"

text \<open>\<open>clks i\<close>: the three readings of the clock in the \<open>i\<close>-th breaker.\<close>

fun complete_breakers ::
  "(nat \<Rightarrow> u64 \<times> u64 \<times> u64) \<Rightarrow> nat \<Rightarrow> u64 \<Rightarrow> bool \<Rightarrow> cb_obj list \<Rightarrow> cb_obj list \<times> cb_note list" where
  "complete_breakers clks i rt failed [] = ([], [])"
| "complete_breakers clks i rt failed (ob # obs) =
     (let (t1, t2, t3) = clks i;
          (b, ns) = OnRequestComplete t1 t2 t3 rt failed (cb_val ob);
          (obs, ms) = complete_breakers clks (Suc i) rt failed obs
      in (ob\<lparr>cb_val := b\<rparr> # obs, ns @ ms))"

definition cb_OnCompleted ::
  "(nat \<Rightarrow> u64 \<times> u64 \<times> u64) \<Rightarrow> string \<Rightarrow> u64 \<Rightarrow> bool \<Rightarrow> cb_manager \<Rightarrow> cb_manager \<times> cb_note list" where
  "cb_OnCompleted clks res rt failed m =
     (let (obs, ns) = complete_breakers clks 0 rt failed (getBreakersOfResource res m)
      in (set_breakers res obs m, ns))"

end
