(* ===== verification/CBManagerProps.thy ===== *)
theory CBManagerProps
  imports CBManager "HOL-Library.Multiset"
begin

text \<open>
  What the rule manager of the breakers guarantees: no two live breakers share an address or a
  window, a load never fails on valid rules and leaves one breaker per rule, in order, and a reload
  of equal rules keeps the breakers with their state.
\<close>

section \<open>Generators\<close>

lemma NewLeapArray_ok:
  assumes "interval \<noteq> 0" and "n \<noteq> 0" and "interval mod n = 0"
  shows "\<exists>la. NewLeapArray now n interval (Some g) = Ret la"
proof -
  have "interval div n \<noteq> 0"
  proof
    assume "interval div n = 0"
    then have "interval = 0" using assms(2,3) word_mod_div_equality [of interval n] by simp
    with assms(1) show False by simp
  qed
  with assms show ?thesis
    by (simp add: NewLeapArray_def NewAtomicBucketWrapArrayWithTime_def Let_def split: prod.split)
qed

lemma bucket_count_ok:
  "getRuleStatSlidingWindowBucketCount r \<noteq> 0"
  "cr_StatIntervalMs r mod getRuleStatSlidingWindowBucketCount r = 0"
  by (auto simp: getRuleStatSlidingWindowBucketCount_def Let_def)

lemma generator_total:
  assumes "cbGenFunc oor (cr_Strategy r) = Some gen" and "cr_StatIntervalMs r \<noteq> 0"
  shows "\<exists>b. gen now (Some r) reuse = Ret b \<and> BoundRule b = r \<and> CurrentState b = Closed"
proof -
  obtain la :: "slow_counter leap_array" where la:
    "NewLeapArray now (getRuleStatSlidingWindowBucketCount r) (cr_StatIntervalMs r) (Some slow_gen) = Ret la"
    using NewLeapArray_ok [OF assms(2) bucket_count_ok(1,2)] by blast
  obtain lb :: "error_counter leap_array" where lb:
    "NewLeapArray now (getRuleStatSlidingWindowBucketCount r) (cr_StatIntervalMs r) (Some err_gen) = Ret lb"
    using NewLeapArray_ok [OF assms(2) bucket_count_ok(1,2)] by blast
  show ?thesis
    using assms(1)
    by (auto simp: cbGenFunc_def newSlowRtCircuitBreaker_def newErrorRatioCircuitBreaker_def
        newErrorCountCircuitBreaker_def newSlowRtCircuitBreakerWithStat_def
        newErrorRatioCircuitBreakerWithStat_def newErrorCountCircuitBreakerWithStat_def
        la lb Let_def split: if_splits option.splits bound_stat.splits)
qed

section \<open>Building the breakers of a resource\<close>

text \<open>The breaker enforces the rule: it was made for it, or for one the code takes for equal.\<close>

definition enforces :: "cb_rule \<Rightarrow> cb_obj \<Rightarrow> bool" where
  "enforces r ob \<longleftrightarrow> BoundRule (cb_val ob) = r \<or> cb_isEqualTo (BoundRule (cb_val ob)) (Some r)"

definition supported :: "cb_rule \<Rightarrow> bool" where
  "supported r \<longleftrightarrow> cr_Strategy r \<le> ErrorCount"

lemma supported_iff: "supported r \<longleftrightarrow> cbGenFunc oor (cr_Strategy r) \<noteq> None"
proof -
  have "cr_Strategy r \<le> 2 \<longleftrightarrow> cr_Strategy r = 0 \<or> cr_Strategy r = 1 \<or> cr_Strategy r = 2"
  proof
    assume "cr_Strategy r \<le> 2"
    then have "unat (cr_Strategy r) \<le> 2" by (simp add: word_le_nat_alt)
    then have "unat (cr_Strategy r) = 0 \<or> unat (cr_Strategy r) = 1 \<or> unat (cr_Strategy r) = 2" by linarith
    then show "cr_Strategy r = 0 \<or> cr_Strategy r = 1 \<or> cr_Strategy r = 2"
      by (simp add: word_unat_eq_iff)
  qed (auto simp: word_le_nat_alt)
  then show ?thesis by (auto simp: supported_def cbGenFunc_def strategy_defs)
qed

lemma reuse_indices:
  assumes "cb_calculateReuseIndexFor r obs = (e, s)"
  shows "0 \<le> e \<Longrightarrow> nat e < length obs \<and> cb_isEqualTo (BoundRule (cb_val (obs ! nat e))) (Some r)"
    and "0 \<le> s \<Longrightarrow> nat s < length obs \<and> cb_isStatReusable (BoundRule (cb_val (obs ! nat s))) (Some r)"
  using reuse_loop_range [OF assms [unfolded cb_calculateReuseIndexFor_def]] by auto

lemma generator_bound: "cbGenFunc oor t = Some gen \<Longrightarrow> gen now (Some r) reuse = Ret b \<Longrightarrow> BoundRule b = r"
  by (auto simp: cbGenFunc_def newSlowRtCircuitBreaker_def newErrorRatioCircuitBreaker_def
      newErrorCountCircuitBreaker_def newSlowRtCircuitBreakerWithStat_def
      newErrorRatioCircuitBreakerWithStat_def newErrorCountCircuitBreakerWithStat_def
      Let_def go_bind_Ret_iff split: if_splits option.splits bound_stat.splits)

text \<open>One round of the loop, as a move on the old objects, the new ones and the next address.\<close>

inductive build_move ::
  "cb_rule \<Rightarrow> cb_obj list \<times> cb_obj list \<times> nat \<Rightarrow> cb_obj list \<times> cb_obj list \<times> nat \<Rightarrow> bool" for r where
  skip: "build_move r (obs, new, nxt) (obs, new, nxt)"
| equal: "i < length obs \<Longrightarrow> cb_isEqualTo (BoundRule (cb_val (obs ! i))) (Some r) \<Longrightarrow>
    build_move r (obs, new, nxt) (remove_nth i obs, new @ [obs ! i], nxt)"
| reused: "i < length obs \<Longrightarrow> cb_isStatReusable (BoundRule (cb_val (obs ! i))) (Some r) \<Longrightarrow> BoundRule b = r \<Longrightarrow>
    build_move r (obs, new, nxt)
      (remove_nth i obs, new @ [\<lparr>cb_ptr = nxt, stat_ptr = stat_ptr (obs ! i), cb_val = b\<rparr>], nxt + 2)"
| fresh: "BoundRule b = r \<Longrightarrow>
    build_move r (obs, new, nxt) (obs, new @ [\<lparr>cb_ptr = nxt, stat_ptr = Suc nxt, cb_val = b\<rparr>], nxt + 2)"

inductive_cases build_moveE: "build_move r (obs, new, nxt) (obs', new', nxt')"

lemma build_round:
  assumes "build_breakers oor now res (Some r # rs) obs new nxt = out"
  shows "(\<exists>p. out = Panic p) \<or>
    (\<exists>obs' new' nxt'. build_move r (obs, new, nxt) (obs', new', nxt') \<and>
       (new' \<noteq> new \<longrightarrow> cr_Resource r = res) \<and> build_breakers oor now res rs obs' new' nxt' = out)"
proof (cases "cr_Resource r = res")
  case False
  with assms show ?thesis by (auto intro: build_move.skip)
next
  case True
  have move: ?thesis if "build_move r (obs, new, nxt) (obs', new', nxt')"
    "build_breakers oor now res rs obs' new' nxt' = out" for obs' new' nxt'
    using that True by blast
  obtain e s where es: "cb_calculateReuseIndexFor r obs = (e, s)" by fastforce
  show ?thesis
  proof (cases "0 \<le> e")
    case True
    with assms \<open>cr_Resource r = res\<close> reuse_indices(1) [OF es] show ?thesis
      by (auto simp: es intro!: build_move.equal exI)
  next
    case False
    show ?thesis
    proof (cases "cbGenFunc oor (cr_Strategy r)")
      case None
      with assms True es False show ?thesis by (intro move [OF build_move.skip]) simp
    next
      case (Some gen)
      let ?reuse = "if 0 \<le> s then Some (BoundStat (cb_val (obs ! nat s))) else None"
      show ?thesis
      proof (cases "gen now (Some r) ?reuse")
        case (Ret b)
        note bound = generator_bound [OF Some Ret]
        show ?thesis
        proof (cases "0 \<le> s")
          case s: True
          have "build_move r (obs, new, nxt) (remove_nth (nat s) obs,
              new @ [\<lparr>cb_ptr = nxt, stat_ptr = stat_ptr (obs ! nat s), cb_val = b\<rparr>], nxt + 2)"
            using reuse_indices(2) [OF es s] bound by (intro build_move.reused) simp_all
          then show ?thesis by (rule move) (use assms True es False Some Ret s in simp)
        next
          case s: False
          have "build_move r (obs, new, nxt)
              (obs, new @ [\<lparr>cb_ptr = nxt, stat_ptr = Suc nxt, cb_val = b\<rparr>], nxt + 2)"
            using bound by (rule build_move.fresh)
          then show ?thesis by (rule move) (use assms True es False Some Ret s in simp)
        qed
      next
        case (Err e)
        with assms True es False Some show ?thesis by (intro move [OF build_move.skip]) simp
      next
        case (Panic p)
        with assms True es False Some show ?thesis by auto
      qed
    qed
  qed
qed

section \<open>Addresses\<close>

text \<open>The addresses under \<open>f\<close>: distinct, below the next free one, and old ones or fresh ones.\<close>

definition addr_ok :: "(cb_obj \<Rightarrow> nat) \<Rightarrow> nat \<Rightarrow> nat set \<Rightarrow> cb_obj list \<times> cb_obj list \<times> nat \<Rightarrow> bool" where
  "addr_ok f n0 S st = (case st of (obs, new, nxt) \<Rightarrow>
     distinct (map f (new @ obs)) \<and> n0 \<le> nxt \<and>
     (\<forall>ob \<in> set (new @ obs). f ob < nxt \<and> (f ob \<in> S \<or> n0 \<le> f ob)))"

lemma addr_ok_parts:
  "addr_ok f n0 S (obs, new, nxt) \<longleftrightarrow>
     distinct (map f new) \<and> distinct (map f obs) \<and> f ` set new \<inter> f ` set obs = {} \<and> n0 \<le> nxt \<and>
     (\<forall>ob \<in> set new \<union> set obs. f ob < nxt \<and> (f ob \<in> S \<or> n0 \<le> f ob))"
  by (auto simp: addr_ok_def)

lemma addr_ok_take:
  assumes ok: "addr_ok f n0 S (obs, new, nxt)" and i: "i < length obs" and ob: "f ob = f (obs ! i)"
  shows "addr_ok f n0 S (remove_nth i obs, new @ [ob], nxt)"
proof -
  have d: "distinct (map f obs)" using ok by (simp add: addr_ok_parts)
  have m: "f (obs ! i) \<in> f ` set obs" "obs ! i \<in> set obs" using i by simp_all
  note rm = distinct_remove_nth [OF d i]
  have sub: "f ` set (remove_nth i obs) \<subseteq> f ` set obs" by (rule image_mono [OF set_remove_nth])
  have nin: "f ob \<notin> f ` set new" using ok m(1) ob by (auto simp: addr_ok_parts)
  have dis: "f ` set (new @ [ob]) \<inter> f ` set (remove_nth i obs) = {}"
    using ok sub rm(2) ob by (auto simp: addr_ok_parts)
  have bnd: "\<forall>o' \<in> set (new @ [ob]) \<union> set (remove_nth i obs). f o' < nxt \<and> (f o' \<in> S \<or> n0 \<le> f o')"
    using ok m(2) ob set_remove_nth [of i obs] by (auto simp: addr_ok_parts)
  show ?thesis
    unfolding addr_ok_parts using ok nin rm(1) dis bnd by (simp add: addr_ok_parts)
qed

lemma addr_ok_more: "addr_ok f n0 S (obs, new, nxt) \<Longrightarrow> nxt \<le> nxt' \<Longrightarrow> addr_ok f n0 S (obs, new, nxt')"
  by (force simp: addr_ok_parts)

lemma addr_ok_new:
  "addr_ok f n0 S (obs, new, nxt) \<Longrightarrow> nxt \<le> f ob \<Longrightarrow> f ob < nxt' \<Longrightarrow> addr_ok f n0 S (obs, new @ [ob], nxt')"
  by (force simp: addr_ok_parts)

lemma addr_ok_remove: "addr_ok f n0 S (obs, new, nxt) \<Longrightarrow> i < length obs \<Longrightarrow> addr_ok f n0 S (remove_nth i obs, new, nxt)"
  using distinct_remove_nth(1) [of f obs i] set_remove_nth [of i obs] by (force simp: addr_ok_parts)

lemma build_move_addr:
  assumes "build_move r st st'" and "addr_ok f n0 S st" and "f = cb_ptr \<or> f = stat_ptr"
  shows "addr_ok f n0 S st'"
  using assms
proof (induction rule: build_move.induct)
  case (skip obs new nxt)
  then show ?case by simp
next
  case (equal i obs new nxt)
  then show ?case by (intro addr_ok_take) simp_all
next
  case (reused i obs b new nxt)
  let ?ob = "\<lparr>cb_ptr = nxt, stat_ptr = stat_ptr (obs ! i), cb_val = b\<rparr>"
  from reused.prems(2) show ?case
  proof
    assume f: "f = cb_ptr"
    show ?thesis
      by (rule addr_ok_new [OF addr_ok_remove [OF reused.prems(1) reused.hyps(1)]]) (simp_all add: f)
  next
    assume f: "f = stat_ptr"
    show ?thesis
      by (rule addr_ok_more [OF addr_ok_take [OF reused.prems(1) reused.hyps(1)]]) (simp_all add: f)
  qed
next
  case (fresh b obs new nxt)
  then show ?case by (intro addr_ok_new) auto
qed

lemma build_addr:
  assumes "build_breakers oor now res rs obs new nxt = Ret (cbs, nxt')"
    and "addr_ok f n0 S (obs, new, nxt)" and "f = cb_ptr \<or> f = stat_ptr"
  shows "addr_ok f n0 S ([], cbs, nxt')"
  using assms
proof (induction rs arbitrary: obs new nxt)
  case Nil
  then show ?case by (auto simp: addr_ok_def)
next
  case (Cons r rs)
  show ?case
  proof (cases r)
    case None
    with Cons.prems show ?thesis by simp
  next
    case (Some r')
    obtain obs' new' n where m: "build_move r' (obs, new, nxt) (obs', new', n)"
      "build_breakers oor now res rs obs' new' n = Ret (cbs, nxt')"
      using build_round [OF Cons.prems(1) [unfolded Some]] by auto
    from Cons.IH [OF m(2) build_move_addr [OF m(1) Cons.prems(2,3)] Cons.prems(3)] show ?thesis .
  qed
qed

text \<open>Every new object is bound to a rule of the resource.\<close>

lemma build_resource:
  assumes "build_breakers oor now res rs obs new nxt = Ret (cbs, nxt')"
    and "\<forall>ob \<in> set (new @ obs). cr_Resource (BoundRule (cb_val ob)) = res"
  shows "\<forall>ob \<in> set cbs. cr_Resource (BoundRule (cb_val ob)) = res"
  using assms
proof (induction rs arbitrary: obs new nxt)
  case Nil
  then show ?case by simp
next
  case (Cons r rs)
  show ?case
  proof (cases r)
    case None
    with Cons.prems show ?thesis by simp
  next
    case (Some r')
    obtain obs' new' n where m: "build_move r' (obs, new, nxt) (obs', new', n)"
      "new' \<noteq> new \<longrightarrow> cr_Resource r' = res"
      "build_breakers oor now res rs obs' new' n = Ret (cbs, nxt')"
      using build_round [OF Cons.prems(1) [unfolded Some]] by auto
    have "\<forall>ob \<in> set (new' @ obs'). cr_Resource (BoundRule (cb_val ob)) = res"
      using m(1,2) Cons.prems(2) by (elim build_moveE) (auto dest: subsetD [OF set_remove_nth])
    from Cons.IH [OF m(3) this] show ?thesis .
  qed
qed

section \<open>The objects of a map of slices\<close>

definition objs :: "(string, 'o list) gomap \<Rightarrow> 'o list" where
  "objs m = concat (map snd m)"

lemma mset_objs_del: "mwf m \<Longrightarrow> mset (objs m) = mset (objs (mdel k m)) + mset (mget_list m k)"
proof (induction m)
  case Nil
  then show ?case by (simp add: objs_def mdel_def mget_list_def)
next
  case (Cons kv m)
  obtain k' v where kv: "kv = (k', v)" by fastforce
  show ?case
  proof (cases "k' = k")
    case True
    with Cons.prems have "k \<notin> fst ` set m" by (simp add: mwf_def kv)
    then have "mdel k m = m" by (auto simp: mdel_def filter_id_conv)
    with True show ?thesis by (simp add: kv objs_def mdel_def mget_list_def mget_def)
  next
    case False
    with Cons show ?thesis by (simp add: kv objs_def mdel_def mget_list_def mget_def mwf_def)
  qed
qed

lemma mset_objs_put: "mwf m \<Longrightarrow> mset (objs (mput k v m)) = mset (objs (mdel k m)) + mset v"
proof (induction m)
  case Nil
  then show ?case by (simp add: objs_def mdel_def mput_def)
next
  case (Cons kv m)
  obtain k' v' where kv: "kv = (k', v')" by fastforce
  show ?case
  proof (cases "k' = k")
    case True
    with Cons.prems have "k \<notin> fst ` set m" by (simp add: mwf_def kv)
    then have "mdel k m = m" by (auto simp: mdel_def filter_id_conv)
    with True show ?thesis by (simp add: kv objs_def mdel_def mput_def)
  next
    case False
    with Cons show ?thesis by (simp add: kv objs_def mdel_def mput_def mwf_def)
  qed
qed

lemma distinct_map_mset: "mset xs = mset ys \<Longrightarrow> distinct (map f xs) = distinct (map f ys)"
  by (metis mset_eq_imp_distinct_iff mset_map)

lemma set_objs: "ob \<in> set (objs m) \<longleftrightarrow> (\<exists>k obs. (k, obs) \<in> set m \<and> ob \<in> set obs)"
  by (force simp: objs_def)

lemma mwf_mdel: "mwf m \<Longrightarrow> mwf (mdel k m)"
  by (rule gomap.inv_del)

section \<open>The invariant of the manager\<close>

definition addr_inv :: "(cb_obj \<Rightarrow> nat) \<Rightarrow> nat \<Rightarrow> cb_obj list \<Rightarrow> bool" where
  "addr_inv f nxt obs \<longleftrightarrow> distinct (map f obs) \<and> (\<forall>ob \<in> set obs. f ob < nxt)"

definition cb_manager_inv :: "cb_manager \<Rightarrow> bool" where
  "cb_manager_inv m \<longleftrightarrow> mwf (breakers m) \<and>
     addr_inv cb_ptr (next_ptr m) (objs (breakers m)) \<and> addr_inv stat_ptr (next_ptr m) (objs (breakers m)) \<and>
     (\<forall>(res, obs) \<in> set (breakers m). \<forall>ob \<in> set obs. cr_Resource (BoundRule (cb_val ob)) = res)"

lemma addr_inv_mset: "mset xs = mset ys \<Longrightarrow> addr_inv f nxt xs = addr_inv f nxt ys"
  using distinct_map_mset [of xs ys f] mset_eq_setD [of xs ys] by (simp add: addr_inv_def)

lemma addr_inv_append:
  "addr_inv f nxt (xs @ ys) \<longleftrightarrow> addr_inv f nxt xs \<and> addr_inv f nxt ys \<and> f ` set xs \<inter> f ` set ys = {}"
  by (auto simp: addr_inv_def)

text \<open>Replacing the objects of one resource by those built from them.\<close>

lemma build_addr_inv:
  assumes b: "buildResourceCircuitBreaker oor now res rs obs nxt = Ret (cbs, nxt')"
    and inv: "addr_inv f nxt (others @ obs)" and f: "f = cb_ptr \<or> f = stat_ptr"
  shows "addr_inv f nxt' (others @ cbs) \<and> nxt \<le> nxt'"
proof -
  have "addr_ok f nxt (f ` set obs) (obs, [], nxt)"
    using inv by (auto simp: addr_ok_def addr_inv_def)
  then have ok: "addr_ok f nxt (f ` set obs) ([], cbs, nxt')"
    using build_addr b f unfolding buildResourceCircuitBreaker_def by blast
  have dis: "f ` set others \<inter> f ` set cbs = {}"
  proof (rule ccontr)
    assume "f ` set others \<inter> f ` set cbs \<noteq> {}"
    then obtain x y where xy: "x \<in> set others" "y \<in> set cbs" "f x = f y" by force
    have "f x < nxt" using inv xy(1) by (simp add: addr_inv_def)
    moreover have "f y \<in> f ` set obs \<or> nxt \<le> f y" using ok xy(2) by (simp add: addr_ok_def)
    ultimately have "f x \<in> f ` set obs" using xy(3) by auto
    with inv xy(1) show False by (auto simp: addr_inv_append)
  qed
  have n: "nxt \<le> nxt'" and cbs: "addr_inv f nxt' cbs" using ok by (auto simp: addr_ok_def addr_inv_def)
  have "addr_inv f nxt' others" using inv n by (force simp: addr_inv_def)
  with dis cbs n show ?thesis by (simp add: addr_inv_append)
qed

lemma build_resource_bound:
  assumes "buildResourceCircuitBreaker oor now res rs obs nxt = Ret (cbs, nxt')"
    and "\<forall>ob \<in> set obs. cr_Resource (BoundRule (cb_val ob)) = res"
  shows "\<forall>ob \<in> set cbs. cr_Resource (BoundRule (cb_val ob)) = res"
  using build_resource [OF assms(1) [unfolded buildResourceCircuitBreaker_def]] assms(2) by simp

lemma mget_list_bound:
  assumes "\<forall>(res, obs) \<in> set m. \<forall>ob \<in> set obs. P res ob"
  shows "\<forall>ob \<in> set (mget_list m res). P res ob"
proof (cases "mget m res")
  case (Some obs)
  then have "(res, obs) \<in> set m" by (rule mget_in_set)
  with assms Some show ?thesis by (auto simp: mget_list_def)
qed (simp add: mget_list_def)

lemma build_all_inv:
  assumes "build_all oor now vs clone new nxt = Ret (new', nxt')"
    and "mwf new" and "mwf clone" and "distinct (map fst vs)" and "fst ` set new \<inter> fst ` set vs = {}"
    and "addr_inv f nxt (objs new @ concat (map (mget_list clone) (map fst vs)))" and "f = cb_ptr \<or> f = stat_ptr"
  shows "mwf new' \<and> addr_inv f nxt' (objs new')"
  using assms
proof (induction vs arbitrary: new nxt)
  case Nil
  then show ?case by simp
next
  case (Cons v vs)
  obtain res rs where v: "v = (res, rs)" by fastforce
  obtain cbs n where b: "buildResourceCircuitBreaker oor now res (map Some rs) (mget_list clone res) nxt = Ret (cbs, n)"
    and rest: "build_all oor now vs clone (if cbs = [] then new else mput res cbs new) n = Ret (new', nxt')"
    using Cons.prems(1) by (auto simp: v go_bind_Ret_iff)
  let ?new = "if cbs = [] then new else mput res cbs new"
  let ?rest = "concat (map (mget_list clone) (map fst vs))"
  have "addr_inv f nxt ((objs new @ ?rest) @ mget_list clone res)"
    using Cons.prems(6) by (subst addr_inv_mset [of _ "objs new @ mget_list clone res @ ?rest"]) (simp_all add: v)
  then have "addr_inv f n ((objs new @ ?rest) @ cbs)"
    using build_addr_inv [OF b _ Cons.prems(7)] by blast
  moreover have "mset (objs ?new) = mset (objs new) + mset cbs"
  proof (cases "cbs = []")
    case False
    have "res \<notin> fst ` set new" using Cons.prems(5) v by auto
    then have "mdel res new = new" by (auto simp: mdel_def filter_id_conv)
    with False mset_objs_put [OF Cons.prems(2), of res cbs] show ?thesis by simp
  qed simp
  ultimately have inv: "addr_inv f n (objs ?new @ ?rest)"
    by (subst addr_inv_mset [of _ "(objs new @ ?rest) @ cbs"]) (simp_all add: union_ac)
  have wf: "mwf ?new" using Cons.prems(2) gomap.inv_put by auto
  have dis: "fst ` set ?new \<inter> fst ` set vs = {}"
  proof -
    have "fst ` set ?new \<subseteq> insert res (fst ` set new)" by (auto dest!: set_mput)
    moreover have "res \<notin> fst ` set vs" using Cons.prems(4) by (simp add: v)
    moreover have "fst ` set new \<inter> fst ` set vs = {}" using Cons.prems(5) by (auto simp: v)
    ultimately show ?thesis by blast
  qed
  show ?case
    by (rule Cons.IH [OF rest wf Cons.prems(3) _ dis inv Cons.prems(7)]) (use Cons.prems(4) in simp)
qed

lemma build_all_bound:
  assumes "build_all oor now vs clone new nxt = Ret (new', nxt')"
    and "\<forall>(res, obs) \<in> set new. \<forall>ob \<in> set obs. cr_Resource (BoundRule (cb_val ob)) = res"
    and "\<forall>(res, obs) \<in> set clone. \<forall>ob \<in> set obs. cr_Resource (BoundRule (cb_val ob)) = res"
  shows "\<forall>(res, obs) \<in> set new'. \<forall>ob \<in> set obs. cr_Resource (BoundRule (cb_val ob)) = res"
  using assms
proof (induction vs arbitrary: new nxt)
  case Nil
  then show ?case by simp
next
  case (Cons v vs)
  obtain res rs where v: "v = (res, rs)" by fastforce
  obtain cbs n where b: "buildResourceCircuitBreaker oor now res (map Some rs) (mget_list clone res) nxt = Ret (cbs, n)"
    and rest: "build_all oor now vs clone (if cbs = [] then new else mput res cbs new) n = Ret (new', nxt')"
    using Cons.prems(1) by (auto simp: v go_bind_Ret_iff)
  have "\<forall>ob \<in> set (mget_list clone res). cr_Resource (BoundRule (cb_val ob)) = res"
    by (rule mget_list_bound [OF Cons.prems(3)])
  then have cbs: "\<forall>ob \<in> set cbs. cr_Resource (BoundRule (cb_val ob)) = res"
    by (rule build_resource_bound [OF b])
  have "\<forall>(res, obs) \<in> set (if cbs = [] then new else mput res cbs new).
      \<forall>ob \<in> set obs. cr_Resource (BoundRule (cb_val ob)) = res"
    using Cons.prems(2) cbs by (auto dest!: set_mput)
  from Cons.IH [OF rest this Cons.prems(3)] show ?case .
qed

lemma concat_keys_inv:
  assumes "mwf m" and "addr_inv f nxt (objs m)" and "distinct ks"
  shows "addr_inv f nxt (concat (map (mget_list m) ks))"
  using assms
proof (induction ks arbitrary: m)
  case Nil
  then show ?case by (simp add: addr_inv_def)
next
  case (Cons k ks)
  let ?d = "mdel k m"
  have split: "addr_inv f nxt (objs ?d @ mget_list m k)"
    using Cons.prems(2) by (subst addr_inv_mset [of _ "objs m"]) (simp_all add: mset_objs_del [OF Cons.prems(1), of k])
  have eq: "map (mget_list ?d) ks = map (mget_list m) ks"
    using Cons.prems(3) by (auto simp: map_simps)
  have "addr_inv f nxt (concat (map (mget_list ?d) ks))"
    using Cons.IH [OF mwf_mdel [OF Cons.prems(1)]] split Cons.prems(3) by (simp add: addr_inv_append)
  moreover have "set (concat (map (mget_list ?d) ks)) \<subseteq> set (objs ?d)"
    using mget_in_set [of ?d] by (force simp: mget_list_def set_objs split: option.splits)
  ultimately show ?case
    using split by (auto simp: addr_inv_append eq)
qed

lemma distinct_cb_valid_map: "distinct (map fst raw) \<Longrightarrow> distinct (map fst (cb_valid_map raw))"
  unfolding cb_valid_map_def by (rule distinct_map_filter) (simp add: o_def split_beta)

lemma cb_group_mwf: "cb_group rs m = Ret m' \<Longrightarrow> mwf m \<Longrightarrow> mwf m'"
  by (induction rs m rule: cb_group.induct) (auto simp: gomap.inv_put)

lemma onRuleUpdate_inv:
  assumes "cb_manager_inv m" and "mwf raw"
  shows "cb_manager_inv (snd (cb_onRuleUpdate oor now raw m))"
proof (cases "build_all oor now (cb_valid_map raw) (breakers m) [] (next_ptr m)")
  case (Ret out)
  obtain new nxt where out: "out = (new, nxt)" by fastforce
  note b = Ret [unfolded out]
  have wf: "mwf (breakers m)" using assms(1) by (simp add: cb_manager_inv_def)
  have d: "distinct (map fst (cb_valid_map raw))"
    using assms(2) by (intro distinct_cb_valid_map) (simp add: mwf_def)
  have "mwf new \<and> addr_inv f nxt (objs new)" if f: "f = cb_ptr \<or> f = stat_ptr" for f
  proof -
    have "addr_inv f (next_ptr m) (objs (breakers m))"
      using assms(1) f by (auto simp: cb_manager_inv_def)
    then have "addr_inv f (next_ptr m) (concat (map (mget_list (breakers m)) (map fst (cb_valid_map raw))))"
      by (rule concat_keys_inv [OF wf _ d])
    then show ?thesis
      by (intro build_all_inv [OF b _ wf d _ _ f]) (simp_all add: objs_def)
  qed
  note inv = this
  have "\<forall>(res, obs) \<in> set new. \<forall>ob \<in> set obs. cr_Resource (BoundRule (cb_val ob)) = res"
    by (rule build_all_bound [OF b]) (use assms(1) in \<open>simp_all add: cb_manager_inv_def\<close>)
  then show ?thesis
    using inv [of cb_ptr] inv [of stat_ptr] by (simp add: cb_onRuleUpdate_def b cb_manager_inv_def)
qed (use assms in \<open>simp_all add: cb_onRuleUpdate_def\<close>)

lemma LoadRules_inv:
  assumes "cb_manager_inv m"
  shows "cb_manager_inv (snd (cb_LoadRules oor now rules m))"
proof (cases "cb_group rules []")
  case (Ret g)
  then have "mwf g" by (rule cb_group_mwf) simp
  with assms onRuleUpdate_inv show ?thesis by (simp add: cb_LoadRules_def Ret split_beta)
qed (use assms in \<open>simp_all add: cb_LoadRules_def\<close>)

text \<open>Dropping or replacing the objects of one resource.\<close>

lemma inv_drop:
  assumes "cb_manager_inv m" and "breakers m' = mdel res (breakers m)" and "next_ptr m \<le> next_ptr m'"
  shows "cb_manager_inv m'"
proof -
  have "addr_inv f (next_ptr m') (objs (mdel res (breakers m)))" if "addr_inv f (next_ptr m) (objs (breakers m))" for f
  proof -
    have "mset (objs (breakers m)) = mset (objs (mdel res (breakers m)) @ mget_list (breakers m) res)"
      using assms(1) by (simp add: cb_manager_inv_def mset_objs_del)
    then have "addr_inv f (next_ptr m) (objs (mdel res (breakers m)))"
      using that addr_inv_mset addr_inv_append by metis
    with assms(3) show ?thesis by (force simp: addr_inv_def)
  qed
  note inv = this
  have "\<forall>(r, obs) \<in> set (mdel res (breakers m)). \<forall>ob \<in> set obs. cr_Resource (BoundRule (cb_val ob)) = r"
    using assms(1) set_mdel [of res "breakers m"] unfolding cb_manager_inv_def by blast
  then show ?thesis
    using assms inv [of cb_ptr] inv [of stat_ptr] by (simp add: cb_manager_inv_def mwf_mdel)
qed

lemma inv_replace:
  assumes "cb_manager_inv m" and "breakers m' = mput res cbs (breakers m)"
    and "\<And>f. f = cb_ptr \<or> f = stat_ptr \<Longrightarrow>
      addr_inv f (next_ptr m) (objs (mdel res (breakers m)) @ mget_list (breakers m) res) \<Longrightarrow>
      addr_inv f (next_ptr m') (objs (mdel res (breakers m)) @ cbs)"
    and "\<forall>ob \<in> set cbs. cr_Resource (BoundRule (cb_val ob)) = res"
  shows "cb_manager_inv m'"
proof -
  have wf: "mwf (breakers m)" using assms(1) by (simp add: cb_manager_inv_def)
  have "addr_inv f (next_ptr m') (objs (mput res cbs (breakers m)))"
    if f: "f = cb_ptr \<or> f = stat_ptr" and inv: "addr_inv f (next_ptr m) (objs (breakers m))" for f
  proof -
    have "mset (objs (breakers m)) = mset (objs (mdel res (breakers m)) @ mget_list (breakers m) res)"
      using wf by (simp add: mset_objs_del)
    then have "addr_inv f (next_ptr m') (objs (mdel res (breakers m)) @ cbs)"
      using assms(3) [OF f] inv addr_inv_mset by metis
    moreover have "mset (objs (mput res cbs (breakers m))) = mset (objs (mdel res (breakers m)) @ cbs)"
      using wf by (simp add: mset_objs_put)
    ultimately show ?thesis using addr_inv_mset by metis
  qed
  then show ?thesis
    using assms(1,2,4) wf by (auto simp: cb_manager_inv_def gomap.inv_put dest!: set_mput)
qed

lemma onResourceRuleUpdate_inv:
  assumes inv: "cb_manager_inv m"
  shows "cb_manager_inv (snd (cb_onResourceRuleUpdate oor now res rules m))"
proof (cases "buildResourceCircuitBreaker oor now res rules (mget_list (breakers m) res) (next_ptr m)")
  case (Ret out)
  obtain cbs nxt where out: "out = (cbs, nxt)" by fastforce
  note b = Ret [unfolded out]
  have wf: "mwf (breakers m)" and bound: "\<forall>(r, obs) \<in> set (breakers m).
      \<forall>ob \<in> set obs. cr_Resource (BoundRule (cb_val ob)) = r"
    and a: "addr_inv cb_ptr (next_ptr m) (objs (breakers m))"
    using inv by (simp_all add: cb_manager_inv_def)
  have cbs: "\<forall>ob \<in> set cbs. cr_Resource (BoundRule (cb_val ob)) = res"
    by (rule build_resource_bound [OF b mget_list_bound [OF bound]])
  have "addr_inv cb_ptr (next_ptr m) (objs (mdel res (breakers m)) @ mget_list (breakers m) res)"
    using a by (subst addr_inv_mset [of _ "objs (breakers m)"]) (simp_all add: mset_objs_del [OF wf, of res])
  then have le: "next_ptr m \<le> nxt" using build_addr_inv [OF b] by blast
  show ?thesis
  proof (cases "cbs = []")
    case True
    with b show ?thesis
      by (intro inv_drop [OF inv, of _ res]) (simp_all add: cb_onResourceRuleUpdate_def le)
  next
    case False
    let ?m = "snd (cb_onResourceRuleUpdate oor now res rules m)"
    have m: "breakers ?m = mput res cbs (breakers m)" "next_ptr ?m = nxt"
      using b False by (simp_all add: cb_onResourceRuleUpdate_def Let_def)
    show ?thesis
      by (rule inv_replace [OF inv m(1) _ cbs]) (use build_addr_inv [OF b] m(2) in blast)
  qed
qed (use inv in \<open>simp_all add: cb_onResourceRuleUpdate_def\<close>)

lemma LoadRulesOfResource_inv:
  assumes "cb_manager_inv m"
  shows "cb_manager_inv (snd (cb_LoadRulesOfResource oor now res rules m))"
proof -
  have "cb_manager_inv (m\<lparr>cb_currentRules := c, breakers := mdel res (breakers m), breakerRules := d\<rparr>)" for c d
    by (rule inv_drop [OF assms, of _ res]) simp_all
  then show ?thesis
    using assms onResourceRuleUpdate_inv [OF assms]
    by (simp add: cb_LoadRulesOfResource_def split_beta)
qed

section \<open>Requests keep the objects\<close>

definition same_objs :: "cb_obj list \<Rightarrow> cb_obj list \<Rightarrow> bool" where
  "same_objs xs ys \<longleftrightarrow> map cb_ptr xs = map cb_ptr ys \<and> map stat_ptr xs = map stat_ptr ys \<and>
     map (\<lambda>o'. BoundRule (cb_val o')) xs = map (\<lambda>o'. BoundRule (cb_val o')) ys"

lemma same_objs_refl [simp]: "same_objs xs xs"
  by (simp add: same_objs_def)

lemma base_view_rule: "cb_rule_of (base_view b) = BoundRule b"
  by (cases b) simp_all

lemma complete_step_rule: "complete_step t v b = (b', ns) \<Longrightarrow> cb_rule_of b' = cb_rule_of b"
  by (cases v; cases "cb_state_of b") (auto simp: transition_defs Let_def split: if_splits option.splits)

lemma TryPass_rule:
  assumes "TryPass now he b = (ok, b', ns, h)"
  shows "BoundRule b' = BoundRule b"
  using try_pass_frame [OF cb_machine.tp_base [OF assms]]
  by (auto simp flip: base_view_rule)

lemma OnRequestComplete_rule:
  assumes "OnRequestComplete t1 t2 t3 rt failed b = (b', ns)"
  shows "BoundRule b' = BoundRule b"
  using complete_step_rule [OF cb_machine.oc_base [OF assms]] by (simp add: base_view_rule)

lemma checkPass_same: "cb_checkPass clk i fs he obs = (r, obs', ns, hs) \<Longrightarrow> same_objs obs' obs"
proof (induction clk i fs he obs arbitrary: r obs' ns hs rule: cb_checkPass.induct)
  case (1 clk i fs he)
  then show ?case by simp
next
  case (2 clk i fs he ob obs)
  obtain r1 obs1 ns1 hs1 where rec: "cb_checkPass clk (Suc i) fs he obs = (r1, obs1, ns1, hs1)"
    by (metis prod_cases4)
  obtain ok b ms h where t: "TryPass (clk i) he (cb_val ob) = (ok, b, ms, h)" by (metis prod_cases4)
  show ?case
    using 2 rec t TryPass_rule [OF t] by (auto simp: Let_def same_objs_def split: if_splits)
qed

lemma complete_same: "complete_breakers clks i rt failed obs = (obs', ns) \<Longrightarrow> same_objs obs' obs"
proof (induction clks i rt failed obs arbitrary: obs' ns rule: complete_breakers.induct)
  case (1 clks i rt failed)
  then show ?case by simp
next
  case (2 clks i rt failed ob obs)
  obtain t1 t2 t3 where c: "clks i = (t1, t2, t3)" by (metis prod_cases3)
  obtain b ms where t: "OnRequestComplete t1 t2 t3 rt failed (cb_val ob) = (b, ms)" by fastforce
  obtain obs1 ns1 where rec: "complete_breakers clks (Suc i) rt failed obs = (obs1, ns1)" by fastforce
  show ?case
    using 2 c t rec OnRequestComplete_rule [OF t] by (auto simp: same_objs_def)
qed

lemma set_breakers_inv:
  assumes inv: "cb_manager_inv m" and same: "same_objs obs (getBreakersOfResource res m)"
  shows "cb_manager_inv (set_breakers res obs m)"
proof (cases "mget (breakers m) res")
  case None
  with inv show ?thesis by (simp add: set_breakers_def)
next
  case (Some old)
  have s: "map cb_ptr obs = map cb_ptr (mget_list (breakers m) res)"
    "map stat_ptr obs = map stat_ptr (mget_list (breakers m) res)"
    "map (\<lambda>o'. BoundRule (cb_val o')) obs = map (\<lambda>o'. BoundRule (cb_val o')) (mget_list (breakers m) res)"
    using same by (simp_all add: same_objs_def getBreakersOfResource_def)
  have bound: "\<forall>(r, obs) \<in> set (breakers m). \<forall>ob \<in> set obs. cr_Resource (BoundRule (cb_val ob)) = r"
    using inv by (simp add: cb_manager_inv_def)
  have "set (map (\<lambda>o'. BoundRule (cb_val o')) obs) = set (map (\<lambda>o'. BoundRule (cb_val o')) (mget_list (breakers m) res))"
    by (simp only: s(3))
  then have "\<forall>ob \<in> set obs. cr_Resource (BoundRule (cb_val ob)) = res"
    using mget_list_bound [OF bound, of res] by (auto simp: image_iff set_eq_iff) metis
  moreover have "addr_inv f n (xs @ obs) = addr_inv f n (xs @ mget_list (breakers m) res)"
    if "f = cb_ptr \<or> f = stat_ptr" for f n xs
  proof -
    have e: "map f obs = map f (mget_list (breakers m) res)" using that s(1,2) by auto
    then have "f ` set obs = f ` set (mget_list (breakers m) res)" by (metis set_map)
    then have "addr_inv f n obs = addr_inv f n (mget_list (breakers m) res)"
      using e by (auto simp: addr_inv_def) (metis imageI image_iff)+
    with \<open>f ` set obs = f ` set (mget_list (breakers m) res)\<close> show ?thesis by (simp add: addr_inv_append)
  qed
  ultimately show ?thesis
    using Some by (intro inv_replace [OF inv, of _ res obs]) (simp_all add: set_breakers_def)
qed

text \<open>
  C8: The rule manager never lets two live breakers share their object or their statistic window, and
  files every breaker under the resource of its rule: whatever rules are loaded, for all resources
  or for one, valid or not, and whatever requests are checked or complete. A window that is reused
  belongs to the new breaker alone.
\<close>

theorem cb_manager_no_sharing:
  assumes "cb_manager_inv m"
  shows "cb_manager_inv (snd (cb_LoadRules oor now rules m)) \<and>
    cb_manager_inv (snd (cb_LoadRulesOfResource oor now res rules m)) \<and>
    cb_manager_inv (fst (snd (cb_Slot_Check clk res fs he result m))) \<and>
    cb_manager_inv (fst (cb_OnCompleted clks res rt failed m))"
proof -
  obtain r obs ns hs where c: "cb_checkPass clk 0 fs he (getBreakersOfResource res m) = (r, obs, ns, hs)"
    by (metis prod_cases4)
  obtain obs' ns' where d: "complete_breakers clks 0 rt failed (getBreakersOfResource res m) = (obs', ns')"
    by fastforce
  show ?thesis
    using assms LoadRules_inv LoadRulesOfResource_inv set_breakers_inv [OF assms checkPass_same [OF c]]
      set_breakers_inv [OF assms complete_same [OF d]]
    by (simp add: cb_Slot_Check_def c cb_OnCompleted_def d Let_def split: option.split)
qed

section \<open>What a load leaves behind\<close>

definition cb_buildable :: "string \<Rightarrow> cb_rule \<Rightarrow> bool" where
  "cb_buildable res r \<longleftrightarrow> cr_Resource r = res \<and> supported r"

lemma isEqualTo_supported: "cb_isEqualTo r (Some r') \<Longrightarrow> supported r'"
  by (auto simp: cb_isEqualTo_def supported_def strategy_defs word_le_nat_alt split: if_splits)

lemma build_skip:
  assumes "\<not> cb_buildable res r"
  shows "build_breakers oor now res (Some r # rs) obs new nxt = build_breakers oor now res rs obs new nxt"
proof (cases "cr_Resource r = res")
  case True
  with assms have ns: "\<not> supported r" by (simp add: cb_buildable_def)
  then have gen: "cbGenFunc oor (cr_Strategy r) = None" using supported_iff by blast
  obtain e s where es: "cb_calculateReuseIndexFor r obs = (e, s)" by fastforce
  have "\<not> 0 \<le> e" using reuse_indices(1) [OF es] isEqualTo_supported ns by blast
  with True gen es show ?thesis by simp
qed simp

lemma build_one:
  assumes "cb_buildable res r" and "cr_StatIntervalMs r \<noteq> 0"
  shows "\<exists>ob obs' nxt'. enforces r ob \<and>
    build_breakers oor now res (Some r # rs) obs new nxt = build_breakers oor now res rs obs' (new @ [ob]) nxt'"
proof -
  have r: "cr_Resource r = res" "supported r" using assms(1) by (simp_all add: cb_buildable_def)
  obtain gen where gen: "cbGenFunc oor (cr_Strategy r) = Some gen" using r(2) supported_iff by blast
  obtain e s where es: "cb_calculateReuseIndexFor r obs = (e, s)" by fastforce
  show ?thesis
  proof (cases "0 \<le> e")
    case True
    then have "enforces r (obs ! nat e)" using reuse_indices(1) [OF es] by (simp add: enforces_def)
    moreover have "build_breakers oor now res (Some r # rs) obs new nxt =
        build_breakers oor now res rs (remove_nth (nat e) obs) (new @ [obs ! nat e]) nxt"
      using True r(1) es by simp
    ultimately show ?thesis by blast
  next
    case False
    obtain b where b: "gen now (Some r) (if 0 \<le> s then Some (BoundStat (cb_val (obs ! nat s))) else None) = Ret b"
      "BoundRule b = r"
      using generator_total [OF gen assms(2)] by blast
    let ?ob = "\<lparr>cb_ptr = nxt, stat_ptr = (if 0 \<le> s then stat_ptr (obs ! nat s) else Suc nxt), cb_val = b\<rparr>"
    have "build_breakers oor now res (Some r # rs) obs new nxt =
        build_breakers oor now res rs (if 0 \<le> s then remove_nth (nat s) obs else obs) (new @ [?ob]) (nxt + 2)"
      using r(1) es False gen b(1) by (simp add: Let_def)
    moreover have "enforces r ?ob" using b(2) by (simp add: enforces_def)
    ultimately show ?thesis by blast
  qed
qed

lemma build_total:
  assumes "\<forall>r \<in> set rs. cr_StatIntervalMs r \<noteq> 0"
  shows "\<exists>cbs nxt'. build_breakers oor now res (map Some rs) obs new nxt = Ret (new @ cbs, nxt') \<and>
    list_all2 enforces (filter (cb_buildable res) rs) cbs"
  using assms
proof (induction rs arbitrary: obs new nxt)
  case Nil
  then show ?case by simp
next
  case (Cons r rs)
  show ?case
  proof (cases "cb_buildable res r")
    case False
    then show ?thesis using Cons build_skip by simp
  next
    case True
    obtain ob obs' n where o: "enforces r ob"
      "build_breakers oor now res (Some r # map Some rs) obs new nxt =
       build_breakers oor now res (map Some rs) obs' (new @ [ob]) n"
      using build_one [OF True] Cons.prems by (meson list.set_intros(1))
    obtain cbs nxt' where c: "build_breakers oor now res (map Some rs) obs' (new @ [ob]) n = Ret ((new @ [ob]) @ cbs, nxt')"
      "list_all2 enforces (filter (cb_buildable res) rs) cbs"
      using Cons.IH [of obs' "new @ [ob]" n] Cons.prems by auto
    then have "build_breakers oor now res (map Some (r # rs)) obs new nxt = Ret (new @ (ob # cbs), nxt')"
      using o(2) by simp
    moreover have "list_all2 enforces (filter (cb_buildable res) (r # rs)) (ob # cbs)"
      using True o(1) c(2) by simp
    ultimately show ?thesis by blast
  qed
qed

text \<open>The breakers of every resource enforce its rules, one to one and in order.\<close>

definition breakers_match :: "(string, cb_rule list) gomap \<Rightarrow> (string, cb_obj list) gomap \<Rightarrow> bool" where
  "breakers_match rules brs \<longleftrightarrow>
     (\<forall>res. list_all2 enforces (filter (cb_buildable res) (mget_list rules res)) (mget_list brs res))"

lemma build_all_total:
  assumes "\<forall>(res, rs) \<in> set vs. \<forall>r \<in> set rs. cr_StatIntervalMs r \<noteq> 0" and "mwf vs"
    and "fst ` set new \<inter> fst ` set vs = {}"
  shows "\<exists>new' nxt'. build_all oor now vs clone new nxt = Ret (new', nxt') \<and>
    (\<forall>res. if mget vs res = None then mget_list new' res = mget_list new res
       else list_all2 enforces (filter (cb_buildable res) (mget_list vs res)) (mget_list new' res))"
  using assms
proof (induction vs arbitrary: new nxt)
  case Nil
  then show ?case by simp
next
  case (Cons v vs)
  obtain res rs where v: "v = (res, rs)" by fastforce
  obtain cbs n where b: "buildResourceCircuitBreaker oor now res (map Some rs) (mget_list clone res) nxt = Ret (cbs, n)"
    "list_all2 enforces (filter (cb_buildable res) rs) cbs"
    using build_total [of rs oor now res "mget_list clone res" "[]" nxt] Cons.prems(1)
    by (auto simp: v buildResourceCircuitBreaker_def)
  let ?new = "if cbs = [] then new else mput res cbs new"
  have nin: "res \<notin> fst ` set vs" "res \<notin> fst ` set new" "mwf vs"
    using Cons.prems(2,3) by (auto simp: v mwf_def)
  have "fst ` set ?new \<subseteq> insert res (fst ` set new)" by (auto dest!: set_mput)
  moreover have "fst ` set new \<inter> fst ` set vs = {}" using Cons.prems(3) by auto
  ultimately have dis: "fst ` set ?new \<inter> fst ` set vs = {}" using nin(1) by blast
  obtain new' nxt' where r: "build_all oor now vs clone ?new n = Ret (new', nxt')"
    "\<forall>res. if mget vs res = None then mget_list new' res = mget_list ?new res
       else list_all2 enforces (filter (cb_buildable res) (mget_list vs res)) (mget_list new' res)"
    using Cons.IH [OF _ nin(3) dis, of n] Cons.prems(1) by auto
  have vsn: "mget vs res = None" using nin(1) by (simp add: mget_def map_of_eq_None_iff)
  have nn: "mget new res = None" using nin(2) by (simp add: mget_def map_of_eq_None_iff)
  have "mget_list ?new res = cbs" using nn by (simp add: mget_list_def map_simps)
  then have cur: "mget_list new' res = cbs" using r(2) vsn by metis
  have other: "mget_list ?new k = mget_list new k" if "k \<noteq> res" for k
    using that by (simp add: map_simps)
  have mv: "mget (v # vs) k = (if k = res then Some rs else mget vs k)" for k
    by (simp add: v)
  have ml: "mget_list (v # vs) k = (if k = res then rs else mget_list vs k)" for k
    by (simp add: v)
  have "if mget (v # vs) k = None then mget_list new' k = mget_list new k
      else list_all2 enforces (filter (cb_buildable k) (mget_list (v # vs) k)) (mget_list new' k)" for k
  proof (cases "k = res")
    case True
    then show ?thesis using cur b(2) by (simp add: mv ml)
  next
    case False
    then show ?thesis using r(2) [rule_format, of k] other [OF False] by (simp only: mv ml if_False)
  qed
  moreover have "build_all oor now (v # vs) clone new nxt = Ret (new', nxt')"
    using b(1) r(1) by (simp add: v)
  ultimately show ?case by blast
qed

lemma valid_rules_ok: "r \<in> set (cb_valid_rules rules) \<Longrightarrow> cb_IsValidRule (Some r) = None \<and> Some r \<in> set rules"
  by (auto simp: cb_valid_rules_def map_filter_def split: if_splits)

lemma valid_rule_interval: "cb_IsValidRule (Some r) = None \<Longrightarrow> cr_StatIntervalMs r \<noteq> 0"
  by (auto simp: cb_IsValidRule_def split: if_splits)

lemma mget_cb_valid_map:
  "mwf raw \<Longrightarrow> mget_list (cb_valid_map raw) res = cb_valid_rules (mget_list raw res)"
proof (induction raw)
  case Nil
  then show ?case by (simp add: cb_valid_map_def mget_list_def cb_valid_rules_def map_filter_simps)
next
  case (Cons kv raw)
  obtain k rs where kv: "kv = (k, rs)" by fastforce
  have wf: "mwf raw" "k \<notin> fst ` set raw" using Cons.prems by (simp_all add: kv mwf_def)
  have none: "mget (cb_valid_map raw) k = None"
    using wf(2) by (force simp: mget_def map_of_eq_None_iff cb_valid_map_def)
  have step: "cb_valid_map (kv # raw) =
      (if cb_valid_rules rs = [] then cb_valid_map raw else (k, cb_valid_rules rs) # cb_valid_map raw)"
    by (simp add: cb_valid_map_def kv)
  have "mget_list (cb_valid_map raw) k = []" using none by (simp add: mget_list_def)
  then show ?case
    unfolding step using Cons.IH [OF wf(1)] by (auto simp: kv)
qed

lemma onRuleUpdate_total:
  assumes "mwf raw"
  shows "fst (cb_onRuleUpdate oor now raw m) = None"
    and "\<forall>res. cb_GetRulesOfResource res (snd (cb_onRuleUpdate oor now raw m)) = cb_valid_rules (mget_list raw res)"
    and "breakers_match (breakerRules (snd (cb_onRuleUpdate oor now raw m))) (breakers (snd (cb_onRuleUpdate oor now raw m)))"
    and "cb_currentRules (snd (cb_onRuleUpdate oor now raw m)) = raw"
proof -
  have "mwf (cb_valid_map raw)"
    using distinct_cb_valid_map [of raw] assms by (simp add: mwf_def)
  moreover have "\<forall>(res, rs) \<in> set (cb_valid_map raw). \<forall>r \<in> set rs. cr_StatIntervalMs r \<noteq> 0"
    using valid_rules_ok valid_rule_interval by (fastforce simp: cb_valid_map_def)
  ultimately obtain new nxt where b: "build_all oor now (cb_valid_map raw) (breakers m) [] (next_ptr m) = Ret (new, nxt)"
    "\<forall>res. if mget (cb_valid_map raw) res = None then mget_list new res = mget_list [] res
       else list_all2 enforces (filter (cb_buildable res) (mget_list (cb_valid_map raw) res)) (mget_list new res)"
    using build_all_total [of "cb_valid_map raw" "[]" oor now "breakers m" "next_ptr m"] by auto
  have bm: "breakers_match (cb_valid_map raw) new"
    unfolding breakers_match_def
  proof
    fix res
    show "list_all2 enforces (filter (cb_buildable res) (mget_list (cb_valid_map raw) res)) (mget_list new res)"
      using b(2) [rule_format, of res] by (cases "mget (cb_valid_map raw) res") (simp_all add: mget_list_def)
  qed
  show "fst (cb_onRuleUpdate oor now raw m) = None"
    and "\<forall>res. cb_GetRulesOfResource res (snd (cb_onRuleUpdate oor now raw m)) = cb_valid_rules (mget_list raw res)"
    and "breakers_match (breakerRules (snd (cb_onRuleUpdate oor now raw m))) (breakers (snd (cb_onRuleUpdate oor now raw m)))"
    and "cb_currentRules (snd (cb_onRuleUpdate oor now raw m)) = raw"
    using b(1) bm assms
    by (simp_all add: cb_onRuleUpdate_def cb_GetRulesOfResource_def mget_cb_valid_map)
qed

lemma cb_group_get:
  assumes "cb_group rs m = Ret m'"
  shows "mget_list m' res = mget_list m res @ filter (\<lambda>r. map_option cr_Resource r = Some res) rs"
  using assms by (induction rs m rule: cb_group.induct) (auto simp: map_simps)

lemma cb_group_total: "None \<notin> set rs \<Longrightarrow> \<exists>m'. cb_group rs m = Ret m'"
  by (induction rs m rule: cb_group.induct) auto

text \<open>The rules of a slice that name a resource.\<close>

definition rules_of :: "string \<Rightarrow> cb_rule option list \<Rightarrow> cb_rule option list" where
  "rules_of res rules = filter (\<lambda>r. map_option cr_Resource r = Some res) rules"

lemma buildable_valid_rules:
  "filter (cb_buildable res) (cb_valid_rules (rules_of res rules)) = filter supported (cb_valid_rules (rules_of res rules))"
  by (rule filter_cong [OF refl]) (auto simp: rules_of_def cb_buildable_def dest!: valid_rules_ok)

text \<open>
  C7: Loading circuit-breaking rules succeeds whatever the rules say, as long as none of them is nil.
  If the rules differ from those loaded before, then for every resource the valid rules are the ones
  listed, in order, and the breakers of the resource enforce those with a known strategy, one to one
  and in the same order; each breaker was made for its rule or for one the code takes for equal. If
  they do not differ, nothing changes.
\<close>

theorem cb_LoadRules_installs:
  assumes "None \<notin> set rules"
  shows "\<exists>changed m'. cb_LoadRules oor now rules m = (Ret (changed, None), m') \<and>
    (if changed
     then \<forall>res. cb_GetRulesOfResource res m' = cb_valid_rules (rules_of res rules) \<and>
       list_all2 enforces (filter supported (cb_GetRulesOfResource res m')) (getBreakersOfResource res m')
     else m' = m \<and> (\<forall>res. mget_list (cb_currentRules m) res = rules_of res rules))"
proof -
  obtain g where g: "cb_group rules [] = Ret g" using cb_group_total [OF assms] by blast
  have get: "mget_list g res = rules_of res rules" for res
    using cb_group_get [OF g, of res] by (simp add: rules_of_def mget_list_def)
  show ?thesis
  proof (cases "meq (cb_currentRules m) g")
    case True
    then have "mget_list (cb_currentRules m) res = rules_of res rules" for res
      using meq_get [OF True, of res] get [of res] by (simp add: mget_list_def)
    with True g show ?thesis by (intro exI [of _ False] exI [of _ m]) (simp add: cb_LoadRules_def)
  next
    case False
    let ?m = "snd (cb_onRuleUpdate oor now g m)"
    have wf: "mwf g" using cb_group_mwf [OF g] by simp
    note t = onRuleUpdate_total [OF wf, of oor now m]
    have load: "cb_LoadRules oor now rules m = (Ret (True, None), ?m)"
      using False g t(1) by (simp add: cb_LoadRules_def split_beta)
    have "cb_GetRulesOfResource res ?m = cb_valid_rules (rules_of res rules) \<and>
        list_all2 enforces (filter supported (cb_GetRulesOfResource res ?m)) (getBreakersOfResource res ?m)" for res
      using t(2) [rule_format, of res] t(3) [unfolded breakers_match_def, rule_format, of res] get [of res]
      by (simp add: cb_GetRulesOfResource_def getBreakersOfResource_def buildable_valid_rules)
    note all = allI [OF this]
    show ?thesis
      by (rule exI [of _ True], rule exI [of _ ?m], rule conjI [OF load], subst if_P, rule TrueI, rule all)
  qed
qed

section \<open>Reloading equal rules\<close>

lemma build_equal_keeps:
  assumes "list_all2 (\<lambda>ob r. cb_isEqualTo (BoundRule (cb_val ob)) (Some r)) obs rs"
    and "\<forall>r \<in> set rs. cr_Resource r = res"
  shows "build_breakers oor now res (map Some rs) obs new nxt = Ret (new @ obs, nxt)"
  using assms
proof (induction obs rs arbitrary: new rule: list_all2_induct)
  case Nil
  then show ?case by simp
next
  case (Cons ob obs r rs)
  have "cb_calculateReuseIndexFor r (ob # obs) = (0, - 1)"
    using Cons.hyps(1) by (simp add: cb_calculateReuseIndexFor_def)
  moreover have "build_breakers oor now res (map Some rs) obs (new @ [ob]) nxt = Ret ((new @ [ob]) @ obs, nxt)"
    by (rule Cons.IH) (use Cons.prems in simp)
  ultimately show ?case using Cons.prems by (simp add: remove_nth_def)
qed

lemma reload_equal:
  assumes "list_all2 (\<lambda>ob r. cb_isEqualTo (BoundRule (cb_val ob)) (Some r)) (getBreakersOfResource res m) rs"
    and "\<forall>r \<in> set rs. cr_Resource r = res" and "rs \<noteq> []"
  shows "getBreakersOfResource res (snd (cb_LoadRulesOfResource oor now res (map Some rs) m)) = getBreakersOfResource res m"
proof -
  have b: "buildResourceCircuitBreaker oor now res (map Some rs) (mget_list (breakers m) res) (next_ptr m) =
      Ret (mget_list (breakers m) res, next_ptr m)"
    using build_equal_keeps [OF assms(1,2), of oor now "[]" "next_ptr m"]
    by (simp add: buildResourceCircuitBreaker_def getBreakersOfResource_def)
  have "getBreakersOfResource res (snd (cb_onResourceRuleUpdate oor now res (map Some rs) m)) = getBreakersOfResource res m"
    by (simp add: cb_onResourceRuleUpdate_def b Let_def getBreakersOfResource_def map_simps)
  then show ?thesis
    using assms(3) by (simp add: cb_LoadRulesOfResource_def split_beta)
qed

text \<open>
  C9: Reloading a resource with rules that are equal to its old ones, one by one, keeps the breakers
  as they are, open or probing, with their windows. Equality is the code's: it compares the
  strategy's fields and tolerates a difference of thresholds below \<open>1e-8\<close>.
\<close>

theorem cb_reload_keeps_state:
  assumes "list_all2 (\<lambda>ob r. cb_isEqualTo (BoundRule (cb_val ob)) (Some r)) (getBreakersOfResource res m) rs"
    and "\<forall>r \<in> set rs. cr_Resource r = res" and "rs \<noteq> []"
  shows "getBreakersOfResource res (snd (cb_LoadRulesOfResource oor now res (map Some rs) m)) = getBreakersOfResource res m"
  using assms by (rule reload_equal)

text \<open>The number of probes is not compared: a reload that changes only it keeps the old number in force.\<close>

lemma probe_num_change_ignored:
  assumes "getBreakersOfResource res m = [ob]" and "BoundRule (cb_val ob) = r" and "cr_Resource r = res"
    and "supported r" and "cr_Threshold r = Fin q"
  shows "getBreakersOfResource res (snd (cb_LoadRulesOfResource oor now res [Some (r\<lparr>cr_ProbeNum := n\<rparr>)] m)) = [ob]"
proof -
  have "cr_Strategy r = SlowRequestRatio \<or> cr_Strategy r = ErrorRatio \<or> cr_Strategy r = ErrorCount"
    using assms(4) supported_iff [of r "\<lambda>_. 0"] by (auto simp: cbGenFunc_def split: if_splits)
  then have "cb_isEqualTo (BoundRule (cb_val ob)) (Some (r\<lparr>cr_ProbeNum := n\<rparr>))"
    using assms(2,5) by (auto simp: cb_isEqualTo_def cb_isEqualsToBase_def)
  then show ?thesis
    using reload_equal [of res m "[r\<lparr>cr_ProbeNum := n\<rparr>]" oor now] assms(1,3) by simp
qed

section \<open>The check slot\<close>

definition refuses :: "(nat \<Rightarrow> u64) \<Rightarrow> string \<Rightarrow> bool \<Rightarrow> nat \<Rightarrow> cb_obj \<Rightarrow> bool" where
  "refuses clk fs he i ob \<longleftrightarrow> needs_check fs (BoundRule (cb_val ob)) \<and> \<not> fst (TryPass (clk i) he (cb_val ob))"

lemma checkPass_spec:
  assumes "cb_checkPass clk k fs he obs = (r, obs', ns, hs)"
  shows "(r = None \<and> (\<forall>i < length obs. \<not> refuses clk fs he (k + i) (obs ! i))) \<or>
    (\<exists>i < length obs. r = Some (BoundRule (cb_val (obs ! i))) \<and> refuses clk fs he (k + i) (obs ! i) \<and>
      (\<forall>j < i. \<not> refuses clk fs he (k + j) (obs ! j)) \<and> drop (Suc i) obs' = drop (Suc i) obs)"
  using assms
proof (induction clk k fs he obs arbitrary: r obs' ns hs rule: cb_checkPass.induct)
  case (1 clk k fs he)
  then show ?case by simp
next
  case (2 clk k fs he ob obs)
  obtain r1 obs1 ns1 hs1 where rec: "cb_checkPass clk (Suc k) fs he obs = (r1, obs1, ns1, hs1)"
    by (metis prod_cases4)
  obtain ok b ms h where t: "TryPass (clk k) he (cb_val ob) = (ok, b, ms, h)" by (metis prod_cases4)
  show ?case
  proof (cases "refuses clk fs he k ob")
    case True
    then have "r = Some (BoundRule (cb_val ob))" "drop 1 obs' = obs"
      using "2.prems" t TryPass_rule [OF t] by (auto simp: refuses_def Let_def)
    with True show ?thesis by (intro disjI2 exI [of _ 0]) simp
  next
    case False
    have IH: "(r1 = None \<and> (\<forall>i < length obs. \<not> refuses clk fs he (Suc k + i) (obs ! i))) \<or>
      (\<exists>i < length obs. r1 = Some (BoundRule (cb_val (obs ! i))) \<and> refuses clk fs he (Suc k + i) (obs ! i) \<and>
        (\<forall>j < i. \<not> refuses clk fs he (Suc k + j) (obs ! j)) \<and> drop (Suc i) obs1 = drop (Suc i) obs)"
      using 2 False rec t by (cases "needs_check fs (BoundRule (cb_val ob))") (auto simp: refuses_def)
    have step: "r = r1" "\<exists>x. obs' = x # obs1"
      using "2.prems" False rec t by (auto simp: refuses_def Let_def split: if_splits)
    from IH show ?thesis
    proof
      assume "r1 = None \<and> (\<forall>i < length obs. \<not> refuses clk fs he (Suc k + i) (obs ! i))"
      then show ?thesis using step False by (auto simp: less_Suc_eq_0_disj nth_Cons split: nat.split)
    next
      assume "\<exists>i < length obs. r1 = Some (BoundRule (cb_val (obs ! i))) \<and> refuses clk fs he (Suc k + i) (obs ! i) \<and>
        (\<forall>j < i. \<not> refuses clk fs he (Suc k + j) (obs ! j)) \<and> drop (Suc i) obs1 = drop (Suc i) obs"
      then obtain i where i: "i < length obs" "r1 = Some (BoundRule (cb_val (obs ! i)))"
        "refuses clk fs he (Suc k + i) (obs ! i)" "\<forall>j < i. \<not> refuses clk fs he (Suc k + j) (obs ! j)"
        "drop (Suc i) obs1 = drop (Suc i) obs" by blast
      have "\<forall>j < Suc i. \<not> refuses clk fs he (k + j) ((ob # obs) ! j)"
        using i(4) False by (auto simp: less_Suc_eq_0_disj)
      with i step show ?thesis by (intro disjI2 exI [of _ "Suc i"]) auto
    qed
  qed
qed

text \<open>
  C10: The check slot of the circuit breakers blocks a request exactly when one of the breakers that
  apply to its source refuses it, and then reports the rule of the first such breaker as the cause,
  whatever the result passed in held; the breakers behind it are not asked. Otherwise the result is
  returned as it came in.
\<close>

theorem cb_Slot_Check_spec:
  assumes "resource \<noteq> []"
  shows "case cb_Slot_Check clk resource fs he result m of (result', m', ns, hs) \<Rightarrow>
    let obs = getBreakersOfResource resource m in
    (result' = result \<and> (\<forall>i < length obs. \<not> refuses clk fs he i (obs ! i))) \<or>
    (\<exists>i < length obs. refuses clk fs he i (obs ! i) \<and> (\<forall>j < i. \<not> refuses clk fs he j (obs ! j)) \<and>
       drop (Suc i) (getBreakersOfResource resource m') = drop (Suc i) obs \<and>
       (\<exists>r. result' = Some r \<and> tr_IsBlocked r \<and>
          tr_blockErr r = Some \<lparr>be_blockType = BlockTypeCircuitBreaking, be_blockMsg = ''circuit breaker check blocked'',
            be_rule = Some (BoundRule (cb_val (obs ! i))), be_snapshotValue = None\<rparr>))"
proof -
  let ?obs = "getBreakersOfResource resource m"
  obtain r obs ns hs where c: "cb_checkPass clk 0 fs he ?obs = (r, obs, ns, hs)" by (metis prod_cases4)
  have set: "getBreakersOfResource resource (set_breakers resource obs m) = obs" if "?obs \<noteq> []"
    using that by (auto simp: getBreakersOfResource_def set_breakers_def map_simps mget_list_def split: option.splits)
  consider (pass) "r = None" "\<forall>i < length ?obs. \<not> refuses clk fs he i (?obs ! i)"
    | (block) i where "i < length ?obs" "r = Some (BoundRule (cb_val (?obs ! i)))" "refuses clk fs he i (?obs ! i)"
      "\<forall>j < i. \<not> refuses clk fs he j (?obs ! j)" "drop (Suc i) obs = drop (Suc i) ?obs"
    using checkPass_spec [OF c] by auto
  then show ?thesis
  proof cases
    case pass
    then show ?thesis using assms c by (simp add: cb_Slot_Check_def Let_def)
  next
    case block
    have ne: "?obs \<noteq> []" using block(1) by auto
    have new: "tr_blockErr (NewTokenResultBlockedWithCause bt msg ru v) =
        Some \<lparr>be_blockType = bt, be_blockMsg = msg, be_rule = ru, be_snapshotValue = v\<rparr>" for bt msg ru v
      by (simp add: NewTokenResultBlockedWithCause_def NewTokenResult_def NewBlockError_def WithBlockType_def
          WithBlockMsg_def WithRule_def WithSnapshotValue_def)
    show ?thesis
      using assms c block set [OF ne]
      by (cases result)
        (auto simp: cb_Slot_Check_def Let_def new result_simps intro!: exI [of _ i])
  qed
qed

section \<open>A manager with one open breaker\<close>

definition demo_manager :: cb_manager where
  "demo_manager = \<lparr>breakerRules = [(''abc'', [demo_rule])],
     breakers = [(''abc'', [\<lparr>cb_ptr = 0, stat_ptr = 1, cb_val = demo_breaker Open\<rparr>])],
     cb_currentRules = [(''abc'', [Some demo_rule])], next_ptr = 2\<rparr>"

lemma demo_rule_bound [simp]: "BoundRule (demo_breaker s) = demo_rule"
  by (simp add: demo_breaker_def newErrorCountCircuitBreakerWithStat_def)

lemma demo_resource [simp]: "cr_Resource demo_rule = ''abc''"
  by (simp add: demo_rule_def)

lemma demo_objs [simp]:
  "getBreakersOfResource ''abc'' demo_manager = [\<lparr>cb_ptr = 0, stat_ptr = 1, cb_val = demo_breaker Open\<rparr>]"
  by (simp add: getBreakersOfResource_def demo_manager_def)

lemma demo_manager_inv: "cb_manager_inv demo_manager"
  by (simp add: cb_manager_inv_def demo_manager_def mwf_def addr_inv_def objs_def)

theorem cb_manager_no_sharing_witness:
  "cb_manager_inv (snd (cb_LoadRules (\<lambda>_. 0) 6000 [Some demo_rule, Some demo_rule] demo_manager))"
  using cb_manager_no_sharing [OF demo_manager_inv] by blast

theorem cb_LoadRules_installs_witness:
  "\<exists>m'. cb_LoadRules (\<lambda>_. 0) 6000 [Some demo_rule, Some (demo_rule\<lparr>cr_RetryTimeoutMs := 0\<rparr>)] demo_manager =
       (Ret (True, None), m') \<and> cb_GetRulesOfResource ''abc'' m' = [demo_rule] \<and>
     length (getBreakersOfResource ''abc'' m') = 1"
proof -
  let ?rs = "[Some demo_rule, Some (demo_rule\<lparr>cr_RetryTimeoutMs := 0\<rparr>)]"
  have rs: "rules_of ''abc'' ?rs = ?rs" by (simp add: rules_of_def)
  have v: "cb_valid_rules ?rs = [demo_rule]"
    by (simp add: cb_valid_rules_def map_filter_simps cb_IsValidRule_def demo_rule_def strategy_defs)
  have s: "supported demo_rule" by (simp add: supported_def demo_rule_def)
  obtain changed m' where c: "cb_LoadRules (\<lambda>_. 0) 6000 ?rs demo_manager = (Ret (changed, None), m')"
    "if changed then \<forall>res. cb_GetRulesOfResource res m' = cb_valid_rules (rules_of res ?rs) \<and>
       list_all2 enforces (filter supported (cb_GetRulesOfResource res m')) (getBreakersOfResource res m')
     else m' = demo_manager \<and> (\<forall>res. mget_list (cb_currentRules demo_manager) res = rules_of res ?rs)"
    using cb_LoadRules_installs [of ?rs "\<lambda>_. 0" 6000 demo_manager] by auto
  have ch: "changed"
  proof (rule ccontr)
    assume "\<not> changed"
    then have "mget_list (cb_currentRules demo_manager) ''abc'' = ?rs" using c(2) rs by simp
    then show False by (simp add: demo_manager_def)
  qed
  have "cb_GetRulesOfResource ''abc'' m' = cb_valid_rules (rules_of ''abc'' ?rs) \<and>
      list_all2 enforces (filter supported (cb_GetRulesOfResource ''abc'' m')) (getBreakersOfResource ''abc'' m')"
    using spec [OF c(2) [unfolded if_P [OF ch]], of "''abc''"] .
  then have g: "cb_GetRulesOfResource ''abc'' m' = [demo_rule]"
    "list_all2 enforces (filter supported (cb_GetRulesOfResource ''abc'' m')) (getBreakersOfResource ''abc'' m')"
    unfolding rs v by blast+
  then have "length (getBreakersOfResource ''abc'' m') = 1"
    using list_all2_lengthD [OF g(2)] s by simp
  with c(1) g(1) ch show ?thesis by simp
qed

theorem cb_reload_keeps_state_witness:
  "getBreakersOfResource ''abc'' (snd (cb_LoadRulesOfResource (\<lambda>_. 0) 6000 ''abc'' [Some (demo_rule\<lparr>cr_Id := ''2''\<rparr>)] demo_manager)) =
     [\<lparr>cb_ptr = 0, stat_ptr = 1, cb_val = demo_breaker Open\<rparr>]"
proof -
  have "cb_isEqualTo demo_rule (Some (demo_rule\<lparr>cr_Id := ''2''\<rparr>))"
    by (simp add: cb_isEqualTo_def cb_isEqualsToBase_def demo_rule_def strategy_defs)
  then show ?thesis
    using cb_reload_keeps_state [where res = "''abc''" and m = demo_manager and rs = "[demo_rule\<lparr>cr_Id := ''2''\<rparr>]"
        and oor = "\<lambda>_. 0" and now = 6000]
    by simp
qed

theorem cb_Slot_Check_spec_witness:
  "\<exists>r. fst (cb_Slot_Check (\<lambda>_. 1000) ''abc'' [] True (None :: (cb_rule, unit) token_result option) demo_manager) = Some r \<and>
     tr_IsBlocked r \<and> map_option be_rule (tr_blockErr r) = Some (Some demo_rule)"
proof -
  have "refuses (\<lambda>_. 1000) [] True 0 \<lparr>cb_ptr = 0, stat_ptr = 1, cb_val = demo_breaker Open\<rparr>"
    by (simp add: refuses_def needs_check_def EqualFold_default_def ascii_lower_def demo_defs
        count_TryPass_def try_pass_def retryTimeoutArrived_def)
  then show ?thesis
    using cb_Slot_Check_spec [where resource = "''abc''" and clk = "\<lambda>_. 1000" and fs = "[]" and he = True
        and result = "None :: (cb_rule, unit) token_result option" and m = demo_manager]
    by (auto simp: Let_def split: prod.splits)
qed

section \<open>Invalid rules in a load for one resource\<close>

text \<open>
  \<open>onResourceRuleUpdate\<close> filters the invalid rules out but builds the breakers from the unfiltered
  slice: an invalid rule becomes an active breaker that no listing shows, and a nil rule makes the
  whole load fail.
\<close>

lemma resource_load_invalid_rule_active:
  "cb_IsValidRule (Some (demo_rule\<lparr>cr_RetryTimeoutMs := 0\<rparr>)) \<noteq> None \<and>
   (let m = snd (cb_LoadRulesOfResource (\<lambda>_. 0) 6000 ''abc'' [Some (demo_rule\<lparr>cr_RetryTimeoutMs := 0\<rparr>)] initial_cb_manager)
    in cb_GetRulesOfResource ''abc'' m = [] \<and> length (getBreakersOfResource ''abc'' m) = 1)"
proof -
  let ?r = "demo_rule\<lparr>cr_RetryTimeoutMs := 0\<rparr>"
  have b: "cb_buildable ''abc'' ?r" by (simp add: cb_buildable_def supported_def demo_rule_def)
  have i: "cr_StatIntervalMs ?r \<noteq> 0" by (simp add: demo_rule_def)
  obtain ob where ob: "\<exists>n. build_breakers (\<lambda>_. 0) 6000 ''abc'' [Some ?r] [] [] 0 = Ret ([ob], n)"
    using build_one [OF b i, of "\<lambda>_. 0" 6000 "[]" "[]" "[]" 0] by auto
  have v: "cb_IsValidRule (Some ?r) \<noteq> None" by (simp add: cb_IsValidRule_def demo_rule_def)
  then have "cb_valid_rules [Some ?r] = []" by (simp add: cb_valid_rules_def map_filter_simps)
  with ob v show ?thesis
    by (auto simp: cb_LoadRulesOfResource_def initial_cb_manager_def cb_onResourceRuleUpdate_def
        buildResourceCircuitBreaker_def mget_list_def cb_GetRulesOfResource_def getBreakersOfResource_def
        map_simps Let_def simp del: build_breakers.simps)
qed

lemma resource_load_nil_rule_fails:
  "res \<noteq> [] \<Longrightarrow> cb_LoadRulesOfResource oor now res [None] initial_cb_manager =
     ((True, Some ''nil pointer dereference''), initial_cb_manager)"
  by (simp add: cb_LoadRulesOfResource_def initial_cb_manager_def cb_onResourceRuleUpdate_def
      buildResourceCircuitBreaker_def mget_list_def)

end
