(* ===== verification/Metric.thy ===== *)
theory Metric
  imports Prelude
begin

text \<open>
  The metric events and the parameter checks of \<open>core/base/stat.go\<close>, and the bucket of counters of
  \<open>core/stat/base/metric_bucket.go\<close>. The atomic loads and stores of the bucket are plain reads and
  writes here: a bucket operation is one step. Log output is not modelled.
\<close>

section \<open>Metric events\<close>

text \<open>\<open>MetricEvent\<close> is an \<open>int8\<close>; the constants count up from 0 and \<open>MetricEventTotal\<close> is their number.\<close>

type_synonym metric_event = "8 word"

definition MetricEventPass :: metric_event where "MetricEventPass = 0"
definition MetricEventBlock :: metric_event where "MetricEventBlock = 1"
definition MetricEventComplete :: metric_event where "MetricEventComplete = 2"
definition MetricEventError :: metric_event where "MetricEventError = 3"
definition MetricEventRt :: metric_event where "MetricEventRt = 4"
definition MetricEventWaiting :: metric_event where "MetricEventWaiting = 5"
definition MetricEventPassRequest :: metric_event where "MetricEventPassRequest = 6"
definition MetricEventBlockRequest :: metric_event where "MetricEventBlockRequest = 7"
definition MetricEventBlockFlow :: metric_event where "MetricEventBlockFlow = 8"
definition MetricEventBlockIsolation :: metric_event where "MetricEventBlockIsolation = 9"
definition MetricEventBlockCircuitBreaking :: metric_event where "MetricEventBlockCircuitBreaking = 10"
definition MetricEventBlockSystem :: metric_event where "MetricEventBlockSystem = 11"
definition MetricEventBlockHotSpotParamFlow :: metric_event where "MetricEventBlockHotSpotParamFlow = 12"
definition MetricEventBlockMock :: metric_event where "MetricEventBlockMock = 13"
definition MetricEventRejectPass :: metric_event where "MetricEventRejectPass = 14"
definition MetricEventTotal :: metric_event where "MetricEventTotal = 15"

lemmas event_defs =
  MetricEventPass_def MetricEventBlock_def MetricEventComplete_def MetricEventError_def
  MetricEventRt_def MetricEventWaiting_def MetricEventPassRequest_def MetricEventBlockRequest_def
  MetricEventBlockFlow_def MetricEventBlockIsolation_def MetricEventBlockCircuitBreaking_def
  MetricEventBlockSystem_def MetricEventBlockHotSpotParamFlow_def MetricEventBlockMock_def
  MetricEventRejectPass_def MetricEventTotal_def

section \<open>Checks of statistic parameters\<close>

datatype stat_error =
  IllegalGlobalStatisticParamsError | IllegalStatisticParamsError | GlobalStatisticNonReusableError

text \<open>\<open>None\<close> is the nil error.\<close>

definition CheckValidityForStatistic :: "u32 \<Rightarrow> u32 \<Rightarrow> stat_error option" where
  "CheckValidityForStatistic sampleCount intervalInMs =
     (if intervalInMs = 0 \<or> sampleCount = 0 \<or> intervalInMs mod sampleCount \<noteq> 0
      then Some IllegalStatisticParamsError else None)"

definition CheckValidityForReuseStatistic :: "u32 \<Rightarrow> u32 \<Rightarrow> u32 \<Rightarrow> u32 \<Rightarrow> stat_error option" where
  "CheckValidityForReuseStatistic sampleCount intervalInMs parentSampleCount parentIntervalInMs =
     (if intervalInMs = 0 \<or> sampleCount = 0 \<or> intervalInMs mod sampleCount \<noteq> 0
      then Some IllegalStatisticParamsError
      else let bucketLengthInMs = intervalInMs div sampleCount in
        if parentIntervalInMs = 0 \<or> parentSampleCount = 0 \<or> parentIntervalInMs mod parentSampleCount \<noteq> 0
        then Some IllegalGlobalStatisticParamsError
        else let parentBucketLengthInMs = parentIntervalInMs div parentSampleCount in
          if parentIntervalInMs mod intervalInMs \<noteq> 0 then Some GlobalStatisticNonReusableError
          else if bucketLengthInMs mod parentBucketLengthInMs \<noteq> 0 then Some GlobalStatisticNonReusableError
          else None)"

section \<open>The bucket of counters\<close>

record metric_bucket =
  counter :: "i64 list"
  minRt :: i64
  maxConcurrency :: i32

definition DefaultStatisticMaxRt :: i64 where
  "DefaultStatisticMaxRt = 60000"

definition NewMetricBucket :: metric_bucket where
  "NewMetricBucket = \<lparr>counter = replicate (unat MetricEventTotal) 0,
                      minRt = DefaultStatisticMaxRt, maxConcurrency = 0\<rparr>"

definition event_in_range :: "metric_event \<Rightarrow> bool" where
  "event_in_range e \<longleftrightarrow> \<not> (MetricEventTotal \<le>s e \<or> e <s 0)"

definition mb_addCount :: "metric_event \<Rightarrow> i64 \<Rightarrow> metric_bucket \<Rightarrow> metric_bucket" where
  "mb_addCount event c mb =
     mb\<lparr>counter := (counter mb)[unat event := counter mb ! unat event + c]\<rparr>"

definition mb_AddRt :: "i64 \<Rightarrow> metric_bucket \<Rightarrow> metric_bucket" where
  "mb_AddRt rt mb =
     (let mb = mb_addCount MetricEventRt rt mb
      in if rt <s minRt mb then mb\<lparr>minRt := rt\<rparr> else mb)"

definition mb_Add :: "metric_event \<Rightarrow> i64 \<Rightarrow> metric_bucket \<Rightarrow> metric_bucket" where
  "mb_Add event c mb =
     (if MetricEventTotal \<le>s event \<or> event <s 0 then mb
      else if event = MetricEventRt then mb_AddRt c mb
      else mb_addCount event c mb)"

definition mb_Get :: "metric_bucket \<Rightarrow> metric_event \<Rightarrow> i64" where
  "mb_Get mb event =
     (if MetricEventTotal \<le>s event \<or> event <s 0 then 0 else counter mb ! unat event)"

definition mb_reset :: "metric_bucket \<Rightarrow> metric_bucket" where
  "mb_reset mb = mb\<lparr>counter := fold (\<lambda>i c. c[i := 0]) [0 ..< unat MetricEventTotal] (counter mb),
                    minRt := DefaultStatisticMaxRt, maxConcurrency := 0\<rparr>"

definition mb_UpdateConcurrency :: "i32 \<Rightarrow> metric_bucket \<Rightarrow> metric_bucket" where
  "mb_UpdateConcurrency concurrency mb =
     (if maxConcurrency mb <s concurrency then mb\<lparr>maxConcurrency := concurrency\<rparr> else mb)"

text \<open>A bucket holds one counter per event.\<close>

definition mb_wf :: "metric_bucket \<Rightarrow> bool" where
  "mb_wf mb \<longleftrightarrow> length (counter mb) = 15"

lemma event_range_unat: "event_in_range e \<Longrightarrow> unat e < 15"
proof -
  assume "event_in_range e"
  then have s: "sint e < 15" "0 \<le> sint e"
    by (simp_all add: event_in_range_def MetricEventTotal_def word_sle_eq word_sless_alt)
  from s(2) have "int (unat e) = sint e" by (rule sint_nonneg_unat)
  with s(1) show ?thesis by linarith
qed

lemma event_defs_in_range [simp]:
  "event_in_range MetricEventPass" "event_in_range MetricEventBlock"
  "event_in_range MetricEventComplete" "event_in_range MetricEventError"
  "event_in_range MetricEventRt" "event_in_range MetricEventRejectPass"
  by (simp_all add: event_in_range_def event_defs word_sle_eq word_sless_alt)

named_theorems mb_simps \<open>views of a metric bucket\<close>

lemma mb_Get_unknown [mb_simps]: "\<not> event_in_range e \<Longrightarrow> mb_Get mb e = 0"
  by (simp add: mb_Get_def event_in_range_def)

lemma mb_Add_unknown [mb_simps]: "\<not> event_in_range e \<Longrightarrow> mb_Add e c mb = mb"
  by (simp add: mb_Add_def event_in_range_def)

lemma counter_mb_Add:
  "event_in_range e \<Longrightarrow> counter (mb_Add e c mb) = (counter mb)[unat e := counter mb ! unat e + c]"
  by (simp add: mb_Add_def event_in_range_def mb_AddRt_def mb_addCount_def Let_def)

lemma mb_Get_Add [mb_simps]:
  assumes "mb_wf mb"
  shows "mb_Get (mb_Add e c mb) e' = mb_Get mb e' + (if e' = e \<and> event_in_range e then c else 0)"
proof (cases "event_in_range e \<and> event_in_range e'")
  case True
  then have "counter (mb_Add e c mb) = (counter mb)[unat e := counter mb ! unat e + c]"
    and "unat e < length (counter mb)"
    using assms event_range_unat by (simp_all add: counter_mb_Add mb_wf_def)
  with True show ?thesis
    by (auto simp: mb_Get_def event_in_range_def nth_list_update dest!: word_unat_eq_iff [THEN iffD2])
qed (auto simp: mb_simps)

lemma mb_wf_New [simp]: "mb_wf NewMetricBucket"
  by (simp add: mb_wf_def NewMetricBucket_def MetricEventTotal_def)

lemma mb_wf_Add [simp]: "mb_wf mb \<Longrightarrow> mb_wf (mb_Add e c mb)"
  by (simp add: mb_wf_def mb_Add_def mb_AddRt_def mb_addCount_def Let_def)

lemma mb_wf_UpdateConcurrency [simp]: "mb_wf mb \<Longrightarrow> mb_wf (mb_UpdateConcurrency n mb)"
  by (simp add: mb_wf_def mb_UpdateConcurrency_def)

lemma mb_Get_New [mb_simps]: "mb_Get NewMetricBucket e = 0"
proof (cases "event_in_range e")
  case True
  then have "unat e < 15" by (rule event_range_unat)
  then show ?thesis
    by (simp add: mb_Get_def NewMetricBucket_def MetricEventTotal_def)
qed (simp add: mb_simps)

lemma mb_Get_UpdateConcurrency [mb_simps]: "mb_Get (mb_UpdateConcurrency n mb) e = mb_Get mb e"
  by (simp add: mb_Get_def mb_UpdateConcurrency_def)

lemma fold_zero: "n \<le> length xs \<Longrightarrow>
  fold (\<lambda>i c. c[i := 0]) [0 ..< n] xs = replicate n (0 :: i64) @ drop n xs"
proof (induction n)
  case (Suc n)
  then show ?case
    by (simp add: list_update_append Cons_nth_drop_Suc [symmetric] replicate_app_Cons_same)
qed simp

lemma mb_reset_New: "mb_wf mb \<Longrightarrow> mb_reset mb = NewMetricBucket"
  by (simp add: mb_reset_def mb_wf_def NewMetricBucket_def MetricEventTotal_def fold_zero
      del: upt_rec_numeral)

text \<open>The smallest round-trip time only falls, and stays below every recorded one.\<close>

lemma mb_minRt_Add_Rt: "minRt (mb_Add MetricEventRt rt mb) \<le>s rt \<and> minRt (mb_Add MetricEventRt rt mb) \<le>s minRt mb"
  using event_defs_in_range(5)
  by (auto simp: mb_Add_def event_in_range_def mb_AddRt_def mb_addCount_def Let_def
      word_sle_eq word_sless_alt)

end
