(* ===== verification/BucketLeapArray.thy ===== *)
theory BucketLeapArray
  imports Metric LeapArray
begin

text \<open>
  \<open>core/stat/base/bucket_leap_array.go\<close>: the leap array of metric buckets, with the refinement to a
  log of events: what \<open>CountWithTime\<close> returns is the sum over the recorded events whose period is
  one of the latest \<open>sampleCount\<close> periods.
\<close>

section \<open>The code\<close>

record bucket_leap_array =
  bla_data :: "metric_bucket leap_array"
  dataType :: string

text \<open>
  The generator the leap array passes to itself. \<open>ResetBucketTo\<close> of a bucket that holds no value would
  panic on the type assertion; the constructor stores a value in every bucket.
\<close>

definition bla_gen :: "metric_bucket bucket_gen" where
  "bla_gen = \<lparr>NewEmptyBucket = NewMetricBucket,
     ResetBucketTo = (\<lambda>bw startTime.
       let bw = bw\<lparr>BucketStart := startTime\<rparr>
       in bw\<lparr>Value := map_option mb_reset (Value bw)\<rparr>)\<rparr>"

definition NewBucketLeapArray :: "u64 \<Rightarrow> u32 \<Rightarrow> u32 \<Rightarrow> bucket_leap_array go" where
  "NewBucketLeapArray now sampleCount intervalInMs =
     (if sampleCount = 0 then Panic ''integer divide by zero''
      else let bucketLengthInMs = intervalInMs div sampleCount in
        go_bind (NewAtomicBucketWrapArrayWithTime sampleCount bucketLengthInMs now bla_gen)
          (\<lambda>arr. Ret \<lparr>bla_data = \<lparr>la_bucketLengthInMs = bucketLengthInMs, la_sampleCount = sampleCount,
                                   la_intervalInMs = intervalInMs, la_array = arr\<rparr>,
                       dataType = ''MetricBucket''\<rparr>))"

definition bla_SampleCount :: "bucket_leap_array \<Rightarrow> u32" where
  "bla_SampleCount bla = la_sampleCount (bla_data bla)"

definition bla_IntervalInMs :: "bucket_leap_array \<Rightarrow> u32" where
  "bla_IntervalInMs bla = la_intervalInMs (bla_data bla)"

definition bla_BucketLengthInMs :: "bucket_leap_array \<Rightarrow> u32" where
  "bla_BucketLengthInMs bla = la_bucketLengthInMs (bla_data bla)"

text \<open>The place of the current bucket, refreshed; \<open>None\<close> is the nil bucket of an error.\<close>

definition currentBucketWithTime :: "u64 \<Rightarrow> bucket_leap_array \<Rightarrow> nat option \<times> bucket_leap_array" where
  "currentBucketWithTime now bla =
     (let (curBucket, la) = currentBucketOfTime bla_gen now (bla_data bla);
          bla = bla\<lparr>bla_data := la\<rparr>
      in case curBucket of
           Ret i \<Rightarrow> (case Value (entry la i) of None \<Rightarrow> (None, bla) | Some b \<Rightarrow> (Some i, bla))
         | _ \<Rightarrow> (None, bla))"

text \<open>A method call on the bucket at place \<open>i\<close>.\<close>

definition on_bucket :: "nat \<Rightarrow> (metric_bucket \<Rightarrow> metric_bucket) \<Rightarrow> bucket_leap_array \<Rightarrow> bucket_leap_array" where
  "on_bucket i f bla = bla\<lparr>bla_data := upd_val i f (bla_data bla)\<rparr>"

definition addCountWithTime :: "u64 \<Rightarrow> metric_event \<Rightarrow> i64 \<Rightarrow> bucket_leap_array \<Rightarrow> bucket_leap_array" where
  "addCountWithTime now event count bla =
     (case currentBucketWithTime now bla of
        (None, bla) \<Rightarrow> bla | (Some i, bla) \<Rightarrow> on_bucket i (mb_Add event count) bla)"

definition updateConcurrencyWithTime :: "u64 \<Rightarrow> i32 \<Rightarrow> bucket_leap_array \<Rightarrow> bucket_leap_array" where
  "updateConcurrencyWithTime now concurrency bla =
     (case currentBucketWithTime now bla of
        (None, bla) \<Rightarrow> bla | (Some i, bla) \<Rightarrow> on_bucket i (mb_UpdateConcurrency concurrency) bla)"

definition CountWithTime :: "u64 \<Rightarrow> metric_event \<Rightarrow> bucket_leap_array \<Rightarrow> i64 \<times> bucket_leap_array" where
  "CountWithTime now event bla =
     (let (_, la) = currentBucketOfTime bla_gen now (bla_data bla)
      in (foldl (\<lambda>count b. count + mb_Get b event) 0 (bucket_values (valuesWithTime la now)),
          bla\<lparr>bla_data := la\<rparr>))"

definition bla_Values :: "u64 \<Rightarrow> bucket_leap_array \<Rightarrow> metric_bucket bucket_wrap list \<times> bucket_leap_array" where
  "bla_Values now bla =
     (let (_, la) = currentBucketOfTime bla_gen now (bla_data bla)
      in (valuesWithTime la now, bla\<lparr>bla_data := la\<rparr>))"

definition bla_ValuesConditional :: "u64 \<Rightarrow> (u64 \<Rightarrow> bool) \<Rightarrow> bucket_leap_array \<Rightarrow> metric_bucket bucket_wrap list" where
  "bla_ValuesConditional now predicate bla = la_ValuesConditional (bla_data bla) now predicate"

text \<open>The aggregates below read the clock twice: for the current bucket and for the values.\<close>

definition bla_MinRt :: "u64 \<Rightarrow> u64 \<Rightarrow> bucket_leap_array \<Rightarrow> i64 \<times> bucket_leap_array" where
  "bla_MinRt now now' bla =
     (let (_, la) = currentBucketOfTime bla_gen now (bla_data bla)
      in (foldl (\<lambda>ret b. if minRt b <s ret then minRt b else ret) DefaultStatisticMaxRt
            (bucket_values (valuesWithTime la now')),
          bla\<lparr>bla_data := la\<rparr>))"

definition bla_MaxConcurrency :: "u64 \<Rightarrow> u64 \<Rightarrow> bucket_leap_array \<Rightarrow> i32 \<times> bucket_leap_array" where
  "bla_MaxConcurrency now now' bla =
     (let (_, la) = currentBucketOfTime bla_gen now (bla_data bla)
      in (foldl (\<lambda>ret b. if ret <s maxConcurrency b then maxConcurrency b else ret) 0
            (bucket_values (valuesWithTime la now')),
          bla\<lparr>bla_data := la\<rparr>))"

definition GetFirstCountOfWindow :: "u64 \<Rightarrow> u64 \<Rightarrow> metric_event \<Rightarrow> bucket_leap_array \<Rightarrow> i64 \<times> bucket_leap_array" where
  "GetFirstCountOfWindow now now' event bla =
     (let (_, la) = currentBucketOfTime bla_gen now (bla_data bla)
      in (case bucket_values (valuesWithTime la now') of [] \<Rightarrow> 0 | b # _ \<Rightarrow> mb_Get b event,
          bla\<lparr>bla_data := la\<rparr>))"

section \<open>The generator keeps its contract\<close>

interpretation mbgen: bucket_generator bla_gen mb_wf
  by unfold_locales (simp_all add: bla_gen_def mb_reset_New Let_def)

section \<open>Recording a log of events\<close>

text \<open>An event of the log: when it is recorded, what is counted and how much.\<close>

type_synonym event_log = "(u64 \<times> metric_event \<times> i64) list"

definition record_log :: "event_log \<Rightarrow> bucket_leap_array \<Rightarrow> bucket_leap_array" where
  "record_log evs bla = foldl (\<lambda>bla (t, e, c). addCountWithTime t e c bla) bla evs"

text \<open>The times of a log: valid readings of the clock, in order, none before \<open>t0\<close>.\<close>

definition log_times :: "u64 \<Rightarrow> event_log \<Rightarrow> bool" where
  "log_times t0 evs \<longleftrightarrow> sorted (map unat (t0 # map fst evs)) \<and> (\<forall>t \<in> set (map fst evs). t \<noteq> 0 \<and> unat t < 2 ^ 63)"

text \<open>The specification: the sum of the counts of \<open>e\<close> in the latest \<open>k\<close> periods of length \<open>L\<close>.\<close>

definition log_sum :: "nat \<Rightarrow> nat \<Rightarrow> u64 \<Rightarrow> metric_event \<Rightarrow> event_log \<Rightarrow> i64" where
  "log_sum L k now e evs =
     sum_list (map (\<lambda>(t, e', c). if e' = e \<and> event_in_range e \<and> unat t div L \<le> unat now div L \<and>
       unat now div L < unat t div L + k then c else 0) evs)"

definition bla_rel :: "nat \<Rightarrow> (nat \<Rightarrow> metric_bucket) \<Rightarrow> bucket_leap_array \<Rightarrow> bool" where
  "bla_rel T A bla \<longleftrightarrow> la_rel mb_wf NewMetricBucket T A (bla_data bla) \<and> (\<forall>p. mb_wf (A p))"

lemma new_bla_gen [simp]: "NewEmptyBucket bla_gen = NewMetricBucket"
  by (simp add: bla_gen_def)

lemma NewBucketLeapArray_rel:
  assumes "NewBucketLeapArray now n I = Ret bla" and "unat I = unat (I div n) * unat n" and "unat now < 2 ^ 63"
  shows "bla_rel (period (bla_data bla) now) (\<lambda>_. NewMetricBucket) bla"
    and "slots (bla_data bla) = unat n" and "la_bucketLengthInMs (bla_data bla) = I div n"
    and "la_intervalInMs (bla_data bla) = I"
proof -
  from assms(1) have n: "n \<noteq> 0" by (auto simp: NewBucketLeapArray_def split: if_splits)
  have L: "I div n \<noteq> 0"
  proof
    assume "I div n = 0"
    with assms(1) n show False
      by (simp add: NewBucketLeapArray_def NewAtomicBucketWrapArrayWithTime_def)
  qed
  obtain aa where aa: "NewAtomicBucketWrapArrayWithTime n (I div n) now bla_gen = Ret aa"
    "la_rel mb_wf (NewEmptyBucket bla_gen) (unat now div unat (I div n)) (\<lambda>_. NewEmptyBucket bla_gen)
      \<lparr>la_bucketLengthInMs = I div n, la_sampleCount = n, la_intervalInMs = I, la_array = aa\<rparr>"
    using mbgen.fresh [OF L n assms(2,3)] by blast
  have bla: "bla_data bla = \<lparr>la_bucketLengthInMs = I div n, la_sampleCount = n, la_intervalInMs = I, la_array = aa\<rparr>"
    using assms(1) n aa(1) by (auto simp: NewBucketLeapArray_def Let_def)
  show "bla_rel (period (bla_data bla) now) (\<lambda>_. NewMetricBucket) bla"
    using aa(2) by (simp add: bla_rel_def bla period_def)
  show "slots (bla_data bla) = unat n"
    using aa(2) by (simp add: bla la_rel_def la_inv_def la_shape_def)
qed (use assms in \<open>auto simp: NewBucketLeapArray_def Let_def go_bind_Ret_iff split: if_splits\<close>)

text \<open>A method call on the current bucket changes the contents of its period only.\<close>

definition on_current :: "u64 \<Rightarrow> (metric_bucket \<Rightarrow> metric_bucket) \<Rightarrow> bucket_leap_array \<Rightarrow> bucket_leap_array" where
  "on_current t f bla =
     (case currentBucketWithTime t bla of (None, bla) \<Rightarrow> bla | (Some i, bla) \<Rightarrow> on_bucket i f bla)"

lemma on_current_rel:
  assumes rel: "bla_rel T A bla" and t: "t \<noteq> 0" "unat t < 2 ^ 63" and T: "T \<le> period (bla_data bla) t"
    and wf: "\<forall>mb. mb_wf mb \<longrightarrow> mb_wf (f mb)"
  shows "let Q = period (bla_data bla) t in bla_rel Q (A(Q := f (A Q))) (on_current t f bla)"
    and "slots (bla_data (on_current t f bla)) = slots (bla_data bla)"
    and "period (bla_data (on_current t f bla)) = period (bla_data bla)"
    and "la_bucketLengthInMs (bla_data (on_current t f bla)) = la_bucketLengthInMs (bla_data bla)"
    and "la_intervalInMs (bla_data (on_current t f bla)) = la_intervalInMs (bla_data bla)"
proof -
  let ?la = "bla_data bla" and ?Q = "period (bla_data bla) t"
  let ?i = "?Q mod slots ?la"
  from rel have r: "mbgen.rel T A ?la" and wfA: "\<And>p. mb_wf (A p)" by (simp_all add: bla_rel_def)
  obtain la' where la': "currentBucketOfTime bla_gen t ?la = (Ret ?i, la')"
    "Value (entry la' ?i) = Some (bval la' ?i)"
    "mbgen.rel ?Q (A(?Q := f (A ?Q))) (upd_val ?i f la')"
    "per (upd_val ?i f la') ?i = ?Q" "slots la' = slots ?la" "period la' = period ?la"
    "la_bucketLengthInMs la' = la_bucketLengthInMs ?la" "la_intervalInMs la' = la_intervalInMs ?la"
    using mbgen.touch [OF r t T wf] by blast
  have call: "on_current t f bla = bla\<lparr>bla_data := upd_val ?i f la'\<rparr>"
    by (simp add: on_current_def currentBucketWithTime_def on_bucket_def la'(1,2))
  show "let Q = ?Q in bla_rel Q (A(Q := f (A Q))) (on_current t f bla)"
    using la'(3) wf wfA by (simp add: bla_rel_def call)
  have "?i < slots la'"
    using la_inv_shape la'(5) r by (auto simp: la_rel_def la_inv_def la_shape_def)
  then show "slots (bla_data (on_current t f bla)) = slots ?la"
    and "period (bla_data (on_current t f bla)) = period ?la"
    and "la_bucketLengthInMs (bla_data (on_current t f bla)) = la_bucketLengthInMs ?la"
    and "la_intervalInMs (bla_data (on_current t f bla)) = la_intervalInMs ?la"
    by (simp_all add: call la')
qed

text \<open>The writes to an array: counting an event and noting a concurrency.\<close>

datatype arr_write = WAdd u64 metric_event i64 | WConc u64 i32

fun write_time :: "arr_write \<Rightarrow> u64" where
  "write_time (WAdd t e c) = t"
| "write_time (WConc t n) = t"

fun write_fun :: "arr_write \<Rightarrow> metric_bucket \<Rightarrow> metric_bucket" where
  "write_fun (WAdd t e c) = mb_Add e c"
| "write_fun (WConc t n) = mb_UpdateConcurrency n"

fun write_event :: "arr_write \<Rightarrow> event_log" where
  "write_event (WAdd t e c) = [(t, e, c)]"
| "write_event (WConc t n) = []"

definition do_write :: "bucket_leap_array \<Rightarrow> arr_write \<Rightarrow> bucket_leap_array" where
  "do_write bla w = on_current (write_time w) (write_fun w) bla"

lemma do_write_calls:
  "do_write bla (WAdd t e c) = addCountWithTime t e c bla"
  "do_write bla (WConc t n) = updateConcurrencyWithTime t n bla"
  by (simp_all add: do_write_def on_current_def addCountWithTime_def updateConcurrencyWithTime_def)

lemma write_fun_wf: "\<forall>mb. mb_wf mb \<longrightarrow> mb_wf (write_fun w mb)"
  by (cases w) simp_all

abbreviation write_log :: "arr_write list \<Rightarrow> event_log" where
  "write_log ws \<equiv> concat (map write_event ws)"

text \<open>The views of the leap array that no operation changes.\<close>

definition same_shape :: "bucket_leap_array \<Rightarrow> bucket_leap_array \<Rightarrow> bool" where
  "same_shape bla bla' \<longleftrightarrow> slots (bla_data bla') = slots (bla_data bla) \<and>
     period (bla_data bla') = period (bla_data bla) \<and>
     la_bucketLengthInMs (bla_data bla') = la_bucketLengthInMs (bla_data bla) \<and>
     la_intervalInMs (bla_data bla') = la_intervalInMs (bla_data bla)"

lemma same_shape_trans: "same_shape a b \<Longrightarrow> same_shape b c \<Longrightarrow> same_shape a c"
  by (simp add: same_shape_def)

text \<open>After a log, a period holds what the log recorded in it.\<close>

definition period_sum :: "nat \<Rightarrow> nat \<Rightarrow> metric_event \<Rightarrow> event_log \<Rightarrow> i64" where
  "period_sum L p e evs =
     sum_list (map (\<lambda>(t, e', c). if unat t div L = p \<and> e' = e \<and> event_in_range e then c else 0) evs)"

lemma period_sum_append: "period_sum L p e (xs @ ys) = period_sum L p e xs + period_sum L p e ys"
  by (simp add: period_sum_def)

lemma write_fun_period_sum:
  assumes "mb_wf mb"
  shows "mb_Get (write_fun w mb) e = mb_Get mb e + period_sum L (unat (write_time w) div L) e (write_event w)"
  using assms by (cases w) (auto simp: mb_Get_Add mb_simps period_sum_def)

lemma write_event_other: "p \<noteq> unat (write_time w) div L \<Longrightarrow> period_sum L p e (write_event w) = 0"
  by (cases w) (simp_all add: period_sum_def)

text \<open>The writes of one period, and the highest concurrency noted at times of a kind.\<close>

definition bucket_writes :: "nat \<Rightarrow> nat \<Rightarrow> metric_bucket \<Rightarrow> arr_write list \<Rightarrow> metric_bucket" where
  "bucket_writes L p b ws = foldl (\<lambda>b w. if unat (write_time w) div L = p then write_fun w b else b) b ws"

fun write_peak :: "(u64 \<Rightarrow> bool) \<Rightarrow> arr_write list \<Rightarrow> int" where
  "write_peak P [] = 0"
| "write_peak P (WAdd t e c # ws) = write_peak P ws"
| "write_peak P (WConc t n # ws) = (if P t then max (sint n) (write_peak P ws) else write_peak P ws)"

lemma write_peak_nonneg [simp]: "0 \<le> write_peak P ws"
  by (induction P ws rule: write_peak.induct) auto

lemma write_peak_le:
  "write_peak P ws \<le> k \<longleftrightarrow> 0 \<le> k \<and> (\<forall>t n. WConc t n \<in> set ws \<and> P t \<longrightarrow> sint n \<le> k)"
  by (induction P ws rule: write_peak.induct) auto

lemma maxConcurrency_simps [mb_simps]:
  "maxConcurrency (mb_Add e c mb) = maxConcurrency mb"
  "maxConcurrency NewMetricBucket = 0"
  "sint (maxConcurrency (mb_UpdateConcurrency n mb)) = max (sint (maxConcurrency mb)) (sint n)"
  by (simp_all add: mb_Add_def mb_AddRt_def mb_addCount_def NewMetricBucket_def mb_UpdateConcurrency_def
      word_sless_alt Let_def max_def)

lemma bucket_writes_le:
  "sint (maxConcurrency (bucket_writes L p b ws)) \<le> k \<longleftrightarrow> sint (maxConcurrency b) \<le> k \<and>
     (\<forall>t n. WConc t n \<in> set ws \<and> unat t div L = p \<longrightarrow> sint n \<le> k)"
proof (induction ws arbitrary: b)
  case Nil
  then show ?case by (simp add: bucket_writes_def)
next
  case (Cons w ws)
  have "bucket_writes L p b (w # ws) = bucket_writes L p (if unat (write_time w) div L = p then write_fun w b else b) ws"
    by (simp add: bucket_writes_def)
  then show ?case by (cases w) (auto simp: Cons.IH mb_simps)
qed

lemma bucket_writes_nonneg:
  "0 \<le> sint (maxConcurrency b) \<Longrightarrow> 0 \<le> sint (maxConcurrency (bucket_writes L p b ws))"
  by (rule order_trans, assumption) (use bucket_writes_le [of L p b ws] in blast)
lemma bucket_writes_Get:
  "mb_wf b \<Longrightarrow> mb_Get (bucket_writes L p b ws) e = mb_Get b e + period_sum L p e (write_log ws)"
proof (induction ws arbitrary: b)
  case Nil
  then show ?case by (simp add: bucket_writes_def period_sum_def)
next
  case (Cons w ws)
  let ?b = "if unat (write_time w) div L = p then write_fun w b else b"
  have "bucket_writes L p b (w # ws) = bucket_writes L p ?b ws" by (simp add: bucket_writes_def)
  moreover have "mb_wf ?b" using Cons.prems write_fun_wf by simp
  ultimately show ?case
    using Cons.IH [of ?b] write_fun_period_sum [OF Cons.prems, of w e L] write_event_other [of p w L e]
    by (cases "p = unat (write_time w) div L") (simp_all add: period_sum_append add.assoc)
qed

lemma do_writes_rel:
  assumes "bla_rel T A bla" and "\<And>w. w \<in> set ws \<Longrightarrow> write_time w \<noteq> 0 \<and> unat (write_time w) < 2 ^ 63"
    and "sorted (map (\<lambda>w. unat (write_time w)) ws)"
    and "\<And>w. w \<in> set ws \<Longrightarrow> T \<le> period (bla_data bla) (write_time w)"
  shows "\<exists>T'. bla_rel T' (\<lambda>p. bucket_writes (unat (la_bucketLengthInMs (bla_data bla))) p (A p) ws)
      (foldl do_write bla ws) \<and> same_shape bla (foldl do_write bla ws) \<and>
    (T' = T \<or> (\<exists>w \<in> set ws. T' = period (bla_data bla) (write_time w)))"
  using assms
proof (induction ws arbitrary: bla T A)
  case Nil
  then show ?case by (force simp: same_shape_def bucket_writes_def)
next
  case (Cons w ws)
  let ?t = "write_time w" and ?b = "do_write bla w"
  let ?Q = "period (bla_data bla) ?t" and ?L = "unat (la_bucketLengthInMs (bla_data bla))"
  let ?A = "A(?Q := write_fun w (A ?Q))"
  have t: "?t \<noteq> 0" "unat ?t < 2 ^ 63" "T \<le> ?Q" using Cons.prems(2,4) by auto
  note step = on_current_rel [OF Cons.prems(1) t write_fun_wf, of w, folded do_write_def, unfolded Let_def]
  have sh: "same_shape bla ?b" using step by (simp add: same_shape_def)
  have later: "?Q \<le> period (bla_data ?b) (write_time w')" if "w' \<in> set ws" for w'
    using that Cons.prems(3) step(3) by (auto simp: period_def div_le_mono)
  have "\<exists>T'. bla_rel T' (\<lambda>p. bucket_writes (unat (la_bucketLengthInMs (bla_data ?b))) p (?A p) ws)
      (foldl do_write ?b ws) \<and> same_shape ?b (foldl do_write ?b ws) \<and>
    (T' = ?Q \<or> (\<exists>w \<in> set ws. T' = period (bla_data ?b) (write_time w)))"
    by (rule Cons.IH [OF step(1)]) (use Cons.prems(2,3) later in auto)
  then obtain T' where IH: "bla_rel T' (\<lambda>p. bucket_writes ?L p (?A p) ws) (foldl do_write ?b ws)"
    "same_shape ?b (foldl do_write ?b ws)"
    "T' = ?Q \<or> (\<exists>w \<in> set ws. T' = period (bla_data bla) (write_time w))"
    unfolding step(3,4) by blast
  have "(\<lambda>p. bucket_writes ?L p (?A p) ws) = (\<lambda>p. bucket_writes ?L p (A p) (w # ws))"
    by (auto simp: bucket_writes_def period_def fun_eq_iff)
  then show ?case
    using IH same_shape_trans [OF sh IH(2)] by (intro exI [of _ T']) auto
qed

lemma period_sum_window:
  assumes "k \<le> n"
  shows "(\<Sum>p \<in> {unat now div L + 1 - k .. unat now div L}. period_sum L p e evs) = log_sum L k now e evs"
proof (induction evs)
  case Nil
  then show ?case by (simp add: period_sum_def log_sum_def)
next
  case (Cons ev evs)
  obtain t e' c where ev: "ev = (t, e', c)" by (cases ev)
  let ?W = "{unat now div L + 1 - k .. unat now div L}"
  let ?x = "if e' = e \<and> event_in_range e then c else 0"
  have "(\<Sum>p \<in> ?W. if unat t div L = p \<and> e' = e \<and> event_in_range e then c else 0)
      = (\<Sum>p \<in> ?W. if unat t div L = p then ?x else 0)"
    by (rule sum.cong) auto
  also have "\<dots> = (if unat t div L \<in> ?W then ?x else 0)"
    by (simp add: sum.delta)
  also have "\<dots> = (if e' = e \<and> event_in_range e \<and> unat t div L \<le> unat now div L \<and>
      unat now div L < unat t div L + k then c else 0)"
    by auto
  finally show ?case
    using Cons.IH by (simp add: ev period_sum_def log_sum_def sum.distrib)
qed

lemma foldl_sum: "foldl (\<lambda>c b. c + f b) (x :: i64) bs = x + sum_list (map f bs)"
  by (induction bs arbitrary: x) (simp_all add: add.assoc)

lemma sum_bvals:
  "sum_list (map f (map (bval la) (filter P [0 ..< n]))) = (\<Sum>i | i < n \<and> P i. f (bval la i))"
proof -
  have "sum_list (map (\<lambda>i. f (bval la i)) (filter P [0 ..< n])) =
      (\<Sum>i \<in> set (filter P [0 ..< n]). f (bval la i))"
    by (rule sum.distinct_set_conv_list [symmetric]) simp
  moreover have "set (filter P [0 ..< n]) = {i. i < n \<and> P i}" by auto
  ultimately show ?thesis by (simp add: o_def)
qed

lemma CountWithTime_rel:
  assumes rel: "bla_rel T A bla" and now: "now \<noteq> 0" "unat now < 2 ^ 63" and T: "T \<le> period (bla_data bla) now"
  shows "fst (CountWithTime now e bla) =
    (\<Sum>p \<in> {period (bla_data bla) now + 1 - slots (bla_data bla) .. period (bla_data bla) now}. mb_Get (A p) e)"
proof -
  let ?la = "bla_data bla" and ?Q = "period (bla_data bla) now" and ?n = "slots (bla_data bla)"
  have r: "mbgen.rel T A ?la" using rel by (simp add: bla_rel_def)
  obtain la' where la': "currentBucketOfTime bla_gen now ?la = (Ret (?Q mod ?n), la')"
    "mbgen.rel ?Q A la'" "per la' (?Q mod ?n) = ?Q" "slots la' = ?n" "period la' = period ?la"
    using mbgen.refresh [OF r now T] by blast
  have inv: "la_inv mb_wf la'" and f: "\<And>i. i < slots la' \<Longrightarrow> per la' i < period la' now + slots la'"
    using la'(2,4,5) by (simp_all add: la_rel_def)
  have "valuesWithTime la' now = map (entry la')
      (filter (\<lambda>i. per la' i \<le> period la' now \<and> period la' now < per la' i + slots la') [0 ..< slots la'])"
    by (rule mbgen.valuesWithTime_eq [OF inv now f]) (simp_all add: la'(3,4,5))
  then have v: "bucket_values (valuesWithTime la' now) = map (bval la')
      (filter (\<lambda>i. per la' i \<le> ?Q \<and> ?Q < per la' i + ?n) [0 ..< ?n])"
    unfolding la'(4,5) by (simp only:) (rule bucket_values_entries [OF inv], simp add: la'(4))
  have "fst (CountWithTime now e bla) =
      (\<Sum>i | i < ?n \<and> per la' i \<le> ?Q \<and> ?Q < per la' i + ?n. mb_Get (bval la' i) e)"
    by (simp add: CountWithTime_def la'(1) v foldl_sum sum_bvals del: map_map)
  also have "\<dots> = (\<Sum>p \<in> {?Q + 1 - ?n .. ?Q}. mb_Get (A p) e)"
    using mbgen.window_sum [OF la'(2) le_refl, of ?n "\<lambda>b. mb_Get b e"] la'(4)
    by (simp add: mb_Get_New)
  finally show ?thesis .
qed

text \<open>Writes at valid times lead from a fresh array to contents that the writes determine.\<close>

definition write_times :: "u64 \<Rightarrow> arr_write list \<Rightarrow> bool" where
  "write_times t0 ws \<longleftrightarrow> sorted (map unat (t0 # map write_time ws)) \<and>
     (\<forall>t \<in> set (map write_time ws). t \<noteq> 0 \<and> unat t < 2 ^ 63)"

lemma fresh_writes_buckets:
  assumes new: "NewBucketLeapArray t0 n I = Ret bla" and I: "I mod n = 0"
    and times: "write_times t0 ws" and t0: "unat t0 < 2 ^ 63"
    and now: "\<forall>t \<in> set (t0 # map write_time ws). unat t \<le> unat now"
  obtains T where "bla_rel T (\<lambda>p. bucket_writes (unat (I div n)) p NewMetricBucket ws) (foldl do_write bla ws)"
    and "T \<le> period (bla_data (foldl do_write bla ws)) now"
    and "slots (bla_data (foldl do_write bla ws)) = unat n"
    and "la_bucketLengthInMs (bla_data (foldl do_write bla ws)) = I div n"
    and "la_intervalInMs (bla_data (foldl do_write bla ws)) = I"
proof -
  have "unat I mod unat n = 0" using I by (metis unat_0 unat_mod)
  then have I': "unat I = unat (I div n) * unat n"
    by (simp add: unat_div) (metis div_mult_mod_eq add.right_neutral)
  note fr = NewBucketLeapArray_rel [OF new I' t0]
  let ?b = "foldl do_write bla ws" and ?T0 = "period (bla_data bla) t0"
  let ?A = "\<lambda>p. bucket_writes (unat (I div n)) p NewMetricBucket ws"
  have sorted: "sorted (map (\<lambda>w. unat (write_time w)) ws)"
    using times by (simp add: write_times_def o_def)
  have "\<exists>T. bla_rel T (\<lambda>p. bucket_writes (unat (la_bucketLengthInMs (bla_data bla))) p NewMetricBucket ws) ?b \<and>
    same_shape bla ?b \<and> (T = ?T0 \<or> (\<exists>w \<in> set ws. T = period (bla_data bla) (write_time w)))"
    by (rule do_writes_rel [OF fr(1) _ sorted])
      (use times in \<open>auto simp: write_times_def period_def div_le_mono\<close>)
  then obtain T where TA: "bla_rel T ?A ?b" "same_shape bla ?b"
    "T = ?T0 \<or> (\<exists>w \<in> set ws. T = period (bla_data bla) (write_time w))"
    unfolding fr(3) by blast
  have "T \<le> period (bla_data ?b) now"
    using TA(2,3) now by (auto simp: same_shape_def intro!: period_mono)
  with TA fr show thesis by (intro that [of T]) (simp_all add: same_shape_def)
qed

lemma fresh_writes_rel:
  assumes new: "NewBucketLeapArray t0 n I = Ret bla" and I: "I mod n = 0"
    and times: "write_times t0 ws" and t0: "unat t0 < 2 ^ 63"
    and now: "\<forall>t \<in> set (t0 # map write_time ws). unat t \<le> unat now"
  obtains T A where "bla_rel T A (foldl do_write bla ws)" and "T \<le> period (bla_data (foldl do_write bla ws)) now"
    and "slots (bla_data (foldl do_write bla ws)) = unat n"
    and "la_bucketLengthInMs (bla_data (foldl do_write bla ws)) = I div n"
    and "la_intervalInMs (bla_data (foldl do_write bla ws)) = I"
    and "\<And>p e. mb_Get (A p) e = period_sum (unat (I div n)) p e (write_log ws)"
proof -
  obtain T where "bla_rel T (\<lambda>p. bucket_writes (unat (I div n)) p NewMetricBucket ws) (foldl do_write bla ws)"
    "T \<le> period (bla_data (foldl do_write bla ws)) now"
    "slots (bla_data (foldl do_write bla ws)) = unat n"
    "la_bucketLengthInMs (bla_data (foldl do_write bla ws)) = I div n"
    "la_intervalInMs (bla_data (foldl do_write bla ws)) = I"
    by (rule fresh_writes_buckets [OF assms]) (rule that)
  then show thesis by (rule that) (simp add: bucket_writes_Get mb_Get_New)
qed

text \<open>Recording a log is writing its events.\<close>

lemma record_log_writes: "record_log evs bla = foldl do_write bla (map (\<lambda>(t, e, c). WAdd t e c) evs)"
  by (induction evs arbitrary: bla) (simp_all add: record_log_def do_write_calls case_prod_unfold)

lemma write_log_WAdd [simp]: "write_log (map (\<lambda>(t, e, c). WAdd t e c) evs) = evs"
  by (induction evs) auto

lemma write_time_WAdd [simp]: "map write_time (map (\<lambda>(t, e, c). WAdd t e c) evs) = map fst evs"
  by (induction evs) auto

lemma fresh_log_rel:
  assumes new: "NewBucketLeapArray t0 n I = Ret bla" and I: "I mod n = 0"
    and times: "log_times t0 evs" and t0: "unat t0 < 2 ^ 63"
    and now: "\<forall>t \<in> set (t0 # map fst evs). unat t \<le> unat now"
  obtains T A where "bla_rel T A (record_log evs bla)" and "T \<le> period (bla_data (record_log evs bla)) now"
    and "slots (bla_data (record_log evs bla)) = unat n"
    and "la_bucketLengthInMs (bla_data (record_log evs bla)) = I div n"
    and "la_intervalInMs (bla_data (record_log evs bla)) = I"
    and "\<And>p e. mb_Get (A p) e = period_sum (unat (I div n)) p e evs"
proof -
  let ?ws = "map (\<lambda>(t, e, c). WAdd t e c) evs"
  have "write_times t0 ?ws" using times unfolding write_times_def log_times_def write_time_WAdd .
  moreover have "\<forall>t \<in> set (t0 # map write_time ?ws). unat t \<le> unat now" using now unfolding write_time_WAdd .
  ultimately show thesis
    using that fresh_writes_rel [OF new I _ t0] unfolding record_log_writes write_log_WAdd
    by (metis (no_types, lifting) write_log_WAdd)
qed

text \<open>
  C1: The sliding window counts exactly what was recorded in it. Record any log of events, in time
  order, in a fresh array of \<open>n\<close> buckets over the interval \<open>I\<close>: at any later time the count of an
  event is the (64-bit) sum of what the log recorded for it in the latest \<open>n\<close> bucket periods,
  the current one included. Older events never count and recent ones are never lost.
\<close>

theorem CountWithTime_log:
  assumes "NewBucketLeapArray t0 n I = Ret bla" and "I mod n = 0"
    and "log_times t0 evs" and "unat t0 < 2 ^ 63" and "now \<noteq> 0" and "unat now < 2 ^ 63"
    and "\<forall>t \<in> set (t0 # map fst evs). unat t \<le> unat now"
  shows "fst (CountWithTime now e (record_log evs bla)) = log_sum (unat (I div n)) (unat n) now e evs"
proof -
  obtain T A where TA: "bla_rel T A (record_log evs bla)" "T \<le> period (bla_data (record_log evs bla)) now"
    "slots (bla_data (record_log evs bla)) = unat n"
    "la_bucketLengthInMs (bla_data (record_log evs bla)) = I div n"
    "la_intervalInMs (bla_data (record_log evs bla)) = I"
    "\<And>p e. mb_Get (A p) e = period_sum (unat (I div n)) p e evs"
    by (rule fresh_log_rel [OF assms(1-4,7)]) (rule that)
  have Q: "period (bla_data (record_log evs bla)) now = unat now div unat (I div n)"
    by (simp only: period_def TA(4))
  show ?thesis
    unfolding CountWithTime_rel [OF TA(1) assms(5,6) TA(2)] TA(3,6) Q
    by (rule period_sum_window [OF le_refl])
qed

text \<open>
  Two buckets of 500 ms: at 1700 the event recorded at 400 is gone and those of 1000 and 1600 count.
\<close>

definition demo_log :: event_log where
  "demo_log = [(400, MetricEventPass, 7), (1000, MetricEventPass, 1), (1600, MetricEventBlock, 1),
     (1600, MetricEventPass, 2)]"

theorem CountWithTime_log_witness:
  "\<exists>bla. NewBucketLeapArray 100 2 1000 = Ret bla \<and>
     fst (CountWithTime 1700 MetricEventPass (record_log demo_log bla)) = 3"
proof -
  have "\<exists>bla. NewBucketLeapArray 100 2 1000 = Ret bla"
    by (simp add: NewBucketLeapArray_def NewAtomicBucketWrapArrayWithTime_def Let_def split: prod.split)
  then obtain bla where bla: "NewBucketLeapArray 100 2 1000 = Ret bla" by blast
  have "fst (CountWithTime 1700 MetricEventPass (record_log demo_log bla)) =
      log_sum (unat (1000 div 2 :: u32)) (unat (2 :: u32)) 1700 MetricEventPass demo_log"
    by (rule CountWithTime_log [OF bla]) (simp_all add: demo_log_def log_times_def)
  also have "\<dots> = 3"
    by (simp add: log_sum_def demo_log_def event_defs event_in_range_def word_sle_eq word_sless_alt)
  finally show ?thesis using bla by blast
qed

end
