(* ===== verification/SlidingWindow.thy ===== *)
theory SlidingWindow
  imports BucketLeapArray MetricItem Float64
begin

text \<open>
  \<open>core/stat/base/sliding_window_metric.go\<close>: the read-only view of a bucket leap array over an
  interval of its own, and its aggregates. The view stores no data: its pointer \<open>real\<close> to the array
  that the writers share is the argument \<open>arr\<close> of its methods. A call reads the clock where the code does;
  the reading is an argument.
\<close>

section \<open>The code\<close>

record sliding_window =
  sw_bucketLengthInMs :: u32
  sw_sampleCount :: u32
  sw_intervalInMs :: u32

fun stat_error_msg :: "stat_error \<Rightarrow> string" where
  "stat_error_msg IllegalGlobalStatisticParamsError = ''invalid parameters, sampleCount or interval, for resource's global statistic''"
| "stat_error_msg IllegalStatisticParamsError = ''invalid parameters, sampleCount or interval, for metric statistic''"
| "stat_error_msg GlobalStatisticNonReusableError = ''the parameters, sampleCount and interval, mismatch for reusing between resource's global statistic and readonly metric statistic''"

definition NewSlidingWindowMetric :: "u32 \<Rightarrow> u32 \<Rightarrow> bucket_leap_array option \<Rightarrow> sliding_window go" where
  "NewSlidingWindowMetric sampleCount intervalInMs arr =
     (case arr of
        None \<Rightarrow> Err ''nil BucketLeapArray''
      | Some arr \<Rightarrow>
          (case CheckValidityForReuseStatistic sampleCount intervalInMs (bla_SampleCount arr) (bla_IntervalInMs arr) of
             Some err \<Rightarrow> Err (stat_error_msg err)
           | None \<Rightarrow>
               let bucketLengthInMs = intervalInMs div sampleCount
               in Ret \<lparr>sw_bucketLengthInMs = bucketLengthInMs, sw_sampleCount = sampleCount,
                       sw_intervalInMs = intervalInMs\<rparr>))"

definition getBucketStartRange :: "sliding_window \<Rightarrow> bucket_leap_array \<Rightarrow> u64 \<Rightarrow> u64 \<times> u64" where
  "getBucketStartRange m arr timeMs =
     (let curBucketStartTime = calculateStartTime timeMs (bla_BucketLengthInMs arr);
          stop = curBucketStartTime;
          start = stop - ucast (sw_intervalInMs m) + ucast (bla_BucketLengthInMs arr)
      in (start, stop))"

definition getIntervalInSecond :: "sliding_window \<Rightarrow> f64" where
  "getIntervalInSecond m = fdiv (f64_of_int (uint (sw_intervalInMs m))) (Fin 1000)"

text \<open>The loops over buckets skip a bucket without a value; the type assertion always holds.\<close>

definition sw_count :: "metric_event \<Rightarrow> metric_bucket bucket_wrap list \<Rightarrow> i64" where
  "sw_count event values = foldl (\<lambda>ret b. ret + mb_Get b event) 0 (bucket_values values)"

definition getSatisfiedBuckets :: "sliding_window \<Rightarrow> bucket_leap_array \<Rightarrow> u64 \<Rightarrow> metric_bucket bucket_wrap list" where
  "getSatisfiedBuckets m arr now =
     (let (start, stop) = getBucketStartRange m arr now
      in bla_ValuesConditional now (\<lambda>ws. start \<le> ws \<and> ws \<le> stop) arr)"

definition getSumWithTime :: "sliding_window \<Rightarrow> bucket_leap_array \<Rightarrow> u64 \<Rightarrow> metric_event \<Rightarrow> i64" where
  "getSumWithTime m arr now event = sw_count event (getSatisfiedBuckets m arr now)"

definition getQPSWithTime :: "sliding_window \<Rightarrow> bucket_leap_array \<Rightarrow> u64 \<Rightarrow> metric_event \<Rightarrow> f64" where
  "getQPSWithTime m arr now event =
     fdiv (f64_of_int (sint (getSumWithTime m arr now event))) (getIntervalInSecond m)"

definition GetPreviousQPS :: "sliding_window \<Rightarrow> bucket_leap_array \<Rightarrow> u64 \<Rightarrow> metric_event \<Rightarrow> f64" where
  "GetPreviousQPS m arr now event = getQPSWithTime m arr (now - ucast (sw_bucketLengthInMs m)) event"

definition GetMaxOfSingleBucket :: "sliding_window \<Rightarrow> bucket_leap_array \<Rightarrow> u64 \<Rightarrow> metric_event \<Rightarrow> i64" where
  "GetMaxOfSingleBucket m arr now event =
     foldl (\<lambda>curMax b. let v = mb_Get b event in if curMax <s v then v else curMax) 0
       (bucket_values (getSatisfiedBuckets m arr now))"

definition sw_MinRT :: "sliding_window \<Rightarrow> bucket_leap_array \<Rightarrow> u64 \<Rightarrow> f64" where
  "sw_MinRT m arr now =
     (let minRt' = foldl (\<lambda>r b. let v = minRt b in if v <s r then v else r) DefaultStatisticMaxRt
            (bucket_values (getSatisfiedBuckets m arr now));
          minRt' = (if minRt' <s 1 then 1 else minRt')
      in f64_of_int (sint minRt'))"

definition sw_MaxConcurrency :: "sliding_window \<Rightarrow> bucket_leap_array \<Rightarrow> u64 \<Rightarrow> i32" where
  "sw_MaxConcurrency m arr now =
     foldl (\<lambda>r b. let v = maxConcurrency b in if r <s v then v else r) 0
       (bucket_values (getSatisfiedBuckets m arr now))"

text \<open>\<open>AvgRT\<close> reads the clock twice, once per sum.\<close>

definition sw_AvgRT :: "sliding_window \<Rightarrow> bucket_leap_array \<Rightarrow> u64 \<Rightarrow> u64 \<Rightarrow> f64" where
  "sw_AvgRT m arr now now' =
     fdiv (f64_of_int (sint (getSumWithTime m arr now MetricEventRt)))
       (f64_of_int (sint (getSumWithTime m arr now' MetricEventComplete)))"

section \<open>Metric items\<close>

text \<open>One bucket added to an item; \<open>None\<close> for a bucket without a value.\<close>

definition add_bucket :: "metric_item \<times> i64 \<Rightarrow> metric_bucket \<Rightarrow> metric_item \<times> i64" where
  "add_bucket acc mb =
     (let (item, allRt) = acc;
          item = item\<lparr>mi_PassQps := mi_PassQps item + mb_Get mb MetricEventPass,
            mi_BlockQps := mi_BlockQps item + mb_Get mb MetricEventBlock,
            mi_ErrorQps := mi_ErrorQps item + mb_Get mb MetricEventError,
            mi_CompleteQps := mi_CompleteQps item + mb_Get mb MetricEventComplete\<rparr>;
          mc = maxConcurrency mb;
          item = (if mi_Concurrency item < mc then item\<lparr>mi_Concurrency := mc\<rparr> else item);
          allRt = allRt + mb_Get mb MetricEventRt;
          item = item\<lparr>mi_BlockedNumByFlow := mi_BlockedNumByFlow item + mb_Get mb MetricEventBlockFlow,
            mi_BlockedNumByIsolation := mi_BlockedNumByIsolation item + mb_Get mb MetricEventBlockIsolation,
            mi_BlockedNumByCircuitBreaking := mi_BlockedNumByCircuitBreaking item + mb_Get mb MetricEventBlockCircuitBreaking,
            mi_BlockedNumBySystem := mi_BlockedNumBySystem item + mb_Get mb MetricEventBlockSystem,
            mi_BlockedNumByHotspotParam := mi_BlockedNumByHotspotParam item + mb_Get mb MetricEventBlockHotSpotParamFlow,
            mi_BlockedNumByMock := mi_BlockedNumByMock item + mb_Get mb MetricEventBlockMock\<rparr>
      in (item, allRt))"

fun add_buckets :: "metric_bucket bucket_wrap list \<Rightarrow> metric_item \<times> i64 \<Rightarrow> (metric_item \<times> i64) option" where
  "add_buckets [] acc = Some acc"
| "add_buckets (w # ws) acc =
     (case Value w of None \<Rightarrow> None | Some mb \<Rightarrow> add_buckets ws (add_bucket acc mb))"

definition metricItemFromBuckets :: "u64 \<Rightarrow> metric_bucket bucket_wrap list \<Rightarrow> metric_item option" where
  "metricItemFromBuckets ts ws =
     (case add_buckets ws (empty_item\<lparr>mi_Timestamp := ts\<rparr>, 0) of
        None \<Rightarrow> None
      | Some (item, allRt) \<Rightarrow>
          if mi_CompleteQps item > 0 then Some (item\<lparr>mi_AvgRt := allRt div mi_CompleteQps item\<rparr>)
          else Some (item\<lparr>mi_AvgRt := allRt\<rparr>))"

text \<open>Go's signed 64-bit division truncates.\<close>

definition i64_quot :: "i64 \<Rightarrow> i64 \<Rightarrow> i64" where
  "i64_quot a b = of_int (sgn (sint a) * sgn (sint b) * (\<bar>sint a\<bar> div \<bar>sint b\<bar>))"

definition metricItemFromBucket :: "metric_bucket bucket_wrap \<Rightarrow> metric_item option" where
  "metricItemFromBucket w =
     (case Value w of
        None \<Rightarrow> None
      | Some mb \<Rightarrow>
          let completeQps = mb_Get mb MetricEventComplete;
              item = empty_item\<lparr>mi_PassQps := mb_Get mb MetricEventPass,
                mi_BlockQps := mb_Get mb MetricEventBlock, mi_ErrorQps := mb_Get mb MetricEventError,
                mi_CompleteQps := completeQps, mi_Timestamp := BucketStart w\<rparr>
          in Some (if 0 <s completeQps
                   then item\<lparr>mi_AvgRt := i64_quot (mb_Get mb MetricEventRt) completeQps\<rparr>
                   else item\<lparr>mi_AvgRt := mb_Get mb MetricEventRt\<rparr>))"

definition secStart :: "metric_bucket bucket_wrap \<Rightarrow> u64" where
  "secStart w = (let bucketStart = BucketStart w in bucketStart - bucketStart mod 1000)"

text \<open>The map from seconds to buckets, then one item per second.\<close>

definition group_seconds :: "metric_bucket bucket_wrap list \<Rightarrow> (u64, metric_bucket bucket_wrap list) gomap" where
  "group_seconds ws = foldl (\<lambda>wm w.
     case mget wm (secStart w) of
       Some vs \<Rightarrow> mput (secStart w) (vs @ [w]) wm
     | None \<Rightarrow> mput (secStart w) [w] wm) [] ws"

definition SecondMetricsOnCondition :: "bucket_leap_array \<Rightarrow> u64 \<Rightarrow> (u64 \<Rightarrow> bool) \<Rightarrow> metric_item list" where
  "SecondMetricsOnCondition arr now predicate =
     (let ws = bla_ValuesConditional now predicate arr;
          wm = group_seconds ws
      in concat (map (\<lambda>(ts, values).
           if length values = 0 then []
           else case metricItemFromBuckets ts values of Some item \<Rightarrow> [item] | None \<Rightarrow> []) wm))"

section \<open>The view reads the latest periods\<close>

text \<open>The interval of a view covers a whole number \<open>k\<close> of the array's buckets.\<close>

definition sw_covers :: "nat \<Rightarrow> sliding_window \<Rightarrow> bucket_leap_array \<Rightarrow> bool" where
  "sw_covers k m arr \<longleftrightarrow> unat (sw_intervalInMs m) = k * unat (la_bucketLengthInMs (bla_data arr)) \<and>
     k \<le> slots (bla_data arr)"

lemma unat_dvd_mod: "a mod b = 0 \<Longrightarrow> unat (b :: 'a::len word) dvd unat a"
  by (metis dvd_eq_mod_eq_0 unat_0 unat_mod)

lemma unat_div_mult: "a mod b = 0 \<Longrightarrow> unat a = unat (a div b) * unat (b :: 'a::len word)"
  by (metis add.right_neutral div_mult_mod_eq unat_0 unat_div unat_mod)

lemma NewSlidingWindowMetric_covers:
  assumes new: "NewSlidingWindowMetric n I (Some arr) = Ret m"
    and arr: "la_intervalInMs (bla_data arr) = P" "la_bucketLengthInMs (bla_data arr) = P div N"
      "la_sampleCount (bla_data arr) = N" "slots (bla_data arr) = unat N"
  shows "sw_covers (unat I div unat (P div N)) m arr" and "sw_intervalInMs m = I"
proof -
  have v: "CheckValidityForReuseStatistic n I N P = None"
    using new by (simp add: NewSlidingWindowMetric_def bla_SampleCount_def bla_IntervalInMs_def arr
        split: option.splits)
  have m: "m = \<lparr>sw_bucketLengthInMs = I div n, sw_sampleCount = n, sw_intervalInMs = I\<rparr>"
    using new v by (simp add: NewSlidingWindowMetric_def bla_SampleCount_def bla_IntervalInMs_def arr Let_def)
  then show "sw_intervalInMs m = I" by simp
  from v have c: "I mod n = 0" "P mod N = 0" "P mod I = 0" "I div n mod (P div N) = 0" "P \<noteq> 0" "N \<noteq> 0"
    by (auto simp: CheckValidityForReuseStatistic_def Let_def split: if_splits)
  let ?L = "unat (P div N)"
  have P: "unat P = ?L * unat N" using c(2) by (rule unat_div_mult)
  have "?L dvd unat (I div n)" using c(4) by (rule unat_dvd_mod)
  then have "?L dvd unat I" using unat_div_mult [OF c(1)] by simp
  then have k: "unat I = unat I div ?L * ?L" by simp
  have "unat I dvd unat P" using c(3) by (rule unat_dvd_mod)
  moreover have p: "0 < unat P" using c(5) by (simp add: unat_gt_0)
  ultimately have "unat I \<le> unat P" using dvd_imp_le by blast
  then have "unat I div ?L * ?L \<le> unat N * ?L"
    by (simp only: k [symmetric] mult.commute [of "unat N"] P [symmetric])
  moreover have "0 < ?L" using P p by (metis mult_0 neq0_conv less_irrefl)
  ultimately have "unat I div ?L \<le> unat N" by simp
  with k show "sw_covers (unat I div ?L) m arr" by (simp add: sw_covers_def m arr)
qed

text \<open>The buckets of a view are those of the latest \<open>k\<close> periods, once the clock is past one interval.\<close>

lemma getSatisfiedBuckets_eq:
  assumes rel: "bla_rel T A arr" and now: "now \<noteq> 0" "unat now < 2 ^ 63" and T: "T \<le> period (bla_data arr) now"
    and k: "sw_covers k m arr" and full: "unat (sw_intervalInMs m) \<le> unat now"
  shows "bucket_values (getSatisfiedBuckets m arr now) = map (bval (bla_data arr))
    (filter (\<lambda>i. per (bla_data arr) i \<le> period (bla_data arr) now \<and>
        period (bla_data arr) now < per (bla_data arr) i + k) [0 ..< slots (bla_data arr)])"
proof -
  let ?la = "bla_data arr"
  let ?L = "unat (la_bucketLengthInMs ?la)" and ?Q = "period ?la now"
  let ?stop = "calculateStartTime now (la_bucketLengthInMs ?la)"
  let ?start = "?stop - ucast (sw_intervalInMs m) + ucast (la_bucketLengthInMs ?la)"
  have inv: "la_inv mb_wf ?la" and f: "\<And>i. i < slots ?la \<Longrightarrow> per ?la i < ?Q + slots ?la"
    using rel T by (fastforce simp: bla_rel_def la_rel_def)+
  have L: "0 < ?L" using la_inv_shape [OF inv] by (simp add: la_shape_def)
  have I: "unat (sw_intervalInMs m) = k * ?L" and kn: "k \<le> slots ?la" using k by (simp_all add: sw_covers_def)
  have kQ: "k \<le> ?Q" using full I L by (simp add: period_def less_eq_div_iff_mult_less_eq)
  have stop: "unat ?stop = ?Q * ?L" using L by (simp add: time_simps period_def)
  have d: "unat (?stop - ucast (sw_intervalInMs m)) = ?Q * ?L - k * ?L"
  proof -
    have "(ucast (sw_intervalInMs m) :: u64) \<le> ?stop"
      using kQ by (simp add: word_le_nat_alt I stop)
    then show ?thesis by (simp add: unat_sub I stop)
  qed
  have nowd: "?Q * ?L \<le> unat now" by (simp add: period_def)
  have small: "unat (?stop - ucast (sw_intervalInMs m)) + unat (ucast (la_bucketLengthInMs ?la) :: u64) < 2 ^ 64"
    using d nowd now(2) unat_u32_lt [of "la_bucketLengthInMs ?la"] by simp
  have start: "unat ?start = (?Q + 1 - k) * ?L"
    using unat_add_no_wrap [OF small] kQ by (simp add: d diff_mult_distrib [symmetric] Suc_diff_le)
  have "getSatisfiedBuckets m arr now = la_ValuesConditional ?la now (\<lambda>ws. ?start \<le> ws \<and> ws \<le> ?stop)"
    by (simp add: getSatisfiedBuckets_def getBucketStartRange_def bla_ValuesConditional_def
        bla_BucketLengthInMs_def Let_def)
  also have "\<dots> = map (entry ?la) (filter (\<lambda>i. per ?la i \<le> ?Q \<and> ?Q < per ?la i + k) [0 ..< slots ?la])"
    by (rule mbgen.ValuesConditional_eq [OF inv now f kn start stop])
  finally show ?thesis
    by (simp only:) (rule bucket_values_entries [OF inv], simp)
qed

lemma getSumWithTime_rel:
  assumes rel: "bla_rel T A arr" and now: "now \<noteq> 0" "unat now < 2 ^ 63" and T: "T \<le> period (bla_data arr) now"
    and k: "sw_covers k m arr" and full: "unat (sw_intervalInMs m) \<le> unat now"
  shows "getSumWithTime m arr now e =
    (\<Sum>p \<in> {period (bla_data arr) now + 1 - k .. period (bla_data arr) now}. mb_Get (A p) e)"
proof -
  have "mbgen.rel T A (bla_data arr)" using rel by (simp add: bla_rel_def)
  then show ?thesis
    using mbgen.window_sum [of T A "bla_data arr", OF _ T, of k "\<lambda>b. mb_Get b e"] k
    by (simp add: getSumWithTime_def sw_count_def foldl_sum getSatisfiedBuckets_eq [OF assms] sum_bvals
        mb_Get_New sw_covers_def del: map_map)
qed

text \<open>Through a view, a fresh array after valid writes shows the log of its latest periods.\<close>

lemma view_writes:
  assumes "NewBucketLeapArray t0 N P = Ret arr" and "NewSlidingWindowMetric n I (Some arr) = Ret m"
    and "write_times t0 ws" and "unat t0 < 2 ^ 63" and "now \<noteq> 0" and "unat now < 2 ^ 63"
    and "\<forall>t \<in> set (t0 # map write_time ws). unat t \<le> unat now" and "unat I \<le> unat now"
  shows "getSumWithTime m (foldl do_write arr ws) now e =
    log_sum (unat (P div N)) (unat I div unat (P div N)) now e (write_log ws)"
    and "sw_intervalInMs m = I"
proof -
  let ?L = "unat (P div N)" and ?arr = "foldl do_write arr ws"
  have N: "N \<noteq> 0" using assms(1) by (auto simp: NewBucketLeapArray_def split: if_splits)
  have fields: "la_sampleCount (bla_data arr) = N" "la_intervalInMs (bla_data arr) = P"
    using assms(1) N by (auto simp: NewBucketLeapArray_def go_bind_Ret_iff Let_def)
  have PN: "P mod N = 0"
    using assms(2) by (auto simp: NewSlidingWindowMetric_def CheckValidityForReuseStatistic_def
        bla_SampleCount_def bla_IntervalInMs_def fields Let_def split: option.splits if_splits)
  have I': "unat P = unat (P div N) * unat N" using PN by (rule unat_div_mult)
  note fr = NewBucketLeapArray_rel [OF assms(1) I' assms(4)]
  note cov = NewSlidingWindowMetric_covers [OF assms(2) fields(2) fr(3) fields(1) fr(2)]
  then show "sw_intervalInMs m = I" by blast
  obtain T A where TA: "bla_rel T A ?arr" "T \<le> period (bla_data ?arr) now"
    "slots (bla_data ?arr) = unat N" "la_bucketLengthInMs (bla_data ?arr) = P div N"
    "la_intervalInMs (bla_data ?arr) = P" "\<And>p e. mb_Get (A p) e = period_sum ?L p e (write_log ws)"
    by (rule fresh_writes_rel [OF assms(1) PN assms(3,4,7)]) (rule that)
  have k: "sw_covers (unat I div ?L) m ?arr"
    using cov(1) by (simp add: sw_covers_def TA(3,4) fr(2,3))
  then have le: "unat I div ?L \<le> unat N" by (simp add: sw_covers_def TA(3))
  have Q: "period (bla_data ?arr) now = unat now div ?L" by (simp only: period_def TA(4))
  have full: "unat (sw_intervalInMs m) \<le> unat now" using assms(8) cov(2) by simp
  show "getSumWithTime m ?arr now e = log_sum ?L (unat I div ?L) now e (write_log ws)"
    unfolding getSumWithTime_rel [OF TA(1) assms(5,6) TA(2) k full] TA(6) Q
    by (rule period_sum_window [OF le])
qed

text \<open>
  C15: The rates that the rules compare with their thresholds are exact. Record any log of events, in
  time order, in a fresh array, and read it through any view that the reuse check accepts: at any later
  time that is at least one interval after the epoch, the sum of an event is what the log recorded for
  it in the latest \<open>k\<close> bucket periods, where \<open>k\<close> buckets make up the interval of the view, and
  its QPS is that sum divided by the interval in seconds.
\<close>

theorem sliding_window_log:
  assumes "NewBucketLeapArray t0 N P = Ret arr" and "NewSlidingWindowMetric n I (Some arr) = Ret m"
    and "log_times t0 evs" and "unat t0 < 2 ^ 63" and "now \<noteq> 0" and "unat now < 2 ^ 63"
    and "\<forall>t \<in> set (t0 # map fst evs). unat t \<le> unat now" and "unat I \<le> unat now"
  defines "L \<equiv> unat (P div N)" and "arr' \<equiv> record_log evs arr"
  shows "getSumWithTime m arr' now e = log_sum L (unat I div L) now e evs \<and>
    getQPSWithTime m arr' now e =
      fdiv (f64_of_int (sint (log_sum L (unat I div L) now e evs)))
        (fdiv (f64_of_int (int (unat I))) (Fin 1000))"
proof -
  let ?ws = "map (\<lambda>(t, e, c). WAdd t e c) evs"
  have "write_times t0 ?ws" "\<forall>t \<in> set (t0 # map write_time ?ws). unat t \<le> unat now"
    using assms(3,7) unfolding write_times_def log_times_def write_time_WAdd by blast+
  note v = view_writes [OF assms(1,2) this(1) assms(4,5,6) this(2) assms(8), unfolded write_log_WAdd,
      folded record_log_writes arr'_def L_def]
  show ?thesis
    by (simp only: getQPSWithTime_def v getIntervalInSecond_def uint_nat simp_thms)
qed

text \<open>Two of the ten buckets of 500 ms: at 6700 the block of 6100 and the passes of 6600 are in view.\<close>

definition view_log :: event_log where
  "view_log = [(5400, MetricEventPass, 7), (6100, MetricEventPass, 1), (6600, MetricEventBlock, 1),
     (6600, MetricEventPass, 2)]"

theorem sliding_window_log_witness:
  "\<exists>arr m. NewBucketLeapArray 100 10 5000 = Ret arr \<and> NewSlidingWindowMetric 2 1000 (Some arr) = Ret m \<and>
     getSumWithTime m (record_log view_log arr) 6700 MetricEventPass = 3"
proof -
  have "\<exists>arr. NewBucketLeapArray 100 10 5000 = Ret arr \<and> bla_SampleCount arr = 10 \<and> bla_IntervalInMs arr = 5000"
    by (simp add: NewBucketLeapArray_def NewAtomicBucketWrapArrayWithTime_def bla_SampleCount_def
        bla_IntervalInMs_def Let_def split: prod.split)
  then obtain arr where arr: "NewBucketLeapArray 100 10 5000 = Ret arr" "bla_SampleCount arr = 10"
    "bla_IntervalInMs arr = 5000" by blast
  then have "\<exists>m. NewSlidingWindowMetric 2 1000 (Some arr) = Ret m"
    by (simp add: NewSlidingWindowMetric_def CheckValidityForReuseStatistic_def Let_def)
  then obtain m where m: "NewSlidingWindowMetric 2 1000 (Some arr) = Ret m" by blast
  have "getSumWithTime m (record_log view_log arr) 6700 MetricEventPass =
      log_sum (unat (5000 div 10 :: u32)) (unat (1000 :: u32) div unat (5000 div 10 :: u32)) 6700 MetricEventPass view_log"
    by (rule sliding_window_log [OF arr(1) m, THEN conjunct1]) (simp_all add: view_log_def log_times_def)
  also have "\<dots> = 3"
    by (simp add: log_sum_def view_log_def event_defs event_in_range_def word_sle_eq word_sless_alt)
  finally show ?thesis using arr(1) m by blast
qed

section \<open>One metric item per second\<close>

lemma add_buckets_all:
  "\<forall>w \<in> set ws. Value w \<noteq> None \<Longrightarrow> add_buckets ws acc = Some (foldl add_bucket acc (bucket_values ws))"
proof (induction ws arbitrary: acc)
  case (Cons w ws)
  then obtain b where "Value w = Some b" and "\<forall>w \<in> set ws. Value w \<noteq> None" by auto
  with Cons.IH [of "add_bucket acc b"] show ?case by (simp add: bucket_values_def)
qed (simp add: bucket_values_def)

text \<open>The item of a list of buckets: the sums of their counters and the highest concurrency.\<close>

definition item_of :: "u64 \<Rightarrow> (metric_event \<Rightarrow> i64) \<Rightarrow> u32 \<Rightarrow> metric_item" where
  "item_of ts f conc = \<lparr>mi_Resource = [], mi_Classification = 0, mi_Timestamp = ts,
     mi_PassQps = f MetricEventPass, mi_BlockQps = f MetricEventBlock,
     mi_CompleteQps = f MetricEventComplete, mi_ErrorQps = f MetricEventError,
     mi_AvgRt = (if 0 < f MetricEventComplete then f MetricEventRt div f MetricEventComplete else f MetricEventRt),
     mi_OccupiedPassQps = 0, mi_Concurrency = conc,
     mi_BlockedNumByFlow = f MetricEventBlockFlow, mi_BlockedNumByIsolation = f MetricEventBlockIsolation,
     mi_BlockedNumByCircuitBreaking = f MetricEventBlockCircuitBreaking,
     mi_BlockedNumBySystem = f MetricEventBlockSystem,
     mi_BlockedNumByHotspotParam = f MetricEventBlockHotSpotParamFlow,
     mi_BlockedNumByMock = f MetricEventBlockMock\<rparr>"

lemma item_of_Timestamp [simp]: "mi_Timestamp (item_of ts f conc) = ts"
  by (simp add: item_of_def)

lemma foldl_add_bucket:
  "foldl add_bucket (empty_item\<lparr>mi_Timestamp := ts\<rparr>, 0) bs =
     ((item_of ts (\<lambda>e. \<Sum>b \<leftarrow> bs. mb_Get b e) (foldl (\<lambda>m b. max m (maxConcurrency b)) 0 bs))\<lparr>mi_AvgRt := 0\<rparr>,
      \<Sum>b \<leftarrow> bs. mb_Get b MetricEventRt)"
proof (induction bs rule: rev_induct)
  case Nil
  show ?case by (simp add: item_of_def empty_item_def)
next
  case (snoc b bs)
  show ?case
    by (simp only: foldl_append foldl.simps snoc) (auto simp: add_bucket_def item_of_def Let_def max_def)
qed

lemma metricItemFromBuckets_item:
  assumes "\<forall>w \<in> set ws. Value w \<noteq> None"
  shows "metricItemFromBuckets ts ws = Some (item_of ts (\<lambda>e. \<Sum>b \<leftarrow> bucket_values ws. mb_Get b e)
    (foldl (\<lambda>m b. max m (maxConcurrency b)) 0 (bucket_values ws)))"
  by (simp add: metricItemFromBuckets_def add_buckets_all [OF assms] foldl_add_bucket) (simp add: item_of_def)

lemma group_seconds_spec:
  "mwf (group_seconds ws) \<and> mget (group_seconds ws) ts =
     (let vs = filter (\<lambda>w. secStart w = ts) ws in if vs = [] then None else Some vs)"
proof (induction ws arbitrary: ts rule: rev_induct)
  case Nil
  then show ?case by (simp add: group_seconds_def)
next
  case (snoc w ws)
  have "group_seconds (ws @ [w]) = (case mget (group_seconds ws) (secStart w) of
       Some vs \<Rightarrow> mput (secStart w) (vs @ [w]) (group_seconds ws)
     | None \<Rightarrow> mput (secStart w) [w] (group_seconds ws))"
    unfolding group_seconds_def by simp
  with snoc [of "secStart w"] snoc [of ts] show ?case
    by (auto simp: Let_def map_simps)
qed

text \<open>The specification: what a log recorded for an event in the selected buckets of a second.\<close>

definition second_sum :: "u32 \<Rightarrow> (u64 \<Rightarrow> bool) \<Rightarrow> u64 \<Rightarrow> metric_event \<Rightarrow> event_log \<Rightarrow> i64" where
  "second_sum len predicate ts e evs =
     (\<Sum>(t, e', c) \<leftarrow> evs. let start = calculateStartTime t len in
        if predicate start \<and> start - start mod 1000 = ts \<and> e' = e \<and> event_in_range e then c else 0)"

text \<open>Summing the periods of a selection is summing the log.\<close>

lemma period_sum_selected:
  assumes "finite W" and "\<And>t. t \<in> set (map fst evs) \<Longrightarrow> R (unat t div L) \<Longrightarrow> unat t div L \<in> W"
  shows "(\<Sum>p \<in> W. if R p then period_sum L p e evs else 0) =
    (\<Sum>(t, e', c) \<leftarrow> evs. if R (unat t div L) \<and> e' = e \<and> event_in_range e then c else 0)"
  using assms(2)
proof (induction evs)
  case Nil
  show ?case by (auto simp: period_sum_def intro!: sum.neutral)
next
  case (Cons ev evs)
  obtain t e' c where ev: "ev = (t, e', c)" by (cases ev)
  let ?x = "if R (unat t div L) \<and> e' = e \<and> event_in_range e then c else 0"
  have "(\<Sum>p \<in> W. if R p then period_sum L p e (ev # evs) else 0) =
      (\<Sum>p \<in> W. (if unat t div L = p then ?x else 0) + (if R p then period_sum L p e evs else 0))"
    by (rule sum.cong) (auto simp: ev period_sum_def)
  also have "\<dots> = (\<Sum>p \<in> W. if unat t div L = p then ?x else 0) + (\<Sum>p \<in> W. if R p then period_sum L p e evs else 0)"
    by (rule sum.distrib)
  also have "(\<Sum>p \<in> W. if unat t div L = p then ?x else 0) = ?x"
    using assms(1) Cons.prems [of t] by (auto simp: sum.delta ev)
  finally show ?case
    using Cons by (simp add: ev)
qed

lemma word_of_unat: "unat w = n \<Longrightarrow> of_nat n = (w :: 'a::len word)"
  by auto

text \<open>
  What a total of the selected buckets of a second is: the same total of the contents of the selected
  periods. \<open>selected\<close> says whether the period that holds a time is selected.
\<close>

definition selected :: "u32 \<Rightarrow> (u64 \<Rightarrow> bool) \<Rightarrow> u64 \<Rightarrow> u64 \<Rightarrow> bool" where
  "selected len predicate ts t =
     (let start = calculateStartTime t len in predicate start \<and> start - start mod 1000 = ts)"

abbreviation second_buckets :: "u64 \<Rightarrow> (u64 \<Rightarrow> bool) \<Rightarrow> u64 \<Rightarrow> bucket_leap_array \<Rightarrow> metric_bucket list" where
  "second_buckets now predicate ts arr \<equiv>
     bucket_values (filter (\<lambda>w. secStart w = ts) (bla_ValuesConditional now predicate arr))"

lemma selected_buckets_total:
  fixes h :: "metric_bucket \<Rightarrow> 'c :: comm_monoid_add"
  assumes rel: "bla_rel T A arr" and now: "now \<noteq> 0" "unat now < 2 ^ 63" and T: "T \<le> period (bla_data arr) now"
    and recent: "\<And>ws. predicate ws \<Longrightarrow> unat now < unat ws + unat (la_intervalInMs (bla_data arr))"
    and h: "h NewMetricBucket = 0"
  obtains W R where "finite W" and "(\<Sum>b \<leftarrow> second_buckets now predicate ts arr. h b) = (\<Sum>p \<in> W. if R p then h (A p) else 0)"
    and "\<And>t. R (unat t div unat (la_bucketLengthInMs (bla_data arr))) = selected (la_bucketLengthInMs (bla_data arr)) predicate ts t"
    and "\<And>t :: u64. R (unat t div unat (la_bucketLengthInMs (bla_data arr))) \<Longrightarrow> unat t \<le> unat now \<Longrightarrow>
      unat t div unat (la_bucketLengthInMs (bla_data arr)) \<in> W"
proof -
  let ?la = "bla_data arr"
  let ?L = "unat (la_bucketLengthInMs ?la)" and ?Q = "period ?la now" and ?n = "slots ?la"
  define R where "R p \<longleftrightarrow> predicate (of_nat (p * ?L)) \<and>
      (of_nat (p * ?L) :: u64) - of_nat (p * ?L) mod 1000 = ts" for p
  have r: "mbgen.rel T A ?la" using rel by (simp add: bla_rel_def)
  then have inv: "la_inv mb_wf ?la" and f: "\<And>i. i < ?n \<Longrightarrow> per ?la i < ?Q + ?n"
    using T by (fastforce simp: la_rel_def)+
  have L: "0 < ?L" and I: "unat (la_intervalInMs ?la) = ?L * ?n"
    using la_inv_shape [OF inv] by (simp_all add: la_shape_def)
  have st: "BucketStart (entry ?la i) = of_nat (per ?la i * ?L)" if "i < ?n" for i
    using slot_okD(4) [OF la_inv_slot [OF inv that]] by (intro word_of_unat [symmetric])
  have R: "predicate (BucketStart (entry ?la i)) \<and> secStart (entry ?la i) = ts \<longleftrightarrow> R (per ?la i)" if "i < ?n" for i
    by (simp only: secStart_def Let_def R_def st [OF that])
  have start: "of_nat (unat t div ?L * ?L) = calculateStartTime t (la_bucketLengthInMs ?la)" for t :: u64
    using unat_calculateStartTime [of t ?la] by (intro word_of_unat) (simp add: period_def)
  let ?V = "{i. i < ?n \<and> per ?la i \<le> ?Q \<and> ?Q < per ?la i + ?n}"
  let ?is = "filter (\<lambda>i. per ?la i \<le> ?Q \<and> ?Q < per ?la i + ?n \<and> R (per ?la i)) [0 ..< ?n]"
  have "bla_ValuesConditional now predicate arr = map (entry ?la) (filter (\<lambda>i. per ?la i \<le> ?Q \<and>
      ?Q < per ?la i + ?n \<and> predicate (BucketStart (entry ?la i))) [0 ..< ?n])"
    unfolding bla_ValuesConditional_def by (rule mbgen.ValuesConditional_pred [OF inv now f recent])
  then have "filter (\<lambda>w. secStart w = ts) (bla_ValuesConditional now predicate arr) = map (entry ?la)
      (filter (\<lambda>i. (per ?la i \<le> ?Q \<and> ?Q < per ?la i + ?n \<and> predicate (BucketStart (entry ?la i))) \<and>
        secStart (entry ?la i) = ts) [0 ..< ?n])"
    by (simp add: filter_map o_def conj_ac)
  also have "\<dots> = map (entry ?la) ?is"
    by (intro arg_cong [where f = "map (entry ?la)"] filter_cong refl) (use R in auto)
  finally have "second_buckets now predicate ts arr = map (bval ?la) ?is"
    by (simp only:) (rule bucket_values_entries [OF inv], simp)
  then have "(\<Sum>b \<leftarrow> second_buckets now predicate ts arr. h b)
      = (\<Sum>i | i < ?n \<and> per ?la i \<le> ?Q \<and> ?Q < per ?la i + ?n \<and> R (per ?la i). h (bval ?la i))"
    by (simp only: sum_bvals)
  also have "\<dots> = (\<Sum>i \<in> ?V. if R (per ?la i) then h (bval ?la i) else 0)"
  proof -
    have "{i. i < ?n \<and> per ?la i \<le> ?Q \<and> ?Q < per ?la i + ?n \<and> R (per ?la i)} = {i \<in> ?V. R (per ?la i)}" by auto
    then show ?thesis by (simp only:) (rule sum.inter_filter, simp)
  qed
  also have "\<dots> = (\<Sum>p \<in> {?Q + 1 - ?n .. ?Q}. if R p then h (A p) else 0)"
    by (rule mbgen.window_sum_at [OF r T le_refl, of "\<lambda>p b. if R p then h b else 0"]) (simp add: h)
  finally have total: "(\<Sum>b \<leftarrow> second_buckets now predicate ts arr. h b) =
      (\<Sum>p \<in> {?Q + 1 - ?n .. ?Q}. if R p then h (A p) else 0)" .
  have sel: "R (unat t div ?L) = selected (la_bucketLengthInMs ?la) predicate ts t" for t
    by (simp only: R_def selected_def start Let_def)
  show thesis
  proof (rule that [OF _ total sel])
    fix t :: u64 assume t: "R (unat t div ?L)" "unat t \<le> unat now"
    then have "predicate (calculateStartTime t (la_bucketLengthInMs ?la))"
      unfolding R_def start by blast
    from recent [OF this] have "unat now < unat t div ?L * ?L + ?L * ?n"
      by (simp add: I time_simps period_def)
    then have "unat now div ?L < unat t div ?L + ?n"
      using L by (simp add: div_less_iff_less_mult algebra_simps)
    then show "unat t div ?L \<in> {?Q + 1 - ?n .. ?Q}"
      using t(2) by (auto simp: period_def div_le_mono)
  qed simp
qed

lemma selected_buckets_sum:
  assumes rel: "bla_rel T A arr" and now: "now \<noteq> 0" "unat now < 2 ^ 63" and T: "T \<le> period (bla_data arr) now"
    and A: "\<And>p e. mb_Get (A p) e = period_sum (unat (la_bucketLengthInMs (bla_data arr))) p e evs"
    and times: "\<And>t. t \<in> set (map fst evs) \<Longrightarrow> unat t \<le> unat now"
    and recent: "\<And>ws. predicate ws \<Longrightarrow> unat now < unat ws + unat (la_intervalInMs (bla_data arr))"
  shows "(\<Sum>b \<leftarrow> second_buckets now predicate ts arr. mb_Get b e)
    = second_sum (la_bucketLengthInMs (bla_data arr)) predicate ts e evs"
proof -
  let ?l = "la_bucketLengthInMs (bla_data arr)"
  obtain W R where WR: "finite W" "(\<Sum>b \<leftarrow> second_buckets now predicate ts arr. mb_Get b e) =
      (\<Sum>p \<in> W. if R p then mb_Get (A p) e else 0)"
    "\<And>t. R (unat t div unat ?l) = selected ?l predicate ts t"
    "\<And>t :: u64. R (unat t div unat ?l) \<Longrightarrow> unat t \<le> unat now \<Longrightarrow> unat t div unat ?l \<in> W"
    by (rule selected_buckets_total [OF rel now T recent, where h = "\<lambda>b. mb_Get b e" and ts = ts and predicate = predicate])
      (assumption, rule mb_Get_New, rule that)
  have "(\<Sum>p \<in> W. if R p then period_sum (unat ?l) p e evs else 0) =
      (\<Sum>(t, e', c) \<leftarrow> evs. if R (unat t div unat ?l) \<and> e' = e \<and> event_in_range e then c else 0)"
    by (rule period_sum_selected [OF WR(1)]) (use WR(4) times in blast)
  also have "\<dots> = second_sum ?l predicate ts e evs"
    unfolding second_sum_def WR(3) selected_def Let_def
    by (intro arg_cong [where f = sum_list] map_cong refl) auto
  finally show ?thesis unfolding WR(2) A .
qed

lemma write_event_time: "(t, e, c) \<in> set (write_event w) \<Longrightarrow> write_time w = t"
  by (cases w) simp_all

text \<open>The highest concurrency of the selected buckets is the highest one noted in their periods.\<close>

lemma foldl_max_le:
  "unat (foldl (\<lambda>m b. max m (f b)) a bs) \<le> k \<longleftrightarrow> unat a \<le> k \<and> (\<forall>b \<in> set bs. unat (f b :: 'a::len word) \<le> k)"
  by (induction bs arbitrary: a) (auto simp: max_def word_le_nat_alt)

lemma unat_sint_nonneg: "0 \<le> sint (w :: i32) \<Longrightarrow> int (unat w) = sint w"
  using sint_less [of w] by (simp add: uint_nat [symmetric] uint_sint take_bit_int_eq_self)

lemma selected_buckets_peak:
  defines "contents \<equiv> \<lambda>len p ws. bucket_writes (unat (len :: u32)) p NewMetricBucket ws"
  assumes rel: "bla_rel T (\<lambda>p. contents (la_bucketLengthInMs (bla_data arr)) p ws) arr"
    and now: "now \<noteq> 0" "unat now < 2 ^ 63" and T: "T \<le> period (bla_data arr) now"
    and times: "\<And>w. w \<in> set ws \<Longrightarrow> unat (write_time w) \<le> unat now"
    and recent: "\<And>ws. predicate ws \<Longrightarrow> unat now < unat ws + unat (la_intervalInMs (bla_data arr))"
  shows "foldl (\<lambda>m b. max m (maxConcurrency b)) 0 (second_buckets now predicate ts arr) =
    of_int (write_peak (selected (la_bucketLengthInMs (bla_data arr)) predicate ts) ws)" (is "?X = of_int ?peak")
proof -
  let ?l = "la_bucketLengthInMs (bla_data arr)" and ?bs = "second_buckets now predicate ts arr"
  have all: "(\<forall>b \<in> set ?bs. 0 \<le> sint (maxConcurrency b) \<and> sint (maxConcurrency b) \<le> k) \<longleftrightarrow> ?peak \<le> k"
    if k: "0 \<le> k" for k
  proof -
    define h where "h b = (if 0 \<le> sint (maxConcurrency b) \<and> sint (maxConcurrency b) \<le> k then 0 else 1 :: nat)"
      for b :: metric_bucket
    have new: "h NewMetricBucket = 0" using k by (simp add: h_def mb_simps)
    obtain W R where WR: "finite W" "(\<Sum>b \<leftarrow> ?bs. h b) = (\<Sum>p \<in> W. if R p then h (contents ?l p ws) else 0)"
      "\<And>t. R (unat t div unat ?l) = selected ?l predicate ts t"
      "\<And>t :: u64. R (unat t div unat ?l) \<Longrightarrow> unat t \<le> unat now \<Longrightarrow> unat t div unat ?l \<in> W"
      by (rule selected_buckets_total [where h = h and ts = ts and predicate = predicate, OF rel now T _ new])
        (erule recent, rule that)
    have c: "h (contents ?l p ws) = 0 \<longleftrightarrow> (\<forall>t n. WConc t n \<in> set ws \<and> unat t div unat ?l = p \<longrightarrow> sint n \<le> k)" for p
      using k bucket_writes_nonneg [of NewMetricBucket "unat ?l" p ws]
        bucket_writes_le [of "unat ?l" p NewMetricBucket ws k]
      by (simp add: h_def contents_def mb_simps)
    have "(\<forall>b \<in> set ?bs. h b = 0) \<longleftrightarrow> (\<Sum>b \<leftarrow> ?bs. h b) = 0" by (simp add: sum_list_eq_0_iff)
    also have "\<dots> \<longleftrightarrow> (\<forall>p \<in> W. R p \<longrightarrow> h (contents ?l p ws) = 0)" using WR(1) by (simp add: WR(2))
    also have "\<dots> \<longleftrightarrow> (\<forall>t n. WConc t n \<in> set ws \<and> selected ?l predicate ts t \<longrightarrow> sint n \<le> k)"
      unfolding c WR(3) [symmetric] using WR(4) times by fastforce
    also have "\<dots> \<longleftrightarrow> ?peak \<le> k" using k by (simp add: write_peak_le)
    finally show ?thesis by (simp add: h_def split: if_splits)
  qed
  have nonneg: "int (unat (maxConcurrency b)) = sint (maxConcurrency b)" if "b \<in> set ?bs" for b
    using that all [of ?peak] by (intro unat_sint_nonneg) simp
  have le: "int (unat ?X) \<le> int k \<longleftrightarrow> ?peak \<le> int k" for k
  proof -
    have "int (unat ?X) \<le> int k \<longleftrightarrow> (\<forall>b \<in> set ?bs. int (unat (maxConcurrency b)) \<le> int k)"
      using foldl_max_le [of maxConcurrency 0 ?bs k] by (simp only: of_nat_le_iff unat_0 le0 simp_thms)
    also have "\<dots> \<longleftrightarrow> (\<forall>b \<in> set ?bs. sint (maxConcurrency b) \<le> int k)"
      by (rule ball_cong [OF refl]) (simp only: nonneg)
    also have "\<dots> \<longleftrightarrow> ?peak \<le> int k" using all [of "int k"] all [of ?peak] by auto
    finally show ?thesis .
  qed
  have "int (unat ?X) = ?peak"
    using le [of "unat ?X"] le [of "nat ?peak"] by simp
  then show ?thesis using word_of_unat [OF refl, of ?X] by (metis of_int_of_nat_eq)
qed

lemma concat_singles:
  "\<forall>kv \<in> set m. \<exists>x. f kv = [x] \<and> g x = fst kv \<Longrightarrow> map g (concat (map f m)) = map fst m"
  by (induction m) auto

text \<open>Every second that has a bucket gets one item, filled from the buckets of that second.\<close>

lemma SecondMetricsOnCondition_items:
  assumes ws: "bla_ValuesConditional now predicate arr = ws" and some: "\<forall>w \<in> set ws. Value w \<noteq> None"
  defines "items \<equiv> SecondMetricsOnCondition arr now predicate"
  shows "distinct (map mi_Timestamp items)"
    and "set (map mi_Timestamp items) = secStart ` set ws"
    and "item \<in> set items \<Longrightarrow> item = item_of (mi_Timestamp item)
      (\<lambda>e. \<Sum>b \<leftarrow> bucket_values (filter (\<lambda>w. secStart w = mi_Timestamp item) ws). mb_Get b e)
      (foldl (\<lambda>m b. max m (maxConcurrency b)) 0 (bucket_values (filter (\<lambda>w. secStart w = mi_Timestamp item) ws)))"
proof -
  let ?wm = "group_seconds ws"
  define f where "f = (\<lambda>(ts, values :: metric_bucket bucket_wrap list). if length values = 0 then []
       else case metricItemFromBuckets ts values of Some item \<Rightarrow> [item] | None \<Rightarrow> [])"
  have items: "items = concat (map f ?wm)"
    by (simp add: items_def SecondMetricsOnCondition_def f_def ws Let_def)
  have wf: "mwf ?wm" and get: "\<And>ts. mget ?wm ts =
     (let vs = filter (\<lambda>w. secStart w = ts) ws in if vs = [] then None else Some vs)"
    using group_seconds_spec by blast+
  have kv: "vs = filter (\<lambda>w. secStart w = ts) ws \<and> vs \<noteq> []" if "(ts, vs) \<in> set ?wm" for ts vs
    using mget_mem [OF wf that] get [of ts] by (auto simp: Let_def split: if_splits)
  have one: "\<exists>item. f (ts, vs) = [item] \<and> metricItemFromBuckets ts vs = Some item \<and> mi_Timestamp item = ts"
    if "(ts, vs) \<in> set ?wm" for ts vs
    using kv [OF that] some by (auto simp: f_def metricItemFromBuckets_item)
  then have ts: "map mi_Timestamp items = map fst ?wm"
    unfolding items by (intro concat_singles) fastforce
  then show "distinct (map mi_Timestamp items)" using wf by (simp add: mwf_def)
  show "set (map mi_Timestamp items) = secStart ` set ws"
  proof -
    have "ts \<in> fst ` set ?wm \<longleftrightarrow> ts \<in> secStart ` set ws" for ts
    proof -
      have "ts \<in> fst ` set ?wm \<longleftrightarrow> mget ?wm ts \<noteq> None" 
        by (simp add: mget_def map_of_eq_None_iff)
      also have "\<dots> \<longleftrightarrow> filter (\<lambda>w. secStart w = ts) ws \<noteq> []" by (simp add: get Let_def)
      also have "\<dots> \<longleftrightarrow> ts \<in> secStart ` set ws" by (auto simp: filter_empty_conv)
      finally show ?thesis .
    qed
    then show ?thesis by (auto simp: ts)
  qed
  assume "item \<in> set items"
  then obtain ts vs where m: "(ts, vs) \<in> set ?wm" "item \<in> set (f (ts, vs))" by (auto simp: items)
  with one [OF m(1)] have item: "metricItemFromBuckets ts vs = Some item" "mi_Timestamp item = ts" by auto
  have vs: "vs = filter (\<lambda>w. secStart w = mi_Timestamp item) ws" using kv [OF m(1)] item(2) by simp
  then have "\<forall>w \<in> set vs. Value w \<noteq> None" using some by simp
  with item(1) show "item = item_of (mi_Timestamp item)
      (\<lambda>e. \<Sum>b \<leftarrow> bucket_values (filter (\<lambda>w. secStart w = mi_Timestamp item) ws). mb_Get b e)
      (foldl (\<lambda>m b. max m (maxConcurrency b)) 0 (bucket_values (filter (\<lambda>w. secStart w = mi_Timestamp item) ws)))"
    unfolding vs [symmetric] using item(2) by (simp add: metricItemFromBuckets_item)
qed

text \<open>
  C16: The metric log loses and invents nothing. Let a fresh array count any events and note any
  concurrencies, in time order, and aggregate it by second on a predicate that asks for nothing as old as
  the interval. Every second gets at most one item. Each field of an item is what was written in the
  selected bucket periods of its second: the sums of the events passed, blocked (also by the kind of
  rule), failed and completed; the sum of the response times, divided by the number of completed requests
  if that is not zero; and the highest concurrency noted. Every second with a sum or a concurrency other
  than zero has an item.
\<close>

theorem second_metrics_log:
  assumes "NewBucketLeapArray t0 N P = Ret arr" and "P mod N = 0"
    and "write_times t0 ws" and "unat t0 < 2 ^ 63" and "now \<noteq> 0" and "unat now < 2 ^ 63"
    and "\<forall>t \<in> set (t0 # map write_time ws). unat t \<le> unat now"
    and "\<forall>ws. predicate ws \<longrightarrow> unat now < unat ws + unat P"
  defines "items \<equiv> SecondMetricsOnCondition (foldl do_write arr ws) now predicate"
    and "recorded \<equiv> \<lambda>ts e. second_sum (P div N) predicate ts e (write_log ws)"
    and "peak \<equiv> \<lambda>ts. write_peak (selected (P div N) predicate ts) ws"
  shows "distinct (map mi_Timestamp items) \<and>
    (\<forall>item \<in> set items.
       item = item_of (mi_Timestamp item) (recorded (mi_Timestamp item)) (of_int (peak (mi_Timestamp item)))) \<and>
    (\<forall>ts. (\<exists>e. recorded ts e \<noteq> 0) \<or> (of_int (peak ts) :: u32) \<noteq> 0 \<longrightarrow> ts \<in> set (map mi_Timestamp items))"
proof -
  let ?arr = "foldl do_write arr ws"
  obtain T where T: "bla_rel T (\<lambda>p. bucket_writes (unat (P div N)) p NewMetricBucket ws) ?arr"
    "T \<le> period (bla_data ?arr) now" "slots (bla_data ?arr) = unat N"
    "la_bucketLengthInMs (bla_data ?arr) = P div N" "la_intervalInMs (bla_data ?arr) = P"
    by (rule fresh_writes_buckets [OF assms(1-4,7)]) (rule that)
  have inv: "la_inv mb_wf (bla_data ?arr)" using T(1) by (simp add: bla_rel_def la_rel_def)
  define vs where "vs = bla_ValuesConditional now predicate ?arr"
  have before: "\<And>t. t \<in> set (map fst (write_log ws)) \<Longrightarrow> unat t \<le> unat now"
    using assms(7) by (force dest: write_event_time)
  have sum: "(\<Sum>b \<leftarrow> bucket_values (filter (\<lambda>w. secStart w = ts) vs). mb_Get b e) = recorded ts e" for ts e
    unfolding vs_def recorded_def T(4) [symmetric]
    by (rule selected_buckets_sum [OF T(1) assms(5,6) T(2)])
      (use T(4,5) assms(8) before in \<open>auto simp: bucket_writes_Get mb_Get_New\<close>)
  have max: "foldl (\<lambda>m b. max m (maxConcurrency b)) 0 (bucket_values (filter (\<lambda>w. secStart w = ts) vs)) =
      of_int (peak ts)" for ts
    unfolding vs_def peak_def T(4) [symmetric]
    by (rule selected_buckets_peak [OF _ assms(5,6) T(2)]) (use T(1,4,5) assms(7,8) in auto)
  have "Value w \<noteq> None" if "w \<in> set vs" for w
  proof -
    have "\<exists>i. i < slots (bla_data ?arr) \<and> w = entry (bla_data ?arr) i"
      using that by (auto simp: vs_def bla_ValuesConditional_def la_ValuesConditional_def
          ValuesConditional_idx_def slots_def entry_def split: if_splits)
    then show ?thesis using slot_okD(2) [OF la_inv_slot [OF inv]] by auto
  qed
  then have some: "\<forall>w \<in> set vs. Value w \<noteq> None" by blast
  note it = SecondMetricsOnCondition_items [OF vs_def [symmetric] some, folded items_def, unfolded sum max]
  have "ts \<in> set (map mi_Timestamp items)" if "(\<exists>e. recorded ts e \<noteq> 0) \<or> (of_int (peak ts) :: u32) \<noteq> 0" for ts
  proof (rule ccontr)
    assume "ts \<notin> set (map mi_Timestamp items)"
    then have "filter (\<lambda>w. secStart w = ts) vs = []" unfolding it(2) by (auto simp: filter_empty_conv)
    with sum [where ts = ts] max [where ts = ts] that show False by (simp add: bucket_values_def)
  qed
  then show ?thesis using it(1,3) by blast
qed

text \<open>Writes of the view log with a concurrency of 4 in the second that is shown.\<close>

definition second_writes :: "arr_write list" where
  "second_writes = [WAdd 5400 MetricEventPass 7, WConc 5400 9, WAdd 6100 MetricEventPass 1, WConc 6100 4,
     WAdd 6600 MetricEventBlock 1, WAdd 6600 MetricEventBlockFlow 1, WAdd 6600 MetricEventComplete 2,
     WAdd 6600 MetricEventRt 30]"

theorem second_metrics_log_witness:
  "\<exists>arr. NewBucketLeapArray 100 10 5000 = Ret arr \<and>
     (\<exists>item \<in> set (SecondMetricsOnCondition (foldl do_write arr second_writes) 7100 (\<lambda>ws. 5000 \<le> ws \<and> ws < 7000)).
        mi_Timestamp item = 6000 \<and> mi_PassQps item = 1 \<and> mi_BlockedNumByFlow item = 1 \<and>
        mi_AvgRt item = 15 \<and> mi_Concurrency item = 4)"
proof -
  have "\<exists>arr. NewBucketLeapArray 100 10 5000 = Ret arr"
    by (simp add: NewBucketLeapArray_def NewAtomicBucketWrapArrayWithTime_def Let_def split: prod.split)
  then obtain arr where arr: "NewBucketLeapArray 100 10 5000 = Ret arr" by blast
  let ?p = "\<lambda>ws :: u64. 5000 \<le> ws \<and> ws < 7000"
  let ?items = "SecondMetricsOnCondition (foldl do_write arr second_writes) 7100 ?p"
  let ?sum = "\<lambda>ts e. second_sum (5000 div 10) ?p ts e (write_log second_writes)"
  let ?peak = "\<lambda>ts. write_peak (selected (5000 div 10) ?p ts) second_writes"
  have spec: "distinct (map mi_Timestamp ?items) \<and>
    (\<forall>item \<in> set ?items. item = item_of (mi_Timestamp item) (?sum (mi_Timestamp item)) (of_int (?peak (mi_Timestamp item)))) \<and>
    (\<forall>ts. (\<exists>e. ?sum ts e \<noteq> 0) \<or> (of_int (?peak ts) :: u32) \<noteq> 0 \<longrightarrow> ts \<in> set (map mi_Timestamp ?items))"
  proof (rule second_metrics_log [OF arr])
    show "\<forall>ws. ?p ws \<longrightarrow> unat (7100 :: u64) < unat ws + unat (5000 :: u32)"
      by (simp add: word_le_nat_alt)
  qed (simp_all add: second_writes_def write_times_def)
  have sums: "?sum 6000 MetricEventPass = 1" "?sum 6000 MetricEventBlockFlow = 1"
    "?sum 6000 MetricEventComplete = 2" "?sum 6000 MetricEventRt = 30" "?peak 6000 = 4"
    by (simp_all add: second_sum_def second_writes_def selected_def calculateStartTime_def Let_def event_defs
        event_in_range_def word_sle_eq word_sless_alt)
  have "?sum 6000 MetricEventPass \<noteq> 0" unfolding sums by simp
  then have "6000 \<in> set (map mi_Timestamp ?items)"
    using spec [THEN conjunct2, THEN conjunct2, rule_format, of 6000] by blast
  then obtain item where item: "item \<in> set ?items" "mi_Timestamp item = 6000" by (force simp only: set_map image_iff)
  from spec [THEN conjunct2, THEN conjunct1, rule_format, OF item(1)]
  have eq: "item = item_of 6000 (?sum 6000) (of_int (?peak 6000))" unfolding item(2) .
  have "mi_PassQps item = 1 \<and> mi_BlockedNumByFlow item = 1 \<and> mi_AvgRt item = 15 \<and> mi_Concurrency item = 4"
    unfolding eq by (simp only: item_of_def metric_item.simps sums) simp
  with arr item show ?thesis by blast
qed

end
