(* ===== verification/Context.thy ===== *)
theory Context
  imports BaseTypes Float64
begin

text \<open>
  The context of one entry, \<open>core/base/context.go\<close>, with the input and output of the call. A pointer
  to an entry is its index, a pointer to a statistic node says which node it is; \<open>None\<close> is nil. The
  rule and the snapshot of a block stay type parameters.
\<close>

section \<open>Values of the empty interface\<close>

text \<open>The dynamic types the code switches on; every other value is an opaque \<open>VOther\<close>.\<close>

datatype go_value =
  VInt i64 | VInt32 i32 | VInt64 i64 | VString string | VBool bool | VFloat32 f64 | VFloat64 f64 | VOther nat

section \<open>Input and output\<close>

record sea_input =
  in_BatchCount :: u32
  in_Flag :: i32
  in_Args :: "go_value list"
  in_Headers :: "(string, string list) gomap"
  in_Cookies :: "(string, string list) gomap"
  in_Body :: "(string, string list) gomap"
  in_MetaData :: "(string, string) gomap"
  in_Attachments :: "(go_value, go_value) gomap"

record sea_output =
  out_Rsps :: "go_value list"

definition seaInput_reset :: "sea_input \<Rightarrow> sea_input" where
  "seaInput_reset i =
     (let i = i\<lparr>in_BatchCount := 1, in_Flag := 0\<rparr>;
          i = (if length (in_Args i) \<noteq> 0 then i\<lparr>in_Args := []\<rparr> else i);
          i = (if length (in_Headers i) \<noteq> 0 then i\<lparr>in_Headers := []\<rparr> else i);
          i = (if length (in_Cookies i) \<noteq> 0 then i\<lparr>in_Cookies := []\<rparr> else i);
          i = (if length (in_Body i) \<noteq> 0 then i\<lparr>in_Body := []\<rparr> else i);
          i = (if length (in_MetaData i) \<noteq> 0 then i\<lparr>in_MetaData := []\<rparr> else i)
      in if length (in_Attachments i) \<noteq> 0 then i\<lparr>in_Attachments := []\<rparr> else i)"

definition seaOutput_reset :: "sea_output \<Rightarrow> sea_output" where
  "seaOutput_reset i = (if length (out_Rsps i) \<noteq> 0 then i\<lparr>out_Rsps := []\<rparr> else i)"

section \<open>The context\<close>

text \<open>The statistic nodes of the program: three global ones and one per resource name.\<close>

datatype stat_ptr = InboundNode | CpuNode | LoadNode | ResNode string

record ('r, 's) entry_context =
  ctx_entry :: "nat option"
  ctx_err :: "string option"
  ctx_startTime :: u64
  ctx_rt :: u64
  ctx_Resource :: "resource_wrapper option"
  ctx_StatNode :: "stat_ptr option"
  ctx_Input :: sea_input
  ctx_Output :: sea_output
  ctx_RuleCheckResult :: "('r, 's) token_result option"
  ctx_Data :: "(go_value, go_value) gomap"
  ctx_FromService :: string

definition ctx_SetError :: "string option \<Rightarrow> ('r, 's) entry_context \<Rightarrow> ('r, 's) entry_context" where
  "ctx_SetError err ctx = ctx\<lparr>ctx_err := err\<rparr>"

definition ctx_IsBlocked :: "('r, 's) entry_context \<Rightarrow> bool" where
  "ctx_IsBlocked ctx = (case ctx_RuleCheckResult ctx of None \<Rightarrow> False | Some r \<Rightarrow> tr_IsBlocked r)"

definition ctx_PutRt :: "u64 \<Rightarrow> ('r, 's) entry_context \<Rightarrow> ('r, 's) entry_context" where
  "ctx_PutRt rt ctx = ctx\<lparr>ctx_rt := rt\<rparr>"

text \<open>\<open>Rt\<close> of a context whose round-trip time was not stored reads the clock.\<close>

definition ctx_Rt :: "u64 \<Rightarrow> ('r, 's) entry_context \<Rightarrow> u64" where
  "ctx_Rt now ctx = (if ctx_rt ctx = 0 then now - ctx_startTime ctx else ctx_rt ctx)"

definition ctx_Reset :: "('r, 's) entry_context \<Rightarrow> ('r, 's) entry_context" where
  "ctx_Reset ctx =
     (let ctx = ctx\<lparr>ctx_entry := None, ctx_err := None, ctx_startTime := 0, ctx_rt := 0,
            ctx_Resource := None, ctx_StatNode := None,
            ctx_Input := seaInput_reset (ctx_Input ctx), ctx_Output := seaOutput_reset (ctx_Output ctx)\<rparr>;
          ctx = ctx\<lparr>ctx_RuleCheckResult := Some (case ctx_RuleCheckResult ctx of
                  None \<Rightarrow> NewTokenResultPass | Some r \<Rightarrow> tr_ResetToPass r)\<rparr>;
          ctx = (if length (ctx_Data ctx) \<noteq> 0 then ctx\<lparr>ctx_Data := []\<rparr> else ctx)
      in ctx\<lparr>ctx_FromService := []\<rparr>)"

text \<open>What the pool makes when it holds no context.\<close>

definition NewPooledContext :: "('r, 's) entry_context" where
  "NewPooledContext =
     \<lparr>ctx_entry = None, ctx_err = None, ctx_startTime = 0, ctx_rt = 0, ctx_Resource = None,
      ctx_StatNode = None,
      ctx_Input = \<lparr>in_BatchCount = 1, in_Flag = 0, in_Args = [], in_Headers = [], in_Cookies = [],
        in_Body = [], in_MetaData = [], in_Attachments = []\<rparr>,
      ctx_Output = \<lparr>out_Rsps = []\<rparr>, ctx_RuleCheckResult = Some NewTokenResultPass, ctx_Data = [],
      ctx_FromService = []\<rparr>"

text \<open>
  A context that was reset differs from a new one in three fields of its result only, which
  \<open>ResetToPass\<close> keeps: the gray resource, its addresses and the resource of the gray rule. The
  block error is nil after a reset, and the one without a cause in a result that is new.
\<close>

definition clean_result :: "('r, 's) token_result \<Rightarrow> bool" where
  "clean_result r \<longleftrightarrow> (\<exists>err gray address match. (err = None \<or> err = Some (NewBlockError [])) \<and>
     r = \<lparr>tr_status = ResultStatusPass, tr_grayRes = gray, tr_grayAddress = address, tr_linkPass = False,
       tr_grayTag = [], tr_grayMatchRes = match, tr_blockErr = err, tr_nanosToWait = 0\<rparr>)"

definition clean_context :: "('r, 's) entry_context \<Rightarrow> bool" where
  "clean_context ctx \<longleftrightarrow> (\<exists>r. ctx_RuleCheckResult ctx = Some r \<and> clean_result r \<and>
     ctx = NewPooledContext\<lparr>ctx_RuleCheckResult := Some r\<rparr>)"

lemma clean_result_new: "clean_result NewTokenResultPass"
  by (simp add: clean_result_def NewTokenResultPass_def NewTokenResult_def)

lemma clean_result_reset: "clean_result (tr_ResetToPass r)"
  by (cases r) (simp add: clean_result_def tr_ResetToPass_def)

lemma seaInput_reset_eq:
  "seaInput_reset i = \<lparr>in_BatchCount = 1, in_Flag = 0, in_Args = [], in_Headers = [], in_Cookies = [],
     in_Body = [], in_MetaData = [], in_Attachments = []\<rparr>"
  by (cases i) (simp add: seaInput_reset_def Let_def)

lemma NewTokenResultPass_IsPass [result_simps]: "tr_IsPass NewTokenResultPass"
  by (simp add: tr_IsPass_def NewTokenResultPass_def NewTokenResult_def)

lemma clean_Reset: "clean_context (ctx_Reset ctx)"
  by (cases ctx) (auto simp: clean_context_def ctx_Reset_def NewPooledContext_def seaInput_reset_eq
      seaOutput_reset_def Let_def clean_result_new clean_result_reset split: option.splits)

lemma clean_New: "clean_context NewPooledContext"
  by (simp add: clean_context_def NewPooledContext_def clean_result_new)

end
