(* ===== verification/SlotChain.thy ===== *)
theory SlotChain
  imports Context "HOL-Library.Multiset"
begin

text \<open>
  The chain of slots, \<open>core/base/slot_chain.go\<close>: four lists of slots kept in ascending order, the
  pass through them when an entry is made (preparing, checking, routing, recording) and the pass when
  it exits.

  A slot is an interface in the code. Here it is a record of its order and its methods, each a
  procedure on a state \<open>run_state\<close>: the context, the exit handlers of the context's entry, and
  everything else the slots share, a type parameter. A method may panic; the state it reached is kept.
\<close>

section \<open>Procedures\<close>

type_synonym ('a, 'st) proc = "'st \<Rightarrow> 'a go \<times> 'st"

definition proc_ret :: "'a \<Rightarrow> ('a, 'st) proc" where
  "proc_ret a st = (Ret a, st)"

definition proc_panic :: "string \<Rightarrow> ('a, 'st) proc" where
  "proc_panic p st = (Panic p, st)"

definition proc_bind :: "('a, 'st) proc \<Rightarrow> ('a \<Rightarrow> ('b, 'st) proc) \<Rightarrow> ('b, 'st) proc" where
  "proc_bind m f st =
     (case m st of (Ret a, st) \<Rightarrow> f a st | (Err e, st) \<Rightarrow> (Err e, st) | (Panic p, st) \<Rightarrow> (Panic p, st))"

lemma proc_simps [simp]:
  "proc_bind (proc_ret a) f = f a"
  "proc_bind (proc_panic p) f = proc_panic p"
  by (simp_all add: proc_bind_def proc_ret_def proc_panic_def fun_eq_iff)

section \<open>Slots and chains\<close>

record ('h, 'r, 's, 'w) run_state =
  rs_ctx :: "('r, 's) entry_context"
  rs_handlers :: "'h list"
  rs_world :: 'w

type_synonym ('a, 'h, 'r, 's, 'w) slot_proc = "('a, ('h, 'r, 's, 'w) run_state) proc"

record ('h, 'r, 's, 'w) stat_prepare_slot =
  prepare_Order :: u32
  Prepare :: "(unit, 'h, 'r, 's, 'w) slot_proc"

record ('h, 'r, 's, 'w) rule_check_slot =
  check_Order :: u32
  Check :: "(('r, 's) token_result option, 'h, 'r, 's, 'w) slot_proc"

record ('h, 'r, 's, 'w) router_slot =
  router_Order :: u32
  Router :: "(('r, 's) token_result option, 'h, 'r, 's, 'w) slot_proc"

record ('h, 'r, 's, 'w) stat_slot =
  stat_Order :: u32
  OnEntryPassed :: "(unit, 'h, 'r, 's, 'w) slot_proc"
  OnEntryBlocked :: "('r, 's) block_error option \<Rightarrow> (unit, 'h, 'r, 's, 'w) slot_proc"
  OnCompleted :: "(unit, 'h, 'r, 's, 'w) slot_proc"

record ('h, 'r, 's, 'w) slot_chain =
  statPres :: "('h, 'r, 's, 'w) stat_prepare_slot list"
  ruleChecks :: "('h, 'r, 's, 'w) rule_check_slot list"
  stats :: "('h, 'r, 's, 'w) stat_slot list"
  routers :: "('h, 'r, 's, 'w) router_slot list"

definition NewSlotChain :: "('h, 'r, 's, 'w) slot_chain" where
  "NewSlotChain = \<lparr>statPres = [], ruleChecks = [], stats = [], routers = []\<rparr>"

text \<open>\<open>sort.SliceStable\<close> by the order of the slots is the stable sort of the library.\<close>

definition AddStatPrepareSlot ::
  "('h, 'r, 's, 'w) stat_prepare_slot \<Rightarrow> ('h, 'r, 's, 'w) slot_chain \<Rightarrow> ('h, 'r, 's, 'w) slot_chain" where
  "AddStatPrepareSlot s sc = sc\<lparr>statPres := sort_key prepare_Order (statPres sc @ [s])\<rparr>"

text \<open>\<open>Initial\<close> of a check slot is empty in every slot of the program.\<close>

definition AddRuleCheckSlot ::
  "('h, 'r, 's, 'w) rule_check_slot \<Rightarrow> ('h, 'r, 's, 'w) slot_chain \<Rightarrow> ('h, 'r, 's, 'w) slot_chain" where
  "AddRuleCheckSlot s sc = sc\<lparr>ruleChecks := sort_key check_Order (ruleChecks sc @ [s])\<rparr>"

definition AddStatSlot ::
  "('h, 'r, 's, 'w) stat_slot \<Rightarrow> ('h, 'r, 's, 'w) slot_chain \<Rightarrow> ('h, 'r, 's, 'w) slot_chain" where
  "AddStatSlot s sc = sc\<lparr>stats := sort_key stat_Order (stats sc @ [s])\<rparr>"

definition AddRouterSlot ::
  "('h, 'r, 's, 'w) router_slot \<Rightarrow> ('h, 'r, 's, 'w) slot_chain \<Rightarrow> ('h, 'r, 's, 'w) slot_chain" where
  "AddRouterSlot s sc = sc\<lparr>routers := sort_key router_Order (routers sc @ [s])\<rparr>"

section \<open>Making an entry\<close>

fun run_prepares :: "('h, 'r, 's, 'w) stat_prepare_slot list \<Rightarrow> (unit, 'h, 'r, 's, 'w) slot_proc" where
  "run_prepares [] = proc_ret ()"
| "run_prepares (s # ss) = proc_bind (Prepare s) (\<lambda>_. run_prepares ss)"

text \<open>The first blocking result ends the loop; a nil or passing one does not.\<close>

fun run_checks ::
  "('h, 'r, 's, 'w) rule_check_slot list \<Rightarrow> (('r, 's) token_result option, 'h, 'r, 's, 'w) slot_proc" where
  "run_checks [] = proc_ret None"
| "run_checks (s # ss) = proc_bind (Check s) (\<lambda>sr.
     case sr of
       None \<Rightarrow> run_checks ss
     | Some r \<Rightarrow> if tr_IsBlocked r then proc_ret (Some r) else run_checks ss)"

text \<open>The result of the context, as a value: reading it through a nil pointer panics.\<close>

definition get_result :: "(('r, 's) token_result, 'h, 'r, 's, 'w) slot_proc" where
  "get_result st = (case ctx_RuleCheckResult (rs_ctx st) of
     None \<Rightarrow> (Panic ''nil pointer dereference'', st) | Some r \<Rightarrow> (Ret r, st))"

definition put_result :: "('r, 's) token_result \<Rightarrow> (unit, 'h, 'r, 's, 'w) slot_proc" where
  "put_result r st = (Ret (), st\<lparr>rs_ctx := (rs_ctx st)\<lparr>ctx_RuleCheckResult := Some r\<rparr>\<rparr>)"

definition store_check :: "('r, 's) token_result option \<Rightarrow> (unit, 'h, 'r, 's, 'w) slot_proc" where
  "store_check ruleCheckRet =
     (case ruleCheckRet of
        None \<Rightarrow> proc_bind get_result (\<lambda>r. put_result (tr_ResetToPass r))
      | Some r \<Rightarrow> put_result r)"

fun run_routers :: "('h, 'r, 's, 'w) router_slot list \<Rightarrow> (unit, 'h, 'r, 's, 'w) slot_proc" where
  "run_routers [] = proc_ret ()"
| "run_routers (s # ss) = proc_bind (Router s) (\<lambda>routerResult.
     case routerResult of
       None \<Rightarrow> run_routers ss
     | Some q \<Rightarrow>
         proc_bind get_result (\<lambda>r.
           if tr_IsBlocked q then
             put_result (r\<lparr>tr_blockErr := tr_blockErr q, tr_status := ResultStatusBlocked\<rparr>)
           else
             proc_bind (put_result (r\<lparr>tr_grayRes := tr_grayRes q, tr_grayTag := tr_grayTag q,
                 tr_linkPass := tr_linkPass q, tr_grayAddress := tr_grayAddress q,
                 tr_grayMatchRes := tr_grayMatchRes q\<rparr>))
               (\<lambda>_. run_routers ss)))"

text \<open>The local \<open>ruleCheckRet\<close> is the context's own result, so each round reads it there.\<close>

fun run_stats :: "('h, 'r, 's, 'w) stat_slot list \<Rightarrow> (unit, 'h, 'r, 's, 'w) slot_proc" where
  "run_stats [] = proc_ret ()"
| "run_stats (s # ss) = proc_bind get_result (\<lambda>r.
     proc_bind (if \<not> tr_IsBlocked r then OnEntryPassed s else OnEntryBlocked s (tr_blockErr r))
       (\<lambda>_. run_stats ss))"

definition chain_body :: "('h, 'r, 's, 'w) slot_chain \<Rightarrow> (('r, 's) token_result, 'h, 'r, 's, 'w) slot_proc" where
  "chain_body sc =
     proc_bind (run_prepares (statPres sc)) (\<lambda>_.
     proc_bind (run_checks (ruleChecks sc)) (\<lambda>ruleCheckRet.
     proc_bind (store_check ruleCheckRet) (\<lambda>_.
     proc_bind (run_routers (routers sc)) (\<lambda>_.
     proc_bind (run_stats (stats sc)) (\<lambda>_. get_result)))))"

text \<open>
  A panic is recovered: it becomes the error of the context and the call returns nil. No procedure of the
  chain returns an error, a slot that does is treated like a panic of its own.
\<close>

definition chain_Entry ::
  "('h, 'r, 's, 'w) slot_chain \<Rightarrow> ('h, 'r, 's, 'w) run_state \<Rightarrow> ('r, 's) token_result option \<times> ('h, 'r, 's, 'w) run_state" where
  "chain_Entry sc st =
     (case chain_body sc st of
        (Ret r, st) \<Rightarrow> (Some r, st)
      | (Err e, st) \<Rightarrow> (None, st\<lparr>rs_ctx := ctx_SetError (Some e) (rs_ctx st)\<rparr>)
      | (Panic p, st) \<Rightarrow> (None, st\<lparr>rs_ctx := ctx_SetError (Some p) (rs_ctx st)\<rparr>))"

section \<open>Leaving it\<close>

fun run_completed :: "('h, 'r, 's, 'w) stat_slot list \<Rightarrow> (unit, 'h, 'r, 's, 'w) slot_proc" where
  "run_completed [] = proc_ret ()"
| "run_completed (s # ss) = proc_bind (OnCompleted s) (\<lambda>_. run_completed ss)"

definition chain_exit :: "('h, 'r, 's, 'w) slot_chain \<Rightarrow> (unit, 'h, 'r, 's, 'w) slot_proc" where
  "chain_exit sc st =
     (if ctx_entry (rs_ctx st) = None then (Ret (), st)
      else if ctx_IsBlocked (rs_ctx st) then (Ret (), st)
      else run_completed (stats sc) st)"

section \<open>The order of the slots\<close>

lemma NewSlotChain_views [simp]:
  "statPres NewSlotChain = []" "ruleChecks NewSlotChain = []" "stats NewSlotChain = []" "routers NewSlotChain = []"
  by (simp_all add: NewSlotChain_def)

lemma sort_key_snoc: "sort_key f (sort_key f xs @ [x]) = sort_key f (xs @ [x])"
proof (rule properties_for_sort_key)
  show "mset (sort_key f (xs @ [x])) = mset (sort_key f xs @ [x])" by simp
  fix k
  have stable: "filter (\<lambda>y. f k = f y) (sort_key f ys) = filter (\<lambda>y. f k = f y) ys" for ys
    using sort_key_stable [of f "f k" ys] by (simp only: eq_commute [of "f k"])
  show "filter (\<lambda>y. f k = f y) (sort_key f (xs @ [x])) = filter (\<lambda>y. f k = f y) (sort_key f xs @ [x])"
    by (simp only: stable filter_append)
qed simp

lemma sort_key_folded: "foldl (\<lambda>xs x. sort_key f (xs @ [x])) [] xs = sort_key f xs"
  by (induction xs rule: rev_induct) (simp_all add: sort_key_snoc)

end
