(* ===== verification/Entry.thy ===== *)
theory Entry
  imports SlotChain
begin

text \<open>
  Entries and the public API: \<open>core/base/entry.go\<close>, the context pool of \<open>slot_chain.go\<close>, the exit
  handler and the response store of \<open>mock_rsp_exit_handler.go\<close>, and \<open>api/api.go\<close>.

  Contexts and entries are shared by pointer and contexts are recycled, so both live in a store and a
  pointer is an index. A pool may drop what was put into it and may hand out any of what it holds: the
  choice is an argument \<open>pick\<close>, \<open>None\<close> when the pool makes a new object. An exit handler is a closure
  in the code: it is \<open>MockRsp\<close> or a \<open>Hook\<close> that a slot registered, with the meaning of hooks an argument.
\<close>

section \<open>The store of sampled responses\<close>

record rsp_node =
  rsp_ResourceName :: string
  rsp_ResourceType :: resource_type
  rsp_Rsp :: go_value

record rsp_store =
  rsp_resNodeMap :: "(string, rsp_node) gomap"
  rsp_resUpdateMap :: "(string, u64) gomap"

definition resMaxAliveTimeMs :: u64 where
  "resMaxAliveTimeMs = 20 * 60 * 1000"

definition DefaultMaxResourceAmount :: u32 where
  "DefaultMaxResourceAmount = 1000"

definition RemoveResourceNode :: "string \<Rightarrow> rsp_store \<Rightarrow> rsp_store" where
  "RemoveResourceNode resource st = st\<lparr>rsp_resNodeMap := mdel resource (rsp_resNodeMap st)\<rparr>"

definition rsp_ResourceNodeLen :: "rsp_store \<Rightarrow> u32" where
  "rsp_ResourceNodeLen st = foldl (\<lambda>count _. count + 1) 0 (rsp_resNodeMap st)"

text \<open>The two readings of the clock: for the age of the stored response and for the time stored.\<close>

definition rsp_GetOrCreateResourceNode ::
  "u64 \<Rightarrow> u64 \<Rightarrow> string \<Rightarrow> resource_type \<Rightarrow> go_value option \<Rightarrow> rsp_store \<Rightarrow> rsp_node \<times> rsp_store" where
  "rsp_GetOrCreateResourceNode now now' resource resourceType rsp st =
     (let st = (case mget (rsp_resUpdateMap st) resource of
            Some lastUpdateTimeMs \<Rightarrow>
              if lastUpdateTimeMs + resMaxAliveTimeMs < now then RemoveResourceNode resource st else st
          | None \<Rightarrow> st)
      in case mget (rsp_resNodeMap st) resource of
           Some node \<Rightarrow> (node, st)
         | None \<Rightarrow>
             let node = \<lparr>rsp_ResourceName = resource, rsp_ResourceType = resourceType,
                   rsp_Rsp = (case rsp of Some v \<Rightarrow> v | None \<Rightarrow> VString ''{}'')\<rparr>
             in if rsp_ResourceNodeLen st \<ge> DefaultMaxResourceAmount then (node, st)
                else (node, st\<lparr>rsp_resNodeMap := mput resource node (rsp_resNodeMap st),
                               rsp_resUpdateMap := mput resource now' (rsp_resUpdateMap st)\<rparr>))"

section \<open>Entries\<close>

datatype 'h exit_handler = MockRsp | Hook 'h

record ('h, 'r, 's, 'w) sea_entry =
  se_res :: resource_wrapper
  se_grayRes :: "resource_wrapper option"
  se_linkPass :: bool
  se_grayTag :: string
  se_grayAddress :: "string list"
  se_grayMatchRes :: string
  se_ctx :: "nat option"
  se_exitHandlers :: "'h exit_handler list"
  se_sc :: "('h exit_handler, 'r, 's, 'w) slot_chain option"
  se_exited :: bool

definition NewSeaEntry ::
  "nat option \<Rightarrow> resource_wrapper \<Rightarrow> ('h exit_handler, 'r, 's, 'w) slot_chain option \<Rightarrow> ('h, 'r, 's, 'w) sea_entry" where
  "NewSeaEntry ctx rw sc = \<lparr>se_res = rw, se_grayRes = None, se_linkPass = False, se_grayTag = [],
     se_grayAddress = [], se_grayMatchRes = [], se_ctx = ctx, se_exitHandlers = [MockRsp], se_sc = sc,
     se_exited = False\<rparr>"

text \<open>\<open>WhenExit\<close> puts the new handler in front of the others.\<close>

definition WhenExit :: "'h exit_handler \<Rightarrow> 'h exit_handler list \<Rightarrow> 'h exit_handler list" where
  "WhenExit exitHandler handlers = foldl (\<lambda>hs h. hs @ [h]) [exitHandler] handlers"

text \<open>Everything the calls work on.\<close>

record ('h, 'r, 's, 'w) app =
  app_ctxs :: "('r, 's) entry_context list"
  app_pool :: "nat list"
  app_entries :: "('h, 'r, 's, 'w) sea_entry list"
  app_rsps :: rsp_store
  app_world :: 'w

definition set_ctx :: "nat \<Rightarrow> ('r, 's) entry_context \<Rightarrow> ('h, 'r, 's, 'w) app \<Rightarrow> ('h, 'r, 's, 'w) app" where
  "set_ctx c ctx a = a\<lparr>app_ctxs := (app_ctxs a)[c := ctx]\<rparr>"

definition set_entry :: "nat \<Rightarrow> ('h, 'r, 's, 'w) sea_entry \<Rightarrow> ('h, 'r, 's, 'w) app \<Rightarrow> ('h, 'r, 's, 'w) app" where
  "set_entry e en a = a\<lparr>app_entries := (app_entries a)[e := en]\<rparr>"

section \<open>The context pool\<close>

definition GetPooledContext :: "nat option \<Rightarrow> u64 \<Rightarrow> ('h, 'r, 's, 'w) app \<Rightarrow> nat \<times> ('h, 'r, 's, 'w) app" where
  "GetPooledContext pick now a =
     (let (c, a) = (case pick of
            Some i \<Rightarrow> (app_pool a ! i, a\<lparr>app_pool := remove_nth i (app_pool a)\<rparr>)
          | None \<Rightarrow> (length (app_ctxs a), a\<lparr>app_ctxs := app_ctxs a @ [NewPooledContext]\<rparr>))
      in (c, set_ctx c ((app_ctxs a ! c)\<lparr>ctx_startTime := now\<rparr>) a))"

definition RefurbishContext :: "nat \<Rightarrow> ('h, 'r, 's, 'w) app \<Rightarrow> ('h, 'r, 's, 'w) app" where
  "RefurbishContext c a =
     (let a = set_ctx c (ctx_Reset (app_ctxs a ! c)) a in a\<lparr>app_pool := c # app_pool a\<rparr>)"

section \<open>Leaving an entry\<close>

text \<open>The handler that samples a response: it does nothing without an output or after an error.\<close>

definition MockRspExitHandler ::
  "u64 \<Rightarrow> u64 \<Rightarrow> ('r, 's) entry_context \<Rightarrow> rsp_store \<Rightarrow> unit go \<times> rsp_store" where
  "MockRspExitHandler now now' ctx st =
     (case out_Rsps (ctx_Output ctx) of
        [] \<Rightarrow> (Ret (), st)
      | rsp # _ \<Rightarrow>
          if ctx_err ctx \<noteq> None then (Ret (), st)
          else (case ctx_Resource ctx of
                  None \<Rightarrow> (Panic ''nil pointer dereference'', st)
                | Some rw \<Rightarrow> (Ret (), snd (rsp_GetOrCreateResourceNode now now' (rw_name rw) (rw_classification rw) (Some rsp) st))))"

type_synonym ('h, 'r, 's, 'w) hook_meaning =
  "'h \<Rightarrow> ('r, 's) entry_context \<Rightarrow> 'w \<Rightarrow> unit go \<times> ('r, 's) entry_context \<times> 'w"

text \<open>An error that a handler returns is only logged: \<open>Err\<close> goes on, \<open>Panic\<close> ends the loop.\<close>

fun run_handlers ::
  "('h, 'r, 's, 'w) hook_meaning \<Rightarrow> u64 \<Rightarrow> u64 \<Rightarrow> 'h exit_handler list \<Rightarrow> ('r, 's) entry_context \<Rightarrow> rsp_store \<Rightarrow> 'w \<Rightarrow>
   unit go \<times> ('r, 's) entry_context \<times> rsp_store \<times> 'w" where
  "run_handlers hook now now' [] ctx st w = (Ret (), ctx, st, w)"
| "run_handlers hook now now' (MockRsp # hs) ctx st w =
     (case MockRspExitHandler now now' ctx st of
        (Panic p, st) \<Rightarrow> (Panic p, ctx, st, w)
      | (_, st) \<Rightarrow> run_handlers hook now now' hs ctx st w)"
| "run_handlers hook now now' (Hook h # hs) ctx st w =
     (case hook h ctx w of
        (Panic p, ctx, w) \<Rightarrow> (Panic p, ctx, st, w)
      | (_, ctx, w) \<Rightarrow> run_handlers hook now now' hs ctx st w)"

text \<open>
  The body that \<open>exitCtl\<close> runs once: handlers, then the chain's exit unless a handler panicked, and in any
  case the context goes back to the pool.
\<close>

definition exit_once ::
  "('h, 'r, 's, 'w) hook_meaning \<Rightarrow> u64 \<Rightarrow> u64 \<Rightarrow> nat \<Rightarrow> nat \<Rightarrow> ('h, 'r, 's, 'w) app \<Rightarrow> ('h, 'r, 's, 'w) app" where
  "exit_once hook now now' e c a =
     (let en = app_entries a ! e;
          (r, ctx, rsps, w) = run_handlers hook now now' (se_exitHandlers en) (app_ctxs a ! c) (app_rsps a) (app_world a);
          a = set_ctx c ctx (a\<lparr>app_rsps := rsps, app_world := w\<rparr>)
      in case se_sc en of
           None \<Rightarrow> a
         | Some sc \<Rightarrow>
             let a = (case r of
                   Ret _ \<Rightarrow>
                     let (_, st) = chain_exit sc \<lparr>rs_ctx = ctx, rs_handlers = se_exitHandlers en, rs_world = w\<rparr>
                     in set_ctx c (rs_ctx st) (a\<lparr>app_world := rs_world st\<rparr>)
                 | _ \<Rightarrow> a)
             in RefurbishContext c a)"

definition SetError :: "nat \<Rightarrow> string option \<Rightarrow> ('h, 'r, 's, 'w) app \<Rightarrow> ('h, 'r, 's, 'w) app" where
  "SetError e err a =
     (case se_ctx (app_entries a ! e) of
        None \<Rightarrow> a | Some c \<Rightarrow> set_ctx c (ctx_SetError err (app_ctxs a ! c)) a)"

text \<open>\<open>err\<close>: the error the options of the call leave set, \<open>None\<close> without one.\<close>

definition Exit ::
  "('h, 'r, 's, 'w) hook_meaning \<Rightarrow> u64 \<Rightarrow> u64 \<Rightarrow> string option \<Rightarrow> nat \<Rightarrow> ('h, 'r, 's, 'w) app \<Rightarrow> ('h, 'r, 's, 'w) app" where
  "Exit hook now now' err e a =
     (case se_ctx (app_entries a ! e) of
        None \<Rightarrow> a
      | Some c \<Rightarrow>
          let a = (if err \<noteq> None then set_ctx c (ctx_SetError err (app_ctxs a ! c)) a else a)
          in if se_exited (app_entries a ! e) then a
             else exit_once hook now now' e c (set_entry e ((app_entries a ! e)\<lparr>se_exited := True\<rparr>) a))"

text \<open>\<open>api.TraceError\<close>: a nil entry is \<open>None\<close>.\<close>

definition TraceError :: "nat option \<Rightarrow> string option \<Rightarrow> ('h, 'r, 's, 'w) app \<Rightarrow> ('h, 'r, 's, 'w) app" where
  "TraceError entry err a =
     (case entry of None \<Rightarrow> a | Some e \<Rightarrow> if err = None then a else SetError e err a)"

section \<open>The options of an entry\<close>

record ('h, 'r, 's, 'w) entry_options =
  eo_resourceType :: resource_type
  eo_entryType :: traffic_type
  eo_batchCount :: u32
  eo_flag :: i32
  eo_slotChain :: "('h exit_handler, 'r, 's, 'w) slot_chain option"
  eo_args :: "go_value list"
  eo_attachments :: "(go_value, go_value) gomap"
  eo_rsps :: "go_value list"
  eo_headers :: "(string, string list) gomap"
  eo_cookies :: "(string, string list) gomap"
  eo_body :: "(string, string list) gomap"
  eo_metaData :: "(string, string) gomap"
  eo_fromService :: string

definition NewEntryOptions :: "('h, 'r, 's, 'w) entry_options" where
  "NewEntryOptions = \<lparr>eo_resourceType = ResTypeCommon, eo_entryType = Outbound, eo_batchCount = 1,
     eo_flag = 0, eo_slotChain = None, eo_args = [], eo_attachments = [], eo_rsps = [], eo_headers = [],
     eo_cookies = [], eo_body = [], eo_metaData = [], eo_fromService = []\<rparr>"

text \<open>\<open>Reset\<close> leaves \<open>fromService\<close> as it is.\<close>

definition eo_Reset :: "('h, 'r, 's, 'w) entry_options \<Rightarrow> ('h, 'r, 's, 'w) entry_options" where
  "eo_Reset eo = eo\<lparr>eo_resourceType := ResTypeCommon, eo_entryType := Outbound, eo_batchCount := 1,
     eo_flag := 0, eo_slotChain := None, eo_args := [], eo_attachments := [], eo_rsps := [],
     eo_headers := [], eo_cookies := [], eo_body := [], eo_metaData := []\<rparr>"

type_synonym ('h, 'r, 's, 'w) entry_option =
  "('h, 'r, 's, 'w) entry_options \<Rightarrow> ('h, 'r, 's, 'w) entry_options"

definition WithResourceType :: "resource_type \<Rightarrow> ('h, 'r, 's, 'w) entry_option" where
  "WithResourceType t eo = eo\<lparr>eo_resourceType := t\<rparr>"

definition WithTrafficType :: "traffic_type \<Rightarrow> ('h, 'r, 's, 'w) entry_option" where
  "WithTrafficType t eo = eo\<lparr>eo_entryType := t\<rparr>"

definition WithBatchCount :: "u32 \<Rightarrow> ('h, 'r, 's, 'w) entry_option" where
  "WithBatchCount n eo = eo\<lparr>eo_batchCount := n\<rparr>"

definition WithFlag :: "i32 \<Rightarrow> ('h, 'r, 's, 'w) entry_option" where
  "WithFlag f eo = eo\<lparr>eo_flag := f\<rparr>"

definition WithArgs :: "go_value list \<Rightarrow> ('h, 'r, 's, 'w) entry_option" where
  "WithArgs xs eo = eo\<lparr>eo_args := eo_args eo @ xs\<rparr>"

definition WithRsps :: "go_value list \<Rightarrow> ('h, 'r, 's, 'w) entry_option" where
  "WithRsps xs eo = eo\<lparr>eo_rsps := eo_rsps eo @ xs\<rparr>"

definition WithSlotChain :: "('h exit_handler, 'r, 's, 'w) slot_chain option \<Rightarrow> ('h, 'r, 's, 'w) entry_option" where
  "WithSlotChain sc eo = eo\<lparr>eo_slotChain := sc\<rparr>"

definition WithAttachment :: "go_value \<Rightarrow> go_value \<Rightarrow> ('h, 'r, 's, 'w) entry_option" where
  "WithAttachment k v eo = eo\<lparr>eo_attachments := mput k v (eo_attachments eo)\<rparr>"

definition WithAttachments :: "(go_value, go_value) gomap \<Rightarrow> ('h, 'r, 's, 'w) entry_option" where
  "WithAttachments data eo = eo\<lparr>eo_attachments := foldl (\<lambda>m (k, v). mput k v m) (eo_attachments eo) data\<rparr>"

definition WithHeaders :: "(string, string list) gomap \<Rightarrow> ('h, 'r, 's, 'w) entry_option" where
  "WithHeaders m eo = eo\<lparr>eo_headers := m\<rparr>"

definition WithMetaData :: "(string, string) gomap \<Rightarrow> ('h, 'r, 's, 'w) entry_option" where
  "WithMetaData m eo = eo\<lparr>eo_metaData := m\<rparr>"

definition WithFromService :: "string \<Rightarrow> ('h, 'r, 's, 'w) entry_option" where
  "WithFromService s eo = eo\<lparr>eo_fromService := s\<rparr>"

section \<open>Making an entry\<close>

definition fill_context :: "resource_wrapper \<Rightarrow> ('h, 'r, 's, 'w) entry_options \<Rightarrow> ('r, 's) entry_context \<Rightarrow> ('r, 's) entry_context" where
  "fill_context rw eo ctx =
     (let i = (ctx_Input ctx)\<lparr>in_BatchCount := eo_batchCount eo, in_Flag := eo_flag eo\<rparr>;
          i = (if length (eo_args eo) \<noteq> 0 then i\<lparr>in_Args := eo_args eo\<rparr> else i);
          i = (if length (eo_attachments eo) \<noteq> 0 then i\<lparr>in_Attachments := eo_attachments eo\<rparr> else i);
          i = (if length (eo_headers eo) \<noteq> 0 then i\<lparr>in_Headers := eo_headers eo\<rparr> else i);
          i = (if length (eo_cookies eo) \<noteq> 0 then i\<lparr>in_Cookies := eo_cookies eo\<rparr> else i);
          i = (if length (eo_body eo) \<noteq> 0 then i\<lparr>in_Body := eo_body eo\<rparr> else i);
          i = (if length (eo_metaData eo) \<noteq> 0 then i\<lparr>in_MetaData := eo_metaData eo\<rparr> else i);
          out = (if length (eo_rsps eo) \<noteq> 0 then (ctx_Output ctx)\<lparr>out_Rsps := eo_rsps eo\<rparr> else ctx_Output ctx)
      in ctx\<lparr>ctx_Resource := Some rw, ctx_Input := i, ctx_FromService := eo_fromService eo, ctx_Output := out\<rparr>)"

text \<open>
  The result is the pointer to the entry, or nil, and the block error, or nil. The clock is read by
  \<open>GetPooledContext\<close> and, for a blocked entry, by the exit.
\<close>

definition api_entry ::
  "('h, 'r, 's, 'w) hook_meaning \<Rightarrow> nat option \<Rightarrow> u64 \<Rightarrow> u64 \<Rightarrow> u64 \<Rightarrow> string \<Rightarrow> ('h, 'r, 's, 'w) entry_options \<Rightarrow> ('h, 'r, 's, 'w) app \<Rightarrow>
   (nat option \<times> ('r, 's) block_error option) go \<times> ('h, 'r, 's, 'w) app" where
  "api_entry hook pick t t1 t2 resource eo a =
     (let rw = NewResourceWrapper resource (eo_resourceType eo) (eo_entryType eo); e = length (app_entries a)
      in case eo_slotChain eo of
           None \<Rightarrow> (Ret (Some e, None), a\<lparr>app_entries := app_entries a @ [NewSeaEntry None rw None]\<rparr>)
         | Some sc \<Rightarrow>
             let (c, a) = GetPooledContext pick t a;
                 ctx = (fill_context rw eo (app_ctxs a ! c))\<lparr>ctx_entry := Some e\<rparr>;
                 en = NewSeaEntry (Some c) rw (Some sc);
                 (r, st) = chain_Entry sc \<lparr>rs_ctx = ctx, rs_handlers = se_exitHandlers en, rs_world = app_world a\<rparr>;
                 en = en\<lparr>se_exitHandlers := rs_handlers st\<rparr>;
                 a = set_ctx c (rs_ctx st) (a\<lparr>app_entries := app_entries a @ [en], app_world := rs_world st\<rparr>)
             in case r of
                  None \<Rightarrow> (Ret (Some e, None), a)
                | Some r \<Rightarrow>
                    if tr_status r = ResultStatusBlocked then
                      (case NewBlockErrorFromDeepCopy (tr_blockErr r) of
                         Ret blockErr \<Rightarrow> (Ret (None, Some blockErr), Exit hook t1 t2 None e a)
                       | Err p \<Rightarrow> (Err p, a)
                       | Panic p \<Rightarrow> (Panic p, a))
                    else
                      (Ret (Some e, None),
                       set_entry e (en\<lparr>se_grayRes := tr_grayRes r, se_grayTag := tr_grayTag r,
                         se_linkPass := tr_linkPass r, se_grayAddress := tr_grayAddress r,
                         se_grayMatchRes := tr_grayMatchRes r\<rparr>) a))"

text \<open>
  \<open>api.Entry\<close>: the options come from a pool too, so \<open>eo\<close> is what the pool handed out; the last component
  is what goes back to it. \<open>global\<close> is the global chain.
\<close>

definition api_Entry ::
  "('h, 'r, 's, 'w) hook_meaning \<Rightarrow> ('h exit_handler, 'r, 's, 'w) slot_chain \<Rightarrow> nat option \<Rightarrow> u64 \<Rightarrow> u64 \<Rightarrow> u64 \<Rightarrow> string \<Rightarrow>
   ('h, 'r, 's, 'w) entry_option list \<Rightarrow> ('h, 'r, 's, 'w) entry_options \<Rightarrow> ('h, 'r, 's, 'w) app \<Rightarrow>
   (nat option \<times> ('r, 's) block_error option) go \<times> ('h, 'r, 's, 'w) app \<times> ('h, 'r, 's, 'w) entry_options" where
  "api_Entry hook global pick t t1 t2 resource opts eo a =
     (let eo = foldl (\<lambda>eo opt. opt eo) eo opts;
          eo = (if eo_slotChain eo = None then eo\<lparr>eo_slotChain := Some global\<rparr> else eo);
          (r, a) = api_entry hook pick t t1 t2 resource eo a
      in (r, a, eo_Reset eo))"

end
