(* ===== verification/EntryProps.thy ===== *)
theory EntryProps
  imports Entry
begin

text \<open>
  Entries and the pool of contexts: as long as nobody reports an error on an entry that was exited
  before, two entries in flight never share a context, and a context in the pool is clean.
\<close>

section \<open>The invariant\<close>

text \<open>The entry \<open>e\<close> is in flight with the context \<open>c\<close>.\<close>

definition live :: "('h, 'r, 's, 'w) app \<Rightarrow> nat \<Rightarrow> nat \<Rightarrow> bool" where
  "live a e c \<longleftrightarrow> e < length (app_entries a) \<and> \<not> se_exited (app_entries a ! e) \<and> se_ctx (app_entries a ! e) = Some c"

definition app_inv :: "('h, 'r, 's, 'w) app \<Rightarrow> bool" where
  "app_inv a \<longleftrightarrow> distinct (app_pool a) \<and>
     (\<forall>c \<in> set (app_pool a). c < length (app_ctxs a) \<and> clean_context (app_ctxs a ! c)) \<and>
     (\<forall>e c. live a e c \<longrightarrow> c < length (app_ctxs a) \<and> c \<notin> set (app_pool a) \<and> se_sc (app_entries a ! e) \<noteq> None) \<and>
     (\<forall>e e' c. live a e c \<longrightarrow> live a e' c \<longrightarrow> e = e')"

lemma app_invI:
  assumes "distinct (app_pool a)"
    and "\<And>c. c \<in> set (app_pool a) \<Longrightarrow> c < length (app_ctxs a) \<and> clean_context (app_ctxs a ! c)"
    and "\<And>e c. live a e c \<Longrightarrow> c < length (app_ctxs a) \<and> c \<notin> set (app_pool a) \<and> se_sc (app_entries a ! e) \<noteq> None"
    and "\<And>e e' c. live a e c \<Longrightarrow> live a e' c \<Longrightarrow> e = e'"
  shows "app_inv a"
  using assms unfolding app_inv_def by blast

lemma app_invD:
  assumes "app_inv a"
  shows "distinct (app_pool a)"
    and "c \<in> set (app_pool a) \<Longrightarrow> c < length (app_ctxs a) \<and> clean_context (app_ctxs a ! c)"
    and "live a e c \<Longrightarrow> c < length (app_ctxs a) \<and> c \<notin> set (app_pool a) \<and> se_sc (app_entries a ! e) \<noteq> None"
    and "live a e c \<Longrightarrow> live a e' c \<Longrightarrow> e = e'"
  using assms unfolding app_inv_def by blast+

text \<open>Writing a context that is not in the pool keeps the invariant.\<close>

lemma set_ctx_views [simp]:
  "app_pool (set_ctx c ctx a) = app_pool a" "app_entries (set_ctx c ctx a) = app_entries a"
  "length (app_ctxs (set_ctx c ctx a)) = length (app_ctxs a)" "live (set_ctx c ctx a) e c' = live a e c'"
  "app_world (set_ctx c ctx a) = app_world a" "app_rsps (set_ctx c ctx a) = app_rsps a"
  by (simp_all add: set_ctx_def live_def)

lemma inv_set_ctx:
  assumes inv: "app_inv a" and c: "c \<notin> set (app_pool a)"
  shows "app_inv (set_ctx c ctx a)"
proof (rule app_invI)
  fix c' assume c': "c' \<in> set (app_pool (set_ctx c ctx a))"
  then have "c' \<noteq> c" using c by (auto simp: set_ctx_def)
  with c' app_invD(2) [OF inv, of c'] show "c' < length (app_ctxs (set_ctx c ctx a)) \<and>
      clean_context (app_ctxs (set_ctx c ctx a) ! c')"
    by (simp add: set_ctx_def)
qed (use app_invD [OF inv] in simp_all)

section \<open>Taking a context\<close>

lemma GetPooledContext_spec:
  assumes inv: "app_inv a" and pick: "\<And>i. pick = Some i \<Longrightarrow> i < length (app_pool a)"
    and get: "GetPooledContext pick now a = (c, a')"
  shows "app_inv a'" and "c < length (app_ctxs a')" and "c \<notin> set (app_pool a')" and "\<not> live a' e c"
    and "app_entries a' = app_entries a" and "app_world a' = app_world a" and "app_rsps a' = app_rsps a"
    and "\<exists>ctx. clean_context ctx \<and> app_ctxs a' ! c = ctx\<lparr>ctx_startTime := now\<rparr>"
proof -
  have "app_inv a' \<and> c < length (app_ctxs a') \<and> c \<notin> set (app_pool a') \<and> (\<forall>e. \<not> live a' e c) \<and>
    app_entries a' = app_entries a \<and> app_world a' = app_world a \<and> app_rsps a' = app_rsps a \<and>
    (\<exists>ctx. clean_context ctx \<and> app_ctxs a' ! c = ctx\<lparr>ctx_startTime := now\<rparr>)"
  proof (cases pick)
    case None
    let ?a = "a\<lparr>app_ctxs := app_ctxs a @ [NewPooledContext]\<rparr>"
    have c: "c = length (app_ctxs a)" and a': "a' = set_ctx c (NewPooledContext\<lparr>ctx_startTime := now\<rparr>) ?a"
      using get None by (auto simp: GetPooledContext_def Let_def)
    have l: "live ?a e c' = live a e c'" for e c' by (simp add: live_def)
    have inv': "app_inv ?a"
      by (rule app_invI) (use app_invD [OF inv] in \<open>auto simp: l nth_append less_Suc_eq\<close>)
    have nc: "c \<notin> set (app_pool ?a)" using app_invD(2) [OF inv, of c] by (auto simp: c)
    have "\<not> live ?a e c" for e using app_invD(3) [OF inv, of e c] by (auto simp: l c)
    moreover have "app_ctxs a' ! c = NewPooledContext\<lparr>ctx_startTime := now\<rparr>" by (simp add: a' set_ctx_def c)
    moreover have "app_inv a'" using inv_set_ctx [OF inv' nc] by (simp only: a')
    ultimately show ?thesis using nc clean_New by (fastforce simp: a' c)
  next
    case (Some i)
    let ?a = "a\<lparr>app_pool := remove_nth i (app_pool a)\<rparr>"
    have i: "i < length (app_pool a)" using pick Some by simp
    have c: "c = app_pool a ! i" and a': "a' = set_ctx c ((app_ctxs a ! c)\<lparr>ctx_startTime := now\<rparr>) ?a"
      using get Some by (auto simp: GetPooledContext_def Let_def)
    have mem: "c \<in> set (app_pool a)" using i by (simp add: c)
    note cl = app_invD(2) [OF inv mem]
    have d: "distinct (remove_nth i (app_pool a))" "c \<notin> set (remove_nth i (app_pool a))"
      using distinct_remove_nth [of "\<lambda>x. x" "app_pool a" i] app_invD(1) [OF inv] i by (simp_all add: c)
    have sub: "set (remove_nth i (app_pool a)) \<subseteq> set (app_pool a)" by (rule set_remove_nth)
    have l: "live ?a e c' = live a e c'" for e c' by (simp add: live_def)
    have inv': "app_inv ?a"
      by (rule app_invI) (use app_invD [OF inv] d(1) sub in \<open>auto simp: l\<close>)
    have "\<not> live ?a e c" for e using app_invD(3) [OF inv, of e c] mem by (auto simp: l)
    moreover have "app_ctxs a' ! c = (app_ctxs a ! c)\<lparr>ctx_startTime := now\<rparr>" using cl by (simp add: a' set_ctx_def)
    moreover have "app_inv a'" using inv_set_ctx [OF inv', of c] d(2) by (simp only: a') simp
    ultimately show ?thesis using d(2) cl by (fastforce simp: a')
  qed
  then show "app_inv a'" and "c < length (app_ctxs a')" and "c \<notin> set (app_pool a')" and "\<not> live a' e c"
    and "app_entries a' = app_entries a" and "app_world a' = app_world a" and "app_rsps a' = app_rsps a"
    and "\<exists>ctx. clean_context ctx \<and> app_ctxs a' ! c = ctx\<lparr>ctx_startTime := now\<rparr>"
    by blast+
qed

section \<open>Leaving an entry\<close>

lemma exit_once_views:
  assumes "se_sc (app_entries a ! e) \<noteq> None"
  shows "app_entries (exit_once hook now now' e c a) = app_entries a"
    and "app_pool (exit_once hook now now' e c a) = c # app_pool a"
    and "\<exists>ctx. app_ctxs (exit_once hook now now' e c a) = (app_ctxs a)[c := ctx_Reset ctx]"
proof -
  obtain sc where sc: "se_sc (app_entries a ! e) = Some sc" using assms by blast
  obtain r ctx rsps w where h: "run_handlers hook now now' (se_exitHandlers (app_entries a ! e)) (app_ctxs a ! c)
      (app_rsps a) (app_world a) = (r, ctx, rsps, w)" by (metis prod_cases4)
  let ?x = "\<lambda>ctx w. RefurbishContext c (set_ctx c ctx (a\<lparr>app_rsps := rsps, app_world := w\<rparr>))"
  have "\<exists>ctx w. exit_once hook now now' e c a = ?x ctx w"
    by (cases r) (auto simp: exit_once_def h sc set_ctx_def Let_def split: prod.splits)
  then obtain ctx w where x: "exit_once hook now now' e c a = ?x ctx w" by blast
  show "app_entries (exit_once hook now now' e c a) = app_entries a"
    and "app_pool (exit_once hook now now' e c a) = c # app_pool a"
    by (simp_all add: x RefurbishContext_def Let_def)
  show "\<exists>ctx. app_ctxs (exit_once hook now now' e c a) = (app_ctxs a)[c := ctx_Reset ctx]"
    by (cases "c < length (app_ctxs a)") (auto simp: x RefurbishContext_def set_ctx_def Let_def list_update_beyond)
qed

lemma inv_exit_live:
  assumes inv: "app_inv a" and l: "live a e c"
  shows "app_inv (exit_once hook now now' e c (set_entry e ((app_entries a ! e)\<lparr>se_exited := True\<rparr>) a))"
proof -
  let ?a = "set_entry e ((app_entries a ! e)\<lparr>se_exited := True\<rparr>) a"
  let ?b = "exit_once hook now now' e c ?a"
  note lc = app_invD(3) [OF inv l]
  have e: "e < length (app_entries a)" using l by (simp add: live_def)
  have "se_sc (app_entries ?a ! e) \<noteq> None" using lc e by (simp add: set_entry_def)
  note v = exit_once_views [OF this, of hook now now' c]
  obtain ctx where ctxs: "app_ctxs ?b = (app_ctxs a)[c := ctx_Reset ctx]" using v(3) by (auto simp: set_entry_def)
  have pool: "app_pool ?b = c # app_pool a" using v(2) by (simp add: set_entry_def)
  have ents: "app_entries ?b = (app_entries a)[e := (app_entries a ! e)\<lparr>se_exited := True\<rparr>]"
    using v(1) by (simp add: set_entry_def)
  have live': "live ?b e' c' \<Longrightarrow> live a e' c' \<and> e' \<noteq> e" for e' c'
    using e by (cases "e' = e") (simp_all add: live_def ents)
  show "app_inv ?b"
  proof (rule app_invI)
    show "distinct (app_pool ?b)" using app_invD(1) [OF inv] lc by (simp add: pool)
    show "c' < length (app_ctxs ?b) \<and> clean_context (app_ctxs ?b ! c')" if "c' \<in> set (app_pool ?b)" for c'
      using that app_invD(2) [OF inv, of c'] lc clean_Reset by (cases "c' = c") (auto simp: pool ctxs)
    show "c' < length (app_ctxs ?b) \<and> c' \<notin> set (app_pool ?b) \<and> se_sc (app_entries ?b ! e') \<noteq> None"
      if "live ?b e' c'" for e' c'
      using live' [OF that] app_invD(3) [OF inv, of e' c'] app_invD(4) [OF inv, of e' c' e] l
      by (auto simp: pool ctxs ents)
    show "e1 = e2" if "live ?b e1 c'" "live ?b e2 c'" for e1 e2 c'
      using live' [OF that(1)] live' [OF that(2)] app_invD(4) [OF inv] by blast
  qed
qed

lemma inv_Exit:
  assumes inv: "app_inv a" and e: "e < length (app_entries a)"
    and err: "err \<noteq> None \<Longrightarrow> \<not> se_exited (app_entries a ! e)"
  shows "app_inv (Exit hook now now' err e a)"
proof (cases "se_ctx (app_entries a ! e)")
  case None
  then show ?thesis using inv by (simp add: Exit_def)
next
  case (Some c)
  let ?a = "if err \<noteq> None then set_ctx c (ctx_SetError err (app_ctxs a ! c)) a else a"
  have en: "app_entries ?a = app_entries a" by (simp add: set_ctx_def)
  show ?thesis
  proof (cases "se_exited (app_entries a ! e)")
    case True
    then show ?thesis using Some inv err by (auto simp: Exit_def Let_def)
  next
    case False
    then have l: "live a e c" using e Some by (simp add: live_def)
    then have "app_inv ?a" using inv app_invD(3) [OF inv l] by (simp add: inv_set_ctx)
    moreover have "live ?a e c" using l by simp
    ultimately have "app_inv (exit_once hook now now' e c (set_entry e ((app_entries ?a ! e)\<lparr>se_exited := True\<rparr>) ?a))"
      by (rule inv_exit_live)
    then show ?thesis using Some False by (cases err) (simp_all add: Exit_def)
  qed
qed

lemma inv_SetError:
  assumes inv: "app_inv a" and e: "e < length (app_entries a)" and ok: "\<not> se_exited (app_entries a ! e)"
  shows "app_inv (SetError e err a)"
proof (cases "se_ctx (app_entries a ! e)")
  case (Some c)
  then have "live a e c" using e ok by (simp add: live_def)
  then show ?thesis using app_invD(3) [OF inv, of e c] inv Some by (simp add: SetError_def inv_set_ctx)
qed (use inv in \<open>simp add: SetError_def\<close>)

section \<open>Making an entry\<close>

text \<open>An entry that is added in flight with a context of its own keeps the invariant.\<close>

lemma inv_add_entry:
  assumes inv: "app_inv a" and c: "c < length (app_ctxs a)" "c \<notin> set (app_pool a)" "\<And>e. \<not> live a e c"
    and en: "se_sc en \<noteq> None" "se_ctx en = Some c" "\<not> se_exited en"
  shows "app_inv (set_ctx c ctx (a\<lparr>app_entries := app_entries a @ [en], app_world := w\<rparr>))"
    and "live (set_ctx c ctx (a\<lparr>app_entries := app_entries a @ [en], app_world := w\<rparr>)) (length (app_entries a)) c"
proof -
  let ?b = "a\<lparr>app_entries := app_entries a @ [en], app_world := w\<rparr>"
  have l: "live ?b e c' \<longleftrightarrow> live a e c' \<or> (e = length (app_entries a) \<and> c' = c)" for e c'
    using en by (auto simp: live_def nth_append less_Suc_eq)
  have "app_inv ?b"
  proof (rule app_invI)
    show "e1 = e2" if "live ?b e1 c'" "live ?b e2 c'" for e1 e2 c'
      using that c(3) app_invD(4) [OF inv, of e1 c' e2] by (auto simp: l)
    show "c' < length (app_ctxs ?b) \<and> c' \<notin> set (app_pool ?b) \<and> se_sc (app_entries ?b ! e) \<noteq> None"
      if "live ?b e c'" for e c'
      using that c app_invD(3) [OF inv, of e c'] en by (auto simp: l nth_append live_def)
  qed (use app_invD [OF inv] in auto)
  then show "app_inv (set_ctx c ctx ?b)" using c(2) by (simp add: inv_set_ctx)
  show "live (set_ctx c ctx ?b) (length (app_entries a)) c" by (simp add: l)
qed

lemma inv_gray:
  assumes inv: "app_inv a" and en: "se_sc en = se_sc (app_entries a ! e)" "se_ctx en = se_ctx (app_entries a ! e)"
    "se_exited en = se_exited (app_entries a ! e)"
  shows "app_inv (set_entry e en a)"
proof -
  have l: "live (set_entry e en a) e' c' = live a e' c'" for e' c'
    using en by (cases "e' = e") (auto simp: live_def set_entry_def nth_list_update)
  have v: "app_pool (set_entry e en a) = app_pool a" "app_ctxs (set_entry e en a) = app_ctxs a"
    by (simp_all add: set_entry_def)
  have sc: "se_sc (app_entries (set_entry e en a) ! e') = se_sc (app_entries a ! e')" for e'
    using en(1) by (cases "e' = e"; cases "e < length (app_entries a)")
      (simp_all add: set_entry_def nth_list_update list_update_beyond)
  show ?thesis
    by (rule app_invI) (use app_invD [OF inv] in \<open>simp_all add: v l sc\<close>)
qed

lemma inv_api_entry:
  assumes inv: "app_inv a" and pick: "\<And>i. pick = Some i \<Longrightarrow> i < length (app_pool a)"
  shows "app_inv (snd (api_entry hook pick t t1 t2 resource eo a))"
proof (cases "eo_slotChain eo")
  case None
  let ?en = "NewSeaEntry None (NewResourceWrapper resource (eo_resourceType eo) (eo_entryType eo)) None"
  have l: "live (a\<lparr>app_entries := app_entries a @ [?en]\<rparr>) e c = live a e c" for e c
    by (auto simp: live_def nth_append NewSeaEntry_def less_Suc_eq)
  have "app_inv (a\<lparr>app_entries := app_entries a @ [?en]\<rparr>)"
  proof (rule app_invI)
    fix e c assume "live (a\<lparr>app_entries := app_entries a @ [?en]\<rparr>) e c"
    then have "live a e c" by (simp only: l)
    moreover from this have "e < length (app_entries a)" by (simp add: live_def)
    ultimately show "c < length (app_ctxs (a\<lparr>app_entries := app_entries a @ [?en]\<rparr>)) \<and>
        c \<notin> set (app_pool (a\<lparr>app_entries := app_entries a @ [?en]\<rparr>)) \<and>
        se_sc (app_entries (a\<lparr>app_entries := app_entries a @ [?en]\<rparr>) ! e) \<noteq> None"
      using app_invD(3) [OF inv, of e c] by (simp add: nth_append)
  qed (use app_invD [OF inv] in \<open>simp_all add: l\<close>)
  then show ?thesis by (simp add: api_entry_def None Let_def)
next
  case (Some sc)
  obtain c a1 where g: "GetPooledContext pick t a = (c, a1)" by (cases "GetPooledContext pick t a")
  note sp = GetPooledContext_spec [OF inv pick g]
  let ?rw = "NewResourceWrapper resource (eo_resourceType eo) (eo_entryType eo)" and ?e = "length (app_entries a)"
  let ?en = "NewSeaEntry (Some c) ?rw (Some sc) :: ('a, 'b, 'c, 'd) sea_entry"
  obtain r st where ch: "chain_Entry sc \<lparr>rs_ctx = (fill_context ?rw eo (app_ctxs a1 ! c))\<lparr>ctx_entry := Some ?e\<rparr>,
      rs_handlers = se_exitHandlers ?en, rs_world = app_world a1\<rparr> = (r, st)" by (meson surj_pair)
  let ?en' = "?en\<lparr>se_exitHandlers := rs_handlers st\<rparr>"
  let ?a = "set_ctx c (rs_ctx st) (a1\<lparr>app_entries := app_entries a1 @ [?en'], app_world := rs_world st\<rparr>)"
  have en: "se_sc ?en' \<noteq> None" "se_ctx ?en' = Some c" "\<not> se_exited ?en'" by (simp_all add: NewSeaEntry_def)
  have add: "app_inv ?a" "live ?a ?e c"
    using inv_add_entry [OF sp(1-4) en, of "rs_ctx st" "rs_world st"] by (simp_all add: sp(5))
  then have e: "?e < length (app_entries ?a)" "\<not> se_exited (app_entries ?a ! ?e)" by (simp_all add: live_def)
  have x: "app_inv (Exit hook t1 t2 None ?e ?a)" by (rule inv_Exit [OF add(1) e(1)]) simp
  have "app_entries ?a ! ?e = ?en'" by (simp add: sp(5) [symmetric])
  then have g': "app_inv (set_entry ?e (?en'\<lparr>se_grayRes := x1, se_grayTag := x2, se_linkPass := x3,
      se_grayAddress := x4, se_grayMatchRes := x5\<rparr>) ?a)" for x1 x2 x3 x4 x5
    by (intro inv_gray [OF add(1)]) simp_all
  show ?thesis
    using add(1) x g' by (auto simp: api_entry_def Some g ch Let_def sp(5) split: option.splits go.splits)
qed

text \<open>The calls a program makes; a clock reading is part of the call.\<close>

datatype ('h, 'r, 's, 'w) app_op =
  OpEntry "nat option" u64 u64 u64 string "('h, 'r, 's, 'w) entry_options"
| OpExit u64 u64 "string option" nat
| OpTrace nat "string option"

fun run_op :: "('h, 'r, 's, 'w) hook_meaning \<Rightarrow> ('h, 'r, 's, 'w) app_op \<Rightarrow> ('h, 'r, 's, 'w) app \<Rightarrow> ('h, 'r, 's, 'w) app" where
  "run_op hook (OpEntry pick t t1 t2 resource eo) a = snd (api_entry hook pick t t1 t2 resource eo a)"
| "run_op hook (OpExit now now' err e) a = Exit hook now now' err e a"
| "run_op hook (OpTrace e err) a = TraceError (Some e) err a"

text \<open>
  The pool hands out what it holds, entries exist, and no error is reported on an entry that was exited.
  Exiting again without an error is allowed.
\<close>

fun op_ok :: "('h, 'r, 's, 'w) app \<Rightarrow> ('h, 'r, 's, 'w) app_op \<Rightarrow> bool" where
  "op_ok a (OpEntry pick t t1 t2 resource eo) = (case pick of None \<Rightarrow> True | Some i \<Rightarrow> i < length (app_pool a))"
| "op_ok a (OpExit now now' err e) = (e < length (app_entries a) \<and> (err = None \<or> \<not> se_exited (app_entries a ! e)))"
| "op_ok a (OpTrace e err) = (e < length (app_entries a) \<and> \<not> se_exited (app_entries a ! e))"

fun ops_ok :: "('h, 'r, 's, 'w) hook_meaning \<Rightarrow> ('h, 'r, 's, 'w) app \<Rightarrow> ('h, 'r, 's, 'w) app_op list \<Rightarrow> bool" where
  "ops_ok hook a [] = True"
| "ops_ok hook a (op # ops) = (op_ok a op \<and> ops_ok hook (run_op hook op a) ops)"

definition start_app :: "'w \<Rightarrow> ('h, 'r, 's, 'w) app" where
  "start_app w = \<lparr>app_ctxs = [], app_pool = [], app_entries = [],
     app_rsps = \<lparr>rsp_resNodeMap = [], rsp_resUpdateMap = []\<rparr>, app_world = w\<rparr>"

lemma inv_run_op: "app_inv a \<Longrightarrow> op_ok a op \<Longrightarrow> app_inv (run_op hook op a)"
  by (cases op) (auto intro: inv_api_entry inv_Exit simp: TraceError_def inv_SetError)

lemma inv_run_ops: "app_inv a \<Longrightarrow> ops_ok hook a ops \<Longrightarrow> app_inv (foldl (\<lambda>a op. run_op hook op a) a ops)"
  by (induction ops arbitrary: a) (simp_all add: inv_run_op)

lemma inv_start: "app_inv (start_app w)"
  by (simp add: app_inv_def start_app_def live_def)

text \<open>
  C12: Recycling contexts is safe as long as no error is reported on an exited entry (leaving an entry
  twice is allowed). Whatever other entries a program makes, traces and leaves, with any slots, panicking
  or not, and whatever the pool drops or hands out: two entries in flight never share a context, no
  context of an entry in flight is in the pool, and every context in the pool is a new one but for
  three fields of its passing result, which carry over from the request that used it: the gray
  resource, its addresses and the resource of the gray rule.
\<close>

theorem contexts_never_shared:
  assumes "ops_ok hook (start_app w) ops"
  defines "a \<equiv> foldl (\<lambda>a op. run_op hook op a) (start_app w) ops"
  shows "(\<forall>e e' c. live a e c \<and> live a e' c \<longrightarrow> e = e') \<and>
    (\<forall>e c. live a e c \<longrightarrow> c \<notin> set (app_pool a)) \<and>
    (\<forall>c \<in> set (app_pool a). \<exists>gray address match err. (err = None \<or> err = Some (NewBlockError [])) \<and>
       app_ctxs a ! c = NewPooledContext\<lparr>ctx_RuleCheckResult := Some
         \<lparr>tr_status = ResultStatusPass, tr_grayRes = gray, tr_grayAddress = address, tr_linkPass = False,
          tr_grayTag = [], tr_grayMatchRes = match, tr_blockErr = err, tr_nanosToWait = 0\<rparr>\<rparr>)"
proof -
  have "app_inv a" unfolding a_def by (rule inv_run_ops [OF inv_start assms(1)])
  then show ?thesis by (fastforce simp: app_inv_def clean_context_def clean_result_def)
qed

text \<open>A chain without slots; the second entry gets the context of the first, which was exited twice.\<close>

definition plain_options :: "(unit, unit, unit, unit) entry_options" where
  "plain_options = NewEntryOptions\<lparr>eo_slotChain := Some NewSlotChain\<rparr>"

definition recycling_ops :: "(unit, unit, unit, unit) app_op list" where
  "recycling_ops = [OpEntry None 1 1 1 ''r'' plain_options, OpExit 2 2 (Some ''failed'') 0, OpExit 2 2 None 0,
     OpEntry (Some 0) 3 3 3 ''s'' plain_options]"

lemmas run_entry_defs = api_entry_def GetPooledContext_def set_ctx_def set_entry_def chain_Entry_def chain_body_def
  NewSeaEntry_def store_check_def get_result_def put_result_def proc_ret_def proc_bind_def fill_context_def
  Exit_def exit_once_def chain_exit_def MockRspExitHandler_def RefurbishContext_def TraceError_def SetError_def
  ctx_SetError_def NewPooledContext_def ctx_Reset_def seaInput_reset_def seaOutput_reset_def tr_ResetToPass_def
  NewTokenResultPass_def NewTokenResult_def NewBlockError_def ctx_IsBlocked_def tr_IsBlocked_def
  result_status_defs NewResourceWrapper_def remove_nth_def

theorem contexts_never_shared_witness:
  "live (foldl (\<lambda>a op. run_op (\<lambda>_ c w. (Ret (), c, w)) op a) (start_app ()) recycling_ops) 1 0 \<and>
   \<not> (\<exists>e. e \<noteq> 1 \<and> live (foldl (\<lambda>a op. run_op (\<lambda>_ c w. (Ret (), c, w)) op a) (start_app ()) recycling_ops) e 0)"
proof -
  have ok: "ops_ok (\<lambda>_ c w. (Ret (), c, w)) (start_app ()) recycling_ops"
    by (simp add: recycling_ops_def plain_options_def NewEntryOptions_def start_app_def run_entry_defs Let_def)
  have "live (foldl (\<lambda>a op. run_op (\<lambda>_ c w. (Ret (), c, w)) op a) (start_app ()) recycling_ops) 1 0"
    by (simp add: live_def recycling_ops_def plain_options_def NewEntryOptions_def start_app_def run_entry_defs Let_def)
  with contexts_never_shared [OF ok] show ?thesis by blast
qed

section \<open>What goes wrong\<close>

text \<open>
  An error reported on an entry that was exited before reaches a stranger. \<open>Exit\<close> stores the error
  before it asks whether the entry was exited, into a context that may belong to another request by then:
  here entry 0 was exited, entry 1 runs on its context, and the late error of entry 0 becomes the error
  of entry 1.
\<close>

lemma late_error_reaches_another_entry:
  "let hook = (\<lambda>_ c w. (Ret (), c, w));
       a = foldl (\<lambda>a op. run_op hook op a) (start_app ()) recycling_ops;
       a' = Exit hook 4 4 (Some ''late'') 0 a
   in se_exited (app_entries a ! 0) \<and> live a 1 0 \<and> ctx_err (app_ctxs a ! 0) = None \<and>
      live a' 1 0 \<and> ctx_err (app_ctxs a' ! 0) = Some ''late''"
  by (simp add: live_def recycling_ops_def plain_options_def NewEntryOptions_def start_app_def run_entry_defs Let_def)

text \<open>
  A router that sends the resource \<open>r\<close> to a gray resource. For any other it returns the context's own
  result, as the gray slot of the program does when no rule matches.
\<close>

definition gray_router :: "(unit exit_handler, unit, unit, unit) router_slot" where
  "gray_router = \<lparr>router_Order = 1, Router = (\<lambda>st.
     (Ret (if map_option rw_name (ctx_Resource (rs_ctx st)) = Some ''r''
           then Some (NewTokenResultPassWithGrayResource (Some (NewResourceWrapper ''r-gray'' 0 0)) True ''tag'' ''r'' [])
           else ctx_RuleCheckResult (rs_ctx st)), st))\<rparr>"

definition gray_options :: "(unit, unit, unit, unit) entry_options" where
  "gray_options = NewEntryOptions\<lparr>eo_slotChain := Some (AddRouterSlot gray_router NewSlotChain)\<rparr>"

text \<open>
  A request can be sent to the gray resource of another. Resetting a result to pass does not clear
  its gray resource and the entry takes that field from its recycled context: after a gray request for
  \<open>r\<close> has left, the entry of a request for \<open>s\<close>, which no rule matches, points to the
  gray resource of \<open>r\<close>.
\<close>

lemma stale_gray_resource:
  "let hook = (\<lambda>_ c w. (Ret (), c, w));
       a = foldl (\<lambda>a op. run_op hook op a) (start_app ())
             [OpEntry None 1 1 1 ''r'' gray_options, OpExit 2 2 None 0,
              OpEntry (Some 0) 3 3 3 ''s'' gray_options]
   in rw_name (se_res (app_entries a ! 1)) = ''s'' \<and>
      map_option rw_name (se_grayRes (app_entries a ! 1)) = Some ''r-gray''"
  by (simp add: gray_options_def gray_router_def AddRouterSlot_def NewEntryOptions_def start_app_def
      run_entry_defs NewTokenResultPassWithGrayResource_def NewTokenResultWithResource_def Let_def)

end
