(* ===== verification/StatNode.thy ===== *)
theory StatNode
  imports SlidingWindow Context
begin

text \<open>
  Statistic nodes, \<open>core/stat\<close>: the node of a resource (\<open>base_node.go\<close>, \<open>resource_node.go\<close>), the
  storage of nodes (\<open>node_storage.go\<close>), the slot that finds the node of an entry
  (\<open>stat_prepare_slot.go\<close>) and the slot that records what became of the entry (\<open>stat_slot.go\<close>).

  A node and its view share one bucket leap array, so the array is stored once, in the node. The nodes
  of resources are never removed, so a pointer to one is its name. The Prometheus counter is not
  modelled beyond the nil block error it would dereference.
\<close>

section \<open>Configuration\<close>

record stat_config =
  GlobalStatisticSampleCountTotal :: u32
  GlobalStatisticIntervalMsTotal :: u32
  MetricStatisticSampleCount :: u32
  MetricStatisticIntervalMs :: u32

definition default_stat_config :: stat_config where
  "default_stat_config = \<lparr>GlobalStatisticSampleCountTotal = 20, GlobalStatisticIntervalMsTotal = 10000,
     MetricStatisticSampleCount = 2, MetricStatisticIntervalMs = 1000\<rparr>"

text \<open>The check of the statistic parameters when the configuration is loaded.\<close>

definition stat_config_valid :: "stat_config \<Rightarrow> bool" where
  "stat_config_valid c \<longleftrightarrow>
     CheckValidityForReuseStatistic (MetricStatisticSampleCount c) (MetricStatisticIntervalMs c)
       (GlobalStatisticSampleCountTotal c) (GlobalStatisticIntervalMsTotal c) = None"

section \<open>The node\<close>

record base_stat_node =
  bsn_sampleCount :: u32
  bsn_intervalMs :: u32
  bsn_concurrency :: i32
  bsn_arr :: bucket_leap_array
  bsn_metric :: "sliding_window option"

record resource_node = base_stat_node +
  rn_resourceName :: string
  rn_resourceType :: resource_type

text \<open>The error of the view is dropped: an unsuitable view is a nil pointer.\<close>

definition NewBaseStatNode :: "stat_config \<Rightarrow> u64 \<Rightarrow> u32 \<Rightarrow> u32 \<Rightarrow> base_stat_node go" where
  "NewBaseStatNode cfg now sampleCount intervalInMs =
     go_bind (NewBucketLeapArray now (GlobalStatisticSampleCountTotal cfg) (GlobalStatisticIntervalMsTotal cfg))
       (\<lambda>la. let metric = (case NewSlidingWindowMetric sampleCount intervalInMs (Some la) of
                   Ret m \<Rightarrow> Some m | _ \<Rightarrow> None)
             in Ret \<lparr>bsn_sampleCount = sampleCount, bsn_intervalMs = intervalInMs, bsn_concurrency = 0,
                     bsn_arr = la, bsn_metric = metric\<rparr>)"

definition NewResourceNode :: "stat_config \<Rightarrow> u64 \<Rightarrow> string \<Rightarrow> resource_type \<Rightarrow> resource_node go" where
  "NewResourceNode cfg now resourceName resourceType =
     go_bind (NewBaseStatNode cfg now (MetricStatisticSampleCount cfg) (MetricStatisticIntervalMs cfg))
       (\<lambda>n. Ret (base_stat_node.extend n \<lparr>rn_resourceName = resourceName, rn_resourceType = resourceType\<rparr>))"

text \<open>A call on a nil view panics when it reads a field of it.\<close>

definition with_metric :: "(sliding_window \<Rightarrow> bucket_leap_array \<Rightarrow> 'a) \<Rightarrow> 'n base_stat_node_scheme \<Rightarrow> 'a go" where
  "with_metric f n =
     (case bsn_metric n of None \<Rightarrow> Panic ''nil pointer dereference'' | Some m \<Rightarrow> Ret (f m (bsn_arr n)))"

definition node_GetQPS :: "u64 \<Rightarrow> metric_event \<Rightarrow> 'n base_stat_node_scheme \<Rightarrow> f64 go" where
  "node_GetQPS now event n = with_metric (\<lambda>m arr. getQPSWithTime m arr now event) n"

definition node_GetPreviousQPS :: "u64 \<Rightarrow> metric_event \<Rightarrow> 'n base_stat_node_scheme \<Rightarrow> f64 go" where
  "node_GetPreviousQPS now event n = with_metric (\<lambda>m arr. SlidingWindow.GetPreviousQPS m arr now event) n"

definition node_GetSumWithTime :: "u64 \<Rightarrow> metric_event \<Rightarrow> 'n base_stat_node_scheme \<Rightarrow> i64 go" where
  "node_GetSumWithTime now event n = with_metric (\<lambda>m arr. getSumWithTime m arr now event) n"

definition node_GetSum :: "u64 \<Rightarrow> metric_event \<Rightarrow> 'n base_stat_node_scheme \<Rightarrow> i64 go" where
  "node_GetSum now event n = node_GetSumWithTime now event n"

definition node_GetMaxAvg :: "u64 \<Rightarrow> metric_event \<Rightarrow> 'n base_stat_node_scheme \<Rightarrow> f64 go" where
  "node_GetMaxAvg now event n = with_metric (\<lambda>m arr.
     fmul (fdiv (fmul (f64_of_int (sint (GetMaxOfSingleBucket m arr now event)))
                      (f64_of_int (uint (bsn_sampleCount n))))
                (f64_of_int (uint (bsn_intervalMs n)))) (Fin 1000)) n"

definition node_GetAvg :: "u64 \<Rightarrow> metric_event \<Rightarrow> 'n base_stat_node_scheme \<Rightarrow> f64 go" where
  "node_GetAvg now event n = with_metric (\<lambda>m arr.
     fdiv (f64_of_int (sint (getSumWithTime m arr now event))) (getIntervalInSecond m)) n"

text \<open>\<open>AvgRT\<close> reads the clock once per sum.\<close>

definition node_AvgRT :: "u64 \<Rightarrow> u64 \<Rightarrow> 'n base_stat_node_scheme \<Rightarrow> f64 go" where
  "node_AvgRT now now' n = with_metric (\<lambda>m arr.
     let complete = getSumWithTime m arr now MetricEventComplete
     in if complete \<le>s 0 then Fin 0
        else f64_of_int (sint (i64_quot (getSumWithTime m arr now' MetricEventRt) complete))) n"

definition node_MinRT :: "u64 \<Rightarrow> 'n base_stat_node_scheme \<Rightarrow> f64 go" where
  "node_MinRT now n = with_metric (\<lambda>m arr. sw_MinRT m arr now) n"

definition node_MaxConcurrency :: "u64 \<Rightarrow> 'n base_stat_node_scheme \<Rightarrow> i32 go" where
  "node_MaxConcurrency now n = with_metric (\<lambda>m arr. sw_MaxConcurrency m arr now) n"

definition MetricsOnCondition :: "u64 \<Rightarrow> (u64 \<Rightarrow> bool) \<Rightarrow> 'n base_stat_node_scheme \<Rightarrow> metric_item list go" where
  "MetricsOnCondition now predicate n = with_metric (\<lambda>m arr. SecondMetricsOnCondition arr now predicate) n"

definition node_AddCount :: "u64 \<Rightarrow> metric_event \<Rightarrow> i64 \<Rightarrow> 'n base_stat_node_scheme \<Rightarrow> 'n base_stat_node_scheme" where
  "node_AddCount now event count n = n\<lparr>bsn_arr := addCountWithTime now event count (bsn_arr n)\<rparr>"

definition node_AddAndGetSum ::
  "u64 \<Rightarrow> metric_event \<Rightarrow> i64 \<Rightarrow> 'n base_stat_node_scheme \<Rightarrow> i64 go \<times> 'n base_stat_node_scheme" where
  "node_AddAndGetSum now event count n =
     (let n = n\<lparr>bsn_arr := addCountWithTime now event count (bsn_arr n)\<rparr>
      in (node_GetSumWithTime now event n, n))"

definition node_UpdateConcurrency :: "u64 \<Rightarrow> i32 \<Rightarrow> 'n base_stat_node_scheme \<Rightarrow> 'n base_stat_node_scheme" where
  "node_UpdateConcurrency now concurrency n = n\<lparr>bsn_arr := updateConcurrencyWithTime now concurrency (bsn_arr n)\<rparr>"

definition CurrentConcurrency :: "'n base_stat_node_scheme \<Rightarrow> i32" where
  "CurrentConcurrency n = bsn_concurrency n"

definition IncreaseConcurrency :: "u64 \<Rightarrow> 'n base_stat_node_scheme \<Rightarrow> 'n base_stat_node_scheme" where
  "IncreaseConcurrency now n =
     (let n = n\<lparr>bsn_concurrency := bsn_concurrency n + 1\<rparr>
      in node_UpdateConcurrency now (bsn_concurrency n) n)"

definition DecreaseConcurrency :: "'n base_stat_node_scheme \<Rightarrow> 'n base_stat_node_scheme" where
  "DecreaseConcurrency n = n\<lparr>bsn_concurrency := bsn_concurrency n - 1\<rparr>"

definition GenerateReadStat :: "u32 \<Rightarrow> u32 \<Rightarrow> 'n base_stat_node_scheme \<Rightarrow> sliding_window go" where
  "GenerateReadStat sampleCount intervalInMs n = NewSlidingWindowMetric sampleCount intervalInMs (Some (bsn_arr n))"

section \<open>The storage of nodes\<close>

record node_store =
  inboundNode :: resource_node
  cpuNode :: resource_node
  loadNode :: resource_node
  resNodeMap :: "(string, resource_node) gomap"

definition ResourceNodeList :: "node_store \<Rightarrow> resource_node list" where
  "ResourceNodeList st = map snd (resNodeMap st)"

definition GetResourceNode :: "string \<Rightarrow> node_store \<Rightarrow> resource_node option" where
  "GetResourceNode resource st = mget (resNodeMap st) resource"

definition GetResourceNodeLen :: "node_store \<Rightarrow> u32" where
  "GetResourceNodeLen st = foldl (\<lambda>count _. count + 1) 0 (resNodeMap st)"

text \<open>
  Beyond the maximal number of resources the code only logs a warning. The result is the pointer to
  the node, by its name.
\<close>

definition GetOrCreateResourceNode ::
  "stat_config \<Rightarrow> u64 \<Rightarrow> string \<Rightarrow> resource_type \<Rightarrow> node_store \<Rightarrow> stat_ptr go \<times> node_store" where
  "GetOrCreateResourceNode cfg now resource resourceType st =
     (case GetResourceNode resource st of
        Some node \<Rightarrow> (Ret (ResNode resource), st)
      | None \<Rightarrow>
          (case NewResourceNode cfg now resource resourceType of
             Ret node \<Rightarrow> (Ret (ResNode resource), st\<lparr>resNodeMap := mput resource node (resNodeMap st)\<rparr>)
           | Err e \<Rightarrow> (Err e, st)
           | Panic p \<Rightarrow> (Panic p, st)))"

text \<open>The node a pointer leads to, and a method call on it.\<close>

fun node_at :: "stat_ptr \<Rightarrow> node_store \<Rightarrow> resource_node option" where
  "node_at InboundNode st = Some (inboundNode st)"
| "node_at CpuNode st = Some (cpuNode st)"
| "node_at LoadNode st = Some (loadNode st)"
| "node_at (ResNode r) st = mget (resNodeMap st) r"

fun on_node :: "stat_ptr \<Rightarrow> (resource_node \<Rightarrow> resource_node) \<Rightarrow> node_store \<Rightarrow> node_store" where
  "on_node InboundNode f st = st\<lparr>inboundNode := f (inboundNode st)\<rparr>"
| "on_node CpuNode f st = st\<lparr>cpuNode := f (cpuNode st)\<rparr>"
| "on_node LoadNode f st = st\<lparr>loadNode := f (loadNode st)\<rparr>"
| "on_node (ResNode r) f st =
     (case mget (resNodeMap st) r of
        None \<Rightarrow> st | Some n \<Rightarrow> st\<lparr>resNodeMap := mput r (f n) (resNodeMap st)\<rparr>)"

section \<open>The slots\<close>

definition stat_Prepare ::
  "stat_config \<Rightarrow> u64 \<Rightarrow> ('r, 's) entry_context \<Rightarrow> node_store \<Rightarrow> unit go \<times> ('r, 's) entry_context \<times> node_store" where
  "stat_Prepare cfg now ctx st =
     (case ctx_Resource ctx of
        None \<Rightarrow> (Panic ''nil pointer dereference'', ctx, st)
      | Some rw \<Rightarrow>
          (case GetOrCreateResourceNode cfg now (rw_name rw) (rw_classification rw) st of
             (Ret node, st) \<Rightarrow> (Ret (), ctx\<lparr>ctx_StatNode := Some node\<rparr>, st)
           | (Err e, st) \<Rightarrow> (Err e, ctx, st)
           | (Panic p, st) \<Rightarrow> (Panic p, ctx, st)))"

text \<open>
  A recording reads the clock once per counter: \<open>t i\<close> is the reading of the \<open>i\<close>-th one.
\<close>

definition recordPassFor :: "(nat \<Rightarrow> u64) \<Rightarrow> stat_ptr option \<Rightarrow> u32 \<Rightarrow> node_store \<Rightarrow> node_store" where
  "recordPassFor t sn count st =
     (case sn of
        None \<Rightarrow> st
      | Some p \<Rightarrow>
          let st = on_node p (IncreaseConcurrency (t 0)) st
          in on_node p (node_AddCount (t 1) MetricEventPass (ucast count)) st)"

definition recordBlockFor :: "(nat \<Rightarrow> u64) \<Rightarrow> stat_ptr option \<Rightarrow> u32 \<Rightarrow> node_store \<Rightarrow> node_store" where
  "recordBlockFor t sn count st =
     (case sn of None \<Rightarrow> st | Some p \<Rightarrow> on_node p (node_AddCount (t 0) MetricEventBlock (ucast count)) st)"

definition block_event :: "block_type \<Rightarrow> metric_event option" where
  "block_event blockType =
     (if BlockTypeFlow = blockType then Some MetricEventBlockFlow
      else if BlockTypeIsolation = blockType then Some MetricEventBlockIsolation
      else if BlockTypeCircuitBreaking = blockType then Some MetricEventBlockCircuitBreaking
      else if BlockTypeSystemFlow = blockType then Some MetricEventBlockSystem
      else if BlockTypeHotSpotParamFlow = blockType then Some MetricEventBlockHotSpotParamFlow
      else if BlockTypeMock = blockType \<or> BlockTypeMockError = blockType \<or> BlockTypeMockRequest = blockType \<or>
        BlockTypeMockCtxTimeout = blockType then Some MetricEventBlockMock
      else None)"

definition recordBlockForType :: "(nat \<Rightarrow> u64) \<Rightarrow> stat_ptr option \<Rightarrow> block_type \<Rightarrow> u32 \<Rightarrow> node_store \<Rightarrow> node_store" where
  "recordBlockForType t sn blockType count st =
     (case sn of
        None \<Rightarrow> st
      | Some p \<Rightarrow>
          (case block_event blockType of
             Some e \<Rightarrow> on_node p (node_AddCount (t 0) e (ucast count)) st
           | None \<Rightarrow> st))"

definition recordCompleteFor ::
  "(nat \<Rightarrow> u64) \<Rightarrow> stat_ptr option \<Rightarrow> u32 \<Rightarrow> u64 \<Rightarrow> string option \<Rightarrow> node_store \<Rightarrow> node_store" where
  "recordCompleteFor t sn count rt err st =
     (case sn of
        None \<Rightarrow> st
      | Some p \<Rightarrow>
          let st = (if err \<noteq> None then on_node p (node_AddCount (t 0) MetricEventError (ucast count)) st else st);
              st = on_node p (node_AddCount (t 1) MetricEventRt rt) st;
              st = on_node p (node_AddCount (t 2) MetricEventComplete (ucast count)) st
          in on_node p DecreaseConcurrency st)"

text \<open>\<open>t k i\<close>: the reading of the clock for the \<open>i\<close>-th counter of the \<open>k\<close>-th recording.\<close>

definition stat_OnEntryPassed ::
  "(nat \<Rightarrow> nat \<Rightarrow> u64) \<Rightarrow> ('r, 's) entry_context \<Rightarrow> node_store \<Rightarrow> unit go \<times> ('r, 's) entry_context \<times> node_store" where
  "stat_OnEntryPassed t ctx st =
     (let count = in_BatchCount (ctx_Input ctx);
          st = recordPassFor (t 0) (ctx_StatNode ctx) count st
      in case ctx_Resource ctx of
           None \<Rightarrow> (Panic ''nil pointer dereference'', ctx, st)
         | Some rw \<Rightarrow>
             (Ret (), ctx, if rw_flowType rw = Inbound then recordPassFor (t 1) (Some InboundNode) count st else st))"

text \<open>The last statement of the code reads the block error for the Prometheus counter.\<close>

definition stat_OnEntryBlocked ::
  "(nat \<Rightarrow> nat \<Rightarrow> u64) \<Rightarrow> ('r, 's) block_error option \<Rightarrow> ('r, 's) entry_context \<Rightarrow> node_store \<Rightarrow>
   unit go \<times> ('r, 's) entry_context \<times> node_store" where
  "stat_OnEntryBlocked t blockError ctx st =
     (let count = in_BatchCount (ctx_Input ctx);
          st = recordBlockFor (t 0) (ctx_StatNode ctx) count st;
          st = (case blockError of None \<Rightarrow> st
                | Some e \<Rightarrow> recordBlockForType (t 1) (ctx_StatNode ctx) (be_blockType e) count st)
      in case ctx_Resource ctx of
           None \<Rightarrow> (Panic ''nil pointer dereference'', ctx, st)
         | Some rw \<Rightarrow>
             let st = (if rw_flowType rw = Inbound then recordBlockFor (t 2) (Some InboundNode) count st else st)
             in (case blockError of None \<Rightarrow> Panic ''nil pointer dereference'' | Some _ \<Rightarrow> Ret (), ctx, st))"

definition stat_OnCompleted ::
  "u64 \<Rightarrow> (nat \<Rightarrow> nat \<Rightarrow> u64) \<Rightarrow> ('r, 's) entry_context \<Rightarrow> node_store \<Rightarrow> unit go \<times> ('r, 's) entry_context \<times> node_store" where
  "stat_OnCompleted now t ctx st =
     (let rt = now - ctx_startTime ctx;
          ctx = ctx_PutRt rt ctx;
          count = in_BatchCount (ctx_Input ctx);
          st = recordCompleteFor (t 0) (ctx_StatNode ctx) count rt (ctx_err ctx) st
      in case ctx_Resource ctx of
           None \<Rightarrow> (Panic ''nil pointer dereference'', ctx, st)
         | Some rw \<Rightarrow>
             (Ret (), ctx, if rw_flowType rw = Inbound
                           then recordCompleteFor (t 1) (Some InboundNode) count rt (ctx_err ctx) st else st))"

section \<open>What a node counts\<close>

lemma node_at_on_node:
  "node_at q (on_node p f st) = (if q = p then map_option f (node_at p st) else node_at q st)"
  by (cases p; cases q) (auto simp: map_simps split: option.splits)

text \<open>A call of the statistic slot, with the readings of the clock it makes.\<close>

datatype ('r, 's) slot_call =
  Passed "nat \<Rightarrow> nat \<Rightarrow> u64" "('r, 's) entry_context"
| Blocked "nat \<Rightarrow> nat \<Rightarrow> u64" "('r, 's) block_error option" "('r, 's) entry_context"
| Completed u64 "nat \<Rightarrow> nat \<Rightarrow> u64" "('r, 's) entry_context"

fun run_call :: "node_store \<Rightarrow> ('r, 's) slot_call \<Rightarrow> node_store" where
  "run_call st (Passed t ctx) = snd (snd (stat_OnEntryPassed t ctx st))"
| "run_call st (Blocked t be ctx) = snd (snd (stat_OnEntryBlocked t be ctx st))"
| "run_call st (Completed now t ctx) = snd (snd (stat_OnCompleted now t ctx st))"

fun call_ctx :: "('r, 's) slot_call \<Rightarrow> ('r, 's) entry_context" where
  "call_ctx (Passed t ctx) = ctx"
| "call_ctx (Blocked t be ctx) = ctx"
| "call_ctx (Completed now t ctx) = ctx"

text \<open>What a call counts on the node of its context, and by how much it moves the concurrency.\<close>

fun call_events :: "('r, 's) slot_call \<Rightarrow> event_log" where
  "call_events (Passed t ctx) = [(t 0 1, MetricEventPass, ucast (in_BatchCount (ctx_Input ctx)))]"
| "call_events (Blocked t be ctx) =
     (t 0 0, MetricEventBlock, ucast (in_BatchCount (ctx_Input ctx))) #
     (case be of None \<Rightarrow> [] | Some b \<Rightarrow>
        (case block_event (be_blockType b) of
           None \<Rightarrow> [] | Some e \<Rightarrow> [(t 1 0, e, ucast (in_BatchCount (ctx_Input ctx)))]))"
| "call_events (Completed now t ctx) =
     (if ctx_err ctx \<noteq> None then [(t 0 0, MetricEventError, ucast (in_BatchCount (ctx_Input ctx)))] else []) @
     [(t 0 1, MetricEventRt, now - ctx_startTime ctx),
      (t 0 2, MetricEventComplete, ucast (in_BatchCount (ctx_Input ctx)))]"

fun call_delta :: "('r, 's) slot_call \<Rightarrow> i32" where
  "call_delta (Passed t ctx) = 1"
| "call_delta (Blocked t be ctx) = 0"
| "call_delta (Completed now t ctx) = - 1"

text \<open>The writes of a call to the array of the node, whose concurrency before the call is \<open>n\<close>.\<close>

fun call_writes :: "i32 \<Rightarrow> ('r, 's) slot_call \<Rightarrow> arr_write list" where
  "call_writes n (Passed t ctx) =
     WConc (t 0 0) (n + 1) # map (\<lambda>(t, e, c). WAdd t e c) (call_events (Passed t ctx))"
| "call_writes n c = map (\<lambda>(t, e, c). WAdd t e c) (call_events c)"

fun calls_writes :: "i32 \<Rightarrow> ('r, 's) slot_call list \<Rightarrow> arr_write list" where
  "calls_writes n [] = []"
| "calls_writes n (c # cs) = call_writes n c @ calls_writes (n + call_delta c) cs"

lemma write_log_call [simp]: "write_log (call_writes n c) = call_events c"
  by (cases c) (simp_all only: call_writes.simps list.map concat.simps write_event.simps append_Nil write_log_WAdd)

lemma write_log_calls: "write_log (calls_writes n cs) = concat (map call_events cs)"
  by (induction cs arbitrary: n) simp_all

text \<open>A call changes the node of its resource by its writes, whatever else it does.\<close>

definition call_on :: "string \<Rightarrow> ('r, 's) slot_call \<Rightarrow> bool" where
  "call_on r c \<longleftrightarrow> ctx_StatNode (call_ctx c) = Some (ResNode r) \<and> ctx_Resource (call_ctx c) \<noteq> None"

definition after_writes :: "arr_write list \<Rightarrow> i32 \<Rightarrow> resource_node \<Rightarrow> resource_node" where
  "after_writes ws d n = n\<lparr>bsn_arr := foldl do_write (bsn_arr n) ws, bsn_concurrency := bsn_concurrency n + d\<rparr>"

lemmas record_defs = recordPassFor_def recordBlockFor_def recordBlockForType_def recordCompleteFor_def
  IncreaseConcurrency_def node_UpdateConcurrency_def node_AddCount_def DecreaseConcurrency_def

lemma record_frame:
  assumes "q \<noteq> p"
  shows "node_at q (recordPassFor t (Some p) c st) = node_at q st"
    and "node_at q (recordBlockFor t (Some p) c st) = node_at q st"
    and "node_at q (recordBlockForType t (Some p) bt c st) = node_at q st"
    and "node_at q (recordCompleteFor t (Some p) c rt err st) = node_at q st"
  using assms by (simp_all add: recordPassFor_def recordBlockFor_def recordBlockForType_def recordCompleteFor_def
      node_at_on_node Let_def split: option.splits)

lemma record_node:
  assumes "node_at p st = Some n"
  shows "node_at p (recordPassFor t (Some p) c st) =
      Some (after_writes [WConc (t 0) (bsn_concurrency n + 1), WAdd (t 1) MetricEventPass (ucast c)] 1 n)"
    and "node_at p (recordBlockFor t (Some p) c st) = Some (after_writes [WAdd (t 0) MetricEventBlock (ucast c)] 0 n)"
    and "node_at p (recordBlockForType t (Some p) bt c st) =
      Some (after_writes (case block_event bt of None \<Rightarrow> [] | Some e \<Rightarrow> [WAdd (t 0) e (ucast c)]) 0 n)"
    and "node_at p (recordCompleteFor t (Some p) c rt err st) =
      Some (after_writes ((if err \<noteq> None then [WAdd (t 0) MetricEventError (ucast c)] else []) @
        [WAdd (t 1) MetricEventRt rt, WAdd (t 2) MetricEventComplete (ucast c)]) (- 1) n)"
  using assms by (simp_all add: record_defs node_at_on_node after_writes_def do_write_calls Let_def
      split: option.splits)

lemma after_writes_append: "after_writes ws d (after_writes vs c n) = after_writes (vs @ ws) (c + d) n"
  by (simp add: after_writes_def add.assoc)

lemma run_call_node:
  assumes on: "call_on r c" and n: "node_at (ResNode r) st = Some n"
  shows "node_at (ResNode r) (run_call st c) = Some (after_writes (call_writes (bsn_concurrency n) c) (call_delta c) n)"
proof (cases c)
  case (Passed t ctx)
  obtain rw where rw: "ctx_Resource ctx = Some rw" "ctx_StatNode ctx = Some (ResNode r)"
    using on by (auto simp: call_on_def Passed)
  show ?thesis
    by (simp add: Passed stat_OnEntryPassed_def rw record_frame record_node [OF n] Let_def del: node_at.simps)
next
  case (Blocked t be ctx)
  obtain rw where rw: "ctx_Resource ctx = Some rw" "ctx_StatNode ctx = Some (ResNode r)"
    using on by (auto simp: call_on_def Blocked)
  note b = record_node(2) [OF n] and bt = record_node(3) [OF record_node(2) [OF n]]
  show ?thesis
    by (cases be) (simp_all add: Blocked stat_OnEntryBlocked_def rw record_frame b bt after_writes_append Let_def
        del: node_at.simps split: option.splits)
next
  case (Completed now t ctx)
  obtain rw where rw: "ctx_Resource ctx = Some rw" "ctx_StatNode ctx = Some (ResNode r)"
    using on by (auto simp: call_on_def Completed)
  show ?thesis
    by (simp add: Completed stat_OnCompleted_def rw record_frame record_node [OF n] ctx_PutRt_def Let_def
        del: node_at.simps)
qed

lemma run_calls_node:
  assumes "\<forall>c \<in> set cs. call_on r c" and "node_at (ResNode r) st = Some n"
  shows "node_at (ResNode r) (foldl run_call st cs) =
    Some (after_writes (calls_writes (bsn_concurrency n) cs) (\<Sum>c \<leftarrow> cs. call_delta c) n)"
  using assms
proof (induction cs arbitrary: st n)
  case Nil
  then show ?case by (simp add: after_writes_def del: node_at.simps)
next
  case (Cons c cs)
  let ?n = "after_writes (call_writes (bsn_concurrency n) c) (call_delta c) n"
  have "node_at (ResNode r) (run_call st c) = Some ?n"
    using Cons.prems by (intro run_call_node) simp_all
  from Cons.IH [OF _ this] Cons.prems(1) have "node_at (ResNode r) (foldl run_call (run_call st c) cs) =
      Some (after_writes (calls_writes (bsn_concurrency ?n) cs) (\<Sum>c \<leftarrow> cs. call_delta c) ?n)" by simp
  moreover have "bsn_concurrency ?n = bsn_concurrency n + call_delta c" by (simp add: after_writes_def)
  ultimately show ?case by (simp only: foldl_Cons after_writes_append calls_writes.simps list.map sum_list.Cons)
qed

text \<open>A valid configuration gives every node its view.\<close>

lemma NewResourceNode_valid:
  assumes valid: "stat_config_valid cfg" and new: "NewResourceNode cfg t0 r rt = Ret n"
  obtains arr m where
    "NewBucketLeapArray t0 (GlobalStatisticSampleCountTotal cfg) (GlobalStatisticIntervalMsTotal cfg) = Ret arr"
    and "NewSlidingWindowMetric (MetricStatisticSampleCount cfg) (MetricStatisticIntervalMs cfg) (Some arr) = Ret m"
    and "bsn_arr n = arr" and "bsn_metric n = Some m" and "bsn_concurrency n = 0"
proof -
  obtain arr where arr: "NewBucketLeapArray t0 (GlobalStatisticSampleCountTotal cfg) (GlobalStatisticIntervalMsTotal cfg) = Ret arr"
    using new by (auto simp: NewResourceNode_def NewBaseStatNode_def go_bind_Ret_iff)
  have f: "bla_SampleCount arr = GlobalStatisticSampleCountTotal cfg"
    "bla_IntervalInMs arr = GlobalStatisticIntervalMsTotal cfg"
    using arr by (auto simp: NewBucketLeapArray_def go_bind_Ret_iff Let_def bla_SampleCount_def bla_IntervalInMs_def
        split: if_splits)
  obtain m where m: "NewSlidingWindowMetric (MetricStatisticSampleCount cfg) (MetricStatisticIntervalMs cfg) (Some arr) = Ret m"
    using valid by (simp add: NewSlidingWindowMetric_def stat_config_valid_def f Let_def)
  have "n = base_stat_node.extend \<lparr>bsn_sampleCount = MetricStatisticSampleCount cfg,
      bsn_intervalMs = MetricStatisticIntervalMs cfg, bsn_concurrency = 0, bsn_arr = arr, bsn_metric = Some m\<rparr>
      \<lparr>rn_resourceName = r, rn_resourceType = rt\<rparr>"
    using new by (simp add: NewResourceNode_def NewBaseStatNode_def arr m Let_def)
  then show thesis using arr m by (intro that) (simp_all add: base_stat_node.defs)
qed

text \<open>
  C14: The statistics of a resource are those of its entries. Give a resource a new node under a valid
  configuration and let the statistic slot handle any calls for it, in time order: at any later time
  (at least one interval after the epoch) every sum the node reports is what its view shows of the
  events of those calls - passes, blocks and their kinds, errors, round-trip times, completions - and
  its concurrency is the number of passed entries less that of completed ones.
\<close>

theorem stat_slot_counts:
  assumes "stat_config_valid cfg" and "NewResourceNode cfg t0 r rt = Ret n"
    and "node_at (ResNode r) st = Some n" and "\<forall>c \<in> set cs. call_on r c"
    and "write_times t0 (calls_writes 0 cs)" and "unat t0 < 2 ^ 63" and "now \<noteq> 0" and "unat now < 2 ^ 63"
    and "\<forall>t \<in> set (t0 # map write_time (calls_writes 0 cs)). unat t \<le> unat now"
    and "unat (MetricStatisticIntervalMs cfg) \<le> unat now"
  defines "L \<equiv> unat (GlobalStatisticIntervalMsTotal cfg div GlobalStatisticSampleCountTotal cfg)"
  shows "\<exists>n'. node_at (ResNode r) (foldl run_call st cs) = Some n' \<and>
    (\<forall>e. node_GetSumWithTime now e n' =
      Ret (log_sum L (unat (MetricStatisticIntervalMs cfg) div L) now e (concat (map call_events cs)))) \<and>
    CurrentConcurrency n' = (\<Sum>c \<leftarrow> cs. call_delta c)"
proof -
  obtain arr m where am:
    "NewBucketLeapArray t0 (GlobalStatisticSampleCountTotal cfg) (GlobalStatisticIntervalMsTotal cfg) = Ret arr"
    "NewSlidingWindowMetric (MetricStatisticSampleCount cfg) (MetricStatisticIntervalMs cfg) (Some arr) = Ret m"
    "bsn_arr n = arr" "bsn_metric n = Some m" "bsn_concurrency n = 0"
    using NewResourceNode_valid [OF assms(1,2)] by blast
  let ?ws = "calls_writes 0 cs"
  let ?n = "after_writes ?ws (\<Sum>c \<leftarrow> cs. call_delta c) n"
  have "node_at (ResNode r) (foldl run_call st cs) = Some ?n"
    using run_calls_node [OF assms(4,3)] by (simp only: am(5))
  moreover have "node_GetSumWithTime now e ?n = Ret (log_sum L (unat (MetricStatisticIntervalMs cfg) div L) now e
      (concat (map call_events cs)))" for e
    using view_writes(1) [OF am(1,2) assms(5-10), folded L_def]
    by (simp add: node_GetSumWithTime_def with_metric_def after_writes_def am(3,4) write_log_calls)
  moreover have "CurrentConcurrency ?n = (\<Sum>c \<leftarrow> cs. call_delta c)"
    by (simp add: CurrentConcurrency_def after_writes_def am(5))
  ultimately show ?thesis by blast
qed

text \<open>Two inbound entries pass with batch counts 1 and 2 and one of them completes with an error.\<close>

definition demo_ctx :: "u32 \<Rightarrow> string option \<Rightarrow> (unit, unit) entry_context" where
  "demo_ctx count err = ctx_Input_update (\<lambda>i. i\<lparr>in_BatchCount := count\<rparr>) (NewPooledContext\<lparr>ctx_StatNode := Some (ResNode ''r''), ctx_startTime := 5000,
     ctx_err := err, ctx_Resource := Some (NewResourceWrapper ''r'' ResTypeCommon Inbound)\<rparr>)"

definition demo_calls :: "(unit, unit) slot_call list" where
  "demo_calls = [Passed (\<lambda>_ _. 5000) (demo_ctx 1 None), Passed (\<lambda>_ _. 5001) (demo_ctx 2 None),
     Completed 5040 (\<lambda>_ _. 5040) (demo_ctx 2 (Some ''failed''))]"

theorem stat_slot_counts_witness:
  "\<exists>n st. node_at (ResNode ''r'') st = Some n \<and>
     (\<exists>n'. node_at (ResNode ''r'') (foldl run_call st demo_calls) = Some n' \<and>
        node_GetSumWithTime 5100 MetricEventPass n' = Ret 3 \<and> CurrentConcurrency n' = 1)"
proof -
  let ?cfg = default_stat_config
  have valid: "stat_config_valid ?cfg"
    by (simp add: stat_config_valid_def default_stat_config_def CheckValidityForReuseStatistic_def Let_def)
  have "\<exists>arr. NewBucketLeapArray 4000 20 10000 = Ret arr"
    by (simp add: NewBucketLeapArray_def NewAtomicBucketWrapArrayWithTime_def Let_def split: prod.split)
  then obtain n where n: "NewResourceNode ?cfg 4000 ''r'' ResTypeCommon = Ret n"
    by (auto simp: NewResourceNode_def NewBaseStatNode_def default_stat_config_def Let_def)
  let ?st = "\<lparr>inboundNode = n, cpuNode = n, loadNode = n, resNodeMap = [(''r'', n)]\<rparr>"
  have "node_at (ResNode ''r'') ?st = Some n" by simp
  note th = stat_slot_counts [OF valid n this, of demo_calls 5100]
  have "\<exists>n'. node_at (ResNode ''r'') (foldl run_call ?st demo_calls) = Some n' \<and>
    (\<forall>e. node_GetSumWithTime 5100 e n' = Ret (log_sum (unat (10000 div 20 :: u32))
       (unat (1000 :: u32) div unat (10000 div 20 :: u32)) 5100 e (concat (map call_events demo_calls)))) \<and>
    CurrentConcurrency n' = (\<Sum>c \<leftarrow> demo_calls. call_delta c)"
    using th by (simp add: demo_calls_def demo_ctx_def call_on_def write_times_def default_stat_config_def)
  moreover have "log_sum (unat (10000 div 20 :: u32)) (unat (1000 :: u32) div unat (10000 div 20 :: u32)) 5100
      MetricEventPass (concat (map call_events demo_calls)) = 3"
    by (simp add: log_sum_def demo_calls_def demo_ctx_def NewPooledContext_def event_defs event_in_range_def
        word_sle_eq word_sless_alt)
  moreover have "(\<Sum>c \<leftarrow> demo_calls. call_delta c) = 1" by (simp add: demo_calls_def)
  ultimately show ?thesis using \<open>node_at (ResNode ''r'') ?st = Some n\<close> by metis
qed

section \<open>The concurrency of a node\<close>

lemma conc_node_ops [simp]:
  "CurrentConcurrency (node_AddCount t e c n) = CurrentConcurrency n"
  "CurrentConcurrency (IncreaseConcurrency t n) = CurrentConcurrency n + 1"
  "CurrentConcurrency (DecreaseConcurrency n) = CurrentConcurrency n - 1"
  by (simp_all add: CurrentConcurrency_def node_AddCount_def IncreaseConcurrency_def node_UpdateConcurrency_def
      DecreaseConcurrency_def Let_def)

end
