(* ===== verification/EntryStat.thy ===== *)
theory EntryStat
  imports EntryProps StatNode
begin

text \<open>
  The chain with the statistic slots: the concurrency of a node is the number of entries in flight.
\<close>

section \<open>The slots of \<open>core/stat\<close> in a chain\<close>

definition lift_stat ::
  "(('r, 's) entry_context \<Rightarrow> node_store \<Rightarrow> unit go \<times> ('r, 's) entry_context \<times> node_store) \<Rightarrow>
   (unit, 'h, 'r, 's, node_store) slot_proc" where
  "lift_stat f st = (let (r, ctx, w) = f (rs_ctx st) (rs_world st) in (r, st\<lparr>rs_ctx := ctx, rs_world := w\<rparr>))"

definition node_prepare_slot :: "stat_config \<Rightarrow> u64 \<Rightarrow> ('h, 'r, 's, node_store) stat_prepare_slot" where
  "node_prepare_slot cfg now = \<lparr>prepare_Order = 1000, Prepare = lift_stat (stat_Prepare cfg now)\<rparr>"

definition node_stat_slot :: "(nat \<Rightarrow> nat \<Rightarrow> u64) \<Rightarrow> u64 \<Rightarrow> ('h, 'r, 's, node_store) stat_slot" where
  "node_stat_slot t now = \<lparr>stat_Order = 1000, OnEntryPassed = lift_stat (stat_OnEntryPassed t),
     OnEntryBlocked = (\<lambda>be. lift_stat (stat_OnEntryBlocked t be)), OnCompleted = lift_stat (stat_OnCompleted now t)\<rparr>"


definition stat_chain ::
  "stat_config \<Rightarrow> u64 \<Rightarrow> (nat \<Rightarrow> nat \<Rightarrow> u64) \<Rightarrow> u64 \<Rightarrow> ('h, 'r, 's, node_store) rule_check_slot list \<Rightarrow>
   ('h, 'r, 's, node_store) slot_chain" where
  "stat_chain cfg tp t now cs = \<lparr>statPres = [node_prepare_slot cfg tp], ruleChecks = cs,
     stats = [node_stat_slot t now], routers = []\<rparr>"

section \<open>Concurrency under the recordings\<close>











section \<open>One pass through the chain\<close>





section \<open>Entries in flight\<close>

text \<open>What holds of an entry in flight, its context and the nodes.\<close>

definition flight ::
  "('h, 'r, 's, node_store) sea_entry \<Rightarrow> ('r, 's) entry_context \<Rightarrow> node_store \<Rightarrow> bool" where
  "flight en ctx w \<longleftrightarrow> ctx_Resource ctx = Some (se_res en) \<and>
     ctx_StatNode ctx = Some (ResNode (rw_name (se_res en))) \<and> ctx_entry ctx \<noteq> None \<and>
     \<not> ctx_IsBlocked ctx \<and> se_exitHandlers en = [MockRsp] \<and>
     (\<exists>cfg tp t now cs. se_sc en = Some (stat_chain cfg tp t now cs)) \<and>
     node_at (ResNode (rw_name (se_res en))) w \<noteq> None"






lemma flight_SetError [simp]: "flight en (ctx_SetError err ctx) w = flight en ctx w"
  by (simp add: flight_def ctx_SetError_def ctx_IsBlocked_def)




section \<open>Making entries\<close>

lemma fill_context_views [simp]:
  "ctx_Resource (fill_context rw eo ctx) = Some rw"
  "ctx_RuleCheckResult (fill_context rw eo ctx) = ctx_RuleCheckResult ctx"
  by (simp_all add: fill_context_def Let_def)















end
