(* ===== verification/Throttling.thy ===== *)
theory Throttling
  imports BaseTypes Float64
begin

text \<open>
  The throttling checker, \<open>core/flow/tc_throttling.go\<close>: it hands out time slots that are an interval
  apart and refuses a request whose slot is too far away. Its abstraction is a queue of slots over the
  integers; the theorem here says that calls made one after the other follow it.
\<close>

section \<open>The code\<close>

record throttling_checker =
  th_maxQueueingTimeNs :: i64
  th_statIntervalNs :: i64
  th_lastPassedTime :: i64
  th_lastSystemTime :: i64

definition MillisToNanosOffset :: i64 where
  "MillisToNanosOffset = 1000000"

definition BlockMsgQueueing :: string where
  "BlockMsgQueueing = ''flow throttling check blocked, estimated queueing time exceeds max queueing time''"

definition NewThrottlingChecker :: "u32 \<Rightarrow> u32 \<Rightarrow> throttling_checker" where
  "NewThrottlingChecker timeoutMs statIntervalMs =
     (let statIntervalNs = (if statIntervalMs = 0 then 1000 * MillisToNanosOffset
            else ucast statIntervalMs * MillisToNanosOffset)
      in \<lparr>th_maxQueueingTimeNs = ucast timeoutMs * MillisToNanosOffset, th_statIntervalNs = statIntervalNs,
          th_lastPassedTime = 0, th_lastSystemTime = 0\<rparr>)"

text \<open>The interval a request takes, in nanoseconds.\<close>

definition throttle_interval :: "(f64 \<Rightarrow> i64) \<Rightarrow> u32 \<Rightarrow> f64 \<Rightarrow> i64 \<Rightarrow> i64" where
  "throttle_interval oor batchCount threshold statIntervalNs =
     f64_to_i64 oor (fceil (fmul (fdiv (f64_of_int (uint batchCount)) threshold) (f64_of_int (sint statIntervalNs))))"

definition cas_lastPassedTime :: "i64 \<Rightarrow> i64 \<Rightarrow> throttling_checker \<Rightarrow> bool \<times> throttling_checker" where
  "cas_lastPassedTime old new c =
     (if th_lastPassedTime c = old then (True, c\<lparr>th_lastPassedTime := new\<rparr>) else (False, c))"

definition throttle_blocked :: "'r option \<Rightarrow> ('r, 's) token_result option" where
  "throttle_blocked rule = Some (NewTokenResultBlockedWithCause BlockTypeFlow BlockMsgQueueing rule None)"

text \<open>Taking a place in the queue: the second half of the check.\<close>

definition throttle_queue ::
  "i64 \<Rightarrow> i64 \<Rightarrow> 'r option \<Rightarrow> throttling_checker \<Rightarrow> ('r, 's) token_result option \<times> throttling_checker" where
  "throttle_queue intervalNs curNano rule c =
     (let estimatedQueueingDuration = th_lastPassedTime c + intervalNs - curNano
      in if th_maxQueueingTimeNs c <s estimatedQueueingDuration then (throttle_blocked rule, c)
         else
           let c = c\<lparr>th_lastPassedTime := th_lastPassedTime c + intervalNs\<rparr>;
               estimatedQueueingDuration = th_lastPassedTime c - curNano
           in if th_maxQueueingTimeNs c <s estimatedQueueingDuration
              then (throttle_blocked rule, c\<lparr>th_lastPassedTime := th_lastPassedTime c - intervalNs\<rparr>)
              else if 0 <s estimatedQueueingDuration
                then (Some (NewTokenResultShouldWait estimatedQueueingDuration), c)
                else (Some (NewTokenResultShouldWait 0), c))"

definition throttle_pass ::
  "i64 \<Rightarrow> i64 \<Rightarrow> 'r option \<Rightarrow> throttling_checker \<Rightarrow> ('r, 's) token_result option \<times> throttling_checker" where
  "throttle_pass intervalNs curNano rule c =
     (let loadedLastPassedTime = th_lastPassedTime c; expectedTime = loadedLastPassedTime + intervalNs
      in if expectedTime \<le>s curNano then
           (case cas_lastPassedTime loadedLastPassedTime curNano c of
              (True, c) \<Rightarrow> (None, c)
            | (False, c) \<Rightarrow> throttle_queue intervalNs curNano rule c)
         else throttle_queue intervalNs curNano rule c)"

text \<open>
  \<open>DoCheck\<close>: \<open>None\<close> is the nil result, which lets the request pass. \<open>curNano\<close> is the clock after the first
  tests, \<open>endNano\<close> its reading in the deferred function.
\<close>

definition throttle_DoCheck ::
  "(f64 \<Rightarrow> i64) \<Rightarrow> 'r option \<Rightarrow> i64 \<Rightarrow> i64 \<Rightarrow> u32 \<Rightarrow> f64 \<Rightarrow> throttling_checker \<Rightarrow>
   ('r, 's) token_result option \<times> throttling_checker" where
  "throttle_DoCheck oor rule curNano endNano batchCount threshold c =
     (let (r, c) =
        (if batchCount \<le> 0 then (None, c)
         else if fle threshold (Fin 0) then
           (Some (NewTokenResultBlockedWithCause BlockTypeFlow
              ''flow throttling check blocked, threshold is <= 0.0'' rule None), c)
         else
           let intervalNs = throttle_interval oor batchCount threshold (th_statIntervalNs c);
               loadedLastPassedTime = th_lastPassedTime c; loadedLastSystemTime = th_lastSystemTime c
           in if curNano + 1000000000 <s loadedLastSystemTime then
                (case cas_lastPassedTime loadedLastPassedTime curNano c of
                   (True, c) \<Rightarrow> (None, c)
                 | (False, c) \<Rightarrow> throttle_pass intervalNs curNano rule c)
              else throttle_pass intervalNs curNano rule c)
      in (r, c\<lparr>th_lastSystemTime := endNano\<rparr>))"

section \<open>The queue of slots\<close>

text \<open>
  \<open>prev\<close> is the slot handed out last. A request of length \<open>d\<close> at time \<open>now\<close> gets the slot \<open>d\<close> after it,
  or the present when that has passed, and is refused if the slot is more than \<open>m\<close> away.
\<close>

definition next_slot :: "int \<Rightarrow> int \<Rightarrow> int \<Rightarrow> int \<Rightarrow> int option" where
  "next_slot m prev now d = (let s = max now (prev + d) in if s - now \<le> m then Some s else None)"

fun slot_queue :: "int \<Rightarrow> int \<Rightarrow> (int \<times> int) list \<Rightarrow> int option list" where
  "slot_queue m prev [] = []"
| "slot_queue m prev ((now, d) # rs) =
     (case next_slot m prev now d of
        Some s \<Rightarrow> Some s # slot_queue m s rs
      | None \<Rightarrow> None # slot_queue m prev rs)"

text \<open>When a result lets its request go: at once, after a wait, or never.\<close>

definition release_time :: "int \<Rightarrow> ('r, 's) token_result option \<Rightarrow> int option" where
  "release_time now r =
     (case r of None \<Rightarrow> Some now
      | Some tr \<Rightarrow> if tr_IsBlocked tr then None else Some (now + sint (tr_nanosToWait tr)))"

lemma release_time_simps [simp]:
  "release_time now None = Some now"
  "release_time now (throttle_blocked rule) = None"
  "release_time now (Some (NewTokenResultShouldWait w)) = Some (now + sint w)"
  by (simp_all add: release_time_def throttle_blocked_def result_simps)
     (simp add: NewTokenResultShouldWait_def NewTokenResult_def)

section \<open>No overflow\<close>

text \<open>Amounts below \<open>2 ^ 61\<close>: three of them fit a word.\<close>

definition small :: "i64 \<Rightarrow> bool" where
  "small w \<longleftrightarrow> 0 \<le> sint w \<and> sint w < 2 ^ 61"

lemma throttle_queue_spec:
  assumes "small intervalNs" and "small curNano" and "small (th_maxQueueingTimeNs c)"
    and "0 \<le> sint (th_lastPassedTime c)" and "sint (th_lastPassedTime c) < 2 ^ 62"
    and "sint curNano < sint (th_lastPassedTime c) + sint intervalNs"
  shows "case throttle_queue intervalNs curNano rule c of (r, c') \<Rightarrow>
    (case next_slot (sint (th_maxQueueingTimeNs c)) (sint (th_lastPassedTime c)) (sint curNano) (sint intervalNs) of
       Some s \<Rightarrow> release_time (sint curNano) r = Some s \<and> sint (th_lastPassedTime c') = s
     | None \<Rightarrow> release_time (sint curNano) r = None \<and> th_lastPassedTime c' = th_lastPassedTime c) \<and>
    th_maxQueueingTimeNs c' = th_maxQueueingTimeNs c \<and> th_statIntervalNs c' = th_statIntervalNs c"
proof -
  let ?L = "th_lastPassedTime c"
  have sum: "sint (?L + intervalNs) = sint ?L + sint intervalNs"
    using assms by (intro sint_add_small) (auto simp: small_def)
  have est: "sint (?L + intervalNs - curNano) = sint ?L + sint intervalNs - sint curNano"
    unfolding sum [symmetric] using assms by (intro sint_diff_small) (auto simp: small_def sum)
  then show ?thesis
    using assms(6) sum
    by (auto simp: throttle_queue_def Let_def next_slot_def word_sless_alt)
qed

text \<open>One check of a request whose interval is representable, without a clock that went back by a second.\<close>

lemma throttle_DoCheck_spec:
  assumes d: "d = throttle_interval oor batchCount threshold (th_statIntervalNs c)"
    and "batchCount \<noteq> 0" and "\<not> fle threshold (Fin 0)" and "small d" and "small curNano"
    and "small (th_maxQueueingTimeNs c)" and "0 \<le> sint (th_lastPassedTime c)"
    and "sint (th_lastPassedTime c) < 2 ^ 62" and "sint (th_lastSystemTime c) \<le> sint curNano"
  shows "case throttle_DoCheck oor rule curNano endNano batchCount threshold c :: ('r, 's) token_result option \<times> _ of (r, c') \<Rightarrow>
    (case next_slot (sint (th_maxQueueingTimeNs c)) (sint (th_lastPassedTime c)) (sint curNano) (sint d) of
       Some s \<Rightarrow> release_time (sint curNano) r = Some s \<and> sint (th_lastPassedTime c') = s
     | None \<Rightarrow> release_time (sint curNano) r = None \<and> th_lastPassedTime c' = th_lastPassedTime c) \<and>
    th_maxQueueingTimeNs c' = th_maxQueueingTimeNs c \<and> th_statIntervalNs c' = th_statIntervalNs c \<and>
    th_lastSystemTime c' = endNano"
proof -
  have shift: "sint (curNano + 1000000000) = sint curNano + 1000000000"
    using assms(5) by (subst sint_add_small) (auto simp: small_def)
  have sum: "sint (th_lastPassedTime c + d) = sint (th_lastPassedTime c) + sint d"
    using assms by (intro sint_add_small) (auto simp: small_def)
  have noshift: "\<not> curNano + 1000000000 <s th_lastSystemTime c"
    using assms(9) by (simp add: word_sless_alt shift)
  show ?thesis
  proof (cases "sint (th_lastPassedTime c) + sint d \<le> sint curNano")
    case True
    then show ?thesis
      using assms(2,3,6) noshift sum
      by (simp add: throttle_DoCheck_def throttle_pass_def cas_lastPassedTime_def word_sle_eq d [symmetric]
          next_slot_def small_def Let_def)
  next
    case False
    then have "(throttle_DoCheck oor rule curNano endNano batchCount threshold c :: ('r, 's) token_result option \<times> _) =
        (let (r, c) = throttle_queue d curNano rule c in (r, c\<lparr>th_lastSystemTime := endNano\<rparr>))"
      using assms(2,3) noshift sum
      by (simp add: throttle_DoCheck_def throttle_pass_def word_sle_eq d [symmetric] Let_def)
    then show ?thesis
      using throttle_queue_spec [OF assms(4-8), of rule, where ?'b = 's] False by (auto split: prod.splits option.splits)
  qed
qed

section \<open>A sequence of checks\<close>

text \<open>A call: batch count, threshold, and the clock at the test and at the end of the call.\<close>

type_synonym throttle_call = "u32 \<times> f64 \<times> i64 \<times> i64"

fun throttle_run ::
  "(f64 \<Rightarrow> i64) \<Rightarrow> 'r option \<Rightarrow> throttling_checker \<Rightarrow> throttle_call list \<Rightarrow> ('r, 's) token_result option list" where
  "throttle_run oor rule c [] = []"
| "throttle_run oor rule c ((n, thr, now, fin) # calls) =
     (let (r, c) = throttle_DoCheck oor rule now fin n thr c in r # throttle_run oor rule c calls)"

definition call_request :: "(f64 \<Rightarrow> i64) \<Rightarrow> i64 \<Rightarrow> throttle_call \<Rightarrow> int \<times> int" where
  "call_request oor statIntervalNs call =
     (case call of (n, thr, now, fin) \<Rightarrow> (sint now, sint (throttle_interval oor n thr statIntervalNs)))"

text \<open>
  The calls follow a clock that does not go back, each asks for at least one and for no more than the
  threshold, and their intervals are representable.
\<close>

fun calls_ok :: "(f64 \<Rightarrow> i64) \<Rightarrow> i64 \<Rightarrow> int \<Rightarrow> throttle_call list \<Rightarrow> bool" where
  "calls_ok oor iv t [] = True"
| "calls_ok oor iv t ((n, thr, now, fin) # calls) =
     (n \<noteq> 0 \<and> \<not> fle thr (Fin 0) \<and> fle (f64_of_int (uint n)) thr \<and> small (throttle_interval oor n thr iv) \<and> small now \<and> t \<le> sint now \<and>
      sint now \<le> sint fin \<and> calls_ok oor iv (sint fin) calls)"

lemma next_slot_bounds:
  assumes "next_slot m prev now d = Some s"
  shows "now \<le> s" and "s \<le> now + m" and "prev + d \<le> s"
  using assms by (auto simp: next_slot_def Let_def split: if_splits)

lemma throttle_run_slots:
  assumes "calls_ok oor (th_statIntervalNs c) t calls" and "small (th_maxQueueingTimeNs c)"
    and "0 \<le> sint (th_lastPassedTime c)" and "sint (th_lastPassedTime c) \<le> max 0 t + sint (th_maxQueueingTimeNs c)"
    and "sint (th_lastSystemTime c) \<le> t"
  shows "map2 (\<lambda>(n, thr, now, fin) r. release_time (sint now) r) calls
      (throttle_run oor rule c calls :: ('r, 's) token_result option list) =
    slot_queue (sint (th_maxQueueingTimeNs c)) (sint (th_lastPassedTime c))
      (map (call_request oor (th_statIntervalNs c)) calls)"
  using assms
proof (induction calls arbitrary: c t)
  case Nil
  then show ?case by simp
next
  case (Cons call calls)
  obtain n thr now fin where call: "call = (n, thr, now, fin)" by (cases call) auto
  let ?m = "sint (th_maxQueueingTimeNs c)" and ?L = "sint (th_lastPassedTime c)"
  let ?d = "throttle_interval oor n thr (th_statIntervalNs c)"
  have ok: "n \<noteq> 0" "\<not> fle thr (Fin 0)" "small ?d" "small now" "t \<le> sint now" "sint now \<le> sint fin"
    "calls_ok oor (th_statIntervalNs c) (sint fin) calls"
    using Cons.prems(1) by (simp_all add: call)
  have L: "?L < 2 ^ 62" "sint (th_lastSystemTime c) \<le> sint now"
    using Cons.prems ok(4,5) by (auto simp: small_def)
  obtain r c' where step: "throttle_DoCheck oor rule now fin n thr c = (r :: ('r, 's) token_result option, c')"
    by (cases "throttle_DoCheck oor rule now fin n thr c :: ('r, 's) token_result option \<times> _")
  note spec = throttle_DoCheck_spec [OF refl ok(1-4) Cons.prems(2,3) L, where rule = rule and endNano = fin and ?'s = 's,
      unfolded step prod.case]
  have c': "th_maxQueueingTimeNs c' = th_maxQueueingTimeNs c" "th_statIntervalNs c' = th_statIntervalNs c"
    "th_lastSystemTime c' = fin" using spec by simp_all
  have fin: "max 0 (sint fin) = sint fin" "0 \<le> sint now" using ok(4,6) by (simp_all add: small_def)
  have bound: "?L \<le> sint now + ?m" using Cons.prems(4) ok(5) fin(2) by simp
  show ?case
  proof (cases "next_slot ?m ?L (sint now) (sint ?d)")
    case None
    have r: "release_time (sint now) r = None" "th_lastPassedTime c' = th_lastPassedTime c"
      using spec None by simp_all
    have "map2 (\<lambda>(n, thr, now, fin) r. release_time (sint now) r) calls
        (throttle_run oor rule c' calls :: ('r, 's) token_result option list) =
      slot_queue ?m ?L (map (call_request oor (th_statIntervalNs c)) calls)"
      using Cons.IH [of c' "sint fin"] c' r(2) ok fin(1) bound Cons.prems(2,3) by simp
    moreover have "call_request oor (th_statIntervalNs c) call = (sint now, sint ?d)" by (simp add: call call_request_def)
    ultimately show ?thesis using None r by (simp add: call step)
  next
    case (Some s)
    have r: "release_time (sint now) r = Some s" "sint (th_lastPassedTime c') = s"
      using spec Some by simp_all
    have "0 \<le> s" "s \<le> sint fin + ?m"
      using next_slot_bounds [OF Some] fin(2) ok(6) by linarith+
    then have "map2 (\<lambda>(n, thr, now, fin) r. release_time (sint now) r) calls
        (throttle_run oor rule c' calls :: ('r, 's) token_result option list) =
      slot_queue ?m s (map (call_request oor (th_statIntervalNs c)) calls)"
      using Cons.IH [of c' "sint fin"] c' r(2) ok fin(1) Cons.prems(2) by simp
    moreover have "call_request oor (th_statIntervalNs c) call = (sint now, sint ?d)" by (simp add: call call_request_def)
    ultimately show ?thesis using Some r by (simp add: call step)
  qed
qed

text \<open>Slots of a queue: in the allowed time, and each at least the request's length after any earlier one.\<close>

lemma slot_queue_length [simp]: "length (slot_queue m prev rs) = length rs"
  by (induction m prev rs rule: slot_queue.induct) (auto split: option.splits)

lemma slot_queue_after:
  assumes "\<forall>(now, d) \<in> set rs. 0 \<le> d" and "j < length rs" and "slot_queue m prev rs ! j = Some s"
  shows "fst (rs ! j) \<le> s \<and> s \<le> fst (rs ! j) + m \<and> prev + snd (rs ! j) \<le> s"
  using assms
proof (induction rs arbitrary: prev j)
  case Nil
  then show ?case by simp
next
  case (Cons q rs)
  obtain now d where q: "q = (now, d)" by (cases q)
  show ?case
  proof (cases j)
    case 0
    then have "next_slot m prev now d = Some s" using Cons.prems(3) by (auto simp: q split: option.splits)
    then show ?thesis using 0 q next_slot_bounds by simp
  next
    case (Suc k)
    let ?p = "case next_slot m prev now d of Some s \<Rightarrow> s | None \<Rightarrow> prev"
    have "slot_queue m ?p rs ! k = Some s" using Cons.prems(3) by (auto simp: q Suc split: option.splits)
    then have IH: "fst (rs ! k) \<le> s \<and> s \<le> fst (rs ! k) + m \<and> ?p + snd (rs ! k) \<le> s"
      using Cons.IH [of k ?p] Cons.prems(1,2) Suc by simp
    have "prev \<le> ?p"
      using Cons.prems(1) next_slot_bounds(3) [of m prev now d] by (auto simp: q split: option.splits)
    then show ?thesis using IH by (simp add: Suc)
  qed
qed

lemma slot_queue_spaced:
  assumes "\<forall>(now, d) \<in> set rs. 0 \<le> d" and "i < j" and "j < length rs"
    and "slot_queue m prev rs ! i = Some s" and "slot_queue m prev rs ! j = Some s'"
  shows "s + snd (rs ! j) \<le> s'"
  using assms
proof (induction rs arbitrary: prev i j)
  case Nil
  then show ?case by simp
next
  case (Cons q rs)
  obtain now d where q: "q = (now, d)" by (cases q)
  let ?p = "case next_slot m prev now d of Some s \<Rightarrow> s | None \<Rightarrow> prev"
  obtain k where k: "j = Suc k" using Cons.prems(2) by (cases j) auto
  have tail: "slot_queue m ?p rs ! k = Some s'" using Cons.prems(5) by (auto simp: q k split: option.splits)
  show ?case
  proof (cases i)
    case 0
    then have "next_slot m prev now d = Some s" using Cons.prems(4) by (auto simp: q split: option.splits)
    then show ?thesis using slot_queue_after [OF _ _ tail] Cons.prems(1,3) k by simp
  next
    case (Suc i')
    have "slot_queue m ?p rs ! i' = Some s" using Cons.prems(4) by (auto simp: q Suc split: option.splits)
    then show ?thesis using Cons.IH [OF _ _ _ _ tail] Cons.prems(1-3) k Suc by simp
  qed
qed

lemma calls_ok_lengths: "calls_ok oor iv t calls \<Longrightarrow> call \<in> set calls \<Longrightarrow> 0 \<le> snd (call_request oor iv call)"
  by (induction oor iv t calls rule: calls_ok.induct) (auto simp: call_request_def small_def)

lemma small_millis: "small (ucast (ms :: u32) * MillisToNanosOffset)"
proof -
  have "unat (ucast ms * MillisToNanosOffset :: i64) = unat ms * 1000000"
    using unat_u32_lt [of ms] by (simp add: MillisToNanosOffset_def unat_word_ariths)
  then have "sint (ucast ms * MillisToNanosOffset :: i64) = int (unat ms) * 1000000"
    using unat_u32_lt [of ms] by (subst sint_small) simp_all
  moreover have "int (unat ms) < 2 ^ 32" using unat_u32_lt [of ms] by (metis of_nat_less_iff of_nat_numeral of_nat_power)
  ultimately show ?thesis by (simp add: small_def)
qed

text \<open>
  C18: Throttling spaces the requests. Take a new checker under calls made one after the other, with a
  clock that does not go back, a positive threshold, a batch of at least one and at most the threshold
  in every call, and intervals and times below \<open>2 ^ 61\<close> nanoseconds. Each admitted request is let go at its
  slot - not before it arrived and at most the maximal queueing time later - and at least the request's
  own interval after every request admitted before it. Which requests are admitted, and when, is what the
  queue of slots computes: a request is refused only if its slot is too far away.
\<close>

theorem throttling_spaces_requests:
  fixes oor timeoutMs statIntervalMs calls rule
  defines "c \<equiv> NewThrottlingChecker timeoutMs statIntervalMs"
  defines "m \<equiv> sint (th_maxQueueingTimeNs c)"
  defines "reqs \<equiv> map (call_request oor (th_statIntervalNs c)) calls"
  defines "releases \<equiv> map2 (\<lambda>(n, thr, now, fin) r. release_time (sint now) r) calls
      (throttle_run oor rule c calls :: ('r, 's) token_result option list)"
  assumes "calls_ok oor (th_statIntervalNs c) 0 calls"
  shows "releases = slot_queue m 0 reqs \<and>
    (\<forall>j s. j < length calls \<and> releases ! j = Some s \<longrightarrow> fst (reqs ! j) \<le> s \<and> s \<le> fst (reqs ! j) + m) \<and>
    (\<forall>i j s s'. i < j \<and> j < length calls \<and> releases ! i = Some s \<and> releases ! j = Some s' \<longrightarrow>
       s + snd (reqs ! j) \<le> s')"
proof -
  have new: "small (th_maxQueueingTimeNs c)" "th_lastPassedTime c = 0" "th_lastSystemTime c = 0"
    unfolding c_def by (simp_all add: NewThrottlingChecker_def Let_def small_millis)
  have eq: "releases = slot_queue m 0 reqs"
    unfolding releases_def m_def reqs_def using throttle_run_slots [OF assms(5) new(1)] new by (simp add: small_def)
  have nn: "\<forall>(now, d) \<in> set reqs. 0 \<le> d"
    using calls_ok_lengths [OF assms(5)] by (metis (no_types, lifting) case_prodI2 imageE list.set_map reqs_def snd_conv)
  have len: "length reqs = length calls" by (simp add: reqs_def)
  show ?thesis
    using eq slot_queue_after [OF nn] slot_queue_spaced [OF nn] len by metis
qed

definition demo_calls_th :: "throttle_call list" where
  "demo_calls_th = [(1, Fin 4, 9000000000, 9000000001), (1, Fin 4, 9000000001, 9000000002),
     (1, Fin 4, 9000000003, 9000000004), (1, Fin 4, 9000000005, 9000000006)]"

lemma demo_interval: "throttle_interval (\<lambda>_. 0) 1 (Fin 4) 1000000000 = 250000000"
  by code_simp

lemma demo_batch: "fle (f64_of_int 1) (Fin 4)"
  by code_simp

theorem throttling_spaces_requests_witness:
  "map2 (\<lambda>(n, thr, now, fin) r. release_time (sint now) r) demo_calls_th
     (throttle_run (\<lambda>_. 0) (None :: unit option) (NewThrottlingChecker 500 0) demo_calls_th ::
        (unit, unit) token_result option list) =
   [Some 9000000000, Some 9250000000, Some 9500000000, None]"
proof -
  have c: "th_statIntervalNs (NewThrottlingChecker 500 0) = 1000000000"
    "sint (th_maxQueueingTimeNs (NewThrottlingChecker 500 0)) = 500000000"
    by (simp_all add: NewThrottlingChecker_def MillisToNanosOffset_def)
  have "calls_ok (\<lambda>_. 0) 1000000000 0 demo_calls_th"
    by (simp add: demo_calls_th_def demo_interval demo_batch small_def)
  note th = throttling_spaces_requests [of "\<lambda>_. 0" 500 0 demo_calls_th "None :: unit option", where ?'s = unit, unfolded c, OF this]
  then show ?thesis
    by (simp add: demo_calls_th_def call_request_def demo_interval next_slot_def Let_def)
qed

end
