(* ===== verification/ThrottlingRace.thy ===== *)
theory ThrottlingRace
  imports Throttling "HOL-Library.Multiset"
begin

text \<open>
  Several goroutines in one throttling checker at once. The check is cut at its accesses to the clock and
  to the shared time of the last request: the reading of the clock, the load, the compare-and-swap, the
  load before queueing, the addition, and the subtraction that takes an addition back. Every goroutine
  has the same interval. Times are integers here: \<open>throttle_DoCheck_spec\<close> shows that calls do not overflow.
\<close>

section \<open>Steps\<close>

text \<open>
  Where a goroutine stands, with its reading of the clock: before reading it, before the load, after the
  load, before the second load, before the addition, before taking it back; \<open>Admitted\<close> with the time at
  which it is let go, or \<open>Refused\<close>. \<open>lp\<close> is the shared time of the last request.
\<close>

datatype th_pc =
  ThStart | ThClock int | ThLoaded int int | ThQueue int | ThAdd int | ThRollback int | Admitted int | Refused

definition th_expected :: "int \<Rightarrow> int \<Rightarrow> int \<Rightarrow> int \<Rightarrow> th_pc \<times> int" where
  "th_expected interval curNano loaded lp =
     (if loaded + interval \<le> curNano \<and> lp = loaded then (Admitted curNano, curNano) else (ThQueue curNano, lp))"

definition th_estimate :: "int \<Rightarrow> int \<Rightarrow> int \<Rightarrow> int \<Rightarrow> th_pc" where
  "th_estimate interval m curNano lp = (if m < lp + interval - curNano then Refused else ThAdd curNano)"

definition th_take :: "int \<Rightarrow> int \<Rightarrow> int \<Rightarrow> int \<Rightarrow> th_pc \<times> int" where
  "th_take interval m curNano lp =
     (let lp = lp + interval; estimatedQueueingDuration = lp - curNano
      in if m < estimatedQueueingDuration then (ThRollback curNano, lp)
         else (Admitted (curNano + (if 0 < estimatedQueueingDuration then estimatedQueueingDuration else 0)), lp))"

text \<open>One step of a goroutine; \<open>now\<close> is the clock if it reads it. A goroutine that is done stays.\<close>

fun th_step :: "int \<Rightarrow> int \<Rightarrow> int \<Rightarrow> th_pc \<Rightarrow> int \<Rightarrow> th_pc \<times> int" where
  "th_step interval m now ThStart lp = (ThClock now, lp)"
| "th_step interval m now (ThClock curNano) lp = (ThLoaded curNano lp, lp)"
| "th_step interval m now (ThLoaded curNano loaded) lp = th_expected interval curNano loaded lp"
| "th_step interval m now (ThQueue curNano) lp = (th_estimate interval m curNano lp, lp)"
| "th_step interval m now (ThAdd curNano) lp = th_take interval m curNano lp"
| "th_step interval m now (ThRollback curNano) lp = (Refused, lp - interval)"
| "th_step interval m now (Admitted s) lp = (Admitted s, lp)"
| "th_step interval m now Refused lp = (Refused, lp)"

record th_race =
  lastPassed :: int
  th_pcs :: "th_pc list"

definition th_move :: "int \<Rightarrow> int \<Rightarrow> nat \<Rightarrow> int \<Rightarrow> th_race \<Rightarrow> th_race" where
  "th_move interval m i now c =
     (let (pc, lp) = th_step interval m now (th_pcs c ! i) (lastPassed c)
      in c\<lparr>th_pcs := (th_pcs c)[i := pc], lastPassed := lp\<rparr>)"

text \<open>A run picks any goroutine at each step; the clock shows times of \<open>clock\<close>.\<close>

inductive th_reachable :: "int \<Rightarrow> int \<Rightarrow> int set \<Rightarrow> th_race \<Rightarrow> th_race \<Rightarrow> bool" for interval m clock c0 where
  init: "th_reachable interval m clock c0 c0"
| move: "th_reachable interval m clock c0 c \<Longrightarrow> i < length (th_pcs c) \<Longrightarrow> now \<in> clock \<Longrightarrow>
    th_reachable interval m clock c0 (th_move interval m i now c)"

definition th_start :: "int \<Rightarrow> nat \<Rightarrow> th_race" where
  "th_start lp n = \<lparr>lastPassed = lp, th_pcs = replicate n ThStart\<rparr>"

fun th_slot :: "th_pc \<Rightarrow> int option" where
  "th_slot (Admitted s) = Some s"
| "th_slot _ = None"

fun th_done :: "th_pc \<Rightarrow> bool" where
  "th_done (Admitted s) = True"
| "th_done Refused = True"
| "th_done _ = False"

definition admitted :: "th_race \<Rightarrow> int multiset" where
  "admitted c = mset (List.map_filter th_slot (th_pcs c))"

text \<open>Alone, a goroutine that takes its steps one after the other gets its slot from the queue.\<close>

lemma th_alone:
  assumes "0 < interval" and "0 \<le> m" and "th_pcs c ! i = ThStart" and "i < length (th_pcs c)"
  shows "\<exists>k. case next_slot m (lastPassed c) now interval of
      Some s \<Rightarrow> (th_move interval m i now ^^ k) c = c\<lparr>lastPassed := s, th_pcs := (th_pcs c)[i := Admitted s]\<rparr>
    | None \<Rightarrow> (th_move interval m i now ^^ k) c = c\<lparr>th_pcs := (th_pcs c)[i := Refused]\<rparr>"
proof -
  note run = th_move_def th_expected_def th_estimate_def th_take_def numeral_eq_Suc next_slot_def Let_def
  consider "lastPassed c + interval \<le> now" | "now < lastPassed c + interval" "m < lastPassed c + interval - now"
    | "now < lastPassed c + interval" "lastPassed c + interval - now \<le> m" by linarith
  then show ?thesis
  proof cases
    case 1
    then show ?thesis using assms by (intro exI [of _ 3]) (simp add: run)
  next
    case 2
    then show ?thesis using assms by (intro exI [of _ 4]) (simp add: run)
  next
    case 3
    then show ?thesis using assms by (intro exI [of _ 5]) (simp add: run)
  qed
qed

section \<open>A burst\<close>

text \<open>
  The invariant of a burst at one instant. Before the first request is let go nothing has changed; after
  it the shared time is \<open>a + b\<close> intervals after the present, for \<open>a\<close> requests that queue and \<open>b\<close> that
  took a slot too far away and are about to give it back, and once one was refused the queue is full.
\<close>

definition pc_ok :: "int \<Rightarrow> int \<Rightarrow> int \<Rightarrow> th_pc \<Rightarrow> bool" where
  "pc_ok now interval lp0 pc =
     (case pc of ThStart \<Rightarrow> True | ThClock t \<Rightarrow> t = now
      | ThLoaded t l \<Rightarrow> t = now \<and> (l = lp0 \<or> now \<le> l) | ThQueue t \<Rightarrow> t = now | ThAdd t \<Rightarrow> t = now
      | ThRollback t \<Rightarrow> t = now | Admitted s \<Rightarrow> True | Refused \<Rightarrow> True)"

fun th_waiting :: "th_pc \<Rightarrow> bool" where
  "th_waiting ThStart = True" | "th_waiting (ThClock t) = True" | "th_waiting (ThLoaded t l) = True" | "th_waiting _ = False"

fun is_rollback :: "th_pc \<Rightarrow> bool" where
  "is_rollback (ThRollback t) = True" | "is_rollback _ = False"

definition count_pc :: "(th_pc \<Rightarrow> bool) \<Rightarrow> th_pc list \<Rightarrow> nat" where
  "count_pc P pcs = length (filter P pcs)"

definition burst_inv :: "int \<Rightarrow> int \<Rightarrow> int \<Rightarrow> int \<Rightarrow> th_race \<Rightarrow> bool" where
  "burst_inv now interval m lp0 c \<longleftrightarrow> (\<forall>pc \<in> set (th_pcs c). pc_ok now interval lp0 pc) \<and>
     ((lastPassed c = lp0 \<and> (\<forall>pc \<in> set (th_pcs c). th_waiting pc \<and> (\<forall>t l. pc = ThLoaded t l \<longrightarrow> l = lp0))) \<or>
      (\<exists>a. admitted c = mset (map (\<lambda>i. now + int i * interval) [0..<Suc a]) \<and> int a * interval \<le> m \<and>
         lastPassed c = now + int (a + count_pc is_rollback (th_pcs c)) * interval \<and>
         ((\<exists>pc \<in> set (th_pcs c). is_rollback pc \<or> pc = Refused) \<longrightarrow> m < int (Suc a) * interval)))"

lemma count_pc_update:
  "i < length pcs \<Longrightarrow> count_pc P (pcs[i := pc]) + (if P (pcs ! i) then 1 else 0) = count_pc P pcs + (if P pc then 1 else 0)"
proof (induction pcs arbitrary: i)
  case (Cons p pcs)
  show ?case
  proof (cases i)
    case (Suc k)
    then show ?thesis using Cons.IH [of k] Cons.prems by (auto simp: count_pc_def split: if_splits)
  qed (simp add: count_pc_def)
qed simp

lemma admitted_update:
  "i < length (th_pcs c) \<Longrightarrow> th_slot (th_pcs c ! i) = None \<Longrightarrow>
   admitted (c\<lparr>th_pcs := (th_pcs c)[i := pc], lastPassed := lp\<rparr>) =
     (case th_slot pc of None \<Rightarrow> admitted c | Some s \<Rightarrow> add_mset s (admitted c))"
proof -
  have "mset (List.map_filter th_slot (pcs[i := pc])) =
      (case th_slot pc of None \<Rightarrow> mset (List.map_filter th_slot pcs) | Some s \<Rightarrow> add_mset s (mset (List.map_filter th_slot pcs)))"
    if "i < length pcs" "th_slot (pcs ! i) = None" for pcs
    using that
  proof (induction pcs arbitrary: i)
    case (Cons p pcs)
    show ?case
    proof (cases i)
      case 0
      then show ?thesis using Cons.prems by (simp add: List.map_filter_simps split: option.split)
    next
      case (Suc k)
      then show ?thesis using Cons.IH [of k] Cons.prems by (simp add: List.map_filter_simps split: option.split)
    qed
  qed simp
  then show "i < length (th_pcs c) \<Longrightarrow> th_slot (th_pcs c ! i) = None \<Longrightarrow> ?thesis"
    by (simp add: admitted_def split: option.split)
qed

lemma admitted_upto_Suc:
  "mset (map (\<lambda>i. now + int i * interval) [0..<Suc n]) =
   add_mset (now + int n * interval) (mset (map (\<lambda>i. now + int i * interval) [0..<n]))"
  by simp

lemma phase1_quiet:
  assumes "burst_inv now interval m lp0 c" and "\<not> (\<forall>pc \<in> set (th_pcs c). th_waiting pc)"
  obtains a where "admitted c = mset (map (\<lambda>i. now + int i * interval) [0..<Suc a])" "int a * interval \<le> m"
    "lastPassed c = now + int (a + count_pc is_rollback (th_pcs c)) * interval"
    "(\<exists>pc \<in> set (th_pcs c). is_rollback pc \<or> pc = Refused) \<Longrightarrow> m < int (Suc a) * interval"
  using assms by (auto simp: burst_inv_def)

lemma count_pc_pos: "count_pc P pcs \<noteq> 0 \<longleftrightarrow> (\<exists>pc \<in> set pcs. P pc)"
  by (auto simp: count_pc_def filter_empty_conv)

text \<open>A slot that is too far away shows that the queue is full.\<close>

lemma burst_full:
  assumes "0 < interval" and "m < int (a + b + 1) * interval" and "b \<noteq> 0 \<Longrightarrow> m < int (Suc a) * interval"
  shows "m < int (Suc a) * interval"
  using assms by (cases "b = 0") simp_all

lemma burst_not_full:
  assumes "0 < interval" and "int (a + b + 1) * interval \<le> m" and "b \<noteq> 0 \<Longrightarrow> m < int (Suc a) * interval"
  shows "b = 0" and "\<not> m < int (Suc a) * interval"
proof -
  have "int (Suc a) * interval \<le> int (a + b + 1) * interval" using assms(1) by (intro mult_right_mono) simp_all
  with assms(2) show *: "\<not> m < int (Suc a) * interval" by linarith
  then show "b = 0" using assms(3) by blast
qed

lemma burst_move:
  assumes inv: "burst_inv now interval m lp0 c" and i: "i < length (th_pcs c)"
    and pos: "0 < interval" "0 \<le> m" "lp0 + interval \<le> now"
  shows "burst_inv now interval m lp0 (th_move interval m i now c)"
proof -
  let ?pc = "th_pcs c ! i" and ?lp = "lastPassed c"
  obtain pc' lp' where st: "th_step interval m now ?pc ?lp = (pc', lp')" by (cases "th_step interval m now ?pc ?lp")
  let ?c = "c\<lparr>th_pcs := (th_pcs c)[i := pc'], lastPassed := lp'\<rparr>"
  have mv: "th_move interval m i now c = ?c" by (simp add: th_move_def st)
  have mem: "?pc \<in> set (th_pcs c)" using i by simp
  have ok: "pc_ok now interval lp0 ?pc" using inv mem by (simp add: burst_inv_def)
  have sub: "x = pc' \<or> x \<in> set (th_pcs c)" if "x \<in> set ((th_pcs c)[i := pc'])" for x
    using that set_update_subset_insert [of "th_pcs c" i pc'] by blast
  have oks: "pc_ok now interval lp0 pc' \<Longrightarrow> \<forall>x \<in> set ((th_pcs c)[i := pc']). pc_ok now interval lp0 x"
    using inv sub by (auto simp: burst_inv_def)
  note cnt = count_pc_update [OF i, of is_rollback pc'] and adm = admitted_update [OF i, where pc = pc' and lp = lp']
  show ?thesis
  proof (cases "th_done ?pc")
    case True
    then have "th_step interval m now ?pc ?lp = (?pc, ?lp)" by (cases ?pc) simp_all
    then have "?c = c" using st i by simp
    then show ?thesis using inv mv by simp
  next
    case notdone: False
    then have slot: "th_slot ?pc = None" by (cases ?pc) simp_all
    show ?thesis
    proof (cases "\<forall>pc \<in> set (th_pcs c). th_waiting pc")
      case True
      have none: "admitted c = {#}"
        using True by (force simp: admitted_def List.map_filter_def filter_empty_conv elim: th_waiting.elims)
      then have lp: "?lp = lp0" and ld: "\<forall>x \<in> set (th_pcs c). \<forall>t l. x = ThLoaded t l \<longrightarrow> l = lp0"
        using inv by (auto simp: burst_inv_def)
      have stay: "burst_inv now interval m lp0 ?c"
        if "lp' = lp0" "th_waiting pc'" "\<forall>t l. pc' = ThLoaded t l \<longrightarrow> l = lp0" "pc_ok now interval lp0 pc'"
      proof -
        have "\<forall>x \<in> set ((th_pcs c)[i := pc']). th_waiting x \<and> (\<forall>t l. x = ThLoaded t l \<longrightarrow> l = lp0)"
          using sub True ld that(2,3) by metis
        then show ?thesis using that(1,4) oks unfolding burst_inv_def by simp
      qed
      have "th_waiting ?pc" using True mem by blast
      then show ?thesis
      proof (cases ?pc)
        case (ThLoaded t l)
        then have "t = now" "l = lp0" using ok ld mem by (auto simp: pc_ok_def)
        then have pc': "pc' = Admitted now" "lp' = now" using st ThLoaded lp pos by (auto simp: th_expected_def)
        have quiet: "\<not> is_rollback x \<and> x \<noteq> Refused" if "x \<in> set ((th_pcs c)[i := pc'])" for x
          using sub [OF that] True pc' by (cases x) auto
        then have "count_pc is_rollback ((th_pcs c)[i := pc']) = 0" using count_pc_pos by blast
        then show ?thesis
          unfolding mv using adm [OF slot] none pc' pos(2) oks quiet
          by (auto simp: burst_inv_def pc_ok_def intro!: exI [of _ 0])
      qed (use stay ok st lp mv in \<open>auto simp: pc_ok_def\<close>)
    next
      case False
      obtain a where a: "admitted c = mset (map (\<lambda>i. now + int i * interval) [0..<Suc a])" "int a * interval \<le> m"
        "?lp = now + int (a + count_pc is_rollback (th_pcs c)) * interval"
        "(\<exists>pc \<in> set (th_pcs c). is_rollback pc \<or> pc = Refused) \<Longrightarrow> m < int (Suc a) * interval"
        using phase1_quiet [OF inv False] by blast
      let ?b = "count_pc is_rollback (th_pcs c)" and ?b' = "count_pc is_rollback ((th_pcs c)[i := pc'])"
      have b: "?b \<noteq> 0 \<Longrightarrow> m < int (Suc a) * interval" using a(4) count_pc_pos by blast
      have lp: "now \<le> ?lp" using a(3) pos(1) by simp
      then have lp0: "lp0 < ?lp" using pos(1,3) by linarith
      have stay: "burst_inv now interval m lp0 ?c"
        if "th_slot pc' = None" "lp' = now + int (a + ?b') * interval" "pc_ok now interval lp0 pc'"
          "is_rollback pc' \<or> pc' = Refused \<Longrightarrow> m < int (Suc a) * interval"
      proof -
        have "admitted ?c = admitted c" using adm [OF slot] that(1) by simp
        moreover have "m < int (Suc a) * interval" if "\<exists>x \<in> set ((th_pcs c)[i := pc']). is_rollback x \<or> x = Refused"
          using that sub a(4) \<open>is_rollback pc' \<or> pc' = Refused \<Longrightarrow> m < int (Suc a) * interval\<close> by blast
        ultimately show ?thesis
          using a(1,2) that(2,3) oks unfolding burst_inv_def by (intro conjI disjI2 exI [of _ a]) simp_all
      qed
      show ?thesis
      proof (cases ?pc)
        case (ThLoaded t l)
        then have "t = now" "l = lp0 \<or> now \<le> l" using ok by (auto simp: pc_ok_def)
        then have "pc' = ThQueue now" "lp' = ?lp" using st ThLoaded lp lp0 pos(1) by (auto simp: th_expected_def)
        then show ?thesis using stay cnt ThLoaded a(3) mv by (simp add: pc_ok_def)
      next
        case (ThQueue t)
        then have t: "t = now" using ok by (simp add: pc_ok_def)
        have full: "m < int (Suc a) * interval" if "m < ?lp + interval - now"
          using that burst_full [OF pos(1) _ b] a(3) by (simp add: algebra_simps)
        show ?thesis
          using stay cnt ThQueue a(3) mv st t full by (auto simp: pc_ok_def th_estimate_def split: if_splits)
      next
        case (ThAdd t)
        then have t: "t = now" using ok by (simp add: pc_ok_def)
        have est: "?lp + interval - now = int (a + ?b + 1) * interval" using a(3) by (simp add: algebra_simps)
        show ?thesis
        proof (cases "m < int (a + ?b + 1) * interval")
          case True
          then have "pc' = ThRollback now" "lp' = ?lp + interval" using st ThAdd t est by (simp_all add: th_take_def Let_def)
          then show ?thesis
            using stay cnt ThAdd a(3) mv burst_full [OF pos(1) True b] by (simp add: pc_ok_def algebra_simps)
        next
          case False
          then have nf: "?b = 0" "\<not> m < int (Suc a) * interval"
            using burst_not_full [of interval a ?b m, OF pos(1) _ b] by simp_all
          have "0 < int (a + ?b + 1) * interval" using pos(1) by simp
          then have pc': "pc' = Admitted (now + int (Suc a) * interval)" "lp' = ?lp + interval"
            using st ThAdd t est False nf(1) by (simp_all add: th_take_def Let_def)
          have quiet: "\<not> is_rollback x \<and> x \<noteq> Refused" if "x \<in> set ((th_pcs c)[i := pc'])" for x
            using sub [OF that] pc' a(4) nf(2) by auto
          have "?b' = 0" using quiet count_pc_pos by blast
          moreover have "admitted ?c = mset (map (\<lambda>i. now + int i * interval) [0..<Suc (Suc a)])"
            using adm [OF slot] a(1) pc'(1) by simp
          moreover have "int (Suc a) * interval \<le> m" using nf(2) by linarith
          moreover have "lp' = now + int (Suc a) * interval" using pc'(2) a(3) nf(1) by (simp add: algebra_simps)
          ultimately show ?thesis
            using oks pc' quiet unfolding mv burst_inv_def
            by (intro conjI disjI2 exI [of _ "Suc a"]) (auto simp: pc_ok_def)
        qed
      next
        case (ThRollback t)
        then have "m < int (Suc a) * interval" using a(4) mem by (metis is_rollback.simps(1))
        moreover have "pc' = Refused" "lp' = ?lp - interval" "?b = Suc ?b'" using st ThRollback cnt by simp_all
        ultimately show ?thesis using stay a(3) mv by (simp add: pc_ok_def algebra_simps)
      next
        case ThStart
        then show ?thesis using stay cnt a(3) mv st by (auto simp: pc_ok_def)
      next
        case (ThClock t)
        then have "pc' = ThLoaded now ?lp" "lp' = ?lp" using st ok by (auto simp: pc_ok_def)
        then show ?thesis using stay cnt a(3) mv lp ThClock by (simp add: pc_ok_def)
      qed (use notdone in simp_all)
    qed
  qed
qed

lemma burst_reachable:
  assumes "th_reachable interval m {now} (th_start lp0 n) c" and "0 < interval" and "0 \<le> m" and "lp0 + interval \<le> now"
  shows "burst_inv now interval m lp0 c \<and> length (th_pcs c) = n"
  using assms(1)
proof (induction rule: th_reachable.induct)
  case init
  show ?case by (simp add: burst_inv_def th_start_def pc_ok_def)
next
  case (move c i t)
  then show ?case using burst_move [of now interval m lp0 c i] assms(2-4) by (simp add: th_move_def Let_def split: prod.splits)
qed

lemma th_done_split: "\<forall>pc \<in> set pcs. th_done pc \<Longrightarrow> length (List.map_filter th_slot pcs) + count_pc (\<lambda>pc. pc = Refused) pcs = length pcs"
proof (induction pcs)
  case (Cons pc pcs)
  then show ?case by (cases pc) (simp_all add: count_pc_def List.map_filter_simps)
qed (simp add: count_pc_def List.map_filter_simps)

text \<open>
  C19: A burst at one instant is throttled exactly, however the goroutines interleave. Let \<open>n\<close> of them
  enter the check when the clock shows \<open>now\<close> and the last request is at least an interval ago. At any
  moment the requests that were let go have the slots \<open>now\<close>, \<open>now + interval\<close>, ... one each, none
  later than \<open>now + m\<close>; and when all are done, as many were let go as there are slots, or all of them.
\<close>

theorem burst_is_throttled:
  assumes "th_reachable interval m {now} (th_start lp0 n) c"
    and "0 < interval" and "0 \<le> m" and "lp0 + interval \<le> now"
  shows "admitted c = mset (map (\<lambda>i. now + int i * interval) [0..<size (admitted c)]) \<and>
    size (admitted c) \<le> nat (1 + m div interval) \<and>
    ((\<forall>pc \<in> set (th_pcs c). th_done pc) \<longrightarrow> size (admitted c) = min n (nat (1 + m div interval)))"
proof -
  have inv: "burst_inv now interval m lp0 c" and len: "length (th_pcs c) = n"
    using burst_reachable [OF assms] by simp_all
  have slots: "nat (1 + m div interval) = Suc (nat (m div interval))"
  proof -
    have "0 \<le> m div interval" using assms(2,3) by (simp add: pos_imp_zdiv_nonneg_iff)
    then show ?thesis by linarith
  qed
  have total: "size (admitted c) + count_pc (\<lambda>pc. pc = Refused) (th_pcs c) = n" if "\<forall>pc \<in> set (th_pcs c). th_done pc"
    using th_done_split [OF that] len by (simp add: admitted_def)
  show ?thesis
  proof (cases "\<forall>pc \<in> set (th_pcs c). th_waiting pc")
    case True
    then have no: "\<not> th_done pc \<and> th_slot pc = None" if "pc \<in> set (th_pcs c)" for pc using that by (cases pc) auto
    then have none: "admitted c = {#}" by (auto simp: admitted_def List.map_filter_def filter_empty_conv)
    moreover have "n = 0" if "\<forall>pc \<in> set (th_pcs c). th_done pc" using that no len by (cases "th_pcs c") auto
    ultimately show ?thesis by auto
  next
    case False
    obtain a where a: "admitted c = mset (map (\<lambda>i. now + int i * interval) [0..<Suc a])" "int a * interval \<le> m"
      "(\<exists>pc \<in> set (th_pcs c). is_rollback pc \<or> pc = Refused) \<Longrightarrow> m < int (Suc a) * interval"
      using phase1_quiet [OF inv False] by metis
    have size: "size (admitted c) = Suc a" using a(1) by (metis diff_zero length_map length_upt size_mset)
    have le: "int a \<le> m div interval" using zdiv_mono1 [OF a(2) assms(2)] assms(2) by simp
    have "Suc a = min n (nat (1 + m div interval))" if d: "\<forall>pc \<in> set (th_pcs c). th_done pc"
    proof (cases "Refused \<in> set (th_pcs c)")
      case True
      then have "m < int (Suc a) * interval" using a(3) by blast
      moreover have "m div interval * interval \<le> m"
        using pos_mod_sign [OF assms(2), of m] div_mult_mod_eq [of m interval] by linarith
      ultimately have "m div interval < int (Suc a)" using assms(2) by (meson le_less_trans mult_less_cancel_right_pos)
      then have "nat (m div interval) = a" using le by simp
      moreover have "Suc a \<le> n" using total [OF d] size by simp
      ultimately show ?thesis unfolding slots by simp
    next
      case False
      then have "count_pc (\<lambda>pc. pc = Refused) (th_pcs c) = 0" by (auto simp: count_pc_def filter_empty_conv)
      then have "Suc a = n" using total [OF d] size by simp
      moreover have "a \<le> nat (m div interval)" using le by simp
      ultimately show ?thesis using slots by simp
    qed
    moreover have "Suc a \<le> nat (1 + m div interval)" using le slots by simp
    ultimately show ?thesis unfolding size using a(1) by blast
  qed
qed

text \<open>Three goroutines at one instant, with room for two.\<close>

definition burst_schedule :: "(nat \<times> int) list" where
  "burst_schedule = map (\<lambda>i. (i, 1000)) [0, 1, 2, 0, 1, 2, 0, 1, 2, 0, 1, 2, 0, 1, 2, 0, 1, 2]"

definition th_run :: "int \<Rightarrow> int \<Rightarrow> (nat \<times> int) list \<Rightarrow> th_race \<Rightarrow> th_race" where
  "th_run interval m sched c = foldl (\<lambda>c (i, now). th_move interval m i now c) c sched"

lemma th_run_reachable:
  "\<forall>(i, now) \<in> set sched. i < length (th_pcs c) \<and> now \<in> clock \<Longrightarrow> th_reachable interval m clock c0 c \<Longrightarrow>
   th_reachable interval m clock c0 (th_run interval m sched c)"
proof (induction sched arbitrary: c)
  case (Cons x sched)
  obtain i now where x: "x = (i, now)" by (cases x)
  have "th_reachable interval m clock c0 (th_move interval m i now c)"
    using Cons.prems x by (auto intro: th_reachable.move)
  moreover have "length (th_pcs (th_move interval m i now c)) = length (th_pcs c)"
    by (simp add: th_move_def split: prod.splits)
  ultimately show ?case using Cons.IH [of "th_move interval m i now c"] Cons.prems(1) x by (simp add: th_run_def)
qed (simp add: th_run_def)

theorem burst_is_throttled_witness:
  "let c = th_run 100 100 burst_schedule (th_start 0 3)
   in (\<forall>pc \<in> set (th_pcs c). th_done pc) \<and> size (admitted c) = 2 \<and> admitted c = {#1000, 1100#}"
proof -
  let ?c = "th_run 100 100 burst_schedule (th_start 0 3)"
  have "th_reachable 100 100 {1000} (th_start 0 3) ?c"
    by (rule th_run_reachable) (simp_all add: burst_schedule_def th_start_def th_reachable.init)
  note th = burst_is_throttled [OF this]
  have "\<forall>pc \<in> set (th_pcs ?c). th_done pc" by code_simp
  then have size: "size (admitted ?c) = 2" using th by simp
  have "admitted ?c = mset (map (\<lambda>i. 1000 + int i * 100) [0..<2])" using th unfolding size by simp
  also have "\<dots> = {#1000, 1100#}" by (simp add: upt_rec)
  finally show ?thesis using size \<open>\<forall>pc \<in> set (th_pcs ?c). th_done pc\<close> by (simp add: Let_def)
qed

text \<open>
  With clocks that move, two goroutines can be given the same slot. A goroutine that was slow adds its
  interval to the shared time, finds its slot too far away and takes the addition back - after another
  one has queued behind the slot that is then handed out again. Here the interval is 100, the queue is
  100 long, and goroutines 2 and 3 are both let go at time 1300.
\<close>

lemma rollback_hands_out_a_slot_twice:
  "let c = th_run 100 100
     [(0, 1000), (0, 0), (0, 0),
      (1, 1000), (1, 0), (1, 0), (1, 0),
      (4, 1000), (4, 0), (4, 0), (4, 0), (4, 0),
      (1, 0),
      (2, 1200), (2, 0), (2, 0), (2, 0), (2, 0),
      (1, 0),
      (3, 1200), (3, 0), (3, 0), (3, 0), (3, 0)] (th_start 0 5)
   in th_pcs c = [Admitted 1000, Refused, Admitted 1300, Admitted 1300, Admitted 1100]"
  by code_simp

end
