(* ===== verification/FlowRule.thy ===== *)
theory FlowRule
  imports GoStrings Float64
begin

text \<open>
  The rules of flow control, \<open>core/flow/rule.go\<close>, and their validity check (\<open>IsValidRule\<close> of
  \<open>rule_manager.go\<close>). A strategy is an integer with a few named values.
\<close>

section \<open>Strategies\<close>

type_synonym relation_strategy = i32

definition CurrentResource :: relation_strategy where "CurrentResource = 0"
definition AssociatedResource :: relation_strategy where "AssociatedResource = 1"

definition RelationStrategy_String :: "relation_strategy \<Rightarrow> string" where
  "RelationStrategy_String s =
     (if s = CurrentResource then ''CurrentResource''
      else if s = AssociatedResource then ''AssociatedResource'' else ''Undefined'')"

definition TokenServerStrategyNodeSelectMaster :: i32 where "TokenServerStrategyNodeSelectMaster = 1"
definition TokenServerStrategyIndependentTokenServer :: i32 where "TokenServerStrategyIndependentTokenServer = 2"

type_synonym token_calculate_strategy = i32

definition Direct :: token_calculate_strategy where "Direct = 0"
definition WarmUp :: token_calculate_strategy where "WarmUp = 1"
definition MemoryAdaptive :: token_calculate_strategy where "MemoryAdaptive = 2"

definition TokenCalculateStrategy_String :: "token_calculate_strategy \<Rightarrow> string" where
  "TokenCalculateStrategy_String s =
     (if s = Direct then ''Direct'' else if s = WarmUp then ''WarmUp''
      else if s = MemoryAdaptive then ''MemoryAdaptive'' else ''Undefined'')"

type_synonym control_behavior = i32

definition Reject :: control_behavior where "Reject = 0"
definition Throttling :: control_behavior where "Throttling = 1"

definition ControlBehavior_String :: "control_behavior \<Rightarrow> string" where
  "ControlBehavior_String s =
     (if s = Reject then ''Reject'' else if s = Throttling then ''Throttling'' else ''Undefined'')"

definition ThresholdAvgLocal :: i32 where "ThresholdAvgLocal = 1"
definition ThresholdGlobal :: i32 where "ThresholdGlobal = 2"
definition ThresholdGlobalRedis :: i32 where "ThresholdGlobalRedis = 3"

definition ClusterStrategy_String :: "i32 \<Rightarrow> string" where
  "ClusterStrategy_String c =
     (if c = ThresholdAvgLocal then ''FlowThresholdAvgLocal''
      else if c = ThresholdGlobal then ''FlowThresholdGlobal'' else ''Undefined'')"

lemmas flow_consts = CurrentResource_def AssociatedResource_def TokenServerStrategyNodeSelectMaster_def
  TokenServerStrategyIndependentTokenServer_def Direct_def WarmUp_def MemoryAdaptive_def Reject_def
  Throttling_def ThresholdAvgLocal_def ThresholdGlobal_def ThresholdGlobalRedis_def

section \<open>Rules\<close>

record cluster_config =
  cc_FlowId :: string
  cc_FallbackToLocalWhenFail :: bool
  cc_ClusterStrategy :: i32
  cc_ResourceTimeout :: i64
  cc_ResourceTimeoutStrategy :: i32
  cc_ClientOfflineTime :: i64
  cc_GlobalThreshold :: f64
  cc_TokenServerStrategy :: i32
  cc_TokenServerAddress :: string
  cc_DowngradeDurationInMs :: i64
  cc_MasterNodeThreshold :: f64
  cc_TokenServerMasterHost :: string
  cc_TokenServerMasterPort :: i32

record flow_rule =
  fr_ID :: string
  fr_App :: string
  fr_RuleName :: string
  fr_LimitApp :: string
  fr_Resource :: string
  fr_TokenCalculateStrategy :: token_calculate_strategy
  fr_ControlBehavior :: control_behavior
  fr_Threshold :: f64
  fr_RelationStrategy :: relation_strategy
  fr_RefResource :: string
  fr_MaxQueueingTimeMs :: u32
  fr_WarmUpPeriodSec :: u32
  fr_WarmUpColdFactor :: u32
  fr_StatIntervalInMs :: u32
  fr_LowMemUsageThreshold :: f64
  fr_HighMemUsageThreshold :: f64
  fr_MemLowWaterMarkBytes :: i64
  fr_MemHighWaterMarkBytes :: i64
  fr_ClusterMode :: bool
  fr_ClusterConfig :: "cluster_config option"

definition cluster_configs_equal :: "cluster_config \<Rightarrow> cluster_config \<Rightarrow> bool" where
  "cluster_configs_equal c d \<longleftrightarrow>
     cc_FlowId c = cc_FlowId d \<and> cc_FallbackToLocalWhenFail c = cc_FallbackToLocalWhenFail d \<and>
     cc_ClusterStrategy c = cc_ClusterStrategy d \<and> cc_ResourceTimeout c = cc_ResourceTimeout d \<and>
     cc_ResourceTimeoutStrategy c = cc_ResourceTimeoutStrategy d \<and>
     cc_ClientOfflineTime c = cc_ClientOfflineTime d \<and> feq (cc_GlobalThreshold c) (cc_GlobalThreshold d) \<and>
     cc_TokenServerStrategy c = cc_TokenServerStrategy d \<and> cc_TokenServerAddress c = cc_TokenServerAddress d \<and>
     cc_DowngradeDurationInMs c = cc_DowngradeDurationInMs d \<and>
     feq (cc_MasterNodeThreshold c) (cc_MasterNodeThreshold d) \<and>
     cc_TokenServerMasterHost c = cc_TokenServerMasterHost d \<and>
     cc_TokenServerMasterPort c = cc_TokenServerMasterPort d"

text \<open>Two rules in cluster mode are compared through their configurations: a nil one panics.\<close>

definition flow_isEqualsTo :: "flow_rule \<Rightarrow> flow_rule option \<Rightarrow> bool go" where
  "flow_isEqualsTo r newRule =
     (case newRule of
        None \<Rightarrow> Ret False
      | Some n \<Rightarrow>
          if \<not> (fr_Resource r = fr_Resource n \<and> fr_RelationStrategy r = fr_RelationStrategy n \<and>
                fr_RefResource r = fr_RefResource n \<and> fr_StatIntervalInMs r = fr_StatIntervalInMs n \<and>
                fr_TokenCalculateStrategy r = fr_TokenCalculateStrategy n \<and>
                fr_ControlBehavior r = fr_ControlBehavior n \<and> Float64Equals (fr_Threshold r) (fr_Threshold n) \<and>
                fr_MaxQueueingTimeMs r = fr_MaxQueueingTimeMs n \<and> fr_WarmUpPeriodSec r = fr_WarmUpPeriodSec n \<and>
                fr_WarmUpColdFactor r = fr_WarmUpColdFactor n \<and>
                feq (fr_LowMemUsageThreshold r) (fr_LowMemUsageThreshold n) \<and>
                feq (fr_HighMemUsageThreshold r) (fr_HighMemUsageThreshold n) \<and>
                fr_MemLowWaterMarkBytes r = fr_MemLowWaterMarkBytes n \<and>
                fr_MemHighWaterMarkBytes r = fr_MemHighWaterMarkBytes n \<and> fr_LimitApp r = fr_LimitApp n)
          then Ret False
          else if fr_ClusterMode r \<noteq> fr_ClusterMode n then Ret False
          else if fr_ClusterMode r then
            (case (fr_ClusterConfig r, fr_ClusterConfig n) of
               (Some c, Some d) \<Rightarrow> Ret (cluster_configs_equal c d)
             | _ \<Rightarrow> Panic ''nil pointer dereference'')
          else Ret True)"

definition needStatistic :: "flow_rule \<Rightarrow> bool" where
  "needStatistic r \<longleftrightarrow> fr_TokenCalculateStrategy r = WarmUp \<or> fr_ControlBehavior r = Reject"

definition flow_isStatReusable :: "flow_rule \<Rightarrow> flow_rule option \<Rightarrow> bool" where
  "flow_isStatReusable r newRule =
     (case newRule of
        None \<Rightarrow> False
      | Some n \<Rightarrow> fr_Resource r = fr_Resource n \<and> fr_RelationStrategy r = fr_RelationStrategy n \<and>
          fr_RefResource r = fr_RefResource n \<and> fr_StatIntervalInMs r = fr_StatIntervalInMs n \<and>
          needStatistic r \<and> needStatistic n)"

definition isClusterMode :: "flow_rule \<Rightarrow> bool" where
  "isClusterMode r = fr_ClusterMode r"

section \<open>Validity\<close>

text \<open>The checks of the memory strategy, against the memory of the machine, and of a cluster rule.\<close>

definition valid_memory_rule :: "u64 \<Rightarrow> flow_rule \<Rightarrow> string option" where
  "valid_memory_rule TotalMemorySize r =
     (if fle (fr_LowMemUsageThreshold r) (Fin 0) then Some ''rule.LowMemUsageThreshold <= 0''
      else if fle (fr_HighMemUsageThreshold r) (Fin 0) then Some ''rule.HighMemUsageThreshold <= 0''
      else if fle (fr_LowMemUsageThreshold r) (fr_HighMemUsageThreshold r)
        then Some ''rule.HighMemUsageThreshold >= rule.LowMemUsageThreshold''
      else if fr_MemLowWaterMarkBytes r \<le>s 0 then Some ''rule.MemLowWaterMarkBytes <= 0''
      else if fr_MemHighWaterMarkBytes r \<le>s 0 then Some ''rule.MemHighWaterMarkBytes <= 0''
      else if TotalMemorySize <s fr_MemHighWaterMarkBytes r
        then Some ''rule.MemHighWaterMarkBytes should not be greater than current system's total memory size''
      else if fr_MemHighWaterMarkBytes r \<le>s fr_MemLowWaterMarkBytes r
        then Some ''rule.MemLowWaterMarkBytes >= rule.MemHighWaterMarkBytes''
      else None)"

definition valid_cluster_rule :: "flow_rule \<Rightarrow> string option" where
  "valid_cluster_rule r =
     (case fr_ClusterConfig r of
        None \<Rightarrow> Some ''cluster mode is true, but cluster config is null''
      | Some c \<Rightarrow>
          if fle (cc_GlobalThreshold c) (Fin 0)
            then Some ''cluster mode is true, but globalThreshold is null or less than 0''
          else if ThresholdGlobal = cc_ClusterStrategy c then
            (if TokenServerStrategyIndependentTokenServer = cc_TokenServerStrategy c \<and> cc_TokenServerAddress c = []
               then Some ''tokenServer strategy is TokenServerStrategyIndependentTokenServer, but tokenServerAddress is null''
             else if TokenServerStrategyNodeSelectMaster = cc_TokenServerStrategy c \<and>
               cc_FallbackToLocalWhenFail c \<and> cc_DowngradeDurationInMs c \<le>s 0
               then Some ''tokenServer strategy is TokenServerStrategyNodeSelectMaster, downgradeDurationInMs must be greater than 0''
             else None)
          else None)"

definition flow_IsValidRule :: "u64 \<Rightarrow> flow_rule option \<Rightarrow> string option" where
  "flow_IsValidRule TotalMemorySize rule =
     (case rule of
        None \<Rightarrow> Some ''nil Rule''
      | Some r \<Rightarrow>
          if fr_Resource r = [] then Some ''empty resource''
          else if flt (fr_Threshold r) (Fin 0) then Some ''negative Count''
          else if fr_TokenCalculateStrategy r <s 0 then Some ''negative TokenCalculateStrategy''
          else if fr_ControlBehavior r <s 0 then Some ''negative ControlBehavior''
          else if fr_ControlBehavior r = Throttling \<and>
            (fr_MaxQueueingTimeMs r \<le> 0 \<or> fle (fr_Threshold r) (Fin 0) \<or>
             fle (f64_of_int (uint (fr_MaxQueueingTimeMs r))) (fdiv (Fin 1000) (fr_Threshold r)))
            then Some ''invalid MaxQueueingTimeMs for ControlBehavior, MaxQueueingTimeMs must be great than 0 and Threshold must be great than 0 and MaxQueueingTimeMs  must be great than 1/Threshold''
          else if \<not> (CurrentResource \<le>s fr_RelationStrategy r \<and> fr_RelationStrategy r \<le>s AssociatedResource)
            then Some ''invalid RelationStrategy''
          else if fr_RelationStrategy r = AssociatedResource \<and> fr_RefResource r = []
            then Some ''RefResource must be non empty when RelationStrategy is AssociatedResource''
          else if fr_TokenCalculateStrategy r = WarmUp \<and> fr_WarmUpPeriodSec r \<le> 0
            then Some ''WarmUpPeriodSec must be great than 0''
          else if fr_TokenCalculateStrategy r = WarmUp \<and> fr_WarmUpColdFactor r = 1
            then Some ''WarmUpColdFactor must be great than 1''
          else case (if fr_TokenCalculateStrategy r = MemoryAdaptive then valid_memory_rule TotalMemorySize r else None) of
              Some e \<Rightarrow> Some e
            | None \<Rightarrow> if fr_ClusterMode r then valid_cluster_rule r else None)"

text \<open>A valid throttling rule has a threshold above 0, and a valid cluster rule has a configuration.\<close>

lemma valid_throttling:
  assumes "flow_IsValidRule mem (Some r) = None" and "fr_ControlBehavior r = Throttling"
  shows "fr_MaxQueueingTimeMs r \<noteq> 0" and "\<not> fle (fr_Threshold r) (Fin 0)"
  using assms by (auto simp: flow_IsValidRule_def split: if_splits)

lemma valid_cluster:
  assumes "flow_IsValidRule mem (Some r) = None" and "fr_ClusterMode r"
  obtains c where "fr_ClusterConfig r = Some c" and "\<not> fle (cc_GlobalThreshold c) (Fin 0)"
  using assms by (auto simp: flow_IsValidRule_def valid_cluster_rule_def split: if_splits option.splits)

text \<open>Among valid rules the comparison does not panic.\<close>

lemma flow_isEqualsTo_valid:
  assumes "flow_IsValidRule mem (Some r) = None" and "flow_IsValidRule mem (Some n) = None"
  shows "\<exists>b. flow_isEqualsTo r (Some n) = Ret b"
proof (cases "fr_ClusterMode r \<and> fr_ClusterMode n")
  case True
  then obtain c d where "fr_ClusterConfig r = Some c" "fr_ClusterConfig n = Some d"
    using valid_cluster assms by metis
  then show ?thesis by (auto simp: flow_isEqualsTo_def)
qed (auto simp: flow_isEqualsTo_def)

end
