(* ===== verification/FlowControl.thy ===== *)
theory FlowControl
  imports FlowRule Throttling StatNode
begin

text \<open>
  The traffic shaping controllers of \<open>core/flow\<close>: \<open>traffic_shaping.go\<close>, the calculators of the threshold
  (\<open>tc_default.go\<close>, \<open>tc_warm_up.go\<close>, \<open>tc_adaptive.go\<close>) and the checkers (\<open>tc_default.go\<close>,
  \<open>tc_throttling.go\<close>, the latter in \<open>Throttling\<close>). A controller reads and writes the statistics of a
  resource node, or of an array of its own; both are pointers, to a node of the storage or to an index.
\<close>

section \<open>Statistics of a controller\<close>

text \<open>The dynamic types of the read and write statistics the code assigns; a nil interface is \<open>None\<close>.\<close>

datatype read_stat = NopReadStat | NodeMetric stat_ptr | NodeView stat_ptr sliding_window | OwnView sliding_window nat

datatype write_stat = NopWriteStat | NodeWrite stat_ptr | OwnWrite nat

record standalone_stat =
  reuseResourceStat :: bool
  readOnlyMetric :: "read_stat option"
  writeOnlyMetric :: "write_stat option"

definition nopStat :: standalone_stat where
  "nopStat = \<lparr>reuseResourceStat = False, readOnlyMetric = Some NopReadStat, writeOnlyMetric = Some NopWriteStat\<rparr>"

record flow_world =
  flow_nodes :: node_store
  own_arrs :: "bucket_leap_array list"

fun with_read :: "(sliding_window \<Rightarrow> bucket_leap_array \<Rightarrow> 'a) \<Rightarrow> 'a \<Rightarrow> read_stat \<Rightarrow> flow_world \<Rightarrow> 'a go" where
  "with_read f nop NopReadStat w = Ret nop"
| "with_read f nop (NodeMetric p) w =
     (case node_at p (flow_nodes w) of None \<Rightarrow> Panic ''nil pointer dereference'' | Some n \<Rightarrow> with_metric f n)"
| "with_read f nop (NodeView p m) w =
     (case node_at p (flow_nodes w) of None \<Rightarrow> Panic ''nil pointer dereference'' | Some n \<Rightarrow> Ret (f m (bsn_arr n)))"
| "with_read f nop (OwnView m i) w = Ret (f m (own_arrs w ! i))"

definition read_GetSumWithTime :: "u64 \<Rightarrow> metric_event \<Rightarrow> read_stat \<Rightarrow> flow_world \<Rightarrow> i64 go" where
  "read_GetSumWithTime now event = with_read (\<lambda>m arr. getSumWithTime m arr now event) 0"

definition read_GetPreviousQPS :: "u64 \<Rightarrow> metric_event \<Rightarrow> read_stat \<Rightarrow> flow_world \<Rightarrow> f64 go" where
  "read_GetPreviousQPS now event = with_read (\<lambda>m arr. GetPreviousQPS m arr now event) (Fin 0)"

fun write_AddCountWithTime :: "u64 \<Rightarrow> metric_event \<Rightarrow> i64 \<Rightarrow> write_stat \<Rightarrow> flow_world \<Rightarrow> flow_world" where
  "write_AddCountWithTime now event count NopWriteStat w = w"
| "write_AddCountWithTime now event count (NodeWrite p) w =
     w\<lparr>flow_nodes := on_node p (node_AddCount now event count) (flow_nodes w)\<rparr>"
| "write_AddCountWithTime now event count (OwnWrite i) w =
     w\<lparr>own_arrs := (own_arrs w)[i := addCountWithTime now event count (own_arrs w ! i)]\<rparr>"

section \<open>Implementation-defined conversions\<close>

fun f64_to_u32 :: "(f64 \<Rightarrow> u32) \<Rightarrow> f64 \<Rightarrow> u32" where
  "f64_to_u32 oor (Fin a) = (if - 1 < a \<and> ftrunc a < 2 ^ 32 then of_int (ftrunc a) else oor (Fin a))"
| "f64_to_u32 oor x = oor x"

record conversions =
  to_i64_oor :: "f64 \<Rightarrow> i64"
  to_u64_oor :: "f64 \<Rightarrow> u64"
  to_u32_oor :: "f64 \<Rightarrow> u32"

text \<open>\<open>math.Nextafter(x, math.MaxFloat64)\<close>.\<close>

definition MaxFloat64 :: rat where
  "MaxFloat64 = (2 ^ 53 - 1) * 2 ^ 971"

definition next_below_pos :: "rat \<Rightarrow> rat" where
  "next_below_pos b =
     (if b = 2 powi ilog2 b \<and> - 1022 < ilog2 b then b - 2 powi (ilog2 b - 53) else b - 2 powi ulp_exp b)"

fun nextafter_Max :: "f64 \<Rightarrow> f64" where
  "nextafter_Max (Fin a) =
     (if a = MaxFloat64 then Fin a
      else if a = 0 then Fin (2 powi - 1074)
      else if 0 < a then Fin (a + 2 powi ulp_exp a)
      else Fin (- next_below_pos (- a)))"
| "nextafter_Max PInf = Fin MaxFloat64"
| "nextafter_Max NInf = Fin (- MaxFloat64)"
| "nextafter_Max NaN = NaN"

section \<open>Warm-up\<close>

record warm_up =
  wu_threshold :: f64
  wu_warmUpPeriodInSec :: u32
  wu_coldFactor :: u32
  wu_warningToken :: u64
  wu_maxToken :: u64
  wu_slope :: f64
  wu_storedTokens :: i64
  wu_lastFilledTime :: u64

definition DefaultWarmUpColdFactor :: u32 where
  "DefaultWarmUpColdFactor = 3"

text \<open>A missing cold factor is set in the rule itself, which the caller shares: the rule is returned too.\<close>

definition NewWarmUpTrafficShapingCalculator :: "conversions \<Rightarrow> flow_rule \<Rightarrow> warm_up \<times> flow_rule" where
  "NewWarmUpTrafficShapingCalculator cv rule =
     (let rule = (if fr_WarmUpColdFactor rule \<le> 1 then rule\<lparr>fr_WarmUpColdFactor := DefaultWarmUpColdFactor\<rparr> else rule);
          period = f64_of_int (uint (fr_WarmUpPeriodSec rule)); cold = fr_WarmUpColdFactor rule;
          warningToken = f64_to_u64 (to_u64_oor cv)
            (fdiv (fmul period (fr_Threshold rule)) (f64_of_int (uint (cold - 1))));
          maxToken = warningToken + f64_to_u64 (to_u64_oor cv)
            (fdiv (fmul (fmul (Fin 2) period) (fr_Threshold rule)) (f64_of_int (uint (1 + cold))));
          slope = fdiv (fdiv (f64_of_int (uint (cold - 1))) (fr_Threshold rule))
            (f64_of_int (uint (maxToken - warningToken)))
      in (\<lparr>wu_threshold = fr_Threshold rule, wu_warmUpPeriodInSec = fr_WarmUpPeriodSec rule, wu_coldFactor = cold,
           wu_warningToken = warningToken, wu_maxToken = maxToken, wu_slope = slope,
           wu_storedTokens = 0, wu_lastFilledTime = 0\<rparr>, rule))"

definition coolDownTokens :: "conversions \<Rightarrow> u64 \<Rightarrow> f64 \<Rightarrow> warm_up \<Rightarrow> i64" where
  "coolDownTokens cv currentTime passQps c =
     (let oldValue = wu_storedTokens c;
          newValue =
            (if oldValue <s wu_warningToken c then
               f64_to_i64 (to_i64_oor cv) (fadd (f64_of_int (sint oldValue))
                 (fdiv (fmul (fsub (f64_of_int (uint currentTime)) (f64_of_int (uint (wu_lastFilledTime c))))
                   (wu_threshold c)) (Fin 1000)))
             else if wu_warningToken c <s oldValue then
               (if flt passQps (f64_of_int (uint (f64_to_u32 (to_u32_oor cv) (wu_threshold c) div wu_coldFactor c))) then
                  f64_to_i64 (to_i64_oor cv) (fadd (f64_of_int (sint oldValue))
                    (fdiv (fmul (f64_of_int (uint (currentTime - wu_lastFilledTime c))) (wu_threshold c)) (Fin 1000)))
                else oldValue)
             else oldValue)
      in if newValue \<le>s wu_maxToken c then newValue else wu_maxToken c)"

definition syncToken :: "conversions \<Rightarrow> u64 \<Rightarrow> f64 \<Rightarrow> warm_up \<Rightarrow> warm_up" where
  "syncToken cv now passQps c =
     (let currentTime = now - now mod 1000; oldLastFillTime = wu_lastFilledTime c
      in if currentTime \<le> oldLastFillTime then c
         else
           let newValue = coolDownTokens cv currentTime passQps c;
               c = c\<lparr>wu_storedTokens := newValue\<rparr>;
               c = c\<lparr>wu_storedTokens := wu_storedTokens c + f64_to_i64 (to_i64_oor cv) (fneg passQps)\<rparr>;
               c = (if wu_storedTokens c <s 0 then c\<lparr>wu_storedTokens := 0\<rparr> else c)
           in c\<lparr>wu_lastFilledTime := currentTime\<rparr>)"

definition warm_up_allowed :: "warm_up \<Rightarrow> f64" where
  "warm_up_allowed c =
     (let restToken = wu_storedTokens c; restToken = (if restToken \<le>s 0 then 0 else restToken)
      in if wu_warningToken c \<le>s restToken then
           let aboveToken = restToken - wu_warningToken c
           in nextafter_Max (fdiv (Fin 1)
                (fadd (fmul (f64_of_int (sint aboveToken)) (wu_slope c)) (fdiv (Fin 1) (wu_threshold c))))
         else wu_threshold c)"

section \<open>Adaptation to the memory\<close>

record memory_adaptive =
  ma_lowMemUsageThreshold :: f64
  ma_highMemUsageThreshold :: f64
  ma_memLowWaterMark :: i64
  ma_memHighWaterMark :: i64

definition NewMemoryAdaptiveTrafficShapingCalculator :: "flow_rule \<Rightarrow> memory_adaptive" where
  "NewMemoryAdaptiveTrafficShapingCalculator r =
     \<lparr>ma_lowMemUsageThreshold = fr_LowMemUsageThreshold r, ma_highMemUsageThreshold = fr_HighMemUsageThreshold r,
      ma_memLowWaterMark = fr_MemLowWaterMarkBytes r, ma_memHighWaterMark = fr_MemHighWaterMarkBytes r\<rparr>"

definition NotRetrievedMemoryValue :: i64 where
  "NotRetrievedMemoryValue = - 1"

definition memory_allowed :: "i64 \<Rightarrow> memory_adaptive \<Rightarrow> f64" where
  "memory_allowed mem m =
     (if mem = NotRetrievedMemoryValue then ma_lowMemUsageThreshold m
      else if mem \<le>s ma_memLowWaterMark m then ma_lowMemUsageThreshold m
      else if ma_memHighWaterMark m \<le>s mem then ma_highMemUsageThreshold m
      else fadd (fmul (fdiv (fsub (ma_highMemUsageThreshold m) (ma_lowMemUsageThreshold m))
             (f64_of_int (sint (ma_memHighWaterMark m - ma_memLowWaterMark m))))
             (f64_of_int (sint (mem - ma_memLowWaterMark m)))) (ma_lowMemUsageThreshold m))"

section \<open>The controller\<close>

datatype calculator = DirectCalc f64 | WarmUpCalc warm_up | MemoryCalc memory_adaptive

datatype checker = RejectChecker | ThrottleChecker throttling_checker

record traffic_controller =
  tc_calculator :: calculator
  tc_checker :: checker
  tc_rule :: flow_rule
  tc_boundStat :: standalone_stat
  tc_DowngradeTimeInNsTo :: i64

text \<open>
  What a check reads from outside: the clock in \<open>GetPreviousQPS\<close>, in \<open>syncToken\<close>, in the reject
  checker, and twice in the throttling checker; and the memory in use.
\<close>

record flow_env =
  fe_qps_now :: u64
  fe_sync_now :: u64
  fe_check_now :: u64
  fe_cur_nano :: i64
  fe_end_nano :: i64
  fe_memory :: i64

definition CalculateAllowedTokens ::
  "conversions \<Rightarrow> flow_env \<Rightarrow> flow_world \<Rightarrow> traffic_controller \<Rightarrow> f64 go \<times> traffic_controller" where
  "CalculateAllowedTokens cv env w tc =
     (case tc_calculator tc of
        DirectCalc threshold \<Rightarrow> (Ret threshold, tc)
      | MemoryCalc m \<Rightarrow> (Ret (memory_allowed (fe_memory env) m), tc)
      | WarmUpCalc c \<Rightarrow>
          (case readOnlyMetric (tc_boundStat tc) of
             None \<Rightarrow> (Panic ''nil pointer dereference'', tc)
           | Some rs \<Rightarrow>
               (case read_GetPreviousQPS (fe_qps_now env) MetricEventPass rs w of
                  Ret previousQps \<Rightarrow>
                    let c = syncToken cv (fe_sync_now env) previousQps c
                    in (Ret (warm_up_allowed c), tc\<lparr>tc_calculator := WarmUpCalc c\<rparr>)
                | Err e \<Rightarrow> (Err e, tc)
                | Panic p \<Rightarrow> (Panic p, tc))))"

type_synonym flow_result = "(flow_rule, f64) token_result option"

definition flow_blocked :: "string \<Rightarrow> flow_rule \<Rightarrow> f64 option \<Rightarrow> flow_result" where
  "flow_blocked msg rule v = Some (NewTokenResultBlockedWithCause BlockTypeFlow msg (Some rule) v)"

text \<open>
  \<open>RejectTrafficShapingChecker.DoCheck\<close>: test, add, test again and take back. \<open>reject_check\<close> is its body
  over any counter that can be read and added to.
\<close>

definition reject_check ::
  "(u64 \<Rightarrow> 'w \<Rightarrow> i64 go) \<Rightarrow> (u64 \<Rightarrow> i64 \<Rightarrow> 'w \<Rightarrow> 'w) \<Rightarrow> u64 \<Rightarrow> u32 \<Rightarrow> f64 \<Rightarrow> flow_rule \<Rightarrow> 'w \<Rightarrow> flow_result go \<times> 'w" where
  "reject_check read add now batchCount threshold rule w =
     (case read now w of
        Ret cnt \<Rightarrow>
          let curCount = f64_of_int (sint cnt)
          in if flt threshold curCount then (Ret (flow_blocked ''flow reject check blocked'' rule (Some curCount)), w)
             else
               let w = add now (ucast batchCount) w
               in (case read now w of
                     Ret cnt \<Rightarrow>
                       let curCount = f64_of_int (sint cnt)
                       in if flt threshold curCount then
                            (Ret (flow_blocked ''flow reject check blocked'' rule (Some curCount)),
                             add now (- ucast batchCount) w)
                          else (Ret None, w)
                   | Err e \<Rightarrow> (Err e, w)
                   | Panic p \<Rightarrow> (Panic p, w))
      | Err e \<Rightarrow> (Err e, w)
      | Panic p \<Rightarrow> (Panic p, w))"

definition reject_DoCheck ::
  "u64 \<Rightarrow> u32 \<Rightarrow> f64 \<Rightarrow> flow_rule \<Rightarrow> standalone_stat \<Rightarrow> flow_world \<Rightarrow> flow_result go \<times> flow_world" where
  "reject_DoCheck now batchCount threshold rule stat w =
     (case (readOnlyMetric stat, writeOnlyMetric stat) of
        (Some rs, Some ws) \<Rightarrow>
          reject_check (\<lambda>now. read_GetSumWithTime now MetricEventRejectPass rs)
            (\<lambda>now count. write_AddCountWithTime now MetricEventRejectPass count ws) now batchCount threshold rule w
      | _ \<Rightarrow> (Ret None, w))"

definition flow_DoCheck ::
  "conversions \<Rightarrow> flow_env \<Rightarrow> u32 \<Rightarrow> f64 \<Rightarrow> traffic_controller \<Rightarrow> flow_world \<Rightarrow>
   flow_result go \<times> traffic_controller \<times> flow_world" where
  "flow_DoCheck cv env batchCount threshold tc w =
     (case tc_checker tc of
        RejectChecker \<Rightarrow>
          let (r, w) = reject_DoCheck (fe_check_now env) batchCount threshold (tc_rule tc) (tc_boundStat tc) w
          in (r, tc, w)
      | ThrottleChecker c \<Rightarrow>
          let (r, c) = throttle_DoCheck (to_i64_oor cv) (Some (tc_rule tc)) (fe_cur_nano env) (fe_end_nano env)
                         batchCount threshold c
          in (Ret r, tc\<lparr>tc_checker := ThrottleChecker c\<rparr>, w))"

definition PerformChecking ::
  "conversions \<Rightarrow> flow_env \<Rightarrow> u32 \<Rightarrow> traffic_controller \<Rightarrow> flow_world \<Rightarrow>
   flow_result go \<times> traffic_controller \<times> flow_world" where
  "PerformChecking cv env batchCount tc w =
     (case CalculateAllowedTokens cv env w tc of
        (Ret allowedTokens, tc) \<Rightarrow> flow_DoCheck cv env batchCount allowedTokens tc w
      | (Err e, tc) \<Rightarrow> (Err e, tc, w)
      | (Panic p, tc) \<Rightarrow> (Panic p, tc, w))"

end
