(* ===== verification/RejectFlow.thy ===== *)
theory RejectFlow
  imports FlowControl
begin

text \<open>
  What the reject checker promises: a request is let go exactly if it fits in what the window has left.
  The checker is a client of a counter over a window; the counter is an interface with two providers,
  the statistics of a resource node and an array of the controller's own.
\<close>

section \<open>A counter over a window\<close>

definition clock_after :: "nat \<Rightarrow> u64 \<Rightarrow> bool" where
  "clock_after T now \<longleftrightarrow> now \<noteq> 0 \<and> unat now < 2 ^ 63 \<and> T \<le> unat now"

text \<open>The periods of length \<open>L\<close> in view at \<open>now\<close>: the latest \<open>k\<close>.\<close>

definition in_view :: "nat \<Rightarrow> nat \<Rightarrow> u64 \<Rightarrow> u64 \<Rightarrow> bool" where
  "in_view L k now t \<longleftrightarrow> unat t div L \<le> unat now div L \<and> unat now div L < unat t div L + k"

definition view_total :: "(u64 \<Rightarrow> bool) \<Rightarrow> (u64 \<times> i64) list \<Rightarrow> i64" where
  "view_total P evs = (\<Sum>(t, c) \<leftarrow> evs. if P t then c else 0)"

locale window_counter =
  fixes read :: "u64 \<Rightarrow> 'w \<Rightarrow> i64 go"
    and add :: "u64 \<Rightarrow> i64 \<Rightarrow> 'w \<Rightarrow> 'w"
    and holds :: "nat \<Rightarrow> (u64 \<times> i64) list \<Rightarrow> 'w \<Rightarrow> bool"
    and view :: "u64 \<Rightarrow> u64 \<Rightarrow> bool"
  assumes read_total: "holds T evs w \<Longrightarrow> clock_after T now \<Longrightarrow> read now w = Ret (view_total (view now) evs)"
    and holds_add: "holds T evs w \<Longrightarrow> clock_after T now \<Longrightarrow> holds (unat now) (evs @ [(now, c)]) (add now c w)"
    and view_now: "holds T evs w \<Longrightarrow> view now now"

text \<open>What the requests let go so far add up to, as an integer.\<close>

definition let_go :: "(u64 \<Rightarrow> bool) \<Rightarrow> (u64 \<times> u32) list \<Rightarrow> int" where
  "let_go P reqs = (\<Sum>(t, n) \<leftarrow> reqs. if P t then uint n else 0)"

text \<open>The specification: a request passes if the total in view with it does not exceed the threshold.\<close>

fun reject_spec ::
  "(u64 \<Rightarrow> u64 \<Rightarrow> bool) \<Rightarrow> f64 \<Rightarrow> (u64 \<times> u32) list \<Rightarrow> (u64 \<times> u32) list \<Rightarrow> bool list" where
  "reject_spec view threshold gone [] = []"
| "reject_spec view threshold gone ((now, n) # reqs) =
     (if flt threshold (f64_of_int (let_go (view now) gone + uint n))
      then False # reject_spec view threshold gone reqs
      else True # reject_spec view threshold (gone @ [(now, n)]) reqs)"

fun reject_run ::
  "(u64 \<Rightarrow> 'w \<Rightarrow> i64 go) \<Rightarrow> (u64 \<Rightarrow> i64 \<Rightarrow> 'w \<Rightarrow> 'w) \<Rightarrow> f64 \<Rightarrow> flow_rule \<Rightarrow> (u64 \<times> u32) list \<Rightarrow> 'w \<Rightarrow>
   flow_result go list \<times> 'w" where
  "reject_run read add threshold rule [] w = ([], w)"
| "reject_run read add threshold rule ((now, n) # reqs) w =
     (let (r, w) = reject_check read add now n threshold rule w;
          (rs, w) = reject_run read add threshold rule reqs w
      in (r # rs, w))"

fun clocks_ok :: "nat \<Rightarrow> (u64 \<times> u32) list \<Rightarrow> bool" where
  "clocks_ok T [] = True"
| "clocks_ok T ((now, n) # reqs) = (clock_after T now \<and> clocks_ok (unat now) reqs)"

definition passes :: "flow_result go \<Rightarrow> bool" where
  "passes r \<longleftrightarrow> r = Ret None"

lemma view_total_snoc: "view_total P (evs @ [(t, c)]) = view_total P evs + (if P t then c else 0)"
  by (simp add: view_total_def)

lemma let_go_snoc: "let_go P (reqs @ [(t, n)]) = let_go P reqs + (if P t then uint n else 0)"
  by (simp add: let_go_def)

lemma let_go_bounds: "0 \<le> let_go P reqs \<and> let_go P reqs \<le> int (length reqs) * (2 ^ 32 - 1)"
proof (induction reqs)
  case (Cons r reqs)
  obtain t n where r: "r = (t, n)" by (cases r)
  have "uint n < 2 ^ 32" using uint_bounded [of n] by simp
  then show ?case using Cons by (simp add: let_go_def r algebra_simps)
qed (simp add: let_go_def)

lemma flt_f64_mono: "flt x (f64_of_int i) \<Longrightarrow> i \<le> j \<Longrightarrow> flt x (f64_of_int j)"
  using f64_of_int_mono [of i j] by (cases x; cases "f64_of_int i"; cases "f64_of_int j") (auto simp: fle_def)

context window_counter
begin

lemma check_spec:
  assumes h: "holds T evs w" and now: "clock_after T now"
    and tot: "\<And>P. view_total P evs = of_int (let_go P gone)" and len: "length gone < 2 ^ 31 - 1"
  shows "\<exists>w' evs'. reject_check read add now n threshold rule w =
      (if flt threshold (f64_of_int (let_go (view now) gone + uint n))
       then (Ret (flow_blocked ''flow reject check blocked'' rule
               (Some (f64_of_int (let_go (view now) gone + (if flt threshold (f64_of_int (let_go (view now) gone)) then 0 else uint n))))), w')
       else (Ret None, w')) \<and>
    (\<forall>P. view_total P evs' = of_int (let_go P
       (if flt threshold (f64_of_int (let_go (view now) gone + uint n)) then gone else gone @ [(now, n)]))) \<and>
    (\<exists>T'. T' \<le> unat now \<and> holds T' evs' w')"
proof -
  let ?S = "let_go (view now) gone"
  have n: "0 \<le> uint n" "uint n < 2 ^ 32" using uint_bounded [of n] by simp_all
  have "int (length gone) * (2 ^ 32 - 1) \<le> (2 ^ 31 - 1) * (2 ^ 32 - 1)"
    using len by (intro mult_right_mono) simp_all
  then have S: "0 \<le> ?S" "?S < 2 ^ 63" "0 \<le> ?S + uint n" "?S + uint n < 2 ^ 63"
    using let_go_bounds [of "view now" gone] n by auto
  have sint: "sint (of_int i :: i64) = i" if "0 \<le> i" "i < 2 ^ 63" for i
  proof -
    have "uint (of_int i :: i64) = i" using that by (simp add: uint_word_of_int)
    then show ?thesis using that by (subst sint_small) (simp_all add: unat_eq_nat_uint)
  qed
  have now_ok: "clock_after (unat now) now" using now by (simp add: clock_after_def)
  have r1: "read now w = Ret (of_int ?S)" by (simp only: read_total [OF h now] tot)
  have h1: "holds (unat now) (evs @ [(now, ucast n)]) (add now (ucast n) w)" by (rule holds_add [OF h now])
  have "view_total (view now) (evs @ [(now, ucast n)]) = of_int (?S + uint n)"
    by (simp add: view_total_snoc tot view_now [OF h])
  then have r2: "read now (add now (ucast n) w) = Ret (of_int (?S + uint n))"
    by (simp only: read_total [OF h1 now_ok])
  obtain A where A: "read now w = Ret A" "sint A = ?S" using r1 sint [of ?S] S n by simp
  obtain B where B: "read now (add now (ucast n) w) = Ret B" "sint B = ?S + uint n"
    using r2 sint [of "?S + uint n"] S n by simp
  have h2: "holds (unat now) ((evs @ [(now, ucast n)]) @ [(now, - ucast n)]) (add now (- ucast n) (add now (ucast n) w))"
    by (rule holds_add [OF h1 now_ok])
  consider (over) "flt threshold (f64_of_int ?S)" | (undo) "\<not> flt threshold (f64_of_int ?S)" "flt threshold (f64_of_int (?S + uint n))"
    | (pass) "\<not> flt threshold (f64_of_int (?S + uint n))" "\<not> flt threshold (f64_of_int ?S)"
    by blast
  then show ?thesis
  proof cases
    case over
    then have "flt threshold (f64_of_int (?S + uint n))" using flt_f64_mono n(1) by simp
    moreover have "T \<le> unat now" using now by (simp add: clock_after_def)
    ultimately show ?thesis
      using over A tot h by (intro exI [of _ w] exI [of _ evs]) (auto simp: reject_check_def Let_def)
  next
    case undo
    have "view_total P ((evs @ [(now, ucast n)]) @ [(now, - ucast n)]) = of_int (let_go P gone)" for P
      by (simp only: view_total_snoc tot) simp
    then show ?thesis
      using undo A B h2
      by (intro exI [of _ "add now (- ucast n) (add now (ucast n) w)"]
          exI [of _ "(evs @ [(now, ucast n)]) @ [(now, - ucast n)]"]) (auto simp: reject_check_def Let_def)
  next
    case pass
    have "view_total P (evs @ [(now, ucast n)]) = of_int (let_go P (gone @ [(now, n)]))" for P
      by (simp add: view_total_snoc let_go_snoc tot)
    then show ?thesis
      using pass A B h1
      by (intro exI [of _ "add now (ucast n) w"] exI [of _ "evs @ [(now, ucast n)]"]) (auto simp: reject_check_def Let_def)
  qed
qed

lemma run_spec:
  assumes "holds T evs w" and "clocks_ok T reqs" and "\<And>P. view_total P evs = of_int (let_go P gone)"
    and "length gone + length reqs < 2 ^ 31"
  shows "map passes (fst (reject_run read add threshold rule reqs w)) = reject_spec view threshold gone reqs"
  using assms
proof (induction reqs arbitrary: T evs w gone)
  case (Cons r reqs)
  obtain now n where r: "r = (now, n)" by (cases r)
  have now: "clock_after T now" and rest: "clocks_ok (unat now) reqs" using Cons.prems(2) by (simp_all add: r)
  have "length gone < 2 ^ 31 - 1" using Cons.prems(4) by simp
  from check_spec [OF Cons.prems(1) now Cons.prems(3) this]
  obtain w' evs' T' where c: "reject_check read add now n threshold rule w =
      (if flt threshold (f64_of_int (let_go (view now) gone + uint n))
       then (Ret (flow_blocked ''flow reject check blocked'' rule
               (Some (f64_of_int (let_go (view now) gone + (if flt threshold (f64_of_int (let_go (view now) gone)) then 0 else uint n))))), w')
       else (Ret None, w'))"
    "\<And>P. view_total P evs' = of_int (let_go P
       (if flt threshold (f64_of_int (let_go (view now) gone + uint n)) then gone else gone @ [(now, n)]))"
    "T' \<le> unat now" "holds T' evs' w'" by blast
  have rest': "clocks_ok T' reqs" using rest c(3) by (cases reqs) (auto simp: clock_after_def)
  show ?case
    using Cons.IH [OF c(4) rest' c(2)] c(1) Cons.prems(4)
    by (auto simp: r passes_def flow_blocked_def split: prod.splits)
qed simp

end

section \<open>The two counters of the program\<close>

text \<open>
  What an array and a view of it hold: the array was made at \<open>t0\<close> and has seen a sequence of writes,
  the latest at time \<open>T\<close>; \<open>evs\<close> are the counts the reject checker added.
\<close>

definition reject_events :: "event_log \<Rightarrow> (u64 \<times> i64) list" where
  "reject_events evs = List.map_filter (\<lambda>(t, e, c). if e = MetricEventRejectPass then Some (t, c) else None) evs"

definition arr_holds ::
  "nat \<Rightarrow> nat \<Rightarrow> sliding_window \<Rightarrow> nat \<Rightarrow> (u64 \<times> i64) list \<Rightarrow> bucket_leap_array \<Rightarrow> bool" where
  "arr_holds L k m T evs arr \<longleftrightarrow> (\<exists>t0 N P n I arr0 ws. NewBucketLeapArray t0 N P = Ret arr0 \<and>
     NewSlidingWindowMetric n I (Some arr0) = Ret m \<and> L = unat (P div N) \<and> k = unat I div L \<and> k \<noteq> 0 \<and>
     write_times t0 ws \<and> unat t0 < 2 ^ 63 \<and> (\<forall>t \<in> set (t0 # map write_time ws). unat t \<le> T) \<and> unat I \<le> T \<and>
     arr = foldl do_write arr0 ws \<and> evs = reject_events (write_log ws))"

lemma view_total_reject: "log_sum L k now MetricEventRejectPass evs = view_total (in_view L k now) (reject_events evs)"
proof (induction evs)
  case (Cons ev evs)
  obtain t e c where "ev = (t, e, c)" by (cases ev)
  then show ?case
    using Cons by (simp add: log_sum_def reject_events_def view_total_def in_view_def List.map_filter_simps)
qed (simp add: log_sum_def reject_events_def view_total_def List.map_filter_simps)

lemma arr_holds_read:
  assumes "arr_holds L k m T evs arr" and "clock_after T now"
  shows "getSumWithTime m arr now MetricEventRejectPass = view_total (in_view L k now) evs"
proof -
  obtain t0 N P n I arr0 ws where a: "NewBucketLeapArray t0 N P = Ret arr0" "NewSlidingWindowMetric n I (Some arr0) = Ret m"
    "L = unat (P div N)" "k = unat I div L" "write_times t0 ws" "unat t0 < 2 ^ 63"
    "\<forall>t \<in> set (t0 # map write_time ws). unat t \<le> T" "unat I \<le> T" "arr = foldl do_write arr0 ws"
    "evs = reject_events (write_log ws)"
    using assms(1) by (auto simp: arr_holds_def)
  have now: "now \<noteq> 0" "unat now < 2 ^ 63" "T \<le> unat now" using assms(2) by (simp_all add: clock_after_def)
  have "\<forall>t \<in> set (t0 # map write_time ws). unat t \<le> unat now" "unat I \<le> unat now" using a(7,8) now(3) by auto
  from view_writes(1) [OF a(1,2,5,6) now(1,2) this] show ?thesis
    by (simp only: a(3,4,9,10) view_total_reject)
qed

lemma arr_holds_add:
  assumes "arr_holds L k m T evs arr" and "clock_after T now"
  shows "arr_holds L k m (unat now) (evs @ [(now, c)]) (addCountWithTime now MetricEventRejectPass c arr)"
proof -
  obtain t0 N P n I arr0 ws where a: "NewBucketLeapArray t0 N P = Ret arr0" "NewSlidingWindowMetric n I (Some arr0) = Ret m"
    "L = unat (P div N)" "k = unat I div L" "k \<noteq> 0" "write_times t0 ws" "unat t0 < 2 ^ 63"
    "\<forall>t \<in> set (t0 # map write_time ws). unat t \<le> T" "unat I \<le> T" "arr = foldl do_write arr0 ws"
    "evs = reject_events (write_log ws)"
    using assms(1) by (auto simp: arr_holds_def)
  let ?ws = "ws @ [WAdd now MetricEventRejectPass c]"
  have now: "now \<noteq> 0" "unat now < 2 ^ 63" "T \<le> unat now" using assms(2) by (simp_all add: clock_after_def)
  have "write_times t0 ?ws" using a(6,8) now by (auto simp: write_times_def sorted_append)
  moreover have "\<forall>t \<in> set (t0 # map write_time ?ws). unat t \<le> unat now" using a(8) now(3) by auto
  moreover have "reject_events (write_log ?ws) = evs @ [(now, c)]"
    using a(11) by (simp add: reject_events_def List.map_filter_def)
  moreover have "addCountWithTime now MetricEventRejectPass c arr = foldl do_write arr0 ?ws"
    using a(10) by (simp add: do_write_calls)
  ultimately show ?thesis
    unfolding arr_holds_def using a(1-5,7,9) now(3)
    by (intro exI [of _ t0] exI [of _ N] exI [of _ P] exI [of _ n] exI [of _ I] exI [of _ arr0] exI [of _ ?ws]) auto
qed

definition own_holds :: "nat \<Rightarrow> nat \<Rightarrow> sliding_window \<Rightarrow> nat \<Rightarrow> nat \<Rightarrow> (u64 \<times> i64) list \<Rightarrow> flow_world \<Rightarrow> bool" where
  "own_holds L k m i T evs w \<longleftrightarrow> k \<noteq> 0 \<and> i < length (own_arrs w) \<and> arr_holds L k m T evs (own_arrs w ! i)"

definition node_holds :: "nat \<Rightarrow> nat \<Rightarrow> stat_ptr \<Rightarrow> nat \<Rightarrow> (u64 \<times> i64) list \<Rightarrow> flow_world \<Rightarrow> bool" where
  "node_holds L k p T evs w \<longleftrightarrow> k \<noteq> 0 \<and> (\<exists>nd m. node_at p (flow_nodes w) = Some nd \<and> bsn_metric nd = Some m \<and>
     arr_holds L k m T evs (bsn_arr nd))"

interpretation own_window: window_counter "\<lambda>now. read_GetSumWithTime now MetricEventRejectPass (OwnView m i)"
    "\<lambda>now c. write_AddCountWithTime now MetricEventRejectPass c (OwnWrite i)" "own_holds L k m i" "in_view L k"
  for m i L k
proof unfold_locales
  fix T evs w now c
  assume h: "own_holds L k m i T evs w" and now: "clock_after T now"
  show "read_GetSumWithTime now MetricEventRejectPass (OwnView m i) w = Ret (view_total (in_view L k now) evs)"
    using h arr_holds_read [OF _ now] by (simp add: own_holds_def read_GetSumWithTime_def )
  show "own_holds L k m i (unat now) (evs @ [(now, c)]) (write_AddCountWithTime now MetricEventRejectPass c (OwnWrite i) w)"
    using h arr_holds_add [OF _ now] by (simp add: own_holds_def)
qed (simp add: in_view_def own_holds_def)

interpretation node_window: window_counter "\<lambda>now. read_GetSumWithTime now MetricEventRejectPass (NodeMetric p)"
    "\<lambda>now c. write_AddCountWithTime now MetricEventRejectPass c (NodeWrite p)" "node_holds L k p" "in_view L k"
  for p L k
proof unfold_locales
  fix T evs w now c
  assume h: "node_holds L k p T evs w" and now: "clock_after T now"
  show "read_GetSumWithTime now MetricEventRejectPass (NodeMetric p) w = Ret (view_total (in_view L k now) evs)"
    using h arr_holds_read [OF _ now] by (auto simp: node_holds_def read_GetSumWithTime_def with_metric_def)
  show "node_holds L k p (unat now) (evs @ [(now, c)]) (write_AddCountWithTime now MetricEventRejectPass c (NodeWrite p) w)"
    using h arr_holds_add [OF _ now]
    by (auto simp: node_holds_def node_at_on_node node_AddCount_def simp del: node_at.simps on_node.simps)
qed (simp add: in_view_def node_holds_def)

section \<open>The reject checker admits what fits\<close>

text \<open>Calls of the checker, one after the other.\<close>

fun reject_calls ::
  "standalone_stat \<Rightarrow> f64 \<Rightarrow> flow_rule \<Rightarrow> (u64 \<times> u32) list \<Rightarrow> flow_world \<Rightarrow> flow_result go list \<times> flow_world" where
  "reject_calls st threshold rule [] w = ([], w)"
| "reject_calls st threshold rule ((now, n) # reqs) w =
     (let (r, w) = reject_DoCheck now n threshold rule st w;
          (rs, w) = reject_calls st threshold rule reqs w
      in (r # rs, w))"

lemma reject_calls_run:
  "readOnlyMetric st = Some rs \<Longrightarrow> writeOnlyMetric st = Some ws \<Longrightarrow>
   reject_calls st threshold rule reqs w =
     reject_run (\<lambda>now. read_GetSumWithTime now MetricEventRejectPass rs)
       (\<lambda>now c. write_AddCountWithTime now MetricEventRejectPass c ws) threshold rule reqs w"
  by (induction reqs arbitrary: w) (auto simp: reject_DoCheck_def split: prod.splits)

text \<open>The requests let go among the first ones, and the bound the specification keeps.\<close>

definition gone :: "(u64 \<times> u32) list \<Rightarrow> bool list \<Rightarrow> (u64 \<times> u32) list" where
  "gone reqs oks = map fst (filter snd (zip reqs oks))"

lemma reject_spec_bound:
  assumes "j < length reqs" and "reject_spec view threshold before reqs ! j" and "\<forall>now. view now now"
  shows "\<not> flt threshold (f64_of_int (let_go (view (fst (reqs ! j)))
    (before @ gone (take (Suc j) reqs) (reject_spec view threshold before reqs))))"
  using assms
proof (induction reqs arbitrary: before j)
  case (Cons r reqs)
  obtain now n where r: "r = (now, n)" by (cases r)
  show ?case
  proof (cases j)
    case 0
    then show ?thesis using Cons.prems by (auto simp: r gone_def let_go_snoc split: if_splits)
  next
    case (Suc j')
    show ?thesis
    proof (cases "flt threshold (f64_of_int (let_go (view now) before + uint n))")
      case True
      then show ?thesis using Cons.IH [of j' before] Cons.prems Suc by (simp add: r gone_def)
    next
      case False
      then show ?thesis using Cons.IH [of j' "before @ [(now, n)]"] Cons.prems Suc by (simp add: r gone_def)
    qed
  qed
qed simp

lemma new_arr_holds:
  assumes "NewBucketLeapArray t0 N P = Ret arr" and "NewSlidingWindowMetric n I (Some arr) = Ret m"
    and "unat t0 < 2 ^ 63" and "unat t0 \<le> T" and "unat I \<le> T"
  shows "arr_holds (unat (P div N)) (unat I div unat (P div N)) m T [] arr"
    and "unat I div unat (P div N) \<noteq> 0"
proof -
  have N: "N \<noteq> 0" "bla_SampleCount arr = N" "bla_IntervalInMs arr = P"
    using assms(1) by (auto simp: NewBucketLeapArray_def go_bind_Ret_iff bla_SampleCount_def bla_IntervalInMs_def
        Let_def split: if_splits)
  have v: "n \<noteq> 0" "I \<noteq> 0" "I mod n = 0" "P mod N = 0" "P \<noteq> 0" "(I div n) mod (P div N) = 0"
    using assms(2) N by (auto simp: NewSlidingWindowMetric_def CheckValidityForReuseStatistic_def Let_def split: if_splits)
  have In: "unat I = unat (I div n) * unat n" using v(3) by (rule unat_div_mult)
  then have "unat (I div n) \<noteq> 0" using v(2) by (metis mult_0 unat_eq_zero)
  moreover have "unat (P div N) dvd unat (I div n)" using v(6) by (simp add: unat_mod dvd_eq_mod_eq_0 flip: unat_eq_zero)
  ultimately have "unat (P div N) \<le> unat (I div n)" "unat (P div N) \<noteq> 0" by (auto intro: dvd_imp_le)
  moreover have "unat (I div n) \<le> unat I" using In v(1) by (cases "unat n") (auto simp: unat_eq_zero)
  ultimately show k: "unat I div unat (P div N) \<noteq> 0" by (simp add: div_eq_0_iff)
  show "arr_holds (unat (P div N)) (unat I div unat (P div N)) m T [] arr"
    unfolding arr_holds_def using assms k
    by (intro exI [of _ t0] exI [of _ N] exI [of _ P] exI [of _ n] exI [of _ I] exI [of _ arr] exI [of _ "[]"])
       (simp add: write_times_def reject_events_def List.map_filter_simps)
qed

text \<open>A controller with a new window: that of a new resource node, or an array of its own.\<close>

definition new_window ::
  "u64 \<Rightarrow> u32 \<Rightarrow> u32 \<Rightarrow> u32 \<Rightarrow> u32 \<Rightarrow> standalone_stat \<Rightarrow> flow_world \<Rightarrow> bool" where
  "new_window t0 N P n I st w \<longleftrightarrow> (\<exists>arr m. NewBucketLeapArray t0 N P = Ret arr \<and>
     NewSlidingWindowMetric n I (Some arr) = Ret m \<and>
     ((\<exists>i. readOnlyMetric st = Some (OwnView m i) \<and> writeOnlyMetric st = Some (OwnWrite i) \<and>
         i < length (own_arrs w) \<and> own_arrs w ! i = arr) \<or>
      (\<exists>p nd. readOnlyMetric st = Some (NodeMetric p) \<and> writeOnlyMetric st = Some (NodeWrite p) \<and>
         node_at p (flow_nodes w) = Some nd \<and> bsn_metric nd = Some m \<and> bsn_arr nd = arr)))"

text \<open>
  C20: A reject rule lets a request go exactly if it fits. Let a controller with a new window of \<open>I\<close>
  milliseconds check any requests, one after the other: a request passes if and only if the batch counts
  let go in the window at its time, with its own, do not exceed the threshold. So at no time the window
  has let go more than the threshold.
\<close>

theorem reject_admits_what_fits:
  fixes st threshold rule reqs w and t0 :: u64 and N P n I :: u32
  defines "oks \<equiv> map passes (fst (reject_calls st threshold rule reqs w))"
  defines "view \<equiv> in_view (unat (P div N)) (unat I div unat (P div N))"
  assumes "new_window t0 N P n I st w" and "unat t0 < 2 ^ 63" and "clocks_ok (max (unat t0) (unat I)) reqs"
    and "length reqs < 2 ^ 31"
  shows "oks = reject_spec view threshold [] reqs \<and>
    (\<forall>j. j < length reqs \<and> oks ! j \<longrightarrow>
       \<not> flt threshold (f64_of_int (let_go (view (fst (reqs ! j))) (gone (take (Suc j) reqs) oks))))"
proof -
  let ?L = "unat (P div N)" and ?T = "max (unat t0) (unat I)"
  let ?k = "unat I div ?L"
  obtain arr m where arr: "NewBucketLeapArray t0 N P = Ret arr" "NewSlidingWindowMetric n I (Some arr) = Ret m"
    and st: "(\<exists>i. readOnlyMetric st = Some (OwnView m i) \<and> writeOnlyMetric st = Some (OwnWrite i) \<and>
         i < length (own_arrs w) \<and> own_arrs w ! i = arr) \<or>
      (\<exists>p nd. readOnlyMetric st = Some (NodeMetric p) \<and> writeOnlyMetric st = Some (NodeWrite p) \<and>
         node_at p (flow_nodes w) = Some nd \<and> bsn_metric nd = Some m \<and> bsn_arr nd = arr)"
    using assms(3) by (auto simp: new_window_def)
  note h = new_arr_holds [OF arr assms(4), of ?T, simplified]
  have empty: "view_total Q [] = of_int (let_go Q [])" for Q by (simp add: view_total_def let_go_def)
  have "oks = reject_spec view threshold [] reqs"
    using st
  proof (elim disjE exE conjE)
    fix i
    assume s: "readOnlyMetric st = Some (OwnView m i)" "writeOnlyMetric st = Some (OwnWrite i)"
      and i: "i < length (own_arrs w)" "own_arrs w ! i = arr"
    have "own_holds ?L ?k m i ?T [] w" using h i by (simp add: own_holds_def)
    from own_window.run_spec [OF this assms(5) empty] assms(6) show ?thesis
      by (simp add: oks_def view_def reject_calls_run [OF s])
  next
    fix p nd
    assume s: "readOnlyMetric st = Some (NodeMetric p)" "writeOnlyMetric st = Some (NodeWrite p)"
      and nd: "node_at p (flow_nodes w) = Some nd" "bsn_metric nd = Some m" "bsn_arr nd = arr"
    have "node_holds ?L ?k p ?T [] w" using h nd by (simp add: node_holds_def)
    from node_window.run_spec [OF this assms(5) empty] assms(6) show ?thesis
      by (simp add: oks_def view_def reject_calls_run [OF s])
  qed
  moreover have "\<forall>now. view now now" using h(2) by (simp add: view_def in_view_def)
  ultimately show ?thesis using reject_spec_bound [of _ reqs view threshold "[]"] by auto
qed

text \<open>One bucket of a second with a threshold of 3: the second request does not fit, the window then moves.\<close>

theorem reject_admits_what_fits_witness:
  "\<forall>nodes rule. \<exists>st w. flow_nodes w = nodes \<and> map passes (fst (reject_calls st (Fin 3) rule [(5000, 2), (5100, 2), (5200, 1), (6500, 3)] w)) =
     [True, False, True, True]"
proof (intro allI)
  fix nodes rule
  have "\<exists>arr. NewBucketLeapArray 100 1 1000 = Ret arr \<and> bla_SampleCount arr = 1 \<and> bla_IntervalInMs arr = 1000"
    by (simp add: NewBucketLeapArray_def NewAtomicBucketWrapArrayWithTime_def bla_SampleCount_def
        bla_IntervalInMs_def Let_def split: prod.split)
  then obtain arr where arr: "NewBucketLeapArray 100 1 1000 = Ret arr" "bla_SampleCount arr = 1"
    "bla_IntervalInMs arr = 1000" by blast
  then obtain m where m: "NewSlidingWindowMetric 1 1000 (Some arr) = Ret m"
    by (auto simp: NewSlidingWindowMetric_def CheckValidityForReuseStatistic_def Let_def)
  let ?st = "\<lparr>reuseResourceStat = False, readOnlyMetric = Some (OwnView m 0), writeOnlyMetric = Some (OwnWrite 0)\<rparr>"
  let ?w = "\<lparr>flow_nodes = nodes, own_arrs = [arr]\<rparr>"
  have "new_window 100 1 1000 1 1000 ?st ?w" using arr(1) m by (simp add: new_window_def)
  note th = reject_admits_what_fits [OF this, of "[(5000, 2), (5100, 2), (5200, 1), (6500, 3)]" "Fin 3"]
  have "map passes (fst (reject_calls ?st (Fin 3) rule [(5000, 2), (5100, 2), (5200, 1), (6500, 3)] ?w)) =
     [True, False, True, True]"
    using th by (simp add: clock_after_def let_go_def in_view_def)
  then show "\<exists>st w. flow_nodes w = nodes \<and> map passes (fst (reject_calls st (Fin 3) rule
      [(5000, 2), (5100, 2), (5200, 1), (6500, 3)] w)) = [True, False, True, True]"
    by (intro exI [of _ ?st] exI [of _ ?w]) simp
qed

end
