(* ===== verification/FlowManager.thy ===== *)
theory FlowManager
  imports FlowControl Reuse
begin

text \<open>
  The rule manager of flow control, \<open>core/flow/rule_manager.go\<close>. A controller is an object that two maps
  share: a pointer is an index into \<open>fm_tcs\<close>. Loading rules may create resource nodes and arrays. Locks
  are not modelled: a call is one step, and it reads the clock once. The rules of one load are taken to
  be distinct objects.
\<close>

section \<open>State\<close>

record cluster_metric = base_stat_node +
  cm_maxQueueingTimeNs :: i64
  cm_statIntervalNs :: i64
  cm_lastPassedTime :: i64
  cm_lastSystemTime :: i64

definition NewClusterMetric :: "stat_config \<Rightarrow> u64 \<Rightarrow> u32 \<Rightarrow> u32 \<Rightarrow> i64 \<Rightarrow> i64 \<Rightarrow> cluster_metric go" where
  "NewClusterMetric cfg now sampleCount intervalInMs maxQueueingTimeNs statIntervalNs =
     go_bind (NewBaseStatNode cfg now sampleCount intervalInMs)
       (\<lambda>n. Ret (base_stat_node.extend n \<lparr>cm_maxQueueingTimeNs = maxQueueingTimeNs,
          cm_statIntervalNs = statIntervalNs, cm_lastPassedTime = 0, cm_lastSystemTime = 0\<rparr>))"

definition NewClusterMetricWithCheck :: "stat_config \<Rightarrow> u64 \<Rightarrow> u32 \<Rightarrow> u32 \<Rightarrow> cluster_metric go" where
  "NewClusterMetricWithCheck cfg now sampleCount intervalInMs =
     (if sampleCount \<le> 0 then Err ''sampleCount should be positive''
      else if intervalInMs \<le> 0 then Err ''interval should be positive''
      else if intervalInMs mod sampleCount \<noteq> 0 then Err ''time span needs to be evenly divided''
      else NewClusterMetric cfg now sampleCount intervalInMs 0 0)"

record flow_manager =
  fm_tcs :: "traffic_controller list"
  fm_tcMap :: "(string, nat list) gomap"
  fm_tcIdMap :: "(string, nat) gomap"
  fm_resClusterMap :: "(string, cluster_metric) gomap"
  fm_currentRules :: "(string, flow_rule option list) gomap"
  fm_world :: flow_world

definition flow_rulesFrom :: "flow_manager \<Rightarrow> flow_rule list" where
  "flow_rulesFrom m = concat (map (\<lambda>(res, ps). map (\<lambda>p. tc_rule (fm_tcs m ! p)) ps) (fm_tcMap m))"

definition flow_GetRules :: "flow_manager \<Rightarrow> flow_rule list" where
  "flow_GetRules m = flow_rulesFrom m"

definition flow_GetRulesOfResource :: "string \<Rightarrow> flow_manager \<Rightarrow> flow_rule list" where
  "flow_GetRulesOfResource res m = map (\<lambda>p. tc_rule (fm_tcs m ! p)) (mget_list (fm_tcMap m) res)"

definition getTrafficControllerListFor :: "string \<Rightarrow> flow_manager \<Rightarrow> nat list" where
  "getTrafficControllerListFor name m = mget_list (fm_tcMap m) name"

definition getTrafficControllerFor :: "string \<Rightarrow> flow_manager \<Rightarrow> nat option" where
  "getTrafficControllerFor i m = mget (fm_tcIdMap m) i"

definition getClusterMetric :: "string \<Rightarrow> flow_manager \<Rightarrow> cluster_metric option" where
  "getClusterMetric res m = mget (fm_resClusterMap m) res"

section \<open>The statistics of a rule\<close>

text \<open>How many buckets of the resource's array the interval of a rule takes.\<close>

definition flow_sampleCount :: "stat_config \<Rightarrow> u32 \<Rightarrow> u32 go" where
  "flow_sampleCount cfg intervalInMs =
     (if GlobalStatisticIntervalMsTotal cfg < intervalInMs then Ret 1
      else if GlobalStatisticSampleCountTotal cfg = 0 then Panic ''integer divide by zero''
      else
        let bucketLen = GlobalStatisticIntervalMsTotal cfg div GlobalStatisticSampleCountTotal cfg
        in if intervalInMs < bucketLen then Ret 1
           else if bucketLen = 0 then Panic ''integer divide by zero''
           else if intervalInMs mod bucketLen = 0 then Ret (intervalInMs div bucketLen)
           else Ret 1)"

definition generateStatFor ::
  "stat_config \<Rightarrow> u64 \<Rightarrow> flow_rule \<Rightarrow> flow_world \<Rightarrow> standalone_stat go \<times> flow_world" where
  "generateStatFor cfg now rule w =
     (if \<not> needStatistic rule then (Ret nopStat, w)
      else
        let intervalInMs = fr_StatIntervalInMs rule;
            (node, nodes) = GetOrCreateResourceNode cfg now
              (if fr_RelationStrategy rule = AssociatedResource then fr_RefResource rule else fr_Resource rule)
              ResTypeCommon (flow_nodes w);
            w = w\<lparr>flow_nodes := nodes\<rparr>
        in case node of
             Panic p \<Rightarrow> (Panic p, w) | Err e \<Rightarrow> (Err e, w)
           | Ret p \<Rightarrow>
               if intervalInMs = 0 \<or> intervalInMs = MetricStatisticIntervalMs cfg then
                 (Ret \<lparr>reuseResourceStat = True, readOnlyMetric = Some (NodeMetric p),
                       writeOnlyMetric = Some (NodeWrite p)\<rparr>, w)
               else (case flow_sampleCount cfg intervalInMs of
                   Panic q \<Rightarrow> (Panic q, w) | Err e \<Rightarrow> (Err e, w)
                 | Ret sampleCount \<Rightarrow>
                     (case CheckValidityForReuseStatistic sampleCount intervalInMs
                             (GlobalStatisticSampleCountTotal cfg) (GlobalStatisticIntervalMsTotal cfg) of
                        None \<Rightarrow>
                          (case node_at p (flow_nodes w) of
                             None \<Rightarrow> (Panic ''nil pointer dereference'', w)
                           | Some n \<Rightarrow>
                               (case GenerateReadStat sampleCount intervalInMs n of
                                  Ret sw \<Rightarrow> (Ret \<lparr>reuseResourceStat = True, readOnlyMetric = Some (NodeView p sw),
                                                  writeOnlyMetric = None\<rparr>, w)
                                | Err e \<Rightarrow> (Err e, w)
                                | Panic q \<Rightarrow> (Panic q, w)))
                      | Some GlobalStatisticNonReusableError \<Rightarrow>
                          (case NewBucketLeapArray now sampleCount intervalInMs of
                             Ret arr \<Rightarrow>
                               (case NewSlidingWindowMetric sampleCount intervalInMs (Some arr) of
                                  Ret sw \<Rightarrow>
                                    let i = length (own_arrs w)
                                    in (Ret \<lparr>reuseResourceStat = False, readOnlyMetric = Some (OwnView sw i),
                                             writeOnlyMetric = Some (OwnWrite i)\<rparr>,
                                        w\<lparr>own_arrs := own_arrs w @ [arr]\<rparr>)
                                | Err e \<Rightarrow> (Err (''fail to generate statistic for warm up rule'' @ e), w)
                                | Panic q \<Rightarrow> (Panic q, w))
                           | Err e \<Rightarrow> (Err e, w)
                           | Panic q \<Rightarrow> (Panic q, w))
                      | Some e \<Rightarrow> (Err (''fail to new standalone statistic because of invalid StatIntervalInMs in flow.Rule'' @ stat_error_msg e), w))))"

section \<open>Generators\<close>

text \<open>
  The generators of \<open>init\<close>. \<open>bound\<close> is the statistic of an old controller, taken over by those that
  need one. The rule comes back as the warm-up calculator leaves it.
\<close>

definition new_controller :: "calculator \<Rightarrow> checker \<Rightarrow> flow_rule \<Rightarrow> standalone_stat \<Rightarrow> traffic_controller" where
  "new_controller calc check rule st =
     \<lparr>tc_calculator = calc, tc_checker = check, tc_rule = rule, tc_boundStat = st, tc_DowngradeTimeInNsTo = 0\<rparr>"

definition tcGenFunc ::
  "conversions \<Rightarrow> stat_config \<Rightarrow> u64 \<Rightarrow> flow_rule \<Rightarrow> standalone_stat option \<Rightarrow> flow_world \<Rightarrow>
   traffic_controller go \<times> flow_world" where
  "tcGenFunc cv cfg now rule bound w =
     (let strategy = fr_TokenCalculateStrategy rule; throttling = (fr_ControlBehavior rule = Throttling);
          check = (if throttling
            then ThrottleChecker (NewThrottlingChecker (fr_MaxQueueingTimeMs rule) (fr_StatIntervalInMs rule))
            else RejectChecker);
          nop = (throttling \<and> strategy \<noteq> WarmUp);
          (st, w) = (if nop then (Ret nopStat, w)
            else case bound of Some st \<Rightarrow> (Ret st, w) | None \<Rightarrow> generateStatFor cfg now rule w)
      in (go_bind st (\<lambda>st.
            if strategy = Direct then Ret (new_controller (DirectCalc (fr_Threshold rule)) check rule st)
            else if strategy = WarmUp then
              let (c, rule) = NewWarmUpTrafficShapingCalculator cv rule
              in Ret (new_controller (WarmUpCalc c) check rule st)
            else Ret (new_controller (MemoryCalc (NewMemoryAdaptiveTrafficShapingCalculator rule)) check rule st)), w))"

text \<open>The keys of the generator map, without those a program adds.\<close>

definition tc_supported :: "flow_rule \<Rightarrow> bool" where
  "tc_supported rule \<longleftrightarrow> fr_TokenCalculateStrategy rule \<in> {Direct, WarmUp, MemoryAdaptive} \<and>
     fr_ControlBehavior rule \<in> {Reject, Throttling}"

section \<open>Building controllers\<close>

fun flow_reuse_loop ::
  "traffic_controller list \<Rightarrow> flow_rule \<Rightarrow> nat \<Rightarrow> int \<Rightarrow> nat list \<Rightarrow> (int \<times> int) go" where
  "flow_reuse_loop tcs r idx reuseStatIdx [] = Ret (- 1, reuseStatIdx)"
| "flow_reuse_loop tcs r idx reuseStatIdx (p # ps) =
     go_bind (flow_isEqualsTo (tc_rule (tcs ! p)) (Some r)) (\<lambda>eq.
       if eq then Ret (int idx, reuseStatIdx)
       else flow_reuse_loop tcs r (Suc idx)
         (if flow_isStatReusable (tc_rule (tcs ! p)) (Some r) \<and> reuseStatIdx < 0 then int idx else reuseStatIdx) ps)"

definition flow_calculateReuseIndexFor :: "traffic_controller list \<Rightarrow> flow_rule \<Rightarrow> nat list \<Rightarrow> (int \<times> int) go" where
  "flow_calculateReuseIndexFor tcs r oldResTcs = flow_reuse_loop tcs r 0 (- 1) oldResTcs"

text \<open>The state of the loop: the old controllers left, the new ones, all objects, and the rules as they are now.\<close>

record build_state =
  bs_old :: "nat list"
  bs_new :: "nat list"
  bs_tcs :: "traffic_controller list"
  bs_rules :: "flow_rule list"
  bs_world :: flow_world

definition build_controller :: "conversions \<Rightarrow> stat_config \<Rightarrow> u64 \<Rightarrow> string \<Rightarrow> flow_rule \<Rightarrow> build_state \<Rightarrow> unit go \<times> build_state" where
  "build_controller cv cfg now res rule b =
     (let skip = b\<lparr>bs_rules := bs_rules b @ [rule]\<rparr>
      in if res \<noteq> fr_Resource rule then (Ret (), skip)
      else case flow_calculateReuseIndexFor (bs_tcs b) rule (bs_old b) of
          Err e \<Rightarrow> (Err e, skip)
        | Panic p \<Rightarrow> (Panic p, skip)
        | Ret (equalIdx, reuseStatIdx) \<Rightarrow>
            if 0 \<le> equalIdx then
              (Ret (), skip\<lparr>bs_new := bs_new b @ [bs_old b ! nat equalIdx], bs_old := remove_nth (nat equalIdx) (bs_old b)\<rparr>)
            else if \<not> tc_supported rule then (Ret (), skip)
            else
              let bound = (if 0 \<le> reuseStatIdx then Some (tc_boundStat (bs_tcs b ! (bs_old b ! nat reuseStatIdx))) else None);
                  (tc, w) = tcGenFunc cv cfg now rule bound (bs_world b);
                  b = b\<lparr>bs_world := w\<rparr>
              in case tc of
                   Panic p \<Rightarrow> (Panic p, b\<lparr>bs_rules := bs_rules b @ [rule]\<rparr>)
                 | Err e \<Rightarrow> (Ret (), b\<lparr>bs_rules := bs_rules b @ [rule]\<rparr>)
                 | Ret tc \<Rightarrow>
                     (Ret (), b\<lparr>bs_old := (if 0 \<le> reuseStatIdx then remove_nth (nat reuseStatIdx) (bs_old b) else bs_old b),
                                bs_new := bs_new b @ [length (bs_tcs b)], bs_tcs := bs_tcs b @ [tc],
                                bs_rules := bs_rules b @ [tc_rule tc]\<rparr>))"

fun build_controllers :: "conversions \<Rightarrow> stat_config \<Rightarrow> u64 \<Rightarrow> string \<Rightarrow> flow_rule list \<Rightarrow> build_state \<Rightarrow> unit go \<times> build_state" where
  "build_controllers cv cfg now res [] b = (Ret (), b)"
| "build_controllers cv cfg now res (rule # rules) b =
     (case build_controller cv cfg now res rule b of
        (Ret _, b) \<Rightarrow> build_controllers cv cfg now res rules b
      | (e, b) \<Rightarrow> (e, b))"

definition buildResourceTrafficShapingController ::
  "conversions \<Rightarrow> stat_config \<Rightarrow> u64 \<Rightarrow> string \<Rightarrow> flow_rule list \<Rightarrow> nat list \<Rightarrow> traffic_controller list \<Rightarrow> flow_world \<Rightarrow>
   unit go \<times> build_state" where
  "buildResourceTrafficShapingController cv cfg now res rulesOfRes oldResTcs tcs w =
     build_controllers cv cfg now res rulesOfRes
       \<lparr>bs_old = oldResTcs, bs_new = [], bs_tcs = tcs, bs_rules = [], bs_world = w\<rparr>"

section \<open>Loading rules\<close>

definition flow_valid_rules :: "u64 \<Rightarrow> flow_rule option list \<Rightarrow> flow_rule list" where
  "flow_valid_rules mem rules = List.map_filter (\<lambda>r. if flow_IsValidRule mem r = None then r else None) rules"

text \<open>The loaded rules as the generators left them: the valid ones are replaced, in order.\<close>

fun put_rules_back :: "u64 \<Rightarrow> flow_rule option list \<Rightarrow> flow_rule list \<Rightarrow> flow_rule option list" where
  "put_rules_back mem [] vs = []"
| "put_rules_back mem (r # rs) vs =
     (if flow_IsValidRule mem r = None then
        (case vs of v # vs \<Rightarrow> Some v # put_rules_back mem rs vs | [] \<Rightarrow> r # put_rules_back mem rs [])
      else r # put_rules_back mem rs vs)"

definition flow_valid_map :: "u64 \<Rightarrow> (string, flow_rule option list) gomap \<Rightarrow> (string, flow_rule list) gomap" where
  "flow_valid_map mem raw = filter (\<lambda>(res, rs). rs \<noteq> []) (map (\<lambda>(res, rs). (res, flow_valid_rules mem rs)) raw)"

text \<open>The cluster statistics of a controller's rule.\<close>

definition cluster_metric_for ::
  "stat_config \<Rightarrow> u64 \<Rightarrow> flow_rule \<Rightarrow> (string, cluster_metric) gomap \<Rightarrow> (string, cluster_metric) gomap go" where
  "cluster_metric_for cfg now rule rClusterMap =
     (if \<not> isClusterMode rule then Ret rClusterMap
      else
        let statIntervalNs = (if fr_StatIntervalInMs rule = 0 then 1000 * MillisToNanosOffset
              else ucast (fr_StatIntervalInMs rule) * MillisToNanosOffset);
            maxQueueingTimeNs = ucast (fr_MaxQueueingTimeMs rule) * MillisToNanosOffset;
            key = (if fr_RelationStrategy rule = AssociatedResource then fr_RefResource rule else fr_Resource rule);
            fresh = go_bind (NewClusterMetric cfg now (MetricStatisticSampleCount cfg) (MetricStatisticIntervalMs cfg)
                      maxQueueingTimeNs statIntervalNs) (\<lambda>cm. Ret (mput key cm rClusterMap))
        in case mget rClusterMap key of
             Some old \<Rightarrow>
               if maxQueueingTimeNs <s cm_maxQueueingTimeNs old \<or> cm_statIntervalNs old \<noteq> statIntervalNs then fresh
               else Ret rClusterMap
           | None \<Rightarrow> fresh)"

record flow_load =
  ls_tcMap :: "(string, nat list) gomap"
  ls_tcIdMap :: "(string, nat) gomap"
  ls_clusterMap :: "(string, cluster_metric) gomap"
  ls_rules :: "(string, flow_rule list) gomap"
  ls_tcs :: "traffic_controller list"
  ls_world :: flow_world

fun index_controllers :: "stat_config \<Rightarrow> u64 \<Rightarrow> nat list \<Rightarrow> flow_load \<Rightarrow> unit go \<times> flow_load" where
  "index_controllers cfg now [] l = (Ret (), l)"
| "index_controllers cfg now (p # ps) l =
     (let rule = tc_rule (ls_tcs l ! p); l = l\<lparr>ls_tcIdMap := mput (fr_ID rule) p (ls_tcIdMap l)\<rparr>
      in case cluster_metric_for cfg now rule (ls_clusterMap l) of
           Ret cm \<Rightarrow> index_controllers cfg now ps (l\<lparr>ls_clusterMap := cm\<rparr>)
         | Err e \<Rightarrow> (Err e, l)
         | Panic q \<Rightarrow> (Panic q, l))"

fun load_resources ::
  "conversions \<Rightarrow> stat_config \<Rightarrow> u64 \<Rightarrow> (string, nat list) gomap \<Rightarrow> (string \<times> flow_rule list) list \<Rightarrow> flow_load \<Rightarrow>
   unit go \<times> flow_load" where
  "load_resources cv cfg now clone [] l = (Ret (), l)"
| "load_resources cv cfg now clone ((res, rules) # rest) l =
     (case buildResourceTrafficShapingController cv cfg now res rules (mget_list clone res) (ls_tcs l) (ls_world l) of
        (Ret _, b) \<Rightarrow>
          let l = l\<lparr>ls_tcs := bs_tcs b, ls_world := bs_world b, ls_rules := mput res (bs_rules b) (ls_rules l)\<rparr>;
              (r, l) = (if bs_new b = [] then (Ret (), l)
                else index_controllers cfg now (bs_new b) (l\<lparr>ls_tcMap := mput res (bs_new b) (ls_tcMap l)\<rparr>))
          in (case r of Ret _ \<Rightarrow> load_resources cv cfg now clone rest l | e \<Rightarrow> (e, l))
      | (e, b) \<Rightarrow> (e, l\<lparr>ls_tcs := bs_tcs b, ls_world := bs_world b\<rparr>))"

text \<open>The result is the error of the load; a recovered panic is one, and leaves the maps as they were.\<close>

definition flow_onRuleUpdate ::
  "conversions \<Rightarrow> stat_config \<Rightarrow> u64 \<Rightarrow> u64 \<Rightarrow> (string, flow_rule option list) gomap \<Rightarrow> flow_manager \<Rightarrow>
   string option \<times> flow_manager" where
  "flow_onRuleUpdate cv cfg mem now raw m =
     (let valid = flow_valid_map mem raw;
          (r, l) = load_resources cv cfg now (fm_tcMap m) valid
            \<lparr>ls_tcMap = [], ls_tcIdMap = [], ls_clusterMap = [], ls_rules = [], ls_tcs = fm_tcs m, ls_world = fm_world m\<rparr>;
          m = m\<lparr>fm_tcs := ls_tcs l, fm_world := ls_world l\<rparr>
      in case r of
           Ret _ \<Rightarrow> (None, m\<lparr>fm_tcMap := ls_tcMap l, fm_tcIdMap := ls_tcIdMap l, fm_resClusterMap := ls_clusterMap l,
               fm_currentRules := map (\<lambda>(res, rs). (res, put_rules_back mem rs (mget_list (ls_rules l) res))) raw\<rparr>)
         | Err e \<Rightarrow> (Some e, m)
         | Panic p \<Rightarrow> (Some p, m))"

fun flow_group :: "flow_rule option list \<Rightarrow> (string, flow_rule option list) gomap \<Rightarrow> (string, flow_rule option list) gomap go" where
  "flow_group [] m = Ret m"
| "flow_group (None # rs) m = Panic ''nil pointer dereference''"
| "flow_group (Some r # rs) m = flow_group rs (mput (fr_Resource r) (mget_list m (fr_Resource r) @ [Some r]) m)"

definition flow_LoadRules ::
  "conversions \<Rightarrow> stat_config \<Rightarrow> u64 \<Rightarrow> u64 \<Rightarrow> flow_rule option list \<Rightarrow> flow_manager \<Rightarrow>
   (bool \<times> string option) go \<times> flow_manager" where
  "flow_LoadRules cv cfg mem now rules m =
     (case flow_group rules [] of
        Ret resRulesMap \<Rightarrow>
          if meq (fm_currentRules m) resRulesMap then (Ret (False, None), m)
          else let (err, m) = flow_onRuleUpdate cv cfg mem now resRulesMap m in (Ret (True, err), m)
      | Err e \<Rightarrow> (Err e, m)
      | Panic p \<Rightarrow> (Panic p, m))"

definition flow_ClearRules ::
  "conversions \<Rightarrow> stat_config \<Rightarrow> u64 \<Rightarrow> u64 \<Rightarrow> flow_manager \<Rightarrow> (bool \<times> string option) go \<times> flow_manager" where
  "flow_ClearRules cv cfg mem now m = flow_LoadRules cv cfg mem now [] m"

text \<open>Removing the controllers of a resource from the map by id.\<close>

definition drop_ids :: "string \<Rightarrow> traffic_controller list \<Rightarrow> (string, nat) gomap \<Rightarrow> (string, nat) gomap" where
  "drop_ids res tcs ids = filter (\<lambda>(k, p). fr_Resource (tc_rule (tcs ! p)) \<noteq> res) ids"

definition flow_onResourceRuleUpdate ::
  "conversions \<Rightarrow> stat_config \<Rightarrow> u64 \<Rightarrow> u64 \<Rightarrow> string \<Rightarrow> flow_rule option list \<Rightarrow> flow_manager \<Rightarrow>
   string option \<times> flow_manager" where
  "flow_onResourceRuleUpdate cv cfg mem now res rawResRules m =
     (let validResRules = flow_valid_rules mem rawResRules;
          (r, b) = buildResourceTrafficShapingController cv cfg now res validResRules (mget_list (fm_tcMap m) res)
            (fm_tcs m) (fm_world m);
          m = m\<lparr>fm_tcs := bs_tcs b, fm_world := bs_world b\<rparr>
      in case r of
           Ret _ \<Rightarrow>
             let m = (if bs_new b = []
                   then m\<lparr>fm_tcMap := mdel res (fm_tcMap m), fm_tcIdMap := drop_ids res (fm_tcs m) (fm_tcIdMap m)\<rparr>
                   else m\<lparr>fm_tcMap := mput res (bs_new b) (fm_tcMap m),
                     fm_tcIdMap := foldl (\<lambda>ids p. mput (fr_ID (tc_rule (fm_tcs m ! p))) p ids) (fm_tcIdMap m) (bs_new b)\<rparr>)
             in (None, m\<lparr>fm_currentRules := mput res (put_rules_back mem rawResRules (bs_rules b)) (fm_currentRules m)\<rparr>)
         | Err e \<Rightarrow> (Some e, m)
         | Panic p \<Rightarrow> (Some p, m))"

definition flow_LoadRulesOfResource ::
  "conversions \<Rightarrow> stat_config \<Rightarrow> u64 \<Rightarrow> u64 \<Rightarrow> string \<Rightarrow> flow_rule option list \<Rightarrow> flow_manager \<Rightarrow>
   (bool \<times> string option) \<times> flow_manager" where
  "flow_LoadRulesOfResource cv cfg mem now res rules m =
     (if res = [] then ((False, Some ''empty resource''), m)
      else if rules = [] then
        ((True, None), m\<lparr>fm_currentRules := mdel res (fm_currentRules m), fm_tcMap := mdel res (fm_tcMap m),
                         fm_tcIdMap := drop_ids res (fm_tcs m) (fm_tcIdMap m)\<rparr>)
      else if mget_list (fm_currentRules m) res = rules then ((False, None), m)
      else let (err, m) = flow_onResourceRuleUpdate cv cfg mem now res rules m in ((True, err), m))"

definition flow_ClearRulesOfResource ::
  "conversions \<Rightarrow> stat_config \<Rightarrow> u64 \<Rightarrow> u64 \<Rightarrow> string \<Rightarrow> flow_manager \<Rightarrow> (bool \<times> string option) \<times> flow_manager" where
  "flow_ClearRulesOfResource cv cfg mem now res m = flow_LoadRulesOfResource cv cfg mem now res [] m"

end
