(* ===== verification/FlowSlot.thy ===== *)
theory FlowSlot
  imports FlowManager Context
begin

text \<open>
  The check slot of flow control (\<open>core/flow/slot.go\<close>) with the cluster mode it falls back from: the
  limiter of requests to the token server (\<open>request_limiter.go\<close>, \<open>global_request_limiter.go\<close>), the client
  (\<open>cluster_token_client.go\<close>), the server side (\<open>default_token_service.go\<close>, \<open>cluster_flow_checker.go\<close>)
  and the slot that counts passes in a controller's own array (\<open>standalone_stat_slot.go\<close>). Outside the
  model are the HTTP call, the Redis token service and the JSON encoding of rules: they are arguments.
\<close>

section \<open>Request limiters\<close>

record request_limiter = base_stat_node +
  rl_qpsAllowed :: f64

definition NewRequestLimiter :: "stat_config \<Rightarrow> u64 \<Rightarrow> f64 \<Rightarrow> request_limiter go" where
  "NewRequestLimiter cfg now qpsAllowed =
     go_bind (NewBaseStatNode cfg now (MetricStatisticSampleCount cfg) (MetricStatisticIntervalMs cfg))
       (\<lambda>n. Ret (base_stat_node.extend n \<lparr>rl_qpsAllowed = qpsAllowed\<rparr>))"

definition rl_Add :: "u64 \<Rightarrow> i64 \<Rightarrow> request_limiter \<Rightarrow> request_limiter" where
  "rl_Add now x r = node_AddCount now MetricEventPass x r"

definition rl_GetQps :: "u64 \<Rightarrow> request_limiter \<Rightarrow> f64 go" where
  "rl_GetQps now r = node_GetQPS now MetricEventPass r"

definition rl_CanPass :: "u64 \<Rightarrow> request_limiter \<Rightarrow> bool go" where
  "rl_CanPass now r = go_bind (node_GetQPS now MetricEventPass r) (\<lambda>q. Ret (fle (fadd q (Fin 1)) (rl_qpsAllowed r)))"

definition rl_TryPass :: "u64 \<Rightarrow> u64 \<Rightarrow> request_limiter \<Rightarrow> bool go \<times> request_limiter" where
  "rl_TryPass now now' r =
     (case rl_CanPass now r of
        Ret True \<Rightarrow> (Ret True, rl_Add now' 1 r)
      | Ret False \<Rightarrow> (Ret False, r)
      | Err e \<Rightarrow> (Err e, r)
      | Panic p \<Rightarrow> (Panic p, r))"

type_synonym limiter_map = "(string, request_limiter) gomap"

text \<open>\<open>strings.TrimSpace(s) == ""\<close> on ASCII strings.\<close>

definition is_blank :: "string \<Rightarrow> bool" where
  "is_blank s \<longleftrightarrow> (\<forall>c \<in> set s. (of_char c :: nat) \<in> {9, 10, 11, 12, 13, 32})"

definition GlobalInitIfAbsent ::
  "stat_config \<Rightarrow> u64 \<Rightarrow> f64 \<Rightarrow> string \<Rightarrow> limiter_map \<Rightarrow> unit go \<times> limiter_map" where
  "GlobalInitIfAbsent cfg now maxAllowQps namespace m =
     (if is_blank namespace then (Err ''namespace cannot be empty'', m)
      else case NewRequestLimiter cfg now maxAllowQps of
          Ret r \<Rightarrow> (Ret (), mput namespace r m)
        | Err e \<Rightarrow> (Err e, m)
        | Panic p \<Rightarrow> (Panic p, m))"

text \<open>
  \<open>GetGlobalRequestLimiter\<close> and \<open>GetClientRequestLimiter\<close> differ in the rate \<open>qps\<close> of a limiter they make; both
  use the one map. The result tells whether there is a limiter for the name.
\<close>

definition get_request_limiter ::
  "stat_config \<Rightarrow> u64 \<Rightarrow> f64 \<Rightarrow> string \<Rightarrow> limiter_map \<Rightarrow> bool go \<times> limiter_map" where
  "get_request_limiter cfg now qps namespace m =
     (if is_blank namespace then (Ret False, m)
      else case mget m namespace of
          Some _ \<Rightarrow> (Ret True, m)
        | None \<Rightarrow>
            (case NewRequestLimiter cfg now qps of
               Ret r \<Rightarrow> (Ret True, mput namespace r m)
             | Err e \<Rightarrow> (Err e, m)
             | Panic p \<Rightarrow> (Panic p, m)))"

definition limiter_TryPass ::
  "stat_config \<Rightarrow> (nat \<Rightarrow> u64) \<Rightarrow> f64 \<Rightarrow> string \<Rightarrow> limiter_map \<Rightarrow> bool go \<times> limiter_map" where
  "limiter_TryPass cfg t qps namespace m =
     (case get_request_limiter cfg (t 0) qps namespace m of
        (Ret False, m) \<Rightarrow> (Ret True, m)
      | (Ret True, m) \<Rightarrow>
          (case mget m namespace of
             None \<Rightarrow> (Panic ''nil pointer dereference'', m)
           | Some r \<Rightarrow> let (b, r) = rl_TryPass (t 1) (t 2) r in (b, mput namespace r m))
      | (e, m) \<Rightarrow> (e, m))"

definition limiter_read ::
  "(request_limiter \<Rightarrow> f64 go) \<Rightarrow> stat_config \<Rightarrow> u64 \<Rightarrow> f64 \<Rightarrow> string \<Rightarrow> limiter_map \<Rightarrow> f64 go \<times> limiter_map" where
  "limiter_read f cfg now qps namespace m =
     (case get_request_limiter cfg now qps namespace m of
        (Ret False, m) \<Rightarrow> (Ret (Fin 0), m)
      | (Ret True, m) \<Rightarrow>
          ((case mget m namespace of None \<Rightarrow> Panic ''nil pointer dereference'' | Some r \<Rightarrow> f r), m)
      | (Err e, m) \<Rightarrow> (Err e, m)
      | (Panic p, m) \<Rightarrow> (Panic p, m))"

definition GetGlobalCurrentQps ::
  "stat_config \<Rightarrow> u64 \<Rightarrow> u64 \<Rightarrow> f64 \<Rightarrow> string \<Rightarrow> limiter_map \<Rightarrow> f64 go \<times> limiter_map" where
  "GetGlobalCurrentQps cfg now now' qps = limiter_read (rl_GetQps now') cfg now qps"

definition GetGlobalMaxAllowedQps :: "stat_config \<Rightarrow> u64 \<Rightarrow> f64 \<Rightarrow> string \<Rightarrow> limiter_map \<Rightarrow> f64 go \<times> limiter_map" where
  "GetGlobalMaxAllowedQps cfg now qps = limiter_read (\<lambda>r. Ret (rl_qpsAllowed r)) cfg now qps"

definition ApplyGlobalMaxQpsChange :: "f64 \<Rightarrow> limiter_map \<Rightarrow> string option \<times> limiter_map" where
  "ApplyGlobalMaxQpsChange maxAllowedQps m =
     (if fle maxAllowedQps (Fin 0) then (Some ''max allowed QPS should > 0'', m)
      else (None, map (\<lambda>(k, r). (k, r\<lparr>rl_qpsAllowed := maxAllowedQps\<rparr>)) m))"

section \<open>The token server\<close>

definition tok :: "i64 \<Rightarrow> i64 \<Rightarrow> tok_result" where
  "tok status waitInMs = empty_tok_result\<lparr>tk_Status := status, tk_WaitInMs := waitInMs\<rparr>"

definition TokResultStatusBadRequest :: i64 where "TokResultStatusBadRequest = - 4"
definition TokResultStatusTooManyRequest :: i64 where "TokResultStatusTooManyRequest = - 2"
definition TokResultStatusFail :: i64 where "TokResultStatusFail = - 1"
definition TokResultStatusOk :: i64 where "TokResultStatusOk = 0"
definition TokResultStatusBlocked :: i64 where "TokResultStatusBlocked = 1"
definition TokResultStatusShouldWait :: i64 where "TokResultStatusShouldWait = 2"
definition TokResultStatusNoRuleExists :: i64 where "TokResultStatusNoRuleExists = 3"

lemmas tok_status_defs = TokResultStatusBadRequest_def TokResultStatusTooManyRequest_def TokResultStatusFail_def
  TokResultStatusOk_def TokResultStatusBlocked_def TokResultStatusShouldWait_def TokResultStatusNoRuleExists_def

definition calcGlobalThreshold :: "flow_rule \<Rightarrow> f64 go" where
  "calcGlobalThreshold rule =
     (case fr_ClusterConfig rule of
        None \<Rightarrow> Panic ''nil pointer dereference''
      | Some c \<Rightarrow> Ret (if cc_ClusterStrategy c = ThresholdGlobal then cc_GlobalThreshold c else fr_Threshold rule))"

text \<open>\<open>t i\<close>: the readings of the clock by the counts of one call.\<close>

definition cm_count ::
  "(nat \<Rightarrow> u64) \<Rightarrow> metric_event \<Rightarrow> metric_event \<Rightarrow> u32 \<Rightarrow> cluster_metric \<Rightarrow> cluster_metric" where
  "cm_count t tokens requests acquireCount cm =
     node_AddCount (t 1) requests 1 (node_AddCount (t 0) tokens (ucast acquireCount) cm)"

definition cm_pass :: "(nat \<Rightarrow> u64) \<Rightarrow> u32 \<Rightarrow> cluster_metric \<Rightarrow> cluster_metric" where
  "cm_pass t = cm_count t MetricEventPass MetricEventPassRequest"

definition cm_block :: "(nat \<Rightarrow> u64) \<Rightarrow> u32 \<Rightarrow> cluster_metric \<Rightarrow> cluster_metric" where
  "cm_block t = cm_count t MetricEventBlock MetricEventBlockRequest"

text \<open>The throttling of the token server: a nil result when the clock went back by more than a second.\<close>

definition priorityHandle ::
  "(f64 \<Rightarrow> i64) \<Rightarrow> (nat \<Rightarrow> u64) \<Rightarrow> i64 \<Rightarrow> u32 \<Rightarrow> f64 \<Rightarrow> cluster_metric \<Rightarrow> tok_result option \<times> cluster_metric" where
  "priorityHandle oor t curNano acquireCount globalThreshold cm =
     (let intervalNs = throttle_interval oor acquireCount globalThreshold (cm_statIntervalNs cm);
          loadedLastPassedTime = cm_lastPassedTime cm
      in if curNano + 1000000000 <s cm_lastSystemTime cm then (None, cm\<lparr>cm_lastPassedTime := curNano\<rparr>)
         else if loadedLastPassedTime + intervalNs \<le>s curNano then
           (Some (tok TokResultStatusOk 0), cm_pass t acquireCount (cm\<lparr>cm_lastPassedTime := curNano\<rparr>))
         else if cm_maxQueueingTimeNs cm <s cm_lastPassedTime cm + intervalNs - curNano then
           (Some (tok TokResultStatusBlocked 0), cm_block t acquireCount cm)
         else
           let cm = cm\<lparr>cm_lastPassedTime := cm_lastPassedTime cm + intervalNs\<rparr>;
               estimatedQueueingDuration = cm_lastPassedTime cm - curNano
           in if cm_maxQueueingTimeNs cm <s estimatedQueueingDuration then
                (Some (tok TokResultStatusBlocked 0),
                 cm_block t acquireCount (cm\<lparr>cm_lastPassedTime := cm_lastPassedTime cm - intervalNs\<rparr>))
              else if 0 <s estimatedQueueingDuration then
                (Some (tok TokResultStatusShouldWait (i64_quot estimatedQueueingDuration MillisToNanosOffset)),
                 cm_pass t acquireCount cm)
              else (Some (tok TokResultStatusOk 0), cm_pass t acquireCount cm))"

section \<open>State and surroundings\<close>

record flow_state =
  fs_manager :: flow_manager
  fs_limiters :: limiter_map

record flow_conf =
  fc_conversions :: conversions
  fc_stat :: stat_config
  fc_Namespace :: string
  fc_ClientNamespace :: string
  fc_MaxAllowQps :: f64
  fc_ClientMaxAllowQps :: f64
  fc_ip :: string
  fc_port :: string
  fc_json :: "flow_rule \<Rightarrow> flow_rule option"
  fc_send :: "string \<Rightarrow> i32 \<Rightarrow> flow_rule \<Rightarrow> u32 \<Rightarrow> i32 \<Rightarrow> tok_result go"
  fc_redis :: "flow_rule \<Rightarrow> u32 \<Rightarrow> i32 \<Rightarrow> tok_result option"

text \<open>The further readings of the clock in cluster mode.\<close>

record cluster_env = flow_env +
  ce_nano :: i64
  ce_client :: "nat \<Rightarrow> u64"
  ce_server :: "nat \<Rightarrow> u64"
  ce_avg :: u64
  ce_count :: "nat \<Rightarrow> u64"
  ce_prio_nano :: i64

definition acquireClusterToken ::
  "flow_conf \<Rightarrow> cluster_env \<Rightarrow> flow_rule \<Rightarrow> u32 \<Rightarrow> i32 \<Rightarrow> flow_state \<Rightarrow> tok_result option go \<times> flow_state" where
  "acquireClusterToken cf env rule acquireCount prioritized s =
     (case limiter_TryPass (fc_stat cf) (ce_server env) (fc_MaxAllowQps cf) (fc_Namespace cf) (fs_limiters s) of
        (Err e, ls) \<Rightarrow> (Err e, s\<lparr>fs_limiters := ls\<rparr>)
      | (Panic p, ls) \<Rightarrow> (Panic p, s\<lparr>fs_limiters := ls\<rparr>)
      | (Ret allowed, ls) \<Rightarrow>
          let s = s\<lparr>fs_limiters := ls\<rparr>;
              res = (if fr_RelationStrategy rule = AssociatedResource then fr_RefResource rule else fr_Resource rule);
              put = (\<lambda>cm. s\<lparr>fs_manager := (fs_manager s)\<lparr>fm_resClusterMap := mput res cm (fm_resClusterMap (fs_manager s))\<rparr>\<rparr>)
          in if \<not> allowed then (Ret (Some (tok TokResultStatusTooManyRequest 0)), s)
             else (case getClusterMetric res (fs_manager s) of
                 None \<Rightarrow> (Ret (Some (tok TokResultStatusTooManyRequest 0)), s)
               | Some cm \<Rightarrow>
                   (case go_bind (node_GetAvg (ce_avg env) MetricEventPass cm) (\<lambda>latestQps.
                          go_bind (calcGlobalThreshold rule) (\<lambda>globalThreshold. Ret (latestQps, globalThreshold))) of
                      Err e \<Rightarrow> (Err e, s)
                    | Panic p \<Rightarrow> (Panic p, s)
                    | Ret (latestQps, globalThreshold) \<Rightarrow>
                        let nextRemaining = fsub (fsub globalThreshold latestQps) (f64_of_int (uint acquireCount))
                        in if 0 <s prioritized then
                             let (r, cm) = priorityHandle (to_i64_oor (fc_conversions cf)) (ce_count env) (ce_prio_nano env)
                                   acquireCount globalThreshold cm
                             in (Ret r, put cm)
                           else if fle (Fin 0) nextRemaining then
                             (Ret (Some (tok TokResultStatusOk 0)), put (cm_pass (ce_count env) acquireCount cm))
                           else
                             (Ret (Some (tok TokResultStatusBlocked 0)), put (cm_block (ce_count env) acquireCount cm)))))"

text \<open>\<open>DefaultTokenService.RequestToken\<close>, which gets the rule as JSON.\<close>

definition service_RequestToken ::
  "flow_conf \<Rightarrow> cluster_env \<Rightarrow> flow_rule \<Rightarrow> u32 \<Rightarrow> i32 \<Rightarrow> flow_state \<Rightarrow> tok_result option go \<times> flow_state" where
  "service_RequestToken cf env rule acquireCount prioritized s =
     (case fc_json cf rule of
        None \<Rightarrow> (Ret (Some (tok TokResultStatusBadRequest 0)), s)
      | Some ru \<Rightarrow> acquireClusterToken cf env ru acquireCount prioritized s)"

definition client_RequestToken ::
  "flow_conf \<Rightarrow> cluster_env \<Rightarrow> string \<Rightarrow> i32 \<Rightarrow> string \<Rightarrow> u32 \<Rightarrow> i32 \<Rightarrow> flow_state \<Rightarrow> tok_result option go \<times> flow_state" where
  "client_RequestToken cf env ip port ruleId acquireCount prioritized s =
     (if ruleId = [] \<or> acquireCount \<le> 0 then (Ret (Some (tok TokResultStatusBadRequest 0)), s)
      else case getTrafficControllerFor ruleId (fs_manager s) of
          None \<Rightarrow> (Ret (Some (tok TokResultStatusNoRuleExists 0)), s)
        | Some p \<Rightarrow>
            let rule = tc_rule (fm_tcs (fs_manager s) ! p)
            in if ip = fc_ip cf \<and> FormatInt (sint port) = fc_port cf
               then service_RequestToken cf env rule acquireCount prioritized s
               else (case fc_send cf ip port rule acquireCount prioritized of
                   Ret r \<Rightarrow> (Ret (Some r), s)
                 | Err e \<Rightarrow> (Ret (Some (tok TokResultStatusFail 0)), s)
                 | Panic q \<Rightarrow> (Panic q, s)))"

section \<open>The check of one controller\<close>

text \<open>A check may let the caller sleep: the waits, in nanoseconds, come with the result.\<close>

type_synonym flow_check = "flow_result go \<times> i64 list \<times> flow_state"

definition on_manager :: "(flow_manager \<Rightarrow> flow_manager) \<Rightarrow> flow_state \<Rightarrow> flow_state" where
  "on_manager f s = s\<lparr>fs_manager := f (fs_manager s)\<rparr>"

definition selectNodeByRelStrategy :: "flow_rule \<Rightarrow> stat_ptr option \<Rightarrow> flow_world \<Rightarrow> stat_ptr option" where
  "selectNodeByRelStrategy rule node w =
     (if fr_RelationStrategy rule = AssociatedResource
      then map_option (\<lambda>_. ResNode (fr_RefResource rule)) (GetResourceNode (fr_RefResource rule) (flow_nodes w))
      else node)"

text \<open>
  \<open>stat.GetResourceNode\<close> of a missing resource is a nil pointer in a non-nil interface: the test for nil
  misses it, so an associated rule is checked in any case; no checker looks at that argument.
\<close>

definition checkInLocal ::
  "flow_conf \<Rightarrow> cluster_env \<Rightarrow> nat \<Rightarrow> stat_ptr option \<Rightarrow> u32 \<Rightarrow> flow_state \<Rightarrow> flow_check" where
  "checkInLocal cf env p resStat batchCount s =
     (let m = fs_manager s; tc = fm_tcs m ! p;
          actual = selectNodeByRelStrategy (tc_rule tc) resStat (fm_world m)
      in if actual = None \<and> fr_RelationStrategy (tc_rule tc) \<noteq> AssociatedResource
         then (Ret (Some NewTokenResultPass), [], s)
         else
           let (r, tc, w) = PerformChecking (fc_conversions cf) (flow_env.truncate env) batchCount tc (fm_world m)
           in (r, [], on_manager (\<lambda>m. m\<lparr>fm_tcs := (fm_tcs m)[p := tc], fm_world := w\<rparr>) s))"

definition fallbackToLocalOrPass ::
  "flow_conf \<Rightarrow> cluster_env \<Rightarrow> nat \<Rightarrow> cluster_config \<Rightarrow> stat_ptr option \<Rightarrow> u32 \<Rightarrow> flow_state \<Rightarrow> flow_check" where
  "fallbackToLocalOrPass cf env p cc resStat batchCount s =
     (if cc_FallbackToLocalWhenFail cc then checkInLocal cf env p resStat batchCount s else (Ret None, [], s))"

definition DefaultDowngradeIntervalInNs :: i64 where
  "DefaultDowngradeIntervalInNs = 2000000000"

text \<open>What follows the answer of a token server.\<close>

definition after_token ::
  "flow_conf \<Rightarrow> cluster_env \<Rightarrow> nat \<Rightarrow> cluster_config \<Rightarrow> stat_ptr option \<Rightarrow> u32 \<Rightarrow> tok_result \<Rightarrow> flow_state \<Rightarrow> flow_check" where
  "after_token cf env p cc resStat batchCount r s =
     (let st = tk_Status r
      in if st = TokResultStatusOk then (Ret None, [], s)
         else if st = TokResultStatusShouldWait then
           (Ret None, if 0 <s tk_WaitInMs r then [tk_WaitInMs r * MillisToNanosOffset] else [], s)
         else if st = TokResultStatusFail then
           fallbackToLocalOrPass cf env p cc resStat batchCount (on_manager (\<lambda>m. m\<lparr>fm_tcs :=
             (fm_tcs m)[p := (fm_tcs m ! p)\<lparr>tc_DowngradeTimeInNsTo := ce_nano env + DefaultDowngradeIntervalInNs\<rparr>]\<rparr>) s)
         else if st = TokResultStatusNoRuleExists \<or> st = TokResultStatusBadRequest \<or> st = TokResultStatusTooManyRequest
           then fallbackToLocalOrPass cf env p cc resStat batchCount s
         else if st = TokResultStatusBlocked then
           (Ret (flow_blocked ''flow reject check blocked'' (tc_rule (fm_tcs (fs_manager s) ! p)) None), [], s)
         else (Ret None, [], s))"

definition checkInCluster ::
  "flow_conf \<Rightarrow> cluster_env \<Rightarrow> nat \<Rightarrow> cluster_config \<Rightarrow> stat_ptr option \<Rightarrow> u32 \<Rightarrow> i32 \<Rightarrow> flow_state \<Rightarrow> flow_check" where
  "checkInCluster cf env p cc resStat batchCount flag s =
     (let tc = fm_tcs (fs_manager s) ! p; rule = tc_rule tc;
          flag = (if fr_ControlBehavior rule = Throttling then 1 else flag)
      in if ce_nano env <s tc_DowngradeTimeInNsTo tc then fallbackToLocalOrPass cf env p cc resStat batchCount s
         else case limiter_TryPass (fc_stat cf) (ce_client env) (fc_ClientMaxAllowQps cf) (fc_ClientNamespace cf) (fs_limiters s) of
             (Err e, ls) \<Rightarrow> (Err e, [], s\<lparr>fs_limiters := ls\<rparr>)
           | (Panic q, ls) \<Rightarrow> (Panic q, [], s\<lparr>fs_limiters := ls\<rparr>)
           | (Ret allowed, ls) \<Rightarrow>
               let s = s\<lparr>fs_limiters := ls\<rparr>
               in if \<not> allowed then fallbackToLocalOrPass cf env p cc resStat batchCount s
                  else if cc_ClusterStrategy cc = ThresholdGlobal \<and>
                    (cc_TokenServerMasterHost cc = [] \<or> cc_TokenServerMasterPort cc \<le>s 0)
                    then fallbackToLocalOrPass cf env p cc resStat batchCount s
                  else
                    let (r, s) = (if cc_ClusterStrategy cc = ThresholdGlobalRedis
                          then (Ret (fc_redis cf rule batchCount flag), s)
                          else client_RequestToken cf env (cc_TokenServerMasterHost cc) (cc_TokenServerMasterPort cc)
                                 (fr_ID rule) batchCount flag s)
                    in case r of
                         Err e \<Rightarrow> (Err e, [], s)
                       | Panic q \<Rightarrow> (Panic q, [], s)
                       | Ret None \<Rightarrow> (Panic ''nil pointer dereference'', [], s)
                       | Ret (Some r) \<Rightarrow> after_token cf env p cc resStat batchCount r s)"

definition canPassCheckWithFlag ::
  "flow_conf \<Rightarrow> cluster_env \<Rightarrow> nat \<Rightarrow> stat_ptr option \<Rightarrow> u32 \<Rightarrow> i32 \<Rightarrow> flow_state \<Rightarrow> flow_check" where
  "canPassCheckWithFlag cf env p node batchCount flag s =
     (let rule = tc_rule (fm_tcs (fs_manager s) ! p)
      in if fr_ClusterMode rule then
           (case fr_ClusterConfig rule of
              None \<Rightarrow> (Panic ''nil pointer dereference'', [], s)
            | Some cc \<Rightarrow>
                if cc_ClusterStrategy cc = ThresholdGlobal \<or> cc_ClusterStrategy cc = ThresholdGlobalRedis
                then checkInCluster cf env p cc node batchCount flag s
                else checkInLocal cf env p node batchCount s)
         else checkInLocal cf env p node batchCount s)"

section \<open>The slots\<close>

definition flow_needs_check :: "string \<Rightarrow> flow_rule \<Rightarrow> bool" where
  "flow_needs_check FromService r \<longleftrightarrow>
     \<not> (fr_LimitApp r \<noteq> [] \<and> \<not> EqualFold_default (fr_LimitApp r) \<and>
        \<not> Contains FromService (split_on (CHR '','') (fr_LimitApp r)))"

text \<open>The loop of \<open>Check\<close>: \<open>Some r\<close> is the blocking result. \<open>env i\<close> are the readings in the \<open>i\<close>-th controller.\<close>

fun flow_check_all ::
  "flow_conf \<Rightarrow> (nat \<Rightarrow> cluster_env) \<Rightarrow> string \<Rightarrow> stat_ptr option \<Rightarrow> u32 \<Rightarrow> nat \<Rightarrow> nat list \<Rightarrow> flow_state \<Rightarrow> flow_check" where
  "flow_check_all cf env fs node n i [] s = (Ret None, [], s)"
| "flow_check_all cf env fs node n i (p # ps) s =
     (if \<not> flow_needs_check fs (tc_rule (fm_tcs (fs_manager s) ! p))
      then flow_check_all cf env fs node n (Suc i) ps s
      else case canPassCheckWithFlag cf (env i) p node n 0 s of
          (Ret (Some r), waits, s) \<Rightarrow>
            if tr_status r = ResultStatusBlocked then (Ret (Some r), waits, s)
            else
              let waits = (if tr_status r = ResultStatusShouldWait \<and> 0 <s tr_nanosToWait r
                    then waits @ [tr_nanosToWait r] else waits);
                  (r, ws, s) = flow_check_all cf env fs node n (Suc i) ps s
              in (r, waits @ ws, s)
        | (Ret None, waits, s) \<Rightarrow>
            let (r, ws, s) = flow_check_all cf env fs node n (Suc i) ps s in (r, waits @ ws, s)
        | (e, waits, s) \<Rightarrow> (e, waits, s))"

definition flow_Slot_Check ::
  "flow_conf \<Rightarrow> (nat \<Rightarrow> cluster_env) \<Rightarrow> (flow_rule, f64) entry_context \<Rightarrow> flow_state \<Rightarrow> flow_check" where
  "flow_Slot_Check cf env ctx s =
     (case ctx_Resource ctx of
        None \<Rightarrow> (Panic ''nil pointer dereference'', [], s)
      | Some rw \<Rightarrow>
          (case flow_check_all cf env (ctx_FromService ctx) (ctx_StatNode ctx) (in_BatchCount (ctx_Input ctx)) 0
                  (getTrafficControllerListFor (rw_name rw) (fs_manager s)) s of
             (Ret None, waits, s) \<Rightarrow> (Ret (ctx_RuleCheckResult ctx), waits, s)
           | x \<Rightarrow> x))"

text \<open>\<open>StandaloneStatSlot.OnEntryPassed\<close>; \<open>t i\<close> is the clock in the \<open>i\<close>-th controller.\<close>

fun count_passes :: "(nat \<Rightarrow> u64) \<Rightarrow> u32 \<Rightarrow> nat \<Rightarrow> nat list \<Rightarrow> flow_manager \<Rightarrow> flow_manager" where
  "count_passes t n i [] m = m"
| "count_passes t n i (p # ps) m =
     (let st = tc_boundStat (fm_tcs m ! p)
      in count_passes t n (Suc i) ps
           (if reuseResourceStat st then m
            else case writeOnlyMetric st of
                None \<Rightarrow> m
              | Some ws \<Rightarrow> m\<lparr>fm_world := write_AddCountWithTime (t i) MetricEventPass (ucast n) ws (fm_world m)\<rparr>))"

definition standalone_OnEntryPassed ::
  "(nat \<Rightarrow> u64) \<Rightarrow> (flow_rule, f64) entry_context \<Rightarrow> flow_state \<Rightarrow> unit go \<times> flow_state" where
  "standalone_OnEntryPassed t ctx s =
     (case ctx_Resource ctx of
        None \<Rightarrow> (Panic ''nil pointer dereference'', s)
      | Some rw \<Rightarrow> (Ret (), on_manager (\<lambda>m. count_passes t (in_BatchCount (ctx_Input ctx)) 0
            (getTrafficControllerListFor (rw_name rw) m) m) s))"

end
