(* ===== verification/RuleLoad.thy ===== *)
theory RuleLoad
  imports Prelude
begin

text \<open>
  What the rule managers share: a load groups the rules by resource, keeps the valid ones and remembers
  the raw ones to tell the next load whether anything changed. The locale \<open>rule_store\<close> is the contract
  of such a manager, and what it says about any sequence of loads is proved once.
\<close>

section \<open>Grouping and filtering\<close>

text \<open>A rule in a slice is a pointer; the grouping dereferences each of them.\<close>

fun group_rules :: "('r \<Rightarrow> 'k) \<Rightarrow> 'r option list \<Rightarrow> ('k, 'r option list) gomap \<Rightarrow> ('k, 'r option list) gomap go" where
  "group_rules key [] m = Ret m"
| "group_rules key (None # rs) m = Panic ''nil pointer dereference''"
| "group_rules key (Some r # rs) m = group_rules key rs (mput (key r) (mget_list m (key r) @ [Some r]) m)"

definition valid_rules :: "('r option \<Rightarrow> string option) \<Rightarrow> 'r option list \<Rightarrow> 'r list" where
  "valid_rules chk rules = List.map_filter (\<lambda>r. if chk r = None then r else None) rules"

definition valid_map :: "('r option \<Rightarrow> string option) \<Rightarrow> ('k, 'r option list) gomap \<Rightarrow> ('k, 'r list) gomap" where
  "valid_map chk raw = filter (\<lambda>(res, rs). rs \<noteq> []) (map (\<lambda>(res, rs). (res, valid_rules chk rs)) raw)"

text \<open>The rules of a slice that name a resource.\<close>

definition named :: "('r \<Rightarrow> 'k) \<Rightarrow> 'k \<Rightarrow> 'r option list \<Rightarrow> 'r option list" where
  "named key k rules = filter (\<lambda>r. map_option key r = Some k) rules"

lemma valid_rules_sound: "r \<in> set (valid_rules chk rules) \<Longrightarrow> chk (Some r) = None \<and> Some r \<in> set rules"
  by (auto simp: valid_rules_def map_filter_def split: if_splits)

lemma valid_rules_Nil [simp]: "valid_rules chk [] = []"
  by (simp add: valid_rules_def map_filter_simps)

lemma group_rules_get: "group_rules key rs m = Ret m' \<Longrightarrow> mget_list m' k = mget_list m k @ named key k rs"
  by (induction key rs m rule: group_rules.induct) (auto simp: map_simps named_def)

lemma group_rules_total: "None \<notin> set rs \<Longrightarrow> \<exists>m'. group_rules key rs m = Ret m'"
  by (induction key rs m rule: group_rules.induct) auto

lemma group_rules_nil: "None \<in> set rs \<Longrightarrow> group_rules key rs m = Panic ''nil pointer dereference''"
  by (induction key rs m rule: group_rules.induct) auto

lemma group_rules_mwf: "group_rules key rs m = Ret m' \<Longrightarrow> mwf m \<Longrightarrow> mwf m'"
  by (induction key rs m rule: group_rules.induct) (auto simp: gomap.inv_put)

lemma mwf_valid_map: "mwf raw \<Longrightarrow> mwf (valid_map chk raw)"
  unfolding valid_map_def mwf_def by (rule distinct_map_filter) (simp add: o_def split_beta)

lemma mget_valid_map: "mwf raw \<Longrightarrow> mget_list (valid_map chk raw) res = valid_rules chk (mget_list raw res)"
proof (induction raw)
  case Nil
  then show ?case by (simp add: valid_map_def mget_list_def)
next
  case (Cons kv raw)
  obtain k rs where kv: "kv = (k, rs)" by fastforce
  have wf: "mwf raw" "k \<notin> fst ` set raw" using Cons.prems by (simp_all add: kv mwf_def)
  have none: "mget (valid_map chk raw) k = None"
    using wf(2) by (force simp: mget_def map_of_eq_None_iff valid_map_def)
  have step: "valid_map chk (kv # raw) =
      (if valid_rules chk rs = [] then valid_map chk raw else (k, valid_rules chk rs) # valid_map chk raw)"
    by (simp add: valid_map_def kv)
  have "mget_list (valid_map chk raw) k = []" using none by (simp add: mget_list_def)
  then show ?case
    unfolding step using Cons.IH [OF wf(1)] by (auto simp: kv)
qed

lemma meq_list: "meq m n \<Longrightarrow> mget_list m k = mget_list n k"
  using meq_get [of m n k] by (simp add: mget_list_def)

section \<open>The contract of a rule manager\<close>

text \<open>
  \<open>load\<close> replaces all rules, \<open>load_res\<close> those of one resource; both tell whether they did anything.
  \<open>raw\<close> is what was asked for, \<open>in_use\<close> what the slots see of it.
\<close>

datatype 'r rule_op = LoadAll "'r option list" | LoadRes string "'r option list"

fun run_rule_op ::
  "('r option list \<Rightarrow> 'm \<Rightarrow> 'a \<times> 'm) \<Rightarrow> (string \<Rightarrow> 'r option list \<Rightarrow> 'm \<Rightarrow> 'b \<times> 'm) \<Rightarrow> 'm \<Rightarrow> 'r rule_op \<Rightarrow> 'm" where
  "run_rule_op load load_res m (LoadAll rules) = snd (load rules m)"
| "run_rule_op load load_res m (LoadRes res rules) = snd (load_res res rules m)"

text \<open>The abstract store: for each resource, the rules last asked for. A nil rule makes a full load panic.\<close>

fun store_op :: "('r \<Rightarrow> string) \<Rightarrow> (string \<Rightarrow> 'r option list) \<Rightarrow> 'r rule_op \<Rightarrow> string \<Rightarrow> 'r option list" where
  "store_op key s (LoadAll rules) = (if None \<in> set rules then s else (\<lambda>k. named key k rules))"
| "store_op key s (LoadRes res rules) = (if res = [] then s else s(res := rules))"

locale rule_store =
  fixes load :: "'r option list \<Rightarrow> 'm \<Rightarrow> 'a \<times> 'm"
    and load_res :: "string \<Rightarrow> 'r option list \<Rightarrow> 'm \<Rightarrow> 'b \<times> 'm"
    and in_use :: "'m \<Rightarrow> string \<Rightarrow> 'r list"
    and raw :: "'m \<Rightarrow> string \<Rightarrow> 'r option list"
    and inv :: "'m \<Rightarrow> bool"
    and key :: "'r \<Rightarrow> string"
    and valid :: "'r option list \<Rightarrow> 'r list"
  assumes in_use_raw: "inv m \<Longrightarrow> in_use m res = valid (raw m res)"
    and load_inv: "inv m \<Longrightarrow> inv (snd (load rules m))"
    and load_res_inv: "inv m \<Longrightarrow> inv (snd (load_res res rules m))"
    and load_nil: "None \<in> set rules \<Longrightarrow> snd (load rules m) = m"
    and load_raw: "inv m \<Longrightarrow> None \<notin> set rules \<Longrightarrow> raw (snd (load rules m)) k = named key k rules"
    and load_res_raw: "inv m \<Longrightarrow> raw (snd (load_res res rules m)) k = (if k = res \<and> res \<noteq> [] then rules else raw m k)"
begin

lemma run_op_spec: "inv m \<Longrightarrow> inv (run_rule_op load load_res m op) \<and> raw (run_rule_op load load_res m op) = store_op key (raw m) op"
  by (cases op) (auto simp: load_inv load_res_inv load_nil load_raw load_res_raw)

lemma run_ops_spec:
  "inv m \<Longrightarrow> inv (foldl (run_rule_op load load_res) m ops) \<and>
    raw (foldl (run_rule_op load load_res) m ops) = foldl (store_op key) (raw m) ops"
  by (induction ops arbitrary: m) (auto simp: run_op_spec)

lemma in_use_spec:
  "inv m \<Longrightarrow> in_use (foldl (run_rule_op load load_res) m ops) res = valid (foldl (store_op key) (raw m) ops res)"
  using run_ops_spec [of m ops] in_use_raw [of "foldl (run_rule_op load load_res) m ops" res] by simp

end

end
