(* ===== verification/Isolation.thy ===== *)
theory Isolation
  imports StatNode RuleLoad
begin

text \<open>
  Isolation, \<open>core/isolation\<close>: a limit on the requests of a resource in flight. The rules (\<open>rule.go\<close>), their
  manager (\<open>rule_manager.go\<close>) and the check slot (\<open>slot.go\<close>), which reads the concurrency that the
  statistic slot keeps in the node of the resource.
\<close>

section \<open>Rules\<close>

definition Concurrency :: i32 where "Concurrency = 1"

definition iso_MetricType_String :: "i32 \<Rightarrow> string" where
  "iso_MetricType_String s = (if s = Concurrency then ''Concurrency'' else ''Undefined'')"

record iso_rule =
  ir_ID :: string
  ir_App :: string
  ir_RuleName :: string
  ir_Resource :: string
  ir_MetricType :: i32
  ir_Threshold :: u32

definition iso_IsValidRule :: "iso_rule option \<Rightarrow> string option" where
  "iso_IsValidRule r =
     (case r of
        None \<Rightarrow> Some ''nil isolation rule''
      | Some r \<Rightarrow>
          if length (ir_Resource r) = 0 then Some ''empty resource of isolation rule''
          else if ir_MetricType r \<noteq> Concurrency
            then Some (''unsupported metric type: '' @ FormatInt (sint (ir_MetricType r)))
          else if ir_Threshold r = 0 then Some ''zero threshold''
          else None)"

section \<open>The rule manager\<close>

record iso_manager =
  iso_ruleMap :: "(string, iso_rule list) gomap"
  iso_currentRules :: "(string, iso_rule option list) gomap"

definition initial_iso :: iso_manager where
  "initial_iso = \<lparr>iso_ruleMap = [], iso_currentRules = []\<rparr>"

definition iso_onRuleUpdate :: "(string, iso_rule option list) gomap \<Rightarrow> iso_manager \<Rightarrow> string option \<times> iso_manager" where
  "iso_onRuleUpdate rawResRulesMap m =
     (None, m\<lparr>iso_ruleMap := valid_map iso_IsValidRule rawResRulesMap, iso_currentRules := rawResRulesMap\<rparr>)"

definition iso_LoadRules :: "iso_rule option list \<Rightarrow> iso_manager \<Rightarrow> (bool \<times> string option) go \<times> iso_manager" where
  "iso_LoadRules rules m =
     (case group_rules ir_Resource rules [] of
        Ret resRulesMap \<Rightarrow>
          if meq (iso_currentRules m) resRulesMap then (Ret (False, None), m)
          else let (err, m) = iso_onRuleUpdate resRulesMap m in (Ret (True, err), m)
      | Err e \<Rightarrow> (Err e, m)
      | Panic p \<Rightarrow> (Panic p, m))"

definition iso_onResourceUpdate :: "string \<Rightarrow> iso_rule option list \<Rightarrow> iso_manager \<Rightarrow> string option \<times> iso_manager" where
  "iso_onResourceUpdate res rawResRules m =
     (let validResRules = valid_rules iso_IsValidRule rawResRules;
          m = (if length validResRules = 0 then m\<lparr>iso_ruleMap := mdel res (iso_ruleMap m)\<rparr>
               else m\<lparr>iso_ruleMap := mput res validResRules (iso_ruleMap m)\<rparr>)
      in (None, m\<lparr>iso_currentRules := mput res rawResRules (iso_currentRules m)\<rparr>))"

definition iso_LoadRulesOfResource ::
  "string \<Rightarrow> iso_rule option list \<Rightarrow> iso_manager \<Rightarrow> (bool \<times> string option) \<times> iso_manager" where
  "iso_LoadRulesOfResource res rules m =
     (if length res = 0 then ((False, Some ''empty resource''), m)
      else if length rules = 0 then
        ((True, None), m\<lparr>iso_currentRules := mdel res (iso_currentRules m), iso_ruleMap := mdel res (iso_ruleMap m)\<rparr>)
      else if mget_list (iso_currentRules m) res = rules then ((False, None), m)
      else let (err, m) = iso_onResourceUpdate res rules m in ((True, err), m))"

definition iso_ClearRules :: "iso_manager \<Rightarrow> (bool \<times> string option) go \<times> iso_manager" where
  "iso_ClearRules m = iso_LoadRules [] m"

definition iso_rulesFrom :: "(string, iso_rule list) gomap \<Rightarrow> iso_rule list" where
  "iso_rulesFrom m = concat (map snd m)"

definition iso_GetRules :: "iso_manager \<Rightarrow> iso_rule list" where
  "iso_GetRules m = iso_rulesFrom (iso_ruleMap m)"

definition iso_getRulesOfResource :: "iso_manager \<Rightarrow> string \<Rightarrow> iso_rule list" where
  "iso_getRulesOfResource m res = mget_list (iso_ruleMap m) res"

section \<open>The check\<close>

text \<open>
  The loop of \<open>checkPass\<close>: the result, the refusing rule and the concurrency last read. The sum of the
  concurrency and the batch is a 32-bit one.
\<close>

definition iso_current :: "'n base_stat_node_scheme \<Rightarrow> u32" where
  "iso_current n = (let cur = CurrentConcurrency n in if 0 \<le>s cur then cur else 0)"

fun iso_check_rules :: "iso_rule list \<Rightarrow> u32 \<Rightarrow> resource_node option \<Rightarrow> u32 \<Rightarrow> (bool \<times> iso_rule option \<times> u32) go" where
  "iso_check_rules [] batchCount node curCount = Ret (True, None, curCount)"
| "iso_check_rules (rule # rules) batchCount node curCount =
     (if ir_MetricType rule = Concurrency then
        (case node of
           None \<Rightarrow> Panic ''nil pointer dereference''
         | Some n \<Rightarrow>
             let curCount = iso_current n
             in if ir_Threshold rule < curCount + batchCount then Ret (False, Some rule, curCount)
                else iso_check_rules rules batchCount node curCount)
      else iso_check_rules rules batchCount node curCount)"

definition iso_checkPass ::
  "(iso_rule, u32) entry_context \<Rightarrow> iso_manager \<Rightarrow> node_store \<Rightarrow> (bool \<times> iso_rule option \<times> u32) go" where
  "iso_checkPass ctx m st =
     (case ctx_Resource ctx of
        None \<Rightarrow> Panic ''nil pointer dereference''
      | Some rw \<Rightarrow>
          iso_check_rules (iso_getRulesOfResource m (rw_name rw)) (in_BatchCount (ctx_Input ctx))
            (Option.bind (ctx_StatNode ctx) (\<lambda>p. node_at p st)) 0)"

definition iso_Slot_Check ::
  "(iso_rule, u32) entry_context \<Rightarrow> iso_manager \<Rightarrow> node_store \<Rightarrow> (iso_rule, u32) token_result option go" where
  "iso_Slot_Check ctx m st =
     (case ctx_Resource ctx of
        None \<Rightarrow> Panic ''nil pointer dereference''
      | Some rw \<Rightarrow>
          if length (rw_name rw) = 0 then Ret (ctx_RuleCheckResult ctx)
          else go_bind (iso_checkPass ctx m st) (\<lambda>(passed, rule, snapshot).
            if passed then Ret (ctx_RuleCheckResult ctx)
            else
              let msg = ''concurrency exceeds threshold''
              in Ret (Some (case ctx_RuleCheckResult ctx of
                   None \<Rightarrow> NewTokenResultBlockedWithCause BlockTypeIsolation msg rule (Some snapshot)
                 | Some r \<Rightarrow> tr_ResetToBlockedWithCause BlockTypeIsolation msg rule (Some snapshot) r))))"

end
