(* ===== verification/IsolationProps.thy ===== *)
theory IsolationProps
  imports Isolation
begin

text \<open>
  What isolation guarantees: the slot enforces the rules last asked for, and how far the requests in
  flight can exceed a limit when goroutines overlap between the check and the counting.
\<close>

section \<open>The rules in use\<close>

definition iso_inv :: "iso_manager \<Rightarrow> bool" where
  "iso_inv m \<longleftrightarrow> (\<forall>res. iso_getRulesOfResource m res = valid_rules iso_IsValidRule (mget_list (iso_currentRules m) res))"

lemma iso_LoadRules_ok:
  assumes "iso_inv m"
  shows "iso_inv (snd (iso_LoadRules rules m))"
    and "None \<notin> set rules \<Longrightarrow> mget_list (iso_currentRules (snd (iso_LoadRules rules m))) k = named ir_Resource k rules"
proof -
  have "iso_inv (snd (iso_LoadRules rules m)) \<and>
      mget_list (iso_currentRules (snd (iso_LoadRules rules m))) k = named ir_Resource k rules"
    if "None \<notin> set rules"
  proof -
    obtain g where g: "group_rules ir_Resource rules [] = Ret g" using group_rules_total [OF \<open>None \<notin> set rules\<close>] by blast
    have get: "mget_list g j = named ir_Resource j rules" for j
      using group_rules_get [OF g, of j] by (simp add: mget_list_def)
    show ?thesis
      using assms group_rules_mwf [OF g] meq_list [of "iso_currentRules m" g k] get
      by (simp add: iso_LoadRules_def g iso_onRuleUpdate_def iso_inv_def iso_getRulesOfResource_def mget_valid_map)
  qed
  note ok = this
  show "None \<notin> set rules \<Longrightarrow> mget_list (iso_currentRules (snd (iso_LoadRules rules m))) k = named ir_Resource k rules"
    using ok by blast
  show "iso_inv (snd (iso_LoadRules rules m))"
    using ok assms by (cases "None \<in> set rules") (simp_all add: iso_LoadRules_def group_rules_nil)
qed

lemma iso_LoadRulesOfResource_ok:
  assumes "iso_inv m"
  shows "iso_inv (snd (iso_LoadRulesOfResource res rules m))"
    and "mget_list (iso_currentRules (snd (iso_LoadRulesOfResource res rules m))) k =
      (if k = res \<and> res \<noteq> [] then rules else mget_list (iso_currentRules m) k)"
  using assms
  by (auto simp: iso_LoadRulesOfResource_def iso_onResourceUpdate_def iso_inv_def iso_getRulesOfResource_def
      Let_def map_simps)

interpretation iso: rule_store iso_LoadRules iso_LoadRulesOfResource iso_getRulesOfResource
  "\<lambda>m. mget_list (iso_currentRules m)" iso_inv ir_Resource "valid_rules iso_IsValidRule"
proof (unfold_locales, goal_cases)
  case (1 m res)
  then show ?case by (simp add: iso_inv_def)
next
  case (2 m rules)
  then show ?case by (rule iso_LoadRules_ok)
next
  case (3 m res rules)
  then show ?case by (rule iso_LoadRulesOfResource_ok)
next
  case (4 rules m)
  then show ?case by (simp add: iso_LoadRules_def group_rules_nil)
next
  case (5 m rules k)
  then show ?case by (rule iso_LoadRules_ok)
next
  case (6 m res rules k)
  then show ?case by (rule iso_LoadRulesOfResource_ok)
qed

lemma initial_iso_inv: "iso_inv initial_iso"
  by (simp add: iso_inv_def initial_iso_def iso_getRulesOfResource_def mget_list_def)

section \<open>The check\<close>

lemma iso_valid_metric: "r \<in> set (valid_rules iso_IsValidRule rules) \<Longrightarrow> ir_MetricType r = Concurrency"
  by (drule valid_rules_sound) (auto simp: iso_IsValidRule_def split: if_splits)

lemma iso_check_rules_find:
  assumes "\<forall>r \<in> set rules. ir_MetricType r = Concurrency"
  shows "\<exists>c. iso_check_rules rules batch (Some n) cur =
    Ret (case find (\<lambda>r. ir_Threshold r < iso_current n + batch) rules of
      None \<Rightarrow> (True, None, c) | Some r \<Rightarrow> (False, Some r, iso_current n))"
  using assms by (induction rules arbitrary: cur) (auto simp: Let_def)

text \<open>
  C22: The isolation slot enforces the rules last asked for, whatever loads came before: of the valid
  rules for the resource of the request, in order, the first whose threshold the concurrency of the node
  and the batch exceed blocks the request and is reported with that concurrency; if there is none, the
  slot leaves the result alone.
\<close>

theorem isolation_enforces_loaded_rules:
  fixes ops and ctx and st
  defines "m \<equiv> foldl (run_rule_op iso_LoadRules iso_LoadRulesOfResource) initial_iso ops"
  assumes "ctx_Resource ctx = Some rw" and "rw_name rw \<noteq> []"
    and "ctx_StatNode ctx = Some p" and "node_at p st = Some n"
  shows "\<exists>result. iso_Slot_Check ctx m st = Ret result \<and>
    (case find (\<lambda>r. ir_Threshold r < iso_current n + in_BatchCount (ctx_Input ctx))
        (valid_rules iso_IsValidRule (foldl (store_op ir_Resource) (\<lambda>_. []) ops (rw_name rw))) of
       None \<Rightarrow> result = ctx_RuleCheckResult ctx
     | Some r \<Rightarrow> \<exists>q. result = Some q \<and> tr_IsBlocked q \<and> tr_blockErr q =
         Some \<lparr>be_blockType = BlockTypeIsolation, be_blockMsg = ''concurrency exceeds threshold'',
               be_rule = Some r, be_snapshotValue = Some (iso_current n)\<rparr>)"
proof -
  let ?rules = "valid_rules iso_IsValidRule (foldl (store_op ir_Resource) (\<lambda>_. []) ops (rw_name rw))"
  have raw0: "(\<lambda>res. mget_list (iso_currentRules initial_iso) res) = (\<lambda>_. [])"
    by (rule ext) (simp add: initial_iso_def mget_list_def)
  have rules: "iso_getRulesOfResource m (rw_name rw) = ?rules"
    using iso.in_use_spec [OF initial_iso_inv, of ops "rw_name rw"] unfolding m_def raw0 by simp
  obtain c where "iso_check_rules ?rules (in_BatchCount (ctx_Input ctx)) (Some n) 0 =
      Ret (case find (\<lambda>r. ir_Threshold r < iso_current n + in_BatchCount (ctx_Input ctx)) ?rules of
        None \<Rightarrow> (True, None, c) | Some r \<Rightarrow> (False, Some r, iso_current n))"
    using iso_check_rules_find [of ?rules] iso_valid_metric by blast
  then show ?thesis
    using assms(2-) rules
    by (cases "find (\<lambda>r. ir_Threshold r < iso_current n + in_BatchCount (ctx_Input ctx)) ?rules")
      (auto simp: iso_Slot_Check_def iso_checkPass_def Let_def result_simps split: option.splits)
qed

text \<open>
  The sum is one of 32 bits: a batch near the largest number wraps around and passes any rule as soon as
  one request is in flight.
\<close>

lemma isolation_batch_wraps:
  assumes "iso_current n = 1"
  shows "iso_check_rules [r] (- 1) (Some n) 0 = Ret (True, None, if ir_MetricType r = Concurrency then 1 else 0)"
  using assms by (auto simp: Let_def)

section \<open>Goroutines between the check and the count\<close>

text \<open>
  A request is checked (\<open>iso_check_rules\<close> on the node) and counted by the statistic slot later; in between
  other goroutines are checked. \<open>iso_run rules gap\<close> are the reachable states of a node and of goroutines
  that send request after request, when at most \<open>gap\<close> of them are ever between the two. Batches are
  positive and below \<open>2 ^ 31\<close>.
\<close>

datatype iso_pc = Idle | Checked | InFlight

inductive iso_run :: "iso_rule list \<Rightarrow> nat \<Rightarrow> resource_node \<Rightarrow> iso_pc list \<Rightarrow> bool" for rules gap where
  start: "CurrentConcurrency n = 0 \<Longrightarrow> iso_run rules gap n (replicate k Idle)"
| refuse: "iso_run rules gap n pcs"
    if "iso_run rules gap n pcs" "i < length pcs" "pcs ! i = Idle"
      "iso_check_rules rules batch (Some n) 0 = Ret (False, r, c)" "0 < unat batch" "unat batch < 2 ^ 31"
| check: "iso_run rules gap n (pcs[i := Checked])"
    if "iso_run rules gap n pcs" "i < length pcs" "pcs ! i = Idle"
      "iso_check_rules rules batch (Some n) 0 = Ret (True, r, c)" "0 < unat batch" "unat batch < 2 ^ 31"
      "count_list pcs Checked < gap"
| pass: "iso_run rules gap (IncreaseConcurrency t n) (pcs[i := InFlight])"
    if "iso_run rules gap n pcs" "i < length pcs" "pcs ! i = Checked"
| exit: "iso_run rules gap (DecreaseConcurrency n) (pcs[i := Idle])"
    if "iso_run rules gap n pcs" "i < length pcs" "pcs ! i = InFlight"

lemma count_list_update:
  "i < length xs \<Longrightarrow> count_list (xs[i := y]) x + (if xs ! i = x then 1 else 0) = count_list xs x + (if y = x then 1 else 0)"
proof (induction xs arbitrary: i)
  case (Cons z xs)
  from Cons.IH [of "i - 1"] Cons.prems show ?case by (cases i) (auto split: if_splits)
qed simp

lemma count_list_nth: "i < length xs \<Longrightarrow> 0 < count_list xs (xs ! i)"
  by (metis count_notin neq0_conv nth_mem count_list_0_iff)

lemma iso_check_passes:
  "iso_check_rules rules batch (Some n) cur = Ret (True, r, c) \<Longrightarrow>
    \<forall>r \<in> set rules. ir_MetricType r = Concurrency \<longrightarrow> iso_current n + batch \<le> ir_Threshold r"
  by (induction rules arbitrary: cur) (auto simp: Let_def not_less split: if_splits)

text \<open>A check that passes leaves room for one more request.\<close>

lemma iso_check_room:
  assumes "iso_check_rules rules batch (Some n) 0 = Ret (True, r, c)" and "rule \<in> set rules"
    and "ir_MetricType rule = Concurrency" and "0 < unat batch" and "unat batch < 2 ^ 31"
    and "sint (CurrentConcurrency n) = int k"
  shows "k + 1 \<le> unat (ir_Threshold rule)"
proof -
  have cur: "iso_current n = CurrentConcurrency n"
    using assms(6) by (simp add: iso_current_def Let_def word_sle_eq)
  have k: "unat (CurrentConcurrency n) = k"
    using sint_nonneg_unat [of "CurrentConcurrency n"] assms(6) by linarith
  have "int k < 2 ^ 31"
    using sint_lt [of "CurrentConcurrency n"] assms(6) by simp
  then have "k < 2 ^ 31" by (metis of_nat_less_iff of_nat_numeral of_nat_power)
  then have "unat (CurrentConcurrency n + batch) = k + unat batch"
    using assms(5) by (simp add: unat_word_ariths k)
  moreover have "unat (CurrentConcurrency n + batch) \<le> unat (ir_Threshold rule)"
    using iso_check_passes [OF assms(1)] assms(2,3) cur by (simp add: word_le_nat_alt)
  ultimately show ?thesis using assms(4) by simp
qed

lemma sint_i32_steps:
  fixes c :: i32
  assumes "sint c = int k"
  shows "Suc k < 2 ^ 31 \<Longrightarrow> sint (c + 1) = int (Suc k)" and "0 < k \<Longrightarrow> sint (c - 1) = int (k - 1)"
proof -
  have "int k < 2 ^ 31" using sint_lt [of c] assms by simp
  then show "0 < k \<Longrightarrow> sint (c - 1) = int (k - 1)"
    by (simp add: sint_word_ariths assms signed_take_bit_int_eq_self of_nat_diff)
  assume "Suc k < 2 ^ 31"
  then have "int (Suc k) < 2 ^ 31" by (metis of_nat_less_iff of_nat_numeral of_nat_power)
  then show "sint (c + 1) = int (Suc k)"
    by (simp add: sint_word_ariths assms signed_take_bit_int_eq_self)
qed

lemma iso_run_inv:
  assumes "iso_run rules gap n pcs" and "rule \<in> set rules" and "ir_MetricType rule = Concurrency"
    and "0 < gap" and "unat (ir_Threshold rule) + gap \<le> 2 ^ 31"
  shows "sint (CurrentConcurrency n) = int (count_list pcs InFlight) \<and> count_list pcs Checked \<le> gap \<and>
    count_list pcs InFlight + count_list pcs Checked < unat (ir_Threshold rule) + gap"
  using assms(1)
proof (induction rule: iso_run.induct)
  case (start n k)
  have "count_list (replicate k Idle) x = 0" if "x \<noteq> Idle" for x
    using that by (simp add: count_list_0_iff)
  then show ?case using start assms(4) by simp
next
  case (check n pcs i batch r c)
  then have "count_list pcs InFlight + 1 \<le> unat (ir_Threshold rule)"
    using iso_check_room [OF _ assms(2,3)] by blast
  then show ?case
    using check count_list_update [of i pcs Checked InFlight] count_list_update [of i pcs Checked Checked] by simp
next
  case (pass n pcs i t)
  have "0 < count_list pcs Checked" using pass count_list_nth [of i pcs] by simp
  moreover from this have "Suc (count_list pcs InFlight) < 2 ^ 31" using pass assms(5) by linarith
  ultimately show ?case
    using pass count_list_update [of i pcs InFlight InFlight] count_list_update [of i pcs InFlight Checked]
      sint_i32_steps(1) [of "CurrentConcurrency n" "count_list pcs InFlight"] by simp
next
  case (exit n pcs i)
  have "0 < count_list pcs InFlight" using exit count_list_nth [of i pcs] by simp
  then show ?case
    using exit count_list_update [of i pcs Idle InFlight] count_list_update [of i pcs Idle Checked]
      sint_i32_steps(2) [of "CurrentConcurrency n" "count_list pcs InFlight"] by simp
qed

text \<open>
  C21: However goroutines interleave, the concurrency of a resource is the number of its requests in
  flight, and under an isolation rule with threshold \<open>T\<close> it never exceeds \<open>T + gap - 1\<close>, where \<open>gap\<close>
  is the largest number of requests that are between the check and the count at one time. With no overlap
  (\<open>gap = 1\<close>) the limit is exact.
\<close>

theorem isolation_bounds_requests_in_flight:
  assumes "iso_run rules gap n pcs" and "rule \<in> set rules" and "ir_MetricType rule = Concurrency"
    and "0 < gap" and "unat (ir_Threshold rule) + gap \<le> 2 ^ 31"
  shows "sint (CurrentConcurrency n) = int (count_list pcs InFlight) \<and>
    sint (CurrentConcurrency n) \<le> int (unat (ir_Threshold rule)) + int gap - 1"
  using iso_run_inv [OF assms] by linarith

lemma node_with_concurrency: "\<exists>n :: resource_node. CurrentConcurrency n = c"
  by (rule exI [of _ "undefined\<lparr>bsn_concurrency := c\<rparr>"]) (simp add: CurrentConcurrency_def)

text \<open>The bound is reached: a limit of 1, two goroutines that both pass the check before either is counted.\<close>

definition demo_iso_rule :: iso_rule where
  "demo_iso_rule = \<lparr>ir_ID = [], ir_App = [], ir_RuleName = [], ir_Resource = ''abc'', ir_MetricType = Concurrency,
     ir_Threshold = 1\<rparr>"

theorem isolation_bounds_requests_in_flight_witness:
  "\<exists>n. iso_run [demo_iso_rule] 2 n [InFlight, InFlight] \<and> sint (CurrentConcurrency n) = 2 \<and>
     sint (CurrentConcurrency n) \<le> int (unat (ir_Threshold demo_iso_rule)) + int 2 - 1"
proof -
  obtain n where n: "CurrentConcurrency (n :: resource_node) = 0"
    using node_with_concurrency by blast
  have ok: "iso_check_rules [demo_iso_rule] 1 (Some n) 0 = Ret (True, None, 0)"
    by (simp add: demo_iso_rule_def iso_current_def n)
  have "iso_run [demo_iso_rule] 2 n [Idle, Idle]"
    using iso_run.start [OF n, of "[demo_iso_rule]" 2 2] by (simp add: numeral_2_eq_2)
  from iso_run.check [OF this _ _ ok, of 0] have "iso_run [demo_iso_rule] 2 n [Checked, Idle]" by simp
  from iso_run.check [OF this _ _ ok, of 1] have "iso_run [demo_iso_rule] 2 n [Checked, Checked]" by simp
  from iso_run.pass [OF this, of 0 0]
  have "iso_run [demo_iso_rule] 2 (IncreaseConcurrency 0 n) [InFlight, Checked]" by simp
  from iso_run.pass [OF this, of 1 0]
  have run: "iso_run [demo_iso_rule] 2 (IncreaseConcurrency 0 (IncreaseConcurrency 0 n)) [InFlight, InFlight]" by simp
  show ?thesis
    using isolation_bounds_requests_in_flight [OF run, of demo_iso_rule] run n
    by (intro exI [of _ "IncreaseConcurrency 0 (IncreaseConcurrency 0 n)"]) (simp add: demo_iso_rule_def)
qed

text \<open>A valid rule, an invalid one and a load for another resource; one request in flight blocks the next.\<close>

definition demo_iso_ops :: "iso_rule rule_op list" where
  "demo_iso_ops = [LoadAll [Some demo_iso_rule, Some (demo_iso_rule\<lparr>ir_Threshold := 0\<rparr>)], LoadRes ''xy'' [None]]"

definition demo_iso_ctx :: "(iso_rule, u32) entry_context" where
  "demo_iso_ctx = NewPooledContext\<lparr>ctx_Resource := Some \<lparr>rw_name = ''abc'', rw_classification = 0, rw_flowType = 0\<rparr>,
     ctx_StatNode := Some InboundNode\<rparr>"

lemma demo_iso_rules:
  "valid_rules iso_IsValidRule (foldl (store_op ir_Resource) (\<lambda>_. []) demo_iso_ops ''abc'') = [demo_iso_rule]"
  by (simp add: demo_iso_ops_def demo_iso_rule_def named_def valid_rules_def map_filter_simps iso_IsValidRule_def)

theorem isolation_enforces_loaded_rules_witness:
  "\<exists>st q. iso_Slot_Check demo_iso_ctx (foldl (run_rule_op iso_LoadRules iso_LoadRulesOfResource) initial_iso demo_iso_ops) st
     = Ret (Some q) \<and> tr_IsBlocked q"
proof -
  obtain n where n: "CurrentConcurrency (n :: resource_node) = 1"
    using node_with_concurrency by blast
  let ?st = "\<lparr>inboundNode = n, cpuNode = n, loadNode = n, resNodeMap = []\<rparr>"
  have f: "find (\<lambda>r. ir_Threshold r < iso_current n + in_BatchCount (ctx_Input demo_iso_ctx))
      (valid_rules iso_IsValidRule (foldl (store_op ir_Resource) (\<lambda>_. []) demo_iso_ops ''abc'')) = Some demo_iso_rule"
    unfolding demo_iso_rules
    by (simp add: demo_iso_ctx_def NewPooledContext_def demo_iso_rule_def iso_current_def n word_sle_eq)
  have ctx: "ctx_Resource demo_iso_ctx = Some \<lparr>rw_name = ''abc'', rw_classification = 0, rw_flowType = 0\<rparr>"
    "ctx_StatNode demo_iso_ctx = Some InboundNode" "node_at InboundNode ?st = Some n"
    by (simp_all add: demo_iso_ctx_def)
  show ?thesis
    using isolation_enforces_loaded_rules [OF ctx(1) _ ctx(2,3), of demo_iso_ops] f by auto
qed

end
