(* ===== verification/SystemSlot.thy ===== *)
theory SystemSlot
  imports StatNode RuleLoad
begin

text \<open>
  System protection, \<open>core/system\<close>: the rules (\<open>rule.go\<close>), their manager (\<open>rule_manager.go\<close>) and the
  adaptive slot (\<open>slot.go\<close>), which holds the inbound traffic as a whole against the load, the CPU usage
  and the counters of the inbound node. The two system metrics are read from outside.
\<close>

section \<open>Rules\<close>

type_synonym sys_metric_type = u32

definition SysLoad :: sys_metric_type where "SysLoad = 0"
definition SysAvgRT :: sys_metric_type where "SysAvgRT = 1"
definition SysConcurrency :: sys_metric_type where "SysConcurrency = 2"
definition SysInboundQPS :: sys_metric_type where "SysInboundQPS = 3"
definition SysCpuUsage :: sys_metric_type where "SysCpuUsage = 4"
definition MetricTypeSize :: sys_metric_type where "MetricTypeSize = 5"

lemmas sys_metric_defs = SysLoad_def SysAvgRT_def SysConcurrency_def SysInboundQPS_def SysCpuUsage_def MetricTypeSize_def

definition sys_MetricType_String :: "sys_metric_type \<Rightarrow> string" where
  "sys_MetricType_String t =
     (if t = SysLoad then ''load'' else if t = SysAvgRT then ''avgRT''
      else if t = SysConcurrency then ''concurrency'' else if t = SysInboundQPS then ''inboundQPS''
      else if t = SysCpuUsage then ''cpuUsage'' else ''unknown('' @ FormatUint (unat t) @ '')'')"

text \<open>\<open>iota\<close> counts the lines of its block, so \<open>BBR\<close> is 1.\<close>

definition NoAdaptive :: i32 where "NoAdaptive = - 1"
definition BBR :: i32 where "BBR = 1"

definition AdaptiveStrategy_String :: "i32 \<Rightarrow> string" where
  "AdaptiveStrategy_String t =
     (if t = NoAdaptive then ''none'' else if t = BBR then ''bbr'' else ''unknown('' @ FormatInt (sint t) @ '')'')"

record sys_rule =
  sr_ID :: string
  sr_App :: string
  sr_RuleName :: string
  sr_LimitApp :: string
  sr_MetricType :: sys_metric_type
  sr_TriggerCount :: f64
  sr_Strategy :: i32

definition IsValidSystemRule :: "sys_rule option \<Rightarrow> string option" where
  "IsValidSystemRule rule =
     (case rule of
        None \<Rightarrow> Some ''nil Rule''
      | Some r \<Rightarrow>
          if flt (sr_TriggerCount r) (Fin 0) then Some ''negative threshold''
          else if MetricTypeSize \<le> sr_MetricType r then Some ''invalid metric type''
          else if sr_MetricType r = SysCpuUsage \<and> flt (Fin 1) (sr_TriggerCount r)
            then Some ''invalid CPU usage, valid range is [0.0, 1.0]''
          else None)"

section \<open>The rule manager\<close>

text \<open>A slice may be nil (\<open>None\<close>), which \<open>reflect.DeepEqual\<close> tells from an empty one.\<close>

record sys_manager =
  sys_ruleMap :: "(sys_metric_type, sys_rule list) gomap"
  sys_currentRules :: "sys_rule option list option"

definition initial_sys :: sys_manager where
  "initial_sys = \<lparr>sys_ruleMap = [], sys_currentRules = Some []\<rparr>"

definition slice_elems :: "'a list option \<Rightarrow> 'a list" where
  "slice_elems s = (case s of None \<Rightarrow> [] | Some xs \<Rightarrow> xs)"

fun buildRuleMap_loop :: "sys_rule option list \<Rightarrow> (sys_metric_type, sys_rule list) gomap \<Rightarrow> (sys_metric_type, sys_rule list) gomap" where
  "buildRuleMap_loop [] m = m"
| "buildRuleMap_loop (None # rules) m = buildRuleMap_loop rules m"
| "buildRuleMap_loop (Some rule # rules) m =
     (if IsValidSystemRule (Some rule) \<noteq> None then buildRuleMap_loop rules m
      else buildRuleMap_loop rules (mput (sr_MetricType rule) (mget_list m (sr_MetricType rule) @ [rule]) m))"

definition buildRuleMap :: "sys_rule option list option \<Rightarrow> (sys_metric_type, sys_rule list) gomap" where
  "buildRuleMap rules = buildRuleMap_loop (slice_elems rules) []"

definition sys_onRuleUpdate :: "(sys_metric_type, sys_rule list) gomap \<Rightarrow> sys_manager \<Rightarrow> string option \<times> sys_manager" where
  "sys_onRuleUpdate r m = (None, m\<lparr>sys_ruleMap := r\<rparr>)"

definition sys_LoadRules :: "sys_rule option list option \<Rightarrow> sys_manager \<Rightarrow> (bool \<times> string option) \<times> sys_manager" where
  "sys_LoadRules rules m =
     (if sys_currentRules m = rules then ((False, None), m)
      else case sys_onRuleUpdate (buildRuleMap rules) m of
          (Some err, m) \<Rightarrow> ((False, Some err), m)
        | (None, m) \<Rightarrow> ((True, None), m\<lparr>sys_currentRules := rules\<rparr>))"

definition sys_ClearRules :: "sys_manager \<Rightarrow> (bool \<times> string option) \<times> sys_manager" where
  "sys_ClearRules m = sys_LoadRules None m"

definition sys_getRules :: "sys_manager \<Rightarrow> sys_rule list" where
  "sys_getRules m = concat (map snd (sys_ruleMap m))"

section \<open>The slot\<close>

text \<open>What one rule's check reads from outside: the clock, once per sum, and the system metrics.\<close>

record sys_env =
  se_qps_now :: u64
  se_rt_complete :: u64
  se_rt_total :: u64
  se_bbr_rt :: u64
  se_bbr_complete :: u64
  se_load :: f64
  se_cpu :: f64

definition checkBbrSimple :: "sys_env \<Rightarrow> 'n base_stat_node_scheme \<Rightarrow> bool go" where
  "checkBbrSimple env n =
     (let concurrency = CurrentConcurrency n in
      go_bind (node_MinRT (se_bbr_rt env) n) (\<lambda>minRt.
        go_bind (node_GetMaxAvg (se_bbr_complete env) MetricEventComplete n) (\<lambda>maxComplete.
          Ret (\<not> (1 <s concurrency \<and>
            flt (fdiv (fmul maxComplete minRt) (Fin 1000)) (f64_of_int (sint concurrency)))))))"

text \<open>A check against the load or the CPU usage: over the threshold, the BBR strategy has the last word.\<close>

definition check_usage :: "sys_env \<Rightarrow> string \<Rightarrow> f64 \<Rightarrow> sys_rule \<Rightarrow> 'n base_stat_node_scheme \<Rightarrow> (bool \<times> string \<times> f64) go" where
  "check_usage env blocked l rule n =
     (if flt (sr_TriggerCount rule) l then
        (if sr_Strategy rule \<noteq> BBR then Ret (False, blocked, l)
         else go_bind (checkBbrSimple env n) (\<lambda>ok. Ret (if ok then (True, [], l) else (False, blocked, l))))
      else Ret (True, [], l))"

definition check_below :: "string \<Rightarrow> f64 \<Rightarrow> f64 \<Rightarrow> bool \<times> string \<times> f64" where
  "check_below blocked threshold v = (let res = flt v threshold in (res, if res then [] else blocked, v))"

definition doCheckRule :: "sys_env \<Rightarrow> sys_rule \<Rightarrow> 'n base_stat_node_scheme \<Rightarrow> (bool \<times> string \<times> f64) go" where
  "doCheckRule env rule n =
     (let threshold = sr_TriggerCount rule; t = sr_MetricType rule in
      if t = SysInboundQPS then
        go_bind (node_GetQPS (se_qps_now env) MetricEventPass n) (\<lambda>qps.
          Ret (check_below ''system qps check blocked'' threshold qps))
      else if t = SysConcurrency then
        Ret (check_below ''system concurrency check blocked'' threshold (f64_of_int (sint (CurrentConcurrency n))))
      else if t = SysAvgRT then
        go_bind (node_AvgRT (se_rt_complete env) (se_rt_total env) n) (\<lambda>rt.
          Ret (check_below ''system avg rt check blocked'' threshold rt))
      else if t = SysLoad then check_usage env ''system load check blocked'' (se_load env) rule n
      else if t = SysCpuUsage then check_usage env ''system cpu usage check blocked'' (se_cpu env) rule n
      else Ret (True, ''system undefined metric type, pass by default'', Fin 0))"

text \<open>The loop of \<open>Check\<close>: the first rule that does not pass, with its message and the value it saw.\<close>

fun sys_check_rules ::
  "(nat \<Rightarrow> sys_env) \<Rightarrow> nat \<Rightarrow> sys_rule list \<Rightarrow> 'n base_stat_node_scheme \<Rightarrow> (sys_rule \<times> string \<times> f64) option go" where
  "sys_check_rules env i [] n = Ret None"
| "sys_check_rules env i (rule # rules) n =
     go_bind (doCheckRule (env i) rule n) (\<lambda>(passed, msg, v).
       if passed then sys_check_rules env (Suc i) rules n else Ret (Some (rule, msg, v)))"

definition sys_Slot_Check ::
  "(nat \<Rightarrow> sys_env) \<Rightarrow> (sys_rule, f64) entry_context option \<Rightarrow> sys_manager \<Rightarrow> node_store \<Rightarrow>
   (sys_rule, f64) token_result option go" where
  "sys_Slot_Check env ctx m st =
     (case ctx of
        None \<Rightarrow> Ret None
      | Some ctx \<Rightarrow>
          (case ctx_Resource ctx of
             None \<Rightarrow> Ret None
           | Some rw \<Rightarrow>
               if rw_flowType rw \<noteq> Inbound then Ret None
               else go_bind (sys_check_rules env 0 (sys_getRules m) (inboundNode st)) (\<lambda>blocked.
                 Ret (case blocked of
                   None \<Rightarrow> ctx_RuleCheckResult ctx
                 | Some (rule, msg, v) \<Rightarrow>
                     Some (case ctx_RuleCheckResult ctx of
                       None \<Rightarrow> NewTokenResultBlockedWithCause BlockTypeSystemFlow msg (Some rule) (Some v)
                     | Some r \<Rightarrow> tr_ResetToBlockedWithCause BlockTypeSystemFlow msg (Some rule) (Some v) r)))))"

section \<open>What the slot enforces\<close>

text \<open>The valid rules, grouped by metric type.\<close>

definition sys_valid :: "sys_rule option list \<Rightarrow> sys_rule list" where
  "sys_valid rules = valid_rules IsValidSystemRule rules"

lemma buildRuleMap_get:
  "mget_list (buildRuleMap_loop rules m) t = mget_list m t @ filter (\<lambda>r. sr_MetricType r = t) (sys_valid rules)"
  by (induction rules m rule: buildRuleMap_loop.induct)
    (auto simp: sys_valid_def valid_rules_def map_filter_simps map_simps IsValidSystemRule_def)

lemma buildRuleMap_mwf: "mwf m \<Longrightarrow> mwf (buildRuleMap_loop rules m)"
  by (induction rules m rule: buildRuleMap_loop.induct) (auto simp: gomap.inv_put)

lemma set_concat_gomap:
  assumes "mwf m"
  shows "x \<in> set (concat (map snd m)) \<longleftrightarrow> (\<exists>k. x \<in> set (mget_list m k))"
proof
  assume "x \<in> set (concat (map snd m))"
  then obtain k xs where "(k, xs) \<in> set m" "x \<in> set xs" by auto
  then show "\<exists>k. x \<in> set (mget_list m k)"
    using mget_mem [OF assms] by (intro exI [of _ k]) (simp add: mget_list_def)
next
  assume "\<exists>k. x \<in> set (mget_list m k)"
  then obtain k where "x \<in> set (mget_list m k)" ..
  then obtain xs where "mget m k = Some xs" "x \<in> set xs"
    by (cases "mget m k") (simp_all add: mget_list_def)
  then show "x \<in> set (concat (map snd m))" using mget_in_set by force
qed

lemma sys_rules_loaded:
  assumes "sys_ruleMap m = buildRuleMap rules"
  shows "set (sys_getRules m) = set (sys_valid (slice_elems rules))"
  using set_concat_gomap [OF buildRuleMap_mwf [OF mwf_Nil, of "slice_elems rules"]] assms
  by (auto simp: sys_getRules_def buildRuleMap_def buildRuleMap_get mget_list_def [of "[]"] set_eq_iff)

definition sys_inv :: "sys_manager \<Rightarrow> bool" where
  "sys_inv m \<longleftrightarrow> sys_ruleMap m = buildRuleMap (sys_currentRules m)"

lemma initial_sys_inv: "sys_inv initial_sys"
  by (simp add: sys_inv_def initial_sys_def buildRuleMap_def slice_elems_def)

lemma sys_LoadRules_spec:
  "sys_inv m \<Longrightarrow> sys_inv (snd (sys_LoadRules rules m)) \<and> sys_currentRules (snd (sys_LoadRules rules m)) = rules"
  by (auto simp: sys_LoadRules_def sys_onRuleUpdate_def sys_inv_def)

lemma sys_loads_spec:
  "sys_inv m \<Longrightarrow> sys_inv (foldl (\<lambda>m rules. snd (sys_LoadRules rules m)) m loads) \<and>
    sys_currentRules (foldl (\<lambda>m rules. snd (sys_LoadRules rules m)) m loads) = last (sys_currentRules m # loads)"
  by (induction loads arbitrary: m) (use sys_LoadRules_spec in auto)

lemma node_reads_total:
  assumes "bsn_metric n \<noteq> None"
  shows "\<exists>x. doCheckRule env rule n = Ret x"
proof -
  obtain m where m: "bsn_metric n = Some m" using assms by blast
  have bbr: "\<exists>b. checkBbrSimple env n = Ret b"
    by (simp add: checkBbrSimple_def node_MinRT_def node_GetMaxAvg_def with_metric_def m Let_def)
  then have usage: "\<exists>x. check_usage env msg l rule n = Ret x" for msg l
    by (auto simp: check_usage_def)
  show ?thesis
    unfolding doCheckRule_def Let_def node_GetQPS_def node_AvgRT_def with_metric_def m
    using usage by (auto simp del: split_paired_Ex)
qed

text \<open>Whether a rule lets a request through.\<close>

definition rule_passes :: "sys_env \<Rightarrow> sys_rule \<Rightarrow> 'n base_stat_node_scheme \<Rightarrow> bool" where
  "rule_passes env rule n \<longleftrightarrow> (\<exists>msg v. doCheckRule env rule n = Ret (True, msg, v))"

lemma sys_check_rules_spec:
  assumes "bsn_metric n \<noteq> None"
  shows "\<exists>b. sys_check_rules (\<lambda>_. env) i rules n = Ret b \<and>
    (case b of None \<Rightarrow> \<forall>r \<in> set rules. rule_passes env r n
     | Some (r, msg, v) \<Rightarrow> r \<in> set rules \<and> \<not> rule_passes env r n \<and> doCheckRule env r n = Ret (False, msg, v))"
proof (induction rules arbitrary: i)
  case (Cons r rules)
  obtain ok msg v where c: "doCheckRule env r n = Ret (ok, msg, v)"
    using node_reads_total [OF assms, of env r] by (metis prod_cases3)
  show ?case
  proof (cases ok)
    case True
    obtain b where b: "sys_check_rules (\<lambda>_. env) (Suc i) rules n = Ret b"
      "case b of None \<Rightarrow> \<forall>r \<in> set rules. rule_passes env r n
       | Some (r, msg, v) \<Rightarrow> r \<in> set rules \<and> \<not> rule_passes env r n \<and> doCheckRule env r n = Ret (False, msg, v)"
      using Cons.IH [of "Suc i"] by blast
    then show ?thesis using True c by (intro exI [of _ b]) (auto simp: rule_passes_def split: option.splits)
  next
    case False
    then show ?thesis using c by (auto simp: rule_passes_def)
  qed
qed simp

text \<open>
  C23: The adaptive slot enforces the rules of the last load, whatever was loaded before: an inbound
  request is blocked exactly if one of the valid rules does not pass, and then the result reports such a
  rule with the value it saw; requests that are not inbound are left alone. (In which order the rules are
  tried is up to Go's map.)
\<close>

theorem system_slot_enforces_last_load:
  fixes loads
  defines "m \<equiv> foldl (\<lambda>m rules. snd (sys_LoadRules rules m)) initial_sys loads"
    and "rules \<equiv> sys_valid (slice_elems (last (Some [] # loads)))"
  assumes "bsn_metric (inboundNode st) \<noteq> None" and "ctx_Resource ctx = Some rw"
  shows "\<exists>result. sys_Slot_Check (\<lambda>_. env) (Some ctx) m st = Ret result \<and>
    (if rw_flowType rw \<noteq> Inbound then result = None
     else if \<forall>r \<in> set rules. rule_passes env r (inboundNode st) then result = ctx_RuleCheckResult ctx
     else \<exists>q r msg v. result = Some q \<and> tr_IsBlocked q \<and> r \<in> set rules \<and>
       doCheckRule env r (inboundNode st) = Ret (False, msg, v) \<and>
       tr_blockErr q = Some \<lparr>be_blockType = BlockTypeSystemFlow, be_blockMsg = msg, be_rule = Some r,
         be_snapshotValue = Some v\<rparr>)"
proof -
  have inv: "sys_inv m \<and> sys_currentRules m = last (Some [] # loads)"
    using sys_loads_spec [OF initial_sys_inv, of loads] by (simp add: m_def initial_sys_def)
  then have rules: "set (sys_getRules m) = set rules"
    using sys_rules_loaded by (simp add: sys_inv_def rules_def)
  obtain b where b: "sys_check_rules (\<lambda>_. env) 0 (sys_getRules m) (inboundNode st) = Ret b"
    "case b of None \<Rightarrow> \<forall>r \<in> set (sys_getRules m). rule_passes env r (inboundNode st)
     | Some (r, msg, v) \<Rightarrow> r \<in> set (sys_getRules m) \<and> \<not> rule_passes env r (inboundNode st) \<and>
         doCheckRule env r (inboundNode st) = Ret (False, msg, v)"
    using sys_check_rules_spec [OF assms(3)] by blast
  show ?thesis
  proof (cases "rw_flowType rw = Inbound")
    case True
    show ?thesis
    proof (cases b)
      case None
      then show ?thesis using b rules True assms(4) by (simp add: sys_Slot_Check_def)
    next
      case (Some x)
      obtain r msg v where x: "x = (r, msg, v)" by (cases x)
      then have r: "r \<in> set rules" "\<not> rule_passes env r (inboundNode st)"
        "doCheckRule env r (inboundNode st) = Ret (False, msg, v)"
        using b(2) rules Some by simp_all
      then have "\<not> (\<forall>r \<in> set rules. rule_passes env r (inboundNode st))" by blast
      then show ?thesis
        using b(1) Some x True assms(4) r
        by (cases "ctx_RuleCheckResult ctx") (auto simp: sys_Slot_Check_def result_simps)
    qed
  qed (simp add: sys_Slot_Check_def assms(4))
qed

text \<open>A limit of 3 inbound requests in flight, an invalid rule and a nil one; the node has 5.\<close>

definition demo_sys_rule :: sys_rule where
  "demo_sys_rule = \<lparr>sr_ID = [], sr_App = [], sr_RuleName = [], sr_LimitApp = [], sr_MetricType = SysConcurrency,
     sr_TriggerCount = Fin 3, sr_Strategy = NoAdaptive\<rparr>"

definition demo_sys_loads :: "sys_rule option list option list" where
  "demo_sys_loads = [None, Some [Some demo_sys_rule, Some (demo_sys_rule\<lparr>sr_MetricType := 9\<rparr>), None]]"

theorem system_slot_enforces_last_load_witness:
  "\<exists>env st q. sys_Slot_Check (\<lambda>_. env)
      (Some (NewPooledContext\<lparr>ctx_Resource := Some \<lparr>rw_name = ''abc'', rw_classification = 0, rw_flowType = Inbound\<rparr>\<rparr>))
      (foldl (\<lambda>m rules. snd (sys_LoadRules rules m)) initial_sys demo_sys_loads) st = Ret (Some q) \<and> tr_IsBlocked q"
proof -
  define n :: resource_node where "n = undefined\<lparr>bsn_concurrency := 5, bsn_metric := Some undefined\<rparr>"
  let ?st = "\<lparr>inboundNode = n, cpuNode = n, loadNode = n, resNodeMap = []\<rparr>"
  have rules: "sys_valid (slice_elems (last (Some [] # demo_sys_loads))) = [demo_sys_rule]"
    by (simp add: demo_sys_loads_def slice_elems_def sys_valid_def valid_rules_def map_filter_simps
        IsValidSystemRule_def demo_sys_rule_def sys_metric_defs)
  have "\<not> rule_passes env demo_sys_rule n" for env
    by (simp add: rule_passes_def doCheckRule_def demo_sys_rule_def sys_metric_defs check_below_def
        CurrentConcurrency_def n_def)
  then show ?thesis
    using system_slot_enforces_last_load [of ?st "NewPooledContext\<lparr>ctx_Resource :=
        Some \<lparr>rw_name = ''abc'', rw_classification = 0, rw_flowType = Inbound\<rparr>\<rparr>" _ undefined demo_sys_loads]
    unfolding rules by (fastforce simp: n_def)
qed

end
