(* ===== verification/Lru.thy ===== *)
theory Lru
  imports Prelude
begin

text \<open>
  The cache of the hot parameters, \<open>core/hotspot/cache\<close>: the LRU of \<open>lru.go\<close> over Go's \<open>container/list\<close>,
  and the interface \<open>ConcurrentCounterCache\<close> that \<open>concurrent_lru.go\<close> gives it under a lock.

  An element of the list is identified by a number, a pointer to it is that number. The list runs from
  front to back. Keys are those that equal themselves: a NaN is not in the model. The calls of the
  eviction callback are logged, if there is one.
\<close>

section \<open>The cache\<close>

record ('k, 'v) lru =
  lru_size :: int
  lru_evictList :: "(nat \<times> 'k \<times> 'v) list"
  lru_items :: "('k, nat) gomap"
  lru_onEvict :: bool
  lru_evicted :: "('k \<times> 'v) list"
  lru_fresh :: nat

definition NewLRU :: "int \<Rightarrow> bool \<Rightarrow> ('k, 'v) lru go" where
  "NewLRU n onEvict =
     (if n \<le> 0 then Err ''must provide a positive size''
      else Ret \<lparr>lru_size = n, lru_evictList = [], lru_items = [], lru_onEvict = onEvict, lru_evicted = [],
                lru_fresh = 0\<rparr>)"

text \<open>The list operations the cache uses. Moving or removing an element that is not in the list does nothing.\<close>

definition element :: "nat \<Rightarrow> ('k, 'v) lru \<Rightarrow> ('k \<times> 'v) option" where
  "element e c = map_of (lru_evictList c) e"

definition MoveToFront :: "nat \<Rightarrow> ('k, 'v) lru \<Rightarrow> ('k, 'v) lru" where
  "MoveToFront e c =
     (case element e c of None \<Rightarrow> c
      | Some kv \<Rightarrow> c\<lparr>lru_evictList := (e, kv) # filter (\<lambda>x. fst x \<noteq> e) (lru_evictList c)\<rparr>)"

definition PushFront :: "'k \<Rightarrow> 'v \<Rightarrow> ('k, 'v) lru \<Rightarrow> nat \<times> ('k, 'v) lru" where
  "PushFront k v c = (lru_fresh c, c\<lparr>lru_evictList := (lru_fresh c, k, v) # lru_evictList c, lru_fresh := Suc (lru_fresh c)\<rparr>)"

definition list_Back :: "('k, 'v) lru \<Rightarrow> nat option" where
  "list_Back c = (if lru_evictList c = [] then None else Some (fst (last (lru_evictList c))))"

definition set_value :: "nat \<Rightarrow> 'v \<Rightarrow> ('k, 'v) lru \<Rightarrow> ('k, 'v) lru" where
  "set_value e v c = c\<lparr>lru_evictList := map (\<lambda>(e', k, w). if e' = e then (e', k, v) else (e', k, w)) (lru_evictList c)\<rparr>"

definition removeElement :: "nat \<Rightarrow> ('k, 'v) lru \<Rightarrow> ('k, 'v) lru" where
  "removeElement e c =
     (case element e c of None \<Rightarrow> c
      | Some (k, v) \<Rightarrow>
          c\<lparr>lru_evictList := filter (\<lambda>x. fst x \<noteq> e) (lru_evictList c), lru_items := mdel k (lru_items c),
            lru_evicted := (if lru_onEvict c then lru_evicted c @ [(k, v)] else lru_evicted c)\<rparr>)"

definition removeOldest :: "('k, 'v) lru \<Rightarrow> ('k, 'v) lru" where
  "removeOldest c = (case list_Back c of None \<Rightarrow> c | Some e \<Rightarrow> removeElement e c)"

definition lru_Len :: "('k, 'v) lru \<Rightarrow> int" where
  "lru_Len c = int (length (lru_evictList c))"

text \<open>A new item goes to the front, and the oldest one is dropped if that is one too many.\<close>

definition add_new :: "'k \<Rightarrow> 'v \<Rightarrow> ('k, 'v) lru \<Rightarrow> ('k, 'v) lru" where
  "add_new k v c =
     (let (e, c) = PushFront k v c; c = c\<lparr>lru_items := mput k e (lru_items c)\<rparr>
      in if lru_size c < lru_Len c then removeOldest c else c)"

definition lru_Add :: "'k \<Rightarrow> 'v \<Rightarrow> ('k, 'v) lru \<Rightarrow> ('k, 'v) lru" where
  "lru_Add k v c =
     (case mget (lru_items c) k of
        Some e \<Rightarrow> set_value e v (MoveToFront e c)
      | None \<Rightarrow> add_new k v c)"

definition lru_AddIfAbsent :: "'k \<Rightarrow> 'v \<Rightarrow> ('k, 'v) lru \<Rightarrow> 'v option \<times> ('k, 'v) lru" where
  "lru_AddIfAbsent k v c =
     (case mget (lru_items c) k of
        Some e \<Rightarrow> (map_option snd (element e c), MoveToFront e c)
      | None \<Rightarrow> (None, add_new k v c))"

definition lru_Get :: "'k \<Rightarrow> ('k, 'v) lru \<Rightarrow> 'v option \<times> ('k, 'v) lru" where
  "lru_Get k c =
     (case mget (lru_items c) k of
        Some e \<Rightarrow> (map_option snd (element e c), MoveToFront e c)
      | None \<Rightarrow> (None, c))"

definition lru_Contains :: "'k \<Rightarrow> ('k, 'v) lru \<Rightarrow> bool" where
  "lru_Contains k c \<longleftrightarrow> mget (lru_items c) k \<noteq> None"

definition lru_Peek :: "'k \<Rightarrow> ('k, 'v) lru \<Rightarrow> 'v option" where
  "lru_Peek k c = Option.bind (mget (lru_items c) k) (\<lambda>e. map_option snd (element e c))"

definition lru_Remove :: "'k \<Rightarrow> ('k, 'v) lru \<Rightarrow> bool \<times> ('k, 'v) lru" where
  "lru_Remove k c =
     (case mget (lru_items c) k of Some e \<Rightarrow> (True, removeElement e c) | None \<Rightarrow> (False, c))"

definition GetOldest :: "('k, 'v) lru \<Rightarrow> ('k \<times> 'v) option" where
  "GetOldest c = (case list_Back c of None \<Rightarrow> None | Some e \<Rightarrow> element e c)"

definition RemoveOldest :: "('k, 'v) lru \<Rightarrow> ('k \<times> 'v) option \<times> ('k, 'v) lru" where
  "RemoveOldest c = (case list_Back c of None \<Rightarrow> (None, c) | Some e \<Rightarrow> (element e c, removeElement e c))"

definition lru_Purge :: "('k, 'v) lru \<Rightarrow> ('k, 'v) lru" where
  "lru_Purge c =
     c\<lparr>lru_items := [], lru_evictList := [],
       lru_evicted := (if lru_onEvict c
         then lru_evicted c @ List.map_filter (\<lambda>(k, e). map_option (\<lambda>(_, v). (k, v)) (element e c)) (lru_items c)
         else lru_evicted c)\<rparr>"

text \<open>The index of the loop is never advanced: every key is written to the first place.\<close>

definition lru_Keys :: "('k, 'v) lru \<Rightarrow> 'k option list go" where
  "lru_Keys c =
     (let keys = replicate (length (lru_items c)) None in
      if keys = [] \<and> lru_evictList c \<noteq> [] then Panic ''index out of range''
      else Ret (foldl (\<lambda>keys x. keys[0 := Some (fst (snd x))]) keys (rev (lru_evictList c))))"

definition Resize :: "int \<Rightarrow> ('k, 'v) lru \<Rightarrow> int \<times> ('k, 'v) lru" where
  "Resize n c =
     (let diff = lru_Len c - n; diff = (if diff < 0 then 0 else diff)
      in (diff, ((removeOldest ^^ nat diff) c)\<lparr>lru_size := n\<rparr>))"

definition NewLRUCacheMap :: "int \<Rightarrow> ('k, 'v) lru option" where
  "NewLRUCacheMap n = (case NewLRU n False of Ret c \<Rightarrow> Some c | _ \<Rightarrow> None)"

section \<open>The reference: a list of bindings, most recently used first\<close>

definition entries :: "('k, 'v) lru \<Rightarrow> ('k \<times> 'v) list" where
  "entries c = map snd (lru_evictList c)"

definition drop_key :: "'k \<Rightarrow> ('k \<times> 'v) list \<Rightarrow> ('k \<times> 'v) list" where
  "drop_key k xs = filter (\<lambda>x. fst x \<noteq> k) xs"

definition lru_inv :: "('k, 'v) lru \<Rightarrow> bool" where
  "lru_inv c \<longleftrightarrow> distinct (map fst (lru_evictList c)) \<and> distinct (map fst (entries c)) \<and> mwf (lru_items c) \<and>
     (\<forall>k e. mget (lru_items c) k = Some e \<longleftrightarrow> (\<exists>v. (e, k, v) \<in> set (lru_evictList c))) \<and>
     (\<forall>e \<in> fst ` set (lru_evictList c). e < lru_fresh c)"

definition lru_ok :: "('k, 'v) lru \<Rightarrow> bool" where
  "lru_ok c \<longleftrightarrow> lru_inv c \<and> length (entries c) \<le> nat (lru_size c)"

lemma element_iff: "lru_inv c \<Longrightarrow> element e c = Some kv \<longleftrightarrow> (e, kv) \<in> set (lru_evictList c)"
  by (simp add: element_def lru_inv_def)

lemma items_iff: "lru_inv c \<Longrightarrow> mget (lru_items c) k = Some e \<longleftrightarrow> (\<exists>v. (e, k, v) \<in> set (lru_evictList c))"
  by (simp add: lru_inv_def)

lemma map_of_entries: "lru_inv c \<Longrightarrow> map_of (entries c) k = Some v \<longleftrightarrow> (k, v) \<in> set (entries c)"
  by (simp add: lru_inv_def)

lemma items_None: "lru_inv c \<Longrightarrow> mget (lru_items c) k = None \<longleftrightarrow> map_of (entries c) k = None"
proof -
  assume inv: "lru_inv c"
  have "mget (lru_items c) k \<noteq> None \<longleftrightarrow> (\<exists>e v. (e, k, v) \<in> set (lru_evictList c))"
    using inv by (auto simp: lru_inv_def)
  also have "\<dots> \<longleftrightarrow> k \<in> fst ` set (entries c)" by (force simp: entries_def)
  also have "\<dots> \<longleftrightarrow> map_of (entries c) k \<noteq> None" by (metis map_of_eq_None_iff)
  finally show ?thesis by blast
qed

lemma items_Some:
  assumes "lru_inv c" and "mget (lru_items c) k = Some e"
  obtains v where "(e, k, v) \<in> set (lru_evictList c)" and "element e c = Some (k, v)" and "map_of (entries c) k = Some v"
proof -
  from assms obtain v where v: "(e, k, v) \<in> set (lru_evictList c)" by (auto simp: lru_inv_def)
  then have "(k, v) \<in> set (entries c)" by (force simp: entries_def)
  with assms(1) v show thesis by (intro that [of v]) (simp_all add: element_iff map_of_entries)
qed

text \<open>Removing an element by its number is removing its key.\<close>

lemma filter_elem:
  assumes "lru_inv c" and "(e, k, v) \<in> set (lru_evictList c)"
  shows "map snd (filter (\<lambda>x. fst x \<noteq> e) (lru_evictList c)) = drop_key k (entries c)"
proof -
  have "fst x = e \<longleftrightarrow> fst (snd x) = k" if "x \<in> set (lru_evictList c)" for x
  proof -
    obtain e' k' v' where x: "x = (e', k', v')" by (cases x)
    have "inj_on fst (set (lru_evictList c))" "inj_on (\<lambda>x. fst (snd x)) (set (lru_evictList c))"
      using assms(1) by (simp_all add: lru_inv_def entries_def distinct_map o_def)
    then show ?thesis using that assms(2) unfolding x by (metis fst_conv inj_onD snd_conv)
  qed
  then have "filter (\<lambda>x. fst x \<noteq> e) (lru_evictList c) = filter (\<lambda>x. fst (snd x) \<noteq> k) (lru_evictList c)"
    by (intro filter_cong) auto
  then show ?thesis by (simp add: entries_def drop_key_def filter_map o_def)
qed

lemma drop_key_absent: "map_of xs k = None \<Longrightarrow> drop_key k xs = xs"
  by (auto simp: drop_key_def map_of_eq_None_iff intro!: filter_True)

lemma drop_key_last: "distinct (map fst (xs @ [(k, v)])) \<Longrightarrow> drop_key k (xs @ [(k, v)]) = xs"
  by (auto simp: drop_key_def intro!: filter_True)

lemma removeElement_spec:
  assumes "lru_inv c" and "(e, k, v) \<in> set (lru_evictList c)"
  shows "lru_inv (removeElement e c)" and "entries (removeElement e c) = drop_key k (entries c)"
    and "lru_size (removeElement e c) = lru_size c"
proof -
  have el: "element e c = Some (k, v)" using assms by (simp add: element_iff)
  show ent: "entries (removeElement e c) = drop_key k (entries c)"
    using filter_elem [OF assms] by (simp add: removeElement_def el entries_def)
  show "lru_size (removeElement e c) = lru_size c" by (simp add: removeElement_def el)
  have uniq: "e' = e \<longleftrightarrow> k' = k" if "(e', k', v') \<in> set (lru_evictList c)" for e' k' v'
  proof -
    have "inj_on fst (set (lru_evictList c))" "inj_on (\<lambda>x. fst (snd x)) (set (lru_evictList c))"
      using assms(1) by (simp_all add: lru_inv_def entries_def distinct_map o_def)
    then show ?thesis using that assms(2) by (metis fst_conv inj_onD snd_conv)
  qed
  have "distinct (map fst (entries (removeElement e c)))"
    using assms(1) unfolding ent drop_key_def by (simp add: lru_inv_def distinct_map_filter)
  moreover have "mget (mdel k (lru_items c)) k' = Some e' \<longleftrightarrow>
      (\<exists>v. (e', k', v) \<in> set (filter (\<lambda>x. fst x \<noteq> e) (lru_evictList c)))" for k' e'
    using assms(1) uniq by (auto simp: map_simps lru_inv_def)
  ultimately show "lru_inv (removeElement e c)"
    using assms(1) by (auto simp: lru_inv_def removeElement_def el distinct_map_filter gomap.inv_del)
qed

lemma removeOldest_spec:
  assumes "lru_inv c"
  shows "lru_inv (removeOldest c) \<and> entries (removeOldest c) = butlast (entries c) \<and>
    lru_size (removeOldest c) = lru_size c"
proof (cases "lru_evictList c = []")
  case True
  then show ?thesis using assms by (simp add: removeOldest_def list_Back_def entries_def)
next
  case False
  obtain e k v where last: "last (lru_evictList c) = (e, k, v)" by (metis prod_cases3)
  then have mem: "(e, k, v) \<in> set (lru_evictList c)" using False by (metis last_in_set)
  have "entries c = butlast (entries c) @ [(k, v)]"
    using False last by (metis append_butlast_last_id entries_def last_map map_is_Nil_conv snd_conv)
  then have "drop_key k (entries c) = butlast (entries c)"
    using drop_key_last [of "butlast (entries c)" k v] assms by (simp add: lru_inv_def)
  then show ?thesis
    using False last removeElement_spec [OF assms mem] by (simp add: removeOldest_def list_Back_def)
qed

lemma removeOldest_iter:
  "lru_inv c \<Longrightarrow> lru_inv ((removeOldest ^^ n) c) \<and> entries ((removeOldest ^^ n) c) = take (length (entries c) - n) (entries c) \<and>
    lru_size ((removeOldest ^^ n) c) = lru_size c"
  by (induction n) (auto simp: removeOldest_spec butlast_take)

lemma MoveToFront_spec:
  assumes "lru_inv c" and "(e, k, v) \<in> set (lru_evictList c)"
  shows "lru_inv (MoveToFront e c)" and "entries (MoveToFront e c) = (k, v) # drop_key k (entries c)"
    and "lru_size (MoveToFront e c) = lru_size c" and "element e (MoveToFront e c) = Some (k, v)"
proof -
  have el: "element e c = Some (k, v)" using assms by (simp add: element_iff)
  show ent: "entries (MoveToFront e c) = (k, v) # drop_key k (entries c)"
    using filter_elem [OF assms] by (simp add: MoveToFront_def el entries_def)
  show "lru_size (MoveToFront e c) = lru_size c" by (simp add: MoveToFront_def el)
  show "element e (MoveToFront e c) = Some (k, v)" by (simp add: MoveToFront_def el) (simp add: element_def)
  have set: "set ((e, k, v) # filter (\<lambda>x. fst x \<noteq> e) (lru_evictList c)) = set (lru_evictList c)"
  proof -
    have eq: "x = (e, k, v)" if "x \<in> set (lru_evictList c)" "fst x = e" for x
    proof -
      have "inj_on fst (set (lru_evictList c))"
        using assms(1) by (simp add: lru_inv_def distinct_map)
      then show ?thesis using that assms(2) by (metis fst_conv inj_onD)
    qed
    show ?thesis
    proof (rule set_eqI)
      fix x
      show "x \<in> set ((e, k, v) # filter (\<lambda>x. fst x \<noteq> e) (lru_evictList c)) \<longleftrightarrow> x \<in> set (lru_evictList c)"
        using eq [of x] assms(2) by (cases "fst x = e") auto
    qed
  qed
  have "distinct (map fst (entries c))" using assms(1) by (simp add: lru_inv_def)
  then have "distinct (map fst (entries (MoveToFront e c)))"
    unfolding ent drop_key_def by (auto simp: distinct_map_filter)
  moreover have "distinct (map fst ((e, k, v) # filter (\<lambda>x. fst x \<noteq> e) (lru_evictList c)))"
  proof -
    have "distinct (map fst (lru_evictList c))" using assms(1) by (simp add: lru_inv_def)
    then show ?thesis by (auto simp: distinct_map_filter)
  qed
  moreover have L: "lru_evictList (MoveToFront e c) = (e, k, v) # filter (\<lambda>x. fst x \<noteq> e) (lru_evictList c)"
    "lru_items (MoveToFront e c) = lru_items c" "lru_fresh (MoveToFront e c) = lru_fresh c"
    by (simp_all add: MoveToFront_def el)
  ultimately show "lru_inv (MoveToFront e c)"
    using assms(1) unfolding lru_inv_def L set by blast
qed

lemma add_new_spec:
  assumes "lru_ok c" and "map_of (entries c) k = None"
  shows "lru_ok (add_new k v c) \<and> entries (add_new k v c) = take (nat (lru_size c)) ((k, v) # entries c) \<and>
    lru_size (add_new k v c) = lru_size c"
proof -
  let ?c = "c\<lparr>lru_evictList := (lru_fresh c, k, v) # lru_evictList c, lru_fresh := Suc (lru_fresh c),
              lru_items := mput k (lru_fresh c) (lru_items c)\<rparr>"
  have inv: "lru_inv c" and len: "length (entries c) \<le> nat (lru_size c)" using assms(1) by (simp_all add: lru_ok_def)
  have new: "k \<notin> fst ` set (entries c)" "lru_fresh c \<notin> fst ` set (lru_evictList c)"
    using assms(2) inv by (auto simp: map_of_eq_None_iff lru_inv_def)
  have none: "mget (lru_items c) k = None" using items_None [OF inv] assms(2) by simp
  have ent: "entries ?c = (k, v) # entries c" by (simp add: entries_def)
  have "mget (mput k (lru_fresh c) (lru_items c)) k' = Some e' \<longleftrightarrow>
      (\<exists>v'. (e', k', v') \<in> set ((lru_fresh c, k, v) # lru_evictList c))" for k' e'
  proof -
    note items = items_iff [OF inv, of k' e']
    have "(e', k, v') \<notin> set (lru_evictList c)" for v'
      using none items_iff [OF inv, of k e'] by auto
    with items show ?thesis by (auto simp: map_simps)
  qed
  then have inv': "lru_inv ?c"
    using inv new unfolding lru_inv_def ent by (auto simp: gomap.inv_put)
  have lens: "lru_Len ?c = int (Suc (length (entries c)))" by (simp add: lru_Len_def entries_def)
  have add: "add_new k v c = (if lru_size c < lru_Len ?c then removeOldest ?c else ?c)"
    by (simp add: add_new_def PushFront_def Let_def)
  show ?thesis
  proof (cases "lru_size c < lru_Len ?c")
    case True
    then have "nat (lru_size c) = length (entries c)" using len lens by linarith
    then show ?thesis
      using True add removeOldest_spec [OF inv'] ent by (simp add: lru_ok_def butlast_conv_take)
  next
    case False
    then have "Suc (length (entries c)) \<le> nat (lru_size c)" using lens by linarith
    then show ?thesis using False add inv' ent by (simp add: lru_ok_def)
  qed
qed

lemma set_value_spec:
  assumes "lru_inv c" and "(e, k, w) \<in> set (lru_evictList c)"
  shows "lru_inv (set_value e v c) \<and> lru_size (set_value e v c) = lru_size c \<and>
    entries (set_value e v c) = map (\<lambda>(k', w'). if k' = k then (k', v) else (k', w')) (entries c)"
proof -
  let ?f = "\<lambda>(e', k, w). if e' = e then (e', k, v) else (e', k, w)"
  have inj: "inj_on fst (set (lru_evictList c))" "inj_on (\<lambda>x. fst (snd x)) (set (lru_evictList c))"
    using assms(1) by (simp_all add: lru_inv_def entries_def distinct_map o_def)
  have uniq: "e' = e \<longleftrightarrow> k' = k" if "(e', k', w') \<in> set (lru_evictList c)" for e' k' w'
    using inj that assms(2) by (metis fst_conv inj_onD snd_conv)
  have ent: "entries (set_value e v c) = map (\<lambda>(k', w'). if k' = k then (k', v) else (k', w')) (entries c)"
    using uniq by (force simp: entries_def set_value_def)
  have fst: "map fst (map ?f (lru_evictList c)) = map fst (lru_evictList c)"
    "map fst (entries (set_value e v c)) = map fst (entries c)"
    unfolding ent by (auto simp: split_beta)
  have L: "lru_evictList (set_value e v c) = map ?f (lru_evictList c)" "lru_items (set_value e v c) = lru_items c"
    "lru_fresh (set_value e v c) = lru_fresh c" "lru_size (set_value e v c) = lru_size c"
    by (simp_all add: set_value_def)
  have mem: "(\<exists>w. (e', k', w) \<in> set (map ?f (lru_evictList c))) \<longleftrightarrow> (\<exists>w. (e', k', w) \<in> set (lru_evictList c))" for e' k'
  proof
    assume "\<exists>w. (e', k', w) \<in> set (map ?f (lru_evictList c))"
    then obtain w a b d where x: "(a, b, d) \<in> set (lru_evictList c)" "(e', k', w) = ?f (a, b, d)"
      unfolding set_map by (metis (no_types, lifting) imageE prod_cases3)
    then have "a = e' \<and> b = k'" by (simp split: if_splits)
    with x show "\<exists>w. (e', k', w) \<in> set (lru_evictList c)" by blast
  next
    assume "\<exists>w. (e', k', w) \<in> set (lru_evictList c)"
    then obtain w where "(e', k', w) \<in> set (lru_evictList c)" ..
    then have "?f (e', k', w) \<in> set (map ?f (lru_evictList c))" unfolding set_map by (rule imageI)
    then show "\<exists>w. (e', k', w) \<in> set (map ?f (lru_evictList c))" by (auto split: if_splits simp del: set_map)
  qed
  have keys: "fst ` set (map ?f (lru_evictList c)) = fst ` set (lru_evictList c)"
    using fst(1) by (metis set_map)
  have "lru_inv (set_value e v c)"
    unfolding lru_inv_def L mem keys fst using assms(1) by (simp add: lru_inv_def)
  with ent L show ?thesis by simp
qed

section \<open>The cache refines the reference\<close>

datatype ('k, 'v) lru_op =
  OpAdd 'k 'v | OpAddIfAbsent 'k 'v | OpGet 'k | OpContains 'k | OpPeek 'k | OpRemove 'k
| OpRemoveOldest | OpGetOldest | OpLen | OpResize int | OpPurge

datatype ('k, 'v) lru_res = NoRes | ResV "'v option" | ResB bool | ResKV "('k \<times> 'v) option" | ResN int

fun lru_step :: "('k, 'v) lru_op \<Rightarrow> ('k, 'v) lru \<Rightarrow> ('k, 'v) lru_res \<times> ('k, 'v) lru" where
  "lru_step (OpAdd k v) c = (NoRes, lru_Add k v c)"
| "lru_step (OpAddIfAbsent k v) c = map_prod ResV id (lru_AddIfAbsent k v c)"
| "lru_step (OpGet k) c = map_prod ResV id (lru_Get k c)"
| "lru_step (OpContains k) c = (ResB (lru_Contains k c), c)"
| "lru_step (OpPeek k) c = (ResV (lru_Peek k c), c)"
| "lru_step (OpRemove k) c = map_prod ResB id (lru_Remove k c)"
| "lru_step OpRemoveOldest c = map_prod ResKV id (RemoveOldest c)"
| "lru_step OpGetOldest c = (ResKV (GetOldest c), c)"
| "lru_step OpLen c = (ResN (lru_Len c), c)"
| "lru_step (OpResize n) c = map_prod ResN id (Resize n c)"
| "lru_step OpPurge c = (NoRes, lru_Purge c)"

text \<open>What a cache of \<open>n\<close> bindings does, on the list of its bindings from the most to the least recently used.\<close>

definition touch :: "'k \<Rightarrow> ('k \<times> 'v) list \<Rightarrow> ('k \<times> 'v) list" where
  "touch k xs = (case map_of xs k of None \<Rightarrow> xs | Some v \<Rightarrow> (k, v) # drop_key k xs)"

definition oldest :: "('k \<times> 'v) list \<Rightarrow> ('k \<times> 'v) option" where
  "oldest xs = (if xs = [] then None else Some (last xs))"

fun ref_step :: "('k, 'v) lru_op \<Rightarrow> int \<times> ('k \<times> 'v) list \<Rightarrow> ('k, 'v) lru_res \<times> int \<times> ('k \<times> 'v) list" where
  "ref_step (OpAdd k v) (n, xs) = (NoRes, n, take (nat n) ((k, v) # drop_key k xs))"
| "ref_step (OpAddIfAbsent k v) (n, xs) =
     (ResV (map_of xs k), n, if map_of xs k = None then take (nat n) ((k, v) # xs) else touch k xs)"
| "ref_step (OpGet k) (n, xs) = (ResV (map_of xs k), n, touch k xs)"
| "ref_step (OpContains k) (n, xs) = (ResB (map_of xs k \<noteq> None), n, xs)"
| "ref_step (OpPeek k) (n, xs) = (ResV (map_of xs k), n, xs)"
| "ref_step (OpRemove k) (n, xs) = (ResB (map_of xs k \<noteq> None), n, drop_key k xs)"
| "ref_step OpRemoveOldest (n, xs) = (ResKV (oldest xs), n, butlast xs)"
| "ref_step OpGetOldest (n, xs) = (ResKV (oldest xs), n, xs)"
| "ref_step OpLen (n, xs) = (ResN (int (length xs)), n, xs)"
| "ref_step (OpResize m) (n, xs) = (ResN (max 0 (int (length xs) - m)), m, take (nat m) xs)"
| "ref_step OpPurge (n, xs) = (NoRes, n, [])"

fun run_steps :: "('o \<Rightarrow> 'c \<Rightarrow> 'x \<times> 'c) \<Rightarrow> 'o list \<Rightarrow> 'c \<Rightarrow> 'x list \<times> 'c" where
  "run_steps step [] c = ([], c)"
| "run_steps step (op # ops) c = (let (x, c) = step op c; (xs, c) = run_steps step ops c in (x # xs, c))"

lemma length_drop_key: "map_of xs k = Some v \<Longrightarrow> length (drop_key k xs) < length xs"
  by (auto simp: drop_key_def dest: map_of_SomeD intro!: length_filter_less)

lemma lru_hit:
  assumes "lru_ok c" and "map_of (entries c) k = Some v"
  obtains e where "mget (lru_items c) k = Some e" and "element e c = Some (k, v)" and "(e, k, v) \<in> set (lru_evictList c)"
proof -
  have inv: "lru_inv c" using assms(1) by (simp add: lru_ok_def)
  then obtain e where e: "mget (lru_items c) k = Some e" using items_None [OF inv, of k] assms(2) by fastforce
  from items_Some [OF inv e] obtain w where "(e, k, w) \<in> set (lru_evictList c)" "element e c = Some (k, w)"
    "map_of (entries c) k = Some w" by metis
  with e assms(2) show thesis by (intro that) auto
qed

lemma lru_miss: "lru_ok c \<Longrightarrow> map_of (entries c) k = None \<Longrightarrow> mget (lru_items c) k = None"
  by (simp add: lru_ok_def items_None)

lemma MoveToFront_ok:
  assumes "lru_ok c" and "map_of (entries c) k = Some v" and "(e, k, v) \<in> set (lru_evictList c)"
  shows "lru_ok (MoveToFront e c) \<and> entries (MoveToFront e c) = touch k (entries c) \<and> lru_size (MoveToFront e c) = lru_size c"
  using assms MoveToFront_spec [of c e k v] length_drop_key [OF assms(2)] by (simp add: lru_ok_def touch_def)

lemma map_key_absent: "k \<notin> fst ` set xs \<Longrightarrow> map (\<lambda>(k', w'). if k' = k then (k', v) else (k', w')) xs = xs"
  by (induction xs) auto

lemma lru_Add_spec:
  assumes "lru_ok c"
  shows "lru_ok (lru_Add k v c) \<and> entries (lru_Add k v c) = take (nat (lru_size c)) ((k, v) # drop_key k (entries c)) \<and>
    lru_size (lru_Add k v c) = lru_size c"
proof (cases "map_of (entries c) k")
  case None
  then show ?thesis
    using add_new_spec [OF assms None, of v] lru_miss [OF assms None] by (simp add: lru_Add_def drop_key_absent)
next
  case (Some w)
  from lru_hit [OF assms Some] obtain e where e: "mget (lru_items c) k = Some e" "(e, k, w) \<in> set (lru_evictList c)" by metis
  note m = MoveToFront_ok [OF assms Some e(2)]
  have inv: "lru_inv (MoveToFront e c)" using m by (simp add: lru_ok_def)
  have mem: "(e, k, w) \<in> set (lru_evictList (MoveToFront e c))"
    using MoveToFront_spec(4) [OF _ e(2)] assms inv by (simp add: element_iff lru_ok_def)
  have "k \<notin> fst ` set (drop_key k (entries c))" by (auto simp: drop_key_def)
  then have "map (\<lambda>(k', w'). if k' = k then (k', v) else (k', w')) (touch k (entries c)) = (k, v) # drop_key k (entries c)"
    by (simp add: touch_def Some map_key_absent)
  moreover have "length (drop_key k (entries c)) < nat (lru_size c)"
    using length_drop_key [OF Some] assms by (simp add: lru_ok_def)
  ultimately show ?thesis
    using set_value_spec [OF inv mem, of v] m e(1) by (simp add: lru_Add_def lru_ok_def)
qed

lemma drop_key_ok:
  assumes "lru_ok c" and "mget (lru_items c) k = Some e"
  shows "lru_ok (removeElement e c) \<and> entries (removeElement e c) = drop_key k (entries c) \<and>
    lru_size (removeElement e c) = lru_size c"
proof -
  have inv: "lru_inv c" using assms(1) by (simp add: lru_ok_def)
  from items_Some [OF inv assms(2)] obtain v where "(e, k, v) \<in> set (lru_evictList c)" .
  note r = removeElement_spec [OF inv this]
  have "length (drop_key k (entries c)) \<le> nat (lru_size c)"
    using assms(1) unfolding drop_key_def lru_ok_def by (meson le_trans length_filter_le)
  then show ?thesis using r by (simp add: lru_ok_def)
qed

lemma Back_spec:
  assumes "lru_inv c"
  shows "entries c = [] \<Longrightarrow> list_Back c = None"
    and "entries c \<noteq> [] \<Longrightarrow> \<exists>e. list_Back c = Some e \<and> element e c = oldest (entries c)"
proof -
  show "entries c = [] \<Longrightarrow> list_Back c = None" by (simp add: entries_def list_Back_def)
  assume ne: "entries c \<noteq> []"
  then have "last (lru_evictList c) \<in> set (lru_evictList c)" by (simp add: entries_def)
  then show "\<exists>e. list_Back c = Some e \<and> element e c = oldest (entries c)"
    using ne assms by (auto simp: list_Back_def entries_def oldest_def last_map element_iff)
qed

lemma resize_inv [simp]: "lru_inv (c\<lparr>lru_size := m\<rparr>) = lru_inv c" "entries (c\<lparr>lru_size := m\<rparr>) = entries c"
  by (simp_all add: lru_inv_def entries_def)

lemma lru_step_spec:
  assumes "lru_ok c"
  shows "\<exists>r c'. lru_step op c = (r, c') \<and> lru_ok c' \<and>
    ref_step op (lru_size c, entries c) = (r, lru_size c', entries c')"
proof (cases op)
  case (OpAdd k v)
  then show ?thesis using lru_Add_spec [OF assms] by simp
next
  case (OpAddIfAbsent k v)
  show ?thesis
  proof (cases "map_of (entries c) k")
    case None
    then show ?thesis
      using OpAddIfAbsent add_new_spec [OF assms None] lru_miss [OF assms None] by (simp add: lru_AddIfAbsent_def)
  next
    case (Some w)
    from lru_hit [OF assms Some] obtain e where "mget (lru_items c) k = Some e" "element e c = Some (k, w)"
      "(e, k, w) \<in> set (lru_evictList c)" .
    then show ?thesis using OpAddIfAbsent Some MoveToFront_ok [OF assms Some] by (simp add: lru_AddIfAbsent_def)
  qed
next
  case (OpGet k)
  show ?thesis
  proof (cases "map_of (entries c) k")
    case None
    then show ?thesis using OpGet lru_miss [OF assms None] assms by (simp add: lru_Get_def touch_def)
  next
    case (Some w)
    from lru_hit [OF assms Some] obtain e where "mget (lru_items c) k = Some e" "element e c = Some (k, w)"
      "(e, k, w) \<in> set (lru_evictList c)" .
    then show ?thesis using OpGet Some MoveToFront_ok [OF assms Some] by (simp add: lru_Get_def)
  qed
next
  case (OpContains k)
  then show ?thesis using assms items_None [of c k] by (simp add: lru_Contains_def lru_ok_def)
next
  case (OpPeek k)
  show ?thesis
  proof (cases "map_of (entries c) k")
    case None
    then show ?thesis using OpPeek lru_miss [OF assms None] assms by (simp add: lru_Peek_def)
  next
    case (Some w)
    from lru_hit [OF assms Some] obtain e where "mget (lru_items c) k = Some e" "element e c = Some (k, w)" .
    then show ?thesis using OpPeek Some assms by (simp add: lru_Peek_def)
  qed
next
  case (OpRemove k)
  show ?thesis
  proof (cases "mget (lru_items c) k")
    case None
    then show ?thesis
      using OpRemove assms items_None [of c k] by (simp add: lru_Remove_def lru_ok_def drop_key_absent)
  next
    case (Some e)
    then show ?thesis
      using OpRemove drop_key_ok [OF assms Some] assms items_None [of c k] by (auto simp: lru_Remove_def lru_ok_def)
  qed
next
  case OpRemoveOldest
  have inv: "lru_inv c" using assms by (simp add: lru_ok_def)
  show ?thesis
  proof (cases "entries c = []")
    case True
    then show ?thesis using OpRemoveOldest Back_spec(1) [OF inv True] assms by (simp add: RemoveOldest_def oldest_def)
  next
    case False
    from Back_spec(2) [OF inv False] obtain e where e: "list_Back c = Some e" "element e c = oldest (entries c)" by blast
    then have "removeOldest c = removeElement e c" by (simp add: removeOldest_def)
    then show ?thesis
      using OpRemoveOldest e removeOldest_spec [OF inv] assms by (auto simp: RemoveOldest_def lru_ok_def)
  qed
next
  case OpGetOldest
  have inv: "lru_inv c" using assms by (simp add: lru_ok_def)
  show ?thesis
    using OpGetOldest Back_spec [OF inv] assms by (cases "entries c = []") (auto simp: GetOldest_def oldest_def)
next
  case OpLen
  then show ?thesis using assms by (simp add: lru_Len_def entries_def)
next
  case (OpResize m)
  let ?n = "nat (max 0 (lru_Len c - m))"
  have inv: "lru_inv c" using assms by (simp add: lru_ok_def)
  have len: "lru_Len c = int (length (entries c))" by (simp add: lru_Len_def entries_def)
  note it = removeOldest_iter [OF inv, of ?n]
  have take: "take (length (entries c) - ?n) (entries c) = take (nat m) (entries c)"
  proof (cases "m \<le> int (length (entries c))")
    case True
    then have "length (entries c) - ?n = nat m" using len by linarith
    then show ?thesis by simp
  qed (simp add: len)
  let ?c = "((removeOldest ^^ ?n) c)\<lparr>lru_size := m\<rparr>"
  have "lru_inv ?c" "entries ?c = take (nat m) (entries c)"
    using it take by (simp_all add: resize_inv)
  moreover have "Resize m c = (max 0 (lru_Len c - m), ?c)"
    by (simp add: Resize_def Let_def max_def)
  ultimately show ?thesis using OpResize len by (simp add: lru_ok_def)
next
  case OpPurge
  then show ?thesis by (simp add: lru_Purge_def lru_ok_def lru_inv_def entries_def)
qed

text \<open>
  C30: A new LRU cache answers any sequence of operations as the reference does: a list of at most \<open>n\<close>
  bindings with distinct keys in the order of use, where an addition or a lookup brings its binding to
  the front and the last one falls out. The code's map of elements and its linked list stay in step with
  that list throughout.
\<close>

theorem lru_refines_reference:
  assumes "NewLRU n onEvict = Ret c"
  shows "\<exists>rs c'. run_steps lru_step ops c = (rs, c') \<and> run_steps ref_step ops (n, []) = (rs, lru_size c', entries c') \<and>
    length (entries c') \<le> nat (lru_size c') \<and> distinct (map fst (entries c')) \<and>
    (\<forall>k. lru_Contains k c' \<longleftrightarrow> k \<in> fst ` set (entries c'))"
proof -
  have ok: "lru_ok c" and start: "lru_size c = n" "entries c = []"
    using assms by (auto simp: NewLRU_def lru_ok_def lru_inv_def entries_def split: if_splits)
  have "\<exists>rs c'. run_steps lru_step ops c = (rs, c') \<and> lru_ok c' \<and>
      run_steps ref_step ops (lru_size c, entries c) = (rs, lru_size c', entries c')" for ops
    using ok
  proof (induction ops arbitrary: c)
    case (Cons op ops)
    obtain r c1 where 1: "lru_step op c = (r, c1)" "lru_ok c1"
      "ref_step op (lru_size c, entries c) = (r, lru_size c1, entries c1)"
      using lru_step_spec [OF Cons.prems] by blast
    then show ?case using Cons.IH [OF 1(2)] by auto
  qed simp
  then obtain rs c' where c': "run_steps lru_step ops c = (rs, c')" "lru_ok c'"
    "run_steps ref_step ops (n, []) = (rs, lru_size c', entries c')"
    using start by metis
  then have inv: "lru_inv c'" by (simp add: lru_ok_def)
  have "lru_Contains k c' \<longleftrightarrow> k \<in> fst ` set (entries c')" for k
    using items_None [OF inv, of k] by (metis lru_Contains_def map_of_eq_None_iff)
  with c' inv show ?thesis by (auto simp: lru_ok_def lru_inv_def)
qed

text \<open>A cache of two: the second lookup saves \<open>1\<close>, so \<open>2\<close> falls out when \<open>3\<close> comes.\<close>

theorem lru_refines_reference_witness:
  "\<exists>c c'. NewLRU 2 False = Ret c \<and>
    run_steps lru_step [OpAdd (1 :: nat) ''a'', OpAdd 2 ''b'', OpGet 1, OpAddIfAbsent 3 ''c'', OpGet 2, OpLen] c =
      ([NoRes, NoRes, ResV (Some ''a''), ResV None, ResV None, ResN 2], c') \<and>
    entries c' = [(3, ''c''), (1, ''a'')]"
proof -
  obtain c where c: "NewLRU 2 False = Ret (c :: (nat, string) lru)" by (simp add: NewLRU_def)
  show ?thesis
    using c lru_refines_reference [OF c, of "[OpAdd 1 ''a'', OpAdd 2 ''b'', OpGet 1, OpAddIfAbsent 3 ''c'', OpGet 2, OpLen]"]
    by (auto simp: touch_def drop_key_def Let_def)
qed

text \<open>
  \<open>Keys\<close> does not list the keys: with two bindings or more it gives the newest key and then nil keys.
\<close>

lemma lru_Keys_wrong:
  assumes "lru_inv c" and "entries c = (k, v) # xs" and "length (lru_items c) = Suc m"
  shows "lru_Keys c = Ret (Some k # replicate m None)"
proof -
  have fold: "foldl (\<lambda>keys x. keys[0 := Some (fst (snd x))]) (y # ys) (zs @ [z]) = Some (fst (snd z)) # ys"
    for y ys zs and z :: "nat \<times> 'a \<times> 'b"
    by (induction zs arbitrary: y) auto
  obtain e L where L: "lru_evictList c = (e, k, v) # L"
    using assms(2) by (cases "lru_evictList c") (auto simp: entries_def)
  show ?thesis
    using assms(3) fold [of None "replicate m None" "rev L" "(e, k, v)"] by (simp add: lru_Keys_def L)
qed

end
