(* ===== verification/HotspotRule.thy ===== *)
theory HotspotRule
  imports FlowRule Lru Context
begin

text \<open>
  The rules of hot parameter flow control, \<open>core/hotspot/rule.go\<close>, and their validity
  (\<open>rule_manager.go\<close>). The cluster configuration has the fields of the one in flow control. A nil map
  (\<open>None\<close>) is not an empty one for \<open>reflect.DeepEqual\<close>.
\<close>

section \<open>Names\<close>

definition HotReject :: i32 where "HotReject = 0"
definition HotThrottling :: i32 where "HotThrottling = 1"

definition hot_ControlBehavior_String :: "i32 \<Rightarrow> string" where
  "hot_ControlBehavior_String t =
     (if t = HotReject then ''Reject'' else if t = HotThrottling then ''Throttling'' else FormatInt (sint t))"

definition HotConcurrency :: i32 where "HotConcurrency = 0"
definition HotQPS :: i32 where "HotQPS = 1"

definition hot_MetricType_String :: "i32 \<Rightarrow> string" where
  "hot_MetricType_String t =
     (if t = HotConcurrency then ''Concurrency'' else if t = HotQPS then ''QPS'' else ''Undefined'')"

definition ParameterTypeUnknown :: i64 where "ParameterTypeUnknown = 0"
definition ParameterTypeParameter :: i64 where "ParameterTypeParameter = 1"
definition ParameterTypeHeader :: i64 where "ParameterTypeHeader = 2"
definition ParameterTypeMetadata :: i64 where "ParameterTypeMetadata = 3"

definition ParameterSourceType_String :: "i64 \<Rightarrow> string" where
  "ParameterSourceType_String p =
     (if p = ParameterTypeUnknown then ''ParameterTypeUnknown''
      else if p = ParameterTypeHeader then ''ParameterTypeHeader''
      else if p = ParameterTypeParameter then ''ParameterTypeParameter''
      else if p = ParameterTypeMetadata then ''ParameterTypeMetadata''
      else FormatInt (sint p))"

definition hot_ClusterStrategy_String :: "i32 \<Rightarrow> string" where
  "hot_ClusterStrategy_String c =
     (if c = ThresholdAvgLocal then ''FlowThresholdAvgLocal''
      else if c = ThresholdGlobal then ''FlowThresholdGlobal'' else ''Undefined'')"

section \<open>Rules\<close>

record hot_rule =
  hr_ID :: string
  hr_App :: string
  hr_RuleName :: string
  hr_LimitApp :: string
  hr_Resource :: string
  hr_MetricType :: i32
  hr_ControlBehavior :: i32
  hr_ParamSource :: i64
  hr_ParamIdx :: i64
  hr_ParamKey :: string
  hr_ParamKind :: string
  hr_Threshold :: f64
  hr_MaxQueueingTimeMs :: i64
  hr_BurstCount :: i64
  hr_DurationInSec :: i64
  hr_ParamsMaxCapacity :: i64
  hr_SpecificItems :: "(go_value, i64) gomap option"
  hr_ClusterMode :: bool
  hr_ClusterConfig :: "cluster_config option"

definition IsStatReusable :: "hot_rule \<Rightarrow> hot_rule \<Rightarrow> bool" where
  "IsStatReusable r n \<longleftrightarrow>
     hr_Resource r = hr_Resource n \<and> hr_ControlBehavior r = hr_ControlBehavior n \<and>
     hr_ParamsMaxCapacity r = hr_ParamsMaxCapacity n \<and> hr_DurationInSec r = hr_DurationInSec n \<and>
     hr_MetricType r = hr_MetricType n \<and> hr_ParamSource r = hr_ParamSource n \<and> hr_ParamKind r = hr_ParamKind n"

text \<open>\<open>reflect.DeepEqual\<close> on the specific items.\<close>

definition same_items :: "(go_value, i64) gomap option \<Rightarrow> (go_value, i64) gomap option \<Rightarrow> bool" where
  "same_items a b = (case (a, b) of (None, None) \<Rightarrow> True | (Some m, Some n) \<Rightarrow> meq m n | _ \<Rightarrow> False)"

definition hot_Equals :: "hot_rule \<Rightarrow> hot_rule \<Rightarrow> bool go" where
  "hot_Equals r n =
     (let baseCheck = (hr_Resource r = hr_Resource n \<and> hr_MetricType r = hr_MetricType n \<and>
            hr_ControlBehavior r = hr_ControlBehavior n \<and> hr_ParamsMaxCapacity r = hr_ParamsMaxCapacity n \<and>
            hr_ParamIdx r = hr_ParamIdx n \<and> hr_ParamKey r = hr_ParamKey n \<and>
            feq (hr_Threshold r) (hr_Threshold n) \<and> hr_DurationInSec r = hr_DurationInSec n \<and>
            hr_LimitApp r = hr_LimitApp n \<and> same_items (hr_SpecificItems r) (hr_SpecificItems n) \<and>
            hr_ParamSource r = hr_ParamSource n \<and> hr_ParamKind r = hr_ParamKind n);
          last = (if hr_ControlBehavior r = HotReject then hr_BurstCount r = hr_BurstCount n
                  else if hr_ControlBehavior r = HotThrottling then hr_MaxQueueingTimeMs r = hr_MaxQueueingTimeMs n
                  else False)
      in if \<not> baseCheck then Ret False
         else if hr_ClusterMode r \<noteq> hr_ClusterMode n then Ret False
         else if hr_ClusterMode r then
           (case (hr_ClusterConfig r, hr_ClusterConfig n) of
              (Some c, Some d) \<Rightarrow> if \<not> cluster_configs_equal c d then Ret False else Ret last
            | _ \<Rightarrow> Panic ''nil pointer dereference'')
         else Ret last)"

definition checkControlBehaviorField :: "hot_rule \<Rightarrow> string option" where
  "checkControlBehaviorField rule =
     (if hr_ControlBehavior rule = HotReject then
        (if hr_BurstCount rule <s 0 then Some ''invalid BurstCount'' else None)
      else if hr_ControlBehavior rule = HotThrottling then
        (if hr_MaxQueueingTimeMs rule <s 0 then Some ''invalid MaxQueueingTimeMs'' else None)
      else None)"

definition hot_IsValidRule :: "hot_rule option \<Rightarrow> string option" where
  "hot_IsValidRule rule =
     (case rule of
        None \<Rightarrow> Some ''nil hotspot Rule''
      | Some r \<Rightarrow>
          if length (hr_Resource r) = 0 then Some ''empty resource name''
          else if flt (hr_Threshold r) (Fin 0) then Some ''negative threshold''
          else if hr_MetricType r <s 0 then Some ''invalid metric type''
          else if hr_ControlBehavior r <s 0 then Some ''invalid control strategy''
          else if hr_MetricType r = HotQPS \<and> hr_DurationInSec r \<le>s 0 then Some ''invalid duration''
          else if 0 <s hr_ParamIdx r \<and> hr_ParamKey r \<noteq> [] then Some ''invalid param index and param key are mutually exclusive''
          else checkControlBehaviorField r)"

end
