(* ===== verification/HotspotControl.thy ===== *)
theory HotspotControl
  imports HotspotRule SlidingWindow
begin

text \<open>
  The controllers of hot parameter flow control, \<open>core/hotspot/traffic_shaping.go\<close>: token buckets
  (reject), spacing (throttling) and concurrency limits per argument. The counters are \<open>int64\<close> cells that
  the caches point to, so a pointer is an index of \<open>hw_cells\<close>; a metric is an index too, since a controller
  may take over the metric of an old one. A check runs alone here: every compare-and-swap succeeds.
\<close>

section \<open>State\<close>

record hot_metric =
  hm_RuleTimeCounter :: "(go_value, nat) lru option"
  hm_RuleTokenCounter :: "(go_value, nat) lru option"
  hm_ConcurrentCounter :: "(go_value, nat) lru option"

record hot_world =
  hw_metrics :: "hot_metric list"
  hw_cells :: "i64 list"

text \<open>
  Outside of the model: out-of-range conversions, how \<open>%v\<close> prints an argument, and which dynamic types
  can be keys of a map.
\<close>

record hot_env =
  he_oor :: "f64 \<Rightarrow> i64"
  he_fmt :: "go_value \<Rightarrow> string"
  he_hashable :: "go_value \<Rightarrow> bool"

record hot_base =
  hb_r :: hot_rule
  hb_res :: string
  hb_metricType :: i32
  hb_paramIndex :: i64
  hb_paramKey :: string
  hb_paramKind :: string
  hb_paramSource :: i64
  hb_threshold :: f64
  hb_specificItems :: "(go_value, i64) gomap"
  hb_durationInSec :: i64
  hb_metric :: nat

datatype hot_controller = RejectTc (tc_base: hot_base) (burstCount: i64) | ThrottlingTc (tc_base: hot_base) (maxQueueingTimeMs: i64)

definition ConcurrencyMaxCount :: i64 where "ConcurrencyMaxCount = 4000"
definition ParamsCapacityBase :: i64 where "ParamsCapacityBase = 4000"
definition ParamsMaxCapacity :: i64 where "ParamsMaxCapacity = 20000"

section \<open>Constructors\<close>

text \<open>A nil map of specific items is replaced in the rule itself, which is returned.\<close>

definition newBaseTrafficShapingControllerWithMetric :: "hot_rule \<Rightarrow> nat \<Rightarrow> hot_base \<times> hot_rule" where
  "newBaseTrafficShapingControllerWithMetric r metric =
     (let r = (if hr_SpecificItems r = None then r\<lparr>hr_SpecificItems := Some []\<rparr> else r);
          items = (case hr_SpecificItems r of None \<Rightarrow> [] | Some m \<Rightarrow> m)
      in (\<lparr>hb_r = r, hb_res = hr_Resource r, hb_metricType = hr_MetricType r, hb_paramIndex = hr_ParamIdx r,
           hb_paramKey = hr_ParamKey r, hb_paramKind = hr_ParamKind r, hb_paramSource = hr_ParamSource r,
           hb_threshold = hr_Threshold r, hb_specificItems = items, hb_durationInSec = hr_DurationInSec r,
           hb_metric = metric\<rparr>, r))"

text \<open>\<open>int(math.Min(float64(ParamsMaxCapacity), float64(ParamsCapacityBase*r.DurationInSec)))\<close>.\<close>

definition duration_size :: "i64 \<Rightarrow> i64" where
  "duration_size d =
     (let a = f64_of_int (sint ParamsMaxCapacity); b = f64_of_int (sint (ParamsCapacityBase * d))
      in f64_to_i64 (\<lambda>_. 0) (if flt b a then b else a))"

definition qps_size :: "hot_rule \<Rightarrow> i64" where
  "qps_size r =
     (let n = (if 0 <s hr_ParamsMaxCapacity r then hr_ParamsMaxCapacity r
            else if hr_DurationInSec r = 0 then ParamsMaxCapacity else duration_size (hr_DurationInSec r))
      in if n \<le>s 0 then ParamsMaxCapacity else n)"

definition concurrency_size :: "hot_rule \<Rightarrow> i64" where
  "concurrency_size r = (if 0 <s hr_ParamsMaxCapacity r then hr_ParamsMaxCapacity r else ConcurrencyMaxCount)"

definition newBaseTrafficShapingController :: "hot_rule \<Rightarrow> hot_world \<Rightarrow> (hot_base \<times> hot_rule) option \<times> hot_world" where
  "newBaseTrafficShapingController r w =
     (let metric = (if hr_MetricType r = HotQPS then
             Some \<lparr>hm_RuleTimeCounter = NewLRUCacheMap (sint (qps_size r)),
                   hm_RuleTokenCounter = NewLRUCacheMap (sint (qps_size r)), hm_ConcurrentCounter = None\<rparr>
           else if hr_MetricType r = HotConcurrency then
             Some \<lparr>hm_RuleTimeCounter = None, hm_RuleTokenCounter = None,
                   hm_ConcurrentCounter = NewLRUCacheMap (sint (concurrency_size r))\<rparr>
           else None)
      in case metric of
           None \<Rightarrow> (None, w)
         | Some m \<Rightarrow> (Some (newBaseTrafficShapingControllerWithMetric r (length (hw_metrics w))),
                     w\<lparr>hw_metrics := hw_metrics w @ [m]\<rparr>))"

section \<open>Access to the counters\<close>

definition hw_new :: "i64 \<Rightarrow> hot_world \<Rightarrow> nat \<times> hot_world" where
  "hw_new v w = (length (hw_cells w), w\<lparr>hw_cells := hw_cells w @ [v]\<rparr>)"

definition hw_store :: "nat \<Rightarrow> i64 \<Rightarrow> hot_world \<Rightarrow> hot_world" where
  "hw_store p v w = w\<lparr>hw_cells := (hw_cells w)[p := v]\<rparr>"

definition hw_load :: "nat \<Rightarrow> hot_world \<Rightarrow> i64" where
  "hw_load p w = hw_cells w ! p"

definition hw_metric :: "nat \<Rightarrow> hot_metric \<Rightarrow> hot_world \<Rightarrow> hot_world" where
  "hw_metric m x w = w\<lparr>hw_metrics := (hw_metrics w)[m := x]\<rparr>"

text \<open>\<open>AddIfAbsent(arg, &v)\<close> on one of the counters of a metric.\<close>

definition time_add :: "nat \<Rightarrow> (go_value, nat) lru \<Rightarrow> go_value \<Rightarrow> i64 \<Rightarrow> hot_world \<Rightarrow> nat option \<times> hot_world" where
  "time_add m c arg v w =
     (let (p, w) = hw_new v w; (prior, c) = lru_AddIfAbsent arg p c
      in (prior, hw_metric m ((hw_metrics w ! m)\<lparr>hm_RuleTimeCounter := Some c\<rparr>) w))"

definition token_add :: "nat \<Rightarrow> (go_value, nat) lru \<Rightarrow> go_value \<Rightarrow> i64 \<Rightarrow> hot_world \<Rightarrow> nat option \<times> hot_world" where
  "token_add m c arg v w =
     (let (p, w) = hw_new v w; (prior, c) = lru_AddIfAbsent arg p c
      in (prior, hw_metric m ((hw_metrics w ! m)\<lparr>hm_RuleTokenCounter := Some c\<rparr>) w))"

definition token_get :: "nat \<Rightarrow> (go_value, nat) lru \<Rightarrow> go_value \<Rightarrow> hot_world \<Rightarrow> nat option \<times> hot_world" where
  "token_get m c arg w =
     (let (found, c) = lru_Get arg c
      in (found, hw_metric m ((hw_metrics w ! m)\<lparr>hm_RuleTokenCounter := Some c\<rparr>) w))"

definition conc_add :: "nat \<Rightarrow> (go_value, nat) lru \<Rightarrow> go_value \<Rightarrow> i64 \<Rightarrow> hot_world \<Rightarrow> nat option \<times> hot_world" where
  "conc_add m c arg v w =
     (let (p, w) = hw_new v w; (prior, c) = lru_AddIfAbsent arg p c
      in (prior, hw_metric m ((hw_metrics w ! m)\<lparr>hm_ConcurrentCounter := Some c\<rparr>) w))"

definition conc_get :: "nat \<Rightarrow> (go_value, nat) lru \<Rightarrow> go_value \<Rightarrow> hot_world \<Rightarrow> nat option \<times> hot_world" where
  "conc_get m c arg w =
     (let (found, c) = lru_Get arg c
      in (found, hw_metric m ((hw_metrics w ! m)\<lparr>hm_ConcurrentCounter := Some c\<rparr>) w))"

section \<open>The checks\<close>

type_synonym hot_result = "(hot_rule, i64) token_result option"

definition hot_blocked :: "hot_env \<Rightarrow> string \<Rightarrow> go_value \<Rightarrow> hot_base \<Rightarrow> i64 option \<Rightarrow> hot_result" where
  "hot_blocked env msg arg b v =
     Some (NewTokenResultBlockedWithCause BlockTypeHotSpotParamFlow (msg @ '', arg: '' @ he_fmt env arg) (Some (hb_r b)) v)"

definition performCheckingForConcurrencyMetric :: "hot_env \<Rightarrow> hot_base \<Rightarrow> go_value \<Rightarrow> hot_world \<Rightarrow> hot_result go \<times> hot_world" where
  "performCheckingForConcurrencyMetric env b arg w =
     (case hm_ConcurrentCounter (hw_metrics w ! hb_metric b) of
        None \<Rightarrow> (Panic ''nil pointer dereference'', w)
      | Some c \<Rightarrow>
          if \<not> he_hashable env arg then (Panic ''hash of unhashable type'', w)
          else
            (case conc_add (hb_metric b) c arg 0 w of
               (None, w) \<Rightarrow> (Ret None, w)
             | (Some p, w) \<Rightarrow>
                 let concurrency = hw_load p w + 1
                 in (Ret (case mget (hb_specificItems b) arg of
                       Some specificConcurrency \<Rightarrow>
                         if concurrency \<le>s specificConcurrency then None
                         else hot_blocked env ''hotspot specific concurrency check blocked'' arg b (Some concurrency)
                     | None \<Rightarrow>
                         if concurrency \<le>s f64_to_i64 (he_oor env) (hb_threshold b) then None
                         else hot_blocked env ''hotspot concurrency check blocked'' arg b (Some concurrency)), w)))"

definition hot_tokenCount :: "hot_env \<Rightarrow> hot_base \<Rightarrow> go_value \<Rightarrow> i64" where
  "hot_tokenCount env b arg =
     (case mget (hb_specificItems b) arg of Some v \<Rightarrow> v | None \<Rightarrow> f64_to_i64 (he_oor env) (hb_threshold b))"

text \<open>One round of the loop of the reject controller at time \<open>now\<close>: \<open>Inr\<close> if it goes around again.\<close>

definition reject_round ::
  "hot_env \<Rightarrow> hot_base \<Rightarrow> go_value \<Rightarrow> i64 \<Rightarrow> i64 \<Rightarrow> i64 \<Rightarrow> i64 \<Rightarrow> (go_value, nat) lru \<Rightarrow> (go_value, nat) lru \<Rightarrow> hot_world \<Rightarrow>
   (hot_result go \<times> hot_world) + hot_world" where
  "reject_round env b arg batchCount tokenCount maxCount now timeCounter tokenCounter w =
     (let m = hb_metric b;
          blocked = hot_blocked env ''hotspot reject check blocked, request batch count is more than available token count'' arg b None
      in case time_add m timeCounter arg now w of
           (None, w) \<Rightarrow> let (_, w) = token_add m tokenCounter arg (maxCount - batchCount) w in Inl (Ret None, w)
         | (Some lastAddTokenTime, w) \<Rightarrow>
             let passTime = now - hw_load lastAddTokenTime w; window = hb_durationInSec b * 1000
             in if window <s passTime then
                  (case token_add m tokenCounter arg (maxCount - batchCount) w of
                     (None, w) \<Rightarrow> Inl (Ret None, hw_store lastAddTokenTime now w)
                   | (Some oldQps, w) \<Rightarrow>
                       if window = 0 then Inl (Panic ''integer divide by zero'', w)
                       else
                         let restQps = hw_load oldQps w;
                             toAddTokenNum = i64_quot (passTime * tokenCount) window;
                             newQps = (if maxCount <s toAddTokenNum + restQps then maxCount - batchCount
                                       else toAddTokenNum + restQps - batchCount)
                         in if newQps <s 0 then Inl (Ret blocked, w)
                            else Inl (Ret None, hw_store lastAddTokenTime now (hw_store oldQps newQps w)))
                else
                  (case token_get m tokenCounter arg w of
                     (Some oldQps, w) \<Rightarrow>
                       let oldRestToken = hw_load oldQps w
                       in if 0 \<le>s oldRestToken - batchCount then Inl (Ret None, hw_store oldQps (oldRestToken - batchCount) w)
                          else Inl (Ret blocked, w)
                   | (None, w) \<Rightarrow> Inr w))"

text \<open>The loop, round \<open>i\<close> of which reads the clock as \<open>clk i\<close>. \<open>None\<close>: it does not end.\<close>

partial_function (option) reject_loop ::
  "hot_env \<Rightarrow> (nat \<Rightarrow> i64) \<Rightarrow> hot_base \<Rightarrow> go_value \<Rightarrow> i64 \<Rightarrow> i64 \<Rightarrow> i64 \<Rightarrow> nat \<Rightarrow> hot_world \<Rightarrow> (hot_result go \<times> hot_world) option" where
  "reject_loop env clk b arg batchCount tokenCount maxCount i w =
     (case (hm_RuleTimeCounter (hw_metrics w ! hb_metric b), hm_RuleTokenCounter (hw_metrics w ! hb_metric b)) of
        (Some timeCounter, Some tokenCounter) \<Rightarrow>
          (case reject_round env b arg batchCount tokenCount maxCount (clk i) timeCounter tokenCounter w of
             Inl r \<Rightarrow> Some r
           | Inr w \<Rightarrow> reject_loop env clk b arg batchCount tokenCount maxCount (Suc i) w)
      | _ \<Rightarrow> Some (Ret None, w))"

definition reject_PerformChecking ::
  "hot_env \<Rightarrow> (nat \<Rightarrow> i64) \<Rightarrow> hot_base \<Rightarrow> i64 \<Rightarrow> go_value \<Rightarrow> i64 \<Rightarrow> hot_world \<Rightarrow> (hot_result go \<times> hot_world) option" where
  "reject_PerformChecking env clk b burst arg batchCount w =
     (if hb_metricType b = HotConcurrency then Some (performCheckingForConcurrencyMetric env b arg w)
      else if HotQPS <s hb_metricType b then Some (Ret None, w)
      else if hm_RuleTimeCounter (hw_metrics w ! hb_metric b) = None \<or> hm_RuleTokenCounter (hw_metrics w ! hb_metric b) = None
        then Some (Ret None, w)
      else if \<not> he_hashable env arg then Some (Panic ''hash of unhashable type'', w)
      else
        let tokenCount = hot_tokenCount env b arg; maxCount = tokenCount + burst
        in if tokenCount \<le>s 0 then
             Some (Ret (hot_blocked env ''hotspot reject check blocked, threshold is <= 0'' arg b None), w)
           else if maxCount <s batchCount then
             Some (Ret (hot_blocked env ''hotspot reject check blocked, request batch count is more than max token count'' arg b None), w)
           else reject_loop env clk b arg batchCount tokenCount maxCount 0 w)"

text \<open>\<open>math.Round\<close>: half away from zero.\<close>

fun fround :: "f64 \<Rightarrow> f64" where
  "fround (Fin a) = Fin (of_int (if a < 0 then - \<lfloor>1 / 2 - a\<rfloor> else \<lfloor>a + 1 / 2\<rfloor>))"
| "fround x = x"

definition interval_cost :: "(f64 \<Rightarrow> i64) \<Rightarrow> i64 \<Rightarrow> i64 \<Rightarrow> i64 \<Rightarrow> i64" where
  "interval_cost oor batchCount durationInSec tokenCount =
     f64_to_i64 oor (fround (f64_of_int (sint (i64_quot (batchCount * durationInSec * 1000) tokenCount))))"

definition throttling_PerformChecking ::
  "hot_env \<Rightarrow> i64 \<Rightarrow> hot_base \<Rightarrow> i64 \<Rightarrow> go_value \<Rightarrow> i64 \<Rightarrow> hot_world \<Rightarrow> hot_result go \<times> hot_world" where
  "throttling_PerformChecking env now b maxQueueing arg batchCount w =
     (if hb_metricType b = HotConcurrency then performCheckingForConcurrencyMetric env b arg w
      else if HotQPS <s hb_metricType b then (Ret None, w)
      else case (hm_RuleTimeCounter (hw_metrics w ! hb_metric b), hm_RuleTokenCounter (hw_metrics w ! hb_metric b)) of
          (Some timeCounter, Some _) \<Rightarrow>
            if \<not> he_hashable env arg then (Panic ''hash of unhashable type'', w)
            else
              let tokenCount = hot_tokenCount env b arg in
              if tokenCount \<le>s 0 then
                (Ret (hot_blocked env ''hotspot throttling check blocked, threshold is <= 0'' arg b None), w)
              else
                let intervalCostTime = interval_cost (he_oor env) batchCount (hb_durationInSec b) tokenCount
                in (case time_add (hb_metric b) timeCounter arg now w of
                      (None, w) \<Rightarrow> (Ret None, w)
                    | (Some lastPassTimePtr, w) \<Rightarrow>
                        let expectedTime = hw_load lastPassTimePtr w + intervalCostTime
                        in if expectedTime \<le>s now \<or> expectedTime - now <s maxQueueing then
                             let w = hw_store lastPassTimePtr now w; awaitTime = expectedTime - now
                             in if 0 <s awaitTime
                                then (Ret (Some (NewTokenResultShouldWait (awaitTime * 1000000))), hw_store lastPassTimePtr expectedTime w)
                                else (Ret None, w)
                           else
                             (Ret (hot_blocked env ''hotspot throttling check blocked,wait time exceedes max queueing time'' arg b None), w))
        | _ \<Rightarrow> (Ret None, w))"

definition hot_PerformChecking ::
  "hot_env \<Rightarrow> (nat \<Rightarrow> i64) \<Rightarrow> hot_controller \<Rightarrow> go_value \<Rightarrow> i64 \<Rightarrow> hot_world \<Rightarrow> (hot_result go \<times> hot_world) option" where
  "hot_PerformChecking env clk tc arg batchCount w =
     (case tc of
        RejectTc b burst \<Rightarrow> reject_PerformChecking env clk b burst arg batchCount w
      | ThrottlingTc b mq \<Rightarrow> Some (throttling_PerformChecking env (clk 0) b mq arg batchCount w))"

end
