(* ===== verification/CounterCache.thy ===== *)
theory CounterCache
  imports HotspotControl
begin

text \<open>
  The contract of the interface \<open>ConcurrentCounterCache\<close> (\<open>core/hotspot/cache/concurrent_cache.go\<close>) as the
  controllers use it, what it says of one cache and of two caches used in lock step, and the pointers that
  the caches of a metric hold into the counters.
\<close>

section \<open>The contract\<close>

text \<open>The keys of a cache of \<open>n\<close>, most recently used first, after \<open>k\<close> was used.\<close>

definition next_keys :: "'k \<Rightarrow> nat \<Rightarrow> 'k list \<Rightarrow> 'k list" where
  "next_keys k n ks = (if k \<in> set ks then k # filter (\<lambda>x. x \<noteq> k) ks else take n (k # ks))"

lemma map_of_drop_key: "map_of (drop_key k xs) k' = (if k' = k then None else map_of xs k')"
  unfolding drop_key_def by (rule map_of_filter_key)

lemma keys_drop_key: "map fst (drop_key k xs) = filter (\<lambda>x. x \<noteq> k) (map fst xs)"
  by (simp add: drop_key_def filter_map o_def)

lemma map_of_touch: "map_of (touch k xs) = map_of xs"
  by (rule ext) (auto simp: touch_def map_of_drop_key split: option.splits)

lemma keys_touch: "k \<in> fst ` set xs \<Longrightarrow> map fst (touch k xs) = k # filter (\<lambda>x. x \<noteq> k) (map fst xs)"
  by (cases "map_of xs k") (auto simp: touch_def keys_drop_key map_of_eq_None_iff)

lemma map_of_take:
  "distinct (map fst xs) \<Longrightarrow> map_of (take n xs) k = (if k \<in> set (take n (map fst xs)) then map_of xs k else None)"
proof (induction xs arbitrary: n)
  case (Cons x xs)
  then show ?case
    by (cases n) (auto dest: in_set_takeD simp: take_map)
qed simp

locale counter_cache =
  fixes add :: "'k \<Rightarrow> 'v \<Rightarrow> 'c \<Rightarrow> 'v option \<times> 'c"
    and find :: "'k \<Rightarrow> 'c \<Rightarrow> 'v option \<times> 'c"
    and content :: "'c \<Rightarrow> ('k \<times> 'v) list"
    and cap :: "'c \<Rightarrow> nat"
    and ok :: "'c \<Rightarrow> bool"
  assumes ok_distinct: "ok c \<Longrightarrow> distinct (map fst (content c))"
    and ok_cap: "ok c \<Longrightarrow> length (content c) \<le> cap c \<and> 0 < cap c"
    and add_spec: "ok c \<Longrightarrow> ok (snd (add k v c)) \<and> cap (snd (add k v c)) = cap c \<and> fst (add k v c) = map_of (content c) k \<and>
      content (snd (add k v c)) = (if map_of (content c) k = None then take (cap c) ((k, v) # content c) else touch k (content c))"
    and find_spec: "ok c \<Longrightarrow> ok (snd (find k c)) \<and> cap (snd (find k c)) = cap c \<and> fst (find k c) = map_of (content c) k \<and>
      content (snd (find k c)) = touch k (content c)"
begin

lemma keys_lookup: "k \<in> set (map fst (content c)) \<longleftrightarrow> map_of (content c) k \<noteq> None"
  by (auto simp: map_of_eq_None_iff)

lemma add_keys: "ok c \<Longrightarrow> map fst (content (snd (add k v c))) = next_keys k (cap c) (map fst (content c))"
  using keys_lookup [of k c] by (auto simp: add_spec next_keys_def keys_touch simp flip: take_map)

lemma find_keys:
  "ok c \<Longrightarrow> map_of (content c) k \<noteq> None \<Longrightarrow>
    map fst (content (snd (find k c))) = next_keys k (cap c) (map fst (content c))"
  using keys_lookup [of k c] by (auto simp: find_spec next_keys_def keys_touch)

lemma add_lookup:
  assumes "ok c"
  shows "map_of (content (snd (add k v c))) =
    ((map_of (content c))(k \<mapsto> case map_of (content c) k of None \<Rightarrow> v | Some w \<Rightarrow> w)) |`
      set (next_keys k (cap c) (map fst (content c)))"
proof (cases "map_of (content c) k")
  case None
  then have new: "k \<notin> set (map fst (content c))" by (simp add: map_of_eq_None_iff)
  then have d: "distinct (map fst ((k, v) # content c))" using ok_distinct [OF assms] by simp
  show ?thesis
    using None new map_of_take [OF d, of "cap c"]
    by (intro ext) (auto simp: add_spec [OF assms] next_keys_def restrict_map_def take_map)
next
  case (Some w)
  then have old: "k \<in> set (map fst (content c))" by (metis keys_lookup option.distinct(1))
  have "map_of (content c) k' = None" if "k' \<notin> set (map fst (content c))" for k'
    using that by (simp add: map_of_eq_None_iff)
  with Some old show ?thesis
    by (intro ext) (auto simp: add_spec [OF assms] next_keys_def restrict_map_def map_of_touch)
qed

lemma find_lookup: "ok c \<Longrightarrow> map_of (content (snd (find k c))) = map_of (content c)"
  by (simp add: find_spec map_of_touch)

text \<open>Two caches of one size with the same keys in the same order still have them after both were used for one key.\<close>

lemma lock_step_add:
  "ok c \<Longrightarrow> ok d \<Longrightarrow> cap c = cap d \<Longrightarrow> map fst (content c) = map fst (content d) \<Longrightarrow>
    map fst (content (snd (add k v c))) = map fst (content (snd (add k w d)))"
  by (simp add: add_keys)

lemma lock_step_find:
  "ok c \<Longrightarrow> ok d \<Longrightarrow> cap c = cap d \<Longrightarrow> map fst (content c) = map fst (content d) \<Longrightarrow>
    map_of (content d) k \<noteq> None \<Longrightarrow> map fst (content (snd (add k v c))) = map fst (content (snd (find k d)))"
  by (simp add: add_keys find_keys)

end

definition cache_ok :: "('k, 'v) lru \<Rightarrow> bool" where
  "cache_ok c \<longleftrightarrow> lru_ok c \<and> 0 < lru_size c"

definition cache_cap :: "('k, 'v) lru \<Rightarrow> nat" where
  "cache_cap c = nat (lru_size c)"

interpretation lru_cache: counter_cache lru_AddIfAbsent lru_Get entries cache_cap cache_ok
proof unfold_locales
  fix c :: "('k, 'v) lru" and k :: 'k and v :: 'v
  assume ok: "cache_ok c"
  then have lru: "lru_ok c" and pos: "0 < lru_size c" by (simp_all add: cache_ok_def)
  show "distinct (map fst (entries c))" using lru by (simp add: lru_ok_def lru_inv_def)
  show "length (entries c) \<le> cache_cap c \<and> 0 < cache_cap c" using lru pos by (simp add: lru_ok_def cache_cap_def)
  show "cache_ok (snd (lru_AddIfAbsent k v c)) \<and> cache_cap (snd (lru_AddIfAbsent k v c)) = cache_cap c \<and>
      fst (lru_AddIfAbsent k v c) = map_of (entries c) k \<and>
      entries (snd (lru_AddIfAbsent k v c)) =
        (if map_of (entries c) k = None then take (cache_cap c) ((k, v) # entries c) else touch k (entries c))"
    using lru_step_spec [OF lru, of "OpAddIfAbsent k v"] pos
    by (auto simp: cache_ok_def cache_cap_def map_prod_def split_beta prod_eq_iff)
  show "cache_ok (snd (lru_Get k c)) \<and> cache_cap (snd (lru_Get k c)) = cache_cap c \<and>
      fst (lru_Get k c) = map_of (entries c) k \<and> entries (snd (lru_Get k c)) = touch k (entries c)"
    using lru_step_spec [OF lru, of "OpGet k"] pos
    by (auto simp: cache_ok_def cache_cap_def map_prod_def split_beta prod_eq_iff)
qed

lemma NewLRUCacheMap_ok:
  assumes "0 < n"
  shows "\<exists>c. NewLRUCacheMap n = Some c \<and> cache_ok c \<and> entries c = [] \<and> cache_cap c = nat n"
  using assms by (simp add: NewLRUCacheMap_def NewLRU_def cache_ok_def lru_ok_def lru_inv_def entries_def cache_cap_def)

section \<open>Counters behind a cache\<close>

text \<open>The counter of every key in a cache; its pointers are valid and no two keys share one.\<close>

definition counters :: "('k, nat) lru \<Rightarrow> i64 list \<Rightarrow> 'k \<Rightarrow> i64 option" where
  "counters c cells k = map_option ((!) cells) (map_of (entries c) k)"

definition cells_ok :: "('k, nat) lru \<Rightarrow> i64 list \<Rightarrow> bool" where
  "cells_ok c cells \<longleftrightarrow> cache_ok c \<and> (\<forall>k p. map_of (entries c) k = Some p \<longrightarrow> p < length cells) \<and>
     (\<forall>k k' p. map_of (entries c) k = Some p \<longrightarrow> map_of (entries c) k' = Some p \<longrightarrow> k = k')"

definition apart :: "('k, nat) lru \<Rightarrow> ('k, nat) lru \<Rightarrow> bool" where
  "apart c d \<longleftrightarrow> (\<forall>k k' p. map_of (entries c) k = Some p \<longrightarrow> map_of (entries d) k' \<noteq> Some p)"

lemma cells_ok_range: "cells_ok c cells \<Longrightarrow> map_of (entries c) k = Some p \<Longrightarrow> p < length cells"
  by (simp add: cells_ok_def)

lemma cells_ok_grow: "cells_ok c cells \<Longrightarrow> length cells \<le> length cells' \<Longrightarrow> cells_ok c cells'"
  unfolding cells_ok_def by (meson le_trans less_le_trans)

lemma counters_grow: "cells_ok c cells \<Longrightarrow> counters c (cells @ [v]) = counters c cells"
proof (rule ext)
  fix k
  assume "cells_ok c cells"
  then show "counters c (cells @ [v]) k = counters c cells k"
    by (cases "map_of (entries c) k") (auto simp: counters_def cells_ok_def nth_append)
qed

lemma counters_store:
  assumes "cells_ok c cells" and "map_of (entries c) k = Some p"
  shows "counters c (cells[p := v]) = (counters c cells)(k \<mapsto> v)"
proof (rule ext)
  fix k'
  show "counters c (cells[p := v]) k' = ((counters c cells)(k \<mapsto> v)) k'"
    using assms by (cases "map_of (entries c) k'") (auto simp: counters_def cells_ok_def nth_list_update)
qed

lemma counters_store_apart:
  assumes "apart c d" and "map_of (entries c) k = Some p"
  shows "counters d (cells[p := v]) = counters d cells"
proof (rule ext)
  fix k'
  have "map_of (entries d) k' \<noteq> Some p" using assms by (simp add: apart_def)
  then show "counters d (cells[p := v]) k' = counters d cells k'"
    by (cases "map_of (entries d) k'") (auto simp: counters_def)
qed

lemma apart_sym: "apart c d \<Longrightarrow> apart d c"
  by (auto simp: apart_def)

text \<open>Using a cache with a new counter: the key's own counter if it has one, the new one otherwise.\<close>

lemma cells_add:
  assumes "cells_ok c cells" and "lru_AddIfAbsent k (length cells) c = (prior, c')" and "cells' = cells @ [v]"
  shows "prior = map_of (entries c) k" and "cells_ok c' cells'" and "cache_cap c' = cache_cap c"
    and "map fst (entries c') = next_keys k (cache_cap c) (map fst (entries c))"
    and "map_of (entries c') k = Some (case prior of None \<Rightarrow> length cells | Some p \<Rightarrow> p)"
    and "counters c' cells' = ((counters c cells)(k \<mapsto> case counters c cells k of None \<Rightarrow> v | Some x \<Rightarrow> x)) |`
      set (map fst (entries c'))"
    and "map_of (entries c') k' = Some p \<Longrightarrow> p = length cells \<or> map_of (entries c) k' = Some p"
proof -
  have ok: "cache_ok c" using assms(1) by (simp add: cells_ok_def)
  note spec = lru_cache.add_spec [OF ok, of k "length cells", unfolded assms(2) fst_conv snd_conv]
  show prior: "prior = map_of (entries c) k" and "cache_cap c' = cache_cap c" using spec by simp_all
  show keys: "map fst (entries c') = next_keys k (cache_cap c) (map fst (entries c))"
    using lru_cache.add_keys [OF ok, of k "length cells"] assms(2) by simp
  have look: "map_of (entries c') = ((map_of (entries c))(k \<mapsto> case prior of None \<Rightarrow> length cells | Some w \<Rightarrow> w)) |`
      set (map fst (entries c'))"
    using lru_cache.add_lookup [OF ok, of k "length cells"] assms(2) keys prior by simp
  have "k \<in> set (map fst (entries c'))"
    unfolding keys next_keys_def using lru_cache.ok_cap [OF ok] by (cases "cache_cap c") auto
  then show "map_of (entries c') k = Some (case prior of None \<Rightarrow> length cells | Some p \<Rightarrow> p)"
    unfolding look by simp
  show ptr: "p = length cells \<or> map_of (entries c) k' = Some p" if "map_of (entries c') k' = Some p" for k' p
    using that unfolding look prior by (auto simp: restrict_map_def split: if_splits option.splits)
  have inj: "k' = k''" if a: "map_of (entries c') k' = Some p" and b: "map_of (entries c') k'' = Some p" for k' k'' p
    using a b assms(1) unfolding look prior cells_ok_def
    by (auto simp: restrict_map_def split: if_splits option.splits)
  show "cells_ok c' cells'"
    unfolding assms(3) using spec ptr inj assms(1) unfolding cells_ok_def by (metis length_append_singleton less_Suc_eq)
  show "counters c' cells' = ((counters c cells)(k \<mapsto> case counters c cells k of None \<Rightarrow> v | Some x \<Rightarrow> x)) |`
      set (map fst (entries c'))"
    unfolding assms(3)
  proof (rule ext)
    fix k'
    have grow: "map_option ((!) (cells @ [v])) (map_of (entries c) a) = map_option ((!) cells) (map_of (entries c) a)" for a
      using fun_cong [OF counters_grow [OF assms(1), of v], of a] by (simp add: counters_def)
    show "counters c' (cells @ [v]) k' = (((counters c cells)(k \<mapsto> case counters c cells k of None \<Rightarrow> v | Some x \<Rightarrow> x)) |`
        set (map fst (entries c'))) k'"
      unfolding counters_def look prior using cells_ok_range [OF assms(1), of k]
      by (auto simp: restrict_map_def nth_append grow split: option.splits)
  qed
qed

lemma cells_get:
  assumes "cells_ok c cells" and "lru_Get k c = (found, c')"
  shows "found = map_of (entries c) k" and "cells_ok c' cells" and "cache_cap c' = cache_cap c"
    and "map_of (entries c') = map_of (entries c)" and "counters c' cells = counters c cells"
    and "found \<noteq> None \<Longrightarrow> map fst (entries c') = next_keys k (cache_cap c) (map fst (entries c))"
proof -
  have ok: "cache_ok c" using assms(1) by (simp add: cells_ok_def)
  note spec = lru_cache.find_spec [OF ok, of k, unfolded assms(2) fst_conv snd_conv]
  show found: "found = map_of (entries c) k" and "cache_cap c' = cache_cap c" using spec by simp_all
  show look: "map_of (entries c') = map_of (entries c)" using spec by (simp add: map_of_touch)
  show "cells_ok c' cells" using spec look assms(1) by (simp add: cells_ok_def)
  show "counters c' cells = counters c cells" by (simp add: counters_def look fun_eq_iff)
  show "map fst (entries c') = next_keys k (cache_cap c) (map fst (entries c))" if "found \<noteq> None"
    using lru_cache.find_keys [OF ok, of k] assms(2) that found by simp
qed

end
