(* ===== verification/HotspotBucket.thy ===== *)
theory HotspotBucket
  imports CounterCache
begin

text \<open>
  The reject controller of hot parameters as a bucket of tokens per argument. The abstract state lists the
  arguments by use and gives each a bucket: when it was last filled and the tokens left. The two caches
  and the cells behind them refine it, and on it the rate of an argument is bounded.
\<close>

section \<open>The abstract bucket\<close>

type_synonym bucket = "i64 \<times> i64"

definition bucket_check :: "i64 \<Rightarrow> i64 \<Rightarrow> i64 \<Rightarrow> i64 \<Rightarrow> i64 \<Rightarrow> bucket option \<Rightarrow> bool \<times> bucket" where
  "bucket_check tokenCount maxCount window batchCount now bucket =
     (case bucket of
        None \<Rightarrow> (True, (now, maxCount - batchCount))
      | Some (lastTime, rest) \<Rightarrow>
          if window <s now - lastTime then
            let toAdd = i64_quot ((now - lastTime) * tokenCount) window;
                q = (if maxCount <s toAdd + rest then maxCount - batchCount else toAdd + rest - batchCount)
            in if q <s 0 then (False, (lastTime, rest)) else (True, (now, q))
          else if 0 \<le>s rest - batchCount then (True, (lastTime, rest - batchCount))
          else (False, (lastTime, rest)))"

type_synonym buckets = "go_value list \<times> (go_value \<Rightarrow> bucket option)"

text \<open>One request of \<open>n\<close> for an argument against at most \<open>cap\<close> buckets.\<close>

definition buckets_check :: "hot_env \<Rightarrow> hot_base \<Rightarrow> i64 \<Rightarrow> nat \<Rightarrow> go_value \<Rightarrow> i64 \<Rightarrow> i64 \<Rightarrow> buckets \<Rightarrow> bool \<times> buckets" where
  "buckets_check env b burst cap arg n now s =
     (let tokenCount = hot_tokenCount env b arg; maxCount = tokenCount + burst
      in if tokenCount \<le>s 0 \<or> maxCount <s n then (False, s)
         else let (ok, bucket) = bucket_check tokenCount maxCount (hb_durationInSec b * 1000) n now (snd s arg);
                  keys = next_keys arg cap (fst s)
              in (ok, keys, (snd s)(arg \<mapsto> bucket) |` set keys))"

section \<open>The caches of a metric\<close>

definition both :: "('k \<Rightarrow> 'a option) \<Rightarrow> ('k \<Rightarrow> 'b option) \<Rightarrow> 'k \<Rightarrow> ('a \<times> 'b) option" where
  "both f g k = (case f k of None \<Rightarrow> None | Some x \<Rightarrow> map_option (Pair x) (g k))"

definition qps_metric :: "hot_base \<Rightarrow> hot_world \<Rightarrow> (go_value, nat) lru \<Rightarrow> (go_value, nat) lru \<Rightarrow> bool" where
  "qps_metric b w tc kc \<longleftrightarrow> hb_metric b < length (hw_metrics w) \<and>
     hm_RuleTimeCounter (hw_metrics w ! hb_metric b) = Some tc \<and> hm_RuleTokenCounter (hw_metrics w ! hb_metric b) = Some kc"

definition pair_ok :: "(go_value, nat) lru \<Rightarrow> (go_value, nat) lru \<Rightarrow> i64 list \<Rightarrow> bool" where
  "pair_ok tc kc cells \<longleftrightarrow> cells_ok tc cells \<and> cells_ok kc cells \<and> apart tc kc \<and> cache_cap tc = cache_cap kc \<and>
     map fst (entries tc) = map fst (entries kc)"

definition reject_wf :: "hot_base \<Rightarrow> hot_world \<Rightarrow> bool" where
  "reject_wf b w \<longleftrightarrow> (\<exists>tc kc. qps_metric b w tc kc \<and> pair_ok tc kc (hw_cells w))"

definition reject_cap :: "hot_base \<Rightarrow> hot_world \<Rightarrow> nat" where
  "reject_cap b w = (case hm_RuleTimeCounter (hw_metrics w ! hb_metric b) of None \<Rightarrow> 0 | Some tc \<Rightarrow> cache_cap tc)"

definition reject_abs :: "hot_base \<Rightarrow> hot_world \<Rightarrow> buckets" where
  "reject_abs b w =
     (case (hm_RuleTimeCounter (hw_metrics w ! hb_metric b), hm_RuleTokenCounter (hw_metrics w ! hb_metric b)) of
        (Some tc, Some kc) \<Rightarrow> (map fst (entries tc), both (counters tc (hw_cells w)) (counters kc (hw_cells w)))
      | _ \<Rightarrow> ([], Map.empty))"

lemma reject_abs_eq:
  "qps_metric b w tc kc \<Longrightarrow>
    reject_abs b w = (map fst (entries tc), both (counters tc (hw_cells w)) (counters kc (hw_cells w))) \<and>
    reject_cap b w = cache_cap tc"
  by (simp add: reject_abs_def reject_cap_def qps_metric_def)

lemma both_restrict: "both (f(k \<mapsto> x) |` A) (g(k \<mapsto> y) |` A) = (both f g)(k \<mapsto> (x, y)) |` A"
  by (rule ext) (auto simp: both_def restrict_map_def split: option.splits)

lemma both_update: "both (f(k \<mapsto> x)) (g(k \<mapsto> y)) = (both f g)(k \<mapsto> (x, y))"
  by (rule ext) (auto simp: both_def split: option.splits)

lemma pair_lookup:
  assumes "pair_ok tc kc cells"
  shows "map_of (entries tc) k = None \<longleftrightarrow> map_of (entries kc) k = None"
proof -
  have "fst ` set (entries tc) = fst ` set (entries kc)"
    using assms unfolding pair_ok_def by (metis list.set_map)
  then show ?thesis by (simp add: map_of_eq_None_iff)
qed

lemma apart_add:
  assumes "cells_ok c cells" and "cells_ok d cells" and "apart c d"
    and "lru_AddIfAbsent k (length cells) c = (prior, c')"
  shows "apart c' d"
  unfolding apart_def
proof (intro allI impI notI)
  fix a b p
  assume a: "map_of (entries c') a = Some p" and b: "map_of (entries d) b = Some p"
  have "p < length cells" using cells_ok_range [OF assms(2) b] .
  then have "map_of (entries c) a = Some p" using cells_add(7) [OF assms(1,4) refl a] by auto
  with assms(3) b show False by (auto simp: apart_def)
qed

subsection \<open>Accesses\<close>

lemma time_add_spec:
  assumes "qps_metric b w tc kc" and "cells_ok tc (hw_cells w)"
  obtains tc' w' where "time_add (hb_metric b) tc arg v w = (map_of (entries tc) arg, w')"
    and "lru_AddIfAbsent arg (length (hw_cells w)) tc = (map_of (entries tc) arg, tc')"
    and "qps_metric b w' tc' kc" and "hw_cells w' = hw_cells w @ [v]"
proof -
  obtain prior tc' where add: "lru_AddIfAbsent arg (length (hw_cells w)) tc = (prior, tc')" by fastforce
  note prior = cells_add(1) [OF assms(2) add refl]
  show thesis
    using assms(1) add unfolding prior
    by (intro that [of "snd (time_add (hb_metric b) tc arg v w)" tc'])
      (auto simp: time_add_def hw_new_def hw_metric_def qps_metric_def)
qed

lemma token_add_spec:
  assumes "qps_metric b w tc kc" and "cells_ok kc (hw_cells w)"
  obtains kc' w' where "token_add (hb_metric b) kc arg v w = (map_of (entries kc) arg, w')"
    and "lru_AddIfAbsent arg (length (hw_cells w)) kc = (map_of (entries kc) arg, kc')"
    and "qps_metric b w' tc kc'" and "hw_cells w' = hw_cells w @ [v]"
proof -
  obtain prior kc' where add: "lru_AddIfAbsent arg (length (hw_cells w)) kc = (prior, kc')" by fastforce
  note prior = cells_add(1) [OF assms(2) add refl]
  show thesis
    using assms(1) add unfolding prior
    by (intro that [of "snd (token_add (hb_metric b) kc arg v w)" kc'])
      (auto simp: token_add_def hw_new_def hw_metric_def qps_metric_def)
qed

lemma token_get_spec:
  assumes "qps_metric b w tc kc" and "cells_ok kc (hw_cells w)"
  obtains kc' w' where "token_get (hb_metric b) kc arg w = (map_of (entries kc) arg, w')"
    and "lru_Get arg kc = (map_of (entries kc) arg, kc')"
    and "qps_metric b w' tc kc'" and "hw_cells w' = hw_cells w"
proof -
  obtain found kc' where get: "lru_Get arg kc = (found, kc')" by fastforce
  note found = cells_get(1) [OF assms(2) get]
  show thesis
    using assms(1) get unfolding found
    by (intro that [of "snd (token_get (hb_metric b) kc arg w)" kc'])
      (auto simp: token_get_def hw_metric_def qps_metric_def)
qed

lemma qps_metric_store [simp]: "qps_metric b (hw_store p v w) tc kc = qps_metric b w tc kc"
  "hw_cells (hw_store p v w) = (hw_cells w)[p := v]"
  by (simp_all add: qps_metric_def hw_store_def)

lemma cells_ok_store [simp]: "cells_ok c (cells[p := v]) = cells_ok c cells"
  by (simp add: cells_ok_def)

lemma pair_ok_store [simp]: "pair_ok tc kc (cells[p := v]) = pair_ok tc kc cells"
  by (simp add: pair_ok_def)


text \<open>
  The world after both caches were used for a key: \<open>x\<close> and \<open>y\<close> are its counters now, behind \<open>p\<close> and \<open>q\<close>.
\<close>

definition pair_used ::
  "hot_base \<Rightarrow> (go_value, nat) lru \<Rightarrow> (go_value, nat) lru \<Rightarrow> i64 list \<Rightarrow> go_value \<Rightarrow> i64 \<Rightarrow> i64 \<Rightarrow> nat \<Rightarrow> nat \<Rightarrow> hot_world \<Rightarrow> bool" where
  "pair_used b tc kc cells arg x y p q w' \<longleftrightarrow>
     (\<exists>tc' kc'. qps_metric b w' tc' kc' \<and> pair_ok tc' kc' (hw_cells w') \<and> cache_cap tc' = cache_cap tc \<and>
        map fst (entries tc') = next_keys arg (cache_cap tc) (map fst (entries tc)) \<and>
        counters tc' (hw_cells w') = (counters tc cells)(arg \<mapsto> x) |` set (map fst (entries tc')) \<and>
        counters kc' (hw_cells w') = (counters kc cells)(arg \<mapsto> y) |` set (map fst (entries tc')) \<and>
        map_of (entries tc') arg = Some p \<and> map_of (entries kc') arg = Some q)"

lemma pair_usedI:
  "qps_metric b w' tc' kc' \<Longrightarrow> pair_ok tc' kc' (hw_cells w') \<Longrightarrow> cache_cap tc' = cache_cap tc \<Longrightarrow>
    map fst (entries tc') = next_keys arg (cache_cap tc) (map fst (entries tc)) \<Longrightarrow>
    counters tc' (hw_cells w') = (counters tc cells)(arg \<mapsto> x) |` set (map fst (entries tc')) \<Longrightarrow>
    counters kc' (hw_cells w') = (counters kc cells)(arg \<mapsto> y) |` set (map fst (entries tc')) \<Longrightarrow>
    map_of (entries tc') arg = Some p \<Longrightarrow> map_of (entries kc') arg = Some q \<Longrightarrow>
    pair_used b tc kc cells arg x y p q w'"
  unfolding pair_used_def by blast

lemma pair_used_load:
  assumes "pair_used b tc kc cells arg x y p q w'"
  shows "hw_load p w' = x" and "hw_load q w' = y"
proof -
  from assms obtain tc' kc' where u: "map fst (entries tc') = next_keys arg (cache_cap tc) (map fst (entries tc))"
      "counters tc' (hw_cells w') = (counters tc cells)(arg \<mapsto> x) |` set (map fst (entries tc'))"
      "counters kc' (hw_cells w') = (counters kc cells)(arg \<mapsto> y) |` set (map fst (entries tc'))"
      "map_of (entries tc') arg = Some p" "map_of (entries kc') arg = Some q"
    unfolding pair_used_def by blast
  have "arg \<in> set (map fst (entries tc'))" using u(4) by (metis lru_cache.keys_lookup option.distinct(1))
  then have "counters tc' (hw_cells w') arg = Some x" "counters kc' (hw_cells w') arg = Some y"
    unfolding u(2,3) by simp_all
  then show "hw_load p w' = x" "hw_load q w' = y" using u(4,5) by (simp_all add: counters_def hw_load_def)
qed

lemma pair_used_store:
  assumes "pair_used b tc kc cells arg x y p q w'"
  shows "pair_used b tc kc cells arg z y p q (hw_store p z w')" and "pair_used b tc kc cells arg x z p q (hw_store q z w')"
proof -
  from assms obtain tc' kc' where u: "qps_metric b w' tc' kc'" "pair_ok tc' kc' (hw_cells w')" "cache_cap tc' = cache_cap tc"
      "map fst (entries tc') = next_keys arg (cache_cap tc) (map fst (entries tc))"
      "counters tc' (hw_cells w') = (counters tc cells)(arg \<mapsto> x) |` set (map fst (entries tc'))"
      "counters kc' (hw_cells w') = (counters kc cells)(arg \<mapsto> y) |` set (map fst (entries tc'))"
      "map_of (entries tc') arg = Some p" "map_of (entries kc') arg = Some q"
    unfolding pair_used_def by blast
  have mem: "arg \<in> set (map fst (entries tc'))" using u(7) by (metis lru_cache.keys_lookup option.distinct(1))
  have ok: "cells_ok tc' (hw_cells w')" "cells_ok kc' (hw_cells w')" "apart tc' kc'" using u(2) by (simp_all add: pair_ok_def)
  have upd: "(f(arg \<mapsto> a) |` A)(arg \<mapsto> c) = f(arg \<mapsto> c) |` A" if "arg \<in> A" for f :: "go_value \<Rightarrow> i64 option" and a c A
    using that by (auto simp: restrict_map_def)
  note upd = upd [OF mem [unfolded u(4)]]
  show "pair_used b tc kc cells arg z y p q (hw_store p z w')"
    using u counters_store [OF ok(1) u(7), of z] counters_store_apart [OF ok(3) u(7), of "hw_cells w'" z]
    by (intro pair_usedI [of b _ tc' kc']) (simp_all add: upd del: set_map restrict_fun_upd)
  show "pair_used b tc kc cells arg x z p q (hw_store q z w')"
    using u counters_store [OF ok(2) u(8), of z] counters_store_apart [OF apart_sym [OF ok(3)] u(8), of "hw_cells w'" z]
    by (intro pair_usedI [of b _ tc' kc']) (simp_all add: upd del: set_map restrict_fun_upd)
qed

lemma pair_used_abs:
  assumes "qps_metric b w tc kc" and "pair_used b tc kc (hw_cells w) arg x y p q w'"
  shows "reject_wf b w'" and "reject_cap b w' = reject_cap b w"
    and "reject_abs b w' = (let keys = next_keys arg (reject_cap b w) (fst (reject_abs b w))
           in (keys, (snd (reject_abs b w))(arg \<mapsto> (x, y)) |` set keys))"
proof -
  from assms(2) obtain tc' kc' where u: "qps_metric b w' tc' kc'" "pair_ok tc' kc' (hw_cells w')" "cache_cap tc' = cache_cap tc"
      "map fst (entries tc') = next_keys arg (cache_cap tc) (map fst (entries tc))"
      "counters tc' (hw_cells w') = (counters tc (hw_cells w))(arg \<mapsto> x) |` set (map fst (entries tc'))"
      "counters kc' (hw_cells w') = (counters kc (hw_cells w))(arg \<mapsto> y) |` set (map fst (entries tc'))"
    unfolding pair_used_def by blast
  show "reject_wf b w'" using u(1,2) by (auto simp: reject_wf_def)
  note a = reject_abs_eq [OF assms(1)] reject_abs_eq [OF u(1)]
  show "reject_cap b w' = reject_cap b w" using a u(3) by simp
  show "reject_abs b w' = (let keys = next_keys arg (reject_cap b w) (fst (reject_abs b w))
           in (keys, (snd (reject_abs b w))(arg \<mapsto> (x, y)) |` set keys))"
    using a u(4) by (simp add: Let_def u(5,6) both_restrict del: restrict_fun_upd)
qed

lemma pair_add_both:
  assumes q: "qps_metric b w tc kc" and ok: "pair_ok tc kc (hw_cells w)"
    and t: "time_add (hb_metric b) tc arg now w = (prior, w1)" and k: "token_add (hb_metric b) kc arg v w1 = (prior', w2)"
  shows "prior = map_of (entries tc) arg" and "prior' = map_of (entries kc) arg"
    and "hw_cells w1 = hw_cells w @ [now]" and "hw_cells w2 = hw_cells w @ [now, v]"
    and "\<exists>p q. pair_used b tc kc (hw_cells w) arg (case counters tc (hw_cells w) arg of None \<Rightarrow> now | Some x \<Rightarrow> x)
           (case counters kc (hw_cells w) arg of None \<Rightarrow> v | Some y \<Rightarrow> y) p q w2 \<and>
           (prior \<noteq> None \<longrightarrow> prior = Some p) \<and> (prior' \<noteq> None \<longrightarrow> prior' = Some q)"
proof -
  have tok: "cells_ok tc (hw_cells w)" and kok: "cells_ok kc (hw_cells w)" and ap: "apart tc kc"
    and cap: "cache_cap tc = cache_cap kc" and keys: "map fst (entries tc) = map fst (entries kc)"
    using ok by (simp_all add: pair_ok_def)
  obtain tc' where 1: "prior = map_of (entries tc) arg"
      "lru_AddIfAbsent arg (length (hw_cells w)) tc = (map_of (entries tc) arg, tc')"
      "qps_metric b w1 tc' kc" "hw_cells w1 = hw_cells w @ [now]"
    using time_add_spec [OF q tok, of arg now] t by (metis prod.inject)
  note c1 = cells_add [OF tok 1(2) 1(4)]
  have kok1: "cells_ok kc (hw_cells w1)" using kok by (rule cells_ok_grow) (simp add: 1(4))
  obtain kc' where 2: "prior' = map_of (entries kc) arg"
      "lru_AddIfAbsent arg (length (hw_cells w1)) kc = (map_of (entries kc) arg, kc')"
      "qps_metric b w2 tc' kc'" "hw_cells w2 = hw_cells w1 @ [v]"
    using token_add_spec [OF 1(3) kok1, of arg v] k by (metis prod.inject)
  note c2 = cells_add [OF kok1 2(2) 2(4)]
  have "apart tc' kc" by (rule apart_add [OF tok kok ap 1(2)])
  then have ap2: "apart tc' kc'"
    using apart_add [OF kok1 _ _ 2(2), of tc'] c1(2) by (auto intro: apart_sym)
  have tok2: "cells_ok tc' (hw_cells w2)" using c1(2) by (rule cells_ok_grow) (simp add: 2(4))
  have keys2: "map fst (entries tc') = map fst (entries kc')" using c1(4) c2(4) keys cap by simp
  have ok2: "pair_ok tc' kc' (hw_cells w2)"
    using tok2 c2(2) ap2 c1(3) c2(3) cap keys2 by (simp add: pair_ok_def)
  have tcount: "counters tc' (hw_cells w2) = counters tc' (hw_cells w1)"
    unfolding 2(4) by (rule counters_grow [OF c1(2)])
  have kcount: "counters kc (hw_cells w1) = counters kc (hw_cells w)"
    unfolding 1(4) by (rule counters_grow [OF kok])
  show "prior = map_of (entries tc) arg" "prior' = map_of (entries kc) arg"
    "hw_cells w1 = hw_cells w @ [now]" "hw_cells w2 = hw_cells w @ [now, v]" using 1 2 by simp_all
  obtain p q where "map_of (entries tc') arg = Some p" "map_of (entries kc') arg = Some q"
      "prior \<noteq> None \<longrightarrow> prior = Some p" "prior' \<noteq> None \<longrightarrow> prior' = Some q"
    using c1(5) c2(5) 1(1) 2(1) by (auto split: option.splits)
  then show "\<exists>p q. pair_used b tc kc (hw_cells w) arg (case counters tc (hw_cells w) arg of None \<Rightarrow> now | Some x \<Rightarrow> x)
           (case counters kc (hw_cells w) arg of None \<Rightarrow> v | Some y \<Rightarrow> y) p q w2 \<and>
           (prior \<noteq> None \<longrightarrow> prior = Some p) \<and> (prior' \<noteq> None \<longrightarrow> prior' = Some q)"
    unfolding pair_used_def using 2(3) ok2 c1(3,4,6) c2(6) tcount kcount keys2
    by (intro exI [of _ p] exI [of _ q] conjI exI [of _ tc'] exI [of _ kc']) simp_all
qed

lemma pair_add_get:
  assumes q: "qps_metric b w tc kc" and ok: "pair_ok tc kc (hw_cells w)"
    and t: "time_add (hb_metric b) tc arg now w = (Some p, w1)" and k: "token_get (hb_metric b) kc arg w1 = (found, w2)"
  shows "\<exists>q x y. found = Some q \<and> counters tc (hw_cells w) arg = Some x \<and> counters kc (hw_cells w) arg = Some y \<and>
    pair_used b tc kc (hw_cells w) arg x y p q w2"
proof -
  have tok: "cells_ok tc (hw_cells w)" and kok: "cells_ok kc (hw_cells w)" and ap: "apart tc kc"
    and cap: "cache_cap tc = cache_cap kc" and keys: "map fst (entries tc) = map fst (entries kc)"
    using ok by (simp_all add: pair_ok_def)
  obtain tc' where 1: "map_of (entries tc) arg = Some p"
      "lru_AddIfAbsent arg (length (hw_cells w)) tc = (Some p, tc')"
      "qps_metric b w1 tc' kc" "hw_cells w1 = hw_cells w @ [now]"
    using time_add_spec [OF q tok, of arg now] t by (metis prod.inject)
  note c1 = cells_add [OF tok 1(2) 1(4)]
  obtain q where q: "map_of (entries kc) arg = Some q"
    using pair_lookup [OF ok, of arg] 1(1) by (cases "map_of (entries kc) arg") auto
  have kok1: "cells_ok kc (hw_cells w1)" using kok by (rule cells_ok_grow) (simp add: 1(4))
  obtain kc' where 2: "found = Some q" "lru_Get arg kc = (Some q, kc')" "qps_metric b w2 tc' kc'" "hw_cells w2 = hw_cells w1"
    using token_get_spec [OF 1(3) kok1, of arg] k q by (metis prod.inject)
  note c2 = cells_get [OF kok1 2(2)]
  have "apart tc' kc" by (rule apart_add [OF tok kok ap 1(2)])
  then have ap2: "apart tc' kc'" using c2(4) by (simp add: apart_def)
  have keys2: "map fst (entries tc') = map fst (entries kc')" using c1(4) c2(6) keys cap by simp
  have ok2: "pair_ok tc' kc' (hw_cells w2)"
    using c1(2,3) c2(2,3) ap2 cap keys2 by (simp add: pair_ok_def 2(4))
  have kcount: "counters kc (hw_cells w1) = counters kc (hw_cells w)"
    unfolding 1(4) by (rule counters_grow [OF kok])
  obtain x y where xy: "counters tc (hw_cells w) arg = Some x" "counters kc (hw_cells w) arg = Some y"
    using 1(1) q by (simp add: counters_def)
  have stay: "f(arg \<mapsto> y) |` A = f" if "f arg = Some y" "\<forall>a. f a \<noteq> None \<longrightarrow> a \<in> A"
    for f :: "go_value \<Rightarrow> i64 option" and A
  proof (rule ext)
    fix a
    show "(f(arg \<mapsto> y) |` A) a = f a" using that by (cases "f a") (auto simp: restrict_map_def)
  qed
  have "a \<in> set (map fst (entries tc'))" if "counters kc (hw_cells w) a \<noteq> None" for a
  proof -
    have "map_of (entries kc) a \<noteq> None" using that by (simp add: counters_def)
    then have "a \<in> set (map fst (entries kc'))" using c2(4) by (metis lru_cache.keys_lookup)
    then show ?thesis by (simp only: keys2)
  qed
  then have "counters kc' (hw_cells w2) = (counters kc (hw_cells w))(arg \<mapsto> y) |` set (map fst (entries tc'))"
    using c2(5) kcount xy(2) by (simp add: 2(4) stay del: restrict_fun_upd)
  then have "pair_used b tc kc (hw_cells w) arg x y p q w2"
    using 2(3,4) ok2 c1(3-6) c2(4) q xy(1)
    by (intro pair_usedI [of b _ tc' kc']) (simp_all del: restrict_fun_upd)
  with 2(1) xy show ?thesis by blast
qed

section \<open>A check refines the check of a bucket\<close>

definition reject_msg :: "hot_env \<Rightarrow> hot_base \<Rightarrow> go_value \<Rightarrow> hot_result" where
  "reject_msg env b arg =
     hot_blocked env ''hotspot reject check blocked, request batch count is more than available token count'' arg b None"

lemma reject_round_spec:
  fixes T mx n now :: i64 and arg :: go_value
  assumes q: "qps_metric b w tc kc" and ok: "pair_ok tc kc (hw_cells w)" and W: "hb_durationInSec b * 1000 \<noteq> 0"
  defines "bk \<equiv> bucket_check T mx (hb_durationInSec b * 1000) n now
    (both (counters tc (hw_cells w)) (counters kc (hw_cells w)) arg)"
  shows "\<exists>w' p q. reject_round env b arg n T mx now tc kc w = Inl (Ret (if fst bk then None else reject_msg env b arg), w') \<and>
    pair_used b tc kc (hw_cells w) arg (fst (snd bk)) (snd (snd bk)) p q w'"
proof -
  obtain prior w1 where t: "time_add (hb_metric b) tc arg now w = (prior, w1)" by fastforce
  obtain prior' w2 where k: "token_add (hb_metric b) kc arg (mx - n) w1 = (prior', w2)" by fastforce
  note add = pair_add_both [OF q ok t k]
  show ?thesis
  proof (cases prior)
    case None
    then have "counters tc (hw_cells w) arg = None" "counters kc (hw_cells w) arg = None"
      using add(1) pair_lookup [OF ok, of arg] by (simp_all add: counters_def)
    then show ?thesis
      using None add(5) by (auto simp: reject_round_def t k bk_def bucket_check_def both_def)
  next
    case (Some p)
    obtain q where q': "map_of (entries kc) arg = Some q"
      using add(1) Some pair_lookup [OF ok, of arg] by (cases "map_of (entries kc) arg") auto
    obtain x y where xy: "counters tc (hw_cells w) arg = Some x" "counters kc (hw_cells w) arg = Some y"
      using add(1) [symmetric] Some q' by (simp add: counters_def)
    then have bkt: "both (counters tc (hw_cells w)) (counters kc (hw_cells w)) arg = Some (x, y)" by (simp add: both_def)
    have pr: "prior' = Some q" using add(2) q' by simp
    have used: "pair_used b tc kc (hw_cells w) arg x y p q w2"
      using add(5) Some pr xy by auto
    have "p < length (hw_cells w)" and px: "hw_cells w ! p = x"
      using add(1) [symmetric] Some ok xy(1) by (auto simp: pair_ok_def counters_def dest: cells_ok_range)
    then have load: "hw_load p w1 = x" by (simp add: hw_load_def add(3) nth_append)
    have load2: "hw_load q w2 = y" using pair_used_load(2) [OF used] .
    show ?thesis
    proof (cases "hb_durationInSec b * 1000 <s now - x")
      case True
      note used1 = pair_used_store(1) [OF pair_used_store(2) [OF used]]
      show ?thesis
        unfolding bk_def bkt reject_round_def
        using True W used used1 by (auto simp: t k Some pr load load2 bucket_check_def Let_def reject_msg_def)
    next
      case False
      obtain found w3 where g: "token_get (hb_metric b) kc arg w1 = (found, w3)" by fastforce
      from pair_add_get [OF q ok t [unfolded Some] g] xy obtain q2
        where found: "found = Some q2" and used: "pair_used b tc kc (hw_cells w) arg x y p q2 w3" by auto
      have load3: "hw_load q2 w3 = y" using pair_used_load(2) [OF used] .
      note used1 = pair_used_store(2) [OF used]
      show ?thesis
        unfolding bk_def bkt reject_round_def
        using False used used1 by (auto simp: t g found Some load load3 bucket_check_def Let_def reject_msg_def)
    qed
  qed
qed

text \<open>What a blocked request is told.\<close>

definition reject_blocked :: "hot_env \<Rightarrow> hot_base \<Rightarrow> i64 \<Rightarrow> go_value \<Rightarrow> i64 \<Rightarrow> hot_result" where
  "reject_blocked env b burst arg n =
     (if hot_tokenCount env b arg \<le>s 0 then hot_blocked env ''hotspot reject check blocked, threshold is <= 0'' arg b None
      else if hot_tokenCount env b arg + burst <s n
        then hot_blocked env ''hotspot reject check blocked, request batch count is more than max token count'' arg b None
      else reject_msg env b arg)"

lemma reject_step:
  assumes wf: "reject_wf b w" and qps: "hb_metricType b = HotQPS" and W: "hb_durationInSec b * 1000 \<noteq> 0"
    and hash: "he_hashable env arg"
  shows "\<exists>w'. reject_PerformChecking env clk b burst arg n w =
      Some (Ret (if fst (buckets_check env b burst (reject_cap b w) arg n (clk 0) (reject_abs b w)) then None
                 else reject_blocked env b burst arg n), w') \<and>
    reject_wf b w' \<and> reject_cap b w' = reject_cap b w \<and>
    reject_abs b w' = snd (buckets_check env b burst (reject_cap b w) arg n (clk 0) (reject_abs b w))"
proof -
  from wf obtain tc kc where q: "qps_metric b w tc kc" and ok: "pair_ok tc kc (hw_cells w)"
    by (auto simp: reject_wf_def)
  have m: "hm_RuleTimeCounter (hw_metrics w ! hb_metric b) = Some tc" "hm_RuleTokenCounter (hw_metrics w ! hb_metric b) = Some kc"
    using q by (simp_all add: qps_metric_def)
  have ty: "HotQPS \<noteq> HotConcurrency" "\<not> HotQPS <s HotQPS" by (simp_all add: HotQPS_def HotConcurrency_def)
  let ?T = "hot_tokenCount env b arg" and ?mx = "hot_tokenCount env b arg + burst"
  let ?bk = "bucket_check ?T ?mx (hb_durationInSec b * 1000) n (clk 0)
    (both (counters tc (hw_cells w)) (counters kc (hw_cells w)) arg)"
  show ?thesis
  proof (cases "?T \<le>s 0 \<or> ?mx <s n")
    case True
    then show ?thesis
      using wf by (auto simp: reject_PerformChecking_def qps ty m hash buckets_check_def reject_blocked_def Let_def)
  next
    case False
    obtain w' p q' where r: "reject_round env b arg n ?T ?mx (clk 0) tc kc w =
        Inl (Ret (if fst ?bk then None else reject_msg env b arg), w')"
      and used: "pair_used b tc kc (hw_cells w) arg (fst (snd ?bk)) (snd (snd ?bk)) p q' w'"
      using reject_round_spec [OF q ok W] by blast
    have run: "reject_PerformChecking env clk b burst arg n w = Some (Ret (if fst ?bk then None else reject_msg env b arg), w')"
      using False by (simp add: reject_PerformChecking_def qps ty m hash Let_def reject_loop.simps r)
    have bk: "snd (reject_abs b w) arg = both (counters tc (hw_cells w)) (counters kc (hw_cells w)) arg"
      using reject_abs_eq [OF q] by simp
    have "buckets_check env b burst (reject_cap b w) arg n (clk 0) (reject_abs b w) =
        (fst ?bk, next_keys arg (reject_cap b w) (fst (reject_abs b w)),
         (snd (reject_abs b w))(arg \<mapsto> snd ?bk) |` set (next_keys arg (reject_cap b w) (fst (reject_abs b w))))"
      using False by (simp add: buckets_check_def bk Let_def split_beta)
    then show ?thesis
      using run pair_used_abs [OF q used] False by (simp add: reject_blocked_def Let_def)
  qed
qed

end
