(* ===== verification/HotspotRate.thy ===== *)
theory HotspotRate
  imports HotspotBucket
begin

text \<open>
  What the reject controller of hot parameters guarantees over any sequence of requests: it refines the
  buckets, and while the caches hold all arguments it bounds the rate of each of them.
\<close>

section \<open>Runs\<close>

text \<open>A request: its argument, its batch count and the time of the check.\<close>

type_synonym hot_request = "go_value \<times> i64 \<times> i64"

fun reject_run ::
  "hot_env \<Rightarrow> hot_base \<Rightarrow> i64 \<Rightarrow> hot_request list \<Rightarrow> hot_world \<Rightarrow> (hot_result go list \<times> hot_world) option" where
  "reject_run env b burst [] w = Some ([], w)"
| "reject_run env b burst ((arg, n, now) # reqs) w =
     (case reject_PerformChecking env (\<lambda>_. now) b burst arg n w of
        None \<Rightarrow> None
      | Some (r, w) \<Rightarrow> map_option (\<lambda>(rs, w). (r # rs, w)) (reject_run env b burst reqs w))"

fun buckets_run :: "hot_env \<Rightarrow> hot_base \<Rightarrow> i64 \<Rightarrow> nat \<Rightarrow> hot_request list \<Rightarrow> buckets \<Rightarrow> bool list \<times> buckets" where
  "buckets_run env b burst cap [] s = ([], s)"
| "buckets_run env b burst cap ((arg, n, now) # reqs) s =
     (let (ok, s) = buckets_check env b burst cap arg n now s; (oks, s) = buckets_run env b burst cap reqs s
      in (ok # oks, s))"

definition answers :: "hot_env \<Rightarrow> hot_base \<Rightarrow> i64 \<Rightarrow> hot_request list \<Rightarrow> bool list \<Rightarrow> hot_result go list" where
  "answers env b burst reqs oks =
     map2 (\<lambda>(arg, n, now) ok. Ret (if ok then None else reject_blocked env b burst arg n)) reqs oks"

lemma reject_run_refines:
  assumes "reject_wf b w" and "hb_metricType b = HotQPS" and "hb_durationInSec b * 1000 \<noteq> 0"
    and "\<forall>(arg, n, now) \<in> set reqs. he_hashable env arg"
  shows "\<exists>oks w'. buckets_run env b burst (reject_cap b w) reqs (reject_abs b w) = (oks, reject_abs b w') \<and>
    reject_run env b burst reqs w = Some (answers env b burst reqs oks, w') \<and> reject_wf b w' \<and>
    length oks = length reqs"
  using assms(1,4)
proof (induction reqs arbitrary: w)
  case (Cons req reqs)
  obtain arg n now where req: "req = (arg, n, now)" by (metis prod_cases3)
  from reject_step [OF Cons.prems(1) assms(2,3), of env arg "\<lambda>_. now" burst n] Cons.prems(2) req
  obtain w1 where 1: "reject_PerformChecking env (\<lambda>_. now) b burst arg n w =
      Some (Ret (if fst (buckets_check env b burst (reject_cap b w) arg n now (reject_abs b w)) then None
                 else reject_blocked env b burst arg n), w1)"
    "reject_wf b w1" "reject_cap b w1 = reject_cap b w"
    "reject_abs b w1 = snd (buckets_check env b burst (reject_cap b w) arg n now (reject_abs b w))"
    by auto
  from Cons.IH [OF 1(2)] Cons.prems(2) obtain oks w' where
    "buckets_run env b burst (reject_cap b w) reqs (reject_abs b w1) = (oks, reject_abs b w')"
    "reject_run env b burst reqs w1 = Some (answers env b burst reqs oks, w')" "reject_wf b w'" "length oks = length reqs"
    using 1(3) by auto
  then show ?case using 1 by (auto simp: req split_beta answers_def Let_def)
qed (simp add: answers_def)

text \<open>A new controller: empty buckets, as many as the caches hold.\<close>

lemma qps_size_pos: "0 < sint (qps_size r)"
  by (auto simp: qps_size_def Let_def word_sle_eq word_sless_alt ParamsMaxCapacity_def)

lemma new_reject_wf:
  assumes "newBaseTrafficShapingController r w0 = (Some (b, r'), w)" and "hr_MetricType r = HotQPS"
  shows "reject_wf b w" and "reject_cap b w = nat (sint (qps_size r))" and "reject_abs b w = ([], Map.empty)"
    and "hb_metricType b = HotQPS" and "hb_durationInSec b = hr_DurationInSec r"
proof -
  obtain c :: "(go_value, nat) lru" where c: "NewLRUCacheMap (sint (qps_size r)) = Some c" "cache_ok c" "entries c = []"
      "cache_cap c = nat (sint (qps_size r))"
    using NewLRUCacheMap_ok [OF qps_size_pos [of r]] by metis
  have q: "qps_metric b w c c"
    using assms c(1) by (auto simp: newBaseTrafficShapingController_def newBaseTrafficShapingControllerWithMetric_def
        qps_metric_def Let_def split: option.splits if_splits)
  have ok: "pair_ok c c (hw_cells w)"
    using c by (simp add: pair_ok_def cells_ok_def apart_def)
  show "reject_wf b w" using q ok by (auto simp: reject_wf_def)
  show "reject_cap b w = nat (sint (qps_size r))" "reject_abs b w = ([], Map.empty)"
    using reject_abs_eq [OF q] c by (auto simp: both_def counters_def)
  show "hb_metricType b = HotQPS" "hb_durationInSec b = hr_DurationInSec r"
    using assms by (auto simp: newBaseTrafficShapingController_def newBaseTrafficShapingControllerWithMetric_def Let_def
        split: if_splits)
qed

text \<open>
  C25: The reject controller of a hot-parameter rule is a set of token buckets, one per argument. Over any
  sequence of requests a new controller answers each as the bucket of its argument does: the first
  request of an argument fills the bucket, later ones take from it, and once the window has passed it is
  filled at the rule's rate up to the threshold plus the burst. A check always returns. At most as many
  buckets are kept as the caches have room for, the least recently used being dropped; the two caches
  of the code never get out of step.
\<close>

theorem hot_reject_refines_buckets:
  assumes "newBaseTrafficShapingController r w0 = (Some (b, r'), w)" and "hr_MetricType r = HotQPS"
    and "hr_DurationInSec r * 1000 \<noteq> 0" and "\<forall>(arg, n, now) \<in> set reqs. he_hashable env arg"
  shows "\<exists>oks w'. buckets_run env b burst (nat (sint (qps_size r))) reqs ([], Map.empty) = (oks, reject_abs b w') \<and>
    reject_run env b burst reqs w = Some (answers env b burst reqs oks, w') \<and> reject_wf b w' \<and>
    length oks = length reqs"
  using reject_run_refines [of b w reqs env burst] new_reject_wf [OF assms(1,2)] assms(3,4) by simp

section \<open>The rate of one argument\<close>

text \<open>Nothing is dropped while the arguments fit the caches.\<close>

definition fits :: "go_value set \<Rightarrow> nat \<Rightarrow> buckets \<Rightarrow> bool" where
  "fits A cap s \<longleftrightarrow> finite A \<and> card A \<le> cap \<and> distinct (fst s) \<and> set (fst s) \<subseteq> A \<and> dom (snd s) \<subseteq> set (fst s)"

lemma next_keys_fits:
  assumes "finite A" and "card A \<le> cap" and "distinct ks" and "set ks \<subseteq> A" and "k \<in> A"
  shows "distinct (next_keys k cap ks) \<and> set (next_keys k cap ks) = insert k (set ks)"
proof (cases "k \<in> set ks")
  case True
  then show ?thesis using assms(3) by (auto simp: next_keys_def)
next
  case False
  then have d: "distinct (k # ks)" using assms(3) by simp
  have "card (set (k # ks)) \<le> card A" using assms by (intro card_mono) auto
  then have "length (k # ks) \<le> cap" using distinct_card [OF d] assms(2) by simp
  then show ?thesis using False d by (simp add: next_keys_def)
qed

lemma buckets_check_fits:
  assumes "fits A cap s" and "arg \<in> A"
  shows "fits A cap (snd (buckets_check env b burst cap arg n now s)) \<and>
    (let T = hot_tokenCount env b arg; mx = T + burst; bk = bucket_check T mx (hb_durationInSec b * 1000) n now (snd s arg)
     in if T \<le>s 0 \<or> mx <s n then buckets_check env b burst cap arg n now s = (False, s)
        else fst (buckets_check env b burst cap arg n now s) = fst bk \<and>
          snd (snd (buckets_check env b burst cap arg n now s)) = (snd s)(arg \<mapsto> snd bk))"
proof -
  have k: "distinct (next_keys arg cap (fst s)) \<and> set (next_keys arg cap (fst s)) = insert arg (set (fst s))"
    using assms by (intro next_keys_fits [of A]) (auto simp: fits_def)
  have r: "f(arg \<mapsto> x) |` insert arg (set (fst s)) = f(arg \<mapsto> x)" if "dom f \<subseteq> set (fst s)"
    for f :: "go_value \<Rightarrow> bucket option" and x
  proof (rule ext)
    fix k
    have "f k = None" if "k \<notin> set (fst s)" using \<open>dom f \<subseteq> set (fst s)\<close> that by blast
    then show "(f(arg \<mapsto> x) |` insert arg (set (fst s))) k = (f(arg \<mapsto> x)) k" by (simp add: restrict_map_def)
  qed
  have d: "dom (snd s) \<subseteq> set (fst s)" using assms(1) by (simp add: fits_def)
  show ?thesis
    using k assms d by (auto simp: buckets_check_def Let_def split_beta r fits_def simp del: restrict_fun_upd)
qed

definition bucket_inv :: "int \<Rightarrow> int \<Rightarrow> int \<Rightarrow> int \<Rightarrow> int \<Rightarrow> int \<Rightarrow> bucket option \<Rightarrow> bool" where
  "bucket_inv T mx W t0 t1 adm bucket \<longleftrightarrow>
     (case bucket of
        None \<Rightarrow> adm = 0
      | Some (l, k) \<Rightarrow> 0 \<le> sint k \<and> sint k \<le> mx \<and> t0 \<le> sint l \<and> sint l \<le> t1 \<and>
          W * (adm + sint k) \<le> W * mx + (sint l - t0) * T)"

lemma sint_diff_nonneg: "0 \<le> sint a \<Longrightarrow> 0 \<le> sint b \<Longrightarrow> sint (a - b :: i64) = sint a - sint b"
  using sint_lt [of a] sint_lt [of b] by (intro sint_diff_small) simp_all

lemma sint_quot_pos:
  assumes "0 \<le> sint a" and "0 < sint b"
  shows "sint (i64_quot a b) = sint a div sint b"
proof -
  have "sint a div sint b \<le> sint a" using assms by (simp add: div_le_dividend int_div_less_self order.strict_implies_order zdiv_mono2 [of "sint a" 1 "sint b", simplified])
  moreover have "sint a < 2 ^ 63" using sint_lt [of a] by simp
  moreover have "0 \<le> sint a div sint b" using assms by (simp add: pos_imp_zdiv_nonneg_iff)
  ultimately have "sint (of_int (sint a div sint b) :: i64) = sint a div sint b"
    by (subst sint_sbintrunc') (simp add: signed_take_bit_int_eq_self)
  moreover have "i64_quot a b = of_int (sint a div sint b)"
    using assms by (cases "sint a = 0") (simp_all add: i64_quot_def)
  ultimately show ?thesis by simp
qed

lemma bucket_check_inv:
  assumes inv: "bucket_inv (sint T) (sint mx) (sint W) t0 t1 adm bucket"
    and bk: "bucket_check T mx W n now bucket = (ok, bucket')"
    and pos: "0 < sint T" "0 < sint W" "0 \<le> sint n" "sint n \<le> sint mx" "sint mx < 2 ^ 62"
    and time: "0 \<le> t0" "t0 \<le> sint now" "sint now \<le> t1" "(t1 - t0) * sint T < 2 ^ 62"
  shows "bucket_inv (sint T) (sint mx) (sint W) t0 t1 (if ok then adm + sint n else adm) (Some bucket')"
proof (cases bucket)
  case None
  have mn: "sint (mx - n) = sint mx - sint n" using pos by (intro sint_diff_nonneg) linarith+
  have "0 \<le> (sint now - t0) * sint T" using time pos by simp
  with None inv bk pos time show ?thesis
    by (auto simp: bucket_check_def bucket_inv_def mn)
next
  case (Some lk)
  obtain l k where lk: "lk = (l, k)" by fastforce
  have i: "0 \<le> sint k" "sint k \<le> sint mx" "t0 \<le> sint l" "sint l \<le> t1"
    "sint W * (adm + sint k) \<le> sint W * sint mx + (sint l - t0) * sint T"
    using inv by (simp_all add: bucket_inv_def Some lk)
  have dt: "sint (now - l) = sint now - sint l" using i time by (intro sint_diff_nonneg) linarith+
  have kn: "sint (k - n) = sint k - sint n" using i pos by (intro sint_diff_nonneg) linarith+
  show ?thesis
  proof (cases "W <s now - l")
    case True
    then have p: "sint W < sint now - sint l" by (simp add: word_sless_alt dt)
    have "(sint now - sint l) * sint T \<le> (t1 - t0) * sint T" using i time pos by (intro mult_right_mono) linarith+
    then have small: "(sint now - sint l) * sint T < 2 ^ 62" using time(4) by linarith
    have nn: "0 \<le> (sint now - sint l) * sint T" using p pos by simp
    have m: "sint ((now - l) * T) = (sint now - sint l) * sint T"
      using sint_mult_small [of "now - l" T] small nn by (simp add: dt)
    define a where "a = i64_quot ((now - l) * T) W"
    have a: "sint a = (sint now - sint l) * sint T div sint W"
      unfolding a_def using sint_quot_pos [of "(now - l) * T" W] nn pos by (simp add: m)
    have a0: "0 \<le> sint a" using a nn pos by (simp add: pos_imp_zdiv_nonneg_iff)
    have aW: "sint W * sint a \<le> (sint now - sint l) * sint T"
      unfolding a using pos mult_div_mod_eq [of "sint W" "(sint now - sint l) * sint T"]
        pos_mod_sign [of "sint W" "(sint now - sint l) * sint T"] by linarith
    have a1: "sint a \<le> (sint now - sint l) * sint T"
    proof -
      have "sint a \<le> sint W * sint a" using a0 pos by (simp add: mult_le_cancel_right1)
      then show ?thesis using aW by linarith
    qed
    have ak: "sint (a + k) = sint a + sint k" using a0 a1 small i pos by (intro sint_add_small) simp_all
    have akn: "sint (a + k - n) = sint a + sint k - sint n"
      using a0 i pos ak sint_diff_nonneg [of "a + k" n] by simp
    have mn: "sint (mx - n) = sint mx - sint n" using pos by (intro sint_diff_nonneg) linarith+
    define q where "q = (if mx <s a + k then mx - n else a + k - n)"
    have q: "sint q \<le> sint mx - sint n" "sint q \<le> sint a + sint k - sint n"
      unfolding q_def by (auto simp: mn akn ak word_sless_alt)
    have res: "bucket_check T mx W n now bucket = (if q <s 0 then (False, (l, k)) else (True, (now, q)))"
      using True by (simp add: bucket_check_def Some lk Let_def a_def q_def)
    have "sint W * (adm + sint n + sint q) \<le> sint W * (adm + sint k + sint a)" using q pos by (intro mult_left_mono) linarith+
    also have "\<dots> = sint W * (adm + sint k) + sint W * sint a" by (simp add: algebra_simps)
    also have "\<dots> \<le> sint W * sint mx + (sint l - t0) * sint T + (sint now - sint l) * sint T" using i(5) aW by linarith
    also have "\<dots> = sint W * sint mx + (sint now - t0) * sint T" by (simp add: algebra_simps)
    finally show ?thesis
      using res bk i time pos q by (auto simp: bucket_inv_def word_sless_alt split: if_splits)
  next
    case False
    then have res: "bucket_check T mx W n now bucket =
        (if 0 \<le>s k - n then (True, (l, k - n)) else (False, (l, k)))"
      by (simp add: bucket_check_def Some lk)
    show ?thesis
      using res bk i time pos by (auto simp: bucket_inv_def word_sle_eq kn split: if_splits)
  qed
qed

text \<open>How much of an argument was let through.\<close>

fun admitted :: "go_value \<Rightarrow> hot_request list \<Rightarrow> hot_result go list \<Rightarrow> int" where
  "admitted a ((arg, n, now) # reqs) (r # rs) = (if arg = a \<and> r = Ret None then sint n else 0) + admitted a reqs rs"
| "admitted a _ _ = 0"

lemma reject_blocked_not_None [simp]: "reject_blocked env b burst arg n \<noteq> None"
  by (simp add: reject_blocked_def hot_blocked_def reject_msg_def)

lemma buckets_run_inv:
  assumes "fits A cap s" and "\<forall>(arg, n, now) \<in> set reqs. arg \<in> A"
    and "bucket_inv (sint T) (sint (T + burst)) (sint W) t0 t1 adm (snd s a)"
    and T: "T = hot_tokenCount env b a" and W: "W = hb_durationInSec b * 1000"
    and "0 < sint T" and "0 < sint W" and "sint (T + burst) < 2 ^ 62" and "0 \<le> t0" and "(t1 - t0) * sint T < 2 ^ 62"
    and "\<forall>(arg, n, now) \<in> set reqs. 0 \<le> sint n \<and> t0 \<le> sint now \<and> sint now \<le> t1"
    and "buckets_run env b burst cap reqs s = (oks, s')"
  shows "fits A cap s' \<and> bucket_inv (sint T) (sint (T + burst)) (sint W) t0 t1
    (adm + admitted a reqs (answers env b burst reqs oks)) (snd s' a)"
  using assms(1,2,3,11,12)
proof (induction reqs arbitrary: s adm oks)
  case (Cons req reqs)
  obtain arg n now where req: "req = (arg, n, now)" by (metis prod_cases3)
  obtain ok s1 where c: "buckets_check env b burst cap arg n now s = (ok, s1)" by (metis surj_pair)
  obtain oks1 where r: "buckets_run env b burst cap reqs s1 = (oks1, s')" and oks: "oks = ok # oks1"
    using Cons.prems(5) by (auto simp: req c split: prod.splits)
  have argA: "arg \<in> A" and n: "0 \<le> sint n" "t0 \<le> sint now" "sint now \<le> t1" using Cons.prems(2,4) by (auto simp: req)
  note f = buckets_check_fits [OF Cons.prems(1) argA, of env b burst n now, unfolded c fst_conv snd_conv Let_def]
  define adm1 where "adm1 = adm + (if arg = a \<and> ok then sint n else 0)"
  have inv1: "bucket_inv (sint T) (sint (T + burst)) (sint W) t0 t1 adm1 (snd s1 a)"
  proof (cases "arg = a")
    case False
    then show ?thesis using f Cons.prems(3) by (auto simp: adm1_def split: if_splits)
  next
    case True
    show ?thesis
    proof (cases "T \<le>s 0 \<or> T + burst <s n")
      case True
      then show ?thesis using f Cons.prems(3) by (simp add: adm1_def T \<open>arg = a\<close>)
    next
      case False
      then have le: "sint n \<le> sint (T + burst)" by (simp add: word_sless_alt)
      obtain ok' bk where bk: "bucket_check T (T + burst) W n now (snd s a) = (ok', bk)" by (metis surj_pair)
      have "ok' = ok" "snd s1 a = Some bk" using f False bk by (simp_all add: T W \<open>arg = a\<close>)
      then show ?thesis
        using bucket_check_inv [OF Cons.prems(3) bk] assms(6-10) n le by (auto simp: adm1_def \<open>arg = a\<close>)
    qed
  qed
  have fits1: "fits A cap s1" using f by simp
  have prem: "\<forall>(arg, n, now) \<in> set reqs. arg \<in> A" "\<forall>(arg, n, now) \<in> set reqs. 0 \<le> sint n \<and> t0 \<le> sint now \<and> sint now \<le> t1"
    using Cons.prems(2,4) by auto
  have "adm1 + admitted a reqs (answers env b burst reqs oks1) = adm + admitted a (req # reqs) (answers env b burst (req # reqs) oks)"
    by (simp add: adm1_def req oks answers_def)
  then show ?case using Cons.IH [OF fits1 prem(1) inv1 prem(2) r] by simp
qed simp

text \<open>
  C26: The limit of a hot parameter holds while its arguments fit the caches. Let a new reject controller
  answer, one after the other, any sequence of requests with no more distinct arguments than its caches
  hold (so that none is ever evicted), with times between \<open>t0\<close> and \<open>t1\<close> (in milliseconds), in any order,
  and batches that are not negative. Then for each argument \<open>a\<close> with a positive limit \<open>T\<close>, what is let through
  of \<open>a\<close> is at most the threshold plus the burst plus \<open>T\<close> per window of \<open>D\<close> milliseconds that passed: nothing
  that happens to the other arguments matters. The duration of the rule is positive and below \<open>2 ^ 53\<close>
  seconds, and the products stay below \<open>2 ^ 62\<close>.
\<close>

theorem hot_reject_rate_bound:
  assumes "newBaseTrafficShapingController r w0 = (Some (b, r'), w)" and "hr_MetricType r = HotQPS"
    and "0 < sint (hr_DurationInSec r)" and "sint (hr_DurationInSec r) < 2 ^ 53"
    and "\<forall>(arg, n, now) \<in> set reqs. he_hashable env arg \<and> 0 \<le> sint n \<and> t0 \<le> sint now \<and> sint now \<le> t1"
    and "card (fst ` set reqs) \<le> nat (sint (qps_size r))"
    and "T = sint (hot_tokenCount env b a)" and "0 < T" and "0 \<le> sint burst" and "T + sint burst < 2 ^ 62"
    and "0 \<le> t0" and "t0 \<le> t1" and "(t1 - t0) * T < 2 ^ 62" and "D = sint (hr_DurationInSec r) * 1000"
  shows "\<exists>rs w'. reject_run env b burst reqs w = Some (rs, w') \<and>
    D * admitted a reqs rs \<le> D * (T + sint burst) + (t1 - t0) * T"
proof -
  note new = new_reject_wf [OF assms(1,2)]
  have W: "sint (hb_durationInSec b * 1000) = D"
    unfolding new(5) assms(14) using assms(3,4) sint_mult_small [of "hr_DurationInSec r" 1000] by simp
  have Wpos: "0 < D" using assms(3,14) by simp
  have T: "sint (hot_tokenCount env b a + burst) = T + sint burst"
    using sint_add_small [of "hot_tokenCount env b a" burst] assms(7-10) by simp
  have nz: "hb_durationInSec b * 1000 \<noteq> 0" using W Wpos by force
  have hash: "\<forall>(arg, n, now) \<in> set reqs. he_hashable env arg" using assms(5) by auto
  obtain oks w' where run: "buckets_run env b burst (reject_cap b w) reqs ([], Map.empty) = (oks, reject_abs b w')"
      "reject_run env b burst reqs w = Some (answers env b burst reqs oks, w')"
    using reject_run_refines [OF new(1,4) nz hash, of burst] new(3) by auto
  have fits: "fits (fst ` set reqs) (reject_cap b w) ([], Map.empty)"
    using assms(6) new(2) by (simp add: fits_def)
  have inv: "bucket_inv (sint (hot_tokenCount env b a)) (sint (hot_tokenCount env b a + burst)) (sint (hb_durationInSec b * 1000))
      t0 t1 0 (snd ([], Map.empty :: go_value \<Rightarrow> bucket option) a)"
    by (simp add: bucket_inv_def)
  have reqs: "\<forall>(arg, n, now) \<in> set reqs. arg \<in> fst ` set reqs"
    "\<forall>(arg, n, now) \<in> set reqs. 0 \<le> sint n \<and> t0 \<le> sint now \<and> sint now \<le> t1"
    using assms(5) by force+
  have final: "bucket_inv T (T + sint burst) D t0 t1 (0 + admitted a reqs (answers env b burst reqs oks)) (snd (reject_abs b w') a)"
    using buckets_run_inv [OF fits reqs(1) inv refl refl _ _ _ assms(11) _ reqs(2) run(1)] assms(7,8,10,13) W Wpos T by simp
  have "D * admitted a reqs (answers env b burst reqs oks) \<le> D * (T + sint burst) + (t1 - t0) * T"
  proof (cases "snd (reject_abs b w') a")
    case None
    then show ?thesis using final Wpos assms(8,9,12) by (simp add: bucket_inv_def)
  next
    case (Some lk)
    obtain l k where lk: "lk = (l, k)" by fastforce
    have i: "0 \<le> sint k" "sint l \<le> t1" "D * (admitted a reqs (answers env b burst reqs oks) + sint k) \<le> D * (T + sint burst) + (sint l - t0) * T"
      using final by (simp_all add: bucket_inv_def Some lk)
    have "D * admitted a reqs (answers env b burst reqs oks) \<le> D * (admitted a reqs (answers env b burst reqs oks) + sint k)"
      using i(1) Wpos by (simp add: mult_left_mono)
    moreover have "(sint l - t0) * T \<le> (t1 - t0) * T" using i(2) assms(8) by (simp add: mult_right_mono)
    ultimately show ?thesis using i(3) by linarith
  qed
  then show ?thesis using run(2) by blast
qed

section \<open>Witnesses\<close>

text \<open>Two calls a second and a burst of one for each user.\<close>

definition demo_hot_rule :: hot_rule where
  "demo_hot_rule = \<lparr>hr_ID = ''1'', hr_App = [], hr_RuleName = [], hr_LimitApp = [], hr_Resource = ''api'',
     hr_MetricType = HotQPS, hr_ControlBehavior = HotReject, hr_ParamSource = 1, hr_ParamIdx = 0, hr_ParamKey = [],
     hr_ParamKind = [], hr_Threshold = Fin 2, hr_MaxQueueingTimeMs = 0, hr_BurstCount = 1, hr_DurationInSec = 1,
     hr_ParamsMaxCapacity = 10, hr_SpecificItems = None, hr_ClusterMode = False, hr_ClusterConfig = None\<rparr>"

definition demo_hot_env :: hot_env where
  "demo_hot_env = \<lparr>he_oor = \<lambda>_. 0, he_fmt = \<lambda>_. [], he_hashable = \<lambda>_. True\<rparr>"

definition demo_requests :: "hot_request list" where
  "demo_requests = [(VString ''u'', 1, 1000), (VString ''u'', 1, 1000), (VString ''v'', 1, 1200), (VString ''u'', 1, 1300),
     (VString ''u'', 1, 1900), (VString ''u'', 1, 2500)]"

lemma demo_controller:
  "\<exists>b r' w. newBaseTrafficShapingController demo_hot_rule \<lparr>hw_metrics = [], hw_cells = []\<rparr> = (Some (b, r'), w) \<and>
    hb_threshold b = Fin 2 \<and> hb_specificItems b = [] \<and> hb_durationInSec b = 1"
  by (simp add: newBaseTrafficShapingController_def newBaseTrafficShapingControllerWithMetric_def demo_hot_rule_def Let_def)

lemma demo_tokenCount:
  "hb_threshold b = Fin 2 \<Longrightarrow> hb_specificItems b = [] \<Longrightarrow> hot_tokenCount demo_hot_env b a = 2"
  by (simp add: hot_tokenCount_def ftrunc_def)

lemma demo_size: "nat (sint (qps_size demo_hot_rule)) = 10"
  by (simp add: demo_hot_rule_def qps_size_def Let_def word_sless_alt word_sle_eq)

lemma demo_checks:
  "bucket_check 2 3 1000 1 1000 None = (True, 1000, 2)" "bucket_check 2 3 1000 1 1000 (Some (1000, 2)) = (True, 1000, 1)"
  "bucket_check 2 3 1000 1 1200 None = (True, 1200, 2)" "bucket_check 2 3 1000 1 1300 (Some (1000, 1)) = (True, 1000, 0)"
  "bucket_check 2 3 1000 1 1900 (Some (1000, 0)) = (False, 1000, 0)"
  "bucket_check 2 3 1000 1 2500 (Some (1000, 0)) = (True, 2500, 2)"
  by code_simp+

lemma demo_limits: "\<not> (2 :: i64) \<le>s 0" "\<not> (3 :: i64) <s 1"
  by (simp_all add: word_sless_alt word_sle_eq)

theorem hot_reject_refines_buckets_witness:
  "\<exists>b r' w w'. newBaseTrafficShapingController demo_hot_rule \<lparr>hw_metrics = [], hw_cells = []\<rparr> = (Some (b, r'), w) \<and>
    reject_run demo_hot_env b 1 demo_requests w =
      Some (answers demo_hot_env b 1 demo_requests [True, True, True, True, False, True], w') \<and>
    reject_abs b w' = ([VString ''u'', VString ''v''], [VString ''u'' \<mapsto> (2500, 2), VString ''v'' \<mapsto> (1200, 2)])"
proof -
  obtain b r' w where new: "newBaseTrafficShapingController demo_hot_rule \<lparr>hw_metrics = [], hw_cells = []\<rparr> = (Some (b, r'), w)"
      and b: "hb_threshold b = Fin 2" "hb_specificItems b = []" "hb_durationInSec b = 1"
    using demo_controller by blast
  have "\<exists>oks w'. buckets_run demo_hot_env b 1 (nat (sint (qps_size demo_hot_rule))) demo_requests ([], Map.empty) = (oks, reject_abs b w') \<and>
      reject_run demo_hot_env b 1 demo_requests w = Some (answers demo_hot_env b 1 demo_requests oks, w') \<and> reject_wf b w' \<and>
      length oks = length demo_requests"
    by (rule hot_reject_refines_buckets [OF new]) (simp_all add: demo_hot_rule_def demo_hot_env_def demo_requests_def)
  moreover have "buckets_run demo_hot_env b 1 (nat (sint (qps_size demo_hot_rule))) demo_requests ([], Map.empty) =
      ([True, True, True, True, False, True],
       [VString ''u'', VString ''v''], [VString ''u'' \<mapsto> (2500, 2), VString ''v'' \<mapsto> (1200, 2)])"
    by (simp add: demo_requests_def buckets_check_def demo_checks demo_limits demo_tokenCount [OF b(1,2)] b(3) next_keys_def
        demo_size fun_upd_twist)
  ultimately show ?thesis using new by fastforce
qed

theorem hot_reject_rate_bound_witness:
  "\<exists>b r' w rs w'. newBaseTrafficShapingController demo_hot_rule \<lparr>hw_metrics = [], hw_cells = []\<rparr> = (Some (b, r'), w) \<and>
    reject_run demo_hot_env b 1 demo_requests w = Some (rs, w') \<and>
    1000 * admitted (VString ''u'') demo_requests rs \<le> 1000 * (2 + 1) + (2500 - 1000) * 2"
proof -
  obtain b r' w where new: "newBaseTrafficShapingController demo_hot_rule \<lparr>hw_metrics = [], hw_cells = []\<rparr> = (Some (b, r'), w)"
      and b: "hb_threshold b = Fin 2" "hb_specificItems b = []" "hb_durationInSec b = 1"
    using demo_controller by blast
  have "\<exists>rs w'. reject_run demo_hot_env b 1 demo_requests w = Some (rs, w') \<and>
      1000 * admitted (VString ''u'') demo_requests rs \<le> 1000 * (2 + sint (1 :: i64)) + (2500 - 1000) * 2"
    by (rule hot_reject_rate_bound [OF new])
      (simp_all add: demo_size demo_tokenCount [OF b(1,2)] card_insert_if demo_requests_def,
        simp_all add: demo_hot_rule_def demo_hot_env_def)
  with new show ?thesis by auto
qed

end
