(* ===== verification/HotspotLoop.thy ===== *)
theory HotspotLoop
  imports HotspotRate
begin

text \<open>
  When the reject controller of hot parameters does not return. Its loop goes around as long as the time
  counter knows an argument that the token counter does not, and the window has not passed. A request
  that runs alone never meets such a state; two that overlap can leave it behind.
\<close>

lemma time_hit:
  assumes "qps_metric b w tc kc" and "cells_ok tc (hw_cells w)" and "map_of (entries tc) arg = Some p"
  obtains tc' w' where "time_add (hb_metric b) tc arg now w = (Some p, w')" and "qps_metric b w' tc' kc"
    and "hw_cells w' = hw_cells w @ [now]" and "cells_ok tc' (hw_cells w')" and "map_of (entries tc') arg = Some p"
    and "hw_load p w' = hw_cells w ! p" and "p < length (hw_cells w)"
proof -
  obtain tc' w' where 1: "time_add (hb_metric b) tc arg now w = (Some p, w')"
      "lru_AddIfAbsent arg (length (hw_cells w)) tc = (Some p, tc')" "qps_metric b w' tc' kc" "hw_cells w' = hw_cells w @ [now]"
    using time_add_spec [OF assms(1,2), of arg now] assms(3) by metis
  have p: "p < length (hw_cells w)" using cells_ok_range [OF assms(2,3)] .
  show thesis
    using cells_add(2,5) [OF assms(2) 1(2) 1(4)] 1 p
    by (intro that [of w' tc']) (simp_all add: hw_load_def nth_append)
qed

text \<open>A round that goes around: the argument has a time, no tokens, and the window has not passed.\<close>

lemma round_around:
  assumes q: "qps_metric b w tc kc" and ok: "cells_ok tc (hw_cells w)" "cells_ok kc (hw_cells w)"
  shows "(\<exists>w'. reject_round env b arg n T mx now tc kc w = Inr w') \<longleftrightarrow>
    (\<exists>p. map_of (entries tc) arg = Some p \<and> map_of (entries kc) arg = None \<and>
       \<not> hb_durationInSec b * 1000 <s now - hw_cells w ! p)"
proof (cases "map_of (entries tc) arg")
  case None
  obtain tc' w' where "time_add (hb_metric b) tc arg now w = (None, w')"
    using time_add_spec [OF q ok(1), of arg now] None by metis
  then show ?thesis using None by (simp add: reject_round_def split_beta)
next
  case (Some p)
  from time_hit [OF q ok(1) Some, of now] obtain tc' w1 where t: "time_add (hb_metric b) tc arg now w = (Some p, w1)"
      "qps_metric b w1 tc' kc" "hw_cells w1 = hw_cells w @ [now]" "hw_load p w1 = hw_cells w ! p" by metis
  have ok1: "cells_ok kc (hw_cells w1)" using ok(2) by (rule cells_ok_grow) (simp add: t(3))
  obtain w2 where g: "token_get (hb_metric b) kc arg w1 = (map_of (entries kc) arg, w2)"
    using token_get_spec [OF t(2) ok1, of arg] by metis
  show ?thesis
    using Some by (auto simp: reject_round_def t(1,4) g Let_def split: option.splits prod.splits if_splits)
qed

lemma round_around_state:
  assumes q: "qps_metric b w tc kc" and ok: "cells_ok tc (hw_cells w)" "cells_ok kc (hw_cells w)"
    and stuck: "map_of (entries tc) arg = Some p" "map_of (entries kc) arg = None"
    and r: "reject_round env b arg n T mx now tc kc w = Inr w'"
  obtains tc' kc' where "qps_metric b w' tc' kc'" and "cells_ok tc' (hw_cells w')" and "cells_ok kc' (hw_cells w')"
    and "map_of (entries tc') arg = Some p" and "map_of (entries kc') arg = None" and "hw_cells w' ! p = hw_cells w ! p"
proof -
  from time_hit [OF q ok(1) stuck(1), of now] obtain tc' w1 where t: "time_add (hb_metric b) tc arg now w = (Some p, w1)"
      "qps_metric b w1 tc' kc" "hw_cells w1 = hw_cells w @ [now]" "hw_load p w1 = hw_cells w ! p"
      "cells_ok tc' (hw_cells w1)" "map_of (entries tc') arg = Some p" "p < length (hw_cells w)" by metis
  have ok1: "cells_ok kc (hw_cells w1)" using ok(2) by (rule cells_ok_grow) (simp add: t(3))
  obtain kc' w2 where g: "token_get (hb_metric b) kc arg w1 = (None, w2)" "lru_Get arg kc = (None, kc')"
      "qps_metric b w2 tc' kc'" "hw_cells w2 = hw_cells w1"
    using token_get_spec [OF t(2) ok1, of arg] stuck(2) by metis
  have "\<not> hb_durationInSec b * 1000 <s now - hw_cells w ! p"
    using round_around [OF q ok, of env arg n T mx now] r stuck(1) by auto
  then have "w' = w2"
    using r by (simp add: reject_round_def t(1,4) g(1) Let_def)
  then show thesis
    using that [of tc' kc'] g(3,4) t(3,5,6,7) cells_get(2,4) [OF ok1 g(2)] stuck(2) by (simp add: nth_append)
qed

lemma loop_unfold:
  assumes "qps_metric b w tc kc"
  shows "reject_loop env clk b arg n T mx i w =
    (case reject_round env b arg n T mx (clk i) tc kc w of
       Inl r \<Rightarrow> Some r | Inr w' \<Rightarrow> reject_loop env clk b arg n T mx (Suc i) w')"
  using assms by (subst reject_loop.simps) (simp add: qps_metric_def)

lemma loop_returns:
  assumes "hb_durationInSec b * 1000 <s clk (i + k) - l"
    and "qps_metric b w tc kc" and "cells_ok tc (hw_cells w)" and "cells_ok kc (hw_cells w)"
    and "map_of (entries tc) arg = Some p" and "map_of (entries kc) arg = None" and "hw_cells w ! p = l"
  shows "reject_loop env clk b arg n T mx i w \<noteq> None"
  using assms
proof (induction k arbitrary: i w tc kc)
  case 0
  have "\<not> (\<exists>w'. reject_round env b arg n T mx (clk i) tc kc w = Inr w')"
    using 0 unfolding round_around [OF 0(2-4)] by auto
  then show ?case unfolding loop_unfold [OF 0(2)] by (cases "reject_round env b arg n T mx (clk i) tc kc w") auto
next
  case (Suc k)
  show ?case
  proof (cases "reject_round env b arg n T mx (clk i) tc kc w")
    case (Inl r)
    then show ?thesis unfolding loop_unfold [OF Suc.prems(2)] by simp
  next
    case (Inr w')
    from round_around_state [OF Suc.prems(2-6) Inr] obtain tc' kc' where s: "qps_metric b w' tc' kc'"
        "cells_ok tc' (hw_cells w')" "cells_ok kc' (hw_cells w')" "map_of (entries tc') arg = Some p"
        "map_of (entries kc') arg = None" "hw_cells w' ! p = hw_cells w ! p" by metis
    have "hb_durationInSec b * 1000 <s clk (Suc i + k) - l" using Suc.prems(1) by simp
    from Suc.IH [OF this s(1-5)] s(6) Suc.prems(7) show ?thesis unfolding loop_unfold [OF Suc.prems(2)] Inr by simp
  qed
qed

lemma loop_spins:
  assumes "reject_loop env clk b arg n T mx i w = Some r"
  shows "qps_metric b w tc kc \<Longrightarrow> cells_ok tc (hw_cells w) \<Longrightarrow> cells_ok kc (hw_cells w) \<Longrightarrow>
    map_of (entries tc) arg = Some p \<Longrightarrow> map_of (entries kc) arg = None \<Longrightarrow> hw_cells w ! p = l \<Longrightarrow>
    \<exists>j. hb_durationInSec b * 1000 <s clk j - l"
  using assms
proof (induction arbitrary: tc kc rule: reject_loop.raw_induct [rotated, consumes 1, case_names step])
  case (step rec env clk b arg n T mx i w r)
  show ?case
  proof (cases "reject_round env b arg n T mx (clk i) tc kc w")
    case (Inl r')
    then show ?thesis
      using round_around [OF step.prems(1-3), of env arg n T mx "clk i"] step.prems(4-6) by auto
  next
    case (Inr w')
    from round_around_state [OF step.prems(1-5) Inr] obtain tc' kc' where s: "qps_metric b w' tc' kc'"
        "cells_ok tc' (hw_cells w')" "cells_ok kc' (hw_cells w')" "map_of (entries tc') arg = Some p"
        "map_of (entries kc') arg = None" "hw_cells w' ! p = hw_cells w ! p" by metis
    have "rec env clk b arg n T mx (Suc i) w' = Some r"
      using step.hyps(1) step.prems(1) by (simp add: qps_metric_def Inr)
    from step.IH [OF this s(1-5)] s(6) step.prems(6) show ?thesis by simp
  qed
qed

text \<open>
  C24: A check of the reject controller returns if and only if it is not caught between the caches: it spins
  for ever exactly when the argument has a time stamp but no token count and the clock never gets past
  the window after that stamp. In particular it returns once the window has passed, whatever state
  the caches were left in.
\<close>

theorem hot_reject_returns_iff:
  assumes "qps_metric b w tc kc" and "cells_ok tc (hw_cells w)" and "cells_ok kc (hw_cells w)"
    and "hb_metricType b = HotQPS" and "he_hashable env arg"
    and "\<not> hot_tokenCount env b arg \<le>s 0" and "\<not> hot_tokenCount env b arg + burst <s n"
  shows "reject_PerformChecking env clk b burst arg n w = None \<longleftrightarrow>
    (\<exists>p. map_of (entries tc) arg = Some p \<and> map_of (entries kc) arg = None \<and>
       (\<forall>i. \<not> hb_durationInSec b * 1000 <s clk i - hw_cells w ! p))"
proof -
  have ty: "HotQPS \<noteq> HotConcurrency" "\<not> HotQPS <s HotQPS" by (simp_all add: HotQPS_def HotConcurrency_def)
  let ?run = "reject_loop env clk b arg n (hot_tokenCount env b arg) (hot_tokenCount env b arg + burst) 0 w"
  have run: "reject_PerformChecking env clk b burst arg n w = ?run"
    using assms(1,4-7) by (simp add: reject_PerformChecking_def ty qps_metric_def Let_def)
  show ?thesis
  proof (cases "\<exists>p. map_of (entries tc) arg = Some p \<and> map_of (entries kc) arg = None")
    case True
    then obtain p where p: "map_of (entries tc) arg = Some p" "map_of (entries kc) arg = None" by blast
    have "?run = None" if "\<forall>i. \<not> hb_durationInSec b * 1000 <s clk i - hw_cells w ! p"
    proof (cases ?run)
      case (Some r)
      from loop_spins [OF Some assms(1-3) p refl] that show ?thesis by blast
    qed
    moreover have "?run \<noteq> None" if "hb_durationInSec b * 1000 <s clk i - hw_cells w ! p" for i
      using loop_returns [OF _ assms(1-3) p refl, of clk 0 i] that by simp
    ultimately show ?thesis using p by (auto simp: run)
  next
    case False
    then have "\<not> (\<exists>w'. reject_round env b arg n T mx (clk 0) tc kc w = Inr w')" for T mx
      unfolding round_around [OF assms(1-3)] by blast
    then have "?run \<noteq> None"
      unfolding loop_unfold [OF assms(1)] by (simp split: sum.splits)
    with False show ?thesis by (auto simp: run)
  qed
qed

text \<open>
  Two first requests overlap on caches that hold one argument: each takes its time stamp, then the second
  and after it the first takes its tokens. The time counter is left with \<open>v\<close>, the token counter with \<open>u\<close>,
  and the next request for \<open>v\<close> spins within the window.
\<close>

definition overlapping :: "hot_base \<Rightarrow> go_value \<Rightarrow> go_value \<Rightarrow> i64 \<Rightarrow> hot_world \<Rightarrow> hot_world" where
  "overlapping b u v now w =
     (let time = (\<lambda>w. the (hm_RuleTimeCounter (hw_metrics w ! hb_metric b)));
          tokens = (\<lambda>w. the (hm_RuleTokenCounter (hw_metrics w ! hb_metric b)));
          w = snd (time_add (hb_metric b) (time w) u now w);
          w = snd (time_add (hb_metric b) (time w) v now w);
          w = snd (token_add (hb_metric b) (tokens w) v 2 w)
      in snd (token_add (hb_metric b) (tokens w) u 2 w))"

definition demo_small_rule :: hot_rule where
  "demo_small_rule = demo_hot_rule\<lparr>hr_ParamsMaxCapacity := 1\<rparr>"

lemma demo_small:
  "\<exists>b r' w. newBaseTrafficShapingController demo_small_rule \<lparr>hw_metrics = [], hw_cells = []\<rparr> = (Some (b, r'), w) \<and>
    hb_threshold b = Fin 2 \<and> hb_specificItems b = [] \<and> hb_durationInSec b = 1 \<and> hb_metric b = 0 \<and> hb_metricType b = HotQPS \<and>
    hw_metrics w = [\<lparr>hm_RuleTimeCounter = NewLRUCacheMap 1, hm_RuleTokenCounter = NewLRUCacheMap 1, hm_ConcurrentCounter = None\<rparr>] \<and>
    hw_cells w = []"
  by (simp add: newBaseTrafficShapingController_def newBaseTrafficShapingControllerWithMetric_def demo_small_rule_def
      demo_hot_rule_def Let_def qps_size_def word_sless_alt word_sle_eq)

theorem hot_reject_returns_iff_witness:
  "\<exists>b r' w. newBaseTrafficShapingController demo_small_rule \<lparr>hw_metrics = [], hw_cells = []\<rparr> = (Some (b, r'), w) \<and>
    reject_PerformChecking demo_hot_env (\<lambda>_. 1500) b 1 (VString ''v'') 1
      (overlapping b (VString ''u'') (VString ''v'') 1000 w) = None"
proof -
  let ?c = "\<lparr>lru_size = 1, lru_evictList = [(1, VString ''v'', 1)], lru_items = [(VString ''v'', 1)], lru_onEvict = False,
    lru_evicted = [], lru_fresh = 2\<rparr> :: (go_value, nat) lru"
  let ?d = "\<lparr>lru_size = 1, lru_evictList = [(1, VString ''u'', 3)], lru_items = [(VString ''u'', 1)], lru_onEvict = False,
    lru_evicted = [], lru_fresh = 2\<rparr> :: (go_value, nat) lru"
  obtain b r' w where new: "newBaseTrafficShapingController demo_small_rule \<lparr>hw_metrics = [], hw_cells = []\<rparr> = (Some (b, r'), w)"
      and b: "hb_threshold b = Fin 2" "hb_specificItems b = []" "hb_durationInSec b = 1" "hb_metric b = 0" "hb_metricType b = HotQPS"
      and w: "hw_metrics w = [\<lparr>hm_RuleTimeCounter = NewLRUCacheMap 1, hm_RuleTokenCounter = NewLRUCacheMap 1, hm_ConcurrentCounter = None\<rparr>]"
        "hw_cells w = []"
    using demo_small by blast
  let ?w = "overlapping b (VString ''u'') (VString ''v'') 1000 w"
  have steps: "hw_metrics ?w = [\<lparr>hm_RuleTimeCounter = Some ?c, hm_RuleTokenCounter = Some ?d, hm_ConcurrentCounter = None\<rparr>]"
    "hw_cells ?w = [1000, 1000, 2, 2]"
    by (simp_all add: overlapping_def time_add_def token_add_def hw_new_def hw_metric_def w b NewLRUCacheMap_def NewLRU_def
        lru_AddIfAbsent_def add_new_def PushFront_def mput_def mdel_def removeOldest_def list_Back_def removeElement_def element_def
        lru_Len_def Let_def)
  have q: "qps_metric b ?w ?c ?d" by (simp add: qps_metric_def steps b)
  have ok: "cells_ok ?c (hw_cells ?w)" "cells_ok ?d (hw_cells ?w)"
    by (auto simp: steps cells_ok_def cache_ok_def lru_ok_def lru_inv_def entries_def mwf_def split: if_splits)
  have "reject_PerformChecking demo_hot_env (\<lambda>_. 1500) b 1 (VString ''v'') 1 ?w = None \<longleftrightarrow>
    (\<exists>p. map_of (entries ?c) (VString ''v'') = Some p \<and> map_of (entries ?d) (VString ''v'') = None \<and>
       (\<forall>i :: nat. \<not> hb_durationInSec b * 1000 <s 1500 - hw_cells ?w ! p))"
    by (rule hot_reject_returns_iff [OF q ok b(5)])
      (simp_all add: demo_tokenCount [OF b(1,2)] demo_limits, simp add: demo_hot_env_def)
  then have "reject_PerformChecking demo_hot_env (\<lambda>_. 1500) b 1 (VString ''v'') 1 ?w = None"
    by (simp add: entries_def steps b(3) word_sless_alt)
  with new show ?thesis by blast
qed

end
