(* ===== verification/HotspotThrottle.thy ===== *)
theory HotspotThrottle
  imports HotspotRate
begin

text \<open>
  What the throttling controller of hot parameters guarantees: the calls it lets go for one argument are
  spaced by the time the rule's rate gives each, and none waits longer than the rule allows.
\<close>

section \<open>Runs\<close>

fun pacing_run ::
  "hot_env \<Rightarrow> hot_base \<Rightarrow> i64 \<Rightarrow> hot_request list \<Rightarrow> hot_world \<Rightarrow> hot_result go list \<times> hot_world" where
  "pacing_run env b maxQueueing [] w = ([], w)"
| "pacing_run env b maxQueueing ((arg, n, now) # reqs) w =
     (let (r, w) = throttling_PerformChecking env now b maxQueueing arg n w; (rs, w) = pacing_run env b maxQueueing reqs w
      in (r # rs, w))"

text \<open>When a result lets its request go, in milliseconds.\<close>

definition goes_at :: "int \<Rightarrow> hot_result go \<Rightarrow> int option" where
  "goes_at now r =
     (case r of
        Ret None \<Rightarrow> Some now
      | Ret (Some tr) \<Rightarrow> if tr_IsBlocked tr then None else Some (now + sint (tr_nanosToWait tr) div 1000000)
      | _ \<Rightarrow> None)"

text \<open>The calls of an argument that went: the interval \<open>d\<close> each has to keep, when it came and when it went.\<close>

fun departures :: "(i64 \<Rightarrow> int) \<Rightarrow> go_value \<Rightarrow> hot_request list \<Rightarrow> hot_result go list \<Rightarrow> (int \<times> int \<times> int) list" where
  "departures d a ((arg, n, now) # reqs) (r # rs) =
     (case goes_at (sint now) r of
        Some s \<Rightarrow> if arg = a then (d n, sint now, s) # departures d a reqs rs else departures d a reqs rs
      | None \<Rightarrow> departures d a reqs rs)"
| "departures d a _ _ = []"

section \<open>One check\<close>

definition pace :: "i64 \<Rightarrow> i64 \<Rightarrow> i64 \<Rightarrow> i64 option \<Rightarrow> i64 option \<times> i64" where
  "pace maxQueueing now interval prev =
     (case prev of
        None \<Rightarrow> (Some 0, now)
      | Some l \<Rightarrow>
          let e = l + interval
          in if e \<le>s now \<or> e - now <s maxQueueing
             then (if 0 <s e - now then (Some (e - now), e) else (Some 0, now)) else (None, l))"

definition time_used ::
  "hot_base \<Rightarrow> (go_value, nat) lru \<Rightarrow> (go_value, nat) lru \<Rightarrow> i64 list \<Rightarrow> go_value \<Rightarrow> i64 \<Rightarrow> hot_world \<Rightarrow> bool" where
  "time_used b tc kc cells arg x w' \<longleftrightarrow>
     (\<exists>tc'. qps_metric b w' tc' kc \<and> cells_ok tc' (hw_cells w') \<and> cache_cap tc' = cache_cap tc \<and>
        map fst (entries tc') = next_keys arg (cache_cap tc) (map fst (entries tc)) \<and>
        counters tc' (hw_cells w') = (counters tc cells)(arg \<mapsto> x) |` set (map fst (entries tc')))"

lemma time_usedI:
  "qps_metric b w' tc' kc \<Longrightarrow> cells_ok tc' (hw_cells w') \<Longrightarrow> cache_cap tc' = cache_cap tc \<Longrightarrow>
    map fst (entries tc') = next_keys arg (cache_cap tc) (map fst (entries tc)) \<Longrightarrow>
    counters tc' (hw_cells w') = (counters tc cells)(arg \<mapsto> x) |` set (map fst (entries tc')) \<Longrightarrow>
    time_used b tc kc cells arg x w'"
  unfolding time_used_def by blast

lemma throttling_step:
  fixes maxQueueing now n :: i64
  assumes q: "qps_metric b w tc kc" and ok: "cells_ok tc (hw_cells w)" and qps: "hb_metricType b = HotQPS"
    and hash: "he_hashable env arg" and pos: "\<not> hot_tokenCount env b arg \<le>s 0"
  defines "p \<equiv> pace maxQueueing now (interval_cost (he_oor env) n (hb_durationInSec b) (hot_tokenCount env b arg))
    (counters tc (hw_cells w) arg)"
  shows "\<exists>r w'. throttling_PerformChecking env now b maxQueueing arg n w = (Ret r, w') \<and>
    time_used b tc kc (hw_cells w) arg (snd p) w' \<and>
    r = (case fst p of
           None \<Rightarrow> hot_blocked env ''hotspot throttling check blocked,wait time exceedes max queueing time'' arg b None
         | Some t \<Rightarrow> if 0 <s t then Some (NewTokenResultShouldWait (t * 1000000)) else None)"
proof -
  have ty: "HotQPS \<noteq> HotConcurrency" "\<not> HotQPS <s HotQPS" by (simp_all add: HotQPS_def HotConcurrency_def)
  obtain tc' w1 where 1: "time_add (hb_metric b) tc arg now w = (map_of (entries tc) arg, w1)"
      "lru_AddIfAbsent arg (length (hw_cells w)) tc = (map_of (entries tc) arg, tc')"
      "qps_metric b w1 tc' kc" "hw_cells w1 = hw_cells w @ [now]"
    using time_add_spec [OF q ok] by metis
  note c = cells_add [OF ok 1(2) 1(4)]
  have m: "hm_RuleTimeCounter (hw_metrics w ! hb_metric b) = Some tc" "hm_RuleTokenCounter (hw_metrics w ! hb_metric b) = Some kc"
    using q by (simp_all add: qps_metric_def)
  note run = throttling_PerformChecking_def [of env now b maxQueueing arg n w]
  show ?thesis
  proof (cases "map_of (entries tc) arg")
    case None
    then have none: "counters tc (hw_cells w) arg = None" by (simp add: counters_def)
    have "throttling_PerformChecking env now b maxQueueing arg n w = (Ret None, w1)"
      unfolding run using None 1(1) by (simp add: qps ty m hash pos Let_def)
    moreover have "time_used b tc kc (hw_cells w) arg now w1"
      using 1(3) c(2,3,4,6) none by (intro time_usedI [of b w1 tc']) simp_all
    ultimately show ?thesis by (simp add: p_def pace_def none word_sless_alt)
  next
    case (Some ptr)
    have ptr: "map_of (entries tc') arg = Some ptr" "ptr < length (hw_cells w)"
      using c(5) Some cells_ok_range [OF ok Some] by simp_all
    define l where "l = hw_cells w ! ptr"
    have l: "counters tc (hw_cells w) arg = Some l" "hw_load ptr w1 = l"
      using Some ptr(2) by (simp_all add: counters_def l_def hw_load_def 1(4) nth_append)
    have mem: "arg \<in> set (map fst (entries tc'))" using ptr(1) by (metis lru_cache.keys_lookup option.distinct(1))
    have upd: "(f(arg \<mapsto> x) |` A)(arg \<mapsto> y) = f(arg \<mapsto> y) |` A" if "arg \<in> A" for f :: "go_value \<Rightarrow> i64 option" and x y A
      using that by (auto simp: restrict_map_def)
    have same: "counters tc' (hw_cells w1) = (counters tc (hw_cells w))(arg \<mapsto> l) |` set (map fst (entries tc'))"
      using c(6) l(1) by simp
    have st: "counters tc' ((hw_cells w1)[ptr := v]) = (counters tc (hw_cells w))(arg \<mapsto> v) |` set (map fst (entries tc'))" for v
      using counters_store [OF c(2) ptr(1), of v] by (simp only: same upd [OF mem])
    have fin: "time_used b tc kc (hw_cells w) arg l w1" "time_used b tc kc (hw_cells w) arg v (hw_store ptr v w1)"
      "time_used b tc kc (hw_cells w) arg v (hw_store ptr v (hw_store ptr v' w1))" for v v'
      using 1(3) c(2,3,4) same st by (intro time_usedI [of b _ tc']; simp del: restrict_fun_upd)+
    let ?e = "l + interval_cost (he_oor env) n (hb_durationInSec b) (hot_tokenCount env b arg)"
    have res: "throttling_PerformChecking env now b maxQueueing arg n w =
      (if ?e \<le>s now \<or> ?e - now <s maxQueueing then
         if 0 <s ?e - now then (Ret (Some (NewTokenResultShouldWait ((?e - now) * 1000000))), hw_store ptr ?e (hw_store ptr now w1))
         else (Ret None, hw_store ptr now w1)
       else (Ret (hot_blocked env ''hotspot throttling check blocked,wait time exceedes max queueing time'' arg b None), w1))"
      unfolding run using Some 1(1) by (simp add: qps ty m hash pos Let_def l(2))
    consider (wait) "?e \<le>s now \<or> ?e - now <s maxQueueing" "0 <s ?e - now"
      | (go) "?e \<le>s now \<or> ?e - now <s maxQueueing" "\<not> 0 <s ?e - now" | (block) "\<not> (?e \<le>s now \<or> ?e - now <s maxQueueing)"
      by blast
    then show ?thesis
    proof cases
      case wait
      then have "p = (Some (?e - now), ?e)" by (simp add: p_def pace_def l(1) Let_def)
      with wait show ?thesis unfolding res using fin by (simp add: word_sless_alt)
    next
      case go
      then have "p = (Some 0, now)" by (simp add: p_def pace_def l(1) Let_def)
      with go show ?thesis unfolding res using fin by (simp add: word_sless_alt)
    next
      case block
      then have "p = (None, l)" by (simp add: p_def pace_def l(1) Let_def)
      with block show ?thesis unfolding res using fin by (simp add: word_sless_alt)
    qed
  qed
qed

section \<open>The schedule of one argument\<close>

definition interval_of :: "i64 \<Rightarrow> i64 \<Rightarrow> i64 \<Rightarrow> int" where
  "interval_of durationInSec tokenCount n = sint n * sint durationInSec * 1000 div sint tokenCount"

lemma fround_int [simp]: "fround (Fin (of_int i)) = Fin (of_int i)"
proof -
  have "\<lfloor>(of_int i :: rat) + 1 / 2\<rfloor> = i" "\<lfloor>1 / 2 - (of_int i :: rat)\<rfloor> = - i"
    by (simp_all add: floor_eq_iff)
  then show ?thesis by simp
qed

lemma interval_cost_exact:
  assumes "0 \<le> sint n" and "0 < sint D" and "0 < sint T" and "sint n * sint D * 1000 < 2 ^ 53"
  shows "sint (interval_cost oor n D T) = interval_of D T n" and "0 \<le> interval_of D T n" and "interval_of D T n < 2 ^ 53"
proof -
  have nD0: "0 \<le> sint n * sint D" using assms by simp
  have "sint n * sint D < 2 ^ 53" using nD0 assms(4) by linarith
  then have nD: "sint (n * D) = sint n * sint D" using nD0 by (intro sint_mult_small) simp_all
  have k: "sint (1000 :: i64) = 1000" by simp
  have c: "sint (n * D * 1000) = sint n * sint D * 1000"
  proof -
    define m where "m = sint n * sint D"
    have "0 \<le> m" "m * 1000 < 2 ^ 53" "sint (n * D) = m" using nD0 assms(4) nD by (simp_all only: m_def)
    then show ?thesis using sint_mult_small [of "n * D" 1000] by (simp flip: m_def)
  qed
  have q: "sint (i64_quot (n * D * 1000) T) = interval_of D T n"
    using sint_quot_pos [of "n * D * 1000" T] nD0 assms(3) by (simp add: c interval_of_def)
  show lo: "0 \<le> interval_of D T n" using nD0 assms(3) by (simp add: interval_of_def pos_imp_zdiv_nonneg_iff)
  have "interval_of D T n \<le> sint n * sint D * 1000"
  proof (cases "sint n * sint D * 1000 = 0")
    case False
    then have "0 < sint n * sint D * 1000" using nD0 by linarith
    then have "sint n * sint D * 1000 div sint T \<le> sint n * sint D * 1000 div 1"
      using assms(3) by (intro zdiv_mono2) simp_all
    then show ?thesis by (simp add: interval_of_def)
  qed (auto simp: interval_of_def)
  then show hi: "interval_of D T n < 2 ^ 53" using assms(4) by linarith
  have f: "f64_of_int (interval_of D T n) = Fin (of_int (interval_of D T n))"
    using lo hi by (intro f64_of_small_int) simp
  have "interval_cost oor n D T = word_of_int (interval_of D T n)"
    using lo hi by (simp add: interval_cost_def q f ftrunc_def del: f64_of_small_int fround.simps)
  then show "sint (interval_cost oor n D T) = interval_of D T n"
    using lo hi by (simp add: sint_sbintrunc' signed_take_bit_int_eq_self)
qed

lemma pace_spec:
  assumes "0 \<le> sint now" and "sint now < 2 ^ 61" and "0 \<le> sint M" and "sint M < 2 ^ 40"
    and "0 \<le> sint iv" and "sint iv < 2 ^ 53" and "\<forall>l. prev = Some l \<longrightarrow> 0 \<le> sint l \<and> sint l < 2 ^ 62"
    and p: "pace M now iv prev = (wait, l')"
  shows "0 \<le> sint l' \<and> sint l' < 2 ^ 62 \<and>
    (case wait of
       None \<Rightarrow> prev = Some l'
     | Some t \<Rightarrow> 0 \<le> sint t \<and> sint t < 2 ^ 40 \<and> (sint t = 0 \<or> sint t < sint M) \<and> sint l' = sint now + sint t \<and>
         (\<forall>l. prev = Some l \<longrightarrow> sint l + sint iv \<le> sint l'))"
proof (cases prev)
  case None
  then show ?thesis using assms by (auto simp: pace_def)
next
  case (Some l)
  have l: "0 \<le> sint l" "sint l < 2 ^ 62" using assms(7) Some by auto
  have e: "sint (l + iv) = sint l + sint iv" using l assms(5,6) by (intro sint_add_small) simp_all
  have e0: "0 \<le> sint (l + iv)" using e l assms(5) by simp
  have d: "sint (l + iv - now) = sint l + sint iv - sint now" using sint_diff_nonneg [OF e0 assms(1)] e by simp
  show ?thesis
    using p assms(1-6) l e d unfolding Some
    by (auto simp: pace_def Let_def word_sle_eq word_sless_alt split: if_splits)
qed

lemma goes_at_wait:
  assumes "0 \<le> sint t" and "sint t < 2 ^ 40"
  shows "goes_at now (Ret (if 0 <s t then Some (NewTokenResultShouldWait (t * 1000000)) else None)) = Some (now + sint t)"
proof -
  have "sint (t * 1000000) = sint t * 1000000"
    using sint_mult_small [of t 1000000] assms by simp
  then show ?thesis
    using assms by (auto simp: goes_at_def result_simps NewTokenResultShouldWait_def NewTokenResult_def word_sless_alt tr_IsBlocked_def
        result_status_defs)
qed

text \<open>Each call keeps its interval to the one before it.\<close>

definition spaced :: "(int \<times> int \<times> int) list \<Rightarrow> bool" where
  "spaced ds \<longleftrightarrow> successively (\<lambda>(d, t, s) (d', t', s'). s + d' \<le> s') ds"

lemma hot_blocked_goes [simp]: "goes_at now (Ret (hot_blocked env msg arg b v)) = None"
  by (simp add: goes_at_def hot_blocked_def result_simps)

lemma time_used_fits:
  assumes "time_used b tc kc cells arg x w'" and "cells_ok tc cells" and "finite A" and "card A \<le> cache_cap tc"
    and "set (map fst (entries tc)) \<subseteq> A" and "arg \<in> A"
  obtains tc' where "qps_metric b w' tc' kc" and "cells_ok tc' (hw_cells w')" and "card A \<le> cache_cap tc'"
    and "set (map fst (entries tc')) \<subseteq> A" and "counters tc' (hw_cells w') = (counters tc cells)(arg \<mapsto> x)"
proof -
  from assms(1) obtain tc' where u: "qps_metric b w' tc' kc" "cells_ok tc' (hw_cells w')" "cache_cap tc' = cache_cap tc"
      "map fst (entries tc') = next_keys arg (cache_cap tc) (map fst (entries tc))"
      "counters tc' (hw_cells w') = (counters tc cells)(arg \<mapsto> x) |` set (map fst (entries tc'))"
    unfolding time_used_def by blast
  have "cache_ok tc" using assms(2) by (simp add: cells_ok_def)
  then have "distinct (map fst (entries tc))" by (rule lru_cache.ok_distinct)
  then have keys: "set (map fst (entries tc')) = insert arg (set (map fst (entries tc)))"
    unfolding u(4) using next_keys_fits [OF assms(3,4) _ assms(5,6)] by blast
  have "(counters tc cells)(arg \<mapsto> x) |` insert arg (set (map fst (entries tc))) = (counters tc cells)(arg \<mapsto> x)"
  proof (rule ext)
    fix k
    have "counters tc cells k = None" if "k \<notin> set (map fst (entries tc))"
      using that by (simp add: counters_def map_of_eq_None_iff)
    then show "((counters tc cells)(arg \<mapsto> x) |` insert arg (set (map fst (entries tc)))) k = ((counters tc cells)(arg \<mapsto> x)) k"
      by (simp add: restrict_map_def)
  qed
  then have "counters tc' (hw_cells w') = (counters tc cells)(arg \<mapsto> x)" unfolding u(5) keys .
  moreover have "set (map fst (entries tc')) \<subseteq> A" unfolding keys using assms(5,6) by simp
  ultimately show thesis using u(1,2,3) assms(4) by (intro that [of tc']) simp_all
qed

text \<open>The hypotheses on a request for \<open>a\<close>: a non-negative count, a time and an interval that fit a word.\<close>

definition pacing_request :: "hot_base \<Rightarrow> go_value \<Rightarrow> hot_request \<Rightarrow> bool" where
  "pacing_request b a req \<longleftrightarrow>
     (case req of (arg, n, now) \<Rightarrow> arg = a \<longrightarrow>
        0 \<le> sint n \<and> sint n * sint (hb_durationInSec b) * 1000 < 2 ^ 53 \<and> 0 \<le> sint now \<and> sint now < 2 ^ 61)"

lemma pacing_run_spaced:
  assumes "qps_metric b w tc kc" and "cells_ok tc (hw_cells w)" and "finite A" and "card A \<le> cache_cap tc"
    and "set (map fst (entries tc)) \<subseteq> A" and qps: "hb_metricType b = HotQPS"
    and "\<forall>(arg, n, now) \<in> set reqs. arg \<in> A \<and> he_hashable env arg" and "\<forall>req \<in> set reqs. pacing_request b a req"
    and T: "T = hot_tokenCount env b a" "0 < sint T" and D: "0 < sint (hb_durationInSec b)"
    and M: "0 \<le> sint maxQ" "sint maxQ < 2 ^ 40"
    and "\<forall>l. counters tc (hw_cells w) a = Some l \<longrightarrow> 0 \<le> sint l \<and> sint l < 2 ^ 62"
    and "pacing_run env b maxQ reqs w = (rs, w')"
  shows "(let ds = departures (interval_of (hb_durationInSec b) T) a reqs rs
     in spaced (case counters tc (hw_cells w) a of None \<Rightarrow> ds | Some l \<Rightarrow> (0, 0, sint l) # ds) \<and>
       (\<forall>(d, t, s) \<in> set ds. t \<le> s \<and> s - t < max 1 (sint maxQ)))"
  using assms(1,2,4,5,7,8,14,15)
proof (induction reqs arbitrary: w tc rs)
  case Nil
  then show ?case by (simp add: spaced_def split: option.splits)
next
  case (Cons req reqs)
  obtain arg n now where req: "req = (arg, n, now)" by (metis prod_cases3)
  obtain r1 w1 where 1: "throttling_PerformChecking env now b maxQ arg n w = (r1, w1)" by fastforce
  obtain rs1 where rs: "pacing_run env b maxQ reqs w1 = (rs1, w')" "rs = r1 # rs1"
    using Cons.prems(8) by (auto simp: req 1 split: prod.splits)
  have arg: "arg \<in> A" "he_hashable env arg" and rest: "\<forall>(arg, n, now) \<in> set reqs. arg \<in> A \<and> he_hashable env arg"
      "\<forall>req \<in> set reqs. pacing_request b a req"
    using Cons.prems(5,6) by (auto simp: req)
  show ?case
  proof (cases "hot_tokenCount env b arg \<le>s 0")
    case True
    have ty: "HotQPS \<noteq> HotConcurrency" "\<not> HotQPS <s HotQPS" by (simp_all add: HotQPS_def HotConcurrency_def)
    have "r1 = Ret (hot_blocked env ''hotspot throttling check blocked, threshold is <= 0'' arg b None)" "w1 = w"
      using 1 True arg(2) Cons.prems(1) qps ty by (auto simp: throttling_PerformChecking_def qps_metric_def Let_def)
    then show ?thesis
      using Cons.IH [OF Cons.prems(1-4) rest Cons.prems(7)] rs by (simp add: req)
  next
    case False
    define iv where "iv = interval_cost (he_oor env) n (hb_durationInSec b) (hot_tokenCount env b arg)"
    obtain wait l' where p: "pace maxQ now iv (counters tc (hw_cells w) arg) = (wait, l')" by fastforce
    from throttling_step [OF Cons.prems(1,2) qps arg(2) False, of now maxQ n, folded iv_def] 1 p
    have r1: "r1 = Ret (case wait of
           None \<Rightarrow> hot_blocked env ''hotspot throttling check blocked,wait time exceedes max queueing time'' arg b None
         | Some t \<Rightarrow> if 0 <s t then Some (NewTokenResultShouldWait (t * 1000000)) else None)"
      and used: "time_used b tc kc (hw_cells w) arg l' w1" by auto
    from time_used_fits [OF used Cons.prems(2) assms(3) Cons.prems(3,4) arg(1)] obtain tc1
      where s: "qps_metric b w1 tc1 kc" "cells_ok tc1 (hw_cells w1)" "card A \<le> cache_cap tc1" "set (map fst (entries tc1)) \<subseteq> A"
        "counters tc1 (hw_cells w1) = (counters tc (hw_cells w))(arg \<mapsto> l')" by metis
    show ?thesis
    proof (cases "arg = a")
      case False
      have "counters tc1 (hw_cells w1) a = counters tc (hw_cells w) a" using s(5) False by simp
      moreover have "departures d a (req # reqs) rs = departures d a reqs rs1" for d
        using False by (simp add: req rs(2) split: option.splits)
      ultimately show ?thesis
        using Cons.IH [OF s(1-4) rest _ rs(1)] Cons.prems(7) by simp
    next
      case True
      have pr: "0 \<le> sint n" "sint n * sint (hb_durationInSec b) * 1000 < 2 ^ 53" "0 \<le> sint now" "sint now < 2 ^ 61"
        using Cons.prems(6) True by (simp_all add: req pacing_request_def)
      note iv = interval_cost_exact [OF pr(1) D T(2) pr(2)]
      have ivs: "sint iv = interval_of (hb_durationInSec b) T n" unfolding iv_def using iv(1) [of "he_oor env"] T(1) True by simp
      have ps: "0 \<le> sint l' \<and> sint l' < 2 ^ 62 \<and>
          (case wait of
             None \<Rightarrow> counters tc (hw_cells w) arg = Some l'
           | Some t \<Rightarrow> 0 \<le> sint t \<and> sint t < 2 ^ 40 \<and> (sint t = 0 \<or> sint t < sint maxQ) \<and> sint l' = sint now + sint t \<and>
               (\<forall>l. counters tc (hw_cells w) arg = Some l \<longrightarrow> sint l + sint iv \<le> sint l'))"
        by (rule pace_spec [OF pr(3,4) M _ _ _ p]) (use iv(2,3) ivs Cons.prems(7) True in simp_all)
      have last: "counters tc1 (hw_cells w1) a = Some l'" using s(5) True by simp
      note IH = Cons.IH [OF s(1-4) rest _ rs(1), unfolded last]
      show ?thesis
      proof (cases wait)
        case None
        then show ?thesis using IH ps True r1 last by (simp add: req rs(2))
      next
        case (Some t)
        have t: "0 \<le> sint t" "sint t < 2 ^ 40" "sint t = 0 \<or> sint t < sint maxQ" "sint l' = sint now + sint t"
            "\<forall>l. counters tc (hw_cells w) a = Some l \<longrightarrow> sint l + sint iv \<le> sint l'"
          using ps Some True by auto
        have go: "goes_at (sint now) r1 = Some (sint l')"
          unfolding r1 Some using goes_at_wait [OF t(1,2)] t(4) by simp
        then show ?thesis
          using IH ps t True by (auto simp: req rs(2) Let_def ivs spaced_def successively_Cons split: option.splits)
      qed
    qed
  qed
qed

text \<open>
  C27: Called one at a time, the throttling controller of hot parameters spaces the calls of each argument
  while the arguments fit its caches. Let a new controller answer, one after the other, any sequence of
  requests with no more distinct arguments than its caches hold (so that none is ever evicted), for an
  argument \<open>a\<close> with a positive limit \<open>T\<close> per \<open>D\<close> seconds. Then each call of \<open>a\<close> that it lets go leaves at
  least its share \<open>n * D * 1000 / T\<close> of milliseconds after the one before, counting the wait it is given,
  and no call is made to wait as long as the maximum queueing time.
\<close>

theorem hot_throttling_spaces_calls:
  assumes "newBaseTrafficShapingController r w0 = (Some (b, r'), w)" and "hr_MetricType r = HotQPS"
    and "card (fst ` set reqs) \<le> nat (sint (qps_size r))" and "\<forall>req \<in> set reqs. he_hashable env (fst req) \<and> pacing_request b a req"
    and "0 < sint (hot_tokenCount env b a)" and "0 < sint (hr_DurationInSec r)" and "0 \<le> sint maxQ" and "sint maxQ < 2 ^ 40"
    and "pacing_run env b maxQ reqs w = (rs, w')"
  shows "spaced (departures (interval_of (hr_DurationInSec r) (hot_tokenCount env b a)) a reqs rs) \<and>
    (\<forall>(d, t, s) \<in> set (departures (interval_of (hr_DurationInSec r) (hot_tokenCount env b a)) a reqs rs).
       t \<le> s \<and> s - t < max 1 (sint maxQ))"
proof -
  note new = new_reject_wf [OF assms(1,2)]
  from new(1) obtain tc kc where q: "qps_metric b w tc kc" and ok: "pair_ok tc kc (hw_cells w)" by (auto simp: reject_wf_def)
  have cells: "cells_ok tc (hw_cells w)" using ok by (simp add: pair_ok_def)
  have keys: "map fst (entries tc) = []" and cap: "cache_cap tc = nat (sint (qps_size r))"
    using reject_abs_eq [OF q] new(2,3) by auto
  have none: "counters tc (hw_cells w) a = None" using keys by (simp add: counters_def)
  have args: "\<forall>(arg, n, now) \<in> set reqs. arg \<in> fst ` set reqs \<and> he_hashable env arg" using assms(4) by force
  have "\<forall>req \<in> set reqs. pacing_request b a req" using assms(4) by blast
  then show ?thesis
    using pacing_run_spaced [OF q cells _ _ _ new(4) args _ refl assms(5) _ assms(7,8) _ assms(9)] assms(3,6) keys cap none new(5)
    by (simp add: Let_def)
qed

definition demo_pacing_requests :: "hot_request list" where
  "demo_pacing_requests = [(VString ''u'', 1, 1000), (VString ''u'', 1, 1100), (VString ''v'', 1, 1200), (VString ''u'', 1, 1300),
     (VString ''u'', 1, 1400)]"

text \<open>
  Two calls a second, and up to a second in the queue: the first leaves at 1000, the next are told to
  leave at 1500 and 2000, and the last one would have to wait too long.
\<close>

theorem hot_throttling_spaces_calls_witness:
  "\<exists>b r' w rs w'. newBaseTrafficShapingController demo_hot_rule \<lparr>hw_metrics = [], hw_cells = []\<rparr> = (Some (b, r'), w) \<and>
    pacing_run demo_hot_env b 1000 demo_pacing_requests w = (rs, w') \<and>
    spaced (departures (interval_of 1 2) (VString ''u'') demo_pacing_requests rs) \<and> interval_of 1 2 1 = 500"
proof -
  obtain b r' w where new: "newBaseTrafficShapingController demo_hot_rule \<lparr>hw_metrics = [], hw_cells = []\<rparr> = (Some (b, r'), w)"
      and b: "hb_threshold b = Fin 2" "hb_specificItems b = []" "hb_durationInSec b = 1"
    using demo_controller by blast
  obtain rs w' where run: "pacing_run demo_hot_env b 1000 demo_pacing_requests w = (rs, w')" by fastforce
  have "spaced (departures (interval_of (hr_DurationInSec demo_hot_rule) (hot_tokenCount demo_hot_env b (VString ''u'')))
      (VString ''u'') demo_pacing_requests rs) \<and>
    (\<forall>(d, t, s) \<in> set (departures (interval_of (hr_DurationInSec demo_hot_rule) (hot_tokenCount demo_hot_env b (VString ''u'')))
      (VString ''u'') demo_pacing_requests rs). t \<le> s \<and> s - t < max 1 (sint (1000 :: i64)))"
    by (rule hot_throttling_spaces_calls [OF new _ _ _ _ _ _ _ run])
      (simp_all add: demo_size demo_tokenCount [OF b(1,2)] card_insert_if demo_pacing_requests_def pacing_request_def b(3),
        simp_all add: demo_hot_rule_def demo_hot_env_def)
  then show ?thesis
    using new run by (auto simp: demo_tokenCount [OF b(1,2)] demo_hot_rule_def interval_of_def)
qed

end
