(* ===== verification/HotspotManager.thy ===== *)
theory HotspotManager
  imports HotspotControl Reuse RuleLoad
begin

text \<open>
  The rule manager of hot parameter flow control, \<open>core/hotspot/rule_manager.go\<close>. A controller never
  changes once it is built, so the map of controllers holds them by value; what changes is behind its
  metric. A generator replaces a nil map of specific items in the rule it gets, and the loaded rules are
  remembered as they are after that. Locks are not modelled: a call is one step. Generators that a program
  adds for further control behaviours are left out.
\<close>

section \<open>State\<close>

record hot_manager =
  hm_tcMap :: "(string, hot_controller list) gomap"
  hm_currentRules :: "(string, hot_rule option list) gomap"
  hm_world :: hot_world

definition BoundRule :: "hot_controller \<Rightarrow> hot_rule" where
  "BoundRule tc = hb_r (tc_base tc)"

definition BoundMetric :: "hot_controller \<Rightarrow> nat" where
  "BoundMetric tc = hb_metric (tc_base tc)"

definition getTrafficControllersFor :: "string \<Rightarrow> hot_manager \<Rightarrow> hot_controller list" where
  "getTrafficControllersFor res m = mget_list (hm_tcMap m) res"

definition hot_rulesFrom :: "(string, hot_controller list) gomap \<Rightarrow> hot_rule list" where
  "hot_rulesFrom m = concat (map (\<lambda>(res, tcs). map BoundRule tcs) m)"

definition hot_GetRules :: "hot_manager \<Rightarrow> hot_rule list" where
  "hot_GetRules m = hot_rulesFrom (hm_tcMap m)"

definition hot_GetRulesOfResource :: "string \<Rightarrow> hot_manager \<Rightarrow> hot_rule list" where
  "hot_GetRulesOfResource res m = map BoundRule (mget_list (hm_tcMap m) res)"

section \<open>Generators\<close>

text \<open>The two generators of \<open>init\<close>: a given metric is taken over. The rule comes back as it is afterwards.\<close>

definition hot_tcGenFunc ::
  "hot_rule \<Rightarrow> nat option \<Rightarrow> hot_world \<Rightarrow> (hot_controller \<times> hot_rule) option \<times> hot_world" where
  "hot_tcGenFunc r reuseMetric w =
     (let (baseTc, w) = (case reuseMetric of
            Some m \<Rightarrow> (Some (newBaseTrafficShapingControllerWithMetric r m), w)
          | None \<Rightarrow> newBaseTrafficShapingController r w)
      in (case baseTc of
            None \<Rightarrow> None
          | Some (b, r) \<Rightarrow> Some (if hr_ControlBehavior r = HotReject then RejectTc b (hr_BurstCount r)
                             else ThrottlingTc b (hr_MaxQueueingTimeMs r), r), w))"

definition hot_supported :: "hot_rule \<Rightarrow> bool" where
  "hot_supported r \<longleftrightarrow> hr_ControlBehavior r \<in> {HotReject, HotThrottling}"

definition hot_calculateReuseIndexFor :: "hot_rule \<Rightarrow> hot_controller list \<Rightarrow> (int \<times> int) go" where
  "hot_calculateReuseIndexFor r oldResTcs =
     reuse_loop_go (\<lambda>old. hot_Equals (BoundRule old) r) (\<lambda>old. IsStatReusable (BoundRule old) r) 0 (- 1) oldResTcs"

text \<open>The state of the loop over the new rules: the old controllers left, the new ones, the rules as they are now.\<close>

record hot_build =
  hbd_old :: "hot_controller list"
  hbd_new :: "hot_controller list"
  hbd_rules :: "hot_rule list"
  hbd_world :: hot_world

definition hot_build_one :: "string \<Rightarrow> hot_rule \<Rightarrow> hot_build \<Rightarrow> unit go \<times> hot_build" where
  "hot_build_one res rule b =
     (let skip = b\<lparr>hbd_rules := hbd_rules b @ [rule]\<rparr>
      in if res \<noteq> hr_Resource rule then (Ret (), skip)
      else case hot_calculateReuseIndexFor rule (hbd_old b) of
          Err e \<Rightarrow> (Err e, skip)
        | Panic p \<Rightarrow> (Panic p, skip)
        | Ret (equalIdx, reuseStatIdx) \<Rightarrow>
            if 0 \<le> equalIdx then
              (Ret (), skip\<lparr>hbd_new := hbd_new b @ [hbd_old b ! nat equalIdx], hbd_old := remove_nth (nat equalIdx) (hbd_old b)\<rparr>)
            else if \<not> hot_supported rule then (Ret (), skip)
            else
              let reuse = (if 0 \<le> reuseStatIdx then Some (BoundMetric (hbd_old b ! nat reuseStatIdx)) else None);
                  (tc, w) = hot_tcGenFunc rule reuse (hbd_world b);
                  b = b\<lparr>hbd_world := w, hbd_old := (if 0 \<le> reuseStatIdx then remove_nth (nat reuseStatIdx) (hbd_old b) else hbd_old b)\<rparr>
              in case tc of
                   None \<Rightarrow> (Ret (), b\<lparr>hbd_rules := hbd_rules b @ [rule]\<rparr>)
                 | Some (tc, rule) \<Rightarrow> (Ret (), b\<lparr>hbd_new := hbd_new b @ [tc], hbd_rules := hbd_rules b @ [rule]\<rparr>))"

fun hot_build_all :: "string \<Rightarrow> hot_rule list \<Rightarrow> hot_build \<Rightarrow> unit go \<times> hot_build" where
  "hot_build_all res [] b = (Ret (), b)"
| "hot_build_all res (rule # rules) b =
     (case hot_build_one res rule b of
        (Ret _, b) \<Rightarrow> hot_build_all res rules b
      | (e, b) \<Rightarrow> (e, b))"

definition hot_buildResource ::
  "string \<Rightarrow> hot_rule list \<Rightarrow> hot_controller list \<Rightarrow> hot_world \<Rightarrow> unit go \<times> hot_build" where
  "hot_buildResource res resRules oldResTcs w =
     hot_build_all res resRules \<lparr>hbd_old = oldResTcs, hbd_new = [], hbd_rules = [], hbd_world = w\<rparr>"

section \<open>Loading rules\<close>

text \<open>\<open>reflect.DeepEqual\<close> on rules, on slices of pointers to them and on maps of such slices.\<close>

definition deep_cluster :: "cluster_config option \<Rightarrow> cluster_config option \<Rightarrow> bool" where
  "deep_cluster c d =
     (case (c, d) of
        (None, None) \<Rightarrow> True
      | (Some c, Some d) \<Rightarrow>
          feq (cc_GlobalThreshold c) (cc_GlobalThreshold d) \<and> feq (cc_MasterNodeThreshold c) (cc_MasterNodeThreshold d) \<and> c = d
      | _ \<Rightarrow> False)"

definition deep_rule :: "hot_rule \<Rightarrow> hot_rule \<Rightarrow> bool" where
  "deep_rule r n \<longleftrightarrow>
     feq (hr_Threshold r) (hr_Threshold n) \<and> same_items (hr_SpecificItems r) (hr_SpecificItems n) \<and>
     deep_cluster (hr_ClusterConfig r) (hr_ClusterConfig n) \<and> r\<lparr>hr_SpecificItems := None\<rparr> = n\<lparr>hr_SpecificItems := None\<rparr>"

definition deep_rules :: "hot_rule option list \<Rightarrow> hot_rule option list \<Rightarrow> bool" where
  "deep_rules rs ns = list_all2 (rel_option deep_rule) rs ns"

definition deep_map :: "(string, hot_rule option list) gomap \<Rightarrow> (string, hot_rule option list) gomap \<Rightarrow> bool" where
  "deep_map m n \<longleftrightarrow>
     list_all (\<lambda>(k, v). case mget n k of None \<Rightarrow> False | Some v' \<Rightarrow> deep_rules v v') m \<and>
     list_all (\<lambda>(k, v). mget m k \<noteq> None) n"

text \<open>The loaded rules as the generators left them: the valid ones are replaced, in order.\<close>

fun hot_put_back :: "hot_rule option list \<Rightarrow> hot_rule list \<Rightarrow> hot_rule option list" where
  "hot_put_back [] vs = []"
| "hot_put_back (r # rs) vs =
     (if hot_IsValidRule r = None then
        (case vs of v # vs \<Rightarrow> Some v # hot_put_back rs vs | [] \<Rightarrow> r # hot_put_back rs [])
      else r # hot_put_back rs vs)"

record hot_load =
  hld_map :: "(string, hot_controller list) gomap"
  hld_rules :: "(string, hot_rule list) gomap"
  hld_world :: hot_world

text \<open>Every resource with a valid rule gets an entry, also when no controller came of its rules.\<close>

fun hot_load_resources ::
  "(string, hot_controller list) gomap \<Rightarrow> (string \<times> hot_rule list) list \<Rightarrow> hot_load \<Rightarrow> unit go \<times> hot_load" where
  "hot_load_resources old [] l = (Ret (), l)"
| "hot_load_resources old ((res, rules) # rest) l =
     (case hot_buildResource res rules (mget_list old res) (hld_world l) of
        (Ret _, b) \<Rightarrow>
          hot_load_resources old rest
            \<lparr>hld_map = mput res (hbd_new b) (hld_map l), hld_rules = mput res (hbd_rules b) (hld_rules l),
             hld_world = hbd_world b\<rparr>
      | (e, b) \<Rightarrow> (e, l\<lparr>hld_world := hbd_world b\<rparr>))"

text \<open>The result is the error of the load; a recovered panic is one, and leaves the maps as they were.\<close>

definition hot_onRuleUpdate :: "(string, hot_rule option list) gomap \<Rightarrow> hot_manager \<Rightarrow> string option \<times> hot_manager" where
  "hot_onRuleUpdate raw m =
     (let (r, l) = hot_load_resources (hm_tcMap m) (valid_map hot_IsValidRule raw)
            \<lparr>hld_map = [], hld_rules = [], hld_world = hm_world m\<rparr>;
          m = m\<lparr>hm_world := hld_world l\<rparr>
      in case r of
           Ret _ \<Rightarrow> (None, m\<lparr>hm_tcMap := hld_map l,
             hm_currentRules := map (\<lambda>(res, rs). (res, hot_put_back rs (mget_list (hld_rules l) res))) raw\<rparr>)
         | Err e \<Rightarrow> (Some e, m)
         | Panic p \<Rightarrow> (Some p, m))"

definition hot_LoadRules :: "hot_rule option list \<Rightarrow> hot_manager \<Rightarrow> (bool \<times> string option) go \<times> hot_manager" where
  "hot_LoadRules rules m =
     (case group_rules hr_Resource rules [] of
        Ret resRulesMap \<Rightarrow>
          if deep_map (hm_currentRules m) resRulesMap then (Ret (False, None), m)
          else let (err, m) = hot_onRuleUpdate resRulesMap m in (Ret (True, err), m)
      | Err e \<Rightarrow> (Err e, m)
      | Panic p \<Rightarrow> (Panic p, m))"

definition hot_ClearRules :: "hot_manager \<Rightarrow> (bool \<times> string option) go \<times> hot_manager" where
  "hot_ClearRules m = hot_LoadRules [] m"

definition hot_onResourceRuleUpdate :: "string \<Rightarrow> hot_rule option list \<Rightarrow> hot_manager \<Rightarrow> string option \<times> hot_manager" where
  "hot_onResourceRuleUpdate res rawResRules m =
     (let (r, b) = hot_buildResource res (valid_rules hot_IsValidRule rawResRules) (mget_list (hm_tcMap m) res) (hm_world m);
          m = m\<lparr>hm_world := hbd_world b\<rparr>
      in case r of
           Ret _ \<Rightarrow>
             (None, m\<lparr>hm_tcMap := (if hbd_new b = [] then mdel res (hm_tcMap m) else mput res (hbd_new b) (hm_tcMap m)),
                      hm_currentRules := mput res (hot_put_back rawResRules (hbd_rules b)) (hm_currentRules m)\<rparr>)
         | Err e \<Rightarrow> (Some e, m)
         | Panic p \<Rightarrow> (Some p, m))"

definition hot_LoadRulesOfResource ::
  "string \<Rightarrow> hot_rule option list \<Rightarrow> hot_manager \<Rightarrow> (bool \<times> string option) \<times> hot_manager" where
  "hot_LoadRulesOfResource res rules m =
     (if res = [] then ((False, Some ''empty resource''), m)
      else if rules = [] then
        ((True, None), m\<lparr>hm_currentRules := mdel res (hm_currentRules m), hm_tcMap := mdel res (hm_tcMap m)\<rparr>)
      else if deep_rules (mget_list (hm_currentRules m) res) rules then ((False, None), m)
      else let (err, m) = hot_onResourceRuleUpdate res rules m in ((True, err), m))"

definition hot_ClearRulesOfResource :: "string \<Rightarrow> hot_manager \<Rightarrow> (bool \<times> string option) \<times> hot_manager" where
  "hot_ClearRulesOfResource res m = hot_LoadRulesOfResource res [] m"

end
