(* ===== verification/HotspotArgs.thy ===== *)
theory HotspotArgs
  imports HotspotRule
begin

text \<open>
  How a hot parameter is found in a request, \<open>ExtractArgs\<close> of \<open>core/hotspot/traffic_shaping.go\<close>, with the
  parts of \<open>strconv\<close> it needs: a text value of a header is converted to the kind the rule names. The
  reflection on structures and the JSON packages are outside of the model. A nil element among the
  arguments or the attachments is not modelled.
\<close>

section \<open>Parsing floats\<close>

text \<open>\<open>strconv.ParseFloat\<close>: a sign, then \<open>inf\<close>, \<open>infinity\<close> or \<open>nan\<close>, or a decimal or hexadecimal number.\<close>

definition special_float :: "string \<Rightarrow> f64 option" where
  "special_float s =
     (let signed = (case s of c # cs \<Rightarrow> c = CHR ''+'' \<or> c = CHR ''-'' | [] \<Rightarrow> False);
          body = map ascii_lower (if signed then tl s else s)
      in if body = ''inf'' \<or> body = ''infinity'' then Some (if signed \<and> hd s = CHR ''-'' then NInf else PInf)
         else if body = ''nan'' \<and> \<not> signed then Some NaN
         else None)"

definition hex_val :: "char \<Rightarrow> nat option" where
  "hex_val c =
     (case digit_val c of Some d \<Rightarrow> Some d
      | None \<Rightarrow> let n = of_char (ascii_lower c) in if 97 \<le> n \<and> n \<le> 102 then Some (n - 87) else None)"

text \<open>
  The digits of the mantissa, with at most one point and underscores skipped: the mantissa as an integer,
  how many digits follow the point, whether there was a point and a digit, and the rest.
\<close>

record mantissa =
  mt_value :: nat
  mt_frac :: nat
  mt_dot :: bool
  mt_digits :: bool

fun read_mantissa :: "nat \<Rightarrow> (char \<Rightarrow> nat option) \<Rightarrow> string \<Rightarrow> mantissa \<Rightarrow> mantissa \<times> string" where
  "read_mantissa base dv [] m = (m, [])"
| "read_mantissa base dv (c # cs) m =
     (if c = CHR ''_'' then read_mantissa base dv cs m
      else if c = CHR ''.'' then
        (if mt_dot m then (m, c # cs) else read_mantissa base dv cs (m\<lparr>mt_dot := True\<rparr>))
      else case dv c of
          None \<Rightarrow> (m, c # cs)
        | Some d \<Rightarrow> read_mantissa base dv cs (m\<lparr>mt_value := base * mt_value m + d, mt_digits := True,
              mt_frac := (if mt_dot m then Suc (mt_frac m) else mt_frac m)\<rparr>))"

text \<open>The digits of an exponent: it stops growing at 10000.\<close>

fun read_exponent :: "nat \<Rightarrow> string \<Rightarrow> nat \<times> string" where
  "read_exponent e [] = (e, [])"
| "read_exponent e (c # cs) =
     (if c = CHR ''_'' then read_exponent e cs
      else case digit_val c of
          None \<Rightarrow> (e, c # cs)
        | Some d \<Rightarrow> read_exponent (if e < 10000 then 10 * e + d else e) cs)"

text \<open>\<open>underscoreOK\<close>: an underscore stands between digits, or between the base prefix and a digit.\<close>

fun underscores_ok :: "bool \<Rightarrow> char \<Rightarrow> string \<Rightarrow> bool" where
  "underscores_ok hex saw [] \<longleftrightarrow> saw \<noteq> CHR ''_''"
| "underscores_ok hex saw (c # cs) \<longleftrightarrow>
     (if (if hex then hex_val c else digit_val c) \<noteq> None then underscores_ok hex (CHR ''0'') cs
      else if c = CHR ''_'' then saw = CHR ''0'' \<and> underscores_ok hex (CHR ''_'') cs
      else saw \<noteq> CHR ''_'' \<and> underscores_ok hex (CHR ''!'') cs)"

definition pow_rat :: "nat \<Rightarrow> int \<Rightarrow> rat" where
  "pow_rat b e = (if 0 \<le> e then of_nat b ^ nat e else 1 / of_nat b ^ nat (- e))"

definition number_float :: "string \<Rightarrow> f64 option" where
  "number_float s =
     (let signed = (case s of c # cs \<Rightarrow> c = CHR ''+'' \<or> c = CHR ''-'' | [] \<Rightarrow> False);
          body = (if signed then tl s else s);
          hex = (2 < length body \<and> body ! 0 = CHR ''0'' \<and> ascii_lower (body ! 1) = CHR ''x'');
          digits = (if hex then drop 2 body else body);
          (m, rest) = read_mantissa (if hex then 16 else 10) (if hex then hex_val else digit_val) digits
            \<lparr>mt_value = 0, mt_frac = 0, mt_dot = False, mt_digits = False\<rparr>;
          expChar = (if hex then CHR ''p'' else CHR ''e'');
          expo = (case rest of
              c # cs \<Rightarrow>
                if ascii_lower c = expChar then
                  (let esigned = (case cs of d # ds \<Rightarrow> d = CHR ''+'' \<or> d = CHR ''-'' | [] \<Rightarrow> False);
                       eneg = (esigned \<and> hd cs = CHR ''-''); cs = (if esigned then tl cs else cs)
                   in if cs = [] \<or> digit_val (hd cs) = None then None
                      else let (e, rest) = read_exponent 0 cs in Some (if eneg then - int e else int e, rest))
                else if hex then None else Some (0, rest)
            | [] \<Rightarrow> if hex then None else Some (0, []))
      in if \<not> mt_digits m then None
         else case expo of
             None \<Rightarrow> None
           | Some (e, rest) \<Rightarrow>
               if rest \<noteq> [] then None
               else if CHR ''_'' \<in> set body \<and> \<not> underscores_ok hex (if hex then CHR ''0'' else CHR ''^'') digits then None
               else
                 let q = of_nat (mt_value m) * (if hex then pow_rat 2 (e - 4 * int (mt_frac m))
                           else pow_rat 10 (e - int (mt_frac m)));
                     f = round64 (if signed \<and> hd s = CHR ''-'' then - q else q)
                 in if f = PInf \<or> f = NInf then None else Some f)"

definition ParseFloat :: "string \<Rightarrow> f64 option" where
  "ParseFloat s = (case special_float s of Some f \<Rightarrow> Some f | None \<Rightarrow> number_float s)"

text \<open>The conversion of a \<open>float64\<close> to a \<open>float32\<close>, as the double with the same value.\<close>

fun to_float32 :: "f64 \<Rightarrow> f64" where
  "to_float32 (Fin q) =
     (if q = 0 then Fin 0
      else let v = grid_round (max (ilog2 \<bar>q\<bar>) (- 126) - 23) q
           in if 2 ^ 128 \<le> v then PInf else if v \<le> - (2 ^ 128) then NInf else Fin v)"
| "to_float32 x = x"

definition ParseBool :: "string \<Rightarrow> bool option" where
  "ParseBool s =
     (if s \<in> {''1'', ''t'', ''T'', ''TRUE'', ''true'', ''True''} then Some True
      else if s \<in> {''0'', ''f'', ''F'', ''FALSE'', ''false'', ''False''} then Some False
      else None)"

section \<open>Kinds\<close>

definition KindInt :: string where "KindInt = ''int''"
definition KindInt32 :: string where "KindInt32 = ''int32''"
definition KindInt64 :: string where "KindInt64 = ''int64''"
definition KindString :: string where "KindString = ''string''"
definition KindBool :: string where "KindBool = ''bool''"
definition KindFloat32 :: string where "KindFloat32 = ''float32''"
definition KindFloat64 :: string where "KindFloat64 = ''float64''"

lemmas kind_defs = KindInt_def KindInt32_def KindInt64_def KindString_def KindBool_def KindFloat32_def KindFloat64_def

text \<open>The value of a text, or nil: for an unknown kind, too.\<close>

definition transKind :: "string \<Rightarrow> string \<Rightarrow> go_value option" where
  "transKind val kind =
     (if kind = KindString then Some (VString val)
      else if kind = KindInt then map_option (\<lambda>i. VInt (word_of_int i)) (ParseInt 64 val)
      else if kind = KindInt32 then map_option (\<lambda>i. VInt32 (word_of_int i)) (ParseInt 64 val)
      else if kind = KindInt64 then map_option (\<lambda>i. VInt64 (word_of_int i)) (ParseInt 64 val)
      else if kind = KindFloat32 then map_option (\<lambda>f. VFloat32 (to_float32 f)) (ParseFloat val)
      else if kind = KindFloat64 then map_option VFloat64 (ParseFloat val)
      else if kind = KindBool then map_option VBool (ParseBool val)
      else None)"

section \<open>Extraction\<close>

text \<open>
  \<open>structs.IsStruct\<close>, \<open>Marshal\<close> and the lookups of \<open>jsonparser\<close>: \<open>Get\<close> tells the value found and its type.
\<close>

datatype json_type = JsonBoolean | JsonString | JsonNumber | JsonArray | JsonOther

record json_env =
  je_is_struct :: "go_value \<Rightarrow> bool"
  je_marshal :: "go_value \<Rightarrow> string"
  je_get :: "string \<Rightarrow> string list \<Rightarrow> (string \<times> json_type) option"
  je_get_bool :: "string \<Rightarrow> string list \<Rightarrow> bool"
  je_get_float :: "string \<Rightarrow> string list \<Rightarrow> f64"

text \<open>The parameter a rule asks for; a controller copies these fields of its rule.\<close>

record param_spec =
  ps_source :: i64
  ps_index :: i64
  ps_key :: string
  ps_kind :: string

definition extractAttachmentArgs :: "param_spec \<Rightarrow> sea_input \<Rightarrow> go_value option" where
  "extractAttachmentArgs c i = (if ps_key c = [] then None else mget (in_Attachments i) (VString (ps_key c)))"

definition extractHeader :: "param_spec \<Rightarrow> sea_input \<Rightarrow> go_value option" where
  "extractHeader c i =
     (if ParameterTypeHeader \<noteq> ps_source c then None
      else if in_Headers i = [] then None
      else let vals = mget_list (in_Headers i) (ps_key c)
           in if vals = [] \<or> vals ! 0 = [] then None else transKind (vals ! 0) (ps_kind c))"

definition extractMetadata :: "param_spec \<Rightarrow> sea_input \<Rightarrow> go_value option" where
  "extractMetadata c i =
     (if ParameterTypeMetadata \<noteq> ps_source c then None
      else if in_MetaData i = [] then None
      else let val = mget_list (in_MetaData i) (ps_key c)
           in if val = [] then None else transKind val (ps_kind c))"

text \<open>\<open>strings.SplitN(s, "=", 2)\<close>: at the first separator only.\<close>

fun split_first :: "char \<Rightarrow> string \<Rightarrow> (string \<times> string) option" where
  "split_first c [] = None"
| "split_first c (x # xs) =
     (if x = c then Some ([], xs) else map_option (\<lambda>(k, v). (x # k, v)) (split_first c xs))"

fun find_kv :: "string \<Rightarrow> go_value list \<Rightarrow> go_value option" where
  "find_kv key [] = None"
| "find_kv key (arg # args) =
     (case arg of
        VString s \<Rightarrow>
          (case split_first (CHR ''='') s of
             Some (k, v) \<Rightarrow> if key = k then Some (VString v) else find_kv key args
           | None \<Rightarrow> find_kv key args)
      | _ \<Rightarrow> find_kv key args)"

definition extractArgs :: "json_env \<Rightarrow> param_spec \<Rightarrow> sea_input \<Rightarrow> go_value option go" where
  "extractArgs je c i =
     (let args = in_Args i in
      if args = [] then Panic ''index out of range''
      else if je_is_struct je (args ! 0) then
        (let data = je_marshal je (args ! 0); path = split_on (CHR ''.'') (ps_key c)
         in Ret (case je_get je data path of
               None \<Rightarrow> None
             | Some (findObj, dataType) \<Rightarrow>
                 Some (case dataType of
                     JsonBoolean \<Rightarrow> VBool (je_get_bool je data path)
                   | JsonString \<Rightarrow> VString findObj
                   | JsonNumber \<Rightarrow> VFloat64 (je_get_float je data path)
                   | JsonArray \<Rightarrow> VString findObj
                   | JsonOther \<Rightarrow> VString findObj)))
      else case find_kv (ps_key c) args of
          Some v \<Rightarrow> Ret (Some v)
        | None \<Rightarrow>
            let idx = sint (ps_index c); idx = (if idx < 0 then int (length args) + idx else idx)
            in if idx < 0 then Ret None
               else if int (length args) \<le> idx then Ret None
               else Ret (Some (args ! nat idx)))"

definition ExtractArgs :: "json_env \<Rightarrow> param_spec \<Rightarrow> sea_input \<Rightarrow> go_value option go" where
  "ExtractArgs je c i =
     (case extractAttachmentArgs c i of
        Some v \<Rightarrow> Ret (Some v)
      | None \<Rightarrow>
          (case extractHeader c i of
             Some v \<Rightarrow> Ret (Some v)
           | None \<Rightarrow>
               (case extractMetadata c i of
                  Some v \<Rightarrow> Ret (Some v)
                | None \<Rightarrow> extractArgs je c i)))"

end
