(* ===== verification/HotspotSlot.thy ===== *)
theory HotspotSlot
  imports HotspotManager HotspotArgs
begin

text \<open>
  The check slot of hot parameter flow control (\<open>core/hotspot/slot.go\<close>) and the slot that counts the calls
  in flight per argument (\<open>concurrency_stat_slot.go\<close>). \<open>None\<close> stands for a check that does not return.
\<close>

section \<open>The check of one controller\<close>

definition param_of :: "hot_controller \<Rightarrow> param_spec" where
  "param_of tc = \<lparr>ps_source = hb_paramSource (tc_base tc), ps_index = hb_paramIndex (tc_base tc),
     ps_key = hb_paramKey (tc_base tc), ps_kind = hb_paramKind (tc_base tc)\<rparr>"

type_synonym hot_step = "(hot_result go \<times> hot_world) option"

definition hot_canPassLocalCheck ::
  "hot_env \<Rightarrow> (nat \<Rightarrow> i64) \<Rightarrow> hot_controller \<Rightarrow> go_value \<Rightarrow> i64 \<Rightarrow> hot_world \<Rightarrow> hot_step" where
  "hot_canPassLocalCheck env clk tc arg batch w = hot_PerformChecking env clk tc arg batch w"

definition hot_fallbackToLocalOrPass ::
  "hot_env \<Rightarrow> (nat \<Rightarrow> i64) \<Rightarrow> cluster_config \<Rightarrow> hot_controller \<Rightarrow> go_value \<Rightarrow> i64 \<Rightarrow> hot_world \<Rightarrow> hot_step" where
  "hot_fallbackToLocalOrPass env clk cc tc arg batch w =
     (if cc_FallbackToLocalWhenFail cc then hot_canPassLocalCheck env clk tc arg batch w else Some (Ret None, w))"

definition hot_canPassClusterCheck ::
  "hot_env \<Rightarrow> (nat \<Rightarrow> i64) \<Rightarrow> cluster_config \<Rightarrow> hot_controller \<Rightarrow> go_value \<Rightarrow> i64 \<Rightarrow> hot_world \<Rightarrow> hot_step" where
  "hot_canPassClusterCheck env clk cc tc arg batch w =
     (if cc_TokenServerMasterHost cc = [] \<or> cc_TokenServerMasterPort cc \<le>s 0
      then hot_fallbackToLocalOrPass env clk cc tc arg batch w
      else Some (Ret None, w))"

definition hot_canPassCheck ::
  "hot_env \<Rightarrow> (nat \<Rightarrow> i64) \<Rightarrow> hot_controller \<Rightarrow> go_value \<Rightarrow> i64 \<Rightarrow> hot_world \<Rightarrow> hot_step" where
  "hot_canPassCheck env clk tc arg batch w =
     (let rule = BoundRule tc in
      case hr_ClusterConfig rule of
        Some cc \<Rightarrow>
          if hr_MetricType rule = HotQPS \<and> hr_ClusterMode rule \<and> cc_ClusterStrategy cc = ThresholdGlobal
          then hot_canPassClusterCheck env clk cc tc arg batch w
          else hot_canPassLocalCheck env clk tc arg batch w
      | None \<Rightarrow> hot_canPassLocalCheck env clk tc arg batch w)"

section \<open>The check slot\<close>

definition hot_needs_check :: "string \<Rightarrow> hot_rule \<Rightarrow> bool" where
  "hot_needs_check FromService r \<longleftrightarrow>
     \<not> (hr_LimitApp r \<noteq> [] \<and> \<not> EqualFold_default (hr_LimitApp r) \<and>
        \<not> Contains FromService (split_on (CHR '','') (hr_LimitApp r)))"

text \<open>
  The loop of \<open>Check\<close>: \<open>Some r\<close> is the blocking result. The clock in the \<open>i\<close>-th controller reads \<open>clk i\<close>;
  the waits, in nanoseconds, come with the result.
\<close>

fun hot_check_all ::
  "hot_env \<Rightarrow> json_env \<Rightarrow> (nat \<Rightarrow> nat \<Rightarrow> i64) \<Rightarrow> string \<Rightarrow> sea_input \<Rightarrow> nat \<Rightarrow> hot_controller list \<Rightarrow> hot_world \<Rightarrow>
   (hot_result go \<times> i64 list \<times> hot_world) option" where
  "hot_check_all env je clk fs inp i [] w = Some (Ret None, [], w)"
| "hot_check_all env je clk fs inp i (tc # tcs) w =
     (case ExtractArgs je (param_of tc) inp of
        Err e \<Rightarrow> Some (Err e, [], w)
      | Panic p \<Rightarrow> Some (Panic p, [], w)
      | Ret None \<Rightarrow> hot_check_all env je clk fs inp (Suc i) tcs w
      | Ret (Some arg) \<Rightarrow>
          if \<not> hot_needs_check fs (BoundRule tc) then hot_check_all env je clk fs inp (Suc i) tcs w
          else case hot_canPassCheck env (clk i) tc arg (ucast (in_BatchCount inp)) w of
              None \<Rightarrow> None
            | Some (Ret None, w) \<Rightarrow> hot_check_all env je clk fs inp (Suc i) tcs w
            | Some (Ret (Some r), w) \<Rightarrow>
                if tr_status r = ResultStatusBlocked then Some (Ret (Some r), [], w)
                else
                  map_option (\<lambda>(x, waits, w).
                    (x, (if tr_status r = ResultStatusShouldWait \<and> 0 <s tr_nanosToWait r then tr_nanosToWait r # waits else waits), w))
                    (hot_check_all env je clk fs inp (Suc i) tcs w)
            | Some (e, w) \<Rightarrow> Some (e, [], w))"

definition hot_Slot_Check ::
  "hot_env \<Rightarrow> json_env \<Rightarrow> (nat \<Rightarrow> nat \<Rightarrow> i64) \<Rightarrow> (hot_rule, i64) entry_context \<Rightarrow> hot_manager \<Rightarrow>
   (hot_result go \<times> i64 list \<times> hot_manager) option" where
  "hot_Slot_Check env je clk ctx m =
     (case ctx_Resource ctx of
        None \<Rightarrow> Some (Panic ''nil pointer dereference'', [], m)
      | Some rw \<Rightarrow>
          map_option (\<lambda>(r, waits, w).
              ((case r of Ret None \<Rightarrow> Ret (ctx_RuleCheckResult ctx) | x \<Rightarrow> x), waits, m\<lparr>hm_world := w\<rparr>))
            (hot_check_all env je clk (ctx_FromService ctx) (ctx_Input ctx) 0
               (getTrafficControllersFor (rw_name rw) m) (hm_world m)))"

section \<open>Counting calls in flight\<close>

text \<open>Both hooks of \<open>ConcurrencyStatSlot\<close> add \<open>d\<close> to the counter of the argument, if it still is in the cache.\<close>

fun count_concurrency ::
  "hot_env \<Rightarrow> json_env \<Rightarrow> i64 \<Rightarrow> sea_input \<Rightarrow> hot_controller list \<Rightarrow> hot_world \<Rightarrow> unit go \<times> hot_world" where
  "count_concurrency env je d inp [] w = (Ret (), w)"
| "count_concurrency env je d inp (tc # tcs) w =
     (if hr_MetricType (BoundRule tc) \<noteq> HotConcurrency then count_concurrency env je d inp tcs w
      else case ExtractArgs je (param_of tc) inp of
          Err e \<Rightarrow> (Err e, w)
        | Panic p \<Rightarrow> (Panic p, w)
        | Ret None \<Rightarrow> count_concurrency env je d inp tcs w
        | Ret (Some arg) \<Rightarrow>
            (case hm_ConcurrentCounter (hw_metrics w ! BoundMetric tc) of
               None \<Rightarrow> (Panic ''nil pointer dereference'', w)
             | Some c \<Rightarrow>
                 if \<not> he_hashable env arg then (Panic ''hash of unhashable type'', w)
                 else
                   let (found, w) = conc_get (BoundMetric tc) c arg w
                   in count_concurrency env je d inp tcs
                        (case found of None \<Rightarrow> w | Some p \<Rightarrow> hw_store p (hw_load p w + d) w)))"

definition hot_stat_hook ::
  "hot_env \<Rightarrow> json_env \<Rightarrow> i64 \<Rightarrow> (hot_rule, i64) entry_context \<Rightarrow> hot_manager \<Rightarrow> unit go \<times> hot_manager" where
  "hot_stat_hook env je d ctx m =
     (case ctx_Resource ctx of
        None \<Rightarrow> (Panic ''nil pointer dereference'', m)
      | Some rw \<Rightarrow>
          (let (r, w) = count_concurrency env je d (ctx_Input ctx) (getTrafficControllersFor (rw_name rw) m) (hm_world m)
           in (r, m\<lparr>hm_world := w\<rparr>)))"

definition hot_OnEntryPassed ::
  "hot_env \<Rightarrow> json_env \<Rightarrow> (hot_rule, i64) entry_context \<Rightarrow> hot_manager \<Rightarrow> unit go \<times> hot_manager" where
  "hot_OnEntryPassed env je = hot_stat_hook env je 1"

definition hot_OnEntryBlocked :: "(hot_rule, i64) entry_context \<Rightarrow> hot_manager \<Rightarrow> unit go \<times> hot_manager" where
  "hot_OnEntryBlocked ctx m = (Ret (), m)"

definition hot_OnCompleted ::
  "hot_env \<Rightarrow> json_env \<Rightarrow> (hot_rule, i64) entry_context \<Rightarrow> hot_manager \<Rightarrow> unit go \<times> hot_manager" where
  "hot_OnCompleted env je = hot_stat_hook env je (- 1)"

end
