(* ===== verification/HotspotFlights.thy ===== *)
theory HotspotFlights
  imports HotspotRate HotspotSlot
begin

text \<open>
  Concurrency limits per argument, through the slots: the check slot asks, the statistic slot counts. Over
  any sequence of entries and exits of a resource with one such rule the slots behave as a table of calls
  in flight per argument.
\<close>

section \<open>The table\<close>

text \<open>\<open>None\<close>: the argument was never seen; the first call of an argument always passes.\<close>

fun table_run :: "(go_value \<Rightarrow> int) \<Rightarrow> (bool \<times> go_value) list \<Rightarrow> (go_value \<Rightarrow> int option) \<Rightarrow> bool list \<times> (go_value \<Rightarrow> int option)" where
  "table_run limit [] c = ([], c)"
| "table_run limit ((True, a) # evs) c =
     (case c a of
        None \<Rightarrow> map_prod (Cons True) id (table_run limit evs (c(a \<mapsto> 1)))
      | Some k \<Rightarrow>
          if k + 1 \<le> limit a then map_prod (Cons True) id (table_run limit evs (c(a \<mapsto> k + 1)))
          else map_prod (Cons False) id (table_run limit evs c))"
| "table_run limit ((False, a) # evs) c =
     map_prod (Cons True) id (table_run limit evs (case c a of None \<Rightarrow> c | Some k \<Rightarrow> c(a \<mapsto> k - 1)))"

lemma table_bound:
  assumes "\<forall>k. c a = Some k \<longrightarrow> k \<le> max 1 (limit a)" and "table_run limit evs c = (oks, c')"
  shows "\<forall>k. c' a = Some k \<longrightarrow> k \<le> max 1 (limit a)"
  using assms
proof (induction limit evs c arbitrary: oks rule: table_run.induct)
  case (2 limit a' evs c)
  then show ?case by (cases "c a'") (fastforce split: if_splits prod.splits simp: map_prod_def)+
next
  case (3 limit a' evs c)
  have "\<forall>k. (case c a' of None \<Rightarrow> c | Some k \<Rightarrow> c(a' \<mapsto> k - 1)) a = Some k \<longrightarrow> k \<le> max 1 (limit a)"
    using "3.prems"(1) by (cases "c a'"; cases "a = a'") auto
  moreover obtain oks1 where "table_run limit evs (case c a' of None \<Rightarrow> c | Some k \<Rightarrow> c(a' \<mapsto> k - 1)) = (oks1, c')"
    using "3.prems"(2) by (auto simp: map_prod_def split: prod.splits)
  ultimately show ?case by (rule "3.IH")
qed simp

section \<open>The slots\<close>

text \<open>An event is an entry (\<open>True\<close>) or the exit of a call, with its context. An entry is checked, and counted if it passes.\<close>

type_synonym hot_context = "(hot_rule, i64) entry_context"

fun slots_run ::
  "hot_env \<Rightarrow> json_env \<Rightarrow> (nat \<Rightarrow> nat \<Rightarrow> i64) \<Rightarrow> (bool \<times> hot_context) list \<Rightarrow> hot_manager \<Rightarrow> bool list \<times> hot_manager" where
  "slots_run env je clk [] m = ([], m)"
| "slots_run env je clk ((True, ctx) # evs) m =
     (case hot_Slot_Check env je clk ctx m of
        Some (Ret (Some r), waits, m) \<Rightarrow>
          if tr_IsBlocked r then map_prod (Cons False) id (slots_run env je clk evs m)
          else map_prod (Cons True) id (slots_run env je clk evs (snd (hot_OnEntryPassed env je ctx m)))
      | Some (_, waits, m) \<Rightarrow> map_prod (Cons True) id (slots_run env je clk evs (snd (hot_OnEntryPassed env je ctx m)))
      | None \<Rightarrow> ([], m))"
| "slots_run env je clk ((False, ctx) # evs) m =
     map_prod (Cons True) id (slots_run env je clk evs (snd (hot_OnCompleted env je ctx m)))"

definition conc_metric :: "hot_base \<Rightarrow> hot_world \<Rightarrow> (go_value, nat) lru \<Rightarrow> bool" where
  "conc_metric b w c \<longleftrightarrow> hb_metric b < length (hw_metrics w) \<and> hm_ConcurrentCounter (hw_metrics w ! hb_metric b) = Some c"

lemma conc_metric_store [simp]: "conc_metric b (hw_store p v w) c = conc_metric b w c"
  by (simp add: conc_metric_def hw_store_def)

text \<open>The counters as integers.\<close>

definition in_flight :: "(go_value, nat) lru \<Rightarrow> i64 list \<Rightarrow> go_value \<Rightarrow> int option" where
  "in_flight c cells a = map_option sint (counters c cells a)"

definition conc_limit :: "hot_env \<Rightarrow> hot_base \<Rightarrow> go_value \<Rightarrow> int" where
  "conc_limit env b a = sint (hot_tokenCount env b a)"

lemma next_keys_dom:
  assumes "cells_ok c cells" and "finite A" and "card A \<le> cache_cap c" and "set (map fst (entries c)) \<subseteq> A" and "arg \<in> A"
  shows "set (next_keys arg (cache_cap c) (map fst (entries c))) = insert arg (set (map fst (entries c)))"
    and "(counters c cells)(arg \<mapsto> x) |` insert arg (set (map fst (entries c))) = (counters c cells)(arg \<mapsto> x)"
proof -
  have "cache_ok c" using assms(1) by (simp add: cells_ok_def)
  then have "distinct (map fst (entries c))" by (rule lru_cache.ok_distinct)
  then show "set (next_keys arg (cache_cap c) (map fst (entries c))) = insert arg (set (map fst (entries c)))"
    using next_keys_fits [OF assms(2,3) _ assms(4,5)] by blast
  show "(counters c cells)(arg \<mapsto> x) |` insert arg (set (map fst (entries c))) = (counters c cells)(arg \<mapsto> x)"
  proof (rule ext)
    fix k
    have "counters c cells k = None" if "k \<notin> set (map fst (entries c))"
      using that by (simp add: counters_def map_of_eq_None_iff)
    then show "((counters c cells)(arg \<mapsto> x) |` insert arg (set (map fst (entries c)))) k = ((counters c cells)(arg \<mapsto> x)) k"
      by (simp add: restrict_map_def)
  qed
qed

definition conc_state :: "go_value set \<Rightarrow> hot_base \<Rightarrow> hot_world \<Rightarrow> (go_value \<Rightarrow> i64 option) \<Rightarrow> bool" where
  "conc_state A b w f \<longleftrightarrow>
     (\<exists>c. conc_metric b w c \<and> cells_ok c (hw_cells w) \<and> card A \<le> cache_cap c \<and> set (map fst (entries c)) \<subseteq> A \<and>
        counters c (hw_cells w) = f)"

lemma conc_check:
  assumes "conc_state A b w f" and "finite A" and "arg \<in> A" and "he_hashable env arg"
  shows "\<exists>w'. conc_state A b w' (f(arg \<mapsto> case f arg of None \<Rightarrow> 0 | Some k \<Rightarrow> k)) \<and>
    (case f arg of
       None \<Rightarrow> performCheckingForConcurrencyMetric env b arg w = (Ret None, w')
     | Some k \<Rightarrow> \<exists>msg. performCheckingForConcurrencyMetric env b arg w =
         (Ret (if k + 1 \<le>s hot_tokenCount env b arg then None else hot_blocked env msg arg b (Some (k + 1))), w'))"
proof -
  from assms(1) obtain c where c: "conc_metric b w c" "cells_ok c (hw_cells w)" "card A \<le> cache_cap c"
      "set (map fst (entries c)) \<subseteq> A" "counters c (hw_cells w) = f" unfolding conc_state_def by blast
  obtain prior c' where add: "lru_AddIfAbsent arg (length (hw_cells w)) c = (prior, c')" by fastforce
  obtain w' where ca: "conc_add (hb_metric b) c arg 0 w = (prior, w')" "conc_metric b w' c'" "hw_cells w' = hw_cells w @ [0]"
    using c(1) add by (auto simp: conc_add_def hw_new_def hw_metric_def conc_metric_def)
  note a = cells_add [OF c(2) add ca(3)]
  note d = next_keys_dom [OF c(2) assms(2) c(3,4) assms(3)]
  have keys: "set (map fst (entries c')) = insert arg (set (map fst (entries c)))" unfolding a(4) by (rule d(1))
  have cnt: "counters c' (hw_cells w') = f(arg \<mapsto> case f arg of None \<Rightarrow> 0 | Some k \<Rightarrow> k)"
    using a(6) d(2) unfolding keys c(5) by simp
  have st: "conc_state A b w' (f(arg \<mapsto> case f arg of None \<Rightarrow> 0 | Some k \<Rightarrow> k))"
    unfolding conc_state_def using ca(2) a(2,3) c(3,4) keys cnt assms(3) by (intro exI [of _ c']) simp
  have m: "hm_ConcurrentCounter (hw_metrics w ! hb_metric b) = Some c" using c(1) by (simp add: conc_metric_def)
  show ?thesis
  proof (cases "f arg")
    case None
    then have "prior = None" using a(1) c(5) by (auto simp: counters_def)
    then show ?thesis using st None ca(1) m assms(4) by (auto simp: performCheckingForConcurrencyMetric_def)
  next
    case (Some k)
    then obtain p where p: "prior = Some p" "p < length (hw_cells w)" "hw_cells w ! p = k"
      using a(1) c(2,5) cells_ok_range [OF c(2)] by (auto simp: counters_def)
    then have "hw_load p w' = k" by (simp add: hw_load_def ca(3) nth_append)
    then have "\<exists>msg. performCheckingForConcurrencyMetric env b arg w =
        (Ret (if k + 1 \<le>s hot_tokenCount env b arg then None else hot_blocked env msg arg b (Some (k + 1))), w')"
      using ca(1) m assms(4) p(1)
      by (auto simp: performCheckingForConcurrencyMetric_def hot_tokenCount_def Let_def split: option.splits)
    then obtain msg where "performCheckingForConcurrencyMetric env b arg w =
        (Ret (if k + 1 \<le>s hot_tokenCount env b arg then None else hot_blocked env msg arg b (Some (k + 1))), w')" ..
    with st Some show ?thesis by (intro exI [of _ w']) auto
  qed
qed

lemma conc_count:
  assumes "conc_state A b w f" and "finite A" and "arg \<in> A"
  obtains c found w' where "hm_ConcurrentCounter (hw_metrics w ! hb_metric b) = Some c"
    and "conc_get (hb_metric b) c arg w = (found, w')"
    and "conc_state A b (case found of None \<Rightarrow> w' | Some p \<Rightarrow> hw_store p (hw_load p w' + d) w')
      (case f arg of None \<Rightarrow> f | Some k \<Rightarrow> f(arg \<mapsto> k + d))"
proof -
  from assms(1) obtain c where c: "conc_metric b w c" "cells_ok c (hw_cells w)" "card A \<le> cache_cap c"
      "set (map fst (entries c)) \<subseteq> A" "counters c (hw_cells w) = f" unfolding conc_state_def by blast
  obtain found c' where get: "lru_Get arg c = (found, c')" by fastforce
  obtain w' where cg: "conc_get (hb_metric b) c arg w = (found, w')" "conc_metric b w' c'" "hw_cells w' = hw_cells w"
    using c(1) get by (auto simp: conc_get_def hw_metric_def conc_metric_def)
  note g = cells_get [OF c(2) get]
  have keys: "set (map fst (entries c')) = set (map fst (entries c))"
    using g(4) by (metis list.set_map map_of_eq_None_iff set_eqI)
  have m: "hm_ConcurrentCounter (hw_metrics w ! hb_metric b) = Some c" using c(1) by (simp add: conc_metric_def)
  have cnt: "counters c' (hw_cells w') = f" using g(5) c(5) by (simp add: cg(3))
  have ok: "cells_ok c' (hw_cells w')" using g(2) by (simp add: cg(3))
  have "conc_state A b (case found of None \<Rightarrow> w' | Some p \<Rightarrow> hw_store p (hw_load p w' + d) w')
      (case f arg of None \<Rightarrow> f | Some k \<Rightarrow> f(arg \<mapsto> k + d))"
  proof (cases found)
    case None
    then have "f arg = None" using g(1) c(5) by (auto simp: counters_def)
    then show ?thesis
      unfolding conc_state_def None using cg(2) ok g(3) c(3,4) keys cnt by (intro exI [of _ c']) simp
  next
    case (Some p)
    have ptr: "map_of (entries c') arg = Some p" using Some g(1,4) by simp
    have "f arg = Some (hw_load p w')" using ptr cnt by (auto simp: counters_def hw_load_def)
    then show ?thesis
      unfolding conc_state_def Some using cg(2) ok g(3) c(3,4) keys cnt counters_store [OF ok ptr]
      by (intro exI [of _ c']) (simp add: hw_store_def conc_metric_def)
  qed
  with m cg(1) show thesis by (intro that)
qed

section \<open>The slots follow the table\<close>

text \<open>The resource has one controller, for concurrency, and an event has a context that it looks at.\<close>

definition conc_resource :: "string \<Rightarrow> hot_controller \<Rightarrow> hot_manager \<Rightarrow> bool" where
  "conc_resource res tc m \<longleftrightarrow> getTrafficControllersFor res m = [tc] \<and> hr_MetricType (BoundRule tc) = HotConcurrency \<and>
     hb_metricType (tc_base tc) = HotConcurrency"

definition conc_context :: "hot_env \<Rightarrow> json_env \<Rightarrow> string \<Rightarrow> hot_controller \<Rightarrow> go_value set \<Rightarrow> hot_context \<Rightarrow> go_value \<Rightarrow> bool" where
  "conc_context env je res tc A ctx arg \<longleftrightarrow>
     (\<exists>rw. ctx_Resource ctx = Some rw \<and> rw_name rw = res) \<and> ExtractArgs je (param_of tc) (ctx_Input ctx) = Ret (Some arg) \<and>
     arg \<in> A \<and> he_hashable env arg \<and> hot_needs_check (ctx_FromService ctx) (BoundRule tc) \<and> \<not> ctx_IsBlocked ctx"

lemma conc_resource_world [simp]: "conc_resource res tc (m\<lparr>hm_world := w\<rparr>) = conc_resource res tc m"
  by (simp add: conc_resource_def getTrafficControllersFor_def)

lemma hook_spec:
  assumes "conc_resource res tc m" and "conc_context env je res tc A ctx arg" and "conc_state A (tc_base tc) (hm_world m) f"
    and "finite A"
  shows "\<exists>w'. hot_stat_hook env je d ctx m = (Ret (), m\<lparr>hm_world := w'\<rparr>) \<and>
    conc_state A (tc_base tc) w' (case f arg of None \<Rightarrow> f | Some k \<Rightarrow> f(arg \<mapsto> k + d))"
proof -
  have arg: "arg \<in> A" "he_hashable env arg" "ExtractArgs je (param_of tc) (ctx_Input ctx) = Ret (Some arg)"
    using assms(2) by (simp_all add: conc_context_def)
  obtain rw where rw: "ctx_Resource ctx = Some rw" "rw_name rw = res" using assms(2) by (auto simp: conc_context_def)
  obtain c found w' where c: "hm_ConcurrentCounter (hw_metrics (hm_world m) ! hb_metric (tc_base tc)) = Some c"
      "conc_get (hb_metric (tc_base tc)) c arg (hm_world m) = (found, w')"
      "conc_state A (tc_base tc) (case found of None \<Rightarrow> w' | Some p \<Rightarrow> hw_store p (hw_load p w' + d) w')
        (case f arg of None \<Rightarrow> f | Some k \<Rightarrow> f(arg \<mapsto> k + d))"
    by (rule conc_count [OF assms(3,4) arg(1)])
  define w1 where "w1 = (case found of None \<Rightarrow> w' | Some p \<Rightarrow> hw_store p (hw_load p w' + d) w')"
  have tc: "getTrafficControllersFor (rw_name rw) m = [tc]" "hr_MetricType (BoundRule tc) = HotConcurrency"
    using assms(1) rw(2) by (simp_all add: conc_resource_def)
  have "count_concurrency env je d (ctx_Input ctx) [tc] (hm_world m) = (Ret (), w1)"
    using arg(2,3) tc(2) c(1,2) by (simp add: BoundMetric_def w1_def)
  then have "hot_stat_hook env je d ctx m = (Ret (), m\<lparr>hm_world := w1\<rparr>)"
    by (simp add: hot_stat_hook_def rw(1) tc(1))
  with c(3) show ?thesis unfolding w1_def by blast
qed

lemma hot_blocked_IsBlocked: "hot_blocked env msg arg b v = Some tr \<Longrightarrow> tr_IsBlocked tr"
  by (auto simp: hot_blocked_def result_simps)

lemma conc_check_spec:
  assumes "conc_resource res tc m" and "conc_context env je res tc A ctx arg" and "conc_state A (tc_base tc) (hm_world m) f"
    and "finite A"
  shows "\<exists>w' r. hot_Slot_Check env je clk ctx m = Some (Ret r, [], m\<lparr>hm_world := w'\<rparr>) \<and>
    conc_state A (tc_base tc) w' (f(arg \<mapsto> case f arg of None \<Rightarrow> 0 | Some k \<Rightarrow> k)) \<and>
    (case r of None \<Rightarrow> False | Some tr \<Rightarrow> tr_IsBlocked tr) =
      (case f arg of None \<Rightarrow> False | Some k \<Rightarrow> \<not> k + 1 \<le>s hot_tokenCount env (tc_base tc) arg)"
proof -
  have arg: "arg \<in> A" "he_hashable env arg" "ExtractArgs je (param_of tc) (ctx_Input ctx) = Ret (Some arg)"
    "hot_needs_check (ctx_FromService ctx) (BoundRule tc)" "\<not> ctx_IsBlocked ctx"
    using assms(2) by (simp_all add: conc_context_def)
  obtain rw where rw: "ctx_Resource ctx = Some rw" "rw_name rw = res" using assms(2) by (auto simp: conc_context_def)
  let ?w = "hm_world m" and ?b = "tc_base tc"
  obtain w' r where w': "performCheckingForConcurrencyMetric env ?b arg ?w = (Ret r, w')"
      "conc_state A ?b w' (f(arg \<mapsto> case f arg of None \<Rightarrow> 0 | Some k \<Rightarrow> k))"
      "r = (case f arg of None \<Rightarrow> None | Some k \<Rightarrow> if k + 1 \<le>s hot_tokenCount env ?b arg then None else r)"
      "r = None \<or> (\<exists>msg v. r = hot_blocked env msg arg ?b v)"
      "r \<noteq> None \<longrightarrow> (\<exists>k. f arg = Some k \<and> \<not> k + 1 \<le>s hot_tokenCount env ?b arg)"
      "(\<exists>k. f arg = Some k \<and> \<not> k + 1 \<le>s hot_tokenCount env ?b arg) \<longrightarrow> r \<noteq> None"
  proof (cases "f arg")
    case None
    with conc_check [OF assms(3,4) arg(1,2)] show thesis by (auto intro!: that)
  next
    case (Some k)
    with conc_check [OF assms(3,4) arg(1,2)] obtain w' msg where "conc_state A ?b w' (f(arg \<mapsto> k))"
        "performCheckingForConcurrencyMetric env ?b arg ?w =
          (Ret (if k + 1 \<le>s hot_tokenCount env ?b arg then None else hot_blocked env msg arg ?b (Some (k + 1))), w')"
      by auto
    with Some show thesis
      by (intro that [of "if k + 1 \<le>s hot_tokenCount env ?b arg then None else hot_blocked env msg arg ?b (Some (k + 1))" w'])
        (auto simp: hot_blocked_def)
  qed
  have mt: "hr_MetricType (BoundRule tc) = HotConcurrency" "hb_metricType ?b = HotConcurrency" "HotConcurrency \<noteq> HotQPS"
    using assms(1) by (simp_all add: conc_resource_def HotConcurrency_def HotQPS_def)
  have loc: "hot_canPassLocalCheck env (clk 0) tc arg n ?w = Some (Ret r, w')" for n
    using w'(1) mt by (cases tc) (simp_all add: hot_canPassLocalCheck_def hot_PerformChecking_def
        reject_PerformChecking_def throttling_PerformChecking_def)
  have perf: "hot_canPassCheck env (clk 0) tc arg n ?w = Some (Ret r, w')" for n
    using mt by (simp add: hot_canPassCheck_def Let_def loc split: option.splits)
  have tcs: "getTrafficControllersFor (rw_name rw) m = [tc]" using assms(1) rw(2) by (simp add: conc_resource_def)
  show ?thesis
  proof (cases r)
    case None
    have "hot_Slot_Check env je clk ctx m = Some (Ret (ctx_RuleCheckResult ctx), [], m\<lparr>hm_world := w'\<rparr>)"
      using None perf arg rw tcs by (simp add: hot_Slot_Check_def)
    then show ?thesis
      using w'(2,6) None arg(5) by (intro exI [of _ w']) (auto simp: ctx_IsBlocked_def split: option.splits)
  next
    case (Some tr)
    from w'(4) Some obtain msg v where "hot_blocked env msg arg ?b v = Some tr" by (metis option.distinct(1))
    then have "tr_IsBlocked tr" by (rule hot_blocked_IsBlocked)
    then have bl: "tr_status tr = ResultStatusBlocked" "tr_IsBlocked tr" by (simp_all add: tr_IsBlocked_def)
    have "hot_Slot_Check env je clk ctx m = Some (Ret (Some tr), [], m\<lparr>hm_world := w'\<rparr>)"
      using Some perf arg rw tcs bl by (simp add: hot_Slot_Check_def)
    then show ?thesis
      using w'(2,5) Some bl by (intro exI [of _ w']) auto
  qed
qed

definition as_table :: "(go_value \<Rightarrow> i64 option) \<Rightarrow> go_value \<Rightarrow> int option" where
  "as_table f a = map_option sint (f a)"

lemma as_table_upd: "as_table (f(a \<mapsto> k)) = (as_table f)(a \<mapsto> sint k)"
  by (rule ext) (simp add: as_table_def)

lemma one_more:
  fixes x y n :: int
  assumes "\<bar>x\<bar> + 1 + n < 2 ^ 62" and "\<bar>y\<bar> = 1" and "0 \<le> n"
  shows "- (2 ^ 63) \<le> x + y" and "x + y < 2 ^ 63" and "\<bar>x + y\<bar> + n < 2 ^ 62"
  using assms by (simp_all add: abs_if split: if_splits)

lemma slots_follow_table:
  assumes "conc_resource res tc m" and "conc_state A (tc_base tc) (hm_world m) f" and "finite A"
    and "\<forall>(e, ctx) \<in> set evs. conc_context env je res tc A ctx (arg_of ctx)"
    and "\<forall>a k. f a = Some k \<longrightarrow> \<bar>sint k\<bar> + int (length evs) < 2 ^ 62"
    and "int (length evs) < 2 ^ 62"
  shows "\<exists>oks m' f'. slots_run env je clk evs m = (oks, m') \<and> conc_state A (tc_base tc) (hm_world m') f' \<and>
    table_run (conc_limit env (tc_base tc)) (map (\<lambda>(e, ctx). (e, arg_of ctx)) evs) (as_table f) = (oks, as_table f')"
  using assms(1,2,4,5,6)
proof (induction evs arbitrary: m f)
  case (Cons ev evs)
  obtain e ctx where ev: "ev = (e, ctx)" by fastforce
  define arg where "arg = arg_of ctx"
  have ctx: "conc_context env je res tc A ctx arg" and rest: "\<forall>(e, ctx) \<in> set evs. conc_context env je res tc A ctx (arg_of ctx)"
    using Cons.prems(3) by (auto simp: ev arg_def)
  have next_bound: "\<forall>a k. (f(arg \<mapsto> v)) a = Some k \<longrightarrow> \<bar>sint k\<bar> + int (length evs) < 2 ^ 62"
    if "\<bar>sint v\<bar> + int (length evs) < 2 ^ 62" for v
    using that Cons.prems(4) by (fastforce split: if_splits)
  have same_bound: "\<forall>a k. f a = Some k \<longrightarrow> \<bar>sint k\<bar> + int (length evs) < 2 ^ 62"
    using Cons.prems(4) by force
  have step: "sint (k + d) = sint k + sint d" "\<bar>sint (k + d)\<bar> + int (length evs) < 2 ^ 62"
    if "f arg = Some k" "\<bar>sint d\<bar> = 1" for k d :: i64
  proof -
    have k: "\<bar>sint k\<bar> + 1 + int (length evs) < 2 ^ 62" using Cons.prems(4) that(1) by fastforce
    note m = one_more [OF k that(2)]
    show "sint (k + d) = sint k + sint d" using m by (intro sint_add_small) simp_all
    then show "\<bar>sint (k + d)\<bar> + int (length evs) < 2 ^ 62" using m(3) by simp
  qed
  show ?case
  proof (cases e)
    case False
    obtain w' where h: "hot_stat_hook env je (- 1) ctx m = (Ret (), m\<lparr>hm_world := w'\<rparr>)"
        "conc_state A (tc_base tc) w' (case f arg of None \<Rightarrow> f | Some k \<Rightarrow> f(arg \<mapsto> k + - 1))"
      using hook_spec [OF Cons.prems(1) ctx Cons.prems(2) assms(3)] by metis
    let ?f = "case f arg of None \<Rightarrow> f | Some k \<Rightarrow> f(arg \<mapsto> k + - 1)"
    have b: "\<forall>a k. ?f a = Some k \<longrightarrow> \<bar>sint k\<bar> + int (length evs) < 2 ^ 62"
    proof (cases "f arg")
      case (Some k)
      with next_bound [OF step(2) [OF Some, of "- 1"]] show ?thesis by simp
    qed (use same_bound in simp)
    have t: "as_table ?f = (case as_table f arg of None \<Rightarrow> as_table f | Some k \<Rightarrow> (as_table f)(arg \<mapsto> k - 1))"
    proof (cases "f arg")
      case (Some k)
      have "as_table (f(arg \<mapsto> k + - 1)) = (as_table f)(arg \<mapsto> sint k - 1)"
        unfolding as_table_upd using step(1) [OF Some, of "- 1"] by simp
      with Some show ?thesis by (simp add: as_table_def [of f arg])
    qed (simp add: as_table_def [of f arg])
    obtain oks m' f' where IH: "slots_run env je clk evs (m\<lparr>hm_world := w'\<rparr>) = (oks, m')"
        "conc_state A (tc_base tc) (hm_world m') f'"
        "table_run (conc_limit env (tc_base tc)) (map (\<lambda>(e, ctx). (e, arg_of ctx)) evs) (as_table ?f) = (oks, as_table f')"
      using Cons.IH [of "m\<lparr>hm_world := w'\<rparr>" ?f] Cons.prems(1) h(2) rest b Cons.prems(5) by auto
    then show ?thesis
      unfolding t by (auto simp: ev False hot_OnCompleted_def h(1) simp flip: arg_def)
  next
    case True
    obtain w1 r where c: "hot_Slot_Check env je clk ctx m = Some (Ret r, [], m\<lparr>hm_world := w1\<rparr>)"
        "conc_state A (tc_base tc) w1 (f(arg \<mapsto> case f arg of None \<Rightarrow> 0 | Some k \<Rightarrow> k))"
        "(case r of None \<Rightarrow> False | Some tr \<Rightarrow> tr_IsBlocked tr) =
          (case f arg of None \<Rightarrow> False | Some k \<Rightarrow> \<not> k + 1 \<le>s hot_tokenCount env (tc_base tc) arg)"
      using conc_check_spec [OF Cons.prems(1) ctx Cons.prems(2) assms(3)] by metis
    show ?thesis
    proof (cases "\<exists>k. f arg = Some k \<and> \<not> k + 1 \<le>s hot_tokenCount env (tc_base tc) arg")
      case blocked: True
      then obtain k where k: "f arg = Some k" "\<not> k + 1 \<le>s hot_tokenCount env (tc_base tc) arg" by blast
      have f: "f(arg \<mapsto> k) = f" using k(1) by auto
      obtain oks m' f' where IH: "slots_run env je clk evs (m\<lparr>hm_world := w1\<rparr>) = (oks, m')"
          "conc_state A (tc_base tc) (hm_world m') f'"
          "table_run (conc_limit env (tc_base tc)) (map (\<lambda>(e, ctx). (e, arg_of ctx)) evs) (as_table f) = (oks, as_table f')"
        using Cons.IH [of "m\<lparr>hm_world := w1\<rparr>" f] Cons.prems(1) c(2) rest same_bound k(1) Cons.prems(5) by (auto simp: f)
      have "\<not> sint k + 1 \<le> conc_limit env (tc_base tc) arg"
        using k(2) step(1) [OF k(1), of 1] by (simp add: word_sle_eq conc_limit_def)
      moreover have "as_table f arg = Some (sint k)" using k(1) by (simp add: as_table_def)
      moreover obtain tr where "r = Some tr" "tr_IsBlocked tr" using c(3) k by (cases r) auto
      ultimately show ?thesis using IH by (auto simp: ev True c(1) simp flip: arg_def)
    next
      case passed: False
      define v where "v = (case f arg of None \<Rightarrow> 0 | Some k \<Rightarrow> k) + (1 :: i64)"
      let ?m1 = "m\<lparr>hm_world := w1\<rparr>"
      obtain w2 where h: "hot_stat_hook env je 1 ctx ?m1 = (Ret (), m\<lparr>hm_world := w2\<rparr>)"
          "conc_state A (tc_base tc) w2 (f(arg \<mapsto> v))"
        using hook_spec [of res tc ?m1 env je A ctx arg "f(arg \<mapsto> case f arg of None \<Rightarrow> 0 | Some k \<Rightarrow> k)" 1] Cons.prems(1) ctx c(2) assms(3)
        by (auto simp: v_def)
      have bl: "\<not> (case r of None \<Rightarrow> False | Some tr \<Rightarrow> tr_IsBlocked tr)" using c(3) passed by (auto split: option.splits)
      have run: "slots_run env je clk (ev # evs) m = map_prod (Cons True) id (slots_run env je clk evs (m\<lparr>hm_world := w2\<rparr>))"
        using bl by (auto simp: ev True c(1) hot_OnEntryPassed_def h(1) split: option.splits)
      have b: "\<bar>sint v\<bar> + int (length evs) < 2 ^ 62"
      proof (cases "f arg")
        case None
        then show ?thesis using Cons.prems(5) by (simp add: v_def)
      next
        case (Some k)
        then show ?thesis using step(2) [OF Some, of 1] by (simp add: v_def)
      qed
      obtain oks m' f' where IH: "slots_run env je clk evs (m\<lparr>hm_world := w2\<rparr>) = (oks, m')"
          "conc_state A (tc_base tc) (hm_world m') f'"
          "table_run (conc_limit env (tc_base tc)) (map (\<lambda>(e, ctx). (e, arg_of ctx)) evs) (as_table (f(arg \<mapsto> v))) = (oks, as_table f')"
      proof -
        have "conc_resource res tc (m\<lparr>hm_world := w2\<rparr>)" "conc_state A (tc_base tc) (hm_world (m\<lparr>hm_world := w2\<rparr>)) (f(arg \<mapsto> v))"
          "int (length evs) < 2 ^ 62" using Cons.prems(1,5) h(2) by simp_all
        from Cons.IH [OF this(1,2) rest next_bound [OF b] this(3)] show thesis using that by blast
      qed
      have tbl: "table_run (conc_limit env (tc_base tc)) ((True, arg) # map (\<lambda>(e, ctx). (e, arg_of ctx)) evs) (as_table f) =
          map_prod (Cons True) id (table_run (conc_limit env (tc_base tc)) (map (\<lambda>(e, ctx). (e, arg_of ctx)) evs) (as_table (f(arg \<mapsto> v))))"
      proof (cases "f arg")
        case None
        then show ?thesis unfolding as_table_upd by (simp add: as_table_def [of f arg] v_def)
      next
        case (Some k)
        have "sint k + 1 \<le> conc_limit env (tc_base tc) arg"
          using passed Some step(1) [OF Some, of 1] by (simp add: word_sle_eq conc_limit_def)
        then show ?thesis
          unfolding as_table_upd using Some step(1) [OF Some, of 1] by (simp add: as_table_def [of f arg] v_def)
      qed
      show ?thesis using IH tbl run by (auto simp: ev True simp flip: arg_def)
    qed
  qed
qed auto

text \<open>
  C28: The slots limit the calls in flight of each argument, but for the first call. Take a fresh controller
  of a concurrency rule that is the only rule of its resource, and any sequence of entries and exits of
  the resource, one after the other, by calls the rule applies to, with no more distinct arguments than the
  cache of the controller holds. Then the answers are those of a table of the calls in flight per argument,
  counted up when one passes and down when one ends, that lets a call pass when it is the first ever of
  its argument, whatever the limit, or still is within the limit; so no argument ever has more in flight
  than its limit, or one call if the limit is less.
\<close>

theorem hot_concurrency_limits:
  assumes "newBaseTrafficShapingController r w0 = (Some (b, r'), w)" and "hr_MetricType r = HotConcurrency"
    and "hm_world m = w" and "tc_base tc = b" and "conc_resource res tc m"
    and "\<forall>(e, ctx) \<in> set evs. conc_context env je res tc A ctx (arg_of ctx)"
    and "finite A" and "card A \<le> nat (sint (concurrency_size r))" and "int (length evs) < 2 ^ 62"
    and "slots_run env je clk evs m = (oks, m')"
  shows "\<exists>flights. table_run (conc_limit env b) (map (\<lambda>(e, ctx). (e, arg_of ctx)) evs) Map.empty = (oks, flights) \<and>
    (\<forall>a k. flights a = Some k \<longrightarrow> k \<le> max 1 (conc_limit env b a))"
proof -
  have pos: "0 < sint (concurrency_size r)"
    by (simp add: concurrency_size_def word_sless_alt ConcurrencyMaxCount_def)
  obtain c :: "(go_value, nat) lru" where c: "NewLRUCacheMap (sint (concurrency_size r)) = Some c" "cache_ok c" "entries c = []"
      "cache_cap c = nat (sint (concurrency_size r))"
    using NewLRUCacheMap_ok [OF pos] by metis
  have ty: "HotConcurrency \<noteq> HotQPS" by (simp add: HotConcurrency_def HotQPS_def)
  have "conc_metric b w c"
    using assms(1,2) c(1) ty by (auto simp: newBaseTrafficShapingController_def newBaseTrafficShapingControllerWithMetric_def
        conc_metric_def Let_def)
  then have st: "conc_state A (tc_base tc) (hm_world m) Map.empty"
    unfolding conc_state_def assms(3,4) using c(2,3,4) assms(8)
    by (intro exI [of _ c]) (auto simp: cells_ok_def counters_def)
  have empty: "as_table Map.empty = Map.empty" by (simp add: as_table_def fun_eq_iff)
  have none: "\<forall>a k. Map.empty a = Some (k :: i64) \<longrightarrow> \<bar>sint k\<bar> + int (length evs) < 2 ^ 62" by simp
  from slots_follow_table [OF assms(5) st assms(7,6) none assms(9), of clk] assms(10)
  obtain f' where tbl: "table_run (conc_limit env b) (map (\<lambda>(e, ctx). (e, arg_of ctx)) evs) Map.empty = (oks, as_table f')"
    unfolding assms(4) empty by auto
  have "\<forall>k. as_table f' a = Some k \<longrightarrow> k \<le> max 1 (conc_limit env b a)" for a
    by (rule table_bound [OF _ tbl]) simp
  with tbl show ?thesis by blast
qed

text \<open>One call at a time per user; the second call of \<open>u\<close> is refused until the first has ended.\<close>

definition demo_conc_rule :: hot_rule where
  "demo_conc_rule = demo_hot_rule\<lparr>hr_MetricType := HotConcurrency, hr_Threshold := Fin 1\<rparr>"

definition demo_json_env :: json_env where
  "demo_json_env = \<lparr>je_is_struct = \<lambda>_. False, je_marshal = \<lambda>_. [], je_get = \<lambda>_ _. None, je_get_bool = \<lambda>_ _. False,
     je_get_float = \<lambda>_ _. Fin 0\<rparr>"

definition demo_call :: "string \<Rightarrow> hot_context" where
  "demo_call u = NewPooledContext\<lparr>ctx_Resource := Some (NewResourceWrapper ''api'' ResTypeCommon Inbound),
     ctx_Input := (ctx_Input (NewPooledContext :: hot_context))\<lparr>in_Args := [VString u]\<rparr>\<rparr>"

definition demo_events :: "(bool \<times> hot_context) list" where
  "demo_events = [(True, demo_call ''u''), (True, demo_call ''u''), (True, demo_call ''v''), (False, demo_call ''u''), (True, demo_call ''u'')]"

lemma demo_conc:
  "\<exists>b r' w. newBaseTrafficShapingController demo_conc_rule \<lparr>hw_metrics = [], hw_cells = []\<rparr> = (Some (b, r'), w) \<and>
    hb_threshold b = Fin 1 \<and> hb_specificItems b = [] \<and> hb_metricType b = HotConcurrency \<and> hb_paramIndex b = 0 \<and>
    hb_paramKey b = [] \<and> hb_paramSource b = 1 \<and> hr_MetricType (hb_r b) = HotConcurrency \<and> hr_LimitApp (hb_r b) = []"
proof -
  have "HotConcurrency \<noteq> HotQPS" by (simp add: HotConcurrency_def HotQPS_def)
  then show ?thesis
    by (simp add: newBaseTrafficShapingController_def newBaseTrafficShapingControllerWithMetric_def demo_conc_rule_def
        demo_hot_rule_def Let_def)
qed

theorem hot_concurrency_limits_witness:
  "\<exists>b r' w m'. newBaseTrafficShapingController demo_conc_rule \<lparr>hw_metrics = [], hw_cells = []\<rparr> = (Some (b, r'), w) \<and>
    slots_run demo_hot_env demo_json_env (\<lambda>_ _. 0) demo_events
      \<lparr>hm_tcMap = [(''api'', [RejectTc b 0])], hm_currentRules = [], hm_world = w\<rparr> = ([True, False, True, True, True], m')"
proof -
  obtain b r' w where new: "newBaseTrafficShapingController demo_conc_rule \<lparr>hw_metrics = [], hw_cells = []\<rparr> = (Some (b, r'), w)"
      and b: "hb_threshold b = Fin 1" "hb_specificItems b = []" "hb_metricType b = HotConcurrency" "hb_paramIndex b = 0"
        "hb_paramKey b = []" "hb_paramSource b = 1" "hr_MetricType (hb_r b) = HotConcurrency" "hr_LimitApp (hb_r b) = []"
    using demo_conc by blast
  let ?m = "\<lparr>hm_tcMap = [(''api'', [RejectTc b 0])], hm_currentRules = [], hm_world = w\<rparr>"
  let ?arg = "\<lambda>ctx. hd (in_Args (ctx_Input ctx))"
  obtain oks m' where run: "slots_run demo_hot_env demo_json_env (\<lambda>_ _. 0) demo_events ?m = (oks, m')" by fastforce
  have xtr: "ExtractArgs demo_json_env (param_of (RejectTc b 0)) (ctx_Input (demo_call u)) = Ret (Some (VString u))"
    if "u = ''u'' \<or> u = ''v''" for u
    using that
    by (auto simp: ExtractArgs_def extractAttachmentArgs_def extractHeader_def extractMetadata_def extractArgs_def param_of_def
        b demo_call_def demo_json_env_def ParameterTypeHeader_def ParameterTypeMetadata_def NewPooledContext_def)
  have ctxs: "conc_context demo_hot_env demo_json_env ''api'' (RejectTc b 0) {VString ''u'', VString ''v''} (demo_call u) (VString u)"
    if "u = ''u'' \<or> u = ''v''" for u
    using that xtr [OF that] by (auto simp: conc_context_def demo_hot_env_def hot_needs_check_def BoundRule_def b ctx_IsBlocked_def
        demo_call_def NewPooledContext_def NewResourceWrapper_def result_simps NewTokenResultPass_IsPass)
  have res: "conc_resource ''api'' (RejectTc b 0) ?m"
    by (simp add: conc_resource_def getTrafficControllersFor_def mget_list_def BoundRule_def b)
  have arg: "?arg (demo_call u) = VString u" for u by (simp add: demo_call_def)
  have evs: "\<forall>(e, ctx) \<in> set demo_events.
      conc_context demo_hot_env demo_json_env ''api'' (RejectTc b 0) {VString ''u'', VString ''v''} ctx (?arg ctx)"
    using ctxs [of "''u''"] ctxs [of "''v''"] by (simp add: demo_events_def arg)
  have "nat (sint (concurrency_size demo_conc_rule)) = 10"
    by (simp add: concurrency_size_def demo_conc_rule_def demo_hot_rule_def word_sless_alt)
  then have sz: "card {VString ''u'', VString ''v''} \<le> nat (sint (concurrency_size demo_conc_rule))" by simp
  have "\<exists>flights. table_run (conc_limit demo_hot_env b) (map (\<lambda>(e, ctx). (e, ?arg ctx)) demo_events) Map.empty = (oks, flights) \<and>
      (\<forall>a k. flights a = Some k \<longrightarrow> k \<le> max 1 (conc_limit demo_hot_env b a))"
    by (rule hot_concurrency_limits [OF new _ _ _ res evs _ sz _ run])
      (simp_all add: demo_conc_rule_def demo_events_def)
  moreover have "conc_limit demo_hot_env b a = 1" for a
    by (simp add: conc_limit_def hot_tokenCount_def b ftrunc_def)
  ultimately have "oks = [True, False, True, True, True]"
    by (auto simp: demo_events_def arg)
  with new run show ?thesis by blast
qed

end
