(* ===== verification/HotspotManagerProps.thy ===== *)
theory HotspotManagerProps
  imports HotspotSlot HotspotFlights
begin

text \<open>
  What the rule manager of hot parameters keeps true through loads, checks and counts: the controllers in
  use are built from their rules, have the counters their metric type needs, and share none.
\<close>

section \<open>Typed controllers\<close>

definition counters_typed :: "i32 \<Rightarrow> hot_metric \<Rightarrow> bool" where
  "counters_typed ty m \<longleftrightarrow>
     (ty = HotQPS \<and> hm_RuleTimeCounter m \<noteq> None \<and> hm_RuleTokenCounter m \<noteq> None) \<or>
     (ty = HotConcurrency \<and> hm_ConcurrentCounter m \<noteq> None)"

text \<open>A controller is what its generator makes of its rule and its metric.\<close>

definition built :: "hot_controller \<Rightarrow> bool" where
  "built tc \<longleftrightarrow> newBaseTrafficShapingControllerWithMetric (BoundRule tc) (BoundMetric tc) = (tc_base tc, BoundRule tc) \<and>
     tc = (if hr_ControlBehavior (BoundRule tc) = HotReject then RejectTc (tc_base tc) (hr_BurstCount (BoundRule tc))
           else ThrottlingTc (tc_base tc) (hr_MaxQueueingTimeMs (BoundRule tc)))"

definition typed_in :: "hot_world \<Rightarrow> hot_controller \<Rightarrow> bool" where
  "typed_in w tc \<longleftrightarrow> built tc \<and> hot_supported (BoundRule tc) \<and> BoundMetric tc < length (hw_metrics w) \<and>
     counters_typed (hr_MetricType (BoundRule tc)) (hw_metrics w ! BoundMetric tc)"

text \<open>One world can follow another when every metric keeps the counters it has.\<close>

definition keeps :: "hot_world \<Rightarrow> hot_world \<Rightarrow> bool" where
  "keeps w w' \<longleftrightarrow> length (hw_metrics w) \<le> length (hw_metrics w') \<and>
     (\<forall>i < length (hw_metrics w). \<forall>ty. counters_typed ty (hw_metrics w ! i) \<longrightarrow> counters_typed ty (hw_metrics w' ! i))"

lemma keeps_refl [simp]: "keeps w w"
  by (simp add: keeps_def)

lemma keeps_trans: "keeps w w' \<Longrightarrow> keeps w' w'' \<Longrightarrow> keeps w w''"
  by (meson keeps_def le_trans less_le_trans)

lemma typed_keeps: "typed_in w tc \<Longrightarrow> keeps w w' \<Longrightarrow> typed_in w' tc"
  unfolding typed_in_def keeps_def by (meson less_le_trans)

section \<open>Generators\<close>

lemma built_gen:
  assumes "newBaseTrafficShapingControllerWithMetric r metric = (b, r')"
  shows "hb_r b = r' \<and> hb_metric b = metric \<and> newBaseTrafficShapingControllerWithMetric r' metric = (b, r') \<and>
    hr_MetricType r' = hr_MetricType r \<and> hr_Resource r' = hr_Resource r \<and> hr_ControlBehavior r' = hr_ControlBehavior r"
  using assms by (auto simp: newBaseTrafficShapingControllerWithMetric_def Let_def split: if_splits)

text \<open>The rule as its controller keeps it.\<close>

definition settled :: "hot_rule \<Rightarrow> hot_rule" where
  "settled r = (if hr_SpecificItems r = None then r\<lparr>hr_SpecificItems := Some []\<rparr> else r)"

lemma settled_fields [simp]:
  "hr_Resource (settled r) = hr_Resource r" "hr_MetricType (settled r) = hr_MetricType r"
  "hr_ControlBehavior (settled r) = hr_ControlBehavior r" "settled (settled r) = settled r"
  by (simp_all add: settled_def)

lemma newBase_settled: "snd (newBaseTrafficShapingControllerWithMetric r metric) = settled r"
  by (simp add: newBaseTrafficShapingControllerWithMetric_def settled_def Let_def)

lemma gen_reuse:
  assumes "hot_tcGenFunc r (Some metric) w = (x, w')"
  shows "w' = w \<and> (\<exists>tc. x = Some (tc, settled r) \<and> built tc \<and> BoundMetric tc = metric \<and> BoundRule tc = settled r)"
proof -
  obtain b r' where b: "newBaseTrafficShapingControllerWithMetric r metric = (b, r')" by fastforce
  have r': "r' = settled r" using newBase_settled [of r metric] b by simp
  note g = built_gen [OF b]
  show ?thesis
    using assms b g by (auto simp: hot_tcGenFunc_def built_def BoundRule_def BoundMetric_def r' Let_def split: if_splits)
qed

lemma qps_size_positive: "0 < sint (qps_size r)"
  by (auto simp: qps_size_def Let_def word_sle_eq word_sless_alt ParamsMaxCapacity_def)

lemma concurrency_size_positive: "0 < sint (concurrency_size r)"
  by (simp add: concurrency_size_def word_sless_alt ConcurrencyMaxCount_def)

lemma NewLRUCacheMap_pos: "0 < n \<Longrightarrow> NewLRUCacheMap n \<noteq> None"
  by (simp add: NewLRUCacheMap_def NewLRU_def)

lemma gen_fresh:
  assumes "hot_tcGenFunc r None w = (x, w')"
  shows "keeps w w' \<and>
    (if hr_MetricType r \<in> {HotQPS, HotConcurrency}
     then \<exists>tc. x = Some (tc, settled r) \<and> built tc \<and> BoundMetric tc = length (hw_metrics w) \<and> BoundRule tc = settled r \<and>
        length (hw_metrics w') = Suc (length (hw_metrics w)) \<and> (hot_supported r \<longrightarrow> typed_in w' tc)
     else x = None \<and> w' = w)"
proof (cases "hr_MetricType r \<in> {HotQPS, HotConcurrency}")
  case False
  then show ?thesis using assms by (auto simp: hot_tcGenFunc_def newBaseTrafficShapingController_def Let_def)
next
  case True
  obtain b r' where b: "newBaseTrafficShapingControllerWithMetric r (length (hw_metrics w)) = (b, r')" by fastforce
  have r': "r' = settled r" using newBase_settled [of r] b by (metis snd_conv)
  note g = built_gen [OF b]
  have ty: "HotConcurrency \<noteq> HotQPS" by (simp add: HotConcurrency_def HotQPS_def)
  obtain mt where mt: "newBaseTrafficShapingController r w = (Some (b, r'), w\<lparr>hw_metrics := hw_metrics w @ [mt]\<rparr>)"
      "counters_typed (hr_MetricType r) mt"
  proof (cases "hr_MetricType r = HotQPS")
    case True
    then show thesis
      using NewLRUCacheMap_pos [OF qps_size_positive [of r]] b
      by (intro that) (auto simp: newBaseTrafficShapingController_def counters_typed_def Let_def)
  next
    case False
    then show thesis
      using NewLRUCacheMap_pos [OF concurrency_size_positive [of r]] b True ty
      by (intro that) (auto simp: newBaseTrafficShapingController_def counters_typed_def Let_def)
  qed
  have w': "w' = w\<lparr>hw_metrics := hw_metrics w @ [mt]\<rparr>"
    and x: "x = Some (if hr_ControlBehavior r' = HotReject then RejectTc b (hr_BurstCount r') else ThrottlingTc b (hr_MaxQueueingTimeMs r'), r')"
    using assms mt(1) by (auto simp: hot_tcGenFunc_def)
  have k: "keeps w w'" by (auto simp: keeps_def w' nth_append)
  show ?thesis
    using k True g mt(2) unfolding x
    by (auto simp: built_def BoundRule_def BoundMetric_def typed_in_def w' nth_append r' hot_supported_def split: if_splits)
qed

section \<open>The build loop\<close>

text \<open>
  What the loop over the rules of a resource keeps: the metrics of the new controllers and the old ones
  left are all different, and a new controller's metric is an old one's or was made after \<open>n\<close>.
\<close>

definition build_inv :: "string \<Rightarrow> nat \<Rightarrow> nat set \<Rightarrow> hot_build \<Rightarrow> bool" where
  "build_inv res n olds b \<longleftrightarrow>
     distinct (map BoundMetric (hbd_new b @ hbd_old b)) \<and> n \<le> length (hw_metrics (hbd_world b)) \<and>
     (\<forall>tc \<in> set (hbd_new b @ hbd_old b). typed_in (hbd_world b) tc \<and> hr_Resource (BoundRule tc) = res) \<and>
     (\<forall>tc \<in> set (hbd_new b). BoundMetric tc \<in> olds \<or> n \<le> BoundMetric tc) \<and> BoundMetric ` set (hbd_old b) \<subseteq> olds"

text \<open>A controller stands for a rule: it was built for it, or for a rule that equals it.\<close>

definition implements :: "hot_controller \<Rightarrow> hot_rule \<Rightarrow> bool" where
  "implements tc r \<longleftrightarrow> BoundRule tc = settled r \<or> hot_Equals (BoundRule tc) r = Ret True"

definition loadable :: "string \<Rightarrow> hot_rule \<Rightarrow> bool" where
  "loadable res r \<longleftrightarrow> hr_Resource r = res \<and> hot_supported r \<and> hr_MetricType r \<in> {HotQPS, HotConcurrency}"

lemma Equals_fields:
  "hot_Equals r n = Ret True \<Longrightarrow> hr_Resource r = hr_Resource n \<and> hr_MetricType r = hr_MetricType n \<and>
    hr_ControlBehavior r = hr_ControlBehavior n"
  by (auto simp: hot_Equals_def Let_def split: if_splits option.splits)

lemma reuse_range:
  assumes "hot_calculateReuseIndexFor r olds = Ret (e, s)"
  shows "(e = - 1 \<or> 0 \<le> e \<and> nat e < length olds \<and> hot_Equals (BoundRule (olds ! nat e)) r = Ret True) \<and>
    (s = - 1 \<or> 0 \<le> s \<and> nat s < length olds \<and> IsStatReusable (BoundRule (olds ! nat s)) r)"
  using reuse_loop_go_range [OF assms [unfolded hot_calculateReuseIndexFor_def]] by (auto simp: nat_less_iff)

lemma build_inv_typed: "build_inv res n olds b \<Longrightarrow> tc \<in> set (hbd_new b @ hbd_old b) \<Longrightarrow> typed_in (hbd_world b) tc \<and> hr_Resource (BoundRule tc) = res"
  unfolding build_inv_def by blast

lemma typed_in_range: "typed_in w tc \<Longrightarrow> BoundMetric tc < length (hw_metrics w)"
  by (simp add: typed_in_def)

lemma build_inv_skip [simp]: "build_inv res n olds (b\<lparr>hbd_rules := rs\<rparr>) = build_inv res n olds b"
  by (simp add: build_inv_def)

lemma build_inv_move:
  assumes "build_inv res n olds b" and "i < length (hbd_old b)"
    and "hbd_new b' = hbd_new b @ [hbd_old b ! i]" and "hbd_old b' = remove_nth i (hbd_old b)" and "hbd_world b' = hbd_world b"
  shows "build_inv res n olds b'"
proof -
  have mem: "hbd_old b ! i \<in> set (hbd_old b)" using assms(2) by simp
  have d: "distinct (map BoundMetric (hbd_old b))" "distinct (map BoundMetric (hbd_new b))"
    "BoundMetric ` set (hbd_new b) \<inter> BoundMetric ` set (hbd_old b) = {}"
    using assms(1) by (auto simp: build_inv_def)
  note r = distinct_remove_nth [OF d(1) assms(2)]
  have sub: "set (remove_nth i (hbd_old b)) \<subseteq> set (hbd_old b)" by (rule set_remove_nth)
  show ?thesis
    using assms(1) mem d r sub unfolding build_inv_def assms(3-5) by (auto 0 4)
qed

lemma build_inv_reuse:
  assumes "build_inv res n olds b" and "i < length (hbd_old b)" and "BoundMetric tc = BoundMetric (hbd_old b ! i)"
    and "typed_in (hbd_world b) tc" and "hr_Resource (BoundRule tc) = res"
    and "hbd_new b' = hbd_new b @ [tc]" and "hbd_old b' = remove_nth i (hbd_old b)" and "hbd_world b' = hbd_world b"
  shows "build_inv res n olds b'"
proof -
  have mem: "hbd_old b ! i \<in> set (hbd_old b)" using assms(2) by simp
  have d: "distinct (map BoundMetric (hbd_old b))" "distinct (map BoundMetric (hbd_new b))"
    "BoundMetric ` set (hbd_new b) \<inter> BoundMetric ` set (hbd_old b) = {}"
    using assms(1) by (auto simp: build_inv_def)
  note r = distinct_remove_nth [OF d(1) assms(2)]
  have sub: "set (remove_nth i (hbd_old b)) \<subseteq> set (hbd_old b)" by (rule set_remove_nth)
  have tm: "BoundMetric tc \<in> BoundMetric ` set (hbd_old b)" using mem assms(3) by force
  show ?thesis
    using assms(1,4,5) tm d r sub unfolding build_inv_def assms(6-8) assms(3) [symmetric] by (auto 0 4)
qed

lemma build_inv_fresh:
  assumes "build_inv res n olds b" and "keeps (hbd_world b) w'" and "BoundMetric tc = length (hw_metrics (hbd_world b))"
    and "typed_in w' tc" and "hr_Resource (BoundRule tc) = res"
    and "hbd_new b' = hbd_new b @ [tc]" and "hbd_old b' = hbd_old b" and "hbd_world b' = w'"
  shows "build_inv res n olds b'"
proof -
  have "BoundMetric t \<noteq> length (hw_metrics (hbd_world b))" if "t \<in> set (hbd_new b @ hbd_old b)" for t
    using build_inv_typed [OF assms(1) that] typed_in_range [of "hbd_world b" t] by simp
  then have new: "BoundMetric tc \<notin> BoundMetric ` set (hbd_new b)" "BoundMetric tc \<notin> BoundMetric ` set (hbd_old b)"
    unfolding assms(3) by force+
  have t: "typed_in w' t" if "t \<in> set (hbd_new b @ hbd_old b)" for t
    using build_inv_typed [OF assms(1) that] typed_keeps [OF _ assms(2)] by blast
  have le: "length (hw_metrics (hbd_world b)) \<le> length (hw_metrics w')" using assms(2) by (simp add: keeps_def)
  have a: "distinct (map BoundMetric (hbd_new b @ hbd_old b))" "n \<le> length (hw_metrics (hbd_world b))"
    "\<forall>tc \<in> set (hbd_new b @ hbd_old b). hr_Resource (BoundRule tc) = res"
    "\<forall>tc \<in> set (hbd_new b). BoundMetric tc \<in> olds \<or> n \<le> BoundMetric tc" "BoundMetric ` set (hbd_old b) \<subseteq> olds"
    using assms(1) unfolding build_inv_def by blast+
  have "distinct (map BoundMetric ((hbd_new b @ [tc]) @ hbd_old b))" using a(1) new by auto
  moreover have "n \<le> length (hw_metrics w')" using a(2) le by simp
  moreover have "\<forall>t \<in> set ((hbd_new b @ [tc]) @ hbd_old b). typed_in w' t \<and> hr_Resource (BoundRule t) = res"
    using t a(3) assms(4,5) by simp
  moreover have "\<forall>t \<in> set (hbd_new b @ [tc]). BoundMetric t \<in> olds \<or> n \<le> BoundMetric t"
    using a(2,4) assms(3) by simp
  ultimately show ?thesis unfolding build_inv_def assms(6-8) using a(5) by blast
qed

lemma build_one_inv:
  assumes inv: "build_inv res n olds b" and step: "hot_build_one res r b = (x, b')"
  shows "keeps (hbd_world b) (hbd_world b') \<and>
    (x = Ret () \<longrightarrow> build_inv res n olds b' \<and>
       (\<exists>tcs. hbd_new b' = hbd_new b @ tcs \<and> list_all2 implements tcs (filter (loadable res) [r])))"
proof (cases "res = hr_Resource r")
  case False
  then show ?thesis using inv step by (auto simp: hot_build_one_def loadable_def)
next
  case res: True
  show ?thesis
  proof (cases "hot_calculateReuseIndexFor r (hbd_old b)")
    case (Ret es)
    obtain e s where es: "es = (e, s)" by fastforce
    note range = reuse_range [OF Ret [unfolded es]]
    have old: "typed_in (hbd_world b) tc \<and> hr_Resource (BoundRule tc) = res" if "tc \<in> set (hbd_old b)" for tc
      using inv that by (auto simp: build_inv_def)
    show ?thesis
    proof (cases "0 \<le> e")
      case True
      then have i: "nat e < length (hbd_old b)" "hot_Equals (BoundRule (hbd_old b ! nat e)) r = Ret True" using range by auto
      have "loadable res r"
        using old [OF nth_mem [OF i(1)]] Equals_fields [OF i(2)]
        by (auto simp: loadable_def typed_in_def counters_typed_def hot_supported_def res)
      then show ?thesis
        using step Ret True res build_inv_move [OF inv i(1), of b'] i(2)
        by (auto simp: hot_build_one_def es implements_def Let_def)
    next
      case neg: False
      show ?thesis
      proof (cases "hot_supported r")
        case False
        then show ?thesis
          using step Ret neg res inv by (auto simp: hot_build_one_def es loadable_def Let_def)
      next
        case sup: True
        show ?thesis
        proof (cases "0 \<le> s")
          case True
          then have i: "nat s < length (hbd_old b)" "IsStatReusable (BoundRule (hbd_old b ! nat s)) r" using range by auto
          obtain y w' where gen: "hot_tcGenFunc r (Some (BoundMetric (hbd_old b ! nat s))) (hbd_world b) = (y, w')" by fastforce
          obtain tc where tc: "w' = hbd_world b" "y = Some (tc, settled r)" "built tc"
              "BoundMetric tc = BoundMetric (hbd_old b ! nat s)" "BoundRule tc = settled r"
            using gen_reuse [OF gen] by auto
          have o: "typed_in (hbd_world b) (hbd_old b ! nat s)" using old [OF nth_mem [OF i(1)]] by simp
          have mty: "hr_MetricType r = hr_MetricType (BoundRule (hbd_old b ! nat s))" using i(2) by (simp add: IsStatReusable_def)
          have ty: "typed_in (hbd_world b) tc"
            using o tc(3,4,5) sup mty by (simp add: typed_in_def hot_supported_def)
          have "loadable res r" using o mty sup by (auto simp: loadable_def res typed_in_def counters_typed_def)
          then show ?thesis
            using step Ret neg res sup True build_inv_reuse [OF inv i(1) tc(4) ty, of b'] tc(5)
            by (auto simp: hot_build_one_def es gen tc(1,2) implements_def Let_def)
        next
          case False
          obtain y w' where gen: "hot_tcGenFunc r None (hbd_world b) = (y, w')" by fastforce
          note f = gen_fresh [OF gen]
          show ?thesis
          proof (cases "hr_MetricType r \<in> {HotQPS, HotConcurrency}")
            case True
            then obtain tc where tc: "y = Some (tc, settled r)" "BoundMetric tc = length (hw_metrics (hbd_world b))"
                "BoundRule tc = settled r" "typed_in w' tc" "keeps (hbd_world b) w'"
              using f sup by auto
            have "loadable res r" using True sup by (simp add: loadable_def res)
            then show ?thesis
              using step Ret neg res sup False build_inv_fresh [OF inv tc(5,2,4), of b'] tc(3,5)
              by (auto simp: hot_build_one_def es gen tc(1) implements_def Let_def)
          next
            case False
            then show ?thesis
              using step Ret neg res sup \<open>\<not> 0 \<le> s\<close> f inv
              by (auto simp: hot_build_one_def es gen loadable_def Let_def)
          qed
        qed
      qed
    qed
  qed (use step res in \<open>auto simp: hot_build_one_def\<close>)
qed

lemma hot_build_all_inv:
  assumes "build_inv res n olds b" and "hot_build_all res rs b = (x, b')"
  shows "keeps (hbd_world b) (hbd_world b') \<and>
    (x = Ret () \<longrightarrow> build_inv res n olds b' \<and>
       (\<exists>tcs. hbd_new b' = hbd_new b @ tcs \<and> list_all2 implements tcs (filter (loadable res) rs)))"
  using assms
proof (induction rs arbitrary: b)
  case (Cons r rs)
  obtain y b1 where one: "hot_build_one res r b = (y, b1)" by fastforce
  note i = build_one_inv [OF Cons.prems(1) one]
  show ?case
  proof (cases y)
    case (Ret u)
    then have y: "y = Ret ()" by simp
    have rest: "hot_build_all res rs b1 = (x, b')" using Cons.prems(2) by (simp add: one y)
    obtain tcs1 where 1: "hbd_new b1 = hbd_new b @ tcs1" "list_all2 implements tcs1 (filter (loadable res) [r])"
      "build_inv res n olds b1" using i y by auto
    note IH = Cons.IH [OF 1(3) rest]
    show ?thesis
    proof (intro conjI impI)
      show "keeps (hbd_world b) (hbd_world b')" using i IH keeps_trans by blast
      assume "x = Ret ()"
      then obtain tcs2 where 2: "build_inv res n olds b'" "hbd_new b' = hbd_new b1 @ tcs2"
        "list_all2 implements tcs2 (filter (loadable res) rs)" using IH by auto
      show "build_inv res n olds b'" by (rule 2(1))
      have "list_all2 implements (tcs1 @ tcs2) (filter (loadable res) [r] @ filter (loadable res) rs)"
        using 1(2) 2(3) by (rule list_all2_appendI)
      then show "\<exists>tcs. hbd_new b' = hbd_new b @ tcs \<and> list_all2 implements tcs (filter (loadable res) (r # rs))"
        using 1(1) 2(2) by (intro exI [of _ "tcs1 @ tcs2"]) (simp split: if_splits)
    qed
  qed (use Cons.prems(2) i in \<open>auto simp: one\<close>)
qed simp

section \<open>Loads\<close>

definition map_typed :: "(string, hot_controller list) gomap \<Rightarrow> hot_world \<Rightarrow> bool" where
  "map_typed m w \<longleftrightarrow> mwf m \<and>
     (\<forall>res. \<forall>tc \<in> set (mget_list m res). typed_in w tc \<and> hr_Resource (BoundRule tc) = res) \<and>
     (\<forall>res. distinct (map BoundMetric (mget_list m res))) \<and>
     (\<forall>res res'. res \<noteq> res' \<longrightarrow> BoundMetric ` set (mget_list m res) \<inter> BoundMetric ` set (mget_list m res') = {})"

definition manager_typed :: "hot_manager \<Rightarrow> bool" where
  "manager_typed m \<longleftrightarrow> map_typed (hm_tcMap m) (hm_world m)"

lemma map_typed_at:
  "map_typed m w \<Longrightarrow> tc \<in> set (mget_list m res) \<Longrightarrow> typed_in w tc \<and> hr_Resource (BoundRule tc) = res"
  by (simp add: map_typed_def)

lemma map_typed_apart:
  "map_typed m w \<Longrightarrow> res \<noteq> res' \<Longrightarrow> BoundMetric ` set (mget_list m res) \<inter> BoundMetric ` set (mget_list m res') = {}"
  by (simp add: map_typed_def)

lemma map_typed_keeps: "map_typed m w \<Longrightarrow> keeps w w' \<Longrightarrow> map_typed m w'"
  unfolding map_typed_def using typed_keeps by blast

lemma map_typed_del: "map_typed m w \<Longrightarrow> map_typed (mdel res m) w"
  by (auto simp: map_typed_def map_simps)

text \<open>The metrics of a resource come from the old controllers of that resource, or are new.\<close>

definition drawn :: "(string, hot_controller list) gomap \<Rightarrow> nat \<Rightarrow> (string, hot_controller list) gomap \<Rightarrow> bool" where
  "drawn old n m \<longleftrightarrow> (\<forall>res. \<forall>k \<in> BoundMetric ` set (mget_list m res). k \<in> BoundMetric ` set (mget_list old res) \<or> n \<le> k)"

lemma resource_step:
  assumes old: "map_typed old w0" and n: "n = length (hw_metrics w0)" and k: "keeps w0 w"
    and m: "map_typed m w" and d: "drawn old n m"
    and b: "hot_buildResource res rules (mget_list old res) w = (x, b)"
  shows "keeps w (hbd_world b) \<and>
    (x = Ret () \<longrightarrow> map_typed (mput res (hbd_new b) m) (hbd_world b) \<and> drawn old n (mput res (hbd_new b) m) \<and>
       list_all2 implements (hbd_new b) (filter (loadable res) rules))"
proof -
  let ?b0 = "\<lparr>hbd_old = mget_list old res, hbd_new = [], hbd_rules = [], hbd_world = w\<rparr>"
  let ?olds = "BoundMetric ` set (mget_list old res)"
  have "typed_in w tc \<and> hr_Resource (BoundRule tc) = res" if "tc \<in> set (mget_list old res)" for tc
    using map_typed_at [OF old that] typed_keeps [OF _ k] by blast
  moreover have "distinct (map BoundMetric (mget_list old res))" using old by (simp add: map_typed_def)
  ultimately have "build_inv res (length (hw_metrics w)) ?olds ?b0" by (simp add: build_inv_def)
  from hot_build_all_inv [OF this b [unfolded hot_buildResource_def]]
  have kb: "keeps w (hbd_world b)"
    and inv: "x = Ret () \<Longrightarrow> build_inv res (length (hw_metrics w)) ?olds b \<and> list_all2 implements (hbd_new b) (filter (loadable res) rules)"
    by auto
  have "map_typed (mput res (hbd_new b) m) (hbd_world b) \<and> drawn old n (mput res (hbd_new b) m) \<and>
      list_all2 implements (hbd_new b) (filter (loadable res) rules)" if x: "x = Ret ()"
  proof (intro conjI)
    have bi: "build_inv res (length (hw_metrics w)) ?olds b" using inv [OF x] by simp
    show "list_all2 implements (hbd_new b) (filter (loadable res) rules)" using inv [OF x] by simp
    have new: "\<forall>tc \<in> set (hbd_new b). typed_in (hbd_world b) tc \<and> hr_Resource (BoundRule tc) = res"
      using build_inv_typed [OF bi] by simp
    have dist: "distinct (map BoundMetric (hbd_new b))"
      and from_old: "\<forall>k \<in> BoundMetric ` set (hbd_new b). k \<in> ?olds \<or> length (hw_metrics w) \<le> k"
      using bi by (simp_all add: build_inv_def)
    have le: "n \<le> length (hw_metrics w)" using k n by (simp add: keeps_def)
    show "drawn old n (mput res (hbd_new b) m)"
      using d from_old le unfolding drawn_def by (auto simp: map_simps)
    have mk: "map_typed m (hbd_world b)" using m kb by (rule map_typed_keeps)
    have apart: "BoundMetric ` set (hbd_new b) \<inter> BoundMetric ` set (mget_list m res') = {}" if "res' \<noteq> res" for res'
    proof (rule ccontr)
      assume "BoundMetric ` set (hbd_new b) \<inter> BoundMetric ` set (mget_list m res') \<noteq> {}"
      then obtain i where i: "i \<in> BoundMetric ` set (hbd_new b)" "i \<in> BoundMetric ` set (mget_list m res')" by blast
      have "i < length (hw_metrics w)" using i(2) map_typed_at [OF m] typed_in_range by blast
      then have io: "i \<in> ?olds" using from_old i(1) by force
      then have "i < n" unfolding n using map_typed_at [OF old] typed_in_range by blast
      then have "i \<in> BoundMetric ` set (mget_list old res')" using d i(2) unfolding drawn_def by force
      with io map_typed_apart [OF old that] show False by blast
    qed
    show "map_typed (mput res (hbd_new b) m) (hbd_world b)"
      using mk new dist apart unfolding map_typed_def by (auto simp: map_simps)
  qed
  with kb show ?thesis by blast
qed

lemma load_resources_typed:
  assumes old: "map_typed old w0" and n: "n = length (hw_metrics w0)" and "keeps w0 (hld_world l)"
    and "map_typed (hld_map l) (hld_world l)" and "drawn old n (hld_map l)"
    and "hot_load_resources old rs l = (x, l')" and "distinct (map fst rs)"
  shows "keeps w0 (hld_world l') \<and>
    (x = Ret () \<longrightarrow> map_typed (hld_map l') (hld_world l') \<and>
       (\<forall>(res, rules) \<in> set rs. list_all2 implements (mget_list (hld_map l') res) (filter (loadable res) rules)) \<and>
       (\<forall>res. res \<notin> fst ` set rs \<longrightarrow> mget_list (hld_map l') res = mget_list (hld_map l) res))"
  using assms(3-7)
proof (induction rs arbitrary: l)
  case (Cons rr rs)
  obtain res rules where rr: "rr = (res, rules)" by fastforce
  obtain y b where b: "hot_buildResource res rules (mget_list old res) (hld_world l) = (y, b)" by fastforce
  note st = resource_step [OF old n Cons.prems(1,2,3) b]
  show ?case
  proof (cases y)
    case (Ret u)
    then have y: "y = Ret ()" by simp
    let ?l = "\<lparr>hld_map = mput res (hbd_new b) (hld_map l), hld_rules = mput res (hbd_rules b) (hld_rules l), hld_world = hbd_world b\<rparr>"
    have rest: "hot_load_resources old rs ?l = (x, l')" using Cons.prems(4) by (simp add: rr b y)
    have pre: "keeps w0 (hld_world ?l)" "map_typed (hld_map ?l) (hld_world ?l)" "drawn old n (hld_map ?l)" "distinct (map fst rs)"
      using st y Cons.prems(1,5) keeps_trans by (auto simp: rr)
    note IH = Cons.IH [OF pre(1-3) rest pre(4)]
    have "res \<notin> fst ` set rs" using Cons.prems(5) by (simp add: rr)
    then show ?thesis
      using IH st y by (auto simp: rr map_simps)
  next
    case (Err e)
    then show ?thesis using st Cons.prems(1,4) keeps_trans by (auto simp: rr b)
  next
    case (Panic p)
    then show ?thesis using st Cons.prems(1,4) keeps_trans by (auto simp: rr b)
  qed
qed auto

lemma LoadRules_typed:
  assumes "manager_typed m"
  shows "manager_typed (snd (hot_LoadRules rules m)) \<and>
    (fst (hot_LoadRules rules m) = Ret (True, None) \<longrightarrow>
       (\<forall>res. list_all2 implements (getTrafficControllersFor res (snd (hot_LoadRules rules m)))
          (filter (loadable res) (valid_rules hot_IsValidRule (named hr_Resource res rules)))))"
proof (cases "group_rules hr_Resource rules []")
  case (Ret raw)
  show ?thesis
  proof (cases "deep_map (hm_currentRules m) raw")
    case True
    then show ?thesis using assms by (simp add: hot_LoadRules_def Ret)
  next
    case False
    let ?l0 = "\<lparr>hld_map = [], hld_rules = [], hld_world = hm_world m\<rparr>"
    obtain x l where l: "hot_load_resources (hm_tcMap m) (valid_map hot_IsValidRule raw) ?l0 = (x, l)" by fastforce
    have old: "map_typed (hm_tcMap m) (hm_world m)" using assms by (simp add: manager_typed_def)
    have raw: "mwf raw" using group_rules_mwf [OF Ret] by simp
    have empty: "map_typed (hld_map ?l0) (hld_world ?l0)" "drawn (hm_tcMap m) (length (hw_metrics (hm_world m))) (hld_map ?l0)"
      by (simp_all add: map_typed_def drawn_def mget_list_def)
    have d: "distinct (map fst (valid_map hot_IsValidRule raw))" using mwf_valid_map [OF raw] by (simp add: mwf_def)
    note L = load_resources_typed [OF old refl _ empty l d]
    have keys: "list_all2 implements (mget_list (hld_map l) res) (filter (loadable res) (valid_rules hot_IsValidRule (named hr_Resource res rules)))"
      if x: "x = Ret ()" for res
    proof -
      have get: "mget_list (valid_map hot_IsValidRule raw) res = valid_rules hot_IsValidRule (named hr_Resource res rules)"
        using mget_valid_map [OF raw, of hot_IsValidRule res] group_rules_get [OF Ret, of res] by (simp add: mget_list_def)
      show ?thesis
      proof (cases "res \<in> fst ` set (valid_map hot_IsValidRule raw)")
        case True
        then obtain rs where rs: "(res, rs) \<in> set (valid_map hot_IsValidRule raw)" by auto
        then have "mget_list (valid_map hot_IsValidRule raw) res = rs" using d by (simp add: mget_list_def mget_def)
        then show ?thesis using L x rs get by fastforce
      next
        case False
        then have "mget_list (valid_map hot_IsValidRule raw) res = []"
          by (force simp: mget_list_def mget_def split: option.splits dest: map_of_SomeD)
        moreover have "mget_list (hld_map l) res = []" using L x False by (simp add: mget_list_def)
        ultimately show ?thesis using get by simp
      qed
    qed
    have load: "hot_LoadRules rules m = (let (err, m) = hot_onRuleUpdate raw m in (Ret (True, err), m))"
      using False by (simp add: hot_LoadRules_def Ret)
    show ?thesis
    proof (cases x)
      case x: (Ret u)
      then show ?thesis
        using L keys by (simp add: load hot_onRuleUpdate_def l manager_typed_def getTrafficControllersFor_def)
    next
      case (Err e)
      then show ?thesis
        using L map_typed_keeps [OF old] by (simp add: load hot_onRuleUpdate_def l manager_typed_def)
    next
      case (Panic p)
      then show ?thesis
        using L map_typed_keeps [OF old] by (simp add: load hot_onRuleUpdate_def l manager_typed_def)
    qed
  qed
qed (use assms in \<open>simp_all add: hot_LoadRules_def\<close>)

lemma LoadRulesOfResource_typed:
  assumes "manager_typed m"
  shows "manager_typed (snd (hot_LoadRulesOfResource res rules m))"
proof -
  have old: "map_typed (hm_tcMap m) (hm_world m)" using assms by (simp add: manager_typed_def)
  obtain x b where b: "hot_buildResource res (valid_rules hot_IsValidRule rules) (mget_list (hm_tcMap m) res) (hm_world m) = (x, b)" by fastforce
  have d: "drawn (hm_tcMap m) (length (hw_metrics (hm_world m))) (hm_tcMap m)" by (simp add: drawn_def)
  note st = resource_step [OF old refl keeps_refl old d b]
  have upd: "manager_typed (snd (hot_onResourceRuleUpdate res rules m))"
  proof (cases x)
    case (Ret u)
    then have "x = Ret ()" by simp
    then show ?thesis
      using st map_typed_keeps [OF old] by (auto simp: hot_onResourceRuleUpdate_def b manager_typed_def map_typed_del Let_def)
  qed (use st map_typed_keeps [OF old] in \<open>simp_all add: hot_onResourceRuleUpdate_def b manager_typed_def\<close>)
  show ?thesis
    using assms upd old
    by (auto simp: hot_LoadRulesOfResource_def manager_typed_def map_typed_del split_beta Let_def)
qed

section \<open>Checks and counts\<close>

lemma nth_update: "j < length xs \<Longrightarrow> xs[i := x] ! j = (if i = j then x else xs ! j)"
  by (cases "i = j") auto

lemma keeps_metric:
  assumes "\<And>ty. counters_typed ty (hw_metrics w ! i) \<Longrightarrow> counters_typed ty x"
  shows "keeps w (hw_metric i x w)"
  using assms by (auto simp: keeps_def hw_metric_def nth_update)

lemma keeps_store [simp]: "keeps w (hw_store p v w)"
  by (simp add: keeps_def hw_store_def)

lemma keeps_new: "keeps w (snd (hw_new v w))"
  by (simp add: keeps_def hw_new_def)

lemma counters_typed_upd [simp]:
  "counters_typed ty x \<Longrightarrow> counters_typed ty (x\<lparr>hm_RuleTimeCounter := Some c\<rparr>)"
  "counters_typed ty x \<Longrightarrow> counters_typed ty (x\<lparr>hm_RuleTokenCounter := Some c\<rparr>)"
  "counters_typed ty x \<Longrightarrow> counters_typed ty (x\<lparr>hm_ConcurrentCounter := Some c\<rparr>)"
  by (auto simp: counters_typed_def)

lemma keeps_access:
  "keeps w (snd (time_add i c arg v w))" "keeps w (snd (token_add i c arg v w))" "keeps w (snd (conc_add i c arg v w))"
  "keeps w (snd (token_get i c arg w))" "keeps w (snd (conc_get i c arg w))"
  by (auto simp: time_add_def token_add_def conc_add_def token_get_def conc_get_def hw_new_def split_beta keeps_def hw_metric_def
      nth_update)

lemma keeps_time: "time_add i c arg v w = (r, w') \<Longrightarrow> keeps w w'" using keeps_access(1) [of w i c arg v] by simp
lemma keeps_token: "token_add i c arg v w = (r, w') \<Longrightarrow> keeps w w'" using keeps_access(2) [of w i c arg v] by simp
lemma keeps_conc: "conc_add i c arg v w = (r, w') \<Longrightarrow> keeps w w'" using keeps_access(3) [of w i c arg v] by simp
lemma keeps_tget: "token_get i c arg w = (r, w') \<Longrightarrow> keeps w w'" using keeps_access(4) [of w i c arg] by simp
lemma keeps_cget: "conc_get i c arg w = (r, w') \<Longrightarrow> keeps w w'" using keeps_access(5) [of w i c arg] by simp

lemma keeps_store_trans: "keeps w w' \<Longrightarrow> keeps w (hw_store p v w')"
  using keeps_trans keeps_store by blast

lemmas keeps_intros = keeps_refl keeps_store_trans

text \<open>A round, a loop and a check keep the counters, and only a missing counter is a nil pointer.\<close>

definition nil_free :: "'a go \<Rightarrow> bool" where
  "nil_free r \<longleftrightarrow> r \<noteq> Panic ''nil pointer dereference''"

lemma nil_free_simps [simp]:
  "nil_free (Ret x)" "nil_free (Err e)" "nil_free (Panic p) \<longleftrightarrow> p \<noteq> ''nil pointer dereference''"
  by (simp_all add: nil_free_def)

definition safe_step :: "hot_world \<Rightarrow> 'a go \<times> hot_world \<Rightarrow> bool" where
  "safe_step w res \<longleftrightarrow> nil_free (fst res) \<and> keeps w (snd res)"

lemma round_safe:
  "case reject_round env b arg n T mx now tc kc w of Inl res \<Rightarrow> safe_step w res | Inr w' \<Rightarrow> keeps w w'"
  unfolding reject_round_def Let_def safe_step_def
  by (auto split: prod.splits option.splits dest!: keeps_time keeps_token keeps_tget intro: keeps_trans keeps_store_trans)

lemma loop_safe: "reject_loop env clk b arg n T mx i w = Some res \<Longrightarrow> safe_step w res"
proof (induction rule: reject_loop.raw_induct [rotated, consumes 1, case_names step])
  case (step rec env clk b arg n T mx i w res)
  show ?case
  proof (cases "hm_RuleTimeCounter (hw_metrics w ! hb_metric b) = None \<or> hm_RuleTokenCounter (hw_metrics w ! hb_metric b) = None")
    case True
    then show ?thesis using step.hyps by (auto simp: safe_step_def split: option.splits)
  next
    case False
    then obtain tc kc where c: "hm_RuleTimeCounter (hw_metrics w ! hb_metric b) = Some tc"
      "hm_RuleTokenCounter (hw_metrics w ! hb_metric b) = Some kc" by auto
    note r = round_safe [where env = env and b = b and arg = arg and n = n and T = T and mx = mx and now = "clk i" and tc = tc and kc = kc and w = w]
    show ?thesis
    proof (cases "reject_round env b arg n T mx (clk i) tc kc w")
      case (Inl x)
      then show ?thesis using step.hyps r by (simp add: c)
    next
      case (Inr w')
      then have k: "keeps w w'" and rec: "rec env clk b arg n T mx (Suc i) w' = Some res" using step.hyps r by (simp_all add: c)
      show ?thesis using step.IH [OF rec] keeps_trans [OF k] by (auto simp: safe_step_def)
    qed
  qed
qed

lemma concurrency_safe:
  "hm_ConcurrentCounter (hw_metrics w ! hb_metric b) \<noteq> None \<Longrightarrow> safe_step w (performCheckingForConcurrencyMetric env b arg w)"
  by (auto simp: performCheckingForConcurrencyMetric_def safe_step_def Let_def split: option.splits prod.splits
      dest!: keeps_conc intro: keeps_trans)

lemma throttling_safe:
  assumes "hb_metricType b = HotConcurrency \<Longrightarrow> hm_ConcurrentCounter (hw_metrics w ! hb_metric b) \<noteq> None"
  shows "safe_step w (throttling_PerformChecking env now b mq arg n w)"
proof (cases "hb_metricType b = HotConcurrency")
  case True
  then show ?thesis using concurrency_safe [OF assms [OF True]] by (simp add: throttling_PerformChecking_def)
next
  case False
  then show ?thesis
    by (auto simp: throttling_PerformChecking_def safe_step_def Let_def split: option.splits prod.splits
        dest!: keeps_time intro: keeps_trans keeps_store_trans)
qed

lemma reject_safe:
  assumes "hb_metricType b = HotConcurrency \<Longrightarrow> hm_ConcurrentCounter (hw_metrics w ! hb_metric b) \<noteq> None"
    and "reject_PerformChecking env clk b burst arg n w = Some res"
  shows "safe_step w res"
proof (cases "hb_metricType b = HotConcurrency")
  case True
  then show ?thesis using concurrency_safe [OF assms(1) [OF True]] assms(2) by (auto simp: reject_PerformChecking_def)
next
  case False
  then show ?thesis
    using assms(2) loop_safe
    by (auto simp: reject_PerformChecking_def Let_def safe_step_def split: if_splits)
qed

lemma typed_concurrent:
  assumes "typed_in w tc"
  shows "hb_metricType (tc_base tc) = hr_MetricType (BoundRule tc)" and "hb_metric (tc_base tc) = BoundMetric tc"
    and "hr_MetricType (BoundRule tc) = HotConcurrency \<Longrightarrow> hm_ConcurrentCounter (hw_metrics w ! BoundMetric tc) \<noteq> None"
proof -
  have b: "newBaseTrafficShapingControllerWithMetric (BoundRule tc) (BoundMetric tc) = (tc_base tc, BoundRule tc)"
    using assms by (simp add: typed_in_def built_def)
  have "hb_metricType (fst (newBaseTrafficShapingControllerWithMetric r i)) = hr_MetricType r" for r i
    by (simp add: newBaseTrafficShapingControllerWithMetric_def Let_def)
  from this [of "BoundRule tc" "BoundMetric tc"] show "hb_metricType (tc_base tc) = hr_MetricType (BoundRule tc)"
    by (simp add: b)
  show "hb_metric (tc_base tc) = BoundMetric tc" by (simp add: BoundMetric_def)
  show "hm_ConcurrentCounter (hw_metrics w ! BoundMetric tc) \<noteq> None" if "hr_MetricType (BoundRule tc) = HotConcurrency"
    using assms that by (auto simp: typed_in_def counters_typed_def HotConcurrency_def HotQPS_def)
qed

lemma check_safe:
  assumes "typed_in w tc" and "hot_canPassCheck env clk tc arg n w = Some res"
  shows "safe_step w res"
proof -
  have c: "hb_metricType (tc_base tc) = HotConcurrency \<Longrightarrow> hm_ConcurrentCounter (hw_metrics w ! hb_metric (tc_base tc)) \<noteq> None"
    using typed_concurrent [OF assms(1)] by simp
  have loc: "safe_step w res" if "hot_canPassLocalCheck env clk tc arg n w = Some res" for res
    using that reject_safe [OF c] throttling_safe [OF c]
    by (cases tc) (auto simp: hot_canPassLocalCheck_def hot_PerformChecking_def)
  have pass: "safe_step w (Ret None, w)" by (simp add: safe_step_def)
  show ?thesis
    using assms(2) loc pass
    by (auto simp: hot_canPassCheck_def hot_canPassClusterCheck_def hot_fallbackToLocalOrPass_def Let_def
        split: option.splits if_splits)
qed

lemma ExtractArgs_nil_free: "nil_free (ExtractArgs je c i)"
  by (auto simp: ExtractArgs_def extractArgs_def Let_def split: option.splits if_splits)

lemma check_all_safe:
  assumes "\<forall>tc \<in> set tcs. typed_in w tc" and "hot_check_all env je clk fs inp i tcs w = Some (r, waits, w')"
  shows "nil_free r \<and> keeps w w'"
  using assms
proof (induction tcs arbitrary: i w r waits)
  case (Cons tc tcs)
  note ex = ExtractArgs_nil_free [of je "param_of tc" inp]
  have later: "nil_free r \<and> keeps w w'" if "hot_check_all env je clk fs inp (Suc i) tcs w1 = Some (r, ws, w')" "keeps w w1" for w1 ws r
  proof -
    have "\<forall>tc \<in> set tcs. typed_in w1 tc" using Cons.prems(1) typed_keeps [OF _ that(2)] by simp
    from Cons.IH [OF this that(1)] show ?thesis using keeps_trans [OF that(2)] by blast
  qed
  show ?case
  proof (cases "\<exists>arg. ExtractArgs je (param_of tc) inp = Ret (Some arg) \<and> hot_needs_check fs (BoundRule tc)")
    case False
    then show ?thesis
      using Cons.prems(2) ex later [OF _ keeps_refl] by (auto split: go.splits option.splits if_splits)
  next
    case True
    then obtain arg where arg: "ExtractArgs je (param_of tc) inp = Ret (Some arg)" "hot_needs_check fs (BoundRule tc)" by blast
    have ty: "typed_in w tc" using Cons.prems(1) by simp
    obtain x w1 where c: "hot_canPassCheck env (clk i) tc arg (ucast (in_BatchCount inp)) w = Some (x, w1)"
      using Cons.prems(2) by (auto simp: arg split: option.splits)
    have s: "nil_free x" "keeps w w1" using check_safe [OF ty c] by (simp_all add: safe_step_def)
    show ?thesis
      using Cons.prems(2) later [OF _ s(2)] s
      by (cases x) (auto simp: arg c split: option.splits if_splits)
  qed
qed auto

lemma count_safe:
  assumes "\<forall>tc \<in> set tcs. typed_in w tc"
  shows "safe_step w (count_concurrency env je d inp tcs w)"
  using assms
proof (induction tcs arbitrary: w)
  case (Cons tc tcs)
  note ex = ExtractArgs_nil_free [of je "param_of tc" inp]
  have later: "safe_step w (count_concurrency env je d inp tcs w1)" if "keeps w w1" for w1
  proof -
    have "\<forall>tc \<in> set tcs. typed_in w1 tc" using Cons.prems typed_keeps [OF _ that] by simp
    from Cons.IH [OF this] show ?thesis using keeps_trans [OF that] by (auto simp: safe_step_def)
  qed
  show ?case
  proof (cases "hr_MetricType (BoundRule tc) = HotConcurrency \<and> (\<exists>arg. ExtractArgs je (param_of tc) inp = Ret (Some arg))")
    case False
    then show ?thesis
      using ex later [OF keeps_refl] by (auto simp: safe_step_def split: go.splits option.splits)
  next
    case True
    then obtain arg where arg: "ExtractArgs je (param_of tc) inp = Ret (Some arg)" "hr_MetricType (BoundRule tc) = HotConcurrency" by blast
    have ty: "typed_in w tc" using Cons.prems by simp
    obtain c where c: "hm_ConcurrentCounter (hw_metrics w ! BoundMetric tc) = Some c" using typed_concurrent(3) [OF ty arg(2)] by auto
    obtain found w1 where g: "conc_get (BoundMetric tc) c arg w = (found, w1)" by fastforce
    have k: "keeps w w1" using keeps_cget [OF g] .
    show ?thesis
      using later [OF k] later [OF keeps_store_trans [OF k]]
      by (auto simp: arg c g safe_step_def split: option.splits)
  qed
qed (simp add: safe_step_def)

section \<open>Everything the manager and the slots do\<close>

inductive hot_transition :: "hot_env \<Rightarrow> json_env \<Rightarrow> hot_manager \<Rightarrow> hot_manager \<Rightarrow> bool" for env je where
  load: "hot_transition env je m (snd (hot_LoadRules rules m))"
| load_resource: "hot_transition env je m (snd (hot_LoadRulesOfResource res rules m))"
| check: "hot_Slot_Check env je clk ctx m = Some (r, waits, m') \<Longrightarrow> hot_transition env je m m'"
| passed: "hot_transition env je m (snd (hot_OnEntryPassed env je ctx m))"
| completed: "hot_transition env je m (snd (hot_OnCompleted env je ctx m))"

lemma slot_check_safe:
  assumes "manager_typed m" and "hot_Slot_Check env je clk ctx m = Some (r, waits, m')"
  shows "manager_typed m' \<and> (ctx_Resource ctx \<noteq> None \<longrightarrow> nil_free r)"
proof (cases "ctx_Resource ctx")
  case None
  then show ?thesis using assms by (simp add: hot_Slot_Check_def)
next
  case (Some rw)
  let ?tcs = "getTrafficControllersFor (rw_name rw) m"
  from assms(2) Some obtain x w' where c: "hot_check_all env je clk (ctx_FromService ctx) (ctx_Input ctx) 0 ?tcs (hm_world m) = Some (x, waits, w')"
      "r = (case x of Ret None \<Rightarrow> Ret (ctx_RuleCheckResult ctx) | x \<Rightarrow> x)" "m' = m\<lparr>hm_world := w'\<rparr>"
    by (auto simp: hot_Slot_Check_def)
  have old: "map_typed (hm_tcMap m) (hm_world m)" using assms(1) by (simp add: manager_typed_def)
  then have "\<forall>tc \<in> set ?tcs. typed_in (hm_world m) tc" using map_typed_at by (auto simp: getTrafficControllersFor_def)
  from check_all_safe [OF this c(1)] have s: "nil_free x" "keeps (hm_world m) w'" by simp_all
  then show ?thesis
    using map_typed_keeps [OF old s(2)] by (auto simp: manager_typed_def c(2,3) split: go.splits option.splits)
qed

lemma hook_safe:
  assumes "manager_typed m"
  shows "manager_typed (snd (hot_stat_hook env je d ctx m)) \<and> (ctx_Resource ctx \<noteq> None \<longrightarrow> nil_free (fst (hot_stat_hook env je d ctx m)))"
proof (cases "ctx_Resource ctx")
  case None
  then show ?thesis using assms by (simp add: hot_stat_hook_def)
next
  case (Some rw)
  let ?tcs = "getTrafficControllersFor (rw_name rw) m"
  have old: "map_typed (hm_tcMap m) (hm_world m)" using assms(1) by (simp add: manager_typed_def)
  then have "\<forall>tc \<in> set ?tcs. typed_in (hm_world m) tc" using map_typed_at by (auto simp: getTrafficControllersFor_def)
  from count_safe [OF this, of env je d "ctx_Input ctx"] show ?thesis
    using map_typed_keeps [OF old] Some by (auto simp: hot_stat_hook_def manager_typed_def safe_step_def split_beta Let_def)
qed

text \<open>
  C29: The hot-parameter manager is type safe. In every state that loads, checks and counts lead to from an empty
  manager, each controller in use is what its generator builds from its rule, belongs to the resource
  it is found under, has the counters of its metric type, and shares them with no other
  controller; and no check or count of a request with a resource runs into a nil pointer there.
\<close>

theorem hot_manager_type_safe:
  assumes "(hot_transition env je)\<^sup>*\<^sup>* m0 m" and "hm_tcMap m0 = []"
  shows "manager_typed m \<and>
    (ctx_Resource ctx \<noteq> None \<longrightarrow>
       (\<forall>r waits m'. hot_Slot_Check env je clk ctx m = Some (r, waits, m') \<longrightarrow> r \<noteq> Panic ''nil pointer dereference'') \<and>
       fst (hot_OnEntryPassed env je ctx m) \<noteq> Panic ''nil pointer dereference'' \<and>
       fst (hot_OnCompleted env je ctx m) \<noteq> Panic ''nil pointer dereference'')"
proof -
  have "manager_typed m"
    using assms(1)
  proof (induction rule: rtranclp_induct)
    case base
    show ?case using assms(2) by (simp add: manager_typed_def map_typed_def mget_list_def)
  next
    case (step y z)
    show ?case
      using step.hyps(2) step.IH
      by cases (auto simp: hot_OnEntryPassed_def hot_OnCompleted_def dest: LoadRules_typed LoadRulesOfResource_typed
          slot_check_safe hook_safe)
  qed
  then show ?thesis
    using slot_check_safe hook_safe unfolding hot_OnEntryPassed_def hot_OnCompleted_def nil_free_def by blast
qed

text \<open>One load of a rule from the start.\<close>

definition no_rules :: hot_manager where
  "no_rules = \<lparr>hm_tcMap = [], hm_currentRules = [], hm_world = \<lparr>hw_metrics = [], hw_cells = []\<rparr>\<rparr>"

lemma demo_valid: "hot_IsValidRule (Some demo_hot_rule) = None"
  by (simp add: hot_IsValidRule_def demo_hot_rule_def checkControlBehaviorField_def word_sless_alt word_sle_eq HotReject_def HotQPS_def)

lemma demo_build:
  "\<exists>b w'. hot_buildResource ''api'' [demo_hot_rule] [] w =
    (Ret (), \<lparr>hbd_old = [], hbd_new = [RejectTc b 1], hbd_rules = [settled demo_hot_rule], hbd_world = w'\<rparr>) \<and>
    hb_r b = settled demo_hot_rule"
  by (simp add: hot_buildResource_def hot_build_one_def hot_calculateReuseIndexFor_def hot_tcGenFunc_def hot_supported_def
      newBaseTrafficShapingController_def newBaseTrafficShapingControllerWithMetric_def settled_def demo_hot_rule_def Let_def)

lemma demo_load:
  "\<exists>b w. hot_LoadRules [Some demo_hot_rule] no_rules =
    (Ret (True, None), \<lparr>hm_tcMap = [(''api'', [RejectTc b 1])], hm_currentRules = [(''api'', [Some (settled demo_hot_rule)])], hm_world = w\<rparr>) \<and>
    hb_r b = settled demo_hot_rule"
proof -
  obtain b w where b: "hot_buildResource ''api'' [demo_hot_rule] [] \<lparr>hw_metrics = [], hw_cells = []\<rparr> =
      (Ret (), \<lparr>hbd_old = [], hbd_new = [RejectTc b 1], hbd_rules = [settled demo_hot_rule], hbd_world = w\<rparr>)"
    "hb_r b = settled demo_hot_rule"
    using demo_build by blast
  have "hr_Resource demo_hot_rule = ''api''" by (simp add: demo_hot_rule_def)
  with b demo_valid show ?thesis
    by (simp add: hot_LoadRules_def no_rules_def deep_map_def hot_onRuleUpdate_def valid_map_def valid_rules_def map_filter_simps
        mget_list_def mput_def)
qed

theorem hot_manager_type_safe_witness:
  "\<exists>m. m = snd (hot_LoadRules [Some demo_hot_rule] no_rules) \<and>
    map hr_Resource (hot_GetRulesOfResource ''api'' m) = [''api''] \<and> manager_typed m \<and>
    (\<forall>waits m'. hot_Slot_Check demo_hot_env demo_json_env (\<lambda>_ _. 0) (demo_call ''u'') m \<noteq>
       Some (Panic ''nil pointer dereference'', waits, m')) \<and>
    fst (hot_OnEntryPassed demo_hot_env demo_json_env (demo_call ''u'') m) \<noteq> Panic ''nil pointer dereference''"
proof -
  obtain m where m: "m = snd (hot_LoadRules [Some demo_hot_rule] no_rules)" by blast
  have steps: "(hot_transition demo_hot_env demo_json_env)\<^sup>*\<^sup>* no_rules m" "hm_tcMap no_rules = []"
    unfolding m by (auto intro: hot_transition.intros simp: no_rules_def)
  obtain b w where load: "m = \<lparr>hm_tcMap = [(''api'', [RejectTc b 1])], hm_currentRules = [(''api'', [Some (settled demo_hot_rule)])], hm_world = w\<rparr>"
    and b: "hb_r b = settled demo_hot_rule"
    unfolding m using demo_load by fastforce
  have api: "map hr_Resource (hot_GetRulesOfResource ''api'' m) = [''api'']"
    unfolding load by (simp add: b hot_GetRulesOfResource_def BoundRule_def mget_list_def) (simp add: demo_hot_rule_def)
  have res: "ctx_Resource (demo_call ''u'') \<noteq> None" by (simp add: demo_call_def)
  note safe = hot_manager_type_safe [OF steps, of "demo_call ''u''" "\<lambda>_ _. 0"]
  note all = hot_manager_type_safe [OF steps, of "demo_call ''u''" "\<lambda>_ _. 0"]
  have safe: "manager_typed m"
    "\<forall>r waits m'. hot_Slot_Check demo_hot_env demo_json_env (\<lambda>_ _. 0) (demo_call ''u'') m = Some (r, waits, m') \<longrightarrow>
      r \<noteq> Panic ''nil pointer dereference''"
    "fst (hot_OnEntryPassed demo_hot_env demo_json_env (demo_call ''u'') m) \<noteq> Panic ''nil pointer dereference''"
    using conjunct1 [OF all] mp [OF conjunct2 [OF all] res] by blast+
  have "hot_Slot_Check demo_hot_env demo_json_env (\<lambda>_ _. 0) (demo_call ''u'') m \<noteq>
      Some (Panic ''nil pointer dereference'', waits, m')" for waits m'
    using safe(2) [rule_format, of "Panic ''nil pointer dereference''" waits m'] by (auto simp del: not_None_eq)
  then show ?thesis
    unfolding m [symmetric] by (intro exI [of _ m] conjI api safe(1,3) refl allI) assumption+
qed

end
