(* ===== verification/RetryPolicy.thy ===== *)
theory RetryPolicy
  imports Prelude "HOL-Library.Sublist"
begin

text \<open>
  The retry policies (\<open>core/retry/policy\<close>), their contexts (\<open>core/retry/context\<close>,
  \<open>attribute_accessor_support.go\<close>) and the classification of errors (\<open>core/retry/classify\<close>). An error is its
  message. A context holds the policies that opened it, so the two types grow together; the parent of a
  context is always nil. All reads of the clock in one call of \<open>CanRetry\<close> give the same time. Policies
  that a program brings itself are left out.
\<close>

section \<open>The classification of errors\<close>

definition ExactMatch :: i32 where "ExactMatch = 0"
definition PrefixMatch :: i32 where "PrefixMatch = 1"
definition SuffixMatch :: i32 where "SuffixMatch = 2"
definition ContainMatch :: i32 where "ContainMatch = 3"
definition RegularMatch :: i32 where "RegularMatch = 4"
definition AnyMatch :: i32 where "AnyMatch = 5"

record classifier =
  ec_DefaultValue :: bool
  ec_Classified :: "string list"
  ec_Matcher :: i32

text \<open>
  What the retries take from outside: \<open>regexp.MatchString\<close> (\<open>None\<close> if the expression does not compile), and
  the number drawn below a bound in a round.
\<close>

record retry_env =
  re_match :: "string \<Rightarrow> string \<Rightarrow> bool option"
  re_rand :: "nat \<Rightarrow> i64 \<Rightarrow> i64"

definition error_matches :: "retry_env \<Rightarrow> i32 \<Rightarrow> string \<Rightarrow> string \<Rightarrow> bool" where
  "error_matches env matcher errMsg key =
     (if matcher = ExactMatch then key = errMsg
      else if matcher = PrefixMatch then prefix key errMsg
      else if matcher = ContainMatch then sublist key errMsg
      else if matcher = SuffixMatch then suffix key errMsg
      else if matcher = RegularMatch then
        (case re_match env key errMsg of Some ok \<Rightarrow> ok | None \<Rightarrow> sublist key errMsg)
      else sublist key errMsg)"

definition Classify :: "retry_env \<Rightarrow> classifier \<Rightarrow> string option \<Rightarrow> bool" where
  "Classify env e err =
     (case err of
        None \<Rightarrow> ec_DefaultValue e
      | Some errMsg \<Rightarrow>
          if ec_Matcher e = AnyMatch then True
          else if list_ex (error_matches env (ec_Matcher e) errMsg) (ec_Classified e) then ec_DefaultValue e
          else \<not> ec_DefaultValue e)"

text \<open>The builder: one list, for errors that are retried or for errors that are not.\<close>

record classifier_builder =
  cb_IsWhiteList :: "bool option"
  cb_Errors :: "string list"

definition classifier_RetryOn :: "string \<Rightarrow> classifier_builder \<Rightarrow> classifier_builder go" where
  "classifier_RetryOn err e =
     (if cb_IsWhiteList e = Some False then Panic ''Please use only retryOn() or only notRetryOn()''
      else Ret (e\<lparr>cb_IsWhiteList := Some True, cb_Errors := cb_Errors e @ [err]\<rparr>))"

definition classifier_NotRetryOn :: "string \<Rightarrow> classifier_builder \<Rightarrow> classifier_builder go" where
  "classifier_NotRetryOn err e =
     (if cb_IsWhiteList e = Some True then Panic ''Please use only retryOn() or only notRetryOn()''
      else Ret (e\<lparr>cb_IsWhiteList := Some False, cb_Errors := cb_Errors e @ [err]\<rparr>))"

definition classifier_Build :: "i32 \<Rightarrow> classifier_builder \<Rightarrow> classifier" where
  "classifier_Build matcher e =
     \<lparr>ec_DefaultValue = (case cb_IsWhiteList e of Some b \<Rightarrow> b | None \<Rightarrow> False), ec_Classified = cb_Errors e,
      ec_Matcher = matcher\<rparr>"

section \<open>Contexts\<close>

text \<open>An attribute that was removed stays in the map with a nil value.\<close>

datatype rty_attr = AttrBackOff | AttrBool bool | AttrText string

record rty_support =
  rs_attributes :: "(string, rty_attr option) gomap option"
  rs_Terminate :: bool
  rs_Count :: i32
  rs_LastError :: "string option"

definition new_support :: rty_support where
  "new_support = \<lparr>rs_attributes = None, rs_Terminate = False, rs_Count = 0, rs_LastError = None\<rparr>"

definition GetAttribute :: "string \<Rightarrow> rty_support \<Rightarrow> rty_attr option" where
  "GetAttribute name s =
     (case rs_attributes s of None \<Rightarrow> None | Some m \<Rightarrow> (case mget m name of None \<Rightarrow> None | Some v \<Rightarrow> v))"

definition RemoveAttribute :: "string \<Rightarrow> rty_support \<Rightarrow> rty_attr option \<times> rty_support" where
  "RemoveAttribute name s =
     (case rs_attributes s of
        None \<Rightarrow> (None, s)
      | Some m \<Rightarrow> (GetAttribute name s, s\<lparr>rs_attributes := Some (mput name None m)\<rparr>))"

definition SetAttribute :: "string \<Rightarrow> rty_attr option \<Rightarrow> rty_support \<Rightarrow> rty_support" where
  "SetAttribute name v s =
     (let m = (case rs_attributes s of None \<Rightarrow> [] | Some m \<Rightarrow> m); s = s\<lparr>rs_attributes := Some m\<rparr>
      in if v \<noteq> None then s\<lparr>rs_attributes := Some (mput name v m)\<rparr> else snd (RemoveAttribute name s))"

definition HasAttribute :: "string \<Rightarrow> rty_support \<Rightarrow> bool" where
  "HasAttribute name s \<longleftrightarrow> GetAttribute name s \<noteq> None"

definition AttributeName :: "rty_support \<Rightarrow> string list" where
  "AttributeName s = (case rs_attributes s of None \<Rightarrow> [] | Some m \<Rightarrow> map fst m)"

definition support_RegisterError :: "string option \<Rightarrow> rty_support \<Rightarrow> rty_support" where
  "support_RegisterError err s =
     (let s = s\<lparr>rs_LastError := err\<rparr> in if err \<noteq> None then s\<lparr>rs_Count := rs_Count s + 1\<rparr> else s)"

text \<open>The policies and the contexts they open.\<close>

datatype rty_policy =
    NeverPolicy
  | AlwaysPolicy
  | MaxAttemptsPolicy i32
  | SimplePolicy i32 classifier
  | TimeoutPolicy i64
  | ClassifierPolicy classifier
  | CompositePolicy "rty_policy list" bool

datatype rty_context =
    SupportCtx (ctx_base: rty_support)
  | NeverCtx (ctx_base: rty_support) bool
  | SimpleCtx (ctx_base: rty_support)
  | TimeoutCtx (ctx_base: rty_support) i64 i64
  | CompositeCtx (ctx_base: rty_support) "rty_context list" "rty_policy list"

fun on_base :: "(rty_support \<Rightarrow> rty_support) \<Rightarrow> rty_context \<Rightarrow> rty_context" where
  "on_base f (SupportCtx s) = SupportCtx (f s)"
| "on_base f (NeverCtx s fin) = NeverCtx (f s) fin"
| "on_base f (SimpleCtx s) = SimpleCtx (f s)"
| "on_base f (TimeoutCtx s timeout start) = TimeoutCtx (f s) timeout start"
| "on_base f (CompositeCtx s ctxs ps) = CompositeCtx (f s) ctxs ps"

definition GetRetryCount :: "rty_context \<Rightarrow> i32" where
  "GetRetryCount ctx = rs_Count (ctx_base ctx)"

definition GetLastError :: "rty_context \<Rightarrow> string option" where
  "GetLastError ctx = rs_LastError (ctx_base ctx)"

definition SetExhaustedOnly :: "rty_context \<Rightarrow> rty_context" where
  "SetExhaustedOnly ctx = on_base (\<lambda>s. s\<lparr>rs_Terminate := True\<rparr>) ctx"

definition IsExhaustedOnly :: "rty_context \<Rightarrow> bool" where
  "IsExhaustedOnly ctx = rs_Terminate (ctx_base ctx)"

section \<open>Policies\<close>

definition DefaultMaxRetryAttempts :: i32 where "DefaultMaxRetryAttempts = 3"
definition DefaultMaxAttempts :: i32 where "DefaultMaxAttempts = 3"
definition DefaultTimeout :: i64 where "DefaultTimeout = 1000"

definition NewSimpleRetryPolicyWithMaxAttemptsAndErrors :: "i32 \<Rightarrow> string list \<Rightarrow> rty_policy" where
  "NewSimpleRetryPolicyWithMaxAttemptsAndErrors maxAttempts errs =
     SimplePolicy maxAttempts \<lparr>ec_DefaultValue = False, ec_Classified = errs, ec_Matcher = ExactMatch\<rparr>"

definition NewSimpleRetryPolicy :: rty_policy where
  "NewSimpleRetryPolicy = NewSimpleRetryPolicyWithMaxAttemptsAndErrors DefaultMaxAttempts [''any match'']"

text \<open>The contexts a policy opens, what it asks of them, and how it registers an error in them.\<close>

definition never_Open :: rty_context where
  "never_Open = NeverCtx new_support False"

definition never_CanRetry :: "rty_context \<Rightarrow> bool go" where
  "never_CanRetry ctx = (case ctx of NeverCtx s finished \<Rightarrow> Ret finished | _ \<Rightarrow> Panic ''interface conversion'')"

definition never_RegisterError :: "string \<Rightarrow> rty_context \<Rightarrow> rty_context go" where
  "never_RegisterError err ctx =
     (case ctx of
        NeverCtx s finished \<Rightarrow> Ret (NeverCtx (support_RegisterError (Some err) s) True)
      | _ \<Rightarrow> Panic ''interface conversion'')"

definition always_CanRetry :: "rty_context \<Rightarrow> bool go" where
  "always_CanRetry ctx = Ret True"

definition max_Open :: rty_context where
  "max_Open = SupportCtx new_support"

definition max_CanRetry :: "i32 \<Rightarrow> rty_context \<Rightarrow> bool go" where
  "max_CanRetry n ctx = Ret (GetRetryCount ctx <s n)"

definition max_RegisterError :: "string \<Rightarrow> rty_context \<Rightarrow> rty_context go" where
  "max_RegisterError err ctx =
     (case ctx of SupportCtx s \<Rightarrow> Ret (SupportCtx (support_RegisterError (Some err) s)) | _ \<Rightarrow> Panic ''interface conversion'')"

definition NewSimpleRetryContext :: rty_context where
  "NewSimpleRetryContext = SimpleCtx new_support"

definition simple_CanRetry :: "retry_env \<Rightarrow> i32 \<Rightarrow> classifier \<Rightarrow> rty_context \<Rightarrow> bool go" where
  "simple_CanRetry env n c ctx =
     (let err = GetLastError ctx; meet = (if err = None then True else Classify env c err)
      in Ret (meet \<and> GetRetryCount ctx <s n))"

definition simple_RegisterError :: "string \<Rightarrow> rty_context \<Rightarrow> rty_context go" where
  "simple_RegisterError err ctx =
     (case ctx of SimpleCtx s \<Rightarrow> Ret (SimpleCtx (support_RegisterError (Some err) s)) | _ \<Rightarrow> Panic ''interface conversion'')"

definition NewTimeoutRtyContext :: "i64 \<Rightarrow> i64 \<Rightarrow> rty_context" where
  "NewTimeoutRtyContext now timeout = TimeoutCtx new_support timeout now"

definition timeout_IsAlive :: "i64 \<Rightarrow> i64 \<Rightarrow> i64 \<Rightarrow> bool" where
  "timeout_IsAlive now timeout start \<longleftrightarrow> now - start \<le>s timeout"

definition timeout_CanRetry :: "i64 \<Rightarrow> rty_context \<Rightarrow> bool go" where
  "timeout_CanRetry now ctx =
     (case ctx of TimeoutCtx s timeout start \<Rightarrow> Ret (timeout_IsAlive now timeout start) | _ \<Rightarrow> Panic ''interface conversion'')"

definition timeout_RegisterError :: "string \<Rightarrow> rty_context \<Rightarrow> rty_context go" where
  "timeout_RegisterError err ctx =
     (case ctx of
        TimeoutCtx s timeout start \<Rightarrow> Ret (TimeoutCtx (support_RegisterError (Some err) s) timeout start)
      | _ \<Rightarrow> Panic ''interface conversion'')"

definition classifier_Open :: rty_context where
  "classifier_Open = SupportCtx new_support"

definition classifier_CanRetry :: "retry_env \<Rightarrow> classifier \<Rightarrow> rty_context \<Rightarrow> bool go" where
  "classifier_CanRetry env c ctx = (let err = GetLastError ctx in Ret (err = None \<or> Classify env c err))"

definition classifier_RegisterError :: "string \<Rightarrow> rty_context \<Rightarrow> rty_context go" where
  "classifier_RegisterError err ctx =
     (case ctx of SupportCtx s \<Rightarrow> Ret (SupportCtx (support_RegisterError (Some err) s)) | _ \<Rightarrow> Panic ''interface conversion'')"

lemmas policy_defs [simp] = never_Open_def never_CanRetry_def never_RegisterError_def always_CanRetry_def max_Open_def
  max_CanRetry_def max_RegisterError_def NewSimpleRetryContext_def simple_CanRetry_def simple_RegisterError_def
  NewTimeoutRtyContext_def timeout_IsAlive_def timeout_CanRetry_def timeout_RegisterError_def classifier_Open_def
  classifier_CanRetry_def classifier_RegisterError_def

text \<open>
  A policy by its kind. A composite asks every policy, also after the answer is known; it uses the policies of
  the context. The policy of endless retries has all but \<open>CanRetry\<close> from that of no retries.
\<close>

fun policy_Open :: "i64 \<Rightarrow> rty_policy \<Rightarrow> rty_context" where
  "policy_Open now NeverPolicy = never_Open"
| "policy_Open now AlwaysPolicy = never_Open"
| "policy_Open now (MaxAttemptsPolicy n) = max_Open"
| "policy_Open now (SimplePolicy n c) = NewSimpleRetryContext"
| "policy_Open now (TimeoutPolicy timeout) = NewTimeoutRtyContext now timeout"
| "policy_Open now (ClassifierPolicy c) = classifier_Open"
| "policy_Open now (CompositePolicy ps opt) = CompositeCtx new_support (map (policy_Open now) ps) ps"

fun CanRetry :: "retry_env \<Rightarrow> i64 \<Rightarrow> rty_policy \<Rightarrow> rty_context \<Rightarrow> bool go"
  and CanRetry_each :: "retry_env \<Rightarrow> i64 \<Rightarrow> rty_policy list \<Rightarrow> rty_context list \<Rightarrow> bool list go"
where
  "CanRetry env now NeverPolicy ctx = never_CanRetry ctx"
| "CanRetry env now AlwaysPolicy ctx = always_CanRetry ctx"
| "CanRetry env now (MaxAttemptsPolicy n) ctx = max_CanRetry n ctx"
| "CanRetry env now (SimplePolicy n c) ctx = simple_CanRetry env n c ctx"
| "CanRetry env now (TimeoutPolicy t) ctx = timeout_CanRetry now ctx"
| "CanRetry env now (ClassifierPolicy c) ctx = classifier_CanRetry env c ctx"
| "CanRetry env now (CompositePolicy ps optimistic) ctx =
     (case ctx of
        CompositeCtx s ctxs policies \<Rightarrow>
          go_bind (CanRetry_each env now policies ctxs) (\<lambda>bs. Ret (if optimistic then list_ex id bs else list_all id bs))
      | _ \<Rightarrow> Panic ''interface conversion'')"
| "CanRetry_each env now policies [] = Ret []"
| "CanRetry_each env now [] (ctx # ctxs) = Panic ''index out of range''"
| "CanRetry_each env now (p # policies) (ctx # ctxs) =
     go_bind (CanRetry env now p ctx) (\<lambda>b. go_bind (CanRetry_each env now policies ctxs) (\<lambda>bs. Ret (b # bs)))"

fun policy_RegisterError :: "string \<Rightarrow> rty_policy \<Rightarrow> rty_context \<Rightarrow> rty_context go"
  and RegisterError_each :: "string \<Rightarrow> rty_policy list \<Rightarrow> rty_context list \<Rightarrow> rty_context list go"
where
  "policy_RegisterError err (CompositePolicy ps opt) ctx =
     (case ctx of
        CompositeCtx s ctxs policies \<Rightarrow>
          go_bind (RegisterError_each err policies ctxs) (\<lambda>ctxs. Ret (CompositeCtx (support_RegisterError (Some err) s) ctxs policies))
      | _ \<Rightarrow> Panic ''interface conversion'')"
| "policy_RegisterError err (SimplePolicy n c) ctx = simple_RegisterError err ctx"
| "policy_RegisterError err (TimeoutPolicy t) ctx = timeout_RegisterError err ctx"
| "policy_RegisterError err (MaxAttemptsPolicy n) ctx = max_RegisterError err ctx"
| "policy_RegisterError err (ClassifierPolicy c) ctx = classifier_RegisterError err ctx"
| "policy_RegisterError err NeverPolicy ctx = never_RegisterError err ctx"
| "policy_RegisterError err AlwaysPolicy ctx = never_RegisterError err ctx"
| "RegisterError_each err policies [] = Ret []"
| "RegisterError_each err [] (ctx # ctxs) = Panic ''index out of range''"
| "RegisterError_each err (p # policies) (ctx # ctxs) =
     go_bind (policy_RegisterError err p ctx)
       (\<lambda>c. go_bind (RegisterError_each err policies ctxs) (\<lambda>cs. Ret (c # cs)))"

text \<open>Only a composite does anything to close: it closes each of its contexts.\<close>

fun policy_Close :: "rty_policy \<Rightarrow> rty_context \<Rightarrow> unit go"
  and Close_each :: "rty_policy list \<Rightarrow> rty_context list \<Rightarrow> unit go"
where
  "policy_Close (CompositePolicy ps opt) ctx =
     (case ctx of CompositeCtx s ctxs policies \<Rightarrow> Close_each policies ctxs | _ \<Rightarrow> Panic ''interface conversion'')"
| "policy_Close _ ctx = Ret ()"
| "Close_each policies [] = Ret ()"
| "Close_each [] (ctx # ctxs) = Panic ''index out of range''"
| "Close_each (p # policies) (ctx # ctxs) = go_bind (policy_Close p ctx) (\<lambda>_. Close_each policies ctxs)"

end
