(* ===== verification/RetryBackoff.thy ===== *)
theory RetryBackoff
  imports RetryPolicy
begin

text \<open>
  The backoff policies between two attempts, \<open>core/retry/backoff\<close>. A policy gives the times it sleeps for, in
  milliseconds; the sleeper that carries them out, and the lock around the context, are left out.
\<close>

definition DefaultInitialInterval :: i64 where "DefaultInitialInterval = 100"
definition DefaultMaxInterval :: i64 where "DefaultMaxInterval = 30000"
definition DefaultMultiplier :: i32 where "DefaultMultiplier = 2"
definition DefaultBackoffMinPeriodInMs :: i64 where "DefaultBackoffMinPeriodInMs = 500"
definition DefaultBackoffMaxPeriodInMs :: i64 where "DefaultBackoffMaxPeriodInMs = 1500"

record exp_backoff =
  xb_InitialInterval :: i64
  xb_MaxInterval :: i64
  xb_Multiplier :: i32

definition exp_NewInstance :: exp_backoff where
  "exp_NewInstance = \<lparr>xb_InitialInterval = DefaultInitialInterval, xb_MaxInterval = DefaultMaxInterval,
     xb_Multiplier = DefaultMultiplier\<rparr>"

definition SetInitialInterval :: "i64 \<Rightarrow> exp_backoff \<Rightarrow> exp_backoff" where
  "SetInitialInterval v e = e\<lparr>xb_InitialInterval := (if 1 <s v then v else 1)\<rparr>"

definition SetMultiplier :: "i32 \<Rightarrow> exp_backoff \<Rightarrow> exp_backoff" where
  "SetMultiplier v e = e\<lparr>xb_Multiplier := (if 1 <s v then v else 1)\<rparr>"

definition SetMaxInterval :: "i64 \<Rightarrow> exp_backoff \<Rightarrow> exp_backoff" where
  "SetMaxInterval v e = e\<lparr>xb_MaxInterval := (if 0 <s v then v else 1)\<rparr>"

definition CloneValues :: "exp_backoff \<Rightarrow> exp_backoff \<Rightarrow> exp_backoff" where
  "CloneValues e target =
     SetMultiplier (xb_Multiplier e) (SetInitialInterval (xb_InitialInterval e) (SetMaxInterval (xb_MaxInterval e) target))"

datatype backoff_policy =
    NoBackOff
  | FixedBackOff i64
  | UniformBackOff i64 i64
  | ExpBackOff exp_backoff
  | ExpRandomBackOff exp_backoff

text \<open>
  The copy of a policy with another sleeper. The random policy inherits that of the exponential one, and the
  uniform one goes back to the default periods.
\<close>

definition exp_WithSleeper :: "exp_backoff \<Rightarrow> backoff_policy" where
  "exp_WithSleeper e = ExpBackOff (CloneValues e exp_NewInstance)"

definition setBackOffPeriod :: "i64 \<Rightarrow> i64" where
  "setBackOffPeriod p = (if 0 <s p then p else 1)"

definition fixed_WithSleeper :: "i64 \<Rightarrow> backoff_policy" where
  "fixed_WithSleeper p = FixedBackOff (setBackOffPeriod p)"

definition uniform_WithSleeper :: "i64 \<Rightarrow> i64 \<Rightarrow> backoff_policy" where
  "uniform_WithSleeper lo hi = UniformBackOff DefaultBackoffMinPeriodInMs DefaultBackoffMaxPeriodInMs"

fun WithSleeper :: "backoff_policy \<Rightarrow> backoff_policy option" where
  "WithSleeper NoBackOff = None"
| "WithSleeper (FixedBackOff p) = Some (fixed_WithSleeper p)"
| "WithSleeper (UniformBackOff lo hi) = Some (uniform_WithSleeper lo hi)"
| "WithSleeper (ExpBackOff e) = Some (exp_WithSleeper e)"
| "WithSleeper (ExpRandomBackOff e) = Some (exp_WithSleeper e)"

section \<open>Backing off\<close>

record exp_context =
  xc_Multiplier :: i32
  xc_Interval :: i64
  xc_MaxInterval :: i64

definition GetNextInterval :: "exp_context \<Rightarrow> i64" where
  "GetNextInterval e = xc_Interval e * scast (xc_Multiplier e)"

definition GetSleepAndIncrement :: "exp_context \<Rightarrow> i64 \<times> exp_context" where
  "GetSleepAndIncrement e =
     (if xc_MaxInterval e <s xc_Interval e then (xc_MaxInterval e, e)
      else (xc_Interval e, e\<lparr>xc_Interval := GetNextInterval e\<rparr>))"

definition new_exp_context :: "exp_backoff \<Rightarrow> exp_context" where
  "new_exp_context e = \<lparr>xc_Multiplier = xb_Multiplier e, xc_Interval = xb_InitialInterval e, xc_MaxInterval = xb_MaxInterval e\<rparr>"

definition exp_Start :: "exp_backoff \<Rightarrow> exp_context option" where
  "exp_Start e = Some (new_exp_context e)"

definition random_Start :: "exp_backoff \<Rightarrow> exp_context option" where
  "random_Start e = Some (new_exp_context e)"

text \<open>The draw of round \<open>i\<close>: a bound that is not positive is a panic of the library.\<close>

definition rand_n :: "retry_env \<Rightarrow> nat \<Rightarrow> i64 \<Rightarrow> i64 go" where
  "rand_n env i n = (if n \<le>s 0 then Panic ''invalid argument to Int63n'' else Ret (re_rand env i n))"

definition random_GetSleepAndIncrement :: "retry_env \<Rightarrow> nat \<Rightarrow> exp_context \<Rightarrow> (i64 \<times> exp_context) go" where
  "random_GetSleepAndIncrement env i c =
     (let (sleep, c) = GetSleepAndIncrement c
      in go_bind (rand_n env i (scast (xc_Multiplier c))) (\<lambda>r. Ret (sleep * (1 + r), c)))"

definition no_BackOff :: "exp_context option \<Rightarrow> (i64 list \<times> exp_context option) go" where
  "no_BackOff c = Ret ([], c)"

definition fixed_BackOff :: "i64 \<Rightarrow> exp_context option \<Rightarrow> (i64 list \<times> exp_context option) go" where
  "fixed_BackOff p c = Ret ([p], c)"

definition uniform_BackOff :: "retry_env \<Rightarrow> nat \<Rightarrow> i64 \<Rightarrow> i64 \<Rightarrow> exp_context option \<Rightarrow> (i64 list \<times> exp_context option) go" where
  "uniform_BackOff env i lo hi c =
     go_bind (if hi = lo then Ret 0 else rand_n env i (hi - lo)) (\<lambda>delta. Ret ([lo + delta], c))"

definition exp_BackOff :: "exp_context option \<Rightarrow> (i64 list \<times> exp_context option) go" where
  "exp_BackOff c =
     (case c of
        None \<Rightarrow> Panic ''interface conversion''
      | Some c \<Rightarrow> let (sleep, c) = GetSleepAndIncrement c in Ret ([sleep], Some c))"

definition random_BackOff :: "retry_env \<Rightarrow> nat \<Rightarrow> exp_context option \<Rightarrow> (i64 list \<times> exp_context option) go" where
  "random_BackOff env i c =
     (case c of
        None \<Rightarrow> Panic ''interface conversion''
      | Some c \<Rightarrow> go_bind (random_GetSleepAndIncrement env i c) (\<lambda>(sleep, c). Ret ([sleep], Some c)))"

lemmas backoff_defs [simp] = exp_Start_def random_Start_def no_BackOff_def fixed_BackOff_def uniform_BackOff_def exp_BackOff_def
  random_BackOff_def random_GetSleepAndIncrement_def

fun backoff_Start :: "backoff_policy \<Rightarrow> exp_context option" where
  "backoff_Start (ExpBackOff e) = exp_Start e"
| "backoff_Start (ExpRandomBackOff e) = random_Start e"
| "backoff_Start _ = None"

fun BackOff :: "retry_env \<Rightarrow> nat \<Rightarrow> backoff_policy \<Rightarrow> exp_context option \<Rightarrow> (i64 list \<times> exp_context option) go" where
  "BackOff env i NoBackOff c = no_BackOff c"
| "BackOff env i (FixedBackOff p) c = fixed_BackOff p c"
| "BackOff env i (UniformBackOff lo hi) c = uniform_BackOff env i lo hi c"
| "BackOff env i (ExpBackOff e) c = exp_BackOff c"
| "BackOff env i (ExpRandomBackOff e) c = random_BackOff env i c"

end
