(* ===== verification/RetryTemplate.thy ===== *)
theory RetryTemplate
  imports RetryBackoff
begin

text \<open>
  The retry template (\<open>core/retry/support/retry_template.go\<close>) over \<open>util.Try\<close>, and its builder
  (\<open>retry_template_builder.go\<close>). The callback is a function of the round and the context: it returns a
  value, panics with an error or a text, or panics with anything else, which \<open>util.Try\<close> swallows; and it may
  mark the context as exhausted. Round \<open>i\<close> reads the clock as \<open>clk (2 * i + 1)\<close> before the attempt and as
  \<open>clk (2 * i + 2)\<close> after it. A listener is its \<open>Open\<close>, since no other method of a listener is ever reached.
  \<open>None\<close> stands for a run that does not return.
\<close>

section \<open>The template\<close>

datatype 'v attempt = Returns 'v | Raises string | RaisesOther

record retry_template =
  rt_BackOffPolicy :: backoff_policy
  rt_RetryPolicy :: rty_policy
  rt_Listeners :: "(rty_context \<Rightarrow> bool) list"

type_synonym 'v rty_callback = "nat \<Rightarrow> rty_context \<Rightarrow> 'v attempt \<times> bool"
type_synonym rty_recover = "rty_context \<Rightarrow> string option attempt"

definition template_DeepCopy :: "retry_template \<Rightarrow> retry_template" where
  "template_DeepCopy t = \<lparr>rt_BackOffPolicy = rt_BackOffPolicy t, rt_RetryPolicy = rt_RetryPolicy t, rt_Listeners = rt_Listeners t\<rparr>"

text \<open>The loops over the listeners after an attempt start at \<open>len(r.Listeners)\<close>, one past the last.\<close>

definition after_interceptors :: "retry_template \<Rightarrow> unit go" where
  "after_interceptors t = (if 0 < length (rt_Listeners t) then Panic ''index out of range'' else Ret ())"

definition doOnSuccessInterceptors :: "retry_template \<Rightarrow> unit go" where
  "doOnSuccessInterceptors t = after_interceptors t"

definition doOnErrorInterceptors :: "retry_template \<Rightarrow> unit go" where
  "doOnErrorInterceptors t = after_interceptors t"

definition doCloseInterceptors :: "retry_template \<Rightarrow> unit go" where
  "doCloseInterceptors t = after_interceptors t"

definition doOpenInterceptors :: "retry_template \<Rightarrow> rty_context \<Rightarrow> bool" where
  "doOpenInterceptors t ctx = list_all (\<lambda>open. open ctx) (rt_Listeners t)"

text \<open>A state is not supported yet: \<open>open\<close> gives no context for one.\<close>

definition template_open :: "i64 \<Rightarrow> rty_policy \<Rightarrow> bool \<Rightarrow> rty_context option" where
  "template_open now policy has_state = (if \<not> has_state then Some (policy_Open now policy) else None)"

definition template_canRetry :: "retry_env \<Rightarrow> i64 \<Rightarrow> rty_policy \<Rightarrow> rty_context \<Rightarrow> bool go" where
  "template_canRetry env now policy ctx = CanRetry env now policy ctx"

definition template_registerError :: "rty_policy \<Rightarrow> rty_context \<Rightarrow> string \<Rightarrow> rty_context go" where
  "template_registerError policy ctx err = policy_RegisterError err policy ctx"

definition template_close :: "rty_policy \<Rightarrow> rty_context \<Rightarrow> rty_context go" where
  "template_close policy ctx =
     go_bind (policy_Close policy ctx) (\<lambda>_. Ret (on_base (SetAttribute ''context.closed'' (Some (AttrBool True))) ctx))"

section \<open>A run\<close>

record rty_run =
  ru_ctx :: rty_context
  ru_backOff :: "exp_context option"
  ru_sleeps :: "i64 list"
  ru_calls :: nat
  ru_lastError :: "string option"

text \<open>How the loop is left: with a value, because the policy gave up, or with a panic for the outer \<open>Try\<close>.\<close>

datatype 'v rty_exit = GotResult 'v | GaveUp | Threw string

text \<open>The handler of a failed attempt.\<close>

definition on_failure ::
  "retry_env \<Rightarrow> i64 \<Rightarrow> retry_template \<Rightarrow> nat \<Rightarrow> string \<Rightarrow> rty_run \<Rightarrow> ('v rty_exit \<times> rty_run) + rty_run" where
  "on_failure env now t i err st =
     (let st = st\<lparr>ru_lastError := Some err\<rparr>
      in case template_registerError (rt_RetryPolicy t) (ru_ctx st) err of
           Ret ctx \<Rightarrow>
             (let st = st\<lparr>ru_ctx := ctx\<rparr>
              in case go_bind (doOnErrorInterceptors t) (\<lambda>_.
                        go_bind (template_canRetry env now (rt_RetryPolicy t) ctx) (\<lambda>ok.
                          if ok \<and> \<not> IsExhaustedOnly ctx then BackOff env i (rt_BackOffPolicy t) (ru_backOff st)
                          else Ret ([], ru_backOff st))) of
                   Ret (sleeps, bctx) \<Rightarrow> Inr (st\<lparr>ru_sleeps := ru_sleeps st @ sleeps, ru_backOff := bctx\<rparr>)
                 | Err p \<Rightarrow> Inl (Threw p, st)
                 | Panic p \<Rightarrow> Inl (Threw p, st))
         | Err p \<Rightarrow> Inl (Threw p, st)
         | Panic p \<Rightarrow> Inl (Threw p, st))"

text \<open>One round: a panic of an interceptor after a successful attempt is a failure of the attempt.\<close>

definition retry_round ::
  "retry_env \<Rightarrow> (nat \<Rightarrow> i64) \<Rightarrow> retry_template \<Rightarrow> 'v rty_callback \<Rightarrow> nat \<Rightarrow> rty_run \<Rightarrow> ('v rty_exit \<times> rty_run) + rty_run" where
  "retry_round env clk t callback i st =
     (case template_canRetry env (clk (2 * i + 1)) (rt_RetryPolicy t) (ru_ctx st) of
        Ret ok \<Rightarrow>
          if \<not> ok \<or> IsExhaustedOnly (ru_ctx st) then Inl (GaveUp, st)
          else
            let (res, exhaust) = callback i (ru_ctx st);
                st = st\<lparr>ru_lastError := None, ru_calls := Suc (ru_calls st),
                       ru_ctx := (if exhaust then SetExhaustedOnly (ru_ctx st) else ru_ctx st)\<rparr>
            in case res of
                 Returns v \<Rightarrow>
                   (case doOnSuccessInterceptors t of
                      Ret _ \<Rightarrow> Inl (GotResult v, st)
                    | Err p \<Rightarrow> on_failure env (clk (2 * i + 2)) t i p st
                    | Panic p \<Rightarrow> on_failure env (clk (2 * i + 2)) t i p st)
               | Raises err \<Rightarrow> on_failure env (clk (2 * i + 2)) t i err st
               | RaisesOther \<Rightarrow> Inr st
      | Err p \<Rightarrow> Inl (Threw p, st)
      | Panic p \<Rightarrow> Inl (Threw p, st))"

partial_function (option) retry_loop ::
  "retry_env \<Rightarrow> (nat \<Rightarrow> i64) \<Rightarrow> retry_template \<Rightarrow> 'v rty_callback \<Rightarrow> nat \<Rightarrow> rty_run \<Rightarrow> ('v rty_exit \<times> rty_run) option" where
  "retry_loop env clk t callback i st =
     (case retry_round env clk t callback i st of
        Inl r \<Rightarrow> Some r
      | Inr st \<Rightarrow> retry_loop env clk t callback (Suc i) st)"

text \<open>What \<open>Execute\<close> returns: the value, which may be the error of a recovery, and the error.\<close>

datatype 'v rty_value = NilValue | Value 'v | ErrorValue string

record 'v rty_done =
  rd_result :: "'v rty_value"
  rd_err :: "string option"
  rd_run :: rty_run

text \<open>The recovery, or the last error. A recovery that panics with anything but an error or a text is one that
  returned nothing.\<close>

definition handleRetryExhausted :: "rty_recover option \<Rightarrow> rty_context \<Rightarrow> ('v rty_value \<times> string option) \<times> rty_context" where
  "handleRetryExhausted recover ctx =
     (let ctx = on_base (SetAttribute ''context.exhausted'' (Some (AttrBool True))) ctx
      in case recover of
           Some f \<Rightarrow>
             (case f ctx of
                Returns e \<Rightarrow> ((case e of None \<Rightarrow> NilValue | Some e \<Rightarrow> ErrorValue e, None), on_base (SetAttribute ''context.recovered'' (Some (AttrBool True))) ctx)
              | Raises p \<Rightarrow> ((NilValue, Some p), ctx)
              | RaisesOther \<Rightarrow> ((NilValue, None), ctx))
         | None \<Rightarrow>
             ((NilValue, case GetLastError ctx of None \<Rightarrow> Some ''exception in retry'' | Some e \<Rightarrow> Some e), ctx))"

text \<open>The last part, \<open>Finally\<close>: closing, and the interceptors, whose panic nothing catches.\<close>

definition finally_close :: "retry_template \<Rightarrow> 'v rty_value \<times> string option \<Rightarrow> rty_run \<Rightarrow> 'v rty_done go" where
  "finally_close t res st =
     go_bind (template_close (rt_RetryPolicy t) (ru_ctx st)) (\<lambda>ctx.
       go_bind (doCloseInterceptors t) (\<lambda>_.
         Ret \<lparr>rd_result = fst res, rd_err = snd res, rd_run = st\<lparr>ru_ctx := ctx\<rparr>\<rparr>))"

definition ExecuteWithRecoverAndState ::
  "retry_env \<Rightarrow> (nat \<Rightarrow> i64) \<Rightarrow> retry_template \<Rightarrow> 'v rty_callback \<Rightarrow> rty_recover option \<Rightarrow> bool \<Rightarrow> 'v rty_done go option" where
  "ExecuteWithRecoverAndState env clk t callback recover has_state =
     (case template_open (clk 0) (rt_RetryPolicy t) has_state of
        None \<Rightarrow> Some (Panic ''nil pointer dereference'')
      | Some ctx \<Rightarrow>
          let st = \<lparr>ru_ctx = ctx, ru_backOff = None, ru_sleeps = [], ru_calls = 0, ru_lastError = None\<rparr>
          in if \<not> doOpenInterceptors t ctx then
               Some (finally_close t (NilValue, Some ''retry terminated abnormally by interceptor before first attempt'') st)
             else
               let bctx = backoff_Start (rt_BackOffPolicy t);
                   st = st\<lparr>ru_backOff := bctx, ru_ctx := (if bctx \<noteq> None
                            then on_base (SetAttribute ''backOffContext'' (Some AttrBackOff)) ctx else ctx)\<rparr>
               in case retry_loop env clk t callback 0 st of
                    None \<Rightarrow> None
                  | Some (GotResult v, st) \<Rightarrow> Some (finally_close t (Value v, None) st)
                  | Some (GaveUp, st) \<Rightarrow>
                      let (res, ctx) = handleRetryExhausted recover (ru_ctx st)
                      in Some (finally_close t res (st\<lparr>ru_ctx := ctx\<rparr>))
                  | Some (Threw p, st) \<Rightarrow> Some (finally_close t (NilValue, Some p) st))"

definition ExecuteWithState ::
  "retry_env \<Rightarrow> (nat \<Rightarrow> i64) \<Rightarrow> retry_template \<Rightarrow> 'v rty_callback \<Rightarrow> bool \<Rightarrow> 'v rty_done go option" where
  "ExecuteWithState env clk t callback has_state = ExecuteWithRecoverAndState env clk t callback None has_state"

definition ExecuteWithRecover ::
  "retry_env \<Rightarrow> (nat \<Rightarrow> i64) \<Rightarrow> retry_template \<Rightarrow> 'v rty_callback \<Rightarrow> rty_recover option \<Rightarrow> 'v rty_done go option" where
  "ExecuteWithRecover env clk t callback recover = ExecuteWithRecoverAndState env clk t callback recover False"

definition template_Execute :: "retry_env \<Rightarrow> (nat \<Rightarrow> i64) \<Rightarrow> retry_template \<Rightarrow> 'v rty_callback \<Rightarrow> 'v rty_done go option" where
  "template_Execute env clk t callback = ExecuteWithState env clk t callback False"

section \<open>The builder\<close>

record template_builder =
  tb_BaseRtyPolicy :: "rty_policy option"
  tb_BackOffPolicy :: "backoff_policy option"
  tb_Listeners :: "(rty_context \<Rightarrow> bool) list"
  tb_ClassifierBuilder :: "classifier_builder option"
  tb_ErrorMatcher :: i32

definition NewRetryTemplateBuilder :: template_builder where
  "NewRetryTemplateBuilder = \<lparr>tb_BaseRtyPolicy = None, tb_BackOffPolicy = None, tb_Listeners = [],
     tb_ClassifierBuilder = None, tb_ErrorMatcher = ExactMatch\<rparr>"

definition CustomPolicyRtyPolicy :: "rty_policy \<Rightarrow> template_builder \<Rightarrow> template_builder go" where
  "CustomPolicyRtyPolicy p e =
     (if tb_BaseRtyPolicy e \<noteq> None then Panic ''You have already selected backoff policy''
      else Ret (e\<lparr>tb_BaseRtyPolicy := Some p\<rparr>))"

definition NeverRtyPolicy :: "template_builder \<Rightarrow> template_builder go" where
  "NeverRtyPolicy e = CustomPolicyRtyPolicy NeverPolicy e"

definition SimpleRtyPolicy :: "i32 \<Rightarrow> string list \<Rightarrow> template_builder \<Rightarrow> template_builder go" where
  "SimpleRtyPolicy maxAttempts errs e =
     CustomPolicyRtyPolicy (if maxAttempts \<le>s 0 then NewSimpleRetryPolicy
       else NewSimpleRetryPolicyWithMaxAttemptsAndErrors maxAttempts errs) e"

definition MaxAttemptsRtyPolicy :: "i32 \<Rightarrow> template_builder \<Rightarrow> template_builder go" where
  "MaxAttemptsRtyPolicy maxAttempts e =
     CustomPolicyRtyPolicy (MaxAttemptsPolicy (if maxAttempts \<le>s 0 then DefaultMaxRetryAttempts else maxAttempts)) e"

definition WithinMillisRtyPolicy :: "i64 \<Rightarrow> template_builder \<Rightarrow> template_builder go" where
  "WithinMillisRtyPolicy timeoutInMs e =
     CustomPolicyRtyPolicy (TimeoutPolicy (if timeoutInMs \<le>s 0 then DefaultTimeout else timeoutInMs)) e"

definition InfiniteRtyPolicy :: "template_builder \<Rightarrow> template_builder go" where
  "InfiniteRtyPolicy e = CustomPolicyRtyPolicy AlwaysPolicy e"

definition CustomBackOff :: "backoff_policy \<Rightarrow> template_builder \<Rightarrow> template_builder" where
  "CustomBackOff p e = e\<lparr>tb_BackOffPolicy := Some p\<rparr>"

definition ExponentialBackoffWithRandom :: "i64 \<Rightarrow> i32 \<Rightarrow> i64 \<Rightarrow> bool \<Rightarrow> template_builder \<Rightarrow> template_builder" where
  "ExponentialBackoffWithRandom initialInterval multiplier maxInterval withRandom e =
     (let p = SetMaxInterval maxInterval (SetMultiplier multiplier (SetInitialInterval initialInterval
            \<lparr>xb_InitialInterval = 0, xb_MaxInterval = 0, xb_Multiplier = 0\<rparr>))
      in CustomBackOff (if withRandom then ExpRandomBackOff p else ExpBackOff p) e)"

definition ExponentialBackoff :: "i64 \<Rightarrow> i32 \<Rightarrow> i64 \<Rightarrow> template_builder \<Rightarrow> template_builder" where
  "ExponentialBackoff initialInterval multiplier maxInterval e =
     ExponentialBackoffWithRandom initialInterval multiplier maxInterval False e"

definition FixedBackoff :: "i64 \<Rightarrow> template_builder \<Rightarrow> template_builder" where
  "FixedBackoff interval e = CustomBackOff (FixedBackOff interval) e"

definition UniformRandomBackoff :: "i64 \<Rightarrow> i64 \<Rightarrow> template_builder \<Rightarrow> template_builder" where
  "UniformRandomBackoff minInterval maxInterval e = CustomBackOff (UniformBackOff minInterval maxInterval) e"

definition NoBackoff :: "template_builder \<Rightarrow> template_builder" where
  "NoBackoff e = CustomBackOff NoBackOff e"

definition builder_classifier :: "template_builder \<Rightarrow> classifier_builder" where
  "builder_classifier e =
     (case tb_ClassifierBuilder e of Some c \<Rightarrow> c | None \<Rightarrow> \<lparr>cb_IsWhiteList = None, cb_Errors = []\<rparr>)"

definition builder_RetryOn :: "string \<Rightarrow> template_builder \<Rightarrow> template_builder go" where
  "builder_RetryOn err e =
     go_bind (classifier_RetryOn err (builder_classifier e)) (\<lambda>c. Ret (e\<lparr>tb_ClassifierBuilder := Some c\<rparr>))"

definition builder_NotRetryOn :: "string \<Rightarrow> template_builder \<Rightarrow> template_builder go" where
  "builder_NotRetryOn err e =
     go_bind (classifier_NotRetryOn err (builder_classifier e)) (\<lambda>c. Ret (e\<lparr>tb_ClassifierBuilder := Some c\<rparr>))"

fun RetryOnErrors :: "string list \<Rightarrow> template_builder \<Rightarrow> template_builder go" where
  "RetryOnErrors [] e = Ret e"
| "RetryOnErrors (err # errs) e = go_bind (builder_RetryOn err e) (RetryOnErrors errs)"

fun NotRetryOnErrors :: "string list \<Rightarrow> template_builder \<Rightarrow> template_builder go" where
  "NotRetryOnErrors [] e = Ret e"
| "NotRetryOnErrors (err # errs) e = go_bind (builder_NotRetryOn err e) (NotRetryOnErrors errs)"

definition WithErrorMatchPattern :: "i32 \<Rightarrow> template_builder \<Rightarrow> template_builder" where
  "WithErrorMatchPattern errorMatcher e = e\<lparr>tb_ErrorMatcher := errorMatcher\<rparr>"

definition WithListeners :: "(rty_context \<Rightarrow> bool) list \<Rightarrow> template_builder \<Rightarrow> template_builder" where
  "WithListeners listeners e = e\<lparr>tb_Listeners := tb_Listeners e @ listeners\<rparr>"

definition builder_Build :: "template_builder \<Rightarrow> retry_template" where
  "builder_Build e =
     (let errClassifier = (case tb_ClassifierBuilder e of
            Some c \<Rightarrow> classifier_Build (tb_ErrorMatcher e) c
          | None \<Rightarrow> \<lparr>ec_DefaultValue = False, ec_Classified = [''any''], ec_Matcher = AnyMatch\<rparr>);
          base = (case tb_BaseRtyPolicy e of Some p \<Rightarrow> p | None \<Rightarrow> MaxAttemptsPolicy DefaultMaxRetryAttempts)
      in \<lparr>rt_BackOffPolicy = (case tb_BackOffPolicy e of Some b \<Rightarrow> b | None \<Rightarrow> NoBackOff),
          rt_RetryPolicy = CompositePolicy [base, ClassifierPolicy errClassifier] False,
          rt_Listeners = tb_Listeners e\<rparr>)"

end
