(* ===== verification/RetryManager.thy ===== *)
theory RetryManager
  imports RetryTemplate RuleLoad GoStrings
begin

text \<open>
  The retry rules and their manager, \<open>core/retry/rule\<close>: a load keeps the valid rules of each resource and
  builds the template from the first of them. A slice is an option, since \<open>reflect.DeepEqual\<close> tells a nil slice
  from an empty one. A panic while \<open>rwMux\<close> is held leaves it locked; \<open>None\<close> is a call that waits for it for ever.
\<close>

section \<open>Rules\<close>

definition NeverRetryPolicy :: i32 where "NeverRetryPolicy = 0"
definition SimpleRetryPolicy :: i32 where "SimpleRetryPolicy = 1"
definition TimeoutRtyPolicy :: i32 where "TimeoutRtyPolicy = 2"
definition MaxAttemptsRetryPolicy :: i32 where "MaxAttemptsRetryPolicy = 3"
definition ErrorClassifierRetryPolicy :: i32 where "ErrorClassifierRetryPolicy = 4"
definition AlwaysRetryPolicy :: i32 where "AlwaysRetryPolicy = 5"
definition CompositeRetryPolicy :: i32 where "CompositeRetryPolicy = 6"
definition CustomPolicyRty :: i32 where "CustomPolicyRty = 7"

definition RetryPolicyType_String :: "i32 \<Rightarrow> string" where
  "RetryPolicyType_String t =
     (if t = NeverRetryPolicy then ''NeverRetryPolicy'' else if t = SimpleRetryPolicy then ''SimpleRetryPolicy''
      else if t = TimeoutRtyPolicy then ''TimeoutRtyPolicy'' else if t = MaxAttemptsRetryPolicy then ''MaxAttemptsRetryPolicy''
      else if t = ErrorClassifierRetryPolicy then ''ErrorClassifierRetryPolicy''
      else if t = AlwaysRetryPolicy then ''AlwaysRetryPolicy'' else if t = CompositeRetryPolicy then ''CompositeRetryPolicy''
      else if t = CustomPolicyRty then ''CustomPolicyRtyPolicy'' else FormatInt (sint t))"

definition NoBackOffPolicy :: i32 where "NoBackOffPolicy = 0"
definition FixedBackOffPolicy :: i32 where "FixedBackOffPolicy = 1"
definition ExponentialBackOffPolicy :: i32 where "ExponentialBackOffPolicy = 2"
definition ExponentialRandomBackOffPolicy :: i32 where "ExponentialRandomBackOffPolicy = 3"
definition UniformRandomBackoffPolicy :: i32 where "UniformRandomBackoffPolicy = 4"

definition BackoffPolicyType_String :: "i32 \<Rightarrow> string" where
  "BackoffPolicyType_String t =
     (if t = NoBackOffPolicy then ''NoBackOffPolicy'' else if t = FixedBackOffPolicy then ''FixedBackOffPolicy''
      else if t = ExponentialBackOffPolicy then ''ExponentialBackOffPolicy''
      else if t = ExponentialRandomBackOffPolicy then ''ExponentialRandomBackOffPolicy''
      else if t = UniformRandomBackoffPolicy then ''UniformRandomBackoffPolicy'' else FormatInt (sint t))"

definition ErrorMatcherType_String :: "i32 \<Rightarrow> string" where
  "ErrorMatcherType_String t =
     (if t = ExactMatch then ''ExactMatch'' else if t = PrefixMatch then ''PrefixMatch''
      else if t = SuffixMatch then ''SuffixMatch'' else if t = ContainMatch then ''ContainMatch''
      else if t = RegularMatch then ''RegularMatch'' else if t = AnyMatch then ''AnyMatch'' else FormatInt (sint t))"

record rty_item =
  yi_Key :: string
  yi_Values :: "string list option"

record rty_rule =
  yr_Id :: string
  yr_App :: string
  yr_RuleName :: string
  yr_Resource :: string
  yr_RetryPolicy :: i32
  yr_RetryMaxAttempts :: i32
  yr_RetryTimeout :: i64
  yr_BackoffPolicy :: i32
  yr_FixedBackOffPeriodInMs :: i64
  yr_BackoffDelay :: i64
  yr_BackoffMaxDelay :: i64
  yr_BackoffMultiplier :: i32
  yr_UniformMinBackoffPeriod :: i64
  yr_UniformMaxBackoffPeriod :: i64
  yr_ErrorMatcher :: i32
  yr_IncludeExceptions :: "string list option"
  yr_ExcludeExceptions :: "string list option"
  yr_SpecificItems :: "rty_item list option"

definition elems :: "'a list option \<Rightarrow> 'a list" where
  "elems s = (case s of None \<Rightarrow> [] | Some xs \<Rightarrow> xs)"

definition rty_isStatReusable :: "rty_rule \<Rightarrow> rty_rule option \<Rightarrow> bool" where
  "rty_isStatReusable r new =
     (case new of
        None \<Rightarrow> False
      | Some n \<Rightarrow>
          yr_Resource r = yr_Resource n \<and> yr_RetryPolicy r = yr_RetryPolicy n \<and> yr_RetryMaxAttempts r = yr_RetryMaxAttempts n \<and>
          yr_RetryTimeout r = yr_RetryTimeout n \<and> yr_BackoffPolicy r = yr_BackoffPolicy n \<and>
          yr_FixedBackOffPeriodInMs r = yr_FixedBackOffPeriodInMs n \<and> yr_BackoffDelay r = yr_BackoffDelay n \<and>
          yr_BackoffMultiplier r = yr_BackoffMultiplier n \<and> yr_UniformMinBackoffPeriod r = yr_UniformMinBackoffPeriod n \<and>
          yr_UniformMaxBackoffPeriod r = yr_UniformMaxBackoffPeriod n \<and> yr_ErrorMatcher r = yr_ErrorMatcher n \<and>
          elems (yr_IncludeExceptions r) = elems (yr_IncludeExceptions n) \<and>
          elems (yr_ExcludeExceptions r) = elems (yr_ExcludeExceptions n) \<and>
          list_all2 (\<lambda>i j. yi_Key i = yi_Key j \<and> elems (yi_Values i) = elems (yi_Values j))
            (elems (yr_SpecificItems r)) (elems (yr_SpecificItems n)))"

definition rty_isEqualsToBase :: "rty_rule \<Rightarrow> rty_rule option \<Rightarrow> bool" where
  "rty_isEqualsToBase r n = rty_isStatReusable r n"

definition rty_isEqualTo :: "rty_rule \<Rightarrow> rty_rule option \<Rightarrow> bool" where
  "rty_isEqualTo r n = rty_isEqualsToBase r n"

definition rty_IsValidRule :: "rty_rule option \<Rightarrow> string option" where
  "rty_IsValidRule r =
     (case r of
        None \<Rightarrow> Some ''nil isolation rule''
      | Some r \<Rightarrow> if length (yr_Resource r) = 0 then Some ''empty resource of isolation rule'' else None)"

section \<open>The template of a rule\<close>

definition set_retry_policy :: "rty_rule \<Rightarrow> template_builder \<Rightarrow> template_builder go" where
  "set_retry_policy rule b =
     (if yr_RetryPolicy rule = NeverRetryPolicy then NeverRtyPolicy b
      else if yr_RetryPolicy rule = SimpleRetryPolicy then
        SimpleRtyPolicy (yr_RetryMaxAttempts rule) (elems (yr_ExcludeExceptions rule)) b
      else if yr_RetryPolicy rule = TimeoutRtyPolicy then WithinMillisRtyPolicy (yr_RetryTimeout rule) b
      else if yr_RetryPolicy rule = MaxAttemptsRetryPolicy then MaxAttemptsRtyPolicy (yr_RetryMaxAttempts rule) b
      else if yr_RetryPolicy rule = AlwaysRetryPolicy then InfiniteRtyPolicy b
      else Ret b)"

definition set_backoff_policy :: "rty_rule \<Rightarrow> template_builder \<Rightarrow> template_builder" where
  "set_backoff_policy rule b =
     (if yr_BackoffPolicy rule = NoBackOffPolicy then NoBackoff b
      else if yr_BackoffPolicy rule = FixedBackOffPolicy then FixedBackoff (yr_FixedBackOffPeriodInMs rule) b
      else if yr_BackoffPolicy rule = ExponentialBackOffPolicy then
        ExponentialBackoff (yr_BackoffDelay rule) (yr_BackoffMultiplier rule) (yr_BackoffMaxDelay rule) b
      else if yr_BackoffPolicy rule = ExponentialRandomBackOffPolicy then
        ExponentialBackoffWithRandom (yr_BackoffDelay rule) (yr_BackoffMultiplier rule) (yr_BackoffMaxDelay rule) True b
      else if yr_BackoffPolicy rule = UniformRandomBackoffPolicy then
        UniformRandomBackoff (yr_UniformMinBackoffPeriod rule) (yr_UniformMaxBackoffPeriod rule) b
      else b)"

text \<open>The first rule decides, also when the list holds others; a nil template is \<open>None\<close>.\<close>

definition buildResourceRetryTemplate :: "string \<Rightarrow> rty_rule option list \<Rightarrow> retry_template option go" where
  "buildResourceRetryTemplate res resRule =
     (case resRule of
        [] \<Rightarrow> Ret None
      | None # _ \<Rightarrow> Panic ''nil pointer dereference''
      | Some rule # _ \<Rightarrow>
          if res \<noteq> yr_Resource rule then Ret None
          else if yr_RetryPolicy rule <s NeverRetryPolicy \<or> CustomPolicyRty <s yr_RetryPolicy rule then Ret None
          else go_bind (set_retry_policy rule NewRetryTemplateBuilder) (\<lambda>b.
            if yr_BackoffPolicy rule <s NoBackOffPolicy \<or> UniformRandomBackoffPolicy <s yr_BackoffPolicy rule then Ret None
            else
              let b = WithErrorMatchPattern (yr_ErrorMatcher rule) (set_backoff_policy rule b)
              in if elems (yr_IncludeExceptions rule) \<noteq> [] \<and> elems (yr_ExcludeExceptions rule) \<noteq> [] then Ret None
                 else go_bind (RetryOnErrors (elems (yr_IncludeExceptions rule)) b) (\<lambda>b.
                        go_bind (NotRetryOnErrors (elems (yr_ExcludeExceptions rule)) b) (\<lambda>b. Ret (Some (builder_Build b))))))"

section \<open>The manager\<close>

record rty_manager =
  ym_ruleMap :: "(string, rty_rule list) gomap"
  ym_currentRules :: "(string, rty_rule option list) gomap"
  ym_rtMap :: "(string, retry_template option) gomap"
  ym_locked :: bool

fun build_templates :: "(string \<times> rty_rule list) list \<Rightarrow> (string, retry_template option) gomap go" where
  "build_templates [] = Ret []"
| "build_templates ((res, rules) # rest) =
     go_bind (buildResourceRetryTemplate res (map Some rules)) (\<lambda>t. go_bind (build_templates rest) (\<lambda>m. Ret ((res, t) # m)))"

definition rty_onRuleUpdate :: "(string, rty_rule option list) gomap \<Rightarrow> rty_manager \<Rightarrow> (string option \<times> rty_manager) option" where
  "rty_onRuleUpdate raw m =
     (let valid = valid_map rty_IsValidRule raw
      in case build_templates valid of
           Ret rt \<Rightarrow>
             if ym_locked m then None
             else Some (None, m\<lparr>ym_ruleMap := valid, ym_rtMap := rt, ym_currentRules := raw\<rparr>)
         | Err e \<Rightarrow> Some (Some e, m)
         | Panic p \<Rightarrow> Some (Some p, m))"

definition rty_LoadRules :: "rty_rule option list \<Rightarrow> rty_manager \<Rightarrow> ((bool \<times> string option) go \<times> rty_manager) option" where
  "rty_LoadRules rules m =
     (case group_rules yr_Resource rules [] of
        Ret raw \<Rightarrow>
          if meq (ym_currentRules m) raw then Some (Ret (False, None), m)
          else map_option (\<lambda>(err, m). (Ret (True, err), m)) (rty_onRuleUpdate raw m)
      | Err e \<Rightarrow> Some (Err e, m)
      | Panic p \<Rightarrow> Some (Panic p, m))"

definition rty_ClearRules :: "rty_manager \<Rightarrow> ((bool \<times> string option) go \<times> rty_manager) option" where
  "rty_ClearRules m = rty_LoadRules [] m"

text \<open>The template is built from the raw rules, under the lock.\<close>

definition rty_onResourceUpdate :: "string \<Rightarrow> rty_rule option list \<Rightarrow> rty_manager \<Rightarrow> (string option go \<times> rty_manager) option" where
  "rty_onResourceUpdate res raw m =
     (let valid = valid_rules rty_IsValidRule raw
      in if ym_locked m then None
         else if valid = [] then
           Some (Ret None, m\<lparr>ym_ruleMap := mdel res (ym_ruleMap m), ym_rtMap := mdel res (ym_rtMap m),
             ym_currentRules := mput res raw (ym_currentRules m)\<rparr>)
         else
           let m = m\<lparr>ym_ruleMap := mput res valid (ym_ruleMap m)\<rparr>
           in case buildResourceRetryTemplate res raw of
                Ret t \<Rightarrow> Some (Ret None, m\<lparr>ym_rtMap := mput res t (ym_rtMap m), ym_currentRules := mput res raw (ym_currentRules m)\<rparr>)
              | Err e \<Rightarrow> Some (Err e, m\<lparr>ym_locked := True\<rparr>)
              | Panic p \<Rightarrow> Some (Panic p, m\<lparr>ym_locked := True\<rparr>))"

definition rty_LoadRulesOfResource ::
  "string \<Rightarrow> rty_rule option list \<Rightarrow> rty_manager \<Rightarrow> ((bool \<times> string option) go \<times> rty_manager) option" where
  "rty_LoadRulesOfResource res rules m =
     (if length res = 0 then Some (Ret (False, Some ''empty resource''), m)
      else if length rules = 0 then
        (if ym_locked m then None
         else Some (Ret (True, None), m\<lparr>ym_currentRules := mdel res (ym_currentRules m), ym_ruleMap := mdel res (ym_ruleMap m)\<rparr>))
      else if mget (ym_currentRules m) res = Some rules then Some (Ret (False, None), m)
      else map_option (\<lambda>(r, m). (go_bind r (\<lambda>err. Ret (True, err)), m)) (rty_onResourceUpdate res rules m))"

definition rty_rulesFrom :: "(string, rty_rule list) gomap \<Rightarrow> rty_rule list" where
  "rty_rulesFrom m = concat (map snd m)"

definition rty_GetRules :: "rty_manager \<Rightarrow> rty_rule list option" where
  "rty_GetRules m = (if ym_locked m then None else Some (rty_rulesFrom (ym_ruleMap m)))"

definition rty_GetRulesOfResource :: "string \<Rightarrow> rty_manager \<Rightarrow> rty_rule list option" where
  "rty_GetRulesOfResource res m = (if ym_locked m then None else Some (mget_list (ym_ruleMap m) res))"

definition getRetryTemplatesOfResource :: "string \<Rightarrow> rty_manager \<Rightarrow> retry_template option option" where
  "getRetryTemplatesOfResource res m =
     (if ym_locked m then None else Some (case mget (ym_rtMap m) res of None \<Rightarrow> None | Some t \<Rightarrow> t))"

definition GetRetryTemplateOfResource :: "string \<Rightarrow> rty_manager \<Rightarrow> retry_template option option" where
  "GetRetryTemplateOfResource res m = map_option (map_option template_DeepCopy) (getRetryTemplatesOfResource res m)"

end
