(* ===== verification/RetryRuns.thy ===== *)
theory RetryRuns
  imports RetryTemplate
begin

text \<open>
  What a run of a retry template does. A scenario fixes what each attempt would do; the round in which the
  run ends, and all that comes out of it, are then read off the scenario, without a loop.
\<close>

section \<open>Scenarios\<close>

record 'v scenario =
  sn_env :: retry_env
  sn_clk :: "nat \<Rightarrow> i64"
  sn_base :: rty_policy
  sn_classifier :: classifier
  sn_backoff :: backoff_policy
  sn_out :: "nat \<Rightarrow> 'v attempt"
  sn_exhaust :: "nat \<Rightarrow> bool"

text \<open>The template is one the builder makes, without listeners.\<close>

definition sn_template :: "'v scenario \<Rightarrow> retry_template" where
  "sn_template s = \<lparr>rt_BackOffPolicy = sn_backoff s,
     rt_RetryPolicy = CompositePolicy [sn_base s, ClassifierPolicy (sn_classifier s)] False, rt_Listeners = []\<rparr>"

definition sn_callback :: "'v scenario \<Rightarrow> 'v rty_callback" where
  "sn_callback s i ctx = (sn_out s i, sn_exhaust s i)"

text \<open>The errors of the first \<open>i\<close> attempts, and whether one of them marked the context.\<close>

fun sn_errs :: "'v scenario \<Rightarrow> nat \<Rightarrow> string list" where
  "sn_errs s 0 = []"
| "sn_errs s (Suc i) = sn_errs s i @ (case sn_out s i of Raises e \<Rightarrow> [e] | _ \<Rightarrow> [])"

fun sn_marked :: "'v scenario \<Rightarrow> nat \<Rightarrow> bool" where
  "sn_marked s 0 = False"
| "sn_marked s (Suc i) = (sn_marked s i \<or> sn_exhaust s i)"

definition last_error :: "string list \<Rightarrow> string option" where
  "last_error errs = (if errs = [] then None else Some (last errs))"

text \<open>What the base policy asks for at a time, after some errors.\<close>

fun base_allows :: "retry_env \<Rightarrow> i64 \<Rightarrow> i64 \<Rightarrow> rty_policy \<Rightarrow> string list \<Rightarrow> bool" where
  "base_allows env start now NeverPolicy errs \<longleftrightarrow> errs \<noteq> []"
| "base_allows env start now AlwaysPolicy errs \<longleftrightarrow> True"
| "base_allows env start now (MaxAttemptsPolicy n) errs \<longleftrightarrow> of_nat (length errs) <s n"
| "base_allows env start now (SimplePolicy n c) errs \<longleftrightarrow>
     (errs = [] \<or> Classify env c (last_error errs)) \<and> of_nat (length errs) <s n"
| "base_allows env start now (TimeoutPolicy t) errs \<longleftrightarrow> now - start \<le>s t"
| "base_allows env start now (ClassifierPolicy c) errs \<longleftrightarrow> errs = [] \<or> Classify env c (last_error errs)"
| "base_allows env start now (CompositePolicy ps opt) errs \<longleftrightarrow> False"

definition sn_allows :: "'v scenario \<Rightarrow> i64 \<Rightarrow> string list \<Rightarrow> bool" where
  "sn_allows s now errs \<longleftrightarrow>
     base_allows (sn_env s) (sn_clk s 0) now (sn_base s) errs \<and>
     (errs = [] \<or> Classify (sn_env s) (sn_classifier s) (last_error errs))"

text \<open>Round \<open>i\<close> makes an attempt; the run ends in round \<open>i\<close>; the run pauses after round \<open>i\<close>.\<close>

definition sn_tries :: "'v scenario \<Rightarrow> nat \<Rightarrow> bool" where
  "sn_tries s i \<longleftrightarrow> sn_allows s (sn_clk s (2 * i + 1)) (sn_errs s i) \<and> \<not> sn_marked s i"

definition sn_ends :: "'v scenario \<Rightarrow> nat \<Rightarrow> bool" where
  "sn_ends s i \<longleftrightarrow> (sn_tries s i \<longrightarrow> (\<exists>v. sn_out s i = Returns v))"

definition sn_pauses :: "'v scenario \<Rightarrow> nat \<Rightarrow> bool" where
  "sn_pauses s i \<longleftrightarrow>
     (\<exists>e. sn_out s i = Raises e) \<and> sn_allows s (sn_clk s (2 * i + 2)) (sn_errs s (Suc i)) \<and> \<not> sn_marked s (Suc i)"

fun sn_sleeps :: "'v scenario \<Rightarrow> nat \<Rightarrow> i64 list \<times> exp_context option" where
  "sn_sleeps s 0 = ([], backoff_Start (sn_backoff s))"
| "sn_sleeps s (Suc i) =
     (let (sleeps, c) = sn_sleeps s i
      in if sn_pauses s i then
           (case BackOff (sn_env s) i (sn_backoff s) c of Ret (ws, c) \<Rightarrow> (sleeps @ ws, c) | _ \<Rightarrow> (sleeps, c))
         else (sleeps, c))"

section \<open>Contexts along a run\<close>

definition after_errors :: "string list \<Rightarrow> rty_support" where
  "after_errors errs = new_support\<lparr>rs_Count := of_nat (length errs), rs_LastError := last_error errs\<rparr>"

fun base_context :: "i64 \<Rightarrow> rty_policy \<Rightarrow> string list \<Rightarrow> rty_context" where
  "base_context start NeverPolicy errs = NeverCtx (after_errors errs) (errs \<noteq> [])"
| "base_context start AlwaysPolicy errs = NeverCtx (after_errors errs) (errs \<noteq> [])"
| "base_context start (MaxAttemptsPolicy n) errs = SupportCtx (after_errors errs)"
| "base_context start (SimplePolicy n c) errs = SimpleCtx (after_errors errs)"
| "base_context start (TimeoutPolicy t) errs = TimeoutCtx (after_errors errs) t start"
| "base_context start (ClassifierPolicy c) errs = SupportCtx (after_errors errs)"
| "base_context start (CompositePolicy ps opt) errs = CompositeCtx (after_errors errs) [] []"

fun simple_policy :: "rty_policy \<Rightarrow> bool" where
  "simple_policy (CompositePolicy ps opt) = False"
| "simple_policy _ = True"

definition run_context :: "'v scenario \<Rightarrow> nat \<Rightarrow> rty_context" where
  "run_context s i = CompositeCtx
     ((after_errors (sn_errs s i))\<lparr>rs_Terminate := sn_marked s i,
        rs_attributes := (if backoff_Start (sn_backoff s) = None then None else Some [(''backOffContext'', Some AttrBackOff)])\<rparr>)
     [base_context (sn_clk s 0) (sn_base s) (sn_errs s i), SupportCtx (after_errors (sn_errs s i))]
     [sn_base s, ClassifierPolicy (sn_classifier s)]"

lemma last_error_simps [simp]: "last_error [] = None" "last_error (errs @ [e]) = Some e" "last_error errs = None \<longleftrightarrow> errs = []"
  by (simp_all add: last_error_def)

lemma after_errors_simps [simp]:
  "rs_Count (after_errors errs) = of_nat (length errs)" "rs_LastError (after_errors errs) = last_error errs"
  "after_errors [] = new_support"
  by (simp_all add: after_errors_def new_support_def)

lemma support_register: "support_RegisterError (Some e) (after_errors errs) = after_errors (errs @ [e])"
  by (simp add: support_RegisterError_def after_errors_def add.commute)

lemma base_open: "simple_policy p \<Longrightarrow> policy_Open now p = base_context now p []"
  by (cases p) simp_all

lemma base_register:
  "simple_policy p \<Longrightarrow> policy_RegisterError e p (base_context start p errs) = Ret (base_context start p (errs @ [e]))"
  by (cases p) (simp_all add: support_register)

lemma base_can_retry:
  "simple_policy p \<Longrightarrow> CanRetry env now p (base_context start p errs) = Ret (base_allows env start now p errs)"
  by (cases p) (simp_all add: GetRetryCount_def GetLastError_def)

lemma base_close: "simple_policy p \<Longrightarrow> policy_Close p ctx = Ret ()"
  by (cases p) simp_all

lemma run_can_retry:
  assumes "simple_policy (sn_base s)"
  shows "template_canRetry (sn_env s) now (rt_RetryPolicy (sn_template s)) (run_context s i) = Ret (sn_allows s now (sn_errs s i))"
  using base_can_retry [OF assms]
  by (simp add: template_canRetry_def sn_template_def run_context_def sn_allows_def GetLastError_def)

lemma run_exhausted: "IsExhaustedOnly (run_context s i) \<longleftrightarrow> sn_marked s i"
  by (simp add: IsExhaustedOnly_def run_context_def)

text \<open>The context after the attempt of round \<open>i\<close>, before its error is registered.\<close>

lemma run_register:
  assumes "simple_policy (sn_base s)" and "sn_out s i = Raises e"
  shows "template_registerError (rt_RetryPolicy (sn_template s))
    (if sn_exhaust s i then SetExhaustedOnly (run_context s i) else run_context s i) e = Ret (run_context s (Suc i))"
  using base_register [OF assms(1)] assms(2)
  by (auto simp: template_registerError_def sn_template_def run_context_def SetExhaustedOnly_def support_register
      support_RegisterError_def after_errors_def add.commute)

lemma run_mark:
  assumes "\<forall>e. sn_out s i \<noteq> Raises e"
  shows "(if sn_exhaust s i then SetExhaustedOnly (run_context s i) else run_context s i) = run_context s (Suc i)"
proof -
  have "sn_errs s (Suc i) = sn_errs s i" using assms by (cases "sn_out s i") simp_all
  then show ?thesis by (auto simp: run_context_def SetExhaustedOnly_def)
qed

section \<open>Backing off along a run\<close>

text \<open>Policies whose draws are from a range that is not empty.\<close>

fun backoff_fine :: "backoff_policy \<Rightarrow> bool" where
  "backoff_fine (UniformBackOff lo hi) \<longleftrightarrow> lo = hi \<or> 0 <s hi - lo"
| "backoff_fine (ExpRandomBackOff e) \<longleftrightarrow> 0 <s (scast (xb_Multiplier e) :: i64)"
| "backoff_fine _ \<longleftrightarrow> True"

fun backoff_matches :: "backoff_policy \<Rightarrow> exp_context option \<Rightarrow> bool" where
  "backoff_matches (ExpBackOff e) c \<longleftrightarrow> map_option xc_Multiplier c = Some (xb_Multiplier e)"
| "backoff_matches (ExpRandomBackOff e) c \<longleftrightarrow> map_option xc_Multiplier c = Some (xb_Multiplier e)"
| "backoff_matches _ c \<longleftrightarrow> True"

lemma GetSleepAndIncrement_Multiplier: "xc_Multiplier (snd (GetSleepAndIncrement c)) = xc_Multiplier c"
  by (simp add: GetSleepAndIncrement_def)

lemma backoff_Start_matches: "backoff_matches bo (backoff_Start bo)"
  by (cases bo) (simp_all add: new_exp_context_def)

lemma BackOff_fine:
  assumes "backoff_fine bo" and "backoff_matches bo c"
  shows "\<exists>ws c'. BackOff env i bo c = Ret (ws, c') \<and> backoff_matches bo c'"
proof (cases bo)
  case (ExpBackOff e)
  then show ?thesis using assms GetSleepAndIncrement_Multiplier by (auto split: prod.splits) (metis snd_conv)
next
  case (ExpRandomBackOff e)
  then obtain x where x: "c = Some x" "xc_Multiplier x = xb_Multiplier e" using assms(2) by auto
  obtain ws x' where g: "GetSleepAndIncrement x = (ws, x')" by fastforce
  then have "xc_Multiplier x' = xb_Multiplier e" using GetSleepAndIncrement_Multiplier [of x] x by simp
  then show ?thesis using assms(1) x g ExpRandomBackOff by (simp add: rand_n_def word_sle_eq word_sless_alt)
qed (use assms in \<open>auto simp: rand_n_def word_sle_eq word_sless_alt\<close>)

lemma sn_sleeps_matches: "backoff_fine (sn_backoff s) \<Longrightarrow> backoff_matches (sn_backoff s) (snd (sn_sleeps s i))"
proof (induction i)
  case 0
  then show ?case by (simp add: backoff_Start_matches)
next
  case (Suc i)
  obtain ws c where c: "sn_sleeps s i = (ws, c)" by fastforce
  then obtain us c' where "BackOff (sn_env s) i (sn_backoff s) c = Ret (us, c') \<and> backoff_matches (sn_backoff s) c'"
    using BackOff_fine [of "sn_backoff s" c "sn_env s" i] Suc by auto
  then show ?case using Suc c by simp
qed

section \<open>Rounds\<close>

fun sn_last :: "'v scenario \<Rightarrow> nat \<Rightarrow> string option" where
  "sn_last s 0 = None"
| "sn_last s (Suc i) = (case sn_out s i of Raises e \<Rightarrow> Some e | _ \<Rightarrow> None)"

definition run_state :: "'v scenario \<Rightarrow> nat \<Rightarrow> rty_run" where
  "run_state s i = \<lparr>ru_ctx = run_context s i, ru_backOff = snd (sn_sleeps s i), ru_sleeps = fst (sn_sleeps s i),
     ru_calls = i, ru_lastError = sn_last s i\<rparr>"

lemma no_listeners [simp]:
  "doOnSuccessInterceptors (sn_template s) = Ret ()" "doOnErrorInterceptors (sn_template s) = Ret ()"
  "doCloseInterceptors (sn_template s) = Ret ()" "doOpenInterceptors (sn_template s) ctx"
  by (simp_all add: doOnSuccessInterceptors_def doOnErrorInterceptors_def doCloseInterceptors_def after_interceptors_def
      doOpenInterceptors_def sn_template_def)

lemma failure_step:
  assumes "simple_policy (sn_base s)" and "backoff_fine (sn_backoff s)" and "sn_out s i = Raises e"
    and "ru_ctx st = (if sn_exhaust s i then SetExhaustedOnly (run_context s i) else run_context s i)"
    and "ru_backOff st = snd (sn_sleeps s i)" and "ru_sleeps st = fst (sn_sleeps s i)" and "ru_calls st = Suc i"
  shows "on_failure (sn_env s) (sn_clk s (2 * i + 2)) (sn_template s) i e st = Inr (run_state s (Suc i))"
proof -
  obtain ws c where c: "sn_sleeps s i = (ws, c)" by fastforce
  obtain us c' where b: "BackOff (sn_env s) i (sn_backoff s) c = Ret (us, c')"
    using BackOff_fine [OF assms(2) sn_sleeps_matches [OF assms(2), of i], of "sn_env s" i] c by auto
  have bo: "rt_BackOffPolicy (sn_template s) = sn_backoff s" by (simp add: sn_template_def)
  show ?thesis
    using assms(3,5,6,7) run_register [OF assms(1,3)] run_can_retry [OF assms(1), of "sn_clk s (2 * i + 2)" "Suc i"] run_exhausted [of s "Suc i"] c b
    by (auto simp: on_failure_def assms(4) bo run_state_def sn_pauses_def Let_def)
qed

lemma round_step:
  assumes "simple_policy (sn_base s)" and "backoff_fine (sn_backoff s)"
  shows "retry_round (sn_env s) (sn_clk s) (sn_template s) (sn_callback s) i (run_state s i) =
    (if \<not> sn_tries s i then Inl (GaveUp, run_state s i)
     else case sn_out s i of Returns v \<Rightarrow> Inl (GotResult v, run_state s (Suc i)) | _ \<Rightarrow> Inr (run_state s (Suc i)))"
proof -
  have can: "template_canRetry (sn_env s) now (rt_RetryPolicy (sn_template s)) (run_context s i) =
      Ret (sn_allows s now (sn_errs s i))" for now
    by (rule run_can_retry [OF assms(1)])
  have ctx: "ru_ctx (run_state s i) = run_context s i" by (simp add: run_state_def)
  have ret: "run_state s (Suc i) = (run_state s i)\<lparr>ru_lastError := None, ru_calls := Suc i,
      ru_ctx := (if sn_exhaust s i then SetExhaustedOnly (run_context s i) else run_context s i)\<rparr>"
    if "\<forall>e. sn_out s i \<noteq> Raises e"
    using run_mark [OF that] that by (cases "sn_out s i") (simp_all add: run_state_def sn_pauses_def split_beta)
  have calls: "ru_calls (run_state s i) = i" by (simp add: run_state_def)
  show ?thesis
  proof (cases "sn_tries s i")
    case False
    then show ?thesis by (auto simp: retry_round_def ctx can run_exhausted sn_tries_def)
  next
    case True
    then have t: "sn_allows s (sn_clk s (2 * i + 1)) (sn_errs s i)" "\<not> sn_marked s i" by (simp_all add: sn_tries_def)
    show ?thesis
    proof (cases "sn_out s i")
      case (Raises e)
      let ?st = "(run_state s i)\<lparr>ru_lastError := None, ru_calls := Suc i,
        ru_ctx := (if sn_exhaust s i then SetExhaustedOnly (run_context s i) else run_context s i)\<rparr>"
      have "on_failure (sn_env s) (sn_clk s (2 * i + 2)) (sn_template s) i e ?st = Inr (run_state s (Suc i))"
        by (rule failure_step [OF assms Raises]) (simp_all add: run_state_def)
      then show ?thesis
        using True t Raises by (cases "sn_exhaust s i") (simp_all add: retry_round_def ctx can run_exhausted sn_callback_def calls)
    qed (use True t ret in \<open>simp_all add: retry_round_def ctx can run_exhausted sn_callback_def calls\<close>)
  qed
qed

lemma loop_step:
  assumes "simple_policy (sn_base s)" and "backoff_fine (sn_backoff s)"
  shows "retry_loop (sn_env s) (sn_clk s) (sn_template s) (sn_callback s) i (run_state s i) =
    (if \<not> sn_ends s i then retry_loop (sn_env s) (sn_clk s) (sn_template s) (sn_callback s) (Suc i) (run_state s (Suc i))
     else if \<not> sn_tries s i then Some (GaveUp, run_state s i)
     else Some (GotResult (case sn_out s i of Returns v \<Rightarrow> v), run_state s (Suc i)))"
  using round_step [OF assms, of i]
  by (subst retry_loop.simps) (auto simp: sn_ends_def split: attempt.splits)

lemma loop_goes:
  assumes "simple_policy (sn_base s)" and "backoff_fine (sn_backoff s)" and "\<And>j. j < n \<Longrightarrow> \<not> sn_ends s j"
  shows "retry_loop (sn_env s) (sn_clk s) (sn_template s) (sn_callback s) 0 (run_state s 0) =
    retry_loop (sn_env s) (sn_clk s) (sn_template s) (sn_callback s) n (run_state s n)"
  using assms(3) by (induction n) (use loop_step [OF assms(1,2)] in simp_all)

text \<open>A run that returns has a round in which it ends.\<close>

lemma loop_ends:
  assumes "retry_loop env clk t cb i st = Some r"
    and "env = sn_env s" and "clk = sn_clk s" and "t = sn_template s" and "cb = sn_callback s" and "st = run_state s i"
    and "simple_policy (sn_base s)" and "backoff_fine (sn_backoff s)"
  shows "\<exists>j. sn_ends s j"
  using assms
proof (induction rule: retry_loop.raw_induct [rotated, consumes 1, case_names step])
  case (step rec env clk t cb i st r)
  show ?case
  proof (cases "sn_ends s i")
    case False
    then have "retry_round env clk t cb i st = Inr (run_state s (Suc i))"
      using round_step [OF step.prems(6,7), of i] step.prems(1-5) by (auto simp: sn_ends_def split: attempt.splits)
    then have "rec env clk t cb (Suc i) (run_state s (Suc i)) = Some r" using step.hyps by simp
    then show ?thesis by (rule step.IH [OF _ step.prems(1-4) refl step.prems(6,7)])
  qed blast
qed

end
