(* ===== verification/RetryProps.thy ===== *)
theory RetryProps
  imports RetryRuns
begin

text \<open>
  A run of a retry template with one of the library's policies is the run of its scenario: the loop returns exactly
  if some round ends it, and the first such round decides all that comes out.
\<close>

section \<open>Whole runs\<close>

lemma run_state_start:
  assumes "simple_policy (sn_base s)"
  shows "run_state s 0 = \<lparr>ru_ctx = (if backoff_Start (sn_backoff s) \<noteq> None
      then on_base (SetAttribute ''backOffContext'' (Some AttrBackOff)) (policy_Open (sn_clk s 0) (rt_RetryPolicy (sn_template s)))
      else policy_Open (sn_clk s 0) (rt_RetryPolicy (sn_template s))),
    ru_backOff = backoff_Start (sn_backoff s), ru_sleeps = [], ru_calls = 0, ru_lastError = None\<rparr>"
  using base_open [OF assms, of "sn_clk s 0"]
  by (simp add: run_state_def run_context_def sn_template_def new_support_def SetAttribute_def mput_def)

lemma run_close:
  assumes "simple_policy (sn_base s)" and "\<exists>b. ctx = CompositeCtx b [c1, c2] [sn_base s, ClassifierPolicy (sn_classifier s)]"
  shows "template_close (rt_RetryPolicy (sn_template s)) ctx = Ret (on_base (SetAttribute ''context.closed'' (Some (AttrBool True))) ctx)"
  using assms(2) base_close [OF assms(1)] by (auto simp: template_close_def sn_template_def)

lemma run_finally:
  assumes "simple_policy (sn_base s)" and "\<exists>b. ru_ctx st = CompositeCtx b [c1, c2] [sn_base s, ClassifierPolicy (sn_classifier s)]"
  shows "\<exists>d. finally_close (sn_template s) res st = Ret d \<and> (rd_result d, rd_err d) = res \<and>
    ru_calls (rd_run d) = ru_calls st \<and> ru_sleeps (rd_run d) = ru_sleeps st"
  using run_close [OF assms] by (cases res) (simp add: finally_close_def)

definition sn_verdict :: "'v scenario \<Rightarrow> nat \<Rightarrow> 'v rty_value \<times> string option" where
  "sn_verdict s i =
     (if sn_tries s i then (Value (case sn_out s i of Returns v \<Rightarrow> v), None)
      else (NilValue, Some (case last_error (sn_errs s i) of None \<Rightarrow> ''exception in retry'' | Some e \<Rightarrow> e)))"

definition sn_calls :: "'v scenario \<Rightarrow> nat \<Rightarrow> nat" where
  "sn_calls s i = (if sn_tries s i then Suc i else i)"

lemma execute_unfold:
  assumes "simple_policy (sn_base s)"
  shows "template_Execute (sn_env s) (sn_clk s) (sn_template s) (sn_callback s) =
    (case retry_loop (sn_env s) (sn_clk s) (sn_template s) (sn_callback s) 0 (run_state s 0) of
       None \<Rightarrow> None
     | Some (GotResult v, st) \<Rightarrow> Some (finally_close (sn_template s) (Value v, None) st)
     | Some (GaveUp, st) \<Rightarrow>
         let (res, ctx) = handleRetryExhausted None (ru_ctx st) in Some (finally_close (sn_template s) res (st\<lparr>ru_ctx := ctx\<rparr>))
     | Some (Threw p, st) \<Rightarrow> Some (finally_close (sn_template s) (NilValue, Some p) st))"
proof -
  have bo: "rt_BackOffPolicy (sn_template s) = sn_backoff s" by (simp add: sn_template_def)
  show ?thesis
    unfolding run_state_start [OF assms]
    by (simp add: template_Execute_def ExecuteWithState_def ExecuteWithRecoverAndState_def template_open_def bo Let_def
        cong: option.case_cong)
qed

lemma execute_ends:
  assumes "simple_policy (sn_base s)" and "backoff_fine (sn_backoff s)" and "sn_ends s i" and "\<And>j. j < i \<Longrightarrow> \<not> sn_ends s j"
  shows "\<exists>d. template_Execute (sn_env s) (sn_clk s) (sn_template s) (sn_callback s) = Some (Ret d) \<and>
    (rd_result d, rd_err d) = sn_verdict s i \<and> ru_calls (rd_run d) = sn_calls s i \<and> ru_sleeps (rd_run d) = fst (sn_sleeps s i)"
proof -
  have ctx: "\<exists>b. run_context s j = CompositeCtx b [base_context (sn_clk s 0) (sn_base s) (sn_errs s j), SupportCtx (after_errors (sn_errs s j))]
      [sn_base s, ClassifierPolicy (sn_classifier s)]" for j
    by (simp add: run_context_def)
  have loop: "retry_loop (sn_env s) (sn_clk s) (sn_template s) (sn_callback s) 0 (run_state s 0) =
      (if \<not> sn_tries s i then Some (GaveUp, run_state s i)
       else Some (GotResult (case sn_out s i of Returns v \<Rightarrow> v), run_state s (Suc i)))"
    using loop_goes [OF assms(1,2,4)] loop_step [OF assms(1,2), of i] assms(3) by simp
  show ?thesis
  proof (cases "sn_tries s i")
    case True
    then have ret: "\<exists>v. sn_out s i = Returns v" using assms(3) by (simp add: sn_ends_def)
    then have "fst (sn_sleeps s (Suc i)) = fst (sn_sleeps s i)" by (auto simp: sn_pauses_def split_beta)
    with True loop run_finally [OF assms(1), of "run_state s (Suc i)" _ _ "(Value (case sn_out s i of Returns v \<Rightarrow> v), None)"] ctx [of "Suc i"]
    show ?thesis
      by (simp add: execute_unfold [OF assms(1)] sn_verdict_def sn_calls_def run_state_def)
  next
    case False
    obtain ctx' where h: "handleRetryExhausted None (run_context s i) = (sn_verdict s i, ctx')"
      and c: "\<exists>b. ctx' = CompositeCtx b [base_context (sn_clk s 0) (sn_base s) (sn_errs s i), SupportCtx (after_errors (sn_errs s i))]
        [sn_base s, ClassifierPolicy (sn_classifier s)]"
      using False by (force simp: handleRetryExhausted_def run_context_def GetLastError_def sn_verdict_def SetAttribute_def Let_def
          split: option.splits)
    let ?st = "(run_state s i)\<lparr>ru_ctx := ctx'\<rparr>"
    have "template_Execute (sn_env s) (sn_clk s) (sn_template s) (sn_callback s) = Some (finally_close (sn_template s) (sn_verdict s i) ?st)"
      using False loop h by (simp add: execute_unfold [OF assms(1)] run_state_def)
    moreover have "\<exists>b. ru_ctx ?st = CompositeCtx b [base_context (sn_clk s 0) (sn_base s) (sn_errs s i), SupportCtx (after_errors (sn_errs s i))]
        [sn_base s, ClassifierPolicy (sn_classifier s)]"
      using c by simp
    note run_finally [OF assms(1) this, of "sn_verdict s i"]
    ultimately show ?thesis using False by (simp add: sn_calls_def run_state_def)
  qed
qed

lemma execute_hangs:
  assumes "simple_policy (sn_base s)" and "backoff_fine (sn_backoff s)" and "\<nexists>i. sn_ends s i"
  shows "template_Execute (sn_env s) (sn_clk s) (sn_template s) (sn_callback s) = None"
proof -
  have "retry_loop (sn_env s) (sn_clk s) (sn_template s) (sn_callback s) 0 (run_state s 0) = None"
    using loop_ends [OF _ refl refl refl refl refl assms(1,2)] assms(3) by (metis not_Some_eq)
  then show ?thesis by (simp add: execute_unfold [OF assms(1)])
qed

text \<open>
  C31: A retry template with one of the library's policies runs as its scenario says. It returns exactly if
  there is a round that ends the run: one in which the policy refuses another attempt or the attempt
  returns a value. The first such round decides the result, the error, the number of attempts and the
  times slept, for every policy, classifier and backoff.
\<close>

theorem retry_runs_like_scenario:
  assumes "simple_policy (sn_base s)" and "backoff_fine (sn_backoff s)"
  shows "if \<exists>i. sn_ends s i then
      \<exists>i d. sn_ends s i \<and> (\<forall>j < i. \<not> sn_ends s j) \<and>
        template_Execute (sn_env s) (sn_clk s) (sn_template s) (sn_callback s) = Some (Ret d) \<and>
        (rd_result d, rd_err d) = sn_verdict s i \<and> ru_calls (rd_run d) = sn_calls s i \<and> ru_sleeps (rd_run d) = fst (sn_sleeps s i)
    else template_Execute (sn_env s) (sn_clk s) (sn_template s) (sn_callback s) = None"
proof (cases "\<exists>i. sn_ends s i")
  case True
  then have "sn_ends s (LEAST i. sn_ends s i)" "\<And>j. j < (LEAST i. sn_ends s i) \<Longrightarrow> \<not> sn_ends s j"
    by (auto intro: LeastI dest: not_less_Least)
  from this execute_ends [OF assms this] True show ?thesis by (simp only: if_True) blast
qed (use execute_hangs [OF assms] in simp)

definition demo_scenario :: "int scenario" where
  "demo_scenario = \<lparr>sn_env = \<lparr>re_match = \<lambda>_ _. None, re_rand = \<lambda>_ _. 0\<rparr>, sn_clk = \<lambda>_. 0, sn_base = MaxAttemptsPolicy 3,
     sn_classifier = \<lparr>ec_DefaultValue = False, ec_Classified = [''any''], ec_Matcher = AnyMatch\<rparr>,
     sn_backoff = FixedBackOff 50,
     sn_out = (\<lambda>i. if i = 0 then Raises ''timeout'' else if i = 1 then RaisesOther else Returns 7), sn_exhaust = \<lambda>_. False\<rparr>"

lemma demo_rounds: "\<not> sn_ends demo_scenario 0" "\<not> sn_ends demo_scenario (Suc 0)" "sn_ends demo_scenario 2" "sn_tries demo_scenario 2"
  by (simp_all add: sn_ends_def sn_tries_def sn_allows_def demo_scenario_def Classify_def last_error_def word_sless_alt eval_nat_numeral)

theorem retry_runs_like_scenario_witness:
  "\<exists>d. template_Execute (sn_env demo_scenario) (sn_clk demo_scenario) (sn_template demo_scenario) (sn_callback demo_scenario) = Some (Ret d) \<and>
    rd_result d = Value 7 \<and> rd_err d = None \<and> ru_calls (rd_run d) = 3 \<and> ru_sleeps (rd_run d) = [50]"
proof -
  have "simple_policy (sn_base demo_scenario)" "backoff_fine (sn_backoff demo_scenario)" by (simp_all add: demo_scenario_def)
  from retry_runs_like_scenario [OF this] demo_rounds(3)
  obtain i d where d: "sn_ends demo_scenario i" "\<forall>j < i. \<not> sn_ends demo_scenario j"
    "template_Execute (sn_env demo_scenario) (sn_clk demo_scenario) (sn_template demo_scenario) (sn_callback demo_scenario) = Some (Ret d)"
    "(rd_result d, rd_err d) = sn_verdict demo_scenario i" "ru_calls (rd_run d) = sn_calls demo_scenario i"
    "ru_sleeps (rd_run d) = fst (sn_sleeps demo_scenario i)"
    by (auto split: if_splits)
  have "i = 2"
  proof (rule antisym)
    show "i \<le> 2" using d(2) demo_rounds(3) by (meson not_le)
    show "2 \<le> i" using d(1) demo_rounds(1,2) by (cases i; cases "i - 1") auto
  qed
  then show ?thesis
    using d(3-6) demo_rounds(4)
    by (simp add: sn_verdict_def sn_calls_def demo_scenario_def eval_nat_numeral sn_pauses_def sn_allows_def Classify_def
        last_error_def word_sless_alt)
qed

end
