(* ===== verification/RetryBounds.thy ===== *)
theory RetryBounds
  imports RetryProps
begin

text \<open>
  What follows for the policies and backoffs: how many attempts a run makes, that endless retries get through, and
  the pauses of exponential backoff.
\<close>

section \<open>Bounds on the attempts\<close>

text \<open>Up to the end of a run every attempt raised an error, if none panics with anything else.\<close>

lemma errs_before_end:
  assumes "\<And>j. j < i \<Longrightarrow> \<not> sn_ends s j" and "\<forall>j. sn_out s j \<noteq> RaisesOther"
  shows "length (sn_errs s i) = i \<and> (\<forall>j < i. \<exists>e. sn_out s j = Raises e)"
  using assms(1)
proof (induction i)
  case (Suc i)
  then have "\<not> sn_ends s i" by simp
  then obtain e where "sn_out s i = Raises e" using assms(2) by (cases "sn_out s i") (auto simp: sn_ends_def)
  then show ?case using Suc by (auto simp: less_Suc_eq)
qed simp

lemma counted_allows:
  assumes "sn_base s = MaxAttemptsPolicy n \<or> (\<exists>c. sn_base s = SimplePolicy n c)" and "sn_tries s i"
  shows "of_nat (length (sn_errs s i)) <s n"
  using assms by (auto simp: sn_tries_def sn_allows_def)

lemma sint_of_nat_small: "i \<le> nat (sint (n :: i32)) \<Longrightarrow> sint (of_nat i :: i32) = int i"
proof -
  assume i: "i \<le> nat (sint n)"
  have "int i < 2 ^ 31" using i sint_lt [of n] by (cases "0 \<le> sint n") (auto simp: le_nat_iff)
  then show ?thesis by (simp add: sint_uint unsigned_of_nat take_bit_nat_eq_self signed_take_bit_int_eq_self)
qed

text \<open>
  C32: A run with a largest number of attempts always returns, after at least one attempt and at most that
  many, if no attempt panics with a value that is neither an error nor a text. Every attempt before the
  last raised an error; the last one gives the value, or the error of the run.
\<close>

theorem retry_attempts_bounded:
  assumes "sn_base s = MaxAttemptsPolicy n \<or> (\<exists>c. sn_base s = SimplePolicy n c)" and "0 <s n"
    and "backoff_fine (sn_backoff s)" and "\<forall>i. sn_out s i \<noteq> RaisesOther"
  shows "\<exists>d k. template_Execute (sn_env s) (sn_clk s) (sn_template s) (sn_callback s) = Some (Ret d) \<and>
    ru_calls (rd_run d) = Suc k \<and> int (Suc k) \<le> sint n \<and> (\<forall>j < k. \<exists>e. sn_out s j = Raises e) \<and>
    (case sn_out s k of
       Returns v \<Rightarrow> rd_result d = Value v \<and> rd_err d = None
     | Raises e \<Rightarrow> rd_result d = NilValue \<and> rd_err d = Some e
     | RaisesOther \<Rightarrow> False)"
proof -
  have simple: "simple_policy (sn_base s)" using assms(1) by auto
  have pos: "0 < sint n" using assms(2) by (simp add: word_sless_alt)
  define N where "N = nat (sint n)"
  have ended: "\<exists>i \<le> N. sn_ends s i"
  proof (rule ccontr)
    assume none: "\<not> ?thesis"
    then have "\<And>j. j < Suc N \<Longrightarrow> \<not> sn_ends s j" by auto
    from errs_before_end [OF _ assms(4), of N] this have "length (sn_errs s N) = N" by simp
    moreover have "sn_tries s N" using none by (auto simp: sn_ends_def)
    ultimately have "of_nat N <s n" using counted_allows [OF assms(1), of N] by simp
    then show False using sint_of_nat_small [of N n] pos by (auto simp: N_def word_sless_alt)
  qed
  define i where "i = (LEAST i. sn_ends s i)"
  have i: "sn_ends s i" "\<And>j. j < i \<Longrightarrow> \<not> sn_ends s j" and le: "i \<le> N"
    using ended unfolding i_def by (auto intro: LeastI dest: not_less_Least intro: Least_le [THEN le_trans])
  note before = errs_before_end [OF i(2) assms(4)]
  from execute_ends [OF simple assms(3) i] obtain d where d:
    "template_Execute (sn_env s) (sn_clk s) (sn_template s) (sn_callback s) = Some (Ret d)"
    "(rd_result d, rd_err d) = sn_verdict s i" "ru_calls (rd_run d) = sn_calls s i" by blast
  show ?thesis
  proof (cases "sn_tries s i")
    case True
    then obtain v where v: "sn_out s i = Returns v" using i(1) by (auto simp: sn_ends_def)
    have "int i < sint n"
      using counted_allows [OF assms(1) True] before sint_of_nat_small [of i n] le pos by (simp add: N_def word_sless_alt)
    then show ?thesis using d before True v by (intro exI [of _ d] exI [of _ i]) (simp add: sn_verdict_def sn_calls_def)
  next
    case False
    have "sn_tries s 0" using assms(1,2) by (auto simp: sn_tries_def sn_allows_def)
    with False obtain k where k: "i = Suc k" by (cases i) auto
    then obtain e where e: "sn_out s k = Raises e" using before by auto
    have "sn_errs s i = sn_errs s k @ [e]" by (simp add: k e)
    moreover have "int (Suc k) \<le> sint n" using le pos by (simp add: k N_def)
    ultimately show ?thesis using d before False e
      by (intro exI [of _ d] exI [of _ k]) (simp add: sn_verdict_def sn_calls_def k)
  qed
qed

text \<open>The scenario of a service that never answers.\<close>

definition failing_scenario :: "int scenario" where
  "failing_scenario = demo_scenario\<lparr>sn_out := \<lambda>i. Raises ''timeout''\<rparr>"

theorem retry_attempts_bounded_witness:
  "\<exists>d k. template_Execute (sn_env failing_scenario) (sn_clk failing_scenario) (sn_template failing_scenario)
      (sn_callback failing_scenario) = Some (Ret d) \<and>
    ru_calls (rd_run d) = Suc k \<and> k \<le> 2 \<and> rd_err d = Some ''timeout''"
proof -
  have "sn_base failing_scenario = MaxAttemptsPolicy 3 \<or> (\<exists>c. sn_base failing_scenario = SimplePolicy 3 c)" "0 <s (3 :: i32)"
    "backoff_fine (sn_backoff failing_scenario)" "\<forall>i. sn_out failing_scenario i \<noteq> RaisesOther"
    by (simp_all add: failing_scenario_def demo_scenario_def word_sless_alt)
  from retry_attempts_bounded [OF this] show ?thesis
    by (auto simp: failing_scenario_def demo_scenario_def)
qed

section \<open>Retrying for ever\<close>

text \<open>
  C33: A run that retries for ever gets through: if some attempt returns a value, and every attempt before
  it raises an error that the classifier retries, or panics with anything else, and none marks the context,
  the run returns that value after exactly these attempts.
\<close>

theorem retry_always_gets_through:
  assumes "sn_base s = AlwaysPolicy" and "backoff_fine (sn_backoff s)" and "sn_out s k = Returns v"
    and "\<forall>i < k. sn_out s i = RaisesOther \<or> (\<exists>e. sn_out s i = Raises e \<and> Classify (sn_env s) (sn_classifier s) (Some e))"
    and "\<forall>i < k. \<not> sn_exhaust s i"
  shows "\<exists>d. template_Execute (sn_env s) (sn_clk s) (sn_template s) (sn_callback s) = Some (Ret d) \<and>
    rd_result d = Value v \<and> rd_err d = None \<and> ru_calls (rd_run d) = Suc k"
proof -
  have simple: "simple_policy (sn_base s)" using assms(1) by simp
  have state: "\<not> sn_marked s i \<and> (sn_errs s i = [] \<or> Classify (sn_env s) (sn_classifier s) (last_error (sn_errs s i)))"
    if "i \<le> k" for i
    using that
  proof (induction i)
    case (Suc i)
    then have "sn_out s i = RaisesOther \<or> (\<exists>e. sn_out s i = Raises e \<and> Classify (sn_env s) (sn_classifier s) (Some e))" "\<not> sn_exhaust s i"
      using assms(4,5) by auto
    then show ?case using Suc by (auto simp: last_error_def)
  qed simp
  then have tries: "sn_tries s i" if "i \<le> k" for i using that by (simp add: sn_tries_def sn_allows_def assms(1))
  have "\<not> sn_ends s j" if "j < k" for j
    using assms(4) that tries [of j] by (auto simp: sn_ends_def)
  moreover have "sn_ends s k" using assms(3) by (simp add: sn_ends_def)
  ultimately show ?thesis
    using execute_ends [OF simple assms(2), of k] tries [of k] assms(3) by (auto simp: sn_verdict_def sn_calls_def)
qed

theorem retry_always_gets_through_witness:
  "\<exists>s d. template_Execute (sn_env s) (sn_clk s) (sn_template s) (sn_callback s) = Some (Ret d) \<and>
    rd_result d = Value (7 :: int) \<and> rd_err d = None \<and> ru_calls (rd_run d) = Suc 2"
proof -
  let ?s = "demo_scenario\<lparr>sn_base := AlwaysPolicy\<rparr>"
  have "sn_base ?s = AlwaysPolicy" "backoff_fine (sn_backoff ?s)" "sn_out ?s 2 = Returns 7"
    "\<forall>i < 2. sn_out ?s i = RaisesOther \<or> (\<exists>e. sn_out ?s i = Raises e \<and> Classify (sn_env ?s) (sn_classifier ?s) (Some e))"
    "\<forall>i < 2. \<not> sn_exhaust ?s i"
    by (auto simp: demo_scenario_def Classify_def)
  from retry_always_gets_through [OF this] show ?thesis by (rule exI [of _ ?s])
qed

section \<open>The times of exponential backoff\<close>

text \<open>The \<open>k\<close>-th pause by the formula of the builder: the initial interval, multiplied each time, up to the largest.\<close>

definition exp_pause :: "int \<Rightarrow> int \<Rightarrow> int \<Rightarrow> nat \<Rightarrow> int" where
  "exp_pause initial multiplier largest k = min (initial * multiplier ^ k) largest"

lemma exp_step:
  assumes "1 \<le> I" and "1 \<le> m" and "1 \<le> M" and "M * m < 2 ^ 63"
    and "xc_MaxInterval x = Mw" "sint Mw = M" and "sint (scast (xc_Multiplier x) :: i64) = m"
    and "1 \<le> sint (xc_Interval x)" and "sint (xc_Interval x) = I * m ^ k \<or> M < sint (xc_Interval x) \<and> M < I * m ^ k"
    and "GetSleepAndIncrement x = (w, x')"
  shows "sint w = exp_pause I m M k \<and> 1 \<le> sint (xc_Interval x') \<and> xc_MaxInterval x' = Mw \<and> xc_Multiplier x' = xc_Multiplier x \<and>
    (sint (xc_Interval x') = I * m ^ Suc k \<or> M < sint (xc_Interval x') \<and> M < I * m ^ Suc k)"
proof (cases "M < sint (xc_Interval x)")
  case True
  then have big: "M < I * m ^ k" using assms(9) by auto
  also have "\<dots> \<le> I * m ^ Suc k" using assms(1,2) by (simp add: mult_le_cancel_left)
  finally show ?thesis
    using True big assms by (auto simp: GetSleepAndIncrement_def exp_pause_def word_sless_alt)
next
  case False
  then have v: "sint (xc_Interval x) = I * m ^ k" using assms(9) by simp
  have "sint (xc_Interval x) * m \<le> M * m" using False assms(2) by (intro mult_right_mono) auto
  moreover have "1 \<le> sint (xc_Interval x) * m" using assms(2,8) mult_mono [of 1 "sint (xc_Interval x)" 1 m] by simp
  ultimately have "sint (GetNextInterval x) = I * m ^ Suc k \<and> 1 \<le> I * m ^ Suc k"
    using assms(4,7) v unfolding GetNextInterval_def by (subst sint_mult_small) (auto simp: algebra_simps)
  then show ?thesis
    using False v assms(5,6,10) by (auto simp: GetSleepAndIncrement_def exp_pause_def word_sless_alt)
qed

lemma exp_sleeps:
  assumes "sn_backoff s = ExpBackOff e" and "1 \<le> sint (xb_InitialInterval e)" and "1 \<le> sint (xb_MaxInterval e)"
    and "1 \<le> m" and "sint (scast (xb_Multiplier e) :: i64) = m" and "sint (xb_MaxInterval e) * m < 2 ^ 63"
  shows "\<exists>ws x. sn_sleeps s i = (ws, Some x) \<and> length ws \<le> i \<and>
    map sint ws = map (exp_pause (sint (xb_InitialInterval e)) m (sint (xb_MaxInterval e))) [0..<length ws] \<and>
    1 \<le> sint (xc_Interval x) \<and> xc_MaxInterval x = xb_MaxInterval e \<and> xc_Multiplier x = xb_Multiplier e \<and>
    (sint (xc_Interval x) = sint (xb_InitialInterval e) * m ^ length ws \<or>
     sint (xb_MaxInterval e) < sint (xc_Interval x) \<and> sint (xb_MaxInterval e) < sint (xb_InitialInterval e) * m ^ length ws)"
proof (induction i)
  case 0
  show ?case using assms(1,2) by (simp add: new_exp_context_def)
next
  case (Suc i)
  then obtain ws x where x: "sn_sleeps s i = (ws, Some x)" "length ws \<le> i"
    "map sint ws = map (exp_pause (sint (xb_InitialInterval e)) m (sint (xb_MaxInterval e))) [0..<length ws]"
    "1 \<le> sint (xc_Interval x)" "xc_MaxInterval x = xb_MaxInterval e" "xc_Multiplier x = xb_Multiplier e"
    "sint (xc_Interval x) = sint (xb_InitialInterval e) * m ^ length ws \<or>
     sint (xb_MaxInterval e) < sint (xc_Interval x) \<and> sint (xb_MaxInterval e) < sint (xb_InitialInterval e) * m ^ length ws"
    by blast
  show ?case
  proof (cases "sn_pauses s i")
    case True
    obtain w x' where g: "GetSleepAndIncrement x = (w, x')" by fastforce
    have "sint (scast (xc_Multiplier x) :: i64) = m" using assms(5) x(6) by simp
    from exp_step [OF assms(2,4,3,6) x(5) refl this x(4,7) g] show ?thesis
      using True x(1-3,6) assms(1) g by simp
  next
    case False
    then show ?thesis using x by simp
  qed
qed

lemma sint_scast_i32: "sint (scast (m :: i32) :: i64) = sint m"
  by (rule sint_up_scast) (simp add: is_up)

lemma execute_sleeps:
  assumes "simple_policy (sn_base s)" and "backoff_fine (sn_backoff s)"
    and "template_Execute (sn_env s) (sn_clk s) (sn_template s) (sn_callback s) = Some (Ret d)"
  shows "\<exists>i. ru_sleeps (rd_run d) = fst (sn_sleeps s i) \<and> i \<le> ru_calls (rd_run d)"
proof -
  have "\<exists>i. sn_ends s i" using execute_hangs [OF assms(1,2)] assms(3) by force
  then have i: "sn_ends s (LEAST i. sn_ends s i)" "\<And>j. j < (LEAST i. sn_ends s i) \<Longrightarrow> \<not> sn_ends s j"
    by (auto intro: LeastI dest: not_less_Least)
  from execute_ends [OF assms(1,2) i] assms(3) show ?thesis
    by (intro exI [of _ "LEAST i. sn_ends s i"]) (auto simp: sn_calls_def)
qed

text \<open>
  The pauses are \<open>min (initial * multiplier ^ n) largest\<close>, the formula the builder documents; arguments below
  one count as one.
\<close>

lemma exponential_pauses:
  assumes "simple_policy (sn_base s)"
    and "tb_BackOffPolicy (ExponentialBackoff initial multiplier largest b) = Some (sn_backoff s)"
    and "max 1 (sint largest) * max 1 (sint multiplier) < 2 ^ 63"
    and "template_Execute (sn_env s) (sn_clk s) (sn_template s) (sn_callback s) = Some (Ret d)"
  shows "map sint (ru_sleeps (rd_run d)) =
      map (exp_pause (max 1 (sint initial)) (max 1 (sint multiplier)) (max 1 (sint largest))) [0..<length (ru_sleeps (rd_run d))] \<and>
    length (ru_sleeps (rd_run d)) \<le> ru_calls (rd_run d)"
proof -
  let ?e = "SetMaxInterval largest (SetMultiplier multiplier (SetInitialInterval initial
      \<lparr>xb_InitialInterval = 0, xb_MaxInterval = 0, xb_Multiplier = 0\<rparr>))"
  have e: "sn_backoff s = ExpBackOff ?e" "sint (xb_InitialInterval ?e) = max 1 (sint initial)"
    "sint (xb_MaxInterval ?e) = max 1 (sint largest)" "sint (xb_Multiplier ?e) = max 1 (sint multiplier)"
    using assms(2)
    by (auto simp: ExponentialBackoff_def ExponentialBackoffWithRandom_def CustomBackOff_def SetInitialInterval_def
        SetMaxInterval_def SetMultiplier_def word_sless_alt Let_def)
  have fine: "backoff_fine (sn_backoff s)" by (simp add: e)
  from execute_sleeps [OF assms(1) fine assms(4)] obtain i where
    i: "ru_sleeps (rd_run d) = fst (sn_sleeps s i)" "i \<le> ru_calls (rd_run d)" by blast
  from exp_sleeps [OF e(1), of "max 1 (sint multiplier)" i] obtain ws x where
    "sn_sleeps s i = (ws, Some x)" "length ws \<le> i"
    "map sint ws = map (exp_pause (max 1 (sint initial)) (max 1 (sint multiplier)) (max 1 (sint largest))) [0..<length ws]"
    using e(2-4) assms(3) by (auto simp: sint_scast_i32)
  with i show ?thesis by simp
qed

lemma exp_pause_mono: "1 \<le> initial \<Longrightarrow> 1 \<le> m \<Longrightarrow> i \<le> j \<Longrightarrow> exp_pause initial m largest i \<le> exp_pause initial m largest j"
  unfolding exp_pause_def by (rule min.mono [OF mult_left_mono [OF power_increasing] order_refl]) simp_all

text \<open>
  C34: With exponential backoff, the pauses between the attempts of a run grow as the settings say. Let the
  initial and the largest interval and the multiplier be positive, and the largest interval times the
  multiplier fit 64 bits. Then, whatever the retry policy, there is at most one pause for each attempt; the
  \<open>n\<close>-th is the initial interval times the \<open>n\<close>-th power of the multiplier as long as that is not above the
  largest interval; none is ever longer than the largest interval; and none is shorter than one before it.
\<close>

theorem retry_exponential_pauses:
  assumes "simple_policy (sn_base s)"
    and "tb_BackOffPolicy (ExponentialBackoff initial multiplier largest b) = Some (sn_backoff s)"
    and "0 < sint initial" and "0 < sint multiplier" and "0 < sint largest"
    and "sint largest * sint multiplier < 2 ^ 63"
    and "template_Execute (sn_env s) (sn_clk s) (sn_template s) (sn_callback s) = Some (Ret d)"
  defines "pauses \<equiv> map sint (ru_sleeps (rd_run d))"
  shows "length pauses \<le> ru_calls (rd_run d) \<and> sorted pauses \<and>
    (\<forall>n < length pauses. pauses ! n \<le> sint largest \<and>
       (sint initial * sint multiplier ^ n \<le> sint largest \<longrightarrow> pauses ! n = sint initial * sint multiplier ^ n))"
proof -
  have one: "max 1 (sint initial) = sint initial" "max 1 (sint multiplier) = sint multiplier" "max 1 (sint largest) = sint largest"
    using assms(3-5) by simp_all
  have p: "pauses = map (exp_pause (sint initial) (sint multiplier) (sint largest)) [0..<length pauses]"
    and len: "length pauses \<le> ru_calls (rd_run d)"
    using exponential_pauses [OF assms(1,2) _ assms(7)] assms(6) unfolding one pauses_def by simp_all
  have n: "pauses ! i = exp_pause (sint initial) (sint multiplier) (sint largest) i" if "i < length pauses" for i
    using arg_cong [OF p, of "\<lambda>xs. xs ! i"] that by simp
  have "sorted pauses"
    using assms(3,4) by (auto simp: sorted_iff_nth_mono n intro!: exp_pause_mono)
  with len n show ?thesis by (auto simp: exp_pause_def)
qed

definition backing_scenario :: "int scenario" where
  "backing_scenario = failing_scenario\<lparr>sn_base := MaxAttemptsPolicy 4,
     sn_backoff := ExpBackOff \<lparr>xb_InitialInterval = 100, xb_MaxInterval = 300, xb_Multiplier = 2\<rparr>\<rparr>"

theorem retry_exponential_pauses_witness:
  "\<exists>d. template_Execute (sn_env backing_scenario) (sn_clk backing_scenario) (sn_template backing_scenario)
      (sn_callback backing_scenario) = Some (Ret d) \<and> length (ru_sleeps (rd_run d)) = 3 \<and>
      sint (ru_sleeps (rd_run d) ! 0) = 100 \<and> sint (ru_sleeps (rd_run d) ! 1) = 200 \<and> sint (ru_sleeps (rd_run d) ! 2) \<le> 300"
proof -
  have hyps: "simple_policy (sn_base backing_scenario)"
    "tb_BackOffPolicy (ExponentialBackoff 100 2 300 NewRetryTemplateBuilder) = Some (sn_backoff backing_scenario)"
    "0 < sint (100 :: i64)" "0 < sint (2 :: i32)" "0 < sint (300 :: i64)" "sint (300 :: i64) * sint (2 :: i32) < 2 ^ 63"
    "backoff_fine (sn_backoff backing_scenario)"
    by (simp_all add: backing_scenario_def failing_scenario_def demo_scenario_def ExponentialBackoff_def
        ExponentialBackoffWithRandom_def CustomBackOff_def SetInitialInterval_def SetMaxInterval_def SetMultiplier_def word_sless_alt)
  have rounds: "\<not> sn_ends backing_scenario 0" "\<not> sn_ends backing_scenario (Suc 0)" "\<not> sn_ends backing_scenario 2"
    "\<not> sn_ends backing_scenario 3" "sn_ends backing_scenario 4"
    by (simp_all add: sn_ends_def sn_tries_def sn_allows_def backing_scenario_def failing_scenario_def demo_scenario_def
        Classify_def last_error_def word_sless_alt eval_nat_numeral)
  have "\<not> sn_ends backing_scenario j" if "j < 4" for j
    using that rounds by (auto simp: eval_nat_numeral less_Suc_eq)
  from execute_ends [OF hyps(1,7) rounds(5) this] obtain d where
    d: "template_Execute (sn_env backing_scenario) (sn_clk backing_scenario) (sn_template backing_scenario)
      (sn_callback backing_scenario) = Some (Ret d)" "ru_sleeps (rd_run d) = fst (sn_sleeps backing_scenario 4)" by blast
  have len: "length (ru_sleeps (rd_run d)) = 3"
    unfolding d(2) by (simp add: backing_scenario_def failing_scenario_def demo_scenario_def sn_pauses_def sn_allows_def Classify_def
        last_error_def word_sless_alt eval_nat_numeral split_beta new_exp_context_def)
  have "\<forall>n < length (map sint (ru_sleeps (rd_run d))). map sint (ru_sleeps (rd_run d)) ! n \<le> sint (300 :: i64) \<and>
      (sint (100 :: i64) * sint (2 :: i32) ^ n \<le> sint (300 :: i64) \<longrightarrow>
       map sint (ru_sleeps (rd_run d)) ! n = sint (100 :: i64) * sint (2 :: i32) ^ n)"
    using retry_exponential_pauses [OF hyps(1-6) d(1)] by blast
  then have "\<forall>n < 3. sint (ru_sleeps (rd_run d) ! n) \<le> 300 \<and>
      (100 * 2 ^ n \<le> (300 :: int) \<longrightarrow> sint (ru_sleeps (rd_run d) ! n) = 100 * 2 ^ n)"
    by (simp add: len)
  then have "sint (ru_sleeps (rd_run d) ! 0) = 100" "sint (ru_sleeps (rd_run d) ! 1) = 200" "sint (ru_sleeps (rd_run d) ! 2) \<le> 300"
    by (auto dest: spec [of _ 0] spec [of _ 1] spec [of _ 2])
  with d(1) len show ?thesis by blast
qed

end
