(* ===== verification/RetryManagerProps.thy ===== *)
theory RetryManagerProps
  imports RetryManager RetryBounds
begin

text \<open>
  What the retry manager installs: the template of a resource is the one its first valid rule describes. The
  lemmas at the end show rules and loads that do not do what they mean to.
\<close>

section \<open>What a rule describes\<close>

definition base_of :: "rty_rule \<Rightarrow> rty_policy" where
  "base_of r =
     (if yr_RetryPolicy r = NeverRetryPolicy then NeverPolicy
      else if yr_RetryPolicy r = SimpleRetryPolicy then
        (if yr_RetryMaxAttempts r \<le>s 0 then NewSimpleRetryPolicy
         else NewSimpleRetryPolicyWithMaxAttemptsAndErrors (yr_RetryMaxAttempts r) (elems (yr_ExcludeExceptions r)))
      else if yr_RetryPolicy r = TimeoutRtyPolicy then TimeoutPolicy (if yr_RetryTimeout r \<le>s 0 then 1000 else yr_RetryTimeout r)
      else if yr_RetryPolicy r = MaxAttemptsRetryPolicy then
        MaxAttemptsPolicy (if yr_RetryMaxAttempts r \<le>s 0 then 3 else yr_RetryMaxAttempts r)
      else if yr_RetryPolicy r = AlwaysRetryPolicy then AlwaysPolicy
      else MaxAttemptsPolicy 3)"

definition exponential_of :: "rty_rule \<Rightarrow> exp_backoff" where
  "exponential_of r =
     \<lparr>xb_InitialInterval = (if 1 <s yr_BackoffDelay r then yr_BackoffDelay r else 1),
      xb_MaxInterval = (if 0 <s yr_BackoffMaxDelay r then yr_BackoffMaxDelay r else 1),
      xb_Multiplier = (if 1 <s yr_BackoffMultiplier r then yr_BackoffMultiplier r else 1)\<rparr>"

definition backoff_of :: "rty_rule \<Rightarrow> backoff_policy" where
  "backoff_of r =
     (if yr_BackoffPolicy r = 1 then FixedBackOff (yr_FixedBackOffPeriodInMs r)
      else if yr_BackoffPolicy r = 2 then ExpBackOff (exponential_of r)
      else if yr_BackoffPolicy r = 3 then ExpRandomBackOff (exponential_of r)
      else if yr_BackoffPolicy r = 4 then UniformBackOff (yr_UniformMinBackoffPeriod r) (yr_UniformMaxBackoffPeriod r)
      else NoBackOff)"

text \<open>Errors to retry, errors not to retry, or else every error.\<close>

definition classifier_of :: "rty_rule \<Rightarrow> classifier" where
  "classifier_of r =
     (let incl = elems (yr_IncludeExceptions r); excl = elems (yr_ExcludeExceptions r)
      in if incl \<noteq> [] then \<lparr>ec_DefaultValue = True, ec_Classified = incl, ec_Matcher = yr_ErrorMatcher r\<rparr>
         else if excl \<noteq> [] then \<lparr>ec_DefaultValue = False, ec_Classified = excl, ec_Matcher = yr_ErrorMatcher r\<rparr>
         else \<lparr>ec_DefaultValue = False, ec_Classified = [''any''], ec_Matcher = AnyMatch\<rparr>)"

definition describable :: "rty_rule \<Rightarrow> bool" where
  "describable r \<longleftrightarrow> 0 \<le>s yr_RetryPolicy r \<and> yr_RetryPolicy r \<le>s 7 \<and> 0 \<le>s yr_BackoffPolicy r \<and> yr_BackoffPolicy r \<le>s 4 \<and>
     (elems (yr_IncludeExceptions r) = [] \<or> elems (yr_ExcludeExceptions r) = [])"

definition rule_template :: "rty_rule \<Rightarrow> retry_template option" where
  "rule_template r =
     (if describable r
      then Some \<lparr>rt_BackOffPolicy = backoff_of r, rt_RetryPolicy = CompositePolicy [base_of r, ClassifierPolicy (classifier_of r)] False,
             rt_Listeners = []\<rparr>
      else None)"

lemma RetryOnErrors_more:
  "tb_ClassifierBuilder b = Some \<lparr>cb_IsWhiteList = Some True, cb_Errors = es\<rparr> \<Longrightarrow>
    RetryOnErrors errs b = Ret (b\<lparr>tb_ClassifierBuilder := Some \<lparr>cb_IsWhiteList = Some True, cb_Errors = es @ errs\<rparr>\<rparr>)"
  by (induction errs arbitrary: b es) (simp_all add: builder_RetryOn_def builder_classifier_def classifier_RetryOn_def)

lemma RetryOnErrors_fresh:
  assumes "tb_ClassifierBuilder b = None"
  shows "RetryOnErrors errs b = Ret (if errs = [] then b else b\<lparr>tb_ClassifierBuilder := Some \<lparr>cb_IsWhiteList = Some True, cb_Errors = errs\<rparr>\<rparr>)"
  using assms by (cases errs) (simp_all add: builder_RetryOn_def builder_classifier_def classifier_RetryOn_def RetryOnErrors_more)

lemma NotRetryOnErrors_more:
  "tb_ClassifierBuilder b = Some \<lparr>cb_IsWhiteList = Some False, cb_Errors = es\<rparr> \<Longrightarrow>
    NotRetryOnErrors errs b = Ret (b\<lparr>tb_ClassifierBuilder := Some \<lparr>cb_IsWhiteList = Some False, cb_Errors = es @ errs\<rparr>\<rparr>)"
  by (induction errs arbitrary: b es) (simp_all add: builder_NotRetryOn_def builder_classifier_def classifier_NotRetryOn_def)

lemma NotRetryOnErrors_fresh:
  assumes "tb_ClassifierBuilder b = None"
  shows "NotRetryOnErrors errs b = Ret (if errs = [] then b else b\<lparr>tb_ClassifierBuilder := Some \<lparr>cb_IsWhiteList = Some False, cb_Errors = errs\<rparr>\<rparr>)"
  using assms by (cases errs) (simp_all add: builder_NotRetryOn_def builder_classifier_def classifier_NotRetryOn_def NotRetryOnErrors_more)

lemma new_builder [simp]:
  "tb_ClassifierBuilder NewRetryTemplateBuilder = None" "tb_Listeners NewRetryTemplateBuilder = []"
  "tb_BaseRtyPolicy NewRetryTemplateBuilder = None"
  "NewRetryTemplateBuilder\<lparr>tb_BaseRtyPolicy := None\<rparr> = NewRetryTemplateBuilder"
  by (simp_all add: NewRetryTemplateBuilder_def)

lemmas policy_choices = NeverRtyPolicy_def SimpleRtyPolicy_def WithinMillisRtyPolicy_def MaxAttemptsRtyPolicy_def InfiniteRtyPolicy_def
  CustomPolicyRtyPolicy_def

lemmas backoff_choices = NoBackoff_def FixedBackoff_def ExponentialBackoff_def ExponentialBackoffWithRandom_def
  UniformRandomBackoff_def CustomBackOff_def

text \<open>After the choice of policies: base and backoff as the rule describes, nothing else.\<close>

lemma policy_chosen:
  "\<exists>p. set_retry_policy r NewRetryTemplateBuilder = Ret (NewRetryTemplateBuilder\<lparr>tb_BaseRtyPolicy := p\<rparr>) \<and>
    (case p of Some p \<Rightarrow> p | None \<Rightarrow> MaxAttemptsPolicy DefaultMaxRetryAttempts) = base_of r"
  by (rule exI [of _ "if yr_RetryPolicy r \<in> {NeverRetryPolicy, SimpleRetryPolicy, TimeoutRtyPolicy, MaxAttemptsRetryPolicy, AlwaysRetryPolicy}
      then Some (base_of r) else None"])
    (auto simp: set_retry_policy_def base_of_def policy_choices DefaultMaxRetryAttempts_def DefaultTimeout_def)

lemma backoff_chosen:
  assumes "0 \<le>s yr_BackoffPolicy r" and "yr_BackoffPolicy r \<le>s 4"
  shows "set_backoff_policy r b = b\<lparr>tb_BackOffPolicy := Some (backoff_of r)\<rparr>"
proof -
  have word: "sint (yr_BackoffPolicy r) = k \<Longrightarrow> yr_BackoffPolicy r = word_of_int k" for k
    by (drule arg_cong [of _ _ "word_of_int :: int \<Rightarrow> i32"]) simp
  have "sint (yr_BackoffPolicy r) \<in> {0, 1, 2, 3, 4}" using assms by (auto simp: word_sle_eq)
  then have "yr_BackoffPolicy r \<in> {0, 1, 2, 3, 4}" by (auto dest: word)
  then show ?thesis
    by (auto simp: set_backoff_policy_def backoff_of_def backoff_choices exponential_of_def SetInitialInterval_def
        SetMaxInterval_def SetMultiplier_def NoBackOffPolicy_def FixedBackOffPolicy_def
        ExponentialBackOffPolicy_def ExponentialRandomBackOffPolicy_def UniformRandomBackoffPolicy_def Let_def)
qed

lemma build_describes: "buildResourceRetryTemplate (yr_Resource r) (Some r # rs) = Ret (rule_template r)"
proof -
  obtain p where p: "set_retry_policy r NewRetryTemplateBuilder = Ret (NewRetryTemplateBuilder\<lparr>tb_BaseRtyPolicy := p\<rparr>)"
    "(case p of Some p \<Rightarrow> p | None \<Rightarrow> MaxAttemptsPolicy DefaultMaxRetryAttempts) = base_of r"
    using policy_chosen by blast
  show ?thesis
    using backoff_chosen [of r "NewRetryTemplateBuilder\<lparr>tb_BaseRtyPolicy := p\<rparr>"] p(2)
    by (auto simp: buildResourceRetryTemplate_def p(1) rule_template_def describable_def NeverRetryPolicy_def CustomPolicyRty_def
        NoBackOffPolicy_def UniformRandomBackoffPolicy_def word_sless_alt word_sle_eq not_less WithErrorMatchPattern_def
        RetryOnErrors_fresh NotRetryOnErrors_fresh builder_Build_def classifier_Build_def
        classifier_of_def Let_def)
qed

lemma base_of_simple: "simple_policy (base_of r)"
  by (simp add: base_of_def NewSimpleRetryPolicy_def NewSimpleRetryPolicyWithMaxAttemptsAndErrors_def)

lemma DeepCopy_same [simp]: "template_DeepCopy t = t"
  by (simp add: template_DeepCopy_def)

lemma map_DeepCopy [simp]: "map_option template_DeepCopy t = t"
  by (cases t) simp_all

section \<open>Loads\<close>

text \<open>What the valid rules of a resource describe; all of them name it.\<close>

definition described :: "rty_rule list \<Rightarrow> retry_template option" where
  "described rules = (case rules of [] \<Rightarrow> None | r # _ \<Rightarrow> rule_template r)"

lemma build_described:
  "rules \<noteq> [] \<Longrightarrow> \<forall>r \<in> set rules. yr_Resource r = res \<Longrightarrow> buildResourceRetryTemplate res (map Some rules) = Ret (described rules)"
  using build_describes by (cases rules) (auto simp: described_def)

lemma build_templates_described:
  assumes "\<forall>(res, rules) \<in> set m. rules \<noteq> [] \<and> (\<forall>r \<in> set rules. yr_Resource r = res)"
  shows "build_templates m = Ret (map (\<lambda>(res, rules). (res, described rules)) m)"
  using assms by (induction m rule: build_templates.induct) (auto simp: build_described)

lemma grouped_named:
  assumes "group_rules key rules [] = Ret raw" and "(res, rs) \<in> set raw" and "Some r \<in> set rs"
  shows "key r = res"
proof -
  have "mwf raw" using group_rules_mwf [OF assms(1)] by (simp add: mwf_def)
  then have "mget_list raw res = rs" using assms(2) by (simp add: mget_list_def mget_def mwf_def)
  then have "Some r \<in> set (named key res rules)" using group_rules_get [OF assms(1), of res] assms(3) by (simp add: mget_list_def mget_def)
  then show ?thesis by (auto simp: named_def)
qed

lemma described_map: "mget (map (\<lambda>(res, rules). (res, f rules)) m) res = map_option f (mget m res)"
  by (induction m) (auto simp: mget_def)

text \<open>A load that changes anything installs what the valid rules describe, defaults included.\<close>

lemma load_installs:
  assumes "\<not> ym_locked m" and "None \<notin> set rules"
  shows "\<exists>changed m'. rty_LoadRules rules m = Some (Ret (changed, None), m') \<and> \<not> ym_locked m' \<and>
    (if changed
     then \<forall>res. GetRetryTemplateOfResource res m' = Some (described (valid_rules rty_IsValidRule (named yr_Resource res rules))) \<and>
       rty_GetRulesOfResource res m' = Some (valid_rules rty_IsValidRule (named yr_Resource res rules))
     else m' = m)"
proof -
  obtain raw where raw: "group_rules yr_Resource rules [] = Ret raw" using group_rules_total [OF assms(2)] by blast
  have wf: "mwf raw" using group_rules_mwf [OF raw] by (simp add: mwf_def)
  show ?thesis
  proof (cases "meq (ym_currentRules m) raw")
    case True
    then show ?thesis using raw assms(1) by (intro exI [of _ False]) (simp add: rty_LoadRules_def)
  next
    case False
    let ?valid = "valid_map rty_IsValidRule raw"
    have ok: "\<forall>(res, rs) \<in> set ?valid. rs \<noteq> [] \<and> (\<forall>r \<in> set rs. yr_Resource r = res)"
      using grouped_named [OF raw] by (auto simp: valid_map_def dest!: valid_rules_sound)
    let ?m = "m\<lparr>ym_ruleMap := ?valid, ym_rtMap := map (\<lambda>(res, rules). (res, described rules)) ?valid, ym_currentRules := raw\<rparr>"
    have load: "rty_LoadRules rules m = Some (Ret (True, None), ?m)"
      using False raw assms(1) by (simp add: rty_LoadRules_def rty_onRuleUpdate_def build_templates_described [OF ok] Let_def)
    have valid: "mget_list ?valid res = valid_rules rty_IsValidRule (named yr_Resource res rules)" for res
      using mget_valid_map [OF wf, of rty_IsValidRule res] group_rules_get [OF raw, of res] by (simp add: mget_list_def mget_def)
    have "GetRetryTemplateOfResource res ?m = Some (described (mget_list ?valid res))" for res
      using assms(1)
      by (cases "mget ?valid res")
        (simp_all add: GetRetryTemplateOfResource_def getRetryTemplatesOfResource_def described_map mget_list_def described_def
          split: list.splits)
    then show ?thesis using load assms(1) valid by (auto simp: rty_GetRulesOfResource_def)
  qed
qed

text \<open>
  Rules that leave nothing to a default: a policy that is implemented, with the numbers it needs, a backoff
  with positive periods, and no more than one of the two lists of errors.
\<close>

definition explicit_rule :: "rty_rule \<Rightarrow> bool" where
  "explicit_rule r \<longleftrightarrow>
     (yr_RetryPolicy r \<in> {SimpleRetryPolicy, MaxAttemptsRetryPolicy} \<and> 0 < sint (yr_RetryMaxAttempts r) \<or>
      yr_RetryPolicy r = TimeoutRtyPolicy \<and> 0 < sint (yr_RetryTimeout r) \<or> yr_RetryPolicy r = AlwaysRetryPolicy) \<and>
     (yr_BackoffPolicy r = NoBackOffPolicy \<or>
      yr_BackoffPolicy r = FixedBackOffPolicy \<and> 0 < sint (yr_FixedBackOffPeriodInMs r) \<or>
      yr_BackoffPolicy r \<in> {ExponentialBackOffPolicy, ExponentialRandomBackOffPolicy} \<and> 0 < sint (yr_BackoffDelay r) \<and>
        0 < sint (yr_BackoffMaxDelay r) \<and> 0 < sint (yr_BackoffMultiplier r) \<or>
      yr_BackoffPolicy r = UniformRandomBackoffPolicy \<and> 0 < sint (yr_UniformMinBackoffPeriod r) \<and>
        0 < sint (yr_UniformMaxBackoffPeriod r)) \<and>
     (elems (yr_IncludeExceptions r) = [] \<or> elems (yr_ExcludeExceptions r) = [])"

definition explicit_policy :: "rty_rule \<Rightarrow> rty_policy" where
  "explicit_policy r =
     (if yr_RetryPolicy r = AlwaysRetryPolicy then AlwaysPolicy
      else if yr_RetryPolicy r = TimeoutRtyPolicy then TimeoutPolicy (yr_RetryTimeout r)
      else if yr_RetryPolicy r = MaxAttemptsRetryPolicy then MaxAttemptsPolicy (yr_RetryMaxAttempts r)
      else SimplePolicy (yr_RetryMaxAttempts r)
        \<lparr>ec_DefaultValue = False, ec_Classified = elems (yr_ExcludeExceptions r), ec_Matcher = ExactMatch\<rparr>)"

definition explicit_backoff :: "rty_rule \<Rightarrow> backoff_policy" where
  "explicit_backoff r =
     (let settings = \<lparr>xb_InitialInterval = yr_BackoffDelay r, xb_MaxInterval = yr_BackoffMaxDelay r,
            xb_Multiplier = yr_BackoffMultiplier r\<rparr>
      in if yr_BackoffPolicy r = NoBackOffPolicy then NoBackOff
         else if yr_BackoffPolicy r = FixedBackOffPolicy then FixedBackOff (yr_FixedBackOffPeriodInMs r)
         else if yr_BackoffPolicy r = ExponentialBackOffPolicy then ExpBackOff settings
         else if yr_BackoffPolicy r = ExponentialRandomBackOffPolicy then ExpRandomBackOff settings
         else UniformBackOff (yr_UniformMinBackoffPeriod r) (yr_UniformMaxBackoffPeriod r))"

text \<open>The template such a rule asks for: its policy and its classes of errors, both of which have to agree.\<close>

definition explicit_template :: "rty_rule \<Rightarrow> retry_template" where
  "explicit_template r =
     \<lparr>rt_BackOffPolicy = explicit_backoff r,
      rt_RetryPolicy = CompositePolicy [explicit_policy r, ClassifierPolicy (classifier_of r)] False, rt_Listeners = []\<rparr>"

lemma positive_kept:
  "0 < sint v \<Longrightarrow> (if 1 <s v then v else 1) = (v :: 'a::len word)" "0 < sint v \<Longrightarrow> (if 0 <s v then v else 1) = v"
proof -
  show "(if 1 <s v then v else 1) = v" if "0 < sint v"
  proof (cases "1 <s v")
    case False
    then have "sint v \<le> 1" using that sint_ge [of v] by (cases "LENGTH('a) = 1") (auto simp: word_sless_alt)
    then have "sint v = 1" using that by simp
    then have "v = 1" by (metis of_int_1 scast_eq scast_id)
    then show ?thesis by simp
  qed simp
qed (simp add: word_sless_alt)

lemma explicit_described:
  assumes "explicit_rule r"
  shows "rule_template r = Some (explicit_template r)"
proof -
  note policies = NeverRetryPolicy_def SimpleRetryPolicy_def TimeoutRtyPolicy_def MaxAttemptsRetryPolicy_def AlwaysRetryPolicy_def
  note backoffs = NoBackOffPolicy_def FixedBackOffPolicy_def ExponentialBackOffPolicy_def ExponentialRandomBackOffPolicy_def
    UniformRandomBackoffPolicy_def
  have p: "yr_RetryPolicy r = 1 \<and> 0 < sint (yr_RetryMaxAttempts r) \<or> yr_RetryPolicy r = 2 \<and> 0 < sint (yr_RetryTimeout r) \<or>
      yr_RetryPolicy r = 3 \<and> 0 < sint (yr_RetryMaxAttempts r) \<or> yr_RetryPolicy r = 5"
    using assms unfolding explicit_rule_def policies by blast
  have b: "yr_BackoffPolicy r = 0 \<or> yr_BackoffPolicy r = 1 \<or>
      (yr_BackoffPolicy r = 2 \<or> yr_BackoffPolicy r = 3) \<and> 0 < sint (yr_BackoffDelay r) \<and>
        0 < sint (yr_BackoffMaxDelay r) \<and> 0 < sint (yr_BackoffMultiplier r) \<or> yr_BackoffPolicy r = 4"
    using assms unfolding explicit_rule_def backoffs by blast
  have "base_of r = explicit_policy r"
    using p by (elim disjE conjE) (simp_all add: base_of_def explicit_policy_def policies
        NewSimpleRetryPolicyWithMaxAttemptsAndErrors_def word_sle_eq)
  moreover have "backoff_of r = explicit_backoff r"
    using b by (elim disjE conjE) (simp_all add: backoff_of_def explicit_backoff_def exponential_of_def positive_kept backoffs)
  moreover have "describable r"
  proof -
    have "0 \<le>s yr_RetryPolicy r \<and> yr_RetryPolicy r \<le>s 7" using p by (elim disjE conjE) (simp_all add: word_sle_eq)
    moreover have "0 \<le>s yr_BackoffPolicy r \<and> yr_BackoffPolicy r \<le>s 4" using b by (elim disjE conjE) (simp_all add: word_sle_eq)
    ultimately show ?thesis using assms by (simp add: describable_def explicit_rule_def)
  qed
  ultimately show ?thesis by (simp add: rule_template_def explicit_template_def)
qed

text \<open>
  C35: A load of retry rules that leave nothing to a default (an implemented policy other than never, with
  positive numbers for all that it and the backoff need, and at most one list of errors), on a manager
  that is not locked, returns without an error. When it changes anything, each resource afterwards has
  exactly the template that the first of its valid rules spells out, or none if it has no valid rule,
  and the valid rules are what the manager lists.
\<close>

theorem retry_load_installs:
  assumes "\<not> ym_locked m" and "None \<notin> set rules"
    and "\<forall>r. Some r \<in> set rules \<and> rty_IsValidRule (Some r) = None \<longrightarrow> explicit_rule r"
  defines "valid \<equiv> \<lambda>res. valid_rules rty_IsValidRule (named yr_Resource res rules)"
  shows "\<exists>changed m'. rty_LoadRules rules m = Some (Ret (changed, None), m') \<and> \<not> ym_locked m' \<and>
    (if changed
     then \<forall>res. GetRetryTemplateOfResource res m' =
         Some (case valid res of [] \<Rightarrow> None | r # _ \<Rightarrow> Some (explicit_template r)) \<and>
       rty_GetRulesOfResource res m' = Some (valid res)
     else m' = m)"
proof -
  have "described (valid res) = (case valid res of [] \<Rightarrow> None | r # _ \<Rightarrow> Some (explicit_template r))" for res
  proof (cases "valid res")
    case (Cons r rs)
    then have "Some r \<in> set (named yr_Resource res rules) \<and> rty_IsValidRule (Some r) = None"
      using valid_rules_sound [of r rty_IsValidRule "named yr_Resource res rules"] by (auto simp: valid_def)
    then have "explicit_rule r" using assms(3) by (auto simp: named_def)
    then show ?thesis by (simp add: Cons described_def explicit_described)
  qed (simp add: described_def)
  then show ?thesis using load_installs [OF assms(1,2)] unfolding valid_def by (simp only:)
qed

definition demo_rty_rule :: rty_rule where
  "demo_rty_rule = \<lparr>yr_Id = [], yr_App = [], yr_RuleName = [], yr_Resource = ''api'', yr_RetryPolicy = MaxAttemptsRetryPolicy,
    yr_RetryMaxAttempts = 4, yr_RetryTimeout = 0, yr_BackoffPolicy = FixedBackOffPolicy, yr_FixedBackOffPeriodInMs = 50,
    yr_BackoffDelay = 0, yr_BackoffMaxDelay = 0, yr_BackoffMultiplier = 0, yr_UniformMinBackoffPeriod = 0,
    yr_UniformMaxBackoffPeriod = 0, yr_ErrorMatcher = 0, yr_IncludeExceptions = None, yr_ExcludeExceptions = None,
    yr_SpecificItems = None\<rparr>"

lemma demo_rty_rule_template: "explicit_template demo_rty_rule = \<lparr>rt_BackOffPolicy = FixedBackOff 50,
    rt_RetryPolicy = CompositePolicy [MaxAttemptsPolicy 4, ClassifierPolicy (classifier_of demo_rty_rule)] False, rt_Listeners = []\<rparr>"
  by (simp add: explicit_template_def explicit_backoff_def explicit_policy_def demo_rty_rule_def NoBackOffPolicy_def
      FixedBackOffPolicy_def TimeoutRtyPolicy_def MaxAttemptsRetryPolicy_def AlwaysRetryPolicy_def)

theorem retry_load_installs_witness:
  "\<exists>m. snd (the (rty_LoadRules [Some demo_rty_rule] \<lparr>ym_ruleMap = [], ym_currentRules = [], ym_rtMap = [], ym_locked = False\<rparr>)) = m \<and>
    GetRetryTemplateOfResource ''api'' m = Some (Some \<lparr>rt_BackOffPolicy = FixedBackOff 50,
      rt_RetryPolicy = CompositePolicy [MaxAttemptsPolicy 4, ClassifierPolicy (classifier_of demo_rty_rule)] False, rt_Listeners = []\<rparr>)"
proof -
  let ?r = demo_rty_rule
  let ?m = "\<lparr>ym_ruleMap = [], ym_currentRules = [], ym_rtMap = [], ym_locked = False\<rparr> :: rty_manager"
  have "\<not> ym_locked ?m" "None \<notin> set [Some ?r]"
    "\<forall>r. Some r \<in> set [Some ?r] \<and> rty_IsValidRule (Some r) = None \<longrightarrow> explicit_rule r"
    by (simp_all add: explicit_rule_def demo_rty_rule_def elems_def)
  from retry_load_installs [OF this] obtain changed m' where l: "rty_LoadRules [Some ?r] ?m = Some (Ret (changed, None), m')"
    "if changed then \<forall>res. GetRetryTemplateOfResource res m' =
         Some (case valid_rules rty_IsValidRule (named yr_Resource res [Some ?r]) of [] \<Rightarrow> None | r # _ \<Rightarrow> Some (explicit_template r)) \<and>
       rty_GetRulesOfResource res m' = Some (valid_rules rty_IsValidRule (named yr_Resource res [Some ?r])) else m' = ?m"
    by blast
  have "changed"
    using l(1) by (simp add: rty_LoadRules_def mput_def mget_list_def mget_def meq_def split: if_splits)
  moreover have "valid_rules rty_IsValidRule (named yr_Resource ''api'' [Some ?r]) = [?r]"
    by (simp add: named_def valid_rules_def map_filter_simps rty_IsValidRule_def demo_rty_rule_def)
  ultimately have "GetRetryTemplateOfResource ''api'' m' = Some (Some (explicit_template ?r))"
    using l(2) by simp
  then show ?thesis using l(1) demo_rty_rule_template by (intro exI [of _ m']) simp
qed

section \<open>What goes wrong\<close>

text \<open>A rule that asks for the policy of no retries: not even the first attempt is made.\<close>

lemma never_policy_never_tries:
  assumes "sn_base s = NeverPolicy" and "backoff_fine (sn_backoff s)"
  shows "\<exists>d. template_Execute (sn_env s) (sn_clk s) (sn_template s) (sn_callback s) = Some (Ret d) \<and>
    rd_result d = NilValue \<and> rd_err d = Some ''exception in retry'' \<and> ru_calls (rd_run d) = 0"
proof -
  have no: "\<not> sn_tries s 0" by (simp add: sn_tries_def sn_allows_def assms(1))
  then have "sn_ends s 0" by (simp add: sn_ends_def)
  then show ?thesis using execute_ends [of s 0] assms no by (auto simp: sn_verdict_def sn_calls_def)
qed

text \<open>An attempt that always panics with another value is made for ever, whatever the largest number of attempts.\<close>

lemma other_panics_hang:
  assumes "sn_base s = MaxAttemptsPolicy n" and "0 <s n" and "backoff_fine (sn_backoff s)"
    and "\<forall>i. sn_out s i = RaisesOther" and "\<forall>i. \<not> sn_exhaust s i"
  shows "template_Execute (sn_env s) (sn_clk s) (sn_template s) (sn_callback s) = None"
proof -
  have "sn_errs s i = [] \<and> \<not> sn_marked s i" for i using assms(4,5) by (induction i) simp_all
  then have "sn_tries s i" for i using assms(1,2) by (simp add: sn_tries_def sn_allows_def)
  then show ?thesis using assms by (intro execute_hangs) (auto simp: sn_ends_def)
qed

text \<open>With a listener no run returns: the interceptors of the end index one past the list.\<close>

lemma listeners_panic:
  assumes "rt_Listeners t \<noteq> []"
  shows "template_Execute env clk t cb \<noteq> Some (Ret d)"
proof -
  have "finally_close t res st \<noteq> Ret d" for res :: "'v rty_value \<times> string option" and st and d
    using assms by (auto simp: finally_close_def doCloseInterceptors_def after_interceptors_def go_bind_Ret_iff)
  then show ?thesis
    by (auto simp: template_Execute_def ExecuteWithState_def ExecuteWithRecoverAndState_def template_open_def Let_def
        split: option.splits prod.splits rty_exit.splits if_splits)
qed

text \<open>Clearing the rules of a resource leaves its template in force.\<close>

lemma clear_keeps_template:
  assumes "\<not> ym_locked m" and "res \<noteq> []"
  shows "\<exists>m'. rty_LoadRulesOfResource res [] m = Some (Ret (True, None), m') \<and> rty_GetRulesOfResource res m' = Some [] \<and>
    GetRetryTemplateOfResource res m' = GetRetryTemplateOfResource res m"
  using assms
  by (simp add: rty_LoadRulesOfResource_def rty_GetRulesOfResource_def GetRetryTemplateOfResource_def getRetryTemplatesOfResource_def
      map_simps)

text \<open>A nil rule in front of a valid one locks the manager up: every later lookup waits for ever.\<close>

lemma nil_rule_locks:
  assumes "\<not> ym_locked m" and "res \<noteq> []" and "rty_IsValidRule (Some r) = None" and "mget (ym_currentRules m) res \<noteq> Some [None, Some r]"
  shows "\<exists>m'. rty_LoadRulesOfResource res [None, Some r] m = Some (Panic ''nil pointer dereference'', m') \<and>
    GetRetryTemplateOfResource res' m' = None \<and> rty_LoadRulesOfResource res' [] m' = (if res' = [] then Some (Ret (False, Some ''empty resource''), m') else None)"
proof -
  have "valid_rules rty_IsValidRule [None, Some r] = [r]"
    using assms(3) by (simp add: valid_rules_def map_filter_simps rty_IsValidRule_def split: if_splits)
  then show ?thesis
    using assms by (simp add: rty_LoadRulesOfResource_def rty_onResourceUpdate_def buildResourceRetryTemplate_def
        GetRetryTemplateOfResource_def getRetryTemplatesOfResource_def Let_def)
qed

end
