(* ===== verification/RetrySimulator.thy ===== *)
theory RetrySimulator
  imports RetryBounds
begin

text \<open>
  The retry simulator, \<open>core/retry/support/retry_simulator.go\<close>: it runs a template whose callback always panics and
  collects the pauses. The percentiles, which sort by comparing positions, are left out.
\<close>

record sleep_sequence =
  ss_Sleeps :: "i64 list"
  ss_LongestSleep :: i64
  ss_TotalSleep :: i64

fun sum_up :: "i64 list \<Rightarrow> i64 \<Rightarrow> i64 \<Rightarrow> i64 \<times> i64" where
  "sum_up [] longest total_sleep = (longest, total_sleep)"
| "sum_up (sleep # sleeps) longest total_sleep =
     sum_up sleeps (if longest <s sleep then sleep else longest) (total_sleep + sleep)"

definition NewSleepSequence :: "i64 list \<Rightarrow> sleep_sequence" where
  "NewSleepSequence sleeps =
     (let (longest, total_sleep) = sum_up sleeps 0 0
      in \<lparr>ss_Sleeps = sleeps, ss_LongestSleep = longest, ss_TotalSleep = total_sleep\<rparr>)"

record retry_simulation =
  rsim_Sequences :: "sleep_sequence list"
  rsim_Histogram :: "i64 list"

definition AddSequence :: "i64 list \<Rightarrow> retry_simulation \<Rightarrow> retry_simulation" where
  "AddSequence sleeps r =
     r\<lparr>rsim_Histogram := rsim_Histogram r @ sleeps, rsim_Sequences := rsim_Sequences r @ [NewSleepSequence sleeps]\<rparr>"

fun longest_sequence :: "sleep_sequence list \<Rightarrow> sleep_sequence option \<Rightarrow> sleep_sequence option" where
  "longest_sequence [] longest = longest"
| "longest_sequence (q # qs) longest =
     longest_sequence qs
       (case longest of None \<Rightarrow> Some q | Some l \<Rightarrow> if ss_TotalSleep l <s ss_TotalSleep q then Some q else Some l)"

definition GetLongestTotalSleepSequence :: "retry_simulation \<Rightarrow> sleep_sequence option" where
  "GetLongestTotalSleepSequence r = longest_sequence (rsim_Sequences r) None"

definition FailingRetryCallback :: "'v rty_callback" where
  "FailingRetryCallback i ctx = (Raises ''FailingRetryException'', False)"

text \<open>One simulation: the pauses, or the error. A policy without sleeper cannot be simulated.\<close>

definition ExecuteSingleSimulation ::
  "retry_env \<Rightarrow> (nat \<Rightarrow> i64) \<Rightarrow> backoff_policy \<Rightarrow> rty_policy \<Rightarrow> i64 list go option" where
  "ExecuteSingleSimulation env clk bo policy =
     (case WithSleeper bo of
        None \<Rightarrow> Some (Panic ''no sleeper'')
      | Some stealing \<Rightarrow>
          (case template_Execute env clk \<lparr>rt_BackOffPolicy = stealing, rt_RetryPolicy = policy, rt_Listeners = []\<rparr>
                  (FailingRetryCallback :: unit rty_callback) of
             None \<Rightarrow> None
           | Some (Ret d) \<Rightarrow>
               Some (case rd_err d of Some e \<Rightarrow> Err (''Unexpected exception'' @ e) | None \<Rightarrow> Ret (ru_sleeps (rd_run d)))
           | Some (Err e) \<Rightarrow> Some (Err e)
           | Some (Panic p) \<Rightarrow> Some (Panic p)))"

fun ExecuteSimulation ::
  "retry_env \<Rightarrow> (nat \<Rightarrow> nat \<Rightarrow> i64) \<Rightarrow> backoff_policy \<Rightarrow> rty_policy \<Rightarrow> nat \<Rightarrow> retry_simulation \<Rightarrow> retry_simulation go option" where
  "ExecuteSimulation env clk bo policy 0 sim = Some (Ret sim)"
| "ExecuteSimulation env clk bo policy (Suc n) sim =
     (case ExecuteSingleSimulation env (clk n) bo policy of
        None \<Rightarrow> None
      | Some (Ret sleeps) \<Rightarrow> ExecuteSimulation env clk bo policy n (AddSequence sleeps sim)
      | Some (Err e) \<Rightarrow> Some (Err e)
      | Some (Panic p) \<Rightarrow> Some (Panic p))"

text \<open>
  A template only returns without an error if the callback returned a value. That of the simulator never does:
  no simulation gives pauses.
\<close>

lemma loop_without_values:
  assumes "retry_loop env clk t cb i st = Some r" and "cb = FailingRetryCallback"
  shows "fst r \<noteq> GotResult v"
  using assms
proof (induction rule: retry_loop.raw_induct [rotated, consumes 1, case_names step])
  case (step rec env clk t cb i st r)
  have "fst x \<noteq> GotResult v" if "retry_round env clk t cb i st = Inl x" for x
    using step.prems that by (auto simp: retry_round_def FailingRetryCallback_def on_failure_def Let_def split: go.splits if_splits prod.splits)
  then show ?case using step.hyps step.IH step.prems by (auto split: sum.splits)
qed

lemma simulation_fails: "ExecuteSingleSimulation env clk bo policy \<noteq> Some (Ret sleeps)"
proof -
  have errs: "rd_err d \<noteq> None"
    if ex: "template_Execute env clk \<lparr>rt_BackOffPolicy = b, rt_RetryPolicy = policy, rt_Listeners = []\<rparr> FailingRetryCallback = Some (Ret d)"
    for b and d :: "unit rty_done"
  proof -
    let ?t = "\<lparr>rt_BackOffPolicy = b, rt_RetryPolicy = policy, rt_Listeners = []\<rparr>"
    have fin: "snd res \<noteq> None \<Longrightarrow> finally_close ?t res st = Ret d \<Longrightarrow> rd_err d \<noteq> None" for res st
      by (auto simp: finally_close_def go_bind_Ret_iff)
    have gave_up: "handleRetryExhausted None ctx = (res, ctx') \<Longrightarrow> snd res \<noteq> None" for ctx ctx' and res :: "unit rty_value \<times> string option"
      by (auto simp: handleRetryExhausted_def Let_def split: option.splits)
    have no_value: "retry_loop env clk ?t FailingRetryCallback i st \<noteq> Some (GotResult u, st')" for i st u st'
      using loop_without_values [of env clk ?t FailingRetryCallback i st] by fastforce
    from ex show ?thesis
      by (auto simp: template_Execute_def ExecuteWithState_def ExecuteWithRecoverAndState_def template_open_def Let_def
          doOpenInterceptors_def no_value simp del: not_None_eq split: option.splits prod.splits rty_exit.splits
          dest!: fin [rotated] gave_up)
  qed
  show ?thesis by (auto simp: ExecuteSingleSimulation_def split: option.splits go.splits dest: errs)
qed

end
