(* ===== verification/GrayRule.thy ===== *)
theory GrayRule
  imports HotspotArgs
begin

text \<open>
  The gray rules and the selectors built from them, \<open>core/gray/rule.go\<close>, \<open>gc_condition.go\<close>, \<open>gc_tag.go\<close>, \<open>gc_weight.go\<close> and
  \<open>traffic_selector.go\<close>. A slice of a rule is an option, since \<open>reflect.DeepEqual\<close> tells a nil slice from an
  empty one. White space is that of ASCII; marshalling an argument does not fail.
\<close>

section \<open>Rules\<close>

definition ConditionRouter :: i64 where "ConditionRouter = 1"
definition TagRouter :: i64 where "TagRouter = 2"
definition WeightRouter :: i64 where "WeightRouter = 3"

definition RouterStrategy_String :: "i64 \<Rightarrow> string" where
  "RouterStrategy_String t =
     (if t = ConditionRouter then ''ConditionRouter'' else if t = TagRouter then ''TagRouter''
      else if t = WeightRouter then ''WeightRouter'' else FormatInt (sint t))"

definition GrayTypeCookie :: i64 where "GrayTypeCookie = 1"
definition GrayTypeHeader :: i64 where "GrayTypeHeader = 2"
definition GrayTypeParameter :: i64 where "GrayTypeParameter = 3"
definition GrayTypeBody :: i64 where "GrayTypeBody = 4"
definition GrayTypeMetadata :: i64 where "GrayTypeMetadata = 5"

definition RouterParameterType_String :: "i64 \<Rightarrow> string" where
  "RouterParameterType_String t =
     (if t = GrayTypeCookie then ''ParameterTypeCookie'' else if t = GrayTypeHeader then ''ParameterTypeHeader''
      else if t = GrayTypeParameter then ''ParameterTypeParameter'' else if t = GrayTypeBody then ''ParameterTypeBody''
      else if t = GrayTypeMetadata then ''ParameterTypeMetadata'' else FormatInt (sint t))"

definition OpEqual :: i64 where "OpEqual = 1"
definition OpNotEqual :: i64 where "OpNotEqual = 2"
definition OpGreater :: i64 where "OpGreater = 3"
definition OpGreaterThan :: i64 where "OpGreaterThan = 4"
definition OpLess :: i64 where "OpLess = 5"
definition OpLessThan :: i64 where "OpLessThan = 6"
definition OpIn :: i64 where "OpIn = 7"
definition OpNotIn :: i64 where "OpNotIn = 8"
definition OpMod100 :: i64 where "OpMod100 = 9"

definition Op_String :: "i64 \<Rightarrow> string" where
  "Op_String t =
     (if t = OpEqual then ''OpEqual'' else if t = OpNotEqual then ''OpNotEqual'' else if t = OpGreater then ''OpGreater''
      else if t = OpGreaterThan then ''OpGreaterThan'' else if t = OpLess then ''OpLess'' else if t = OpLessThan then ''OpLessThan''
      else if t = OpIn then ''OpIn'' else if t = OpNotIn then ''OpNotIn'' else if t = OpMod100 then ''OpMod100''
      else FormatInt (sint t))"

definition CondALL :: i64 where "CondALL = 1"
definition CondANY :: i64 where "CondANY = 2"

definition Conditions_String :: "i64 \<Rightarrow> string" where
  "Conditions_String t = (if t = CondALL then ''ALL'' else if t = CondANY then ''ANY'' else FormatInt (sint t))"

record gparam =
  gp_Type :: i64
  gp_Key :: string
  gp_Value :: string
  gp_Op :: i64

record gcondition =
  gcd_EffectiveAddresses :: string
  gcd_TargetResource :: string
  gcd_TargetVersion :: string
  gcd_Conditions :: i64
  gcd_Params :: "gparam list option"

record gtag =
  gt_TagKey :: string
  gt_TagValue :: string
  gt_EffectiveAddresses :: string
  gt_TargetResource :: string
  gt_TargetVersion :: string

record gweight =
  gw_EffectiveAddresses :: string
  gw_TargetResource :: string
  gw_TargetVersion :: string
  gw_Weight :: f64

record gray_rule =
  gy_ID :: string
  gy_App :: string
  gy_RuleName :: string
  gy_LimitApp :: string
  gy_Resource :: string
  gy_GrayTag :: string
  gy_LinkPass :: bool
  gy_RouterStrategy :: i64
  gy_Force :: bool
  gy_BlackIpAddresses :: string
  gy_WhiteIpAddresses :: string
  gy_GrayConditionList :: "gcondition list option"
  gy_GrayTagList :: "gtag list option"
  gy_GrayWeightList :: "gweight list option"

definition slice :: "'a list option \<Rightarrow> 'a list" where
  "slice s = (case s of None \<Rightarrow> [] | Some xs \<Rightarrow> xs)"

definition gparam_isEqualTo :: "gparam \<Rightarrow> gparam \<Rightarrow> bool" where
  "gparam_isEqualTo r n \<longleftrightarrow> gp_Type r = gp_Type n \<and> gp_Key r = gp_Key n \<and> gp_Value r = gp_Value n \<and> gp_Op r = gp_Op n"

definition gcondition_isEqualTo :: "gcondition \<Rightarrow> gcondition \<Rightarrow> bool" where
  "gcondition_isEqualTo r n \<longleftrightarrow>
     gcd_EffectiveAddresses r = gcd_EffectiveAddresses n \<and> gcd_TargetResource r = gcd_TargetResource n \<and>
     gcd_TargetVersion r = gcd_TargetVersion n \<and> gcd_Conditions r = gcd_Conditions n \<and>
     list_all2 gparam_isEqualTo (slice (gcd_Params r)) (slice (gcd_Params n))"

definition gtag_isEqualTo :: "gtag \<Rightarrow> gtag \<Rightarrow> bool" where
  "gtag_isEqualTo r n \<longleftrightarrow>
     gt_TagKey r = gt_TagKey n \<and> gt_TagValue r = gt_TagValue n \<and> gt_EffectiveAddresses r = gt_EffectiveAddresses n \<and>
     gt_TargetResource r = gt_TargetResource n \<and> gt_TargetVersion r = gt_TargetVersion n"

definition gweight_isEqualTo :: "gweight \<Rightarrow> gweight \<Rightarrow> bool" where
  "gweight_isEqualTo r n \<longleftrightarrow>
     gw_EffectiveAddresses r = gw_EffectiveAddresses n \<and> gw_TargetResource r = gw_TargetResource n \<and>
     gw_TargetVersion r = gw_TargetVersion n \<and> feq (gw_Weight r) (gw_Weight n)"

text \<open>A loop over one list that indexes the other, which may be shorter.\<close>

fun each_equal :: "('a \<Rightarrow> 'a \<Rightarrow> bool) \<Rightarrow> 'a list \<Rightarrow> 'a list \<Rightarrow> bool go" where
  "each_equal eq [] ys = Ret True"
| "each_equal eq (x # xs) [] = Panic ''index out of range''"
| "each_equal eq (x # xs) (y # ys) = (if eq x y then each_equal eq xs ys else Ret False)"

text \<open>
  Equality of rules as the manager uses it: the conditions are counted against the weights of the other
  rule, and the tags and the weights against themselves.
\<close>

definition gray_isEqualTo :: "gray_rule \<Rightarrow> gray_rule \<Rightarrow> bool go" where
  "gray_isEqualTo r n =
     (if \<not> (gy_LimitApp r = gy_LimitApp n \<and> gy_Resource r = gy_Resource n \<and> gy_GrayTag r = gy_GrayTag n \<and>
            gy_LinkPass r = gy_LinkPass n \<and> gy_RouterStrategy r = gy_RouterStrategy n \<and> gy_Force r = gy_Force n \<and>
            gy_BlackIpAddresses r = gy_BlackIpAddresses n \<and> gy_WhiteIpAddresses r = gy_WhiteIpAddresses n) then Ret False
      else if length (slice (gy_GrayConditionList r)) \<noteq> length (slice (gy_GrayWeightList n)) then Ret False
      else go_bind (each_equal gcondition_isEqualTo (slice (gy_GrayConditionList r)) (slice (gy_GrayConditionList n))) (\<lambda>c.
        if \<not> c then Ret False
        else go_bind (each_equal gtag_isEqualTo (slice (gy_GrayTagList r)) (slice (gy_GrayTagList n))) (\<lambda>t.
          if \<not> t then Ret False
          else each_equal gweight_isEqualTo (slice (gy_GrayWeightList r)) (slice (gy_GrayWeightList n)))))"

definition gray_IsValidRule :: "gray_rule option \<Rightarrow> string option" where
  "gray_IsValidRule rule =
     (case rule of
        None \<Rightarrow> Some ''nil Rule''
      | Some r \<Rightarrow>
          if gy_Resource r = [] then Some ''empty resource''
          else if (ucast (gy_RouterStrategy r) :: i32) <s 0 then Some ''negative RouterStrategy''
          else None)"

section \<open>Selectors\<close>

definition is_space :: "char \<Rightarrow> bool" where
  "is_space c \<longleftrightarrow> (let n = (of_char c :: nat) in 9 \<le> n \<and> n \<le> 13 \<or> n = 32)"

definition TrimSpace :: "string \<Rightarrow> string" where
  "TrimSpace s = rev (dropWhile is_space (rev (dropWhile is_space s)))"

fun str_less :: "string \<Rightarrow> string \<Rightarrow> bool" where
  "str_less [] t \<longleftrightarrow> t \<noteq> []"
| "str_less (c # s) [] \<longleftrightarrow> False"
| "str_less (c # s) (d # t) \<longleftrightarrow> (of_char c :: nat) < of_char d \<or> c = d \<and> str_less s t"

definition target_of :: "string \<Rightarrow> string \<Rightarrow> string" where
  "target_of resource version = (if TrimSpace version \<noteq> [] then resource @ ''.'' @ TrimSpace version else resource)"

definition CheckLock :: "string \<Rightarrow> gparam \<Rightarrow> bool" where
  "CheckLock matchVal p =
     (let op = gp_Op p; v = gp_Value p
      in if op = OpEqual then matchVal = v
         else if op = OpNotEqual then matchVal \<noteq> v
         else if op = OpGreater then str_less v matchVal
         else if op = OpGreaterThan then \<not> str_less matchVal v
         else if op = OpLess then str_less matchVal v
         else if op = OpLessThan then \<not> str_less v matchVal
         else if op = OpIn then matchVal \<in> set (split_on (CHR '','') v)
         else if op = OpNotIn then matchVal \<notin> set (split_on (CHR '','') v)
         else if op = OpMod100 then
           (case (ParseInt 64 matchVal, ParseInt 64 v) of
              (Some a, Some b) \<Rightarrow> sgn a * (\<bar>a\<bar> mod 100) = b
            | _ \<Rightarrow> False)
         else False)"

definition GrayResTypeWeb :: resource_type where "GrayResTypeWeb = 1"
definition GrayResTypeMicro :: resource_type where "GrayResTypeMicro = 7"

text \<open>One parameter of a condition; \<open>meet\<close> is the answer for the one before it, which an unknown type keeps.\<close>

definition check_first :: "string list \<Rightarrow> gparam \<Rightarrow> bool" where
  "check_first vals p = (case vals of [] \<Rightarrow> False | val # _ \<Rightarrow> CheckLock val p)"

definition check_param :: "json_env \<Rightarrow> sea_input \<Rightarrow> resource_type \<Rightarrow> bool \<Rightarrow> gparam \<Rightarrow> bool go" where
  "check_param je inp classification meet p =
     (let ty = gp_Type p; key = gp_Key p
      in if ty = GrayTypeCookie then Ret (check_first (mget_list (in_Cookies inp) key) p)
         else if ty = GrayTypeBody then Ret (check_first (mget_list (in_Body inp) key) p)
         else if ty = GrayTypeHeader then Ret (check_first (mget_list (in_Headers inp) key) p)
         else if ty = GrayTypeParameter then
           (if classification = GrayResTypeMicro then
              (case in_Args inp of
                 [] \<Rightarrow> Panic ''index out of range''
               | arg # _ \<Rightarrow>
                   Ret (if je_is_struct je arg then
                          (case je_get je (je_marshal je arg) (split_on (CHR ''.'') key) of
                             None \<Rightarrow> False
                           | Some (val, _) \<Rightarrow> CheckLock val p)
                        else False))
            else Ret False)
         else if ty = GrayTypeMetadata then Ret (CheckLock (mget_list (in_MetaData inp) key) p)
         else Ret meet)"

fun DoCheck_params :: "json_env \<Rightarrow> sea_input \<Rightarrow> resource_type \<Rightarrow> i64 \<Rightarrow> gparam list \<Rightarrow> bool \<Rightarrow> bool go" where
  "DoCheck_params je inp classification conds [] meet = Ret meet"
| "DoCheck_params je inp classification conds (p # ps) meet =
     go_bind (check_param je inp classification meet p) (\<lambda>meet.
       if \<not> meet \<and> conds = CondALL then Ret meet
       else if meet \<and> conds = CondANY then Ret meet
       else DoCheck_params je inp classification conds ps meet)"

definition DoCheck :: "json_env \<Rightarrow> sea_input \<Rightarrow> resource_type \<Rightarrow> gcondition \<Rightarrow> bool go" where
  "DoCheck je inp classification cond =
     DoCheck_params je inp classification (gcd_Conditions cond) (slice (gcd_Params cond)) False"

datatype gray_selector =
    ConditionSelector bool string "gcondition list"
  | TagSelector bool string "gtag list"
  | WeightSelector "string list" "string list" "f64 list" f64

fun first_condition :: "json_env \<Rightarrow> sea_input \<Rightarrow> resource_type \<Rightarrow> gcondition list \<Rightarrow> (string \<times> string) go" where
  "first_condition je inp classification [] = Ret ([], [])"
| "first_condition je inp classification (cond # conds) =
     go_bind (DoCheck je inp classification cond) (\<lambda>meet.
       if meet then Ret (target_of (gcd_TargetResource cond) (gcd_TargetVersion cond), gcd_EffectiveAddresses cond)
       else first_condition je inp classification conds)"

definition condition_CalculateAllowedResource ::
  "json_env \<Rightarrow> sea_input \<Rightarrow> resource_type \<Rightarrow> string \<Rightarrow> gcondition list \<Rightarrow> (string \<times> string) go" where
  "condition_CalculateAllowedResource je inp classification resource conds =
     (if length conds = 0 then Ret (resource, []) else first_condition je inp classification conds)"

definition tag_meets :: "sea_input \<Rightarrow> resource_type \<Rightarrow> gtag \<Rightarrow> bool go" where
  "tag_meets inp classification tag =
     (if GrayResTypeWeb = classification then
        (case mget_list (in_Headers inp) (gt_TagKey tag) of
           [] \<Rightarrow> Panic ''index out of range''
         | val # _ \<Rightarrow> Ret (val = TrimSpace (gt_TagValue tag)))
      else if GrayResTypeMicro = classification then
        Ret (mget_list (in_MetaData inp) (gt_TagKey tag) = TrimSpace (gt_TagValue tag))
      else Ret False)"

fun first_tag :: "sea_input \<Rightarrow> resource_type \<Rightarrow> gtag list \<Rightarrow> (string \<times> string) go" where
  "first_tag inp classification [] = Ret ([], [])"
| "first_tag inp classification (tag # tags) =
     go_bind (tag_meets inp classification tag) (\<lambda>meet.
       if meet then Ret (target_of (gt_TargetResource tag) (gt_TargetVersion tag), gt_EffectiveAddresses tag)
       else first_tag inp classification tags)"

definition tag_CalculateAllowedResource :: "sea_input \<Rightarrow> resource_type \<Rightarrow> string \<Rightarrow> gtag list \<Rightarrow> (string \<times> string) go" where
  "tag_CalculateAllowedResource inp classification resource tags =
     (if length tags = 0 then Ret (resource, []) else first_tag inp classification tags)"

text \<open>The draw is \<open>rand.Int63()\<close>: a number that is not negative.\<close>

fun pick_bucket :: "(f64 \<Rightarrow> i64) \<Rightarrow> i64 \<Rightarrow> string list \<Rightarrow> string list \<Rightarrow> f64 list \<Rightarrow> string \<times> string" where
  "pick_bucket oor bucket (r # rs) (a # as) (w # ws) =
     (if bucket \<le>s f64_to_i64 oor w then (r, a) else pick_bucket oor bucket rs as ws)"
| "pick_bucket oor bucket _ _ _ = ([], [])"

definition weight_CalculateAllowedResource ::
  "(f64 \<Rightarrow> i64) \<Rightarrow> i64 \<Rightarrow> string list \<Rightarrow> string list \<Rightarrow> f64 list \<Rightarrow> f64 \<Rightarrow> (string \<times> string) go" where
  "weight_CalculateAllowedResource oor hashVal resources addresses weights totalWeight =
     go_bind
       (if flt (Fin 0) totalWeight then
          (let parts = f64_to_i64 oor totalWeight
           in if parts = 0 then Panic ''integer divide by zero''
              else Ret (word_of_int (sgn (sint hashVal) * (\<bar>sint hashVal\<bar> mod \<bar>sint parts\<bar>)) + 1))
        else Ret 1)
       (\<lambda>bucket. Ret (pick_bucket oor bucket resources addresses weights))"

definition NewConditionTrafficSelector :: "gray_rule \<Rightarrow> gray_selector option" where
  "NewConditionTrafficSelector rule =
     (if gy_RouterStrategy rule \<noteq> ConditionRouter then None
      else if length (slice (gy_GrayConditionList rule)) = 0 \<and> gy_Force rule then None
      else Some (ConditionSelector (gy_Force rule) (gy_Resource rule) (slice (gy_GrayConditionList rule))))"

definition NewTagTrafficSelector :: "gray_rule \<Rightarrow> gray_selector option" where
  "NewTagTrafficSelector rule =
     (if gy_RouterStrategy rule \<noteq> TagRouter then None
      else if length (slice (gy_GrayTagList rule)) = 0 \<and> gy_Force rule then None
      else Some (TagSelector (gy_Force rule) (gy_Resource rule) (slice (gy_GrayTagList rule))))"

fun weight_sums :: "gweight list \<Rightarrow> f64 \<Rightarrow> f64 list \<times> f64" where
  "weight_sums [] totalWeight = ([], totalWeight)"
| "weight_sums (g # gs) totalWeight =
     (let totalWeight = fadd totalWeight (gw_Weight g); (ws, end) = weight_sums gs totalWeight
      in (totalWeight # ws, end))"

definition NewWeightTrafficSelector :: "gray_rule \<Rightarrow> gray_selector option" where
  "NewWeightTrafficSelector rule =
     (let gs = slice (gy_GrayWeightList rule)
      in if gy_RouterStrategy rule \<noteq> WeightRouter then None
         else if length gs = 0 \<and> gy_Force rule then None
         else
           let (weights, totalWeight) = weight_sums gs (Fin 0)
           in Some (WeightSelector (map (\<lambda>g. target_of (gw_TargetResource g) (gw_TargetVersion g)) gs)
                (map gw_EffectiveAddresses gs) weights totalWeight))"

end
