(* ===== verification/GraySlot.thy ===== *)
theory GraySlot
  imports GrayRule RuleLoad Reuse "HOL-Library.List_Lexorder" "HOL-Library.Char_ord" "HOL-Library.Sublist"
begin

text \<open>
  Gray routing, \<open>core/gray/traffic_selector.go\<close>, \<open>rule_manager.go\<close> and \<open>slot.go\<close>: controllers and the result they
  select, the manager that builds them from rules, and the router slot. A generator for a further strategy
  is left out. The parameters are those of the selectors: the JSON package, a conversion that is out of range, the
  random draw of each controller.
\<close>

section \<open>Controllers\<close>

text \<open>A selector that could not be built is nil; the controller is kept all the same.\<close>

record gray_controller =
  gtc_flowCalculator :: "gray_selector option"
  gtc_rule :: gray_rule

definition NewTrafficSelectorController :: "gray_rule \<Rightarrow> gray_controller" where
  "NewTrafficSelectorController rule = \<lparr>gtc_flowCalculator = None, gtc_rule = rule\<rparr>"

definition CalculateAllowedResource ::
  "json_env \<Rightarrow> (f64 \<Rightarrow> i64) \<Rightarrow> i64 \<Rightarrow> sea_input \<Rightarrow> resource_type \<Rightarrow> gray_selector option \<Rightarrow> (string \<times> string) go" where
  "CalculateAllowedResource je oor hashVal inp classification sel =
     (case sel of
        None \<Rightarrow> Panic ''nil pointer dereference''
      | Some (ConditionSelector force resource conds) \<Rightarrow>
          condition_CalculateAllowedResource je inp classification resource conds
      | Some (TagSelector force resource tags) \<Rightarrow> tag_CalculateAllowedResource inp classification resource tags
      | Some (WeightSelector resources addresses weights totalWeight) \<Rightarrow>
          weight_CalculateAllowedResource oor hashVal resources addresses weights totalWeight)"

text \<open>The addresses a request may go to: the white list of the rule, cut down to those of the matched entry.\<close>

definition gray_addresses :: "string \<Rightarrow> string \<Rightarrow> string list" where
  "gray_addresses whiteIpAddresses effectiveAddresses =
     (if TrimSpace effectiveAddresses \<noteq> [] then
        (if TrimSpace whiteIpAddresses \<noteq> [] then
           concat (map (\<lambda>address. filter (\<lambda>effectiveAddress. address = effectiveAddress) (split_on (CHR '','') effectiveAddresses))
             (split_on (CHR '','') whiteIpAddresses))
         else split_on (CHR '','') effectiveAddresses)
      else if TrimSpace whiteIpAddresses \<noteq> [] then split_on (CHR '','') whiteIpAddresses
      else [])"

definition PerformSelecting ::
  "json_env \<Rightarrow> (f64 \<Rightarrow> i64) \<Rightarrow> i64 \<Rightarrow> sea_input \<Rightarrow> resource_wrapper \<Rightarrow> gray_controller \<Rightarrow> ('r, 's) token_result option go" where
  "PerformSelecting je oor hashVal inp rw t =
     go_bind (CalculateAllowedResource je oor hashVal inp (rw_classification rw) (gtc_flowCalculator t))
       (\<lambda>(allowedResource, effectiveAddresses).
          if allowedResource = [] then Ret None
          else
            let allowedResource = (if last allowedResource = CHR ''*'' then rw_name rw else allowedResource);
                newResource = NewResourceWrapper allowedResource (rw_classification rw) (rw_flowType rw);
                rule = gtc_rule t
            in Ret (Some (NewTokenResultPassWithGrayResource (Some newResource) (gy_LinkPass rule) (gy_GrayTag rule)
                 (gy_Resource rule) (gray_addresses (gy_WhiteIpAddresses rule) effectiveAddresses))))"

section \<open>The rule manager\<close>

record gray_manager =
  gm_tcsMap :: "(string, gray_controller list) gomap"
  gm_currentRules :: "(string, gray_rule option list) gomap"

text \<open>The generators of \<open>init\<close>.\<close>

definition gray_tcsGenFunc :: "gray_rule \<Rightarrow> gray_controller option" where
  "gray_tcsGenFunc rule =
     (let tsc = NewTrafficSelectorController rule; strategy = gy_RouterStrategy rule
      in if strategy = ConditionRouter then Some (tsc\<lparr>gtc_flowCalculator := NewConditionTrafficSelector rule\<rparr>)
         else if strategy = TagRouter then Some (tsc\<lparr>gtc_flowCalculator := NewTagTrafficSelector rule\<rparr>)
         else if strategy = WeightRouter then Some (tsc\<lparr>gtc_flowCalculator := NewWeightTrafficSelector rule\<rparr>)
         else None)"

definition gray_calculateReuseIndexFor :: "gray_rule \<Rightarrow> gray_controller list \<Rightarrow> int go" where
  "gray_calculateReuseIndexFor r oldResTsc =
     go_bind (reuse_loop_go (\<lambda>oldTc. gray_isEqualTo (gtc_rule oldTc) r) (\<lambda>_. False) 0 (- 1) oldResTsc)
       (\<lambda>(equalIdx, _). Ret equalIdx)"

fun buildResourceTrafficSelectingController ::
  "string \<Rightarrow> gray_rule list \<Rightarrow> gray_controller list \<Rightarrow> gray_controller list \<Rightarrow> gray_controller list go" where
  "buildResourceTrafficSelectingController res [] oldResTsc newTcsOfRes = Ret newTcsOfRes"
| "buildResourceTrafficSelectingController res (rule # rules) oldResTsc newTcsOfRes =
     (if res \<noteq> gy_Resource rule then buildResourceTrafficSelectingController res rules oldResTsc newTcsOfRes
      else go_bind (gray_calculateReuseIndexFor rule oldResTsc) (\<lambda>equalIdx.
        if 0 \<le> equalIdx then
          buildResourceTrafficSelectingController res rules (remove_nth (nat equalIdx) oldResTsc)
            (newTcsOfRes @ [oldResTsc ! nat equalIdx])
        else case gray_tcsGenFunc rule of
            None \<Rightarrow> buildResourceTrafficSelectingController res rules oldResTsc newTcsOfRes
          | Some tcs \<Rightarrow> buildResourceTrafficSelectingController res rules oldResTsc (newTcsOfRes @ [tcs])))"

text \<open>
  \<open>reflect.DeepEqual\<close> on rules: a weight that is not a number differs from itself. The rules of a load are
  taken to be other pointers than those of the one before.
\<close>

definition gray_deep_rule :: "gray_rule \<Rightarrow> gray_rule \<Rightarrow> bool" where
  "gray_deep_rule r n \<longleftrightarrow>
     r = n \<and> list_all (\<lambda>w. feq (gw_Weight w) (gw_Weight w)) (slice (gy_GrayWeightList r))"

definition gray_deep_rules :: "gray_rule option list \<Rightarrow> gray_rule option list \<Rightarrow> bool" where
  "gray_deep_rules rs ns = list_all2 (rel_option gray_deep_rule) rs ns"

definition gray_deep_map :: "(string, gray_rule option list) gomap \<Rightarrow> (string, gray_rule option list) gomap \<Rightarrow> bool" where
  "gray_deep_map m n \<longleftrightarrow>
     list_all (\<lambda>(k, v). case mget n k of None \<Rightarrow> False | Some v' \<Rightarrow> gray_deep_rules v v') m \<and>
     list_all (\<lambda>(k, v). mget m k \<noteq> None) n"

fun gray_load_resources ::
  "(string, gray_controller list) gomap \<Rightarrow> (string \<times> gray_rule list) list \<Rightarrow> (string, gray_controller list) gomap \<Rightarrow>
   (string, gray_controller list) gomap go" where
  "gray_load_resources old [] m = Ret m"
| "gray_load_resources old ((res, rulesOfRes) # rest) m =
     go_bind (buildResourceTrafficSelectingController res rulesOfRes (mget_list old res) []) (\<lambda>newTscOfRes.
       gray_load_resources old rest (if 0 < length newTscOfRes then mput res newTscOfRes m else m))"

text \<open>The error of an update; a recovered panic is one, and leaves the maps as they were.\<close>

definition gray_onRuleUpdate :: "(string, gray_rule option list) gomap \<Rightarrow> gray_manager \<Rightarrow> string option \<times> gray_manager" where
  "gray_onRuleUpdate raw m =
     (case gray_load_resources (gm_tcsMap m) (valid_map gray_IsValidRule raw) [] of
        Ret tcs \<Rightarrow> (None, m\<lparr>gm_tcsMap := tcs, gm_currentRules := raw\<rparr>)
      | Err e \<Rightarrow> (Some e, m)
      | Panic p \<Rightarrow> (Some p, m))"

definition gray_LoadRules :: "gray_rule option list \<Rightarrow> gray_manager \<Rightarrow> (bool \<times> string option) go \<times> gray_manager" where
  "gray_LoadRules rules m =
     (case group_rules gy_Resource rules [] of
        Ret resRulesMap \<Rightarrow>
          if gray_deep_map (gm_currentRules m) resRulesMap then (Ret (False, None), m)
          else let (err, m) = gray_onRuleUpdate resRulesMap m in (Ret (True, err), m)
      | Err e \<Rightarrow> (Err e, m)
      | Panic p \<Rightarrow> (Panic p, m))"

definition gray_ClearRules :: "gray_manager \<Rightarrow> string option go \<times> gray_manager" where
  "gray_ClearRules m = (let (r, m) = gray_LoadRules [] m in (go_bind r (\<lambda>(_, err). Ret err), m))"

definition gray_onResourceRuleUpdate :: "string \<Rightarrow> gray_rule option list \<Rightarrow> gray_manager \<Rightarrow> string option \<times> gray_manager" where
  "gray_onResourceRuleUpdate res rawResRules m =
     (case buildResourceTrafficSelectingController res (valid_rules gray_IsValidRule rawResRules) (mget_list (gm_tcsMap m) res) [] of
        Ret newResTcs \<Rightarrow>
          (None, m\<lparr>gm_tcsMap := (if length newResTcs = 0 then mdel res (gm_tcsMap m) else mput res newResTcs (gm_tcsMap m)),
                   gm_currentRules := mput res rawResRules (gm_currentRules m)\<rparr>)
      | Err e \<Rightarrow> (Some e, m)
      | Panic p \<Rightarrow> (Some p, m))"

definition gray_LoadRulesOfResource ::
  "string \<Rightarrow> gray_rule option list \<Rightarrow> gray_manager \<Rightarrow> (bool \<times> string option) \<times> gray_manager" where
  "gray_LoadRulesOfResource res rules m =
     (if length res = 0 then ((False, Some ''empty resource''), m)
      else if length rules = 0 then
        ((True, None), m\<lparr>gm_currentRules := mdel res (gm_currentRules m), gm_tcsMap := mdel res (gm_tcsMap m)\<rparr>)
      else if gray_deep_rules (mget_list (gm_currentRules m) res) rules then ((False, None), m)
      else let (err, m) = gray_onResourceRuleUpdate res rules m in ((True, err), m))"

definition gray_ClearRulesOfResource :: "string \<Rightarrow> gray_manager \<Rightarrow> string option \<times> gray_manager" where
  "gray_ClearRulesOfResource res m = (let ((_, err), m) = gray_LoadRulesOfResource res [] m in (err, m))"

definition gray_rulesFrom :: "(string, gray_controller list) gomap \<Rightarrow> gray_rule list" where
  "gray_rulesFrom m = concat (map (\<lambda>(res, rs). map gtc_rule rs) m)"

text \<open>
  A read-write mutex as far as \<open>getRules\<close> uses it: \<open>Unlock\<close> of a mutex no writer holds is a fatal error
  of \<open>sync\<close>, which nothing recovers; \<open>None\<close> stands for that end of the program. \<open>getRules\<close> locks \<open>tcMux\<close> for
  reading and unlocks it for writing.
\<close>

record rw_mutex =
  mu_readers :: nat
  mu_writer :: bool

definition mu_RLock :: "rw_mutex \<Rightarrow> rw_mutex" where
  "mu_RLock mu = mu\<lparr>mu_readers := mu_readers mu + 1\<rparr>"

definition mu_Unlock :: "rw_mutex \<Rightarrow> rw_mutex option" where
  "mu_Unlock mu = (if mu_writer mu then Some (mu\<lparr>mu_writer := False\<rparr>) else None)"

definition gray_getRules :: "rw_mutex \<Rightarrow> gray_manager \<Rightarrow> (gray_rule list \<times> rw_mutex) option" where
  "gray_getRules tcMux m =
     (let tcMux = mu_RLock tcMux; rules = gray_rulesFrom (gm_tcsMap m)
      in case mu_Unlock tcMux of None \<Rightarrow> None | Some tcMux \<Rightarrow> Some (rules, tcMux))"

definition gray_GetRules :: "rw_mutex \<Rightarrow> gray_manager \<Rightarrow> (gray_rule list \<times> rw_mutex) option" where
  "gray_GetRules tcMux m = gray_getRules tcMux m"

definition gray_GetRulesOfResource :: "string \<Rightarrow> gray_manager \<Rightarrow> gray_rule list" where
  "gray_GetRulesOfResource res m = map gtc_rule (mget_list (gm_tcsMap m) res)"

section \<open>The controllers of a resource\<close>

text \<open>The names in descending order; a name that ends in a star stands for every name that begins with the rest.\<close>

definition matches :: "string \<Rightarrow> string \<Rightarrow> bool" where
  "matches name res \<longleftrightarrow> last res = CHR ''*'' \<and> (length res = 1 \<or> 1 < length res \<and> prefix (take (length res - 1) res) name)"

fun first_match :: "string \<Rightarrow> (string, gray_controller list) gomap \<Rightarrow> string list \<Rightarrow> gray_controller list go" where
  "first_match name m [] = Ret []"
| "first_match name m (res # ress) =
     (if res = [] then Panic ''index out of range''
      else if matches name res then Ret (mget_list m res)
      else first_match name m ress)"

definition gray_getTrafficControllerListFor :: "string \<Rightarrow> gray_manager \<Rightarrow> gray_controller list go" where
  "gray_getTrafficControllerListFor name m =
     (case mget (gm_tcsMap m) name of
        Some tsc \<Rightarrow> Ret tsc
      | None \<Rightarrow> first_match name (gm_tcsMap m) (rev (sort (map fst (gm_tcsMap m)))))"

section \<open>The router slot\<close>

definition gray_needs_check :: "string \<Rightarrow> gray_rule \<Rightarrow> bool" where
  "gray_needs_check FromService r \<longleftrightarrow>
     \<not> (gy_LimitApp r \<noteq> [] \<and> \<not> EqualFold_default (gy_LimitApp r) \<and>
        \<not> Contains FromService (split_on (CHR '','') (gy_LimitApp r)))"

fun route_all ::
  "json_env \<Rightarrow> (f64 \<Rightarrow> i64) \<Rightarrow> (nat \<Rightarrow> i64) \<Rightarrow> string \<Rightarrow> sea_input \<Rightarrow> resource_wrapper \<Rightarrow> nat \<Rightarrow> gray_controller list \<Rightarrow>
   ('r, 's) token_result option go" where
  "route_all je oor draw fs inp rw i [] = Ret None"
| "route_all je oor draw fs inp rw i (tc # tcs) =
     (if \<not> gray_needs_check fs (gtc_rule tc) then route_all je oor draw fs inp rw (Suc i) tcs
      else go_bind (PerformSelecting je oor (draw i) inp rw tc) (\<lambda>r.
        case r of None \<Rightarrow> route_all je oor draw fs inp rw (Suc i) tcs | Some r \<Rightarrow> Ret (Some r)))"

definition gray_Slot_Router ::
  "json_env \<Rightarrow> (f64 \<Rightarrow> i64) \<Rightarrow> (nat \<Rightarrow> i64) \<Rightarrow> ('r, 's) entry_context \<Rightarrow> gray_manager \<Rightarrow> ('r, 's) token_result option go" where
  "gray_Slot_Router je oor draw ctx m =
     (case ctx_Resource ctx of
        None \<Rightarrow> Panic ''nil pointer dereference''
      | Some rw \<Rightarrow>
          go_bind (gray_getTrafficControllerListFor (rw_name rw) m) (\<lambda>tcs.
            go_bind (route_all je oor draw (ctx_FromService ctx) (ctx_Input ctx) rw 0 tcs) (\<lambda>r.
              Ret (case r of None \<Rightarrow> ctx_RuleCheckResult ctx | Some r \<Rightarrow> Some r))))"

end
