(* ===== verification/GrayProps.thy ===== *)
theory GrayProps
  imports GraySlot
begin

text \<open>
  What gray routing shows: a request goes to the longest pattern that covers its resource, and weights divide
  the draws exactly. The order of the names is that of \<open>str_less\<close>, Go's order of strings.
\<close>

section \<open>The longest pattern\<close>

lemma Nil_less_iff: "([] :: string) < t \<longleftrightarrow> t \<noteq> []"
  by (cases t) auto

lemma str_less_iff: "str_less s t \<longleftrightarrow> s < t"
  by (induction s t rule: str_less.induct) (auto simp: less_char_def Nil_less_iff)

lemma matches_pattern: "res \<noteq> [] \<Longrightarrow> matches name res \<longleftrightarrow> (\<exists>p. res = p @ ''*'' \<and> prefix p name)"
  by (cases res rule: rev_cases) (auto simp: matches_def)

lemma first_match_max:
  "sorted_wrt (\<ge>) ress \<Longrightarrow> [] \<notin> set ress \<Longrightarrow> res \<in> set ress \<Longrightarrow> matches name res \<Longrightarrow>
    \<forall>r \<in> set ress. matches name r \<longrightarrow> r \<le> res \<Longrightarrow> first_match name m ress = Ret (mget_list m res)"
proof (induction ress)
  case (Cons r ress)
  show ?case
  proof (cases "matches name r")
    case True
    then have "r = res" using Cons.prems by (auto intro: antisym)
    then show ?thesis using True Cons.prems by auto
  next
    case False
    then show ?thesis using Cons by auto
  qed
qed simp

lemma first_match_none:
  "[] \<notin> set ress \<Longrightarrow> \<forall>r \<in> set ress. \<not> matches name r \<Longrightarrow> first_match name m ress = Ret []"
  by (induction ress) auto

lemma append_less: "(c :: char) < d \<Longrightarrow> p @ c # s < p @ d # t"
  by (induction p) auto

text \<open>Where no character of the name sorts before the star, a longer matching pattern is a greater one.\<close>

lemma longer_greater:
  assumes "prefix p name" "prefix q name" "length q \<le> length p" "\<forall>c \<in> set name. CHR ''*'' < c"
  shows "q @ ''*'' \<le> p @ ''*''"
proof -
  have "prefix q p" using assms(1-3) prefix_length_prefix by blast
  then obtain s where p: "p = q @ s" by (auto simp: prefix_def)
  show ?thesis
  proof (cases s)
    case (Cons c s')
    have "c \<in> set name" using assms(1) by (auto simp: p Cons prefix_def)
    then show ?thesis using assms(4) by (auto simp: p Cons intro!: less_imp_le append_less)
  qed (simp add: p)
qed

text \<open>
  C37: where every character of a resource name sorts after the star, a resource without rules of its own is
  routed by the controllers of the longest pattern that covers it, whatever the order of the rules.
\<close>

theorem gray_longest_pattern:
  assumes "mget (gm_tcsMap m) name = None" "[] \<notin> fst ` set (gm_tcsMap m)" "\<forall>c \<in> set name. CHR ''*'' < c"
    and "p @ ''*'' \<in> fst ` set (gm_tcsMap m)" "prefix p name"
    and "\<forall>q. q @ ''*'' \<in> fst ` set (gm_tcsMap m) \<and> prefix q name \<longrightarrow> length q \<le> length p"
  shows "gray_getTrafficControllerListFor name m = Ret (mget_list (gm_tcsMap m) (p @ ''*''))"
proof -
  let ?ress = "rev (sort (map fst (gm_tcsMap m)))"
  have "first_match name (gm_tcsMap m) ?ress = Ret (mget_list (gm_tcsMap m) (p @ ''*''))"
  proof (rule first_match_max)
    show "sorted_wrt (\<ge>) ?ress" by (simp add: sorted_wrt_rev)
    show "[] \<notin> set ?ress" using assms(2) by simp
    show "p @ ''*'' \<in> set ?ress" using assms(4) by simp
    show "matches name (p @ ''*'')" using assms(5) by (simp add: matches_pattern)
    show "\<forall>r \<in> set ?ress. matches name r \<longrightarrow> r \<le> p @ ''*''"
    proof (intro ballI impI)
      fix r assume r: "r \<in> set ?ress" "matches name r"
      have "r \<in> fst ` set (gm_tcsMap m)" using r(1) by simp
      then have "r \<noteq> []" using assms(2) by blast
      then obtain q where q: "r = q @ ''*''" "prefix q name" using r(2) by (auto simp: matches_pattern)
      have "length q \<le> length p" using assms(6) r(1) q by auto
      then show "r \<le> p @ ''*''" unfolding q(1) using longer_greater [OF assms(5) q(2)] assms(3) by blast
    qed
  qed
  then show ?thesis using assms(1) by (simp add: gray_getTrafficControllerListFor_def)
qed

text \<open>The star sorts after the hash, and then the shorter pattern wins.\<close>

lemma hash_prefers_shorter:
  "gray_getTrafficControllerListFor ''a#b'' \<lparr>gm_tcsMap = [(''a*'', xs), (''a#*'', ys)], gm_currentRules = []\<rparr> = Ret xs"
proof -
  have "sort [''a*'', ''a#*''] = [''a#*'', ''a*'']"
    by (simp add: str_less_iff [symmetric] insort_key.simps not_le sort_key_simps linorder_not_less [symmetric] del: Cons_less_Cons Cons_le_Cons)
  then show ?thesis by (simp add: gray_getTrafficControllerListFor_def matches_def mget_list_def)
qed

section \<open>Weights divide the draws exactly\<close>

definition whole :: "nat \<Rightarrow> f64" where
  "whole n = Fin (of_nat n)"

fun psums :: "nat \<Rightarrow> nat list \<Rightarrow> nat list" where
  "psums a [] = []"
| "psums a (w # ws) = (a + w) # psums (a + w) ws"

lemma length_psums [simp]: "length (psums a ws) = length ws"
  by (induction ws arbitrary: a) auto

lemma fadd_whole: "m + n < 2 ^ 53 \<Longrightarrow> fadd (whole m) (whole n) = whole (m + n)"
  using round64_small_int [of "int (m + n)"] by (simp add: whole_def)

lemma whole_to_i64: "n < 2 ^ 53 \<Longrightarrow> f64_to_i64 oor (whole n) = word_of_nat n"
  by (simp add: whole_def ftrunc_def)

lemma sint_word_of_nat: "n < 2 ^ 63 \<Longrightarrow> sint (word_of_nat n :: i64) = int n"
  by (subst sint_small) (simp_all add: unat_of_nat)

lemma word_of_nat_sle: "m < 2 ^ 63 \<Longrightarrow> n < 2 ^ 63 \<Longrightarrow> (word_of_nat m :: i64) \<le>s word_of_nat n \<longleftrightarrow> m \<le> n"
  by (simp add: word_sle_eq sint_word_of_nat)

lemma weight_sums_whole:
  "map gw_Weight gs = map whole ws \<Longrightarrow> a + sum_list ws < 2 ^ 53 \<Longrightarrow>
    weight_sums gs (whole a) = (map whole (psums a ws), whole (a + sum_list ws))"
proof (induction gs arbitrary: ws a)
  case (Cons g gs)
  then obtain w ws' where ws: "ws = w # ws'" "gw_Weight g = whole w" "map gw_Weight gs = map whole ws'" by auto
  have "a + w < 2 ^ 53" using Cons.prems(2) by (simp add: ws)
  then show ?case using Cons.IH [OF ws(3), of "a + w"] Cons.prems(2) by (simp add: ws fadd_whole add.assoc)
qed simp

text \<open>The bucket \<open>b\<close> falls to the entry whose share it lies in.\<close>

lemma pick_bucket_share:
  "i < length ws \<Longrightarrow> length rs = length ws \<Longrightarrow> length as = length ws \<Longrightarrow> a + sum_list ws < 2 ^ 53 \<Longrightarrow>
    a + sum_list (take i ws) < b \<Longrightarrow> b \<le> a + sum_list (take (Suc i) ws) \<Longrightarrow>
    pick_bucket oor (word_of_nat b) rs as (map whole (psums a ws)) = (rs ! i, as ! i)"
proof (induction ws arbitrary: i rs as a)
  case (Cons w ws)
  obtain r rs' x as' where lists: "rs = r # rs'" "as = x # as'" using Cons.prems(2,3) by (auto simp: length_Suc_conv)
  have le: "sum_list (take (Suc i) (w # ws)) \<le> sum_list (w # ws)" by (rule sum_take_le)
  have small: "b < 2 ^ 63" "a + w < 2 ^ 53" using Cons.prems(4,6) le by simp_all
  have conv: "word_of_nat b \<le>s f64_to_i64 oor (whole (a + w)) \<longleftrightarrow> b \<le> a + w"
    using small by (simp add: whole_to_i64 word_of_nat_sle del: of_nat_add)
  show ?case
  proof (cases i)
    case 0
    then show ?thesis using Cons.prems conv by (simp add: lists)
  next
    case (Suc j)
    have "pick_bucket oor (word_of_nat b) rs' as' (map whole (psums (a + w) ws)) = (rs' ! j, as' ! j)"
      by (rule Cons.IH) (use Cons.prems in \<open>simp_all add: lists Suc add.assoc\<close>)
    moreover have "\<not> b \<le> a + w" using Cons.prems(5) by (simp add: Suc)
    ultimately show ?thesis using conv by (simp add: lists Suc)
  qed
qed simp

definition weight_choice :: "gweight list \<Rightarrow> nat \<Rightarrow> string \<times> string" where
  "weight_choice gs i = (target_of (gw_TargetResource (gs ! i)) (gw_TargetVersion (gs ! i)), gw_EffectiveAddresses (gs ! i))"

lemma weight_pick:
  assumes "gy_RouterStrategy r = WeightRouter" "gy_GrayWeightList r = Some gs" "map gw_Weight gs = map whole ws"
    and "sum_list ws < 2 ^ 53" "h < 2 ^ 63" "j < length ws"
    and "sum_list (take j ws) \<le> h mod sum_list ws" "h mod sum_list ws < sum_list (take (Suc j) ws)"
  shows "CalculateAllowedResource je oor (word_of_nat h) inp cl (NewWeightTrafficSelector r) = Ret (weight_choice gs j)"
proof -
  let ?T = "sum_list ws"
  have len: "length gs = length ws" using assms(3) by (metis length_map)
  then have ne: "gs \<noteq> []" using assms(6) by auto
  have le: "sum_list (take (Suc j) ws) \<le> ?T" by (rule sum_take_le)
  have T: "0 < ?T" using assms(8) le by simp
  have ws: "weight_sums gs (Fin 0) = (map whole (psums 0 ws), whole ?T)"
    using weight_sums_whole [of gs ws 0] assms(3,4) by (simp add: whole_def)
  have nz: "(word_of_nat ?T :: i64) \<noteq> 0"
    using T assms(4) by (simp add: word_of_nat_eq_0_iff dvd_imp_le nat_dvd_not_less)
  have s: "sint (word_of_nat h :: i64) = int h" "sint (word_of_nat ?T :: i64) = int ?T"
    using assms(4,5) by (simp_all add: sint_word_of_nat)
  have "sgn (int h) * (int h mod int ?T) = int (h mod ?T)" by (simp add: sgn_if zmod_int)
  then have bucket: "word_of_int (sgn (int h) * (int h mod int ?T)) + 1 = (word_of_nat (h mod ?T + 1) :: i64)" by simp
  have "pick_bucket oor (word_of_nat (h mod ?T + 1))
      (map (\<lambda>g. target_of (gw_TargetResource g) (gw_TargetVersion g)) gs) (map gw_EffectiveAddresses gs)
      (map whole (psums 0 ws)) = weight_choice gs j"
    using pick_bucket_share [of j ws "map (\<lambda>g. target_of (gw_TargetResource g) (gw_TargetVersion g)) gs"
      "map gw_EffectiveAddresses gs" 0 "h mod ?T + 1" oor] assms(4,6,7,8) len
    by (simp add: weight_choice_def)
  moreover have "flt (Fin 0) (whole ?T)" using T by (simp add: whole_def)
  ultimately show ?thesis
    using assms(1,2,4) ne nz s bucket ws whole_to_i64 [OF assms(4), of oor]
    by (simp add: CalculateAllowedResource_def NewWeightTrafficSelector_def slice_def Let_def
      weight_CalculateAllowedResource_def add.commute)
qed

text \<open>
  C36: a rule with whole weights sends exactly as many of the residues of the random draw to an entry as the
  entry's weight says, so that a uniform draw splits the traffic in proportion to the weights.
\<close>

theorem gray_weights_exact:
  assumes "gy_RouterStrategy r = WeightRouter" "gy_GrayWeightList r = Some gs" "map gw_Weight gs = map whole ws"
    and "sum_list ws < 2 ^ 53" "i < length ws" "distinct (map (weight_choice gs) [0..<length gs])"
  shows "card {k. k < sum_list ws \<and>
    CalculateAllowedResource je oor (word_of_nat k) inp cl (NewWeightTrafficSelector r) = Ret (weight_choice gs i)} = ws ! i"
proof (rule share_count [OF assms(5), where g = "\<lambda>j. Ret (weight_choice gs j)"])
  have len: "length gs = length ws" using assms(3) by (metis length_map)
  then show "inj_on (\<lambda>j. Ret (weight_choice gs j)) {..<length ws}"
    using assms(6) by (auto simp: inj_on_def distinct_conv_nth)
next
  fix k j assume j: "j < length ws" "sum_list (take j ws) \<le> k" "k < sum_list (take (Suc j) ws)"
  then have k: "k < sum_list ws" using sum_take_le [of "Suc j" ws] by simp
  have m: "k mod sum_list ws = k" using k by simp
  have "k < 2 ^ 63" using k assms(4) by simp
  then show "CalculateAllowedResource je oor (word_of_nat k) inp cl (NewWeightTrafficSelector r) = Ret (weight_choice gs j)"
    by (intro weight_pick [OF assms(1-4)]) (simp_all only: m j)
qed

theorem gray_longest_pattern_witness:
  "\<forall>xs ys zs. gray_getTrafficControllerListFor ''abc''
     \<lparr>gm_tcsMap = [(''a*'', xs), (''*'', ys), (''ab*'', zs)], gm_currentRules = []\<rparr> = Ret zs"
proof (intro allI)
  fix xs ys zs :: "gray_controller list"
  let ?m = "\<lparr>gm_tcsMap = [(''a*'', xs), (''*'', ys), (''ab*'', zs)], gm_currentRules = []\<rparr>"
  have "gray_getTrafficControllerListFor ''abc'' ?m = Ret (mget_list (gm_tcsMap ?m) (''ab'' @ ''*''))"
  proof (rule gray_longest_pattern)
    show "\<forall>c \<in> set ''abc''. CHR ''*'' < c" by (simp add: less_char_def)
    show "\<forall>q. q @ ''*'' \<in> fst ` set (gm_tcsMap ?m) \<and> prefix q ''abc'' \<longrightarrow> length q \<le> length ''ab''"
      by (auto simp: append_eq_Cons_conv)
  qed simp_all
  then show "gray_getTrafficControllerListFor ''abc'' ?m = Ret zs" by (simp add: mget_list_def)
qed

definition gray_example :: gray_rule where
  "gray_example = \<lparr>gy_ID = [], gy_App = [], gy_RuleName = [], gy_LimitApp = [], gy_Resource = ''r'', gy_GrayTag = [],
     gy_LinkPass = False, gy_RouterStrategy = WeightRouter, gy_Force = False, gy_BlackIpAddresses = [],
     gy_WhiteIpAddresses = [], gy_GrayConditionList = None, gy_GrayTagList = None,
     gy_GrayWeightList = Some [
       \<lparr>gw_EffectiveAddresses = [], gw_TargetResource = ''old'', gw_TargetVersion = [], gw_Weight = Fin 9\<rparr>,
       \<lparr>gw_EffectiveAddresses = [], gw_TargetResource = ''new'', gw_TargetVersion = [], gw_Weight = Fin 1\<rparr>]\<rparr>"

theorem gray_weights_exact_witness:
  "\<forall>je oor inp cl. card {k. k < 10 \<and>
     CalculateAllowedResource je oor (word_of_nat k) inp cl (NewWeightTrafficSelector gray_example) = Ret (''old'', [])} = 9"
proof (intro allI)
  fix je oor inp cl
  let ?gs = "the (gy_GrayWeightList gray_example)"
  have "card {k. k < sum_list [9, 1] \<and>
     CalculateAllowedResource je oor (word_of_nat k) inp cl (NewWeightTrafficSelector gray_example) = Ret (weight_choice ?gs 0)}
     = [9, 1] ! 0"
    by (rule gray_weights_exact) (simp_all add: gray_example_def whole_def weight_choice_def target_of_def TrimSpace_def)
  then show "card {k. k < 10 \<and>
     CalculateAllowedResource je oor (word_of_nat k) inp cl (NewWeightTrafficSelector gray_example) = Ret (''old'', [])} = 9"
    by (simp add: gray_example_def weight_choice_def target_of_def TrimSpace_def)
qed

section \<open>Where routing fails\<close>

text \<open>Reading the rules ends the program, whoever reads them.\<close>

lemma getRules_ends_program: "\<not> mu_writer mu \<Longrightarrow> gray_GetRules mu m = None"
  by (simp add: gray_GetRules_def gray_getRules_def mu_Unlock_def mu_RLock_def Let_def)

text \<open>Weights that sum to less than one: every request panics.\<close>

lemma small_weights_panic:
  "0 < t \<Longrightarrow> t < 1 \<Longrightarrow>
    weight_CalculateAllowedResource oor h rs as ws (Fin t) = Panic ''integer divide by zero''"
proof -
  assume "0 < t" "t < 1"
  then have "\<lfloor>t\<rfloor> = 0" by (simp add: floor_eq_iff)
  then show ?thesis using \<open>0 < t\<close> by (simp add: weight_CalculateAllowedResource_def ftrunc_def Let_def)
qed

text \<open>A forced rule with nothing to choose from is loaded, and panics on every request.\<close>

lemma forced_empty_panics:
  assumes "gy_RouterStrategy r = TagRouter" "gy_Force r" "slice (gy_GrayTagList r) = []"
  shows "\<exists>t. gray_tcsGenFunc r = Some t \<and> PerformSelecting je oor h inp rw t = Panic ''nil pointer dereference''"
  using assms
  by (simp add: gray_tcsGenFunc_def Let_def NewTagTrafficSelector_def PerformSelecting_def CalculateAllowedResource_def
    TagRouter_def ConditionRouter_def)

text \<open>A web request without the header of the first tag.\<close>

lemma missing_header_panics:
  "rw_classification rw = GrayResTypeWeb \<Longrightarrow> mget (in_Headers inp) (gt_TagKey tag) = None \<Longrightarrow>
    gtc_flowCalculator t = Some (TagSelector force res (tag # tags)) \<Longrightarrow>
    PerformSelecting je oor h inp rw t = Panic ''index out of range''"
  by (simp add: PerformSelecting_def CalculateAllowedResource_def tag_CalculateAllowedResource_def tag_meets_def mget_list_def)

text \<open>A rule that has gained tags still counts as the old one, which is used on; one that has lost tags panics.\<close>

lemma each_equal_more: "(\<And>x. eq x x) \<Longrightarrow> each_equal eq xs (xs @ ys) = Ret True"
  by (induction xs) auto

lemma each_equal_fewer: "(\<And>x. eq x x) \<Longrightarrow> each_equal eq (xs @ [y]) xs = Panic ''index out of range''"
  by (induction xs) auto

lemma gtag_isEqualTo_refl [simp]: "gtag_isEqualTo t t"
  by (simp add: gtag_isEqualTo_def)

lemma added_tags_ignored:
  assumes "slice (gy_GrayConditionList r) = []" "slice (gy_GrayWeightList r) = []" "gy_GrayTagList r = Some tags"
  shows "gray_isEqualTo r (r\<lparr>gy_GrayTagList := Some (tags @ new)\<rparr>) = Ret True"
  using assms by (simp add: gray_isEqualTo_def slice_def each_equal_more)

lemma removed_tag_panics:
  assumes "slice (gy_GrayConditionList r) = []" "slice (gy_GrayWeightList r) = []" "gy_GrayTagList r = Some (tags @ [tag])"
  shows "gray_isEqualTo r (r\<lparr>gy_GrayTagList := Some tags\<rparr>) = Panic ''index out of range''"
  using assms by (simp add: gray_isEqualTo_def slice_def each_equal_fewer)

text \<open>A rule with weights and no conditions never equals itself, so that every load builds its controller anew.\<close>

lemma weights_never_equal:
  "slice (gy_GrayConditionList r) = [] \<Longrightarrow> slice (gy_GrayWeightList r) \<noteq> [] \<Longrightarrow> gray_isEqualTo r r = Ret False"
  by (simp add: gray_isEqualTo_def)

end
