(* ===== verification/UtilFuncs.thy ===== *)
theory UtilFuncs
  imports GrayRule
begin

text \<open>
  Helpers of \<open>util\<close>: blank strings, the atomic flag, random strings (\<open>rand.go\<close>) and the hash of a string
  (\<open>hash_code.go\<close>), which is the IEEE CRC-32. The source of random numbers is a sequence of draws; a random
  string that rejects for ever is \<open>None\<close>.
\<close>

unbundle bit_operations_syntax

section \<open>Strings and flags\<close>

definition IsBlank :: "string \<Rightarrow> bool" where
  "IsBlank s \<longleftrightarrow> TrimSpace s = []"

text \<open>The flag is an \<open>int32\<close>; an operation is one step.\<close>

definition atomic_CompareAndSet :: "bool \<Rightarrow> bool \<Rightarrow> i32 \<Rightarrow> bool \<times> i32" where
  "atomic_CompareAndSet old new flag =
     (if old = new then (True, flag)
      else if flag = (if old then 1 else 0) then (True, if new then 1 else 0)
      else (False, flag))"

definition atomic_Set :: "bool \<Rightarrow> i32 \<Rightarrow> i32" where
  "atomic_Set value flag = (if value then 1 else 0)"

definition atomic_Get :: "i32 \<Rightarrow> bool" where
  "atomic_Get flag \<longleftrightarrow> flag \<noteq> 0"

lemma atomic_Get_Set [simp]: "atomic_Get (atomic_Set v flag) = v"
  by (simp add: atomic_Get_def atomic_Set_def)

text \<open>Between equal values the flag is not looked at: the call reports success on any flag.\<close>

lemma CompareAndSet_equal: "fst (atomic_CompareAndSet v v (atomic_Set (\<not> v) flag))"
  by (simp add: atomic_CompareAndSet_def)

section \<open>Random strings\<close>

definition letters :: string where
  "letters = ''abcdefghijklmnopqrstuvwxyzABCDEFGHIJKLMNOPQRSTUVWXYZ''"

definition letterIdBits :: nat where "letterIdBits = 6"
definition letterIdMask :: i64 where "letterIdMask = 2 ^ letterIdBits - 1"
definition letterIdMax :: i64 where "letterIdMax = 63 div word_of_nat letterIdBits"

text \<open>
  The loop fills the bytes from the last to the first: \<open>k\<close> are left, \<open>acc\<close> are those behind them. \<open>draw d\<close> is
  the next \<open>Int63\<close>. A fresh draw is good for \<open>letterIdMax\<close> letters but is used \<open>letterIdMask\<close> times.
\<close>

partial_function (option) rand_loop :: "(nat \<Rightarrow> i64) \<Rightarrow> nat \<Rightarrow> nat \<Rightarrow> i64 \<Rightarrow> i64 \<Rightarrow> string \<Rightarrow> (string \<times> nat) option" where
  "rand_loop draw d k cache remain acc =
     (if k = 0 then Some (acc, d)
      else
        let (cache, remain, d) = (if remain = 0 then (draw d, letterIdMask, Suc d) else (cache, remain, d));
            idx = unat (cache AND letterIdMask);
            (k, acc) = (if idx < length letters then (k - 1, letters ! idx # acc) else (k, acc))
        in rand_loop draw d k (signed_drop_bit letterIdBits cache) (remain - 1) acc)"

declare rand_loop.simps [code]

definition RandStr :: "(nat \<Rightarrow> i64) \<Rightarrow> nat \<Rightarrow> string option" where
  "RandStr draw n = map_option fst (rand_loop draw 1 n (draw 0) letterIdMax [])"

lemma rand_length: "rand_loop draw d k cache remain acc = Some r \<Longrightarrow> length (fst r) = k + length acc"
proof (induction rule: rand_loop.raw_induct [rotated, consumes 1, case_names step])
  case (step loop draw d k cache remain acc r)
  obtain c m e where cme: "(if remain = 0 then (draw d, letterIdMask, Suc d) else (cache, remain, d)) = (c, m, e)"
    by (metis prod_cases3)
  show ?case
  proof (cases "k = 0")
    case True
    then have "r = (acc, d)" using step(2) by simp
    then show ?thesis using True by simp
  next
    case False
    show ?thesis
    proof (cases "unat (c AND letterIdMask) < length letters")
      case True
      then show ?thesis using step(2) False by (auto simp only: cme Let_def prod.case if_False if_True dest!: step(1)) simp
    next
      case f: False
      then show ?thesis using step(2) False by (auto simp only: cme Let_def prod.case if_False if_True dest!: step(1))
    qed
  qed
qed

text \<open>A random string has the length asked for.\<close>

lemma RandStr_length: "RandStr draw n = Some s \<Longrightarrow> length s = n"
  by (auto simp: RandStr_def dest: rand_length)

text \<open>
  Once the bits of a draw are used up the rest of its turns give the first letter: with \<open>n\<close> turns left, the
  next \<open>n\<close> letters are not random.
\<close>

lemma used_up_draw:
  "k \<le> n \<Longrightarrow> n < 2 ^ 63 \<Longrightarrow>
    rand_loop draw d k 0 (word_of_nat n) acc = Some (replicate k (CHR ''a'') @ acc, d)"
proof (induction k arbitrary: n acc)
  case (Suc k)
  then obtain m where n: "n = Suc m" by (cases n) auto
  have nz: "(word_of_nat n :: i64) \<noteq> 0" using Suc.prems(2) unfolding n by (simp add: word_of_nat_eq_0_iff nat_dvd_not_less del: of_nat_Suc)
  have "rand_loop draw d (Suc k) 0 (word_of_nat n) acc = rand_loop draw d k 0 (word_of_nat n - 1) (CHR ''a'' # acc)"
    using nz by (subst rand_loop.simps) (simp add: letters_def Let_def)
  also have "\<dots> = rand_loop draw d k 0 (word_of_nat m) (CHR ''a'' # acc)" by (simp add: n)
  also have "\<dots> = Some (replicate k (CHR ''a'') @ CHR ''a'' # acc, d)"
    by (rule Suc.IH) (use Suc.prems in \<open>simp_all add: n\<close>)
  finally show ?case by (simp add: replicate_app_Cons_same)
qed (simp add: rand_loop.simps)

section \<open>Hashes\<close>

text \<open>\<open>crc32.ChecksumIEEE\<close>, bit by bit: the reflected polynomial \<open>0xEDB88320\<close>.\<close>

definition crc_bit :: "u32 \<Rightarrow> u32" where
  "crc_bit c = (if c AND 1 = 1 then drop_bit 1 c XOR 0xEDB88320 else drop_bit 1 c)"

definition crc_byte :: "u32 \<Rightarrow> char \<Rightarrow> u32" where
  "crc_byte c b = (crc_bit ^^ 8) (c XOR of_char b)"

definition ChecksumIEEE :: "string \<Rightarrow> u32" where
  "ChecksumIEEE s = NOT (foldl crc_byte (NOT 0) s)"

definition hash_String :: "string \<Rightarrow> i64" where
  "hash_String s =
     (let v = ucast (ChecksumIEEE s) :: i64
      in if 0 \<le>s v then v else if 0 \<le>s - v then - v else 0)"

definition hash_Strings :: "string list \<Rightarrow> string" where
  "hash_Strings ss = FormatInt (sint (hash_String (concat (map (\<lambda>s. s @ ''-'') ss))))"

end
