(* ===== verification/MockRule.thy ===== *)
theory MockRule
  imports UtilFuncs RuleLoad Reuse "HOL-Library.Sublist"
begin

text \<open>
  The rules of mocking, \<open>core/mock/rule.go\<close>, and what a controller makes of a request
  (\<open>core/mock/traffic_shaping.go\<close> and the \<open>tc_*.go\<close> files). A slice that \<open>reflect.DeepEqual\<close> sees is an option. An
  empty list of arguments is the nil slice.
\<close>

section \<open>Rules\<close>

definition MockDoNothing :: i32 where "MockDoNothing = 0"
definition MockPanic :: i32 where "MockPanic = 1"
definition MockMock :: i32 where "MockMock = 2"
definition MockWaiting :: i32 where "MockWaiting = 3"
definition MockWaitingThenPanic :: i32 where "MockWaitingThenPanic = 4"
definition MockWaitingThenMock :: i32 where "MockWaitingThenMock = 5"

lemmas behaviour_defs = MockDoNothing_def MockPanic_def MockMock_def MockWaiting_def MockWaitingThenPanic_def
  MockWaitingThenMock_def

definition mock_ControlBehavior_String :: "i32 \<Rightarrow> string" where
  "mock_ControlBehavior_String t =
     (if t = MockDoNothing then ''DoNothing'' else if t = MockPanic then ''Panic'' else if t = MockMock then ''Mock''
      else if t = MockWaiting then ''Waiting'' else if t = MockWaitingThenPanic then ''WaitingThenPanic''
      else if t = MockWaitingThenMock then ''WaitingThenMock'' else FormatInt (sint t))"

definition StrategyFunc :: i32 where "StrategyFunc = 0"
definition StrategyParam :: i32 where "StrategyParam = 1"

definition KindNumber :: string where "KindNumber = ''number''"

definition MatchExact :: i32 where "MatchExact = 0"
definition MatchPrefix :: i32 where "MatchPrefix = 1"
definition MatchSuffix :: i32 where "MatchSuffix = 2"
definition MatchContain :: i32 where "MatchContain = 3"
definition MatchRegular :: i32 where "MatchRegular = 4"

definition ReplaceNone :: i32 where "ReplaceNone = 0"
definition ReplaceResp :: i32 where "ReplaceResp = 1"
definition ReplaceReq :: i32 where "ReplaceReq = 2"
definition ReplaceCtxTimeout :: i32 where "ReplaceCtxTimeout = 3"

definition MockTypeUnknown :: i64 where "MockTypeUnknown = 0"
definition MockTypeCookie :: i64 where "MockTypeCookie = 1"
definition MockTypeHeader :: i64 where "MockTypeHeader = 2"
definition MockTypeParameter :: i64 where "MockTypeParameter = 3"
definition MockTypeBody :: i64 where "MockTypeBody = 4"
definition MockTypeMetadata :: i64 where "MockTypeMetadata = 5"

definition mock_ParameterSourceType_String :: "i64 \<Rightarrow> string" where
  "mock_ParameterSourceType_String p =
     (if p = MockTypeUnknown then ''ParameterTypeUnknown'' else if p = MockTypeCookie then ''ParameterTypeCookie''
      else if p = MockTypeHeader then ''ParameterTypeHeader'' else if p = MockTypeParameter then ''ParameterTypeParameter''
      else if p = MockTypeBody then ''ParameterTypeBody'' else if p = MockTypeMetadata then ''ParameterTypeMetadata''
      else FormatInt (sint p))"

definition OpAnd :: i32 where "OpAnd = 0"
definition OpOr :: i32 where "OpOr = 1"

record mock_item =
  ki_WhenParamSource :: i64
  ki_WhenParamIdx :: i32
  ki_WhenParamKey :: string
  ki_WhenParamValue :: string
  ki_WhenParamKind :: string
  ki_ControlBehavior :: i32
  ki_MatchPattern :: i32
  ki_ThenReturnMockData :: string
  ki_ThenReturnWaitingTimeMs :: i64
  ki_ThenThrowMsg :: string
  ki_MockReplace :: i32
  ki_ReplaceAttribute :: string
  ki_RequestHold :: bool
  ki_AdditionalItemKey :: string
  ki_AdditionalItemValue :: string
  ki_ParamOP :: i32
  ki_WhenParamKey2 :: string
  ki_WhenParamValue2 :: string
  ki_WhenParamKind2 :: string
  ki_WhenParamKey3 :: string
  ki_WhenParamValue3 :: string
  ki_WhenParamKind3 :: string
  ki_TmpData :: "go_value option"

text \<open>The key of the additional item is held against the value of the other one.\<close>

definition mock_item_isEqualTo :: "mock_item \<Rightarrow> mock_item \<Rightarrow> bool" where
  "mock_item_isEqualTo r n \<longleftrightarrow>
     ki_WhenParamIdx r = ki_WhenParamIdx n \<and> ki_WhenParamKey r = ki_WhenParamKey n \<and>
     ki_WhenParamValue r = ki_WhenParamValue n \<and> ki_WhenParamKind r = ki_WhenParamKind n \<and>
     ki_ControlBehavior r = ki_ControlBehavior n \<and> ki_ThenReturnMockData r = ki_ThenReturnMockData n \<and>
     ki_ThenReturnWaitingTimeMs r = ki_ThenReturnWaitingTimeMs n \<and> ki_ThenThrowMsg r = ki_ThenThrowMsg n \<and>
     ki_MatchPattern r = ki_MatchPattern n \<and> ki_MockReplace r = ki_MockReplace n \<and>
     ki_ReplaceAttribute r = ki_ReplaceAttribute n \<and> ki_AdditionalItemKey r = ki_AdditionalItemValue n \<and>
     ki_AdditionalItemValue r = ki_AdditionalItemValue n \<and> ki_ParamOP r = ki_ParamOP n \<and>
     ki_WhenParamKey2 r = ki_WhenParamKey2 n \<and> ki_WhenParamValue2 r = ki_WhenParamValue2 n \<and>
     ki_WhenParamKind2 r = ki_WhenParamKind2 n \<and> ki_WhenParamKey3 r = ki_WhenParamKey3 n \<and>
     ki_WhenParamValue3 r = ki_WhenParamValue3 n \<and> ki_WhenParamKind3 r = ki_WhenParamKind3 n \<and>
     ki_WhenParamSource r = ki_WhenParamSource n"

record additional_item =
  ai_Key :: string
  ai_Value :: string

record mock_rule =
  kr_Id :: string
  kr_App :: string
  kr_RuleName :: string
  kr_LimitApp :: string
  kr_Resource :: string
  kr_ControlBehavior :: i32
  kr_Strategy :: i32
  kr_Op :: i32
  kr_AdditionalType :: i32
  kr_AdditionalItems :: "additional_item list option"
  kr_ThenReturnMockData :: string
  kr_ThenReturnWaitingTimeMs :: i64
  kr_ThenThrowMsg :: string
  kr_RequestHold :: bool
  kr_SpecificItems :: "mock_item list option"

definition mock_isStatReusable :: "mock_rule \<Rightarrow> mock_rule option \<Rightarrow> bool" where
  "mock_isStatReusable r new =
     (case new of
        None \<Rightarrow> False
      | Some n \<Rightarrow>
          kr_Resource r = kr_Resource n \<and> kr_ControlBehavior r = kr_ControlBehavior n \<and> kr_Strategy r = kr_Strategy n \<and>
          kr_ThenReturnMockData r = kr_ThenReturnMockData n \<and> kr_ThenThrowMsg r = kr_ThenThrowMsg n \<and>
          kr_SpecificItems r = kr_SpecificItems n)"

definition mock_isEqualsToBase :: "mock_rule \<Rightarrow> mock_rule option \<Rightarrow> bool" where
  "mock_isEqualsToBase r new =
     (case new of
        None \<Rightarrow> False
      | Some n \<Rightarrow>
          kr_Resource r = kr_Resource n \<and> kr_ControlBehavior r = kr_ControlBehavior n \<and> kr_Strategy r = kr_Strategy n \<and>
          kr_ThenReturnMockData r = kr_ThenReturnMockData n \<and> kr_ThenThrowMsg r = kr_ThenThrowMsg n \<and>
          kr_RequestHold r = kr_RequestHold n \<and> kr_LimitApp r = kr_LimitApp n \<and>
          list_all2 mock_item_isEqualTo (slice (kr_SpecificItems r)) (slice (kr_SpecificItems n)) \<and>
          list_all2 (\<lambda>i j. ai_Key i = ai_Key j \<and> ai_Value i = ai_Value j)
            (slice (kr_AdditionalItems r)) (slice (kr_AdditionalItems n)))"

definition mock_isEqualTo :: "mock_rule \<Rightarrow> mock_rule option \<Rightarrow> bool" where
  "mock_isEqualTo r new = mock_isEqualsToBase r new"

definition mock_IsValidRule :: "mock_rule option \<Rightarrow> string option" where
  "mock_IsValidRule r =
     (case r of
        None \<Rightarrow> Some ''nil Rule''
      | Some r \<Rightarrow> if length (kr_Resource r) = 0 then Some ''empty resource name'' else None)"

section \<open>Controllers\<close>

datatype mock_kind = DefaultTc | PanicTc | MockTc | WaitingTc | WaitingThenPanicTc | WaitingThenMockTc

record mock_controller =
  kc_kind :: mock_kind
  kc_r :: mock_rule
  kc_strategy :: i32
  kc_res :: string
  kc_specificItems :: "mock_item list"
  kc_additionalItems :: "additional_item list"

text \<open>The rule comes back with its nil slices made empty.\<close>

definition mock_newBase :: "mock_kind \<Rightarrow> mock_rule \<Rightarrow> mock_controller \<times> mock_rule" where
  "mock_newBase kind r =
     (let r = (if kr_SpecificItems r = None then r\<lparr>kr_SpecificItems := Some []\<rparr> else r);
          r = (if kr_AdditionalItems r = None then r\<lparr>kr_AdditionalItems := Some []\<rparr> else r)
      in (\<lparr>kc_kind = kind, kc_r = r, kc_strategy = kr_Strategy r, kc_res = kr_Resource r,
           kc_specificItems = slice (kr_SpecificItems r), kc_additionalItems = slice (kr_AdditionalItems r)\<rparr>, r))"

section \<open>Which requests a rule is for\<close>

text \<open>
  The loop over the headers or the metadata and, for each, over the items of the rule: \<open>Inr\<close> is an early return,
  \<open>Inl\<close> whether any key has been met.
\<close>

fun items_scan :: "i32 \<Rightarrow> (string \<times> string) list \<Rightarrow> bool \<Rightarrow> bool + bool" where
  "items_scan op [] containKey = Inl containKey"
| "items_scan op ((v, value) # rest) containKey =
     (if op = OpOr then (if v = value then Inr True else items_scan op rest True)
      else (if v \<noteq> value then Inr False else items_scan op rest True))"

text \<open>The pairs of an actual and an expected value whose keys agree, in the order of the loops.\<close>

definition key_pairs :: "(string \<times> string) list \<Rightarrow> additional_item list \<Rightarrow> (string \<times> string) list" where
  "key_pairs kvs items =
     concat (map (\<lambda>(k, v). map (\<lambda>item. (v, ai_Value item)) (filter (\<lambda>item. k = ai_Key item) items)) kvs)"

definition scan_result :: "bool + bool \<Rightarrow> bool" where
  "scan_result r = (case r of Inl containKey \<Rightarrow> containKey | Inr b \<Rightarrow> b)"

definition HeadersCheck :: "resource_wrapper \<Rightarrow> sea_input \<Rightarrow> mock_controller \<Rightarrow> bool" where
  "HeadersCheck rw inp c =
     (if length (in_Headers inp) = 0 then True
      else if rw_classification rw \<noteq> GrayResTypeWeb then True
      else let additionalItems = kc_additionalItems c; op = kr_Op (kc_r c)
      in if length additionalItems = 0 then False
         else if op = OpAnd \<and> length (in_Headers inp) < length additionalItems then False
         else scan_result (items_scan op (key_pairs (map (\<lambda>(k, v). (k, join_with (CHR '','') v)) (in_Headers inp)) additionalItems) False))"

definition ContextCheck :: "resource_wrapper \<Rightarrow> sea_input \<Rightarrow> mock_controller \<Rightarrow> bool" where
  "ContextCheck rw inp c =
     (if length (in_MetaData inp) = 0 then True
      else if rw_classification rw \<noteq> GrayResTypeMicro then True
      else let additionalItems = kc_additionalItems c; op = kr_Op (kc_r c)
      in if length additionalItems = 0 then True
         else if op = OpAnd \<and> length (in_MetaData inp) < length additionalItems then False
         else scan_result (items_scan op (key_pairs (in_MetaData inp) additionalItems) False))"

definition mockReplaceCheck :: "sea_input \<Rightarrow> mock_controller \<Rightarrow> bool" where
  "mockReplaceCheck inp c =
     (if length (in_MetaData inp) = 0 then False
      else let additionalItems = kc_additionalItems c; op = kr_Op (kc_r c)
      in if length additionalItems = 0 then False
         else if op = OpAnd \<and> length (in_MetaData inp) < length additionalItems then False
         else scan_result (items_scan op (key_pairs (in_MetaData inp) additionalItems) False))"

definition ruleItemCheck :: "sea_input \<Rightarrow> mock_item \<Rightarrow> bool" where
  "ruleItemCheck inp item =
     (if length (in_MetaData inp) = 0 then False
      else if TrimSpace (ki_AdditionalItemKey item) = [] then True
      else list_ex (\<lambda>(k, v). k = ki_AdditionalItemKey item \<and> v = ki_AdditionalItemValue item) (in_MetaData inp))"

definition MockCheck :: "resource_wrapper \<Rightarrow> sea_input \<Rightarrow> mock_controller \<Rightarrow> bool" where
  "MockCheck rw inp c =
     (if rw_classification rw = GrayResTypeMicro then mockReplaceCheck inp c else HeadersCheck rw inp c)"

section \<open>What the checks come to\<close>

lemma items_scan_or: "op = OpOr \<Longrightarrow> scan_result (items_scan op ps b) \<longleftrightarrow> ps \<noteq> [] \<or> b"
  by (induction op ps b rule: items_scan.induct) (auto simp: scan_result_def)

lemma items_scan_and: "op \<noteq> OpOr \<Longrightarrow> scan_result (items_scan op ps b) \<longleftrightarrow> (ps \<noteq> [] \<or> b) \<and> (\<forall>(v, e) \<in> set ps. v = e)"
  by (induction op ps b rule: items_scan.induct) (auto simp: scan_result_def)

lemma key_pairs_empty: "key_pairs kvs items = [] \<longleftrightarrow> (\<forall>item \<in> set items. ai_Key item \<notin> fst ` set kvs)"
  by (force simp: key_pairs_def filter_empty_conv)

lemma key_pairs_pairs:
  "(v, e) \<in> set (key_pairs kvs items) \<longleftrightarrow>
    (\<exists>kv \<in> set kvs. \<exists>item \<in> set items. fst kv = ai_Key item \<and> v = snd kv \<and> e = ai_Value item)"
  by (auto simp: key_pairs_def case_prod_unfold)

lemma key_pairs_set: "(v, e) \<in> set (key_pairs kvs items) \<longleftrightarrow> (\<exists>item \<in> set items. (ai_Key item, v) \<in> set kvs \<and> e = ai_Value item)"
proof
  assume "(v, e) \<in> set (key_pairs kvs items)"
  then obtain kv item where kv: "kv \<in> set kvs" "item \<in> set items" "fst kv = ai_Key item" "v = snd kv" "e = ai_Value item"
    unfolding key_pairs_pairs by blast
  have "kv = (ai_Key item, v)" using kv(3,4) by (simp add: prod_eq_iff)
  then have "(ai_Key item, v) \<in> set kvs" using kv(1) by simp
  with kv(2,5) show "\<exists>item \<in> set items. (ai_Key item, v) \<in> set kvs \<and> e = ai_Value item" by blast
next
  assume "\<exists>item \<in> set items. (ai_Key item, v) \<in> set kvs \<and> e = ai_Value item"
  then obtain item where "item \<in> set items" "(ai_Key item, v) \<in> set kvs" "e = ai_Value item" by blast
  then show "(v, e) \<in> set (key_pairs kvs items)" unfolding key_pairs_pairs by (intro bexI [of _ "(ai_Key item, v)"]) auto
qed

lemma key_pairs_agree:
  "(\<forall>(v, e) \<in> set (key_pairs kvs items). v = e) \<longleftrightarrow>
    (\<forall>item \<in> set items. \<forall>v. (ai_Key item, v) \<in> set kvs \<longrightarrow> v = ai_Value item)"
  (is "?L \<longleftrightarrow> ?R")
proof
  assume ?L
  show ?R
  proof (intro ballI allI impI)
    fix item v assume "item \<in> set items" "(ai_Key item, v) \<in> set kvs"
    then have "(v, ai_Value item) \<in> set (key_pairs kvs items)" by (auto simp: key_pairs_set)
    then show "v = ai_Value item" using \<open>?L\<close> by fast
  qed
next
  assume R: ?R
  show ?L
  proof (clarify)
    fix v e assume "(v, e) \<in> set (key_pairs kvs items)"
    then show "v = e" using R by (auto simp: key_pairs_set)
  qed
qed

text \<open>
  A rule whose items are alternatives applies to a request that has one of the keys, whatever its value; a rule whose
  items must all hold applies also where some of the keys are missing.
\<close>

lemma mockReplaceCheck_or:
  assumes "kr_Op (kc_r c) = OpOr"
  shows "mockReplaceCheck inp c \<longleftrightarrow> (\<exists>item \<in> set (kc_additionalItems c). ai_Key item \<in> fst ` set (in_MetaData inp))"
proof -
  have "OpOr \<noteq> OpAnd" by (simp add: OpOr_def OpAnd_def)
  then show ?thesis
    using assms by (auto simp: mockReplaceCheck_def items_scan_or key_pairs_empty Let_def)
qed

lemma mockReplaceCheck_and:
  assumes "kr_Op (kc_r c) = OpAnd"
  shows "mockReplaceCheck inp c \<longleftrightarrow>
    length (kc_additionalItems c) \<le> length (in_MetaData inp) \<and>
    (\<exists>item \<in> set (kc_additionalItems c). ai_Key item \<in> fst ` set (in_MetaData inp)) \<and>
    (\<forall>item \<in> set (kc_additionalItems c). \<forall>v. (ai_Key item, v) \<in> set (in_MetaData inp) \<longrightarrow> v = ai_Value item)"
proof -
  have ne: "OpAnd \<noteq> OpOr" by (simp add: OpOr_def OpAnd_def)
  show ?thesis
    using assms ne by (auto simp: mockReplaceCheck_def items_scan_and key_pairs_empty key_pairs_agree Let_def not_less)
qed

text \<open>An item with an additional key other than its additional value does not equal itself.\<close>

lemma mock_item_not_itself: "ki_AdditionalItemKey i \<noteq> ki_AdditionalItemValue i \<Longrightarrow> \<not> mock_item_isEqualTo i i"
  by (simp add: mock_item_isEqualTo_def)

end
