(* ===== verification/MockCheck.thy ===== *)
theory MockCheck
  imports MockRule
begin

text \<open>
  What a mocking controller does with a request: \<open>ArgsCheck\<close> and the checks on top of it, of
  \<open>core/mock/traffic_shaping.go\<close> and the \<open>tc_*.go\<close> files. A replacement of the request changes the first argument in
  place, so a check returns the input as it is afterwards. The JSON packages, reflection, regular expressions, the
  clock and the random strings are fields of \<open>mock_env\<close>.
\<close>

section \<open>The environment\<close>

text \<open>
  A field of a structure as \<open>structs\<close> shows it: the first part of its JSON tag, its value, and its own fields,
  if it is a structure.
\<close>

datatype sfield = SField string go_value "sfield list option"

text \<open>
  \<open>me_each\<close> lists the elements that \<open>ArrayEach\<close> hands to its callback; \<open>me_field_set\<close> is \<open>Field.Set\<close> with a text,
  \<open>None\<close> its error. \<open>me_now i\<close> is the \<open>i\<close>-th reading of the clock in nanoseconds, \<open>me_rand i n\<close> the random string of
  length \<open>n\<close> for the \<open>i\<close>-th item.
\<close>

record mock_env =
  me_json :: json_env
  me_bytes :: "go_value \<Rightarrow> string option"
  me_get_string :: "string \<Rightarrow> string list \<Rightarrow> string option"
  me_set :: "string \<Rightarrow> string \<Rightarrow> string list \<Rightarrow> string option"
  me_delete :: "string \<Rightarrow> string list \<Rightarrow> string"
  me_each :: "string \<Rightarrow> string list \<Rightarrow> string list"
  me_emptyReg :: "string \<Rightarrow> string"
  me_emptyReg2 :: "string \<Rightarrow> string"
  me_regexp :: "string \<Rightarrow> string \<Rightarrow> bool option"
  me_fields :: "go_value \<Rightarrow> sfield list option"
  me_with_fields :: "go_value \<Rightarrow> sfield list \<Rightarrow> go_value"
  me_field_set :: "go_value \<Rightarrow> string \<Rightarrow> go_value option"
  me_now :: "nat \<Rightarrow> i64"
  me_rand :: "nat \<Rightarrow> nat \<Rightarrow> string"

section \<open>Replacing in the mock data\<close>

text \<open>\<open>strings.ReplaceAll\<close> of a text that is not empty.\<close>

function ReplaceAll :: "string \<Rightarrow> string \<Rightarrow> string \<Rightarrow> string" where
  "ReplaceAll old new [] = []"
| "ReplaceAll old new (c # cs) =
     (if old \<noteq> [] \<and> prefix old (c # cs) then new @ ReplaceAll old new (drop (length old) (c # cs))
      else c # ReplaceAll old new cs)"
  by pat_completeness auto

termination
  by (relation "measure (\<lambda>(old, new, s). length s)") auto

definition TimeNanoFunc :: string where "TimeNanoFunc = ''${time.Now().UnixNano()}''"
definition TimeMillisFunc :: string where "TimeMillisFunc = ''${time.Now().UnixNano()/1e6}''"
definition TimeSecFunc :: string where "TimeSecFunc = ''${time.Now().Unix()}''"

definition randFunc2LenMap :: "(string, nat) gomap" where
  "randFunc2LenMap = map (\<lambda>n. (''${randStr'' @ FormatInt (int n) @ ''()}'', n)) [1..<21]"

definition time_replace :: "mock_env \<Rightarrow> nat \<Rightarrow> string \<Rightarrow> string" where
  "time_replace env i s =
     (let nano = sint (me_now env (3 * i)); milli = sint (me_now env (3 * i + 1)); sec = sint (me_now env (3 * i + 2));
          s = ReplaceAll TimeNanoFunc (FormatInt nano) s;
          s = ReplaceAll TimeMillisFunc (FormatInt (sgn milli * (\<bar>milli\<bar> div 1000000))) s
      in ReplaceAll TimeSecFunc (FormatInt (sec div 1000000000)) s)"

definition prepare_item :: "mock_env \<Rightarrow> nat \<Rightarrow> mock_item \<Rightarrow> mock_item" where
  "prepare_item env i item =
     item\<lparr>ki_ThenReturnMockData :=
       foldl (\<lambda>s (funK, l). ReplaceAll funK (me_rand env i l) s) (time_replace env i (ki_ThenReturnMockData item)) randFunc2LenMap\<rparr>"

section \<open>Matching\<close>

definition isMatch :: "mock_env \<Rightarrow> string \<Rightarrow> string \<Rightarrow> i32 \<Rightarrow> bool" where
  "isMatch env whenParamValue val matchPattern =
     (if matchPattern = MatchExact \<or> MatchRegular <s matchPattern then val = whenParamValue
      else if matchPattern = MatchPrefix then prefix whenParamValue val
      else if matchPattern = MatchSuffix then suffix whenParamValue val
      else if matchPattern = MatchContain then sublist whenParamValue val
      else if matchPattern = MatchRegular then
        (case me_regexp env whenParamValue val of None \<Rightarrow> sublist whenParamValue val | Some ok2 \<Rightarrow> ok2)
      else False)"

definition getPropertyValue :: "mock_env \<Rightarrow> string \<Rightarrow> string \<Rightarrow> string option" where
  "getPropertyValue env paramKey requestJsonData =
     map_option fst (je_get (me_json env) requestJsonData (split_on (CHR ''.'') paramKey))"

text \<open>
  The second and the third condition of an item: \<open>acc\<close> is the answer so far. With \<open>And\<close> a condition is looked at while
  all before it hold, else while none does. \<open>None\<close> is a property that is not in the request.
\<close>

definition further_condition ::
  "(string \<Rightarrow> string \<Rightarrow> bool) \<Rightarrow> (string \<Rightarrow> string option) \<Rightarrow> bool \<Rightarrow> string \<Rightarrow> string \<Rightarrow> bool \<Rightarrow> bool option" where
  "further_condition eq property isAnd key value isMock =
     (if isMock = isAnd \<and> TrimSpace key \<noteq> [] then map_option (eq value) (property key) else Some isMock)"

definition item_conditions ::
  "(string \<Rightarrow> string \<Rightarrow> bool) \<Rightarrow> (string \<Rightarrow> string option) \<Rightarrow> mock_item \<Rightarrow> string \<Rightarrow> bool option" where
  "item_conditions eq property item val =
     (let isAnd = (ki_ParamOP item = OpAnd)
      in case further_condition eq property isAnd (ki_WhenParamKey2 item) (ki_WhenParamValue2 item) (eq (ki_WhenParamValue item) val) of
           None \<Rightarrow> None
         | Some isMock \<Rightarrow> further_condition eq property isAnd (ki_WhenParamKey3 item) (ki_WhenParamValue3 item) isMock)"

section \<open>Replacing in the request\<close>

text \<open>The fields afterwards, and a panic where a field on the way is no structure.\<close>

fun WalkAndSet :: "mock_env \<Rightarrow> sfield list \<Rightarrow> nat \<Rightarrow> string \<Rightarrow> string list \<Rightarrow> sfield list \<times> unit go" where
  "WalkAndSet env [] pos val properties = ([], Ret ())"
| "WalkAndSet env (SField tag v sub # fs) pos val properties =
     (if length properties < pos then (SField tag v sub # fs, Ret ())
      else if length properties = pos then (SField tag v sub # fs, Panic ''index out of range'')
      else if tag \<noteq> properties ! pos then
        (let (fs, r) = WalkAndSet env fs pos val properties in (SField tag v sub # fs, r))
      else if pos = length properties - 1 then
        (case me_field_set env v val of
           None \<Rightarrow> (SField tag v sub # fs, Ret ())
         | Some v \<Rightarrow> (SField tag v sub # fs, Ret ()))
      else case sub of
          None \<Rightarrow> (SField tag v None # fs, Panic ''reflect: NumField of non-struct type'')
        | Some sub \<Rightarrow>
            (case WalkAndSet env sub (pos + 1) val properties of
               (sub, Ret _) \<Rightarrow>
                 (let (fs, r) = WalkAndSet env fs pos val properties in (SField tag v (Some sub) # fs, r))
             | (sub, e) \<Rightarrow> (SField tag v (Some sub) # fs, e)))"

definition request_replace :: "mock_env \<Rightarrow> string \<Rightarrow> string list \<Rightarrow> sea_input \<Rightarrow> unit go \<times> sea_input" where
  "request_replace env val properties inp =
     (case in_Args inp of
        [] \<Rightarrow> (Panic ''index out of range'', inp)
      | arg # args \<Rightarrow>
          (case me_fields env arg of
             None \<Rightarrow> (Panic ''not struct'', inp)
           | Some fs \<Rightarrow>
               (let (fs, r) = WalkAndSet env fs 0 val properties
                in (r, inp\<lparr>in_Args := me_with_fields env arg fs # args\<rparr>))))"

text \<open>The item that answers a replaced request carries the request.\<close>

definition with_request :: "unit go \<times> sea_input \<Rightarrow> mock_item \<Rightarrow> mock_item option go \<times> sea_input" where
  "with_request ri item = (let (r, inp) = ri in (go_bind r (\<lambda>_. Ret (Some (item\<lparr>ki_TmpData := Some (hd (in_Args inp))\<rparr>))), inp))"

section \<open>One item\<close>

text \<open>A value that the code does not read is empty.\<close>

definition kindStringHandle ::
  "mock_env \<Rightarrow> string \<Rightarrow> string list \<Rightarrow> mock_item \<Rightarrow> sea_input \<Rightarrow> mock_item option go \<times> sea_input" where
  "kindStringHandle env data propertyArr item inp =
     (let source = ki_WhenParamSource item;
          val = (if source = MockTypeUnknown \<or> source = MockTypeParameter then me_get_string env data propertyArr
                 else if source = MockTypeMetadata then Some (mget_list (in_MetaData inp) (ki_WhenParamKey item))
                 else Some [])
      in case val of
           None \<Rightarrow> (Ret None, inp)
         | Some val \<Rightarrow>
             if ki_MockReplace item = ReplaceResp then
               (case me_set env (ki_ThenReturnMockData item) (''\"'' @ val @ ''\"'') (split_on (CHR ''.'') (ki_ReplaceAttribute item)) of
                  None \<Rightarrow> (Ret None, inp)
                | Some changeData \<Rightarrow> (Ret (Some (item\<lparr>ki_ThenReturnMockData := changeData\<rparr>)), inp))
             else if ki_MockReplace item = ReplaceReq then
               with_request (request_replace env (ki_ThenReturnMockData item) propertyArr inp) (item\<lparr>ki_ThenReturnMockData := []\<rparr>)
             else
               (case item_conditions (\<lambda>w v. isMatch env w v (ki_MatchPattern item)) (\<lambda>k. getPropertyValue env k data) item val of
                  Some True \<Rightarrow> (Ret (Some item), inp)
                | _ \<Rightarrow> (Ret None, inp)))"

text \<open>The mock data while the elements of an array are put into it; \<open>None\<close> is a nil \<open>changeData\<close>.\<close>

record array_state =
  ar_index :: nat
  ar_changeData :: "string option"
  ar_mock :: string

definition arr_index :: "nat \<Rightarrow> string" where
  "arr_index i = ''['' @ FormatInt (int i) @ '']''"

definition each_set :: "mock_env \<Rightarrow> string list \<Rightarrow> string list \<Rightarrow> array_state \<Rightarrow> string \<Rightarrow> array_state" where
  "each_set env keysPre keysPost st value =
     (let finalKeys = keysPre @ [arr_index (ar_index st)] @ keysPost;
          st = st\<lparr>ar_index := ar_index st + 1\<rparr>
      in if je_get (me_json env) (ar_mock st) finalKeys = None then st
         else case me_set env (ar_mock st) value finalKeys of
             None \<Rightarrow> st\<lparr>ar_changeData := None\<rparr>
           | Some d \<Rightarrow> st\<lparr>ar_changeData := Some d, ar_mock := d\<rparr>)"

definition each_delete :: "mock_env \<Rightarrow> string list \<Rightarrow> nat \<times> array_state \<Rightarrow> string \<Rightarrow> nat \<times> array_state" where
  "each_delete env keysPre ds value =
     (let (deleteIndex, st) = ds
      in if deleteIndex < ar_index st then (deleteIndex + 1, st)
         else let finalKeys = keysPre @ [arr_index deleteIndex]
         in if je_get (me_json env) (ar_mock st) finalKeys = None then (deleteIndex, st)
            else let d = me_emptyReg2 env (me_emptyReg env (me_delete env (ar_mock st) finalKeys))
                 in (deleteIndex, st\<lparr>ar_changeData := Some d, ar_mock := d\<rparr>))"

definition array_replace :: "mock_env \<Rightarrow> string \<Rightarrow> string list \<Rightarrow> mock_item \<Rightarrow> string" where
  "array_replace env data propertyArr item =
     (let keys = split_on (CHR ''.'') (ki_ReplaceAttribute item);
          keysPre = takeWhile (\<lambda>r. r \<noteq> ''[*]'') keys;
          keysPost = filter (\<lambda>r. r \<noteq> ''[*]'') (dropWhile (\<lambda>r. r \<noteq> ''[*]'') keys);
          st = foldl (each_set env keysPre keysPost)
            \<lparr>ar_index = 0, ar_changeData = None, ar_mock = ki_ThenReturnMockData item\<rparr> (me_each env data propertyArr);
          (_, st) = foldl (each_delete env keysPre) (0, st) (me_each env (ar_mock st) keysPre)
      in case ar_changeData st of None \<Rightarrow> [] | Some d \<Rightarrow> d)"

definition generalHandle ::
  "mock_env \<Rightarrow> string \<Rightarrow> string list \<Rightarrow> mock_item \<Rightarrow> sea_input \<Rightarrow> mock_item option go \<times> sea_input" where
  "generalHandle env data propertyArr item inp =
     (let source = ki_WhenParamSource item;
          found = (if source = MockTypeUnknown \<or> source = MockTypeParameter then je_get (me_json env) data propertyArr
                   else if source = MockTypeMetadata then
                     Some (mget_list (in_MetaData inp) (ki_WhenParamKey item),
                           if ki_WhenParamKind item = KindNumber then JsonNumber else JsonString)
                   else Some ([], JsonOther))
      in case found of
           None \<Rightarrow> (Ret None, inp)
         | Some (val, dt) \<Rightarrow>
             if ki_MockReplace item = ReplaceResp then
               (if dt = JsonArray \<and> sublist ''[*]'' (ki_ReplaceAttribute item) then
                  (Ret (Some (item\<lparr>ki_ThenReturnMockData := array_replace env data propertyArr item\<rparr>)), inp)
                else
                  let valS = (if dt \<in> {JsonArray, JsonBoolean, JsonNumber} then val else ''\"'' @ val @ ''\"'')
                  in case me_set env (ki_ThenReturnMockData item) valS (split_on (CHR ''.'') (ki_ReplaceAttribute item)) of
                       None \<Rightarrow> (Ret None, inp)
                     | Some changeData \<Rightarrow> (Ret (Some (item\<lparr>ki_ThenReturnMockData := changeData\<rparr>)), inp))
             else if ki_MockReplace item = ReplaceReq then
               (let replaceValue = (if dt \<in> {JsonArray, JsonBoolean} then ki_ThenReturnMockData item
                      else ''\"'' @ ki_ThenReturnMockData item @ ''\"'')
                in with_request (request_replace env replaceValue propertyArr inp) item)
             else
               (case item_conditions (=) (\<lambda>k. getPropertyValue env k data) item val of
                  Some True \<Rightarrow> (Ret (Some item), inp)
                | _ \<Rightarrow> (Ret None, inp)))"

section \<open>All items\<close>

fun attachment_item :: "(go_value, go_value) gomap \<Rightarrow> mock_item list \<Rightarrow> mock_item option" where
  "attachment_item args [] = None"
| "attachment_item args (item # items) =
     (if ki_WhenParamKey item = [] then attachment_item args items
      else case mget args (VString (ki_WhenParamKey item)) of
          None \<Rightarrow> attachment_item args items
        | Some arg \<Rightarrow> if VString (ki_WhenParamValue item) = arg then Some item else attachment_item args items)"

definition request_data :: "mock_env \<Rightarrow> go_value \<Rightarrow> string" where
  "request_data env arg =
     (if je_is_struct (me_json env) arg then je_marshal (me_json env) arg
      else case me_bytes env arg of None \<Rightarrow> [] | Some d \<Rightarrow> d)"

fun micro_item :: "mock_env \<Rightarrow> string \<Rightarrow> nat \<Rightarrow> mock_item list \<Rightarrow> sea_input \<Rightarrow> mock_item option go \<times> sea_input" where
  "micro_item env data i [] inp = (Ret None, inp)"
| "micro_item env data i (item # items) inp =
     (if \<not> ruleItemCheck inp item then micro_item env data (Suc i) items inp
      else
        let propertyArr = split_on (CHR ''.'') (ki_WhenParamKey item);
            item = prepare_item env i item
        in case (if ki_WhenParamKind item = KindString then kindStringHandle env data propertyArr item inp
                 else generalHandle env data propertyArr item inp) of
             (Ret None, inp) \<Rightarrow> micro_item env data (Suc i) items inp
           | r \<Rightarrow> r)"

text \<open>The arguments of a web request: the first one with the key decides on the item.\<close>

fun web_arg :: "mock_item \<Rightarrow> go_value list \<Rightarrow> bool go" where
  "web_arg item [] = Ret False"
| "web_arg item (arg # args) =
     (case arg of
        VString s \<Rightarrow>
          (case split_first (CHR ''='') s of
             None \<Rightarrow> web_arg item args
           | Some (k, v) \<Rightarrow> if ki_WhenParamKey item = k then Ret (ki_WhenParamValue item = v) else web_arg item args)
      | _ \<Rightarrow> Panic ''interface conversion'')"

fun web_item :: "go_value list \<Rightarrow> mock_item list \<Rightarrow> mock_item option go" where
  "web_item args [] = Ret None"
| "web_item args (item # items) =
     go_bind (web_arg item args) (\<lambda>found. if found then Ret (Some item) else web_item args items)"

text \<open>The index that is checked is not the index that is used.\<close>

fun index_item :: "go_value list \<Rightarrow> mock_item list \<Rightarrow> mock_item option go" where
  "index_item args [] = Ret None"
| "index_item args (item # items) =
     (let i = sint (ki_WhenParamIdx item); idx = 0; idx = (if i < 0 then int (length args) + idx else idx)
      in if idx < 0 then index_item args items
         else if int (length args) \<le> idx then index_item args items
         else if i < 0 \<or> int (length args) \<le> i then Panic ''index out of range''
         else if VString (ki_WhenParamValue item) = args ! nat i then Ret (Some item)
         else index_item args items)"

definition ArgsCheck ::
  "mock_env \<Rightarrow> resource_wrapper \<Rightarrow> sea_input \<Rightarrow> mock_controller \<Rightarrow> mock_item option go \<times> sea_input" where
  "ArgsCheck env rw inp c =
     (if length (kc_specificItems c) = 0 then (Ret None, inp)
      else case attachment_item (in_Attachments inp) (kc_specificItems c) of
          Some item \<Rightarrow> (Ret (Some item), inp)
        | None \<Rightarrow>
            (case in_Args inp of
               [] \<Rightarrow> (Ret None, inp)
             | arg # _ \<Rightarrow>
                 if rw_classification rw = GrayResTypeMicro
                 then micro_item env (request_data env arg) 0 (kc_specificItems c) inp
                 else if rw_classification rw = GrayResTypeWeb then (web_item (in_Args inp) (kc_specificItems c), inp)
                 else (index_item (in_Args inp) (kc_specificItems c), inp)))"

section \<open>The answer of a controller\<close>

type_synonym mock_result = "(mock_rule, go_value) token_result option"

definition mock_blocked :: "block_type \<Rightarrow> mock_controller \<Rightarrow> go_value option \<Rightarrow> mock_result" where
  "mock_blocked t c v = Some (NewTokenResultBlockedWithCause t [] (Some (kc_r c)) v)"

text \<open>The wait before the answer, in nanoseconds.\<close>

definition mock_wait :: "i64 \<Rightarrow> i64 list" where
  "mock_wait ms = (let nanosToWait = ms * 1000000 in if 0 <s nanosToWait then [nanosToWait] else [])"

definition item_result :: "mock_controller \<Rightarrow> mock_item \<Rightarrow> mock_result \<times> i64 list" where
  "item_result c item =
     (let b = ki_ControlBehavior item
      in if ki_MockReplace item = ReplaceReq then (mock_blocked BlockTypeMockRequest c (ki_TmpData item), [])
         else if ki_MockReplace item = ReplaceCtxTimeout then
           (mock_blocked BlockTypeMockCtxTimeout c (Some (VInt64 (ki_ThenReturnWaitingTimeMs item))), [])
         else if b = MockDoNothing then (None, [])
         else if b = MockPanic then (mock_blocked BlockTypeMockError c (Some (VString (ki_ThenThrowMsg item))), [])
         else if b = MockMock then (mock_blocked BlockTypeMock c (Some (VString (ki_ThenReturnMockData item))), [])
         else if b = MockWaiting then (None, mock_wait (ki_ThenReturnWaitingTimeMs item))
         else if b = MockWaitingThenPanic then
           (mock_blocked BlockTypeMockError c (Some (VString (ki_ThenThrowMsg item))), mock_wait (ki_ThenReturnWaitingTimeMs item))
         else if b = MockWaitingThenMock then
           (mock_blocked BlockTypeMock c (Some (VString (ki_ThenReturnMockData item))), mock_wait (ki_ThenReturnWaitingTimeMs item))
         else (None, []))"

definition DoInnerCheck ::
  "mock_env \<Rightarrow> resource_wrapper \<Rightarrow> sea_input \<Rightarrow> mock_controller \<Rightarrow> (mock_result \<times> i64 list) go \<times> sea_input" where
  "DoInnerCheck env rw inp c =
     (let (r, inp) = ArgsCheck env rw inp c
      in (go_bind r (\<lambda>item. Ret (case item of None \<Rightarrow> (None, []) | Some item \<Rightarrow> item_result c item)), inp))"

definition PerformCheckingArgs ::
  "mock_env \<Rightarrow> resource_wrapper \<Rightarrow> sea_input \<Rightarrow> mock_controller \<Rightarrow> (mock_result \<times> i64 list) go \<times> sea_input" where
  "PerformCheckingArgs env rw inp c = DoInnerCheck env rw inp c"

text \<open>The answers of the controllers of the whole function, one for each control behaviour.\<close>

definition default_PerformCheckingFunc :: "mock_controller \<Rightarrow> mock_result \<times> i64 list" where
  "default_PerformCheckingFunc c = (None, [])"

definition panic_PerformCheckingFunc :: "mock_controller \<Rightarrow> mock_result \<times> i64 list" where
  "panic_PerformCheckingFunc c = (mock_blocked BlockTypeMockError c (Some (VString (kr_ThenThrowMsg (kc_r c)))), [])"

definition mock_PerformCheckingFunc :: "mock_env \<Rightarrow> mock_controller \<Rightarrow> mock_result \<times> i64 list" where
  "mock_PerformCheckingFunc env c =
     (let thenReturnMockData = time_replace env 0 (kr_ThenReturnMockData (kc_r c))
      in (mock_blocked BlockTypeMock c (Some (VString thenReturnMockData)), []))"

definition waiting_PerformCheckingFunc :: "mock_controller \<Rightarrow> mock_result \<times> i64 list" where
  "waiting_PerformCheckingFunc c = (None, mock_wait (kr_ThenReturnWaitingTimeMs (kc_r c)))"

definition waitingThenPanic_PerformCheckingFunc :: "mock_controller \<Rightarrow> mock_result \<times> i64 list" where
  "waitingThenPanic_PerformCheckingFunc c =
     (mock_blocked BlockTypeMockError c (Some (VString ''panic'')), mock_wait (kr_ThenReturnWaitingTimeMs (kc_r c)))"

definition waitingThenMock_PerformCheckingFunc :: "mock_env \<Rightarrow> mock_controller \<Rightarrow> mock_result \<times> i64 list" where
  "waitingThenMock_PerformCheckingFunc env c =
     (let waits = mock_wait (kr_ThenReturnWaitingTimeMs (kc_r c));
          thenReturnMockData = time_replace env 0 (kr_ThenReturnMockData (kc_r c))
      in (mock_blocked BlockTypeMock c (Some (VString thenReturnMockData)), waits))"

definition PerformCheckingFunc :: "mock_env \<Rightarrow> mock_controller \<Rightarrow> mock_result \<times> i64 list" where
  "PerformCheckingFunc env c =
     (case kc_kind c of
        DefaultTc \<Rightarrow> default_PerformCheckingFunc c
      | PanicTc \<Rightarrow> panic_PerformCheckingFunc c
      | MockTc \<Rightarrow> mock_PerformCheckingFunc env c
      | WaitingTc \<Rightarrow> waiting_PerformCheckingFunc c
      | WaitingThenPanicTc \<Rightarrow> waitingThenPanic_PerformCheckingFunc c
      | WaitingThenMockTc \<Rightarrow> waitingThenMock_PerformCheckingFunc env c)"

end
