(* ===== verification/MockManager.thy ===== *)
theory MockManager
  imports MockCheck
begin

text \<open>
  The rule manager of mocking with the requests it holds for reporting, \<open>core/mock/rule_manager.go\<close>, and the
  check slot, \<open>core/mock/slot.go\<close>. Locks are not modelled: a call is one step. Marshalling does not fail.
\<close>

section \<open>The manager\<close>

text \<open>Requests are kept by resource; those seen and those reported are known by their hash only.\<close>

record mock_manager =
  km_tcMap :: "(string, mock_controller list) gomap"
  km_currentRules :: "(string, mock_rule option list) gomap"
  km_cacheRequestMap :: "(string, string list) gomap"
  km_requestHash :: "i64 list"
  km_reportedHash :: "i64 list"

definition mock_getTrafficControllersFor :: "string \<Rightarrow> mock_manager \<Rightarrow> mock_controller list" where
  "mock_getTrafficControllersFor res m = mget_list (km_tcMap m) res"

definition mock_rulesFrom :: "(string, mock_controller list) gomap \<Rightarrow> mock_rule list" where
  "mock_rulesFrom m = concat (map (\<lambda>(res, tcs). map kc_r tcs) m)"

definition mock_GetRules :: "mock_manager \<Rightarrow> mock_rule list" where
  "mock_GetRules m = mock_rulesFrom (km_tcMap m)"

definition mock_GetRulesOfResource :: "string \<Rightarrow> mock_manager \<Rightarrow> mock_rule list" where
  "mock_GetRulesOfResource res m = map kc_r (mget_list (km_tcMap m) res)"

text \<open>The generators of \<open>init\<close>.\<close>

definition mock_kind_of :: "i32 \<Rightarrow> mock_kind option" where
  "mock_kind_of b =
     (if b = MockDoNothing then Some DefaultTc else if b = MockPanic then Some PanicTc else if b = MockMock then Some MockTc
      else if b = MockWaiting then Some WaitingTc else if b = MockWaitingThenPanic then Some WaitingThenPanicTc
      else if b = MockWaitingThenMock then Some WaitingThenMockTc else None)"

definition mock_calculateReuseIndexFor :: "mock_rule \<Rightarrow> mock_controller list \<Rightarrow> int \<times> int" where
  "mock_calculateReuseIndexFor r oldResTcs =
     reuse_loop (\<lambda>old. mock_isEqualTo (kc_r old) (Some r)) (\<lambda>old. mock_isStatReusable (kc_r old) (Some r)) 0 (- 1) oldResTcs"

text \<open>The controllers of a resource, and its rules as the generators left them.\<close>

fun mock_buildResource ::
  "string \<Rightarrow> mock_rule list \<Rightarrow> mock_controller list \<Rightarrow> mock_controller list \<times> mock_rule list" where
  "mock_buildResource res [] oldResTcs = ([], [])"
| "mock_buildResource res (rule # rules) oldResTcs =
     (if res \<noteq> kr_Resource rule then
        (let (tcs, rs) = mock_buildResource res rules oldResTcs in (tcs, rule # rs))
      else
        let (equalIdx, reuseStatIdx) = mock_calculateReuseIndexFor rule oldResTcs
        in if 0 \<le> equalIdx then
             (let (tcs, rs) = mock_buildResource res rules (remove_nth (nat equalIdx) oldResTcs)
              in (oldResTcs ! nat equalIdx # tcs, rule # rs))
           else case mock_kind_of (kr_ControlBehavior rule) of
               None \<Rightarrow> (let (tcs, rs) = mock_buildResource res rules oldResTcs in (tcs, rule # rs))
             | Some kind \<Rightarrow>
                 let (tc, rule) = mock_newBase kind rule;
                     (tcs, rs) = mock_buildResource res rules
                       (if 0 \<le> reuseStatIdx then remove_nth (nat reuseStatIdx) oldResTcs else oldResTcs)
                 in (tc # tcs, rule # rs))"

text \<open>The loaded rules as the generators left them: the valid ones are replaced, in order.\<close>

fun mock_put_back :: "mock_rule option list \<Rightarrow> mock_rule list \<Rightarrow> mock_rule option list" where
  "mock_put_back [] vs = []"
| "mock_put_back (r # rs) vs =
     (if mock_IsValidRule r = None then
        (case vs of v # vs \<Rightarrow> Some v # mock_put_back rs vs | [] \<Rightarrow> r # mock_put_back rs [])
      else r # mock_put_back rs vs)"

text \<open>Nothing in an update can fail: it always returns nil.\<close>

definition mock_onRuleUpdate :: "(string, mock_rule option list) gomap \<Rightarrow> mock_manager \<Rightarrow> mock_manager" where
  "mock_onRuleUpdate raw m =
     (let built = map (\<lambda>(res, rules). (res, mock_buildResource res rules (mget_list (km_tcMap m) res)))
            (valid_map mock_IsValidRule raw)
      in m\<lparr>km_tcMap := map (\<lambda>(res, tcs, rs). (res, tcs)) built,
           km_currentRules := map (\<lambda>(res, rs). (res,
             mock_put_back rs (mget_list (map (\<lambda>(res, tcs, rs). (res, rs)) built) res))) raw\<rparr>)"

definition mock_LoadRules :: "mock_rule option list \<Rightarrow> mock_manager \<Rightarrow> bool go \<times> mock_manager" where
  "mock_LoadRules rules m =
     (case group_rules kr_Resource rules [] of
        Ret resRulesMap \<Rightarrow>
          if meq (km_currentRules m) resRulesMap then (Ret False, m)
          else (Ret True, mock_onRuleUpdate resRulesMap m)
      | Err e \<Rightarrow> (Err e, m)
      | Panic p \<Rightarrow> (Panic p, m))"

definition mock_ClearRules :: "mock_manager \<Rightarrow> unit go \<times> mock_manager" where
  "mock_ClearRules m = (let (r, m) = mock_LoadRules [] m in (go_bind r (\<lambda>_. Ret ()), m))"

definition mock_onResourceRuleUpdate :: "string \<Rightarrow> mock_rule option list \<Rightarrow> mock_manager \<Rightarrow> mock_manager" where
  "mock_onResourceRuleUpdate res rawResRules m =
     (let (newResTcs, rs) = mock_buildResource res (valid_rules mock_IsValidRule rawResRules) (mget_list (km_tcMap m) res)
      in m\<lparr>km_tcMap := (if length newResTcs = 0 then mdel res (km_tcMap m) else mput res newResTcs (km_tcMap m)),
           km_currentRules := mput res (mock_put_back rawResRules rs) (km_currentRules m)\<rparr>)"

definition mock_LoadRulesOfResource :: "string \<Rightarrow> mock_rule option list \<Rightarrow> mock_manager \<Rightarrow> bool go \<times> mock_manager" where
  "mock_LoadRulesOfResource res rules m =
     (if length res = 0 then (Err ''empty resource'', m)
      else if length rules = 0 then
        (Ret True, m\<lparr>km_currentRules := mdel res (km_currentRules m), km_tcMap := mdel res (km_tcMap m)\<rparr>)
      else if mget_list (km_currentRules m) res = rules then (Ret False, m)
      else (Ret True, mock_onResourceRuleUpdate res rules m))"

definition mock_ClearRulesOfResource :: "string \<Rightarrow> mock_manager \<Rightarrow> unit go \<times> mock_manager" where
  "mock_ClearRulesOfResource res m = (let (r, m) = mock_LoadRulesOfResource res [] m in (go_bind r (\<lambda>_. Ret ()), m))"

section \<open>Requests held for reporting\<close>

definition OneResourceLimit :: nat where "OneResourceLimit = 1000"
definition OnceMaxReportLimit :: nat where "OnceMaxReportLimit = 200"

text \<open>A request that is new is appended; a list that has grown too long loses its first element, and its last ones.\<close>

definition keep_request :: "string list \<Rightarrow> string \<Rightarrow> string list" where
  "keep_request reqs request =
     (let reqs = reqs @ [request]
      in if OneResourceLimit < length reqs then take (OneResourceLimit - 1) (drop 1 reqs) else reqs)"

definition hold_request :: "string \<Rightarrow> string \<Rightarrow> mock_manager \<Rightarrow> mock_manager" where
  "hold_request res request m =
     (if hash_String request \<in> set (km_requestHash m) then m
      else m\<lparr>km_requestHash := hash_String request # km_requestHash m,
             km_cacheRequestMap := mput res (keep_request (mget_list (km_cacheRequestMap m) res) request) (km_cacheRequestMap m)\<rparr>)"

fun join_params :: "go_value list \<Rightarrow> string go" where
  "join_params [] = Ret []"
| "join_params (arg # args) =
     (case arg of VString s \<Rightarrow> go_bind (join_params args) (\<lambda>t. Ret (s @ '';'' @ t)) | _ \<Rightarrow> Panic ''interface conversion'')"

definition cacheRequest ::
  "json_env \<Rightarrow> mock_rule \<Rightarrow> resource_wrapper \<Rightarrow> sea_input \<Rightarrow> mock_manager \<Rightarrow> unit go \<times> mock_manager" where
  "cacheRequest je rule rw inp m =
     (if \<not> kr_RequestHold rule then (Ret (), m)
      else if rw_classification rw = GrayResTypeMicro then
        (case in_Args inp of
           [] \<Rightarrow> (Panic ''index out of range'', m)
         | arg # _ \<Rightarrow>
             (Ret (), if je_is_struct je arg then hold_request (rw_name rw) (je_marshal je arg) m else m))
      else if rw_classification rw = GrayResTypeWeb then
        (case join_params (in_Args inp) of
           Ret params \<Rightarrow> (Ret (), hold_request (rw_name rw) params m)
         | Err e \<Rightarrow> (Err e, m)
         | Panic p \<Rightarrow> (Panic p, m))
      else (Ret (), m))"

text \<open>The requests of a list that were not reported before, with the hashes reported so far.\<close>

fun unreported :: "string list \<Rightarrow> i64 list \<Rightarrow> string list \<times> i64 list" where
  "unreported [] hs = ([], hs)"
| "unreported (req # reqs) hs =
     (if hash_String req \<in> set hs then unreported reqs hs
      else let (rs, hs) = unreported reqs (hash_String req # hs) in (req # rs, hs))"

text \<open>The count is one of resources, not of requests.\<close>

fun report_resources ::
  "nat \<Rightarrow> (string \<times> string list) list \<Rightarrow> i64 list \<Rightarrow> (string, string list) gomap \<Rightarrow> (string, string list) gomap \<times> i64 list" where
  "report_resources count [] hs reportMap = (reportMap, hs)"
| "report_resources count ((res, reqs) # rest) hs reportMap =
     (if count < OnceMaxReportLimit then
        (let (rs, hs) = unreported reqs hs; rreqs = mget_list reportMap res @ rs
         in report_resources (Suc count) rest hs (if 0 < length rreqs then mput res rreqs reportMap else reportMap))
      else report_resources count rest hs reportMap)"

definition NeedReportRequest :: "mock_manager \<Rightarrow> (string, string list) gomap \<times> mock_manager" where
  "NeedReportRequest m =
     (let (reportMap, hs) = report_resources 0 (km_cacheRequestMap m) (km_reportedHash m) []
      in (reportMap, m\<lparr>km_reportedHash := hs\<rparr>))"

section \<open>The slot\<close>

definition mock_needs_check :: "string \<Rightarrow> mock_rule \<Rightarrow> bool" where
  "mock_needs_check FromService r \<longleftrightarrow>
     \<not> (kr_LimitApp r \<noteq> [] \<and> \<not> EqualFold_default (kr_LimitApp r) \<and>
        \<not> Contains FromService (split_on (CHR '','') (kr_LimitApp r)))"

text \<open>The answer of a controller, the waits before it in nanoseconds, and the input afterwards.\<close>

definition mock_perform ::
  "mock_env \<Rightarrow> resource_wrapper \<Rightarrow> sea_input \<Rightarrow> mock_controller \<Rightarrow> (mock_result \<times> i64 list) go \<times> sea_input" where
  "mock_perform env rw inp tc =
     (if kr_Strategy (kc_r tc) = StrategyFunc then (Ret (PerformCheckingFunc env tc), inp)
      else PerformCheckingArgs env rw inp tc)"

record mock_run =
  kx_cache :: bool
  kx_waits :: "i64 list"
  kx_input :: sea_input
  kx_manager :: mock_manager

text \<open>The loop of \<open>Check\<close>; \<open>env i\<close> is the environment of the \<open>i\<close>-th controller. The first one that is asked caches the request.\<close>

fun mock_check_all ::
  "(nat \<Rightarrow> mock_env) \<Rightarrow> string \<Rightarrow> resource_wrapper \<Rightarrow> nat \<Rightarrow> mock_controller list \<Rightarrow> mock_run \<Rightarrow> mock_result go \<times> mock_run" where
  "mock_check_all env fs rw i [] x = (Ret None, x)"
| "mock_check_all env fs rw i (tc # tcs) x =
     (if \<not> mock_needs_check fs (kc_r tc) then mock_check_all env fs rw (Suc i) tcs x
      else
        let (r, m) = (if kx_cache x then (Ret (), kx_manager x)
              else cacheRequest (me_json (env i)) (kc_r tc) rw (kx_input x) (kx_manager x));
            x = x\<lparr>kx_manager := m\<rparr>
        in case r of
             Err e \<Rightarrow> (Err e, x)
           | Panic p \<Rightarrow> (Panic p, x)
           | Ret _ \<Rightarrow>
               let x = x\<lparr>kx_cache := True\<rparr>
               in if \<not> MockCheck rw (kx_input x) tc then mock_check_all env fs rw (Suc i) tcs x
                  else case mock_perform (env i) rw (kx_input x) tc of
                      (Ret (r, waits), inp) \<Rightarrow>
                        let x = x\<lparr>kx_waits := kx_waits x @ waits, kx_input := inp\<rparr>
                        in (case r of None \<Rightarrow> mock_check_all env fs rw (Suc i) tcs x | Some r \<Rightarrow> (Ret (Some r), x))
                    | (Err e, inp) \<Rightarrow> (Err e, x\<lparr>kx_input := inp\<rparr>)
                    | (Panic p, inp) \<Rightarrow> (Panic p, x\<lparr>kx_input := inp\<rparr>))"

definition mock_Slot_Check ::
  "(nat \<Rightarrow> mock_env) \<Rightarrow> (mock_rule, go_value) entry_context \<Rightarrow> mock_manager \<Rightarrow>
   mock_result go \<times> i64 list \<times> (mock_rule, go_value) entry_context \<times> mock_manager" where
  "mock_Slot_Check env ctx m =
     (case ctx_Resource ctx of
        None \<Rightarrow> (Panic ''nil pointer dereference'', [], ctx, m)
      | Some rw \<Rightarrow>
          if length (rw_name rw) = 0 then (Ret (ctx_RuleCheckResult ctx), [], ctx, m)
          else
            let (r, x) = mock_check_all env (ctx_FromService ctx) rw 0 (mock_getTrafficControllersFor (rw_name rw) m)
                  \<lparr>kx_cache = False, kx_waits = [], kx_input = ctx_Input ctx, kx_manager = m\<rparr>
            in (go_bind r (\<lambda>r. Ret (case r of None \<Rightarrow> ctx_RuleCheckResult ctx | Some r \<Rightarrow> Some r)),
                kx_waits x, ctx\<lparr>ctx_Input := kx_input x\<rparr>, kx_manager x))"

end
