(* ===== verification/MockProps.thy ===== *)
theory MockProps
  imports MockManager
begin

text \<open>
  What mocking guarantees: the controllers in use are built from the rules they are filed under, the requests held
  for reporting are bounded, and how the conditions of an item combine. The lemmas at the end show requests and
  rules that are not handled as meant.
\<close>

section \<open>The conditions of an item\<close>

text \<open>
  When all properties named are in the request, \<open>And\<close> asks for all of the conditions that are given and \<open>Or\<close> for one.
\<close>

definition given_conditions :: "mock_item \<Rightarrow> (string \<times> string) list" where
  "given_conditions item = filter (\<lambda>(k, v). TrimSpace k \<noteq> [])
     [(ki_WhenParamKey2 item, ki_WhenParamValue2 item), (ki_WhenParamKey3 item, ki_WhenParamValue3 item)]"

lemma item_conditions_and:
  assumes "ki_ParamOP item = OpAnd" "\<forall>(k, v) \<in> set (given_conditions item). property k \<noteq> None"
  shows "item_conditions eq property item val =
    Some (eq (ki_WhenParamValue item) val \<and> (\<forall>(k, v) \<in> set (given_conditions item). eq v (the (property k))))"
  by (cases "TrimSpace (ki_WhenParamKey2 item) = []"; cases "TrimSpace (ki_WhenParamKey3 item) = []")
    (use assms in \<open>auto simp: item_conditions_def further_condition_def given_conditions_def Let_def\<close>)

lemma item_conditions_or:
  assumes "ki_ParamOP item \<noteq> OpAnd" "\<forall>(k, v) \<in> set (given_conditions item). property k \<noteq> None"
  shows "item_conditions eq property item val =
    Some (eq (ki_WhenParamValue item) val \<or> (\<exists>(k, v) \<in> set (given_conditions item). eq v (the (property k))))"
  by (cases "TrimSpace (ki_WhenParamKey2 item) = []"; cases "TrimSpace (ki_WhenParamKey3 item) = []")
    (use assms in \<open>auto simp: item_conditions_def further_condition_def given_conditions_def Let_def\<close>)

text \<open>A path that is not empty is never overrun on the way through the fields.\<close>

lemma WalkAndSet_no_index_error:
  "pos < length properties \<Longrightarrow> snd (WalkAndSet env fs pos val properties) \<noteq> Panic ''index out of range''"
proof (induction env fs pos val properties rule: WalkAndSet.induct)
  case (2 env tag v sub fs pos val properties)
  show ?case
  proof (cases "tag \<noteq> properties ! pos \<or> pos = length properties - 1")
    case True
    then show ?thesis using 2 by (auto split: option.splits prod.splits)
  next
    case False
    then have pos: "pos + 1 < length properties" "length properties \<noteq> pos" "\<not> length properties < pos" using 2(4) by auto
    show ?thesis
    proof (cases sub)
      case None
      then show ?thesis using False pos by simp
    next
      case (Some sub')
      obtain x r where x: "WalkAndSet env sub' (Suc pos) val properties = (x, r)" by fastforce
      obtain y q where y: "WalkAndSet env fs pos val properties = (y, q)" by fastforce
      have r: "r \<noteq> Panic ''index out of range''"
        using 2(2) [OF pos(3,2) _ _ Some] False pos(1) by (auto simp: x)
      show ?thesis
      proof (cases r)
        case (Ret u)
        then have "q \<noteq> Panic ''index out of range''"
          using 2(3) [OF pos(3,2) _ _ Some] False pos(1) x y by auto
        then show ?thesis using False pos Some x y Ret by simp
      qed (use False pos Some x y r in auto)
    qed
  qed
qed simp

section \<open>Controllers in use\<close>

definition mock_tc_ok :: "string \<Rightarrow> mock_controller \<Rightarrow> bool" where
  "mock_tc_ok res tc \<longleftrightarrow>
     kr_Resource (kc_r tc) = res \<and> mock_kind_of (kr_ControlBehavior (kc_r tc)) = Some (kc_kind tc) \<and>
     kr_SpecificItems (kc_r tc) = Some (kc_specificItems tc) \<and> kr_AdditionalItems (kc_r tc) = Some (kc_additionalItems tc)"

definition mock_wf :: "mock_manager \<Rightarrow> bool" where
  "mock_wf m \<longleftrightarrow> mwf (km_tcMap m) \<and> mwf (km_currentRules m) \<and> (\<forall>(res, tcs) \<in> set (km_tcMap m). \<forall>tc \<in> set tcs. mock_tc_ok res tc)"

lemma newBase_ok:
  "mock_kind_of (kr_ControlBehavior r) = Some kind \<Longrightarrow> kr_Resource r = res \<Longrightarrow> mock_tc_ok res (fst (mock_newBase kind r))"
  by (auto simp: mock_newBase_def mock_tc_ok_def slice_def Let_def)

lemma reuse_index:
  assumes "mock_calculateReuseIndexFor r olds = (e, s)"
  shows "0 \<le> e \<longrightarrow> nat e < length olds" and "0 \<le> s \<longrightarrow> nat s < length olds"
  using reuse_loop_range [OF assms [unfolded mock_calculateReuseIndexFor_def]] by auto

lemma build_ok:
  "\<forall>tc \<in> set olds. mock_tc_ok res tc \<Longrightarrow> \<forall>tc \<in> set (fst (mock_buildResource res rules olds)). mock_tc_ok res tc"
proof (induction rules arbitrary: olds)
  case (Cons rule rules)
  obtain e s where es: "mock_calculateReuseIndexFor rule olds = (e, s)" by fastforce
  have sub: "\<forall>tc \<in> set (remove_nth i olds). mock_tc_ok res tc" for i
    using Cons.prems set_remove_nth [of i olds] by blast
  show ?case
  proof (cases "res \<noteq> kr_Resource rule")
    case True
    then show ?thesis using Cons.IH [OF Cons.prems] by (simp add: split_beta)
  next
    case res: False
    show ?thesis
    proof (cases "0 \<le> e")
      case True
      then have "mock_tc_ok res (olds ! nat e)" using Cons.prems reuse_index(1) [OF es] by simp
      then show ?thesis using Cons.IH [OF sub] res es True by (simp add: split_beta)
    next
      case e: False
      show ?thesis
      proof (cases "mock_kind_of (kr_ControlBehavior rule)")
        case None
        then show ?thesis using Cons.IH [OF Cons.prems] res es e by (simp add: split_beta)
      next
        case (Some kind)
        have "\<forall>tc \<in> set (if 0 \<le> s then remove_nth (nat s) olds else olds). mock_tc_ok res tc" using sub Cons.prems by auto
        from Cons.IH [OF this] show ?thesis
          using newBase_ok [OF Some, of res] res es e Some by (simp add: split_beta)
      qed
    qed
  qed
qed simp

lemma mock_wf_get: "mock_wf m \<Longrightarrow> tc \<in> set (mget_list (km_tcMap m) res) \<Longrightarrow> mock_tc_ok res tc"
proof (cases "mget (km_tcMap m) res")
  case (Some tcs)
  assume "mock_wf m" "tc \<in> set (mget_list (km_tcMap m) res)"
  then show ?thesis using mget_in_set [OF Some] Some by (auto simp: mock_wf_def mget_list_def)
qed (simp add: mget_list_def)

lemma mock_wf_LoadRules: "mock_wf m \<Longrightarrow> mock_wf (snd (mock_LoadRules rules m))"
proof -
  assume wf: "mock_wf m"
  have "mock_wf (mock_onRuleUpdate raw m)" if raw: "mwf raw" for raw
  proof -
    have fst: "map fst (map (\<lambda>(res, tcs, rs). (res, tcs)) (map (\<lambda>(res, rules). (res, f res rules)) xs)) = map fst xs" for f :: "string \<Rightarrow> mock_rule list \<Rightarrow> mock_controller list \<times> mock_rule list" and xs
      by (simp add: split_beta)
    have "mwf (km_tcMap (mock_onRuleUpdate raw m))"
      using mwf_valid_map [OF raw, of mock_IsValidRule] by (simp add: mock_onRuleUpdate_def mwf_def Let_def fst del: map_map)
    moreover have "mwf (km_currentRules (mock_onRuleUpdate raw m))"
      using raw by (simp add: mock_onRuleUpdate_def mwf_def Let_def o_def split_beta)
    moreover have "\<forall>(res, tcs) \<in> set (km_tcMap (mock_onRuleUpdate raw m)). \<forall>tc \<in> set tcs. mock_tc_ok res tc"
    proof clarify
      fix res tcs tc assume *: "(res, tcs) \<in> set (km_tcMap (mock_onRuleUpdate raw m))" "tc \<in> set tcs"
      then obtain rules where "tcs = fst (mock_buildResource res rules (mget_list (km_tcMap m) res))"
        by (auto simp: mock_onRuleUpdate_def Let_def split_beta)
      then show "mock_tc_ok res tc" using build_ok mock_wf_get [OF wf] *(2) by blast
    qed
    ultimately show ?thesis by (simp add: mock_wf_def)
  qed
  then show ?thesis
    using wf by (auto simp: mock_LoadRules_def group_rules_mwf split: go.splits)
qed

lemma mock_wf_LoadRulesOfResource: "mock_wf m \<Longrightarrow> mock_wf (snd (mock_LoadRulesOfResource res rules m))"
proof -
  assume wf: "mock_wf m"
  then have maps: "mwf (km_tcMap m)" "mwf (km_currentRules m)"
    and tcs: "\<And>r tcs tc. (r, tcs) \<in> set (km_tcMap m) \<Longrightarrow> tc \<in> set tcs \<Longrightarrow> mock_tc_ok r tc"
    by (auto simp: mock_wf_def)
  have del: "mock_wf (m\<lparr>km_currentRules := mdel res (km_currentRules m), km_tcMap := mdel res (km_tcMap m)\<rparr>)"
    using maps tcs by (auto simp: mock_wf_def gomap.inv_del mdel_def [of res "km_tcMap m"] intro: gomap.inv_del [unfolded mdel_def])
  obtain new rs where b: "mock_buildResource res (valid_rules mock_IsValidRule rules) (mget_list (km_tcMap m) res) = (new, rs)" by fastforce
  have new: "\<forall>tc \<in> set new. mock_tc_ok res tc"
    using build_ok [of "mget_list (km_tcMap m) res" res "valid_rules mock_IsValidRule rules"] mock_wf_get [OF wf] b by auto
  have "mock_wf (mock_onResourceRuleUpdate res rules m)"
  proof (cases "length new = 0")
    case True
    then show ?thesis using maps tcs b
      by (auto simp: mock_wf_def mock_onResourceRuleUpdate_def gomap.inv_put mdel_def intro: gomap.inv_del [unfolded mdel_def])
  next
    case False
    then show ?thesis using maps tcs b new
      by (auto simp: mock_wf_def mock_onResourceRuleUpdate_def gomap.inv_put dest!: set_mput)
  qed
  then show ?thesis using wf del by (simp add: mock_LoadRulesOfResource_def)
qed

section \<open>Requests held for reporting\<close>

text \<open>No more than the limit, but a request that comes to a full list is not kept, and the oldest is lost with it.\<close>

lemma keep_request_bounded: "length reqs \<le> OneResourceLimit \<Longrightarrow> length (keep_request reqs r) \<le> OneResourceLimit"
  by (auto simp: keep_request_def OneResourceLimit_def Let_def)

lemma keep_request_full: "length reqs = OneResourceLimit \<Longrightarrow> keep_request reqs r = tl reqs"
  by (cases reqs) (simp_all add: keep_request_def OneResourceLimit_def Let_def)

section \<open>Requests and rules that are not handled as meant\<close>

text \<open>An index beyond the arguments is not skipped: the request panics. A negative one never counts from the end.\<close>

lemma index_beyond_panics:
  "args \<noteq> [] \<Longrightarrow> int (length args) \<le> sint (ki_WhenParamIdx item) \<Longrightarrow>
    index_item args (item # items) = Panic ''index out of range''"
  by (auto simp: Let_def)

lemma index_negative_skipped: "sint (ki_WhenParamIdx item) < 0 \<Longrightarrow> index_item args (item # items) = index_item args items"
  by (auto simp: Let_def)

text \<open>An empty array in the request, put into an empty array of the answer, empties the whole answer.\<close>

lemma empty_array_empties_answer:
  assumes "me_each env data path = []"
    and "me_each env (ki_ThenReturnMockData item) (takeWhile (\<lambda>r. r \<noteq> ''[*]'') (split_on (CHR ''.'') (ki_ReplaceAttribute item))) = []"
  shows "array_replace env data path item = []"
  using assms by (simp add: array_replace_def Let_def)

end
