(* ===== verification/MockRequests.thy ===== *)
theory MockRequests
  imports MockProps "HOL-Library.Multiset"
begin

text \<open>
  The requests that mocking holds for reporting, through any sequence of loads, held requests and reports: no more
  than the limit for a resource, and no request held or reported twice.
\<close>

section \<open>Lists by resource\<close>

abbreviation all_of :: "('k, 'v list) gomap \<Rightarrow> 'v list" where
  "all_of m \<equiv> concat (map snd m)"

lemma all_of_mput: "mset (all_of (mput k v m)) + mset (mget_list m k) = mset (all_of m) + mset v"
  by (induction m) (auto simp: mput_def mget_list_def mget_def)

lemma distinct_submset:
  assumes "mset xs \<subseteq># mset ys" and "distinct ys"
  shows "distinct xs"
proof -
  obtain C where "mset ys = mset xs + C" using assms(1) by (auto simp: mset_subset_eq_exists_conv)
  moreover obtain zs where "mset zs = C" using ex_mset by blast
  ultimately have "mset ys = mset (xs @ zs)" by simp
  then have "distinct (xs @ zs)" using assms(2) mset_eq_imp_distinct_iff by blast
  then show ?thesis by simp
qed

section \<open>Holding a request\<close>

text \<open>What the invariant says: bounded lists under distinct keys, no hash twice, and every held hash noted as seen.\<close>

definition held_ok :: "mock_manager \<Rightarrow> bool" where
  "held_ok m \<longleftrightarrow> mwf (km_cacheRequestMap m) \<and>
     (\<forall>(res, reqs) \<in> set (km_cacheRequestMap m). length reqs \<le> OneResourceLimit) \<and>
     distinct (map hash_String (all_of (km_cacheRequestMap m))) \<and>
     hash_String ` set (all_of (km_cacheRequestMap m)) \<subseteq> set (km_requestHash m)"

lemma keep_request_sub: "mset (keep_request reqs request) \<subseteq># mset reqs + {#request#}"
proof -
  have "mset (take n (drop k xs)) \<subseteq># mset xs" for n k and xs :: "string list"
    by (metis append_take_drop_id mset_append mset_subset_eq_add_left mset_subset_eq_add_right subset_mset.order_trans)
  from this [of "OneResourceLimit - 1" 1 "reqs @ [request]"]
  have sub: "mset (take (OneResourceLimit - 1) (drop 1 (reqs @ [request]))) \<subseteq># mset reqs + {#request#}" by (simp only: mset_append mset.simps add.right_neutral)
  show ?thesis
  proof (cases "OneResourceLimit < length (reqs @ [request])")
    case True
    then show ?thesis using sub by (simp only: keep_request_def Let_def if_True)
  next
    case False
    then have "keep_request reqs request = reqs @ [request]" by (simp only: keep_request_def Let_def if_False)
    then show ?thesis by simp
  qed
qed

lemma hold_request_ok:
  assumes "held_ok m"
  shows "held_ok (hold_request res request m)"
proof (cases "hash_String request \<in> set (km_requestHash m)")
  case False
  let ?c = "km_cacheRequestMap m"
  let ?old = "mget_list ?c res" and ?c' = "mput res (keep_request (mget_list ?c res) request) ?c"
  have ok: "mwf ?c" "\<forall>(res, reqs) \<in> set ?c. length reqs \<le> OneResourceLimit"
    "distinct (map hash_String (all_of ?c))" "hash_String ` set (all_of ?c) \<subseteq> set (km_requestHash m)"
    using assms by (simp_all add: held_ok_def)
  have "length ?old \<le> OneResourceLimit"
    using ok(2) by (cases "mget ?c res") (auto simp: mget_list_def dest: mget_in_set)
  then have len: "\<forall>(res, reqs) \<in> set ?c'. length reqs \<le> OneResourceLimit"
    using ok(2) keep_request_bounded by (auto dest!: set_mput)
  have "mset (all_of ?c') + mset ?old \<subseteq># mset (all_of ?c) + {#request#} + mset ?old"
    unfolding all_of_mput using keep_request_sub [of ?old request] by (simp add: ac_simps)
  then have sub: "mset (all_of ?c') \<subseteq># mset (request # all_of ?c)" by simp
  then have "mset (map hash_String (all_of ?c')) \<subseteq># mset (map hash_String (request # all_of ?c))"
    by (metis image_mset_subseteq_mono mset_map)
  moreover have "distinct (map hash_String (request # all_of ?c))" using ok(3,4) False by auto
  ultimately have "distinct (map hash_String (all_of ?c'))" by (rule distinct_submset)
  moreover have "hash_String ` set (all_of ?c') \<subseteq> insert (hash_String request) (set (km_requestHash m))"
    using set_mset_mono [OF sub] ok(4) by auto
  ultimately show ?thesis using False len ok(1) by (simp add: hold_request_def held_ok_def gomap.inv_put)
qed (use assms in \<open>simp add: hold_request_def\<close>)

lemma hold_request_frame:
  "km_tcMap (hold_request res request m) = km_tcMap m" "km_currentRules (hold_request res request m) = km_currentRules m"
  "km_reportedHash (hold_request res request m) = km_reportedHash m"
  by (simp_all add: hold_request_def)

lemma cacheRequest_cases: "snd (cacheRequest je rule rw inp m) = m \<or> (\<exists>request. snd (cacheRequest je rule rw inp m) = hold_request (rw_name rw) request m)"
  by (auto simp: cacheRequest_def split: list.splits go.splits)

section \<open>Reporting\<close>

lemma unreported_hashes:
  "unreported reqs hs = (rs, hs') \<Longrightarrow> distinct hs \<Longrightarrow>
    mset hs' = mset hs + mset (map hash_String rs) \<and> distinct hs' \<and> set rs \<subseteq> set reqs"
  by (induction reqs hs arbitrary: rs hs' rule: unreported.induct) (fastforce split: if_splits prod.splits)+

lemma report_resources_hashes:
  "report_resources n m hs reportMap = (reportMap', hs') \<Longrightarrow> distinct hs \<Longrightarrow>
    mset hs' + mset (map hash_String (all_of reportMap)) = mset hs + mset (map hash_String (all_of reportMap')) \<and>
    distinct hs' \<and> set (all_of reportMap') \<subseteq> set (all_of reportMap) \<union> set (all_of m)"
proof (induction n m hs reportMap arbitrary: reportMap' hs' rule: report_resources.induct)
  case (2 count res reqs rest hs reportMap)
  show ?case
  proof (cases "count < OnceMaxReportLimit")
    case False
    then show ?thesis using 2 by fastforce
  next
    case True
    obtain rs hs1 where u: "unreported reqs hs = (rs, hs1)" by fastforce
    let ?r = "mget_list reportMap res @ rs"
    let ?m = "if 0 < length ?r then mput res ?r reportMap else reportMap"
    have h: "mset hs1 = mset hs + mset (map hash_String rs)" "distinct hs1" "set rs \<subseteq> set reqs"
      using unreported_hashes [OF u 2(4)] by simp_all
    have run: "report_resources (Suc count) rest hs1 ?m = (reportMap', hs')"
      using 2(3) True by (simp add: u)
    have "mset (all_of ?m) = mset (all_of reportMap) + mset rs"
    proof (cases "0 < length ?r")
      case True
      then show ?thesis using all_of_mput [of res ?r reportMap] by (simp add: ac_simps)
    qed simp
    then have m: "mset (all_of ?m) = mset (all_of reportMap @ rs)" by simp
    have sets: "set (all_of ?m) = set (all_of reportMap) \<union> set rs"
      using mset_eq_setD [OF m] by simp
    have hm: "mset (map hash_String (all_of ?m)) = mset (map hash_String (all_of reportMap)) + mset (map hash_String rs)"
      using arg_cong [OF m, of "image_mset hash_String"] by simp
    from 2(1) [OF True refl u [symmetric] refl run h(2)] show ?thesis
      unfolding hm sets using h(1,3) by (auto simp: ac_simps)
  qed
qed simp

section \<open>Any sequence of operations\<close>

datatype mock_step =
  MockLoad "mock_rule option list"
| MockLoadOf string "mock_rule option list"
| MockHold json_env mock_rule resource_wrapper sea_input
| MockReport

text \<open>An operation, with the requests it hands over for reporting.\<close>

fun mock_do :: "mock_step \<Rightarrow> mock_manager \<Rightarrow> string list \<times> mock_manager" where
  "mock_do (MockLoad rules) m = ([], snd (mock_LoadRules rules m))"
| "mock_do (MockLoadOf res rules) m = ([], snd (mock_LoadRulesOfResource res rules m))"
| "mock_do (MockHold je rule rw inp) m = ([], snd (cacheRequest je rule rw inp m))"
| "mock_do MockReport m = (let (reportMap, m) = NeedReportRequest m in (all_of reportMap, m))"

fun mock_do_all :: "mock_step list \<Rightarrow> mock_manager \<Rightarrow> string list \<times> mock_manager" where
  "mock_do_all [] m = ([], m)"
| "mock_do_all (op # ops) m =
     (let (rs, m) = mock_do op m; (rs', m) = mock_do_all ops m in (rs @ rs', m))"

definition mock_start :: mock_manager where
  "mock_start = \<lparr>km_tcMap = [], km_currentRules = [], km_cacheRequestMap = [], km_requestHash = [], km_reportedHash = []\<rparr>"

definition mock_inv :: "mock_manager \<Rightarrow> bool" where
  "mock_inv m \<longleftrightarrow> mock_wf m \<and> held_ok m \<and> distinct (km_reportedHash m) \<and> set (km_reportedHash m) \<subseteq> set (km_requestHash m)"

lemma load_frame:
  "held_ok (snd (mock_LoadRules rules m)) = held_ok m" "held_ok (snd (mock_LoadRulesOfResource res rules m)) = held_ok m"
  "km_reportedHash (snd (mock_LoadRules rules m)) = km_reportedHash m"
  "km_reportedHash (snd (mock_LoadRulesOfResource res rules m)) = km_reportedHash m"
  "km_requestHash (snd (mock_LoadRules rules m)) = km_requestHash m"
  "km_requestHash (snd (mock_LoadRulesOfResource res rules m)) = km_requestHash m"
  by (auto simp: mock_LoadRules_def mock_LoadRulesOfResource_def mock_onRuleUpdate_def mock_onResourceRuleUpdate_def held_ok_def
      Let_def split: go.splits prod.splits)

lemma mock_do_inv:
  assumes "mock_inv m" and "mock_do op m = (rs, m')"
  shows "mock_inv m' \<and> mset (km_reportedHash m') = mset (km_reportedHash m) + mset (map hash_String rs)"
proof (cases op)
  case (MockLoad rules)
  then show ?thesis using assms by (auto simp: mock_inv_def load_frame mock_wf_LoadRules)
next
  case (MockLoadOf res rules)
  then show ?thesis using assms by (auto simp: mock_inv_def load_frame mock_wf_LoadRulesOfResource)
next
  case (MockHold je rule rw inp)
  have "mock_inv (hold_request res request m)" for res request
    using assms(1) hold_request_ok [of m res request] hold_request_frame [of res request m]
    by (auto simp: mock_inv_def mock_wf_def hold_request_def)
  then show ?thesis
    using assms MockHold cacheRequest_cases [of je rule rw inp m] hold_request_frame(3) by auto
next
  case MockReport
  obtain reportMap hs where r: "report_resources 0 (km_cacheRequestMap m) (km_reportedHash m) [] = (reportMap, hs)" by fastforce
  have d: "distinct (km_reportedHash m)" "set (km_reportedHash m) \<subseteq> set (km_requestHash m)" "held_ok m"
    using assms(1) by (simp_all add: mock_inv_def)
  have m': "rs = all_of reportMap" "m' = m\<lparr>km_reportedHash := hs\<rparr>"
    using assms(2) by (auto simp: MockReport NeedReportRequest_def r)
  have h: "mset hs = mset (km_reportedHash m) + mset (map hash_String rs)" "distinct hs" "set rs \<subseteq> set (all_of (km_cacheRequestMap m))"
    using report_resources_hashes [OF r d(1)] by (simp_all add: m'(1))
  have "set hs = set (km_reportedHash m) \<union> hash_String ` set rs"
    using arg_cong [OF h(1), of set_mset] by simp
  moreover have "hash_String ` set rs \<subseteq> set (km_requestHash m)"
    using image_mono [OF h(3), of hash_String] d(3) unfolding held_ok_def by (elim conjE) (rule subset_trans)
  ultimately have "set hs \<subseteq> set (km_requestHash m)" using d(2) by simp
  with h assms(1) show ?thesis by (auto simp: mock_inv_def m'(2) mock_wf_def held_ok_def)
qed

lemma mock_do_all_inv:
  "mock_do_all ops m = (rs, m') \<Longrightarrow> mock_inv m \<Longrightarrow>
    mock_inv m' \<and> mset (km_reportedHash m') = mset (km_reportedHash m) + mset (map hash_String rs)"
proof (induction ops arbitrary: m rs)
  case (Cons op ops)
  obtain r1 m1 where 1: "mock_do op m = (r1, m1)" by fastforce
  obtain r2 m2 where 2: "mock_do_all ops m1 = (r2, m2)" by fastforce
  note step = mock_do_inv [OF Cons.prems(2) 1]
  from Cons.prems(1) have "rs = r1 @ r2" "m2 = m'" by (simp_all add: 1 2)
  then show ?case using Cons.IH [of m1 r2] 2 step by (simp add: add.assoc)
qed simp

text \<open>
  C39: No request is reported twice, and what is held for reporting is bounded. Start with an empty manager and
  let the program load rules (all or for a resource), hold requests as the check does, and ask for reports, one
  call after the other in any order. Then all requests ever handed over for reporting differ in their hash;
  so do all requests held at the end, of which there are at most 1000 for each resource; and every controller
  in use is filed under the resource of its rule, of the kind its behaviour asks for and with the items of
  its rule.
\<close>

theorem mock_reports_once:
  assumes "mock_do_all ops mock_start = (reported, m)"
  shows "distinct (map hash_String reported) \<and>
    distinct (map hash_String (all_of (km_cacheRequestMap m))) \<and>
    (\<forall>res. length (mget_list (km_cacheRequestMap m) res) \<le> 1000) \<and>
    (\<forall>res. \<forall>tc \<in> set (mock_getTrafficControllersFor res m). kr_Resource (kc_r tc) = res \<and>
       mock_kind_of (kr_ControlBehavior (kc_r tc)) = Some (kc_kind tc) \<and>
       kr_SpecificItems (kc_r tc) = Some (kc_specificItems tc) \<and> kr_AdditionalItems (kc_r tc) = Some (kc_additionalItems tc))"
proof -
  have "mock_inv mock_start" by (simp add: mock_inv_def mock_start_def mock_wf_def held_ok_def)
  from mock_do_all_inv [OF assms this] have inv: "mock_inv m" and h: "mset (km_reportedHash m) = mset (map hash_String reported)"
    by (simp_all add: mock_start_def)
  have "distinct (map hash_String reported)"
    using inv mset_eq_imp_distinct_iff [OF h] by (simp add: mock_inv_def)
  moreover have "length (mget_list (km_cacheRequestMap m) res) \<le> 1000" for res
    using inv by (cases "mget (km_cacheRequestMap m) res")
      (auto simp: mock_inv_def held_ok_def mget_list_def OneResourceLimit_def dest: mget_in_set)
  ultimately show ?thesis
    using inv mock_wf_get by (fastforce simp: mock_inv_def held_ok_def mock_getTrafficControllersFor_def mock_tc_ok_def)
qed

text \<open>A web request comes twice and is reported once; the second report is empty.\<close>

definition demo_mock_rule :: mock_rule where
  "demo_mock_rule = \<lparr>kr_Id = [], kr_App = [], kr_RuleName = [], kr_LimitApp = [], kr_Resource = ''api'',
     kr_ControlBehavior = MockDoNothing, kr_Strategy = 0, kr_Op = 0, kr_AdditionalType = 0, kr_AdditionalItems = None,
     kr_ThenReturnMockData = [], kr_ThenReturnWaitingTimeMs = 0, kr_ThenThrowMsg = [], kr_RequestHold = True,
     kr_SpecificItems = None\<rparr>"

definition demo_mock_steps :: "mock_step list" where
  "demo_mock_steps =
     (let hold = MockHold \<lparr>je_is_struct = \<lambda>_. False, je_marshal = \<lambda>_. [], je_get = \<lambda>_ _. None, je_get_bool = \<lambda>_ _. False,
            je_get_float = \<lambda>_ _. Fin 0\<rparr> demo_mock_rule (NewResourceWrapper ''api'' GrayResTypeWeb Inbound)
            ((ctx_Input (NewPooledContext :: (unit, unit) entry_context))\<lparr>in_Args := [VString ''a'']\<rparr>)
      in [MockLoad [Some demo_mock_rule], hold, MockReport, hold, MockReport])"

theorem mock_reports_once_witness:
  "\<exists>m. mock_do_all demo_mock_steps mock_start = ([''a;''], m) \<and>
    (\<forall>tc \<in> set (mock_getTrafficControllersFor ''api'' m). kr_Resource (kc_r tc) = ''api'')"
proof -
  obtain reported m where run: "mock_do_all demo_mock_steps mock_start = (reported, m)" by fastforce
  have "fst (mock_do_all demo_mock_steps mock_start) = [''a;'']"
    by (simp add: demo_mock_steps_def Let_def split_beta mock_start_def NeedReportRequest_def cacheRequest_def hold_request_def
        keep_request_def OneResourceLimit_def OnceMaxReportLimit_def demo_mock_rule_def NewResourceWrapper_def GrayResTypeWeb_def
        GrayResTypeMicro_def mock_LoadRules_def mock_onRuleUpdate_def mget_list_def mput_def)
  then have "reported = [''a;'']" using run by simp
  with run mock_reports_once [OF run] show ?thesis by blast
qed

end
