(* ===== verification/WeightRouting.thy ===== *)
theory WeightRouting
  imports GrayProps
begin

text \<open>
  Weighted routing to the nodes of a service, \<open>core/weight_router\<close>: the rules and their manager, the precedence of
  client over server rules, and the choice of a node, with the random draw as a parameter.
\<close>

section \<open>Rules\<close>

definition DefaultWightForNormalNode :: i64 where "DefaultWightForNormalNode = 10000"
definition InitWeightRuleType :: i32 where "InitWeightRuleType = 0"
definition ClientWeightRuleType :: i32 where "ClientWeightRuleType = 1"
definition ServerWeightRuleType :: i32 where "ServerWeightRuleType = 2"

record weight_rule =
  wr_ID :: string
  wr_App :: string
  wr_ClientAppName :: string
  wr_ServerAppName :: string
  wr_ServerServiceName :: string
  wr_TargetAddress :: string
  wr_Weight :: i64
  wr_WeightRuleType :: i32

definition weight_IsValidRule :: "weight_rule option \<Rightarrow> string option" where
  "weight_IsValidRule r =
     (case r of
        None \<Rightarrow> Some ''nil weightRouter rule''
      | Some r \<Rightarrow>
          if length (wr_TargetAddress r) = 0 then Some ''empty Address of weightRouter rule''
          else if wr_Weight r <s 0 then Some ''invalid weight''
          else if wr_WeightRuleType r \<noteq> ClientWeightRuleType \<and> wr_WeightRuleType r \<noteq> ServerWeightRuleType
          then Some ''invalid weight rule type''
          else None)"

section \<open>The manager\<close>

text \<open>
  The state is the list of rules. It never is the nil slice, so loading nil (\<open>None\<close>) always counts as a
  change. What is compared with the rules to load are the valid rules kept.
\<close>

definition weight_onRuleUpdate :: "weight_rule option list \<Rightarrow> weight_rule list" where
  "weight_onRuleUpdate rawResRules = valid_rules weight_IsValidRule rawResRules"

definition weight_LoadRules :: "weight_rule option list option \<Rightarrow> weight_rule list \<Rightarrow> bool \<times> weight_rule list" where
  "weight_LoadRules rules ruleList =
     (if rules = Some (map Some ruleList) then (False, ruleList)
      else (True, weight_onRuleUpdate (slice rules)))"

definition weight_ClearRules :: "weight_rule list \<Rightarrow> weight_rule list" where
  "weight_ClearRules ruleList = snd (weight_LoadRules None ruleList)"

definition weight_getRules :: "weight_rule list \<Rightarrow> weight_rule list" where
  "weight_getRules ruleList = ruleList"

definition weight_key :: "weight_rule \<Rightarrow> string" where
  "weight_key rule = wr_ServerServiceName rule @ ''-'' @ wr_TargetAddress rule"

fun actual_rule_map :: "weight_rule list \<Rightarrow> (string, weight_rule) gomap \<Rightarrow> (string, weight_rule) gomap" where
  "actual_rule_map [] m = m"
| "actual_rule_map (rule # rules) m =
     (case mget m (weight_key rule) of
        Some actualRule \<Rightarrow>
          if wr_WeightRuleType actualRule = ClientWeightRuleType then actual_rule_map rules m
          else actual_rule_map rules (mput (weight_key rule) rule m)
      | None \<Rightarrow> actual_rule_map rules (mput (weight_key rule) rule m))"

definition GetActualRules :: "weight_rule list \<Rightarrow> weight_rule list" where
  "GetActualRules ruleList = map snd (actual_rule_map (weight_getRules ruleList) [])"

section \<open>The choice of a node\<close>

text \<open>A node is its address.\<close>

fun isWeightRuleInEffect :: "string \<Rightarrow> string \<Rightarrow> weight_rule list \<Rightarrow> i64 option" where
  "isWeightRuleInEffect address serviceName [] = None"
| "isWeightRuleInEffect address serviceName (rule # rules) =
     (if serviceName = wr_ServerServiceName rule \<and> address = wr_TargetAddress rule then Some (wr_Weight rule)
      else isWeightRuleInEffect address serviceName rules)"

definition node_weight :: "string \<Rightarrow> weight_rule list \<Rightarrow> string \<Rightarrow> i64" where
  "node_weight serviceName rules address =
     (case isWeightRuleInEffect address serviceName rules of None \<Rightarrow> DefaultWightForNormalNode | Some w \<Rightarrow> w)"

fun weight_buckets :: "i64 list \<Rightarrow> i64 \<Rightarrow> (i64 list \<times> i64) go" where
  "weight_buckets [] totalWeight = Ret ([], totalWeight)"
| "weight_buckets (weight # weights) totalWeight =
     (if 9223372036854775807 - totalWeight <s weight then Err ''total weight overflow''
      else let totalWeight = totalWeight + weight
      in go_bind (weight_buckets weights totalWeight) (\<lambda>(bs, t). Ret (totalWeight # bs, t)))"

fun first_bucket :: "i64 \<Rightarrow> nat \<Rightarrow> i64 list \<Rightarrow> nat go" where
  "first_bucket bucket i [] = Err ''totalWeight=0, rollback to random strategy''"
| "first_bucket bucket i (b # bs) = (if bucket \<le>s b then Ret i else first_bucket bucket (Suc i) bs)"

definition GetTargetIndexByWeightRule :: "i64 \<Rightarrow> string \<Rightarrow> string list \<Rightarrow> weight_rule list \<Rightarrow> nat go" where
  "GetTargetIndexByWeightRule hashVal validServiceName weightNodes weightRouterRules =
     go_bind (weight_buckets (map (node_weight validServiceName weightRouterRules) weightNodes) 0)
       (\<lambda>(weightBuckets, totalWeight).
          let bucket = (if 0 <s totalWeight
                then word_of_int (sgn (sint hashVal) * (\<bar>sint hashVal\<bar> mod \<bar>sint totalWeight\<bar>)) + 1 else 1)
          in first_bucket bucket 0 weightBuckets)"

definition GetTargetNodeByWeightRule :: "i64 \<Rightarrow> string \<Rightarrow> string list \<Rightarrow> weight_rule list \<Rightarrow> nat go" where
  "GetTargetNodeByWeightRule hashVal validServiceName weightNodes ruleList =
     GetTargetIndexByWeightRule hashVal validServiceName weightNodes (GetActualRules ruleList)"

section \<open>Precedence\<close>

text \<open>
  Under a key the first client rule wins, and without one the last server rule. Two rules may share a key though they
  differ in service and address, if these hold hyphens.
\<close>

lemma actual_rule_map_get:
  "mget (actual_rule_map rules m) k =
    (case mget m k of
       Some r \<Rightarrow> if wr_WeightRuleType r = ClientWeightRuleType then Some r
                 else (case filter (\<lambda>r. weight_key r = k \<and> wr_WeightRuleType r = ClientWeightRuleType) rules of
                         c # _ \<Rightarrow> Some c
                       | [] \<Rightarrow> Some (last (r # filter (\<lambda>r. weight_key r = k) rules)))
     | None \<Rightarrow> (case filter (\<lambda>r. weight_key r = k \<and> wr_WeightRuleType r = ClientWeightRuleType) rules of
                  c # _ \<Rightarrow> Some c
                | [] \<Rightarrow> (if filter (\<lambda>r. weight_key r = k) rules = [] then None
                         else Some (last (filter (\<lambda>r. weight_key r = k) rules)))))"
  by (induction rules m rule: actual_rule_map.induct) (auto simp: gomap_laws split: option.splits list.splits)

lemma key_collision: "weight_key (r\<lparr>wr_ServerServiceName := ''a-b'', wr_TargetAddress := ''c''\<rparr>) =
    weight_key (r\<lparr>wr_ServerServiceName := ''a'', wr_TargetAddress := ''b-c''\<rparr>)"
  by (simp add: weight_key_def)

section \<open>Exact weights\<close>

text \<open>Weights are whole numbers; their sums stay within 63 bits or the choice reports the overflow.\<close>

lemma weight_buckets_sums:
  "a + sum_list ws < 2 ^ 63 \<Longrightarrow>
    weight_buckets (map word_of_nat ws) (word_of_nat a) = Ret (map word_of_nat (psums a ws), word_of_nat (a + sum_list ws))"
proof (induction ws arbitrary: a)
  case (Cons w ws)
  have d: "sint (9223372036854775807 - word_of_nat a :: i64) = 9223372036854775807 - int a"
    using Cons.prems by (subst sint_diff_small) (simp_all add: sint_word_of_nat)
  have "\<not> (9223372036854775807 - word_of_nat a :: i64) <s word_of_nat w"
    using Cons.prems by (simp add: word_sless_alt d sint_word_of_nat)
  moreover have "weight_buckets (map word_of_nat ws) (word_of_nat (a + w)) =
      Ret (map word_of_nat (psums (a + w) ws), word_of_nat (a + w + sum_list ws))"
    by (rule Cons.IH) (use Cons.prems in simp)
  ultimately show ?case by (simp add: add.assoc)
qed simp

lemma weight_overflow:
  "a < 2 ^ 63 \<Longrightarrow> \<forall>w \<in> set ws. w < 2 ^ 63 \<Longrightarrow> 2 ^ 63 \<le> a + sum_list ws \<Longrightarrow>
    weight_buckets (map word_of_nat ws) (word_of_nat a) = Err ''total weight overflow''"
proof (induction ws arbitrary: a)
  case (Cons w ws)
  have d: "sint (9223372036854775807 - word_of_nat a :: i64) = 9223372036854775807 - int a"
    using Cons.prems by (subst sint_diff_small) (simp_all add: sint_word_of_nat)
  have c: "(9223372036854775807 - word_of_nat a :: i64) <s word_of_nat w \<longleftrightarrow> 2 ^ 63 \<le> a + w"
    using Cons.prems by (auto simp: word_sless_alt d sint_word_of_nat)
  show ?case
  proof (cases "2 ^ 63 \<le> a + w")
    case True
    then show ?thesis using c by simp
  next
    case False
    have "weight_buckets (map word_of_nat ws) (word_of_nat (a + w)) = Err ''total weight overflow''"
      by (rule Cons.IH) (use Cons.prems False in simp_all)
    then show ?thesis using c False by simp
  qed
qed simp

lemma first_bucket_share:
  "j < length ws \<Longrightarrow> a + sum_list ws < 2 ^ 63 \<Longrightarrow> a + sum_list (take j ws) < b \<Longrightarrow>
    b \<le> a + sum_list (take (Suc j) ws) \<Longrightarrow> first_bucket (word_of_nat b) i (map word_of_nat (psums a ws)) = Ret (i + j)"
proof (induction ws arbitrary: i j a)
  case (Cons w ws)
  have le: "sum_list (take (Suc j) (w # ws)) \<le> sum_list (w # ws)"
    by (rule sum_take_le)
  have small: "b < 2 ^ 63" "a + w < 2 ^ 63" using Cons.prems(2,4) le by simp_all
  have conv: "(word_of_nat b :: i64) \<le>s word_of_nat (a + w) \<longleftrightarrow> b \<le> a + w"
    using small by (simp add: word_of_nat_sle del: of_nat_add)
  show ?case
  proof (cases j)
    case 0
    then show ?thesis using Cons.prems conv by simp
  next
    case (Suc k)
    have "first_bucket (word_of_nat b) (Suc i) (map word_of_nat (psums (a + w) ws)) = Ret (Suc i + k)"
      by (rule Cons.IH) (use Cons.prems in \<open>simp_all add: Suc add.assoc\<close>)
    moreover have "\<not> b \<le> a + w" using Cons.prems(3) by (simp add: Suc)
    ultimately show ?thesis using conv by (simp add: Suc)
  qed
qed simp

lemma node_pick:
  assumes "map (node_weight svc rules) nodes = map word_of_nat ws" "sum_list ws < 2 ^ 63" "h < 2 ^ 63" "j < length ws"
    and "sum_list (take j ws) \<le> h mod sum_list ws" "h mod sum_list ws < sum_list (take (Suc j) ws)"
  shows "GetTargetIndexByWeightRule (word_of_nat h) svc nodes rules = Ret j"
proof -
  let ?T = "sum_list ws"
  have le: "sum_list (take (Suc j) ws) \<le> ?T" by (rule sum_take_le)
  have T: "0 < ?T" using assms(6) le by simp
  have b: "weight_buckets (map word_of_nat ws) 0 = Ret (map word_of_nat (psums 0 ws), word_of_nat ?T)"
    using weight_buckets_sums [of 0 ws] assms(2) by simp
  have s: "sint (word_of_nat h :: i64) = int h" "sint (word_of_nat ?T :: i64) = int ?T"
    using assms(2,3) by (simp_all add: sint_word_of_nat)
  have "sgn (int h) * (int h mod int ?T) = int (h mod ?T)" by (simp add: sgn_if zmod_int)
  then have bucket: "word_of_int (sgn (int h) * (int h mod int ?T)) + 1 = (word_of_nat (h mod ?T + 1) :: i64)" by simp
  have "first_bucket (word_of_nat (h mod ?T + 1)) 0 (map word_of_nat (psums 0 ws)) = Ret j"
    using first_bucket_share [of j ws 0 "h mod ?T + 1" 0] assms(2,4,5,6) by simp
  moreover have "(0 :: i64) <s word_of_nat ?T" using T s(2) by (simp add: word_sless_alt)
  ultimately show ?thesis
    using s bucket by (simp add: GetTargetIndexByWeightRule_def assms(1) b Let_def add.commute)
qed

lemma node_weights_exact:
  assumes "map (node_weight svc rules) nodes = map word_of_nat ws" "sum_list ws < 2 ^ 63" "i < length ws"
  shows "card {k. k < sum_list ws \<and> GetTargetIndexByWeightRule (word_of_nat k) svc nodes rules = Ret i} = ws ! i"
proof (rule share_count [OF assms(3), where g = Ret])
  show "inj_on Ret {..<length ws}" by (simp add: inj_on_def)
next
  fix k j assume j: "j < length ws" "sum_list (take j ws) \<le> k" "k < sum_list (take (Suc j) ws)"
  then have k: "k < sum_list ws" using sum_take_le [of "Suc j" ws] by simp
  have m: "k mod sum_list ws = k" using k by simp
  have "k < 2 ^ 63" using k assms(2) by linarith
  then show "GetTargetIndexByWeightRule (word_of_nat k) svc nodes rules = Ret j"
    by (intro node_pick [OF assms(1,2)]) (simp_all only: m j)
qed

section \<open>From the rules to the choice\<close>

text \<open>
  The specification: the weight the rules give to a node of a service. Of the rules for this service and
  address the first client rule counts, without one the last of them, and a node without a rule has the
  default weight.
\<close>

definition rule_weight :: "string \<Rightarrow> weight_rule list \<Rightarrow> string \<Rightarrow> i64" where
  "rule_weight svc rules address =
     (case filter (\<lambda>r. wr_ServerServiceName r = svc \<and> wr_TargetAddress r = address) rules of
        [] \<Rightarrow> 10000
      | rs \<Rightarrow> wr_Weight (case filter (\<lambda>r. wr_WeightRuleType r = ClientWeightRuleType) rs of c # _ \<Rightarrow> c | [] \<Rightarrow> last rs))"

text \<open>Keys tell services and addresses apart where the services hold no hyphen.\<close>

lemma until_hyphen: "CHR ''-'' \<notin> set s \<Longrightarrow> takeWhile (\<lambda>c. c \<noteq> CHR ''-'') (s @ CHR ''-'' # a) = s"
  by (subst takeWhile_append2) auto

lemma key_apart:
  assumes "CHR ''-'' \<notin> set s" and "CHR ''-'' \<notin> set (wr_ServerServiceName r)"
  shows "weight_key r = s @ ''-'' @ a \<longleftrightarrow> wr_ServerServiceName r = s \<and> wr_TargetAddress r = a"
proof
  assume h: "weight_key r = s @ ''-'' @ a"
  then have "takeWhile (\<lambda>c. c \<noteq> CHR ''-'') (wr_ServerServiceName r @ CHR ''-'' # wr_TargetAddress r) =
      takeWhile (\<lambda>c. c \<noteq> CHR ''-'') (s @ CHR ''-'' # a)" by (simp add: weight_key_def)
  then have "wr_ServerServiceName r = s" unfolding until_hyphen [OF assms(1)] until_hyphen [OF assms(2)] .
  with h show "wr_ServerServiceName r = s \<and> wr_TargetAddress r = a" by (simp add: weight_key_def)
qed (auto simp: weight_key_def)

lemma actual_rule_map_inv:
  assumes "mwf m" and "\<forall>(k, r) \<in> set m. k = weight_key r \<and> P r" and "\<forall>r \<in> set rules. P r"
  shows "mwf (actual_rule_map rules m) \<and> (\<forall>(k, r) \<in> set (actual_rule_map rules m). k = weight_key r \<and> P r)"
  using assms
proof (induction rules m rule: actual_rule_map.induct)
  case (2 rule rules m)
  have put: "mwf (mput (weight_key rule) rule m)"
    "\<forall>(k, r) \<in> set (mput (weight_key rule) rule m). k = weight_key r \<and> P r"
    using 2(4-6) by (auto simp: gomap.inv_put dest!: set_mput)
  show ?case
  proof (cases "mget m (weight_key rule)")
    case None
    with 2(1) [OF None put] 2(6) show ?thesis by simp
  next
    case (Some r)
    with 2(2) [OF Some _ 2(4,5)] 2(3) [OF Some _ put] 2(6) show ?thesis by simp
  qed
qed simp

lemma in_effect_lookup:
  assumes "CHR ''-'' \<notin> set svc" and "mwf m"
    and "\<forall>(k, r) \<in> set m. k = weight_key r \<and> CHR ''-'' \<notin> set (wr_ServerServiceName r)"
  shows "isWeightRuleInEffect address svc (map snd m) = map_option wr_Weight (mget m (svc @ ''-'' @ address))"
  using assms(2,3)
proof (induction m)
  case (Cons kr m)
  obtain k r where kr: "kr = (k, r)" by fastforce
  have k: "k = weight_key r" "CHR ''-'' \<notin> set (wr_ServerServiceName r)" using Cons.prems(2) by (simp_all add: kr)
  have "isWeightRuleInEffect address svc (map snd m) = map_option wr_Weight (mget m (svc @ ''-'' @ address))"
    using Cons by (simp add: mwf_def)
  then show ?case
    using key_apart [OF assms(1) k(2), of address] by (auto simp: kr k(1) mget_def)
qed simp

lemma node_weight_rules:
  assumes "CHR ''-'' \<notin> set svc" and "\<forall>r \<in> set rules. CHR ''-'' \<notin> set (wr_ServerServiceName r)"
  shows "node_weight svc (GetActualRules rules) address = rule_weight svc rules address"
proof -
  have "mwf ([] :: (string, weight_rule) gomap)" by (simp add: mwf_def)
  from actual_rule_map_inv [OF this, of "\<lambda>r. CHR ''-'' \<notin> set (wr_ServerServiceName r)" rules] assms(2)
  have effect: "isWeightRuleInEffect address svc (GetActualRules rules) =
      map_option wr_Weight (mget (actual_rule_map rules []) (svc @ ''-'' @ address))"
    unfolding GetActualRules_def weight_getRules_def by (intro in_effect_lookup [OF assms(1)]) simp_all
  define F where "F = filter (\<lambda>r. wr_ServerServiceName r = svc \<and> wr_TargetAddress r = address) rules"
  have key: "weight_key r = svc @ ''-'' @ address \<longleftrightarrow> wr_ServerServiceName r = svc \<and> wr_TargetAddress r = address"
    if "r \<in> set rules" for r using key_apart [OF assms(1)] assms(2) that by blast
  have 1: "filter (\<lambda>r. weight_key r = svc @ ''-'' @ address) rules = F"
    unfolding F_def by (rule filter_cong [OF refl]) (rule key)
  have 2: "filter (\<lambda>r. weight_key r = svc @ ''-'' @ address \<and> wr_WeightRuleType r = ClientWeightRuleType) rules =
      filter (\<lambda>r. wr_WeightRuleType r = ClientWeightRuleType) F"
    unfolding F_def filter_filter by (rule filter_cong [OF refl]) (simp only: key)
  show ?thesis
    unfolding node_weight_def rule_weight_def effect actual_rule_map_get mget_Nil option.case 1 2 F_def [symmetric]
    by (cases F; cases "filter (\<lambda>r. wr_WeightRuleType r = ClientWeightRuleType) F") (simp_all add: DefaultWightForNormalNode_def)
qed

text \<open>What a load leaves: the valid rules of the last one, whether or not it counted as a change.\<close>

definition weight_state :: "weight_rule option list option list \<Rightarrow> weight_rule list" where
  "weight_state loads = foldl (\<lambda>l rules. snd (weight_LoadRules rules l)) [] loads"

lemma valid_rules_again: "\<forall>r \<in> set l. chk (Some r) = None \<Longrightarrow> valid_rules chk (map Some l) = l"
  by (induction l) (simp_all add: valid_rules_def map_filter_simps)

lemma weight_state_valid: "\<forall>r \<in> set (weight_state loads). weight_IsValidRule (Some r) = None"
  by (induction loads rule: rev_induct)
    (auto simp: weight_state_def weight_LoadRules_def weight_onRuleUpdate_def dest: valid_rules_sound)

lemma weight_state_last: "weight_state (loads @ [Some rules]) = valid_rules weight_IsValidRule rules"
  using valid_rules_again [OF weight_state_valid [of loads]]
  by (simp add: weight_state_def weight_LoadRules_def weight_onRuleUpdate_def slice_def)

lemma no_bucket: "first_bucket 1 i (map word_of_nat (psums 0 ws)) = Err ''totalWeight=0, rollback to random strategy''"
  if "sum_list ws = 0" for ws
  using that
proof (induction ws arbitrary: i)
  case (Cons w ws)
  then show ?case by (simp add: word_sle_eq)
qed simp

text \<open>
  C38: Weighted routing follows the rules loaded last. After any loads whose services hold no hyphen, let \<open>T\<close>
  be the sum of the weights that the valid rules of the last load give to the nodes of a service - the first
  client rule of a node before its last server rule, the default weight without a rule - and below
  \<open>2 ^ 63\<close>. Of \<open>T\<close> consecutive random numbers each node gets exactly as many as its weight, a larger number
  counts like its remainder by \<open>T\<close>, and if every weight is zero the choice is left to another strategy.
\<close>

theorem weight_routing_exact:
  fixes nodes svc loads rules
  defines "choice \<equiv> \<lambda>h. GetTargetNodeByWeightRule (word_of_nat h) svc nodes (weight_state (loads @ [Some rules]))"
    and "weight \<equiv> \<lambda>address. unat (rule_weight svc (valid_rules weight_IsValidRule rules) address)"
  defines "T \<equiv> \<Sum>address \<leftarrow> nodes. weight address"
  assumes "CHR ''-'' \<notin> set svc" and "\<forall>r. Some r \<in> set rules \<longrightarrow> CHR ''-'' \<notin> set (wr_ServerServiceName r)" and "T < 2 ^ 63"
  shows "(\<forall>i < length nodes. card {k. k < T \<and> choice k = Ret i} = weight (nodes ! i)) \<and>
    (\<forall>h < 2 ^ 63. 0 < T \<longrightarrow> choice h = choice (h mod T)) \<and>
    (T = 0 \<longrightarrow> (\<forall>h. choice h = Err ''totalWeight=0, rollback to random strategy''))"
proof -
  let ?valid = "valid_rules weight_IsValidRule rules" and ?ws = "map weight nodes"
  have hyphen: "\<forall>r \<in> set ?valid. CHR ''-'' \<notin> set (wr_ServerServiceName r)"
    using assms(5) by (auto dest: valid_rules_sound)
  have ws: "map (node_weight svc (GetActualRules ?valid)) nodes = map word_of_nat ?ws"
    by (simp add: weight_def node_weight_rules [OF assms(4) hyphen])
  have T: "sum_list ?ws = T" by (simp add: T_def)
  have c: "choice h = GetTargetIndexByWeightRule (word_of_nat h) svc nodes (GetActualRules ?valid)" for h
    by (simp add: choice_def weight_state_last GetTargetNodeByWeightRule_def)
  have "card {k. k < T \<and> choice k = Ret i} = weight (nodes ! i)" if "i < length nodes" for i
    using node_weights_exact [OF ws, of i] that assms(6) by (simp add: T c)
  moreover have "choice h = choice (h mod T)" if h: "h < 2 ^ 63" "0 < T" for h
  proof -
    obtain j where j: "j < length ?ws" "sum_list (take j ?ws) \<le> h mod T" "h mod T < sum_list (take (Suc j) ?ws)"
      using share_of [of "h mod T" ?ws] h(2) by (auto simp: T)
    have "h mod T < 2 ^ 63" using h(1) by (metis le_less_trans mod_less_eq_dividend)
    then show ?thesis
      using node_pick [OF ws _ h(1) j(1)] node_pick [OF ws _ _ j(1), of "h mod T"] j(2,3) assms(6) by (simp add: T c)
  qed
  moreover have "choice h = Err ''totalWeight=0, rollback to random strategy''" if "T = 0" for h
    using weight_buckets_sums [of 0 ?ws] no_bucket [of ?ws 0] that
    unfolding c GetTargetIndexByWeightRule_def ws T by simp
  ultimately show ?thesis by blast
qed

definition demo_weight_rule :: "string \<Rightarrow> i64 \<Rightarrow> i32 \<Rightarrow> weight_rule option" where
  "demo_weight_rule address weight type = Some \<lparr>wr_ID = [], wr_App = [], wr_ClientAppName = [], wr_ServerAppName = [],
     wr_ServerServiceName = ''svc'', wr_TargetAddress = address, wr_Weight = weight, wr_WeightRuleType = type\<rparr>"

text \<open>A server rule gives \<open>a\<close> ten of a hundred, a client rule changes this to thirty.\<close>

theorem weight_routing_exact_witness:
  "card {k. k < 100 \<and> GetTargetNodeByWeightRule (word_of_nat k) ''svc'' [''a'', ''b'']
      (weight_state ([] @ [Some [demo_weight_rule ''a'' 10 2, demo_weight_rule ''a'' 30 1, demo_weight_rule ''b'' 70 2]])) = Ret 0} = 30"
proof -
  let ?rules = "[demo_weight_rule ''a'' 10 2, demo_weight_rule ''a'' 30 1, demo_weight_rule ''b'' 70 2]"
  have w: "rule_weight ''svc'' (valid_rules weight_IsValidRule ?rules) ''a'' = 30"
    "rule_weight ''svc'' (valid_rules weight_IsValidRule ?rules) ''b'' = 70"
    by (simp_all add: rule_weight_def valid_rules_def map_filter_simps weight_IsValidRule_def demo_weight_rule_def
        ClientWeightRuleType_def ServerWeightRuleType_def word_sless_alt)
  have "\<forall>i < length [''a'', ''b'']. card {k. k < (\<Sum>address \<leftarrow> [''a'', ''b''].
        unat (rule_weight ''svc'' (valid_rules weight_IsValidRule ?rules) address)) \<and>
      GetTargetNodeByWeightRule (word_of_nat k) ''svc'' [''a'', ''b''] (weight_state ([] @ [Some ?rules])) = Ret i} =
    unat (rule_weight ''svc'' (valid_rules weight_IsValidRule ?rules) ([''a'', ''b''] ! i))"
    by (rule weight_routing_exact [THEN conjunct1]) (auto simp: w, auto simp: demo_weight_rule_def)
  from this [rule_format, of 0] show ?thesis by (simp add: w)
qed

end
