(* ===== verification/SlotRun.thy ===== *)
theory SlotRun
  imports SlotChain
begin

text \<open>
  The order in which a chain calls its slots: slots that record their calls, chains built by any sequence
  of the \<open>Add\<close> methods, and the calls of one \<open>Entry\<close> and of the exit.
\<close>

section \<open>Chains that record what they run\<close>

text \<open>
  To say which slots a chain runs, its slots record themselves: a recorded slot behaves like the slot it is
  made from and appends the call to a list in the shared state. A call of a check or a router notes
  whether it blocked, that of a blocked statistic the block error it was given.
\<close>

datatype ('h, 'r, 's, 'w) slot_call =
  DidPrepare "('h, 'r, 's, 'w) stat_prepare_slot"
| DidCheck "('h, 'r, 's, 'w) rule_check_slot" bool
| DidRoute "('h, 'r, 's, 'w) router_slot" bool
| DidPass "('h, 'r, 's, 'w) stat_slot"
| DidBlock "('h, 'r, 's, 'w) stat_slot" "('r, 's) block_error option"
| DidComplete "('h, 'r, 's, 'w) stat_slot"

type_synonym ('h, 'r, 's, 'w) recording = "'w \<times> ('h, 'r, 's, 'w) slot_call list"

abbreviation calls :: "('h, 'r, 's, ('h, 'r, 's, 'w) recording) run_state \<Rightarrow> ('h, 'r, 's, 'w) slot_call list" where
  "calls st \<equiv> snd (rs_world st)"

abbreviation result :: "('h, 'r, 's, 'w) run_state \<Rightarrow> ('r, 's) token_result option" where
  "result st \<equiv> ctx_RuleCheckResult (rs_ctx st)"

definition plain_state :: "('h, 'r, 's, ('h, 'r, 's, 'w) recording) run_state \<Rightarrow> ('h, 'r, 's, 'w) run_state" where
  "plain_state st = \<lparr>rs_ctx = rs_ctx st, rs_handlers = rs_handlers st, rs_world = fst (rs_world st)\<rparr>"

definition recorded :: "('a \<Rightarrow> ('h, 'r, 's, 'w) slot_call) \<Rightarrow> ('a, 'h, 'r, 's, 'w) slot_proc \<Rightarrow>
    ('a, 'h, 'r, 's, ('h, 'r, 's, 'w) recording) slot_proc" where
  "recorded call f st =
     (let (r, st1) = f (plain_state st);
          made = (case r of Ret a \<Rightarrow> [call a] | _ \<Rightarrow> [])
      in (r, \<lparr>rs_ctx = rs_ctx st1, rs_handlers = rs_handlers st1, rs_world = (rs_world st1, calls st @ made)\<rparr>))"

definition blocks :: "('r, 's) token_result option \<Rightarrow> bool" where
  "blocks r \<longleftrightarrow> (case r of None \<Rightarrow> False | Some q \<Rightarrow> tr_IsBlocked q)"

definition rec_prepare :: "('h, 'r, 's, 'w) stat_prepare_slot \<Rightarrow> ('h, 'r, 's, ('h, 'r, 's, 'w) recording) stat_prepare_slot" where
  "rec_prepare p = \<lparr>prepare_Order = prepare_Order p, Prepare = recorded (\<lambda>_. DidPrepare p) (Prepare p)\<rparr>"

definition rec_check :: "('h, 'r, 's, 'w) rule_check_slot \<Rightarrow> ('h, 'r, 's, ('h, 'r, 's, 'w) recording) rule_check_slot" where
  "rec_check c = \<lparr>check_Order = check_Order c, Check = recorded (\<lambda>r. DidCheck c (blocks r)) (Check c)\<rparr>"

definition rec_router :: "('h, 'r, 's, 'w) router_slot \<Rightarrow> ('h, 'r, 's, ('h, 'r, 's, 'w) recording) router_slot" where
  "rec_router s = \<lparr>router_Order = router_Order s, Router = recorded (\<lambda>r. DidRoute s (blocks r)) (Router s)\<rparr>"

definition rec_stat :: "('h, 'r, 's, 'w) stat_slot \<Rightarrow> ('h, 'r, 's, ('h, 'r, 's, 'w) recording) stat_slot" where
  "rec_stat s = \<lparr>stat_Order = stat_Order s, OnEntryPassed = recorded (\<lambda>_. DidPass s) (OnEntryPassed s),
     OnEntryBlocked = (\<lambda>be. recorded (\<lambda>_. DidBlock s be) (OnEntryBlocked s be)),
     OnCompleted = recorded (\<lambda>_. DidComplete s) (OnCompleted s)\<rparr>"

text \<open>The calls of the four \<open>Add\<close> methods, in any order.\<close>

datatype ('h, 'r, 's, 'w) slot_add =
  AddPrepare "('h, 'r, 's, 'w) stat_prepare_slot"
| AddCheck "('h, 'r, 's, 'w) rule_check_slot"
| AddRouter "('h, 'r, 's, 'w) router_slot"
| AddStat "('h, 'r, 's, 'w) stat_slot"

fun add_recorded :: "('h, 'r, 's, ('h, 'r, 's, 'w) recording) slot_chain \<Rightarrow> ('h, 'r, 's, 'w) slot_add \<Rightarrow> ('h, 'r, 's, ('h, 'r, 's, 'w) recording) slot_chain" where
  "add_recorded sc (AddPrepare p) = AddStatPrepareSlot (rec_prepare p) sc"
| "add_recorded sc (AddCheck c) = AddRuleCheckSlot (rec_check c) sc"
| "add_recorded sc (AddRouter s) = AddRouterSlot (rec_router s) sc"
| "add_recorded sc (AddStat s) = AddStatSlot (rec_stat s) sc"

fun added_prepares :: "('h, 'r, 's, 'w) slot_add list \<Rightarrow> ('h, 'r, 's, 'w) stat_prepare_slot list" where
  "added_prepares [] = []"
| "added_prepares (AddPrepare p # as) = p # added_prepares as"
| "added_prepares (_ # as) = added_prepares as"

fun added_checks :: "('h, 'r, 's, 'w) slot_add list \<Rightarrow> ('h, 'r, 's, 'w) rule_check_slot list" where
  "added_checks [] = []"
| "added_checks (AddCheck c # as) = c # added_checks as"
| "added_checks (_ # as) = added_checks as"

fun added_routers :: "('h, 'r, 's, 'w) slot_add list \<Rightarrow> ('h, 'r, 's, 'w) router_slot list" where
  "added_routers [] = []"
| "added_routers (AddRouter s # as) = s # added_routers as"
| "added_routers (_ # as) = added_routers as"

fun added_stats :: "('h, 'r, 's, 'w) slot_add list \<Rightarrow> ('h, 'r, 's, 'w) stat_slot list" where
  "added_stats [] = []"
| "added_stats (AddStat s # as) = s # added_stats as"
| "added_stats (_ # as) = added_stats as"

lemma insort_key_map_key: "insort_key f (g x) (map g xs) = map g (insort_key (\<lambda>x. f (g x)) x xs)"
  by (induction xs) auto

lemma sort_key_map_key: "sort_key f (map g xs) = map g (sort_key (\<lambda>x. f (g x)) xs)"
  by (induction xs) (simp_all add: insort_key_map_key)

lemma rec_orders [simp]:
  "prepare_Order (rec_prepare p) = prepare_Order p" "check_Order (rec_check c) = check_Order c"
  "router_Order (rec_router r) = router_Order r" "stat_Order (rec_stat s) = stat_Order s"
  by (simp_all add: rec_prepare_def rec_check_def rec_router_def rec_stat_def)

lemma added_chain:
  fixes as :: "('h, 'r, 's, 'w) slot_add list"
  defines "sc \<equiv> foldl add_recorded NewSlotChain as"
  shows "statPres sc = map rec_prepare (sort_key prepare_Order (added_prepares as))"
    and "ruleChecks sc = map rec_check (sort_key check_Order (added_checks as))"
    and "routers sc = map rec_router (sort_key router_Order (added_routers as))"
    and "stats sc = map rec_stat (sort_key stat_Order (added_stats as))"
proof -
  let ?add = "\<lambda>f xs x. sort_key f (xs @ [x])"
  have 1: "statPres (foldl add_recorded sc as) = foldl (?add prepare_Order) (statPres sc) (map rec_prepare (added_prepares as)) \<and>
    ruleChecks (foldl add_recorded sc as) = foldl (?add check_Order) (ruleChecks sc) (map rec_check (added_checks as)) \<and>
    routers (foldl add_recorded sc as) = foldl (?add router_Order) (routers sc) (map rec_router (added_routers as)) \<and>
    stats (foldl add_recorded sc as) = foldl (?add stat_Order) (stats sc) (map rec_stat (added_stats as))" for sc
  proof (induction as arbitrary: sc)
    case (Cons a as)
    show ?case
      by (cases a) (simp_all add: Cons.IH AddStatPrepareSlot_def AddRuleCheckSlot_def AddRouterSlot_def AddStatSlot_def)
  qed simp
  show "statPres sc = map rec_prepare (sort_key prepare_Order (added_prepares as))"
    and "ruleChecks sc = map rec_check (sort_key check_Order (added_checks as))"
    and "routers sc = map rec_router (sort_key router_Order (added_routers as))"
    and "stats sc = map rec_stat (sort_key stat_Order (added_stats as))"
    unfolding sc_def by (simp_all add: 1 sort_key_folded sort_key_map_key)
qed

section \<open>A run of the chain\<close>

text \<open>
  Slots that return: preparing and checking may do anything to the context but lose its result; routing and
  the statistics leave the result alone, routers answer through what they return.
\<close>

definition keeps_result :: "bool \<Rightarrow> ('a, 'h, 'r, 's, 'w) slot_proc \<Rightarrow> bool" where
  "keeps_result same f \<longleftrightarrow> (\<forall>st. result st \<noteq> None \<longrightarrow>
     (\<exists>a st'. f st = (Ret a, st') \<and> result st' \<noteq> None \<and> (same \<longrightarrow> result st' = result st)))"

fun returning :: "('h, 'r, 's, 'w) slot_add \<Rightarrow> bool" where
  "returning (AddPrepare p) = keeps_result False (Prepare p)"
| "returning (AddCheck c) = keeps_result False (Check c)"
| "returning (AddRouter s) = keeps_result True (Router s)"
| "returning (AddStat s) = (keeps_result True (OnEntryPassed s) \<and> (\<forall>be. keeps_result True (OnEntryBlocked s be)) \<and>
     keeps_result True (OnCompleted s))"

lemma recorded_call:
  assumes "keeps_result same f" and "result st \<noteq> None"
  obtains a st' where "recorded call f st = (Ret a, st')" and "result st' \<noteq> None"
    and "same \<Longrightarrow> result st' = result st" and "calls st' = calls st @ [call a]"
proof -
  have "result (plain_state st) \<noteq> None" using assms(2) by (simp add: plain_state_def)
  then obtain a st1 where "f (plain_state st) = (Ret a, st1)" "result st1 \<noteq> None"
    "same \<Longrightarrow> result st1 = result (plain_state st)"
    using assms(1) unfolding keeps_result_def by blast
  then show thesis
    by (intro that [of a "\<lparr>rs_ctx = rs_ctx st1, rs_handlers = rs_handlers st1, rs_world = (rs_world st1, calls st @ [call a])\<rparr>"])
      (auto simp: recorded_def plain_state_def)
qed

text \<open>A loop over slots that ends at the first one that blocks.\<close>

definition stops_at_block :: "('x \<Rightarrow> bool \<Rightarrow> 'c) \<Rightarrow> 'x list \<Rightarrow> 'c list \<Rightarrow> bool \<Rightarrow> bool" where
  "stops_at_block call xs cs blocked \<longleftrightarrow>
     (if blocked then \<exists>ys x zs. xs = ys @ x # zs \<and> cs = map (\<lambda>y. call y False) ys @ [call x True]
      else cs = map (\<lambda>y. call y False) xs)"

lemma stops_at_block_simps:
  "stops_at_block call [] cs blocked \<longleftrightarrow> cs = [] \<and> \<not> blocked"
  "stops_at_block call (x # xs) [call x True] True"
  "stops_at_block call xs cs blocked \<Longrightarrow> stops_at_block call (x # xs) (call x False # cs) blocked"
proof -
  show "stops_at_block call (x # xs) (call x False # cs) blocked" if h: "stops_at_block call xs cs blocked"
  proof (cases blocked)
    case True
    with h obtain ys y zs where "xs = ys @ y # zs" "cs = map (\<lambda>y. call y False) ys @ [call y True]"
      by (auto simp: stops_at_block_def)
    then have "x # xs = (x # ys) @ y # zs \<and> call x False # cs = map (\<lambda>y. call y False) (x # ys) @ [call y True]" by simp
    with True show ?thesis unfolding stops_at_block_def by (simp only: if_True) blast
  qed (use h in \<open>simp add: stops_at_block_def\<close>)
  show "stops_at_block call (x # xs) [call x True] True"
    by (auto simp: stops_at_block_def intro!: exI [of _ "[]"])
qed (auto simp: stops_at_block_def)

text \<open>The four loops over recorded slots.\<close>

lemma run_prepares_calls:
  assumes "\<forall>p \<in> set ps. keeps_result False (Prepare p)" and "result st \<noteq> None"
  shows "\<exists>st'. run_prepares (map rec_prepare ps) st = (Ret (), st') \<and> result st' \<noteq> None \<and>
    calls st' = calls st @ map DidPrepare ps"
  using assms
proof (induction ps arbitrary: st)
  case Nil
  then show ?case by (simp add: proc_ret_def)
next
  case (Cons p ps)
  then have "keeps_result False (Prepare p)" by simp
  from recorded_call [OF this Cons.prems(2), of "\<lambda>_. DidPrepare p"] obtain a st1
    where 1: "recorded (\<lambda>_. DidPrepare p) (Prepare p) st = (Ret a, st1)" "result st1 \<noteq> None"
      "calls st1 = calls st @ [DidPrepare p]" by metis
  obtain st' where "run_prepares (map rec_prepare ps) st1 = (Ret (), st')" "result st' \<noteq> None"
    "calls st' = calls st1 @ map DidPrepare ps" using Cons.IH [OF _ 1(2)] Cons.prems(1) by auto
  then show ?case by (simp add: rec_prepare_def [of p] proc_bind_def 1)
qed

lemma run_checks_calls:
  assumes "\<forall>c \<in> set cs. keeps_result False (Check c)" and "result st \<noteq> None"
  shows "\<exists>r st' ds. run_checks (map rec_check cs) st = (Ret r, st') \<and> result st' \<noteq> None \<and>
    calls st' = calls st @ ds \<and> stops_at_block DidCheck cs ds (r \<noteq> None) \<and> (\<forall>q. r = Some q \<longrightarrow> tr_IsBlocked q)"
  using assms
proof (induction cs arbitrary: st)
  case Nil
  then show ?case by (simp add: proc_ret_def stops_at_block_simps(1))
next
  case (Cons c cs)
  then have "keeps_result False (Check c)" by simp
  from recorded_call [OF this Cons.prems(2), of "\<lambda>r. DidCheck c (blocks r)"] obtain r st1
    where 1: "recorded (\<lambda>r. DidCheck c (blocks r)) (Check c) st = (Ret r, st1)" "result st1 \<noteq> None"
      "calls st1 = calls st @ [DidCheck c (blocks r)]" by metis
  show ?case
  proof (cases "blocks r")
    case True
    then obtain q where "r = Some q" "tr_IsBlocked q" by (auto simp: blocks_def split: option.splits)
    with 1 True show ?thesis
      using stops_at_block_simps(2) [of DidCheck c cs]
      by (simp add: rec_check_def [of c] proc_bind_def proc_ret_def)
  next
    case False
    have step: "run_checks (map rec_check (c # cs)) st = run_checks (map rec_check cs) st1"
      using False by (cases r) (simp_all add: rec_check_def [of c] proc_bind_def 1(1), simp_all add: blocks_def)
    obtain r' st' ds where "run_checks (map rec_check cs) st1 = (Ret r', st')" "result st' \<noteq> None"
      "calls st' = calls st1 @ ds" "stops_at_block DidCheck cs ds (r' \<noteq> None)" "\<forall>q. r' = Some q \<longrightarrow> tr_IsBlocked q"
      using Cons.IH [OF _ 1(2)] Cons.prems(1) by auto
    then show ?thesis
      unfolding step using False stops_at_block_simps(3) [of DidCheck cs ds "r' \<noteq> None" c]
      by (intro exI [of _ r'] exI [of _ st'] exI [of _ "DidCheck c False # ds"]) (simp add: 1)
  qed
qed

lemma store_check_result:
  assumes "result st \<noteq> None" and "\<forall>q. r = Some q \<longrightarrow> tr_IsBlocked q"
  shows "\<exists>st' q. store_check r st = (Ret (), st') \<and> result st' = Some q \<and> tr_IsBlocked q = (r \<noteq> None) \<and>
    calls st' = calls st"
  using assms by (cases r) (auto simp: store_check_def proc_bind_def get_result_def put_result_def result_simps)

lemma run_routers_calls:
  assumes "\<forall>s \<in> set rs. keeps_result True (Router s)" and "result st = Some q"
  shows "\<exists>st' q' ds b. run_routers (map rec_router rs) st = (Ret (), st') \<and> result st' = Some q' \<and>
    calls st' = calls st @ ds \<and> stops_at_block DidRoute rs ds b \<and> tr_IsBlocked q' = (tr_IsBlocked q \<or> b)"
  using assms
proof (induction rs arbitrary: st q)
  case Nil
  then show ?case by (auto simp: proc_ret_def stops_at_block_simps(1) intro: exI [of _ False])
next
  case (Cons s rs)
  have "keeps_result True (Router s)" "result st \<noteq> None" using Cons.prems by simp_all
  from recorded_call [OF this, of "\<lambda>r. DidRoute s (blocks r)"] obtain r st1
    where 1: "recorded (\<lambda>r. DidRoute s (blocks r)) (Router s) st = (Ret r, st1)" "result st1 = Some q"
      "calls st1 = calls st @ [DidRoute s (blocks r)]" using Cons.prems(2) by metis
  show ?case
  proof (cases "blocks r")
    case True
    then obtain q' where "r = Some q'" "tr_IsBlocked q'" by (auto simp: blocks_def split: option.splits)
    with 1 True show ?thesis
      using stops_at_block_simps(2) [of DidRoute s rs]
      by (force simp: rec_router_def [of s] proc_bind_def get_result_def put_result_def tr_IsBlocked_def)
  next
    case False
    have "\<exists>st2 q2. run_routers (map rec_router (s # rs)) st = run_routers (map rec_router rs) st2 \<and>
        result st2 = Some q2 \<and> tr_IsBlocked q2 = tr_IsBlocked q \<and> calls st2 = calls st1"
    proof (cases r)
      case (Some q')
      then have "\<not> tr_IsBlocked q'" using False by (simp add: blocks_def)
      with Some 1(1,2) show ?thesis
        by (force simp: rec_router_def [of s] proc_bind_def get_result_def put_result_def tr_IsBlocked_def)
    qed (use 1 in \<open>auto simp: rec_router_def [of s] proc_bind_def\<close>)
    then obtain st2 q2 where 2: "run_routers (map rec_router (s # rs)) st = run_routers (map rec_router rs) st2"
      "result st2 = Some q2" "tr_IsBlocked q2 = tr_IsBlocked q" "calls st2 = calls st1" by blast
    obtain st' q' ds b where "run_routers (map rec_router rs) st2 = (Ret (), st')" "result st' = Some q'"
      "calls st' = calls st2 @ ds" "stops_at_block DidRoute rs ds b" "tr_IsBlocked q' = (tr_IsBlocked q2 \<or> b)"
      using Cons.IH [OF _ 2(2)] Cons.prems(1) by auto
    then show ?thesis
      unfolding 2(1) using False stops_at_block_simps(3) [of DidRoute rs ds b s]
      by (intro exI [of _ st'] exI [of _ q'] exI [of _ "DidRoute s False # ds"] exI [of _ b]) (simp add: 1 2)
  qed
qed

lemma run_stats_calls:
  assumes "\<forall>s \<in> set ss. keeps_result True (OnEntryPassed s) \<and> (\<forall>be. keeps_result True (OnEntryBlocked s be))"
    and "result st = Some q"
  shows "\<exists>st'. run_stats (map rec_stat ss) st = (Ret (), st') \<and> result st' = Some q \<and>
    calls st' = calls st @ map (\<lambda>s. if tr_IsBlocked q then DidBlock s (tr_blockErr q) else DidPass s) ss"
  using assms
proof (induction ss arbitrary: st)
  case Nil
  then show ?case by (simp add: proc_ret_def)
next
  case (Cons s ss)
  let ?f = "if \<not> tr_IsBlocked q then OnEntryPassed s else OnEntryBlocked s (tr_blockErr q)"
  let ?d = "if tr_IsBlocked q then DidBlock s (tr_blockErr q) else DidPass s"
  have "keeps_result True ?f" "result st \<noteq> None" using Cons.prems by simp_all
  from recorded_call [OF this, of "\<lambda>_. ?d"] obtain a st1
    where 1: "recorded (\<lambda>_. ?d) ?f st = (Ret a, st1)" "result st1 = Some q" "calls st1 = calls st @ [?d]"
    using Cons.prems(2) by metis
  have "(if \<not> tr_IsBlocked q then OnEntryPassed (rec_stat s) else OnEntryBlocked (rec_stat s) (tr_blockErr q)) =
      recorded (\<lambda>_. ?d) ?f" by (simp add: rec_stat_def)
  then have step: "run_stats (map rec_stat (s # ss)) st = run_stats (map rec_stat ss) st1"
    using Cons.prems(2) 1(1) by (simp add: proc_bind_def get_result_def)
  show ?case
    unfolding step using Cons.IH [OF _ 1(2)] Cons.prems(1) 1(3) by auto
qed

lemma run_completed_calls:
  assumes "\<forall>s \<in> set ss. keeps_result True (OnCompleted s)" and "result st \<noteq> None"
  shows "\<exists>st'. run_completed (map rec_stat ss) st = (Ret (), st') \<and> calls st' = calls st @ map DidComplete ss"
  using assms
proof (induction ss arbitrary: st)
  case Nil
  then show ?case by (simp add: proc_ret_def)
next
  case (Cons s ss)
  then have "keeps_result True (OnCompleted s)" by simp
  from recorded_call [OF this Cons.prems(2), of "\<lambda>_. DidComplete s"] obtain a st1
    where 1: "recorded (\<lambda>_. DidComplete s) (OnCompleted s) st = (Ret a, st1)" "result st1 \<noteq> None"
      "calls st1 = calls st @ [DidComplete s]" by metis
  obtain st' where "run_completed (map rec_stat ss) st1 = (Ret (), st')"
    "calls st' = calls st1 @ map DidComplete ss" using Cons.IH [OF _ 1(2)] Cons.prems(1) by auto
  then show ?case by (simp add: rec_stat_def [of s] proc_bind_def 1)
qed

lemma returning_added:
  assumes "\<forall>a \<in> set as. returning a"
  shows "\<forall>p \<in> set (added_prepares as). keeps_result False (Prepare p)"
    and "\<forall>c \<in> set (added_checks as). keeps_result False (Check c)"
    and "\<forall>s \<in> set (added_routers as). keeps_result True (Router s)"
    and "\<forall>s \<in> set (added_stats as). keeps_result True (OnEntryPassed s) \<and>
      (\<forall>be. keeps_result True (OnEntryBlocked s be)) \<and> keeps_result True (OnCompleted s)"
proof -
  show "\<forall>p \<in> set (added_prepares as). keeps_result False (Prepare p)"
    using assms by (induction as rule: added_prepares.induct) auto
  show "\<forall>c \<in> set (added_checks as). keeps_result False (Check c)"
    using assms by (induction as rule: added_checks.induct) auto
  show "\<forall>s \<in> set (added_routers as). keeps_result True (Router s)"
    using assms by (induction as rule: added_routers.induct) auto
  show "\<forall>s \<in> set (added_stats as). keeps_result True (OnEntryPassed s) \<and>
      (\<forall>be. keeps_result True (OnEntryBlocked s be)) \<and> keeps_result True (OnCompleted s)"
    using assms by (induction as rule: added_stats.induct) auto
qed

text \<open>
  C17: However slots of the four kinds are added, an entry runs them in ascending order, those of equal
  order in the order they were added. If the slots return (rather than panic), keep the result of the
  context, and those that route and record leave it as it is, then the entry returns a result, and its
  calls are: every preparing slot; the check slots up to the first that blocks; the routers up to the
  first that blocks; and every statistic slot, with the block error if a check or a router blocked and as
  passed otherwise. The exit of an entry that was not blocked completes every statistic slot in the same
  order, that of a blocked one calls nothing.
\<close>

theorem slots_in_order:
  fixes as :: "('h, 'r, 's, 'w) slot_add list"
  assumes "\<forall>a \<in> set as. returning a" and "result st \<noteq> None" and "ctx_entry (rs_ctx st2) \<noteq> None" and "result st2 \<noteq> None"
  defines "sc \<equiv> foldl add_recorded NewSlotChain as"
    and "ps \<equiv> sort_key prepare_Order (added_prepares as)" and "cs \<equiv> sort_key check_Order (added_checks as)"
    and "rs \<equiv> sort_key router_Order (added_routers as)" and "ss \<equiv> sort_key stat_Order (added_stats as)"
  shows "(\<exists>q st' checked routed cb rb.
      chain_Entry sc st = (Some q, st') \<and> result st' = Some q \<and> tr_IsBlocked q = (cb \<or> rb) \<and>
      stops_at_block DidCheck cs checked cb \<and> stops_at_block DidRoute rs routed rb \<and>
      calls st' = calls st @ map DidPrepare ps @ checked @ routed @
        map (\<lambda>s. if tr_IsBlocked q then DidBlock s (tr_blockErr q) else DidPass s) ss) \<and>
    (\<exists>st'. chain_exit sc st2 = (Ret (), st') \<and>
      calls st' = calls st2 @ (if ctx_IsBlocked (rs_ctx st2) then [] else map DidComplete ss))"
proof (rule conjI)
  note ret = returning_added [OF assms(1)]
  have ps: "\<forall>p \<in> set ps. keeps_result False (Prepare p)" and cs: "\<forall>c \<in> set cs. keeps_result False (Check c)"
    and rs: "\<forall>s \<in> set rs. keeps_result True (Router s)"
    and ss: "\<forall>s \<in> set ss. keeps_result True (OnEntryPassed s) \<and> (\<forall>be. keeps_result True (OnEntryBlocked s be))"
    and fin: "\<forall>s \<in> set ss. keeps_result True (OnCompleted s)"
    using ret by (simp_all add: ps_def cs_def rs_def ss_def)
  note slots = added_chain [of as, folded sc_def ps_def cs_def rs_def ss_def]
  obtain st1 where 1: "run_prepares (map rec_prepare ps) st = (Ret (), st1)" "result st1 \<noteq> None"
    "calls st1 = calls st @ map DidPrepare ps" using run_prepares_calls [OF ps assms(2)] by blast
  obtain r st3 checked where 3: "run_checks (map rec_check cs) st1 = (Ret r, st3)" "result st3 \<noteq> None"
    "calls st3 = calls st1 @ checked" "stops_at_block DidCheck cs checked (r \<noteq> None)"
    "\<forall>q. r = Some q \<longrightarrow> tr_IsBlocked q" using run_checks_calls [OF cs 1(2)] by blast
  obtain st4 q4 where 4: "store_check r st3 = (Ret (), st4)" "result st4 = Some q4"
    "tr_IsBlocked q4 = (r \<noteq> None)" "calls st4 = calls st3" using store_check_result [OF 3(2,5)] by blast
  obtain st5 q routed rb where 5: "run_routers (map rec_router rs) st4 = (Ret (), st5)" "result st5 = Some q"
    "calls st5 = calls st4 @ routed" "stops_at_block DidRoute rs routed rb"
    "tr_IsBlocked q = (tr_IsBlocked q4 \<or> rb)" using run_routers_calls [OF rs 4(2)] by blast
  obtain st6 where 6: "run_stats (map rec_stat ss) st5 = (Ret (), st6)" "result st6 = Some q"
    "calls st6 = calls st5 @ map (\<lambda>s. if tr_IsBlocked q then DidBlock s (tr_blockErr q) else DidPass s) ss"
    using run_stats_calls [OF ss 5(2)] by blast
  have "chain_Entry sc st = (Some q, st6)"
    by (simp add: chain_Entry_def chain_body_def slots proc_bind_def 1(1) 3(1) 4(1) 5(1) 6(1,2) get_result_def)
  then show "\<exists>q st' checked routed cb rb.
      chain_Entry sc st = (Some q, st') \<and> result st' = Some q \<and> tr_IsBlocked q = (cb \<or> rb) \<and>
      stops_at_block DidCheck cs checked cb \<and> stops_at_block DidRoute rs routed rb \<and>
      calls st' = calls st @ map DidPrepare ps @ checked @ routed @
        map (\<lambda>s. if tr_IsBlocked q then DidBlock s (tr_blockErr q) else DidPass s) ss"
    using 1(3) 3(3,4) 4(3,4) 5(3-5) 6(2,3)
    by (intro exI [of _ q] exI [of _ st6] exI [of _ checked] exI [of _ routed] exI [of _ "r \<noteq> None"] exI [of _ rb]) simp
  show "\<exists>st'. chain_exit sc st2 = (Ret (), st') \<and>
      calls st' = calls st2 @ (if ctx_IsBlocked (rs_ctx st2) then [] else map DidComplete ss)"
    using assms(3) run_completed_calls [OF fin assms(4)] by (auto simp: chain_exit_def slots)
qed

text \<open>A check of order 2 is added before one of order 1, then a statistic and a preparing slot.\<close>

definition demo_check :: "u32 \<Rightarrow> (unit, unit, unit, unit) rule_check_slot" where
  "demo_check n = \<lparr>check_Order = n, Check = (\<lambda>st. (Ret (if n = 2 then Some (NewTokenResultBlocked 0) else None), st))\<rparr>"

definition demo_stat_slot :: "(unit, unit, unit, unit) stat_slot" where
  "demo_stat_slot = \<lparr>stat_Order = 1, OnEntryPassed = proc_ret (), OnEntryBlocked = (\<lambda>_. proc_ret ()), OnCompleted = proc_ret ()\<rparr>"

definition demo_prepare :: "(unit, unit, unit, unit) stat_prepare_slot" where
  "demo_prepare = \<lparr>prepare_Order = 1, Prepare = proc_ret ()\<rparr>"

definition demo_adds :: "(unit, unit, unit, unit) slot_add list" where
  "demo_adds = [AddCheck (demo_check 2), AddCheck (demo_check 1), AddStat demo_stat_slot, AddPrepare demo_prepare]"

lemma demo_sorted:
  "sort_key prepare_Order (added_prepares demo_adds) = [demo_prepare]"
  "sort_key check_Order (added_checks demo_adds) = [demo_check 1, demo_check 2]"
  "sort_key router_Order (added_routers demo_adds) = []"
  "sort_key stat_Order (added_stats demo_adds) = [demo_stat_slot]"
  by (simp_all add: demo_adds_def demo_check_def word_le_nat_alt)

theorem slots_in_order_witness:
  "\<exists>q st' checked cb. chain_Entry (foldl add_recorded NewSlotChain demo_adds)
       \<lparr>rs_ctx = NewPooledContext, rs_handlers = [], rs_world = ((), [])\<rparr> = (Some q, st') \<and>
     tr_IsBlocked q = cb \<and> stops_at_block DidCheck [demo_check 1, demo_check 2] checked cb \<and>
     calls st' = DidPrepare demo_prepare # checked @
       [if cb then DidBlock demo_stat_slot (tr_blockErr q) else DidPass demo_stat_slot]"
proof -
  let ?st = "\<lparr>rs_ctx = NewPooledContext, rs_handlers = [], rs_world = ((), [])\<rparr>
    :: (unit, unit, unit, (unit, unit, unit, unit) recording) run_state"
  let ?st2 = "?st\<lparr>rs_ctx := NewPooledContext\<lparr>ctx_entry := Some 0\<rparr>\<rparr>"
  have ret: "\<forall>a \<in> set demo_adds. returning a"
    by (simp add: demo_adds_def demo_check_def demo_stat_slot_def demo_prepare_def keeps_result_def proc_ret_def)
  have st: "result ?st \<noteq> None" "ctx_entry (rs_ctx ?st2) \<noteq> None" "result ?st2 \<noteq> None"
    by (simp_all add: NewPooledContext_def)
  from slots_in_order [OF ret st] show ?thesis
    unfolding demo_sorted by (auto simp: stops_at_block_simps(1))
qed

end
