(* ===== verification/Spec2Isabelle.thy ===== *)
theory Spec2Isabelle
  imports MetricItem BreakerRace BreakerWindow CBManagerProps SlidingWindow EntryStat
    ThrottlingRace RejectFlow FlowSlot IsolationProps SystemSlot
    HotspotLoop HotspotThrottle HotspotFlights HotspotManagerProps
    RetryManagerProps RetrySimulator GrayProps MockRequests WeightRouting SlotRun
begin

text \<open>
  A model of \<open>gmiter\<close>, a Go library that guards the calls of a service: flow control, circuit breaking,
  isolation, system protection, hot parameter limits, retries, mocking and gray routing, over sliding windows of
  statistics. The sources are under \<open>src/\<close>; paths below are relative to it.

  \<^bold>\<open>The program.\<close> \<open>api.Entry\<close> (\<open>api/api.go\<close>) takes a context from a pool, gives it the resource and the
  input of the call and runs it through a slot chain (\<open>core/base/slot_chain.go\<close>): preparing slots find the
  statistic node of the resource, checking slots (flow, breaker, isolation, system, hot parameters, mock) may
  block, a router slot may redirect, statistic slots count. Leaving the entry runs the statistic slots once more
  and gives the context back. Each kind of rule has a manager that keeps the rules of a resource and the
  controllers built from them; its slot looks the controllers up and asks them. Controllers read the node of
  the resource or windows of their own; all windows are circular arrays of buckets (\<open>core/stat/base\<close>).

  \<^bold>\<open>How the model is written.\<close> Machine integers are words of their width (\<open>i32\<close>, \<open>i64\<close>, \<open>u32\<close>, \<open>u64\<close>), so
  arithmetic wraps as in Go; a \<open>float64\<close> is an exact rational, an infinity or NaN, rounded after every operation
  (\<open>Float64\<close>). A string is its list of bytes. A Go map is an association list (\<open>gomap\<close> of \<open>Prelude\<close>), a slice
  a list, and an option of a list where \<open>reflect.DeepEqual\<close> must tell nil from empty. State is a record that an
  operation takes and returns. A call that may fail returns \<open>'a go\<close>: \<open>Ret\<close> a value, \<open>Err\<close> a returned error,
  \<open>Panic\<close> a run-time panic. A loop that may not end is a \<open>partial_function (option)\<close>: \<open>None\<close> is a call that does
  not return, and theorems that a call returns are stated as such. No loop is cut off by fuel: the retries of a
  compare-and-swap are modelled as steps or shown to succeed at once when a call runs alone. Readings of
  the clock, random draws, and the results of code outside of the repository are arguments.

  \<^bold>\<open>Theories.\<close>
  \<^item> Foundations: \<open>Prelude\<close> (outcomes, maps with the locale \<open>kv_store\<close>, word lemmas), \<open>GoStrings\<close> (\<open>strings\<close>,
    \<open>strconv\<close>, \<open>util/string.go\<close>), \<open>Float64\<close> (\<open>float64\<close>, \<open>util/math.go\<close>), \<open>Reuse\<close> (the choice of an old controller for a
    new rule), \<open>RuleLoad\<close> (grouping and validity of rules; the locale \<open>rule_store\<close>, the contract of a rule
    manager against an abstract store of what was last asked for, interpreted for isolation).
  \<^item> Values and chain, \<open>core/base\<close>, \<open>api\<close>: \<open>BaseTypes\<close> (\<open>result.go\<close>, \<open>block_error.go\<close>, \<open>resource.go\<close>,
    \<open>tok_result.go\<close>), \<open>Context\<close> (\<open>context.go\<close>: \<open>entry_context\<close>), \<open>SlotChain\<close> (\<open>slot_chain.go\<close>: slots in order, the run
    with its recovered panics), \<open>SlotRun\<close> (the calls that an entry and its exit make of the slots,
    recorded), \<open>Entry\<close> (\<open>entry.go\<close>, \<open>api.go\<close>, \<open>tracer.go\<close>: a store of contexts and entries and a pool), \<open>EntryProps\<close> (who may share a context), \<open>EntryStat\<close> (the concurrency of a node over entries made, traced
    and left), \<open>MetricItem\<close> (\<open>metric_item.go\<close>: the two line formats and their parser).
  \<^item> Statistics, \<open>core/stat\<close>: \<open>Metric\<close> (\<open>core/base/stat.go\<close>, \<open>metric_bucket.go\<close>), \<open>LeapArray\<close> (\<open>leap_array.go\<close>: the
    array over any bucket type, with the locale \<open>bucket_generator\<close> and the invariant that a bucket holds what was
    recorded in its period), \<open>BucketLeapArray\<close> (the refinement to a log of events), \<open>SlidingWindow\<close>
    (\<open>sliding_window_metric.go\<close>: sums, rates and items per second as functions of the log), \<open>StatNode\<close>
    (\<open>base_node.go\<close>, \<open>resource_node.go\<close>, \<open>node_storage.go\<close> and the two slots).
  \<^item> Circuit breaking, \<open>core/circuitbreaker\<close>: \<open>CircuitBreaker\<close> (\<open>circuit_breaker.go\<close>, \<open>rule.go\<close>), \<open>BreakerMachine\<close>
    (the locale \<open>breaker_machine\<close>, interpreted by the three breakers and by their sum: notes form a path of the
    state diagram, an open breaker rejects, a half-open one counts its probes), \<open>BreakerWindow\<close> (when a new breaker
    trips, from the log of requests), \<open>BreakerRace\<close> (goroutines in \<open>TryPass\<close>, cut at the shared accesses, one probe
    per open period), \<open>CBManager\<close> and \<open>CBManagerProps\<close> (\<open>rule_manager.go\<close>, \<open>slot.go\<close>, \<open>stat_slot.go\<close>: loading, no
    sharing of breakers or windows, state kept over a reload).
  \<^item> Flow control, \<open>core/flow\<close>: \<open>FlowRule\<close> (\<open>rule.go\<close>), \<open>Throttling\<close> (\<open>tc_throttling.go\<close>, sequentially, against a queue
    of slots), \<open>ThrottlingRace\<close> (the same under every interleaving), \<open>FlowControl\<close> (\<open>traffic_shaping.go\<close>,
    \<open>tc_default.go\<close>, \<open>tc_warm_up.go\<close>, \<open>tc_adaptive.go\<close>), \<open>RejectFlow\<close> (the reject checker against a counter over a
    window, a locale with two providers), \<open>FlowManager\<close> (\<open>rule_manager.go\<close>, \<open>cluster_metric.go\<close>), \<open>FlowSlot\<close>
    (\<open>slot.go\<close>, \<open>standalone_stat_slot.go\<close>, the limiters and the client and server of the cluster mode).
  \<^item> Isolation, \<open>core/isolation\<close>: \<open>Isolation\<close> (rules, manager, slot), \<open>IsolationProps\<close> (the rules in force after any
    loads; how far overlapping requests exceed a limit). System protection, \<open>core/system\<close>: \<open>SystemSlot\<close>.
  \<^item> Hot parameters, \<open>core/hotspot\<close>: \<open>Lru\<close> (\<open>cache\<close>: list and map against a list of entries), \<open>HotspotRule\<close>
    (\<open>rule.go\<close>), \<open>HotspotArgs\<close> (the extraction of an argument), \<open>HotspotControl\<close> (\<open>traffic_shaping.go\<close>: cells behind two
    caches), \<open>CounterCache\<close> (the locale of the cache interface), \<open>HotspotBucket\<close> and \<open>HotspotRate\<close> (the reject
    controller as token buckets, and its rate), \<open>HotspotLoop\<close> (exactly when its loop does not end), \<open>HotspotThrottle\<close>
    (spacing), \<open>HotspotManager\<close>, \<open>HotspotSlot\<close> (\<open>rule_manager.go\<close>, \<open>slot.go\<close>, \<open>concurrency_stat_slot.go\<close>),
    \<open>HotspotFlights\<close> (concurrency limits through both slots), \<open>HotspotManagerProps\<close> (a step relation of loads,
    checks and counts, and its invariant).
  \<^item> Retries, \<open>core/retry\<close>, \<open>util/try_catch_finally.go\<close>: \<open>RetryPolicy\<close> (\<open>policy\<close>, \<open>context\<close>, \<open>classify\<close>), \<open>RetryBackoff\<close>
    (\<open>backoff\<close>), \<open>RetryTemplate\<close> (\<open>support\<close>: the execution and the builder), \<open>RetryRuns\<close> and \<open>RetryProps\<close> (a run is the
    first ending round of its scenario), \<open>RetryBounds\<close> (attempts and pauses), \<open>RetryManager\<close>, \<open>RetryManagerProps\<close>
    (\<open>rule\<close>: which template a load installs), \<open>RetrySimulator\<close>.
  \<^item> Gray routing, \<open>core/gray\<close>: \<open>GrayRule\<close> (rules and the condition, tag and weight selectors), \<open>GraySlot\<close>
    (controllers, manager, router slot), \<open>GrayProps\<close> (the longest pattern, exact weights, where routing panics).
  \<^item> Mocking, \<open>core/mock\<close>: \<open>MockRule\<close> (\<open>rule.go\<close> and the checks of headers and metadata), \<open>MockCheck\<close>
    (\<open>traffic_shaping.go\<close>, \<open>tc_*.go\<close>: conditions, replacing in answers and requests), \<open>MockManager\<close>
    (\<open>rule_manager.go\<close>, \<open>slot.go\<close>: loading, the requests held for reporting, the slot), \<open>MockProps\<close> (controllers in
    use are built from their rules; requests that are not handled as meant), \<open>MockRequests\<close> (the requests held
    over any loads and reports: bounded, and none handed out twice).
  \<^item> Weighted nodes, \<open>core/weight_router\<close>: \<open>WeightRouting\<close> (precedence of client rules, the exact share of each
    node after a load, overflow).
  \<^item> Utilities: \<open>UtilFuncs\<close>: the atomic flag, random strings and hashes of \<open>util\<close>.

  \<^bold>\<open>Groups of lemmas.\<close> For the windows: refinement of logs. For controllers: a specification over integers or logs
  (a queue of slots, token buckets, calls in flight, a scenario) and a lemma that every operation follows it,
  then bounds over any sequence of operations. For managers: what is in force after a load, no sharing, reuse. For
  concurrency: step relations whose steps are the atomic accesses of the source, with invariants by rule
  induction. Lemmas that show a defect of the code are named in the findings beside the manifest.

  \<^bold>\<open>Bounds.\<close> Time stamps are assumed below \<open>2 ^ 63\<close> where they are subtracted or compared as signed; each theorem
  states the bound it needs. Whole numbers below \<open>2 ^ 53\<close> are exact doubles. Rates are bounded where the code's
  products could leave 64 bits. A conversion of a double that is out of range gives the argument \<open>oor\<close>.

  \<^bold>\<open>Not modelled.\<close> Logging, the Prometheus counters and the exporters, since they are output only. Files, the
  network and their formats: the metric log (\<open>core/log/metric\<close>), configuration files and the environment
  (\<open>core/config\<close>), \<open>transport\<close>, \<open>ext/datasource\<close>, the collectors of \<open>core/system_metric\<close>, the token service over
  Redis and HTTP. The adapters under \<open>pkg\<close>, which call the API from other frameworks. JSON packages, reflection
  and regular expressions are arguments of the definitions that use them. A \<open>range\<close> over a map visits it in the
  order of the list; where Go leaves the order open, no property rests on it. A mutex makes an operation one
  step, except where the modelled code forgets to release it. Generators that a program registers itself are
  left out. Keys of caches that differ from themselves (NaN) and nil arguments are not in the model.
\<close>

end
